(* ===== verification/Prelude.thy ===== *)
theory Prelude
  imports Main "HOL-Library.Word" "HOL-Library.AList"
begin

text \<open>
  Shared vocabulary of the development: Rust's machine integers as words, the saturating
  and wrapping operations the code uses, \<open>HashMap\<close>/\<open>DashMap\<close> as association lists with
  pairwise different keys, \<open>BTreeMap\<close> as key-sorted association lists, in-place updates of
  the first matching element of a vector, and reachability for step relations.  The two
  map representations implement one interface, the locale \<open>keyed_store\<close>; allocators of
  fresh identifiers share the locale \<open>id_generator\<close>; invariants of step relations are
  lifted to all reachable states by the locale \<open>invariant_system\<close>.
\<close>

unbundle bit_operations_syntax

named_theorems guid_simps \<open>unfolding of the GUID layout\<close>
named_theorems packet_simps \<open>unfolding of the packet primitives\<close>
named_theorems loot_simps \<open>unfolding of the loot authority operations\<close>
named_theorems group_simps \<open>unfolding of the group operations\<close>

section \<open>Machine integers\<close>

type_synonym u8 = "8 word"
type_synonym u16 = "16 word"
type_synonym u32 = "32 word"
type_synonym u64 = "64 word"
type_synonym i8 = "8 word"
type_synonym i16 = "16 word"
type_synonym i32 = "32 word"
type_synonym i64 = "64 word"
type_synonym f32 = "32 word"

text \<open>
  A signed integer of the source has the same type as the unsigned one of its width and is
  read with \<^const>\<open>sint\<close> where the code compares or divides it; an \<open>f32\<close> is its IEEE-754
  bit pattern, which most of the modelled code only stores and copies; where it computes with
  floats, \<open>Float32\<close> reads the patterns.
\<close>

definition saturating_add :: "'a::len word \<Rightarrow> 'a word \<Rightarrow> 'a word" where
  "saturating_add a b = (if unat a + unat b < 2 ^ LENGTH('a) then a + b else - 1)"

definition saturating_sub :: "'a::len word \<Rightarrow> 'a word \<Rightarrow> 'a word" where
  "saturating_sub a b = (if b \<le> a then a - b else 0)"

text \<open>\<open>x.wrapping_add(1).max(1)\<close>: the successor that skips zero.\<close>

definition bump_nonzero :: "'a::len word \<Rightarrow> 'a word" where
  "bump_nonzero a = max (a + 1) 1"

lemma unat_saturating_add:
  fixes a b :: "'a::len word"
  shows "unat (saturating_add a b) = min (unat a + unat b) (2 ^ LENGTH('a) - 1)"
  by (auto simp: saturating_add_def unat_word_ariths unsigned_minus_1_eq_mask mask_eq_exp_minus_1 min_def)

lemma unat_saturating_sub [simp]: "unat (saturating_sub a b) = unat a - unat b"
  by (auto simp: saturating_sub_def word_le_nat_alt unat_sub)

lemma bump_nonzero_pos: "bump_nonzero (a :: 64 word) \<noteq> 0"
proof -
  have "(1 :: 64 word) \<le> bump_nonzero a" by (simp add: bump_nonzero_def)
  then show ?thesis by auto
qed

lemma unat_bump_nonzero:
  fixes a :: "64 word"
  assumes "unat a < 2 ^ 64 - 1"
  shows "unat (bump_nonzero a) = Suc (unat a)"
proof -
  have s: "unat (a + 1) = Suc (unat a)"
    using assms by (simp add: unat_word_ariths)
  then have "1 \<le> a + 1" by (simp add: word_le_nat_alt)
  then have "max (a + 1) 1 = a + 1" by (rule max_absorb1)
  with s show ?thesis by (simp add: bump_nonzero_def)
qed

section \<open>Little-endian bytes\<close>

text \<open>\<open>to_le_bytes\<close> and \<open>from_le_bytes\<close> of the integer types, for any number of bytes.\<close>

fun to_le_bytes :: "nat \<Rightarrow> 'a::len word \<Rightarrow> u8 list" where
  "to_le_bytes 0 w = []"
| "to_le_bytes (Suc n) w = ucast w # to_le_bytes n (drop_bit 8 w)"

fun from_le_bytes :: "u8 list \<Rightarrow> 'a::len word" where
  "from_le_bytes [] = 0"
| "from_le_bytes (b # bs) = ucast b OR push_bit 8 (from_le_bytes bs)"

lemma length_to_le_bytes [simp]: "length (to_le_bytes n w) = n"
  by (induction n arbitrary: w) auto

lemma nth_to_le_bytes: "i < n \<Longrightarrow> to_le_bytes n w ! i = ucast (drop_bit (8 * i) w)"
  by (induction n arbitrary: w i)
    (auto simp: nth_Cons drop_bit_drop_bit add.commute split: nat.splits)

lemma bit_from_le_bytes:
  "bit (from_le_bytes bs :: 'a::len word) i \<longleftrightarrow>
     i < LENGTH('a) \<and> i div 8 < length bs \<and> bit (bs ! (i div 8)) (i mod 8)"
proof (induction bs arbitrary: i)
  case Nil
  then show ?case by simp
next
  case (Cons b bs)
  show ?case
  proof (cases "i < 8")
    case True
    then show ?thesis by (auto simp: bit_simps)
  next
    case False
    then obtain j where j: "i = 8 + j" by (auto simp: not_less le_iff_add)
    have "\<not> bit b (8 + j)" by (auto dest: bit_imp_le_length)
    moreover have "(8 + j) div 8 = Suc (j div 8)" by simp
    ultimately show ?thesis using Cons.IH [of j] by (auto simp: j bit_simps simp del: div_add_self1)
  qed
qed

lemma from_to_le_bytes [simp]:
  assumes "8 * n = LENGTH('a)"
  shows "from_le_bytes (to_le_bytes n w) = (w :: 'a::len word)"
proof (rule bit_word_eqI)
  fix i assume i: "i < LENGTH('a)"
  with assms have "i div 8 < n" by linarith
  with i show "bit (from_le_bytes (to_le_bytes n w) :: 'a word) i = bit w i"
    by (simp add: bit_from_le_bytes nth_to_le_bytes bit_simps)
qed

lemma to_from_le_bytes:
  assumes "8 * length bs \<le> LENGTH('a)"
  shows "to_le_bytes (length bs) (from_le_bytes bs :: 'a::len word) = bs"
proof (rule nth_equalityI)
  fix i assume "i < length (to_le_bytes (length bs) (from_le_bytes bs :: 'a word))"
  then have i: "i < length bs" by simp
  show "to_le_bytes (length bs) (from_le_bytes bs :: 'a word) ! i = bs ! i"
    by (rule bit_word_eqI)
      (use i assms in \<open>auto simp: nth_to_le_bytes bit_simps bit_from_le_bytes\<close>)
qed simp

section \<open>Vectors: updating the first match\<close>

text \<open>
  \<open>iter_mut().find(p)\<close> followed by an assignment changes the first element that satisfies
  \<open>p\<close> and no other; \<open>iter().find\<close> is \<^const>\<open>find\<close> and \<open>iter().position\<close> is
  \<open>position\<close> below.
\<close>

fun update_first :: "('a \<Rightarrow> bool) \<Rightarrow> ('a \<Rightarrow> 'a) \<Rightarrow> 'a list \<Rightarrow> 'a list" where
  "update_first p f [] = []"
| "update_first p f (x # xs) = (if p x then f x # xs else x # update_first p f xs)"

fun position :: "('a \<Rightarrow> bool) \<Rightarrow> 'a list \<Rightarrow> nat option" where
  "position p [] = None"
| "position p (x # xs) = (if p x then Some 0 else map_option Suc (position p xs))"

lemma length_update_first [simp]: "length (update_first p f xs) = length xs"
  by (induction xs) auto

lemma update_first_none: "find p xs = None \<Longrightarrow> update_first p f xs = xs"
  by (induction xs) (auto split: if_splits)

lemma update_first_id: "(\<And>x. p x \<Longrightarrow> x \<in> set xs \<Longrightarrow> f x = x) \<Longrightarrow> update_first p f xs = xs"
  by (induction xs) auto

lemma update_first_cong:
  "(\<And>x. find p xs = Some x \<Longrightarrow> f x = g x) \<Longrightarrow> update_first p f xs = update_first p g xs"
  by (induction xs) auto

lemma update_first_comp:
  "(\<And>x. p x \<Longrightarrow> p (g x)) \<Longrightarrow>
     update_first p f (update_first p g xs) = update_first p (f \<circ> g) xs"
  by (induction xs) auto

lemma find_update_first_same:
  "(\<And>x. p x \<Longrightarrow> p (f x)) \<Longrightarrow> find p (update_first p f xs) = map_option f (find p xs)"
  by (induction xs) auto

lemma find_update_first_other:
  "(\<And>x. p x \<Longrightarrow> q x = False) \<Longrightarrow> (\<And>x. p x \<Longrightarrow> q (f x) = False) \<Longrightarrow>
     find q (update_first p f xs) = find q xs"
  by (induction xs) auto

lemma map_update_first: "(\<And>x. g (f x) = g x) \<Longrightarrow> map g (update_first p f xs) = map g xs"
  by (induction xs) auto

lemma find_Some_mem: "find p xs = Some x \<Longrightarrow> x \<in> set xs \<and> p x"
  by (induction xs) (auto split: if_splits)

lemma find_None_iff_all: "find p xs = None \<longleftrightarrow> (\<forall>x\<in>set xs. \<not> p x)"
  by (induction xs) auto

lemma set_update_first: "set (update_first p f xs) \<subseteq> set xs \<union> f ` {x \<in> set xs. p x}"
  by (induction xs) auto

lemma position_None: "position p xs = None \<longleftrightarrow> (\<forall>x\<in>set xs. \<not> p x)"
  by (induction xs) auto

lemma position_Some:
  "position p xs = Some i \<Longrightarrow> i < length xs \<and> p (xs ! i) \<and> (\<forall>j<i. \<not> p (xs ! j))"
proof (induction xs arbitrary: i)
  case Nil
  then show ?case by simp
next
  case (Cons x xs)
  show ?case
  proof (cases "p x")
    case True
    with Cons.prems show ?thesis by simp
  next
    case False
    with Cons.prems obtain k where k: "position p xs = Some k" "i = Suc k" by auto
    from Cons.IH [OF k(1)] k(2) False show ?thesis
      by (auto simp: nth_Cons split: nat.splits)
  qed
qed

lemma position_find: "position p xs = Some i \<Longrightarrow> find p xs = Some (xs ! i)"
  by (induction xs arbitrary: i) (auto split: if_splits)

lemma find_position: "find p xs = Some x \<Longrightarrow> \<exists>i. position p xs = Some i \<and> xs ! i = x"
  by (induction xs) (auto split: if_splits)

section \<open>Keyed stores\<close>

text \<open>
  The contract the components rely on for \<open>HashMap\<close>, \<open>DashMap\<close> and \<open>BTreeMap\<close>: what a lookup
  returns after each operation, and that every operation keeps the representation invariant.
\<close>

locale keyed_store =
  fixes get :: "'m \<Rightarrow> 'k \<Rightarrow> 'v option"
    and insert :: "'k \<Rightarrow> 'v \<Rightarrow> 'm \<Rightarrow> 'm"
    and remove :: "'k \<Rightarrow> 'm \<Rightarrow> 'm"
    and empty :: 'm
    and ok :: "'m \<Rightarrow> bool"
  assumes get_empty: "get empty k = None"
    and get_insert: "ok m \<Longrightarrow> get (insert k v m) k' = (if k' = k then Some v else get m k')"
    and get_remove: "ok m \<Longrightarrow> get (remove k m) k' = (if k' = k then None else get m k')"
    and ok_empty: "ok empty"
    and ok_insert: "ok m \<Longrightarrow> ok (insert k v m)"
    and ok_remove: "ok m \<Longrightarrow> ok (remove k m)"
begin

lemma dom_insert: "ok m \<Longrightarrow> dom (get (insert k v m)) = Set.insert k (dom (get m))"
  by (auto simp: get_insert)

lemma dom_remove: "ok m \<Longrightarrow> dom (get (remove k m)) = dom (get m) - {k}"
  by (auto simp: get_remove split: if_splits)

lemma insert_overwrites: "ok m \<Longrightarrow> get (insert k v (insert k w m)) = get (insert k v m)"
  by (auto simp: get_insert ok_insert)

lemma remove_insert_new:
  "ok m \<Longrightarrow> get m k = None \<Longrightarrow> get (remove k (insert k v m)) = get m"
  by (auto simp: get_insert get_remove ok_insert)

lemma insert_commute:
  "ok m \<Longrightarrow> k \<noteq> l \<Longrightarrow> get (insert k v (insert l w m)) = get (insert l w (insert k v m))"
  by (auto simp: get_insert ok_insert)

end

subsection \<open>Hash maps\<close>

text \<open>
  A \<open>HashMap\<close>/\<open>DashMap\<close> is the list of its entries with pairwise different keys.  The list
  order stands for the unspecified iteration order, so no theorem may depend on it.
\<close>

type_synonym ('k, 'v) hash_map = "('k \<times> 'v) list"

abbreviation hm_get :: "('k, 'v) hash_map \<Rightarrow> 'k \<Rightarrow> 'v option" where
  "hm_get m k \<equiv> map_of m k"

abbreviation hm_insert :: "'k \<Rightarrow> 'v \<Rightarrow> ('k, 'v) hash_map \<Rightarrow> ('k, 'v) hash_map" where
  "hm_insert k v m \<equiv> AList.update k v m"

abbreviation hm_remove :: "'k \<Rightarrow> ('k, 'v) hash_map \<Rightarrow> ('k, 'v) hash_map" where
  "hm_remove k m \<equiv> AList.delete k m"

abbreviation hm_ok :: "('k, 'v) hash_map \<Rightarrow> bool" where
  "hm_ok m \<equiv> distinct (map fst m)"

definition hm_contains_key :: "('k, 'v) hash_map \<Rightarrow> 'k \<Rightarrow> bool" where
  "hm_contains_key m k = (hm_get m k \<noteq> None)"

definition hm_values :: "('k, 'v) hash_map \<Rightarrow> 'v list" where
  "hm_values m = map snd m"

definition hm_retain :: "('k \<Rightarrow> 'v \<Rightarrow> bool) \<Rightarrow> ('k, 'v) hash_map \<Rightarrow> ('k, 'v) hash_map" where
  "hm_retain p m = filter (\<lambda>(k, v). p k v) m"

text \<open>\<open>get_mut\<close> followed by an assignment through the reference.\<close>

definition hm_modify :: "'k \<Rightarrow> ('v \<Rightarrow> 'v) \<Rightarrow> ('k, 'v) hash_map \<Rightarrow> ('k, 'v) hash_map" where
  "hm_modify k f m = (case hm_get m k of None \<Rightarrow> m | Some v \<Rightarrow> hm_insert k (f v) m)"

interpretation hm: keyed_store hm_get hm_insert hm_remove "[]" hm_ok
  by unfold_locales (auto simp: update_conv' delete_conv' distinct_update distinct_delete)

declare update_conv' [simp] delete_conv' [simp] distinct_update [simp] distinct_delete [simp]

lemma hm_contains_key_iff [simp]: "hm_contains_key m k \<longleftrightarrow> k \<in> dom (hm_get m)"
  by (auto simp: hm_contains_key_def)

lemma map_of_filter_keys:
  "map_of (filter (\<lambda>(k, v). p k) m) k' = (if p k' then map_of m k' else None)"
  by (induction m) auto

lemma map_of_filter_distinct:
  "hm_ok m \<Longrightarrow> map_of (filter (\<lambda>(k, v). p k v) m) k' =
     (case map_of m k' of None \<Rightarrow> None | Some v \<Rightarrow> if p k' v then Some v else None)"
proof (induction m)
  case Nil
  then show ?case by simp
next
  case (Cons e m)
  obtain k v where e: "e = (k, v)" by (cases e)
  from Cons.prems e have "map_of m k = None" by (auto simp: map_of_eq_None_iff)
  with Cons e show ?case by (auto split: option.splits)
qed

lemma hm_get_retain [simp]:
  "hm_ok m \<Longrightarrow> hm_get (hm_retain p m) k =
     (case hm_get m k of None \<Rightarrow> None | Some v \<Rightarrow> if p k v then Some v else None)"
  by (simp add: hm_retain_def map_of_filter_distinct)

lemma hm_ok_retain [simp]: "hm_ok m \<Longrightarrow> hm_ok (hm_retain p m)"
  by (simp add: hm_retain_def distinct_map_filter)

lemma hm_get_modify [simp]:
  "hm_get (hm_modify k f m) k' = (if k' = k then map_option f (hm_get m k) else hm_get m k')"
  by (auto simp: hm_modify_def split: option.splits)

lemma hm_ok_modify [simp]: "hm_ok m \<Longrightarrow> hm_ok (hm_modify k f m)"
  by (auto simp: hm_modify_def split: option.splits)

lemma hm_get_mem: "hm_get m k = Some v \<Longrightarrow> (k, v) \<in> set m"
  by (rule map_of_SomeD)

lemma hm_mem_get: "hm_ok m \<Longrightarrow> (k, v) \<in> set m \<Longrightarrow> hm_get m k = Some v"
  by (rule map_of_is_SomeI)

lemma hm_empty_iff: "m = [] \<longleftrightarrow> (\<forall>k. hm_get m k = None)"
  by (cases m) auto

lemma update_same: "hm_get m k = Some v \<Longrightarrow> hm_insert k v m = m"
  by (induction m) auto

lemma hm_remove_absent: "hm_get m k = None \<Longrightarrow> hm_remove k m = m"
  by (induction m) (auto simp: AList.delete_eq split: if_splits)

lemma hm_modify_id: "(\<And>v. hm_get m k = Some v \<Longrightarrow> f v = v) \<Longrightarrow> hm_modify k f m = m"
  by (auto simp: hm_modify_def update_same split: option.splits)

lemma hm_modify_modify: "hm_modify k f (hm_modify k g m) = hm_modify k (f \<circ> g) m"
proof (cases "hm_get m k")
  case None
  then show ?thesis by (simp add: hm_modify_def)
next
  case (Some v)
  have "hm_insert k a (hm_insert k b m) = hm_insert k a m" for a b
    by (induction m) auto
  with Some show ?thesis by (simp add: hm_modify_def)
qed

lemma hm_modify_cong:
  "(\<And>v. hm_get m k = Some v \<Longrightarrow> f v = g v) \<Longrightarrow> hm_modify k f m = hm_modify k g m"
  by (auto simp: hm_modify_def split: option.splits)

text \<open>Lookups stay lookups: they are not turned into membership in the list of entries.\<close>

declare map_of_eq_Some_iff [simp del] Some_eq_map_of_iff [simp del]

subsection \<open>Ordered maps\<close>

text \<open>A \<open>BTreeMap\<close> is the list of its entries in ascending key order.\<close>

fun bt_insert :: "'k::linorder \<Rightarrow> 'v \<Rightarrow> ('k \<times> 'v) list \<Rightarrow> ('k \<times> 'v) list" where
  "bt_insert k v [] = [(k, v)]"
| "bt_insert k v ((l, w) # m) =
     (if k < l then (k, v) # (l, w) # m
      else if k = l then (k, v) # m
      else (l, w) # bt_insert k v m)"

abbreviation bt_ok :: "('k::linorder \<times> 'v) list \<Rightarrow> bool" where
  "bt_ok m \<equiv> sorted_wrt (<) (map fst m)"

lemma bt_insert_keys: "set (map fst (bt_insert k v m)) = insert k (set (map fst m))"
  by (induction k v m rule: bt_insert.induct) auto

lemma bt_ok_insert: "bt_ok m \<Longrightarrow> bt_ok (bt_insert k v m)"
proof (induction k v m rule: bt_insert.induct)
  case (2 k v l w m)
  then show ?case
    using bt_insert_keys [of k v m] by (auto dest!: equalityD1)
qed simp

lemma map_of_less: "bt_ok m \<Longrightarrow> \<forall>l\<in>set (map fst m). k < l \<Longrightarrow> map_of m k = None"
  by (auto simp: map_of_eq_None_iff)

lemma bt_get_insert:
  "bt_ok m \<Longrightarrow> map_of (bt_insert k v m) k' = (if k' = k then Some v else map_of m k')"
  by (induction k v m rule: bt_insert.induct) auto

lemma bt_ok_delete: "bt_ok m \<Longrightarrow> bt_ok (AList.delete k m)"
  by (induction m) (auto simp: AList.delete_eq)

interpretation bt: keyed_store map_of bt_insert AList.delete "[]" bt_ok
  by unfold_locales (auto simp: bt_get_insert bt_ok_insert bt_ok_delete)

section \<open>Allocators of fresh identifiers\<close>

text \<open>
  An allocator returns the identifier at its cursor and moves the cursor strictly forward,
  or refuses.  Whatever the representation, the identifiers handed out by any number of
  calls are pairwise different.
\<close>

fun generate_many :: "('s \<Rightarrow> ('i \<times> 's) option) \<Rightarrow> nat \<Rightarrow> 's \<Rightarrow> ('i list \<times> 's) option" where
  "generate_many gen 0 s = Some ([], s)"
| "generate_many gen (Suc n) s =
     (case gen s of None \<Rightarrow> None
      | Some (i, s') \<Rightarrow> (case generate_many gen n s' of None \<Rightarrow> None
                        | Some (is, s'') \<Rightarrow> Some (i # is, s'')))"

locale id_generator =
  fixes try_generate :: "'s \<Rightarrow> ('i::linorder \<times> 's) option"
    and cursor :: "'s \<Rightarrow> 'i"
  assumes generate_id: "try_generate s = Some (i, s') \<Longrightarrow> i = cursor s"
    and generate_advances: "try_generate s = Some (i, s') \<Longrightarrow> cursor s < cursor s'"
begin

lemma generate_many_sorted:
  "generate_many try_generate n s = Some (is, s') \<Longrightarrow>
     sorted_wrt (<) is \<and> (\<forall>i\<in>set is. cursor s \<le> i) \<and> length is = n"
proof (induction n arbitrary: s "is")
  case 0
  then show ?case by simp
next
  case (Suc n)
  then obtain i s1 ks where g: "try_generate s = Some (i, s1)"
    and m: "generate_many try_generate n s1 = Some (ks, s')" and eq: "is = i # ks"
    by (auto split: option.splits prod.splits)
  from Suc.IH [OF m] have ih: "sorted_wrt (<) ks" "\<forall>j\<in>set ks. cursor s1 \<le> j" "length ks = n"
    by auto
  from generate_id [OF g] generate_advances [OF g] ih(2) have "\<forall>j\<in>set ks. i < j"
    by (auto intro: less_le_trans)
  with ih eq generate_id [OF g] generate_advances [OF g] show ?case
    by (auto intro: less_imp_le)
qed

lemma generate_many_distinct:
  "generate_many try_generate n s = Some (is, s') \<Longrightarrow> distinct is"
  using generate_many_sorted strict_sorted_iff by blast

end

lemma generate_many_all:
  assumes "\<And>s i s'. gen s = Some (i, s') \<Longrightarrow> P i"
  shows "generate_many gen n s = Some (is, s') \<Longrightarrow> \<forall>i\<in>set is. P i"
proof (induction n arbitrary: s "is")
  case (Suc n)
  then show ?case by (fastforce dest: assms split: option.splits prod.splits)
qed simp

section \<open>Step relations and invariants\<close>

inductive reachable :: "('s \<Rightarrow> bool) \<Rightarrow> ('s \<Rightarrow> 's \<Rightarrow> bool) \<Rightarrow> 's \<Rightarrow> bool"
  for init step where
  reach_init: "init s \<Longrightarrow> reachable init step s"
| reach_step: "reachable init step s \<Longrightarrow> step s t \<Longrightarrow> reachable init step t"

locale invariant_system =
  fixes init :: "'s \<Rightarrow> bool"
    and step :: "'s \<Rightarrow> 's \<Rightarrow> bool"
    and inv :: "'s \<Rightarrow> bool"
  assumes inv_init: "init s \<Longrightarrow> inv s"
    and inv_step: "inv s \<Longrightarrow> step s t \<Longrightarrow> inv t"
begin

lemma reachable_inv: "reachable init step s \<Longrightarrow> inv s"
  by (induction rule: reachable.induct) (auto intro: inv_init inv_step)

lemma steps_inv: "rtranclp step s t \<Longrightarrow> inv s \<Longrightarrow> inv t"
  by (induction rule: rtranclp_induct) (auto intro: inv_step)

end

end
