(* ===== verification/Guid.thy ===== *)
theory Guid
  imports Prelude
begin

text \<open>
  The 128-bit object identifiers of \<open>crates/wow-core/src/guid.rs\<close>: the \<open>HighGuid\<close>
  discriminators, the bit layout of the two quadwords with its accessors and factory
  functions, the raw byte form, the total order used by ordered collections, the typed
  newtypes, and the three identifier generators.  A quadword is an \<open>i64\<close>, so right shifts
  are arithmetic (\<^const>\<open>signed_drop_bit\<close>).
\<close>

section \<open>Discriminators\<close>

datatype (plugins only: code size) HighGuid =
    HgNull | HgUniq | HgPlayer | HgItem | HgWorldTransaction | HgStaticDoor | HgTransport |
    HgConversation | HgCreature | HgVehicle | HgPet | HgGameObject | HgDynamicObject |
    HgAreaTrigger | HgCorpse | HgLootObject | HgSceneObject | HgScenario | HgAIGroup |
    HgDynamicDoor | HgClientActor | HgVignette | HgCallForHelp | HgAIResource | HgAILock |
    HgAILockTicket | HgChatChannel | HgParty | HgGuild | HgWowAccount | HgBNetAccount |
    HgGMTask | HgMobileSession | HgRaidGroup | HgSpell | HgMail | HgWebObj | HgLFGObject |
    HgLFGList | HgUserRouter | HgPVPQueueGroup | HgUserClient | HgPetBattle |
    HgUniqUserClient | HgBattlePet | HgCommerceObj | HgClientSession | HgCast |
    HgClientConnection | HgClubFinder | HgToolsClient | HgWorldLayer | HgArenaTeam |
    HgLMMParty | HgLMMLobby | HgCount

primrec HighGuid_as_u8 :: "HighGuid \<Rightarrow> u8" where
  "HighGuid_as_u8 HgNull = 0"
| "HighGuid_as_u8 HgUniq = 1"
| "HighGuid_as_u8 HgPlayer = 2"
| "HighGuid_as_u8 HgItem = 3"
| "HighGuid_as_u8 HgWorldTransaction = 4"
| "HighGuid_as_u8 HgStaticDoor = 5"
| "HighGuid_as_u8 HgTransport = 6"
| "HighGuid_as_u8 HgConversation = 7"
| "HighGuid_as_u8 HgCreature = 8"
| "HighGuid_as_u8 HgVehicle = 9"
| "HighGuid_as_u8 HgPet = 10"
| "HighGuid_as_u8 HgGameObject = 11"
| "HighGuid_as_u8 HgDynamicObject = 12"
| "HighGuid_as_u8 HgAreaTrigger = 13"
| "HighGuid_as_u8 HgCorpse = 14"
| "HighGuid_as_u8 HgLootObject = 15"
| "HighGuid_as_u8 HgSceneObject = 16"
| "HighGuid_as_u8 HgScenario = 17"
| "HighGuid_as_u8 HgAIGroup = 18"
| "HighGuid_as_u8 HgDynamicDoor = 19"
| "HighGuid_as_u8 HgClientActor = 20"
| "HighGuid_as_u8 HgVignette = 21"
| "HighGuid_as_u8 HgCallForHelp = 22"
| "HighGuid_as_u8 HgAIResource = 23"
| "HighGuid_as_u8 HgAILock = 24"
| "HighGuid_as_u8 HgAILockTicket = 25"
| "HighGuid_as_u8 HgChatChannel = 26"
| "HighGuid_as_u8 HgParty = 27"
| "HighGuid_as_u8 HgGuild = 28"
| "HighGuid_as_u8 HgWowAccount = 29"
| "HighGuid_as_u8 HgBNetAccount = 30"
| "HighGuid_as_u8 HgGMTask = 31"
| "HighGuid_as_u8 HgMobileSession = 32"
| "HighGuid_as_u8 HgRaidGroup = 33"
| "HighGuid_as_u8 HgSpell = 34"
| "HighGuid_as_u8 HgMail = 35"
| "HighGuid_as_u8 HgWebObj = 36"
| "HighGuid_as_u8 HgLFGObject = 37"
| "HighGuid_as_u8 HgLFGList = 38"
| "HighGuid_as_u8 HgUserRouter = 39"
| "HighGuid_as_u8 HgPVPQueueGroup = 40"
| "HighGuid_as_u8 HgUserClient = 41"
| "HighGuid_as_u8 HgPetBattle = 42"
| "HighGuid_as_u8 HgUniqUserClient = 43"
| "HighGuid_as_u8 HgBattlePet = 44"
| "HighGuid_as_u8 HgCommerceObj = 45"
| "HighGuid_as_u8 HgClientSession = 46"
| "HighGuid_as_u8 HgCast = 47"
| "HighGuid_as_u8 HgClientConnection = 48"
| "HighGuid_as_u8 HgClubFinder = 49"
| "HighGuid_as_u8 HgToolsClient = 50"
| "HighGuid_as_u8 HgWorldLayer = 51"
| "HighGuid_as_u8 HgArenaTeam = 52"
| "HighGuid_as_u8 HgLMMParty = 53"
| "HighGuid_as_u8 HgLMMLobby = 54"
| "HighGuid_as_u8 HgCount = 55"

text \<open>The table of the discriminants below \<open>Count\<close>, in the order of the enum.\<close>

definition HighGuid_table :: "HighGuid list" where
  "HighGuid_table =
    [HgNull, HgUniq, HgPlayer, HgItem, HgWorldTransaction, HgStaticDoor, HgTransport,
     HgConversation, HgCreature, HgVehicle, HgPet, HgGameObject, HgDynamicObject,
     HgAreaTrigger, HgCorpse, HgLootObject, HgSceneObject, HgScenario, HgAIGroup,
     HgDynamicDoor, HgClientActor, HgVignette, HgCallForHelp, HgAIResource, HgAILock,
     HgAILockTicket, HgChatChannel, HgParty, HgGuild, HgWowAccount, HgBNetAccount,
     HgGMTask, HgMobileSession, HgRaidGroup, HgSpell, HgMail, HgWebObj, HgLFGObject,
     HgLFGList, HgUserRouter, HgPVPQueueGroup, HgUserClient, HgPetBattle, HgUniqUserClient,
     HgBattlePet, HgCommerceObj, HgClientSession, HgCast, HgClientConnection, HgClubFinder,
     HgToolsClient, HgWorldLayer, HgArenaTeam, HgLMMParty, HgLMMLobby]"

definition from_u8 :: "u8 \<Rightarrow> HighGuid option" where
  "from_u8 val = (if val < HighGuid_as_u8 HgCount then Some (HighGuid_table ! unat val) else None)"

datatype TypeId =
    TypeId_Object | TypeId_Item | TypeId_Container | TypeId_AzeriteEmpoweredItem
  | TypeId_AzeriteItem | TypeId_Unit | TypeId_Player | TypeId_ActivePlayer
  | TypeId_GameObject | TypeId_DynamicObject | TypeId_Corpse | TypeId_AreaTrigger
  | TypeId_SceneObject | TypeId_Conversation

section \<open>The identifier and its accessors\<close>

datatype ObjectGuid = ObjectGuid (high_value: i64) (low_value: i64)

definition ObjectGuid_EMPTY :: ObjectGuid where
  "ObjectGuid_EMPTY = ObjectGuid 0 0"

definition high_type :: "ObjectGuid \<Rightarrow> HighGuid" where
  "high_type g =
     (let raw = ucast (signed_drop_bit 58 (high_value g) AND 0x3F) :: u8
      in case from_u8 raw of Some h \<Rightarrow> h | None \<Rightarrow> HgNull)"

definition sub_type :: "ObjectGuid \<Rightarrow> u8" where
  "sub_type g = ucast (high_value g AND 0x3F)"

definition realm_id :: "ObjectGuid \<Rightarrow> u16" where
  "realm_id g = ucast (signed_drop_bit 42 (high_value g) AND 0x1FFF)"

definition server_id :: "ObjectGuid \<Rightarrow> u32" where
  "server_id g = ucast (signed_drop_bit 40 (low_value g) AND 0x1FFF)"

definition map_id :: "ObjectGuid \<Rightarrow> u16" where
  "map_id g = ucast (signed_drop_bit 29 (high_value g) AND 0x1FFF)"

definition guid_entry :: "ObjectGuid \<Rightarrow> u32" where
  "guid_entry g = ucast (signed_drop_bit 6 (high_value g) AND 0x7FFFFF)"

definition guid_counter :: "ObjectGuid \<Rightarrow> i64" where
  "guid_counter g =
     (if high_type g = HgTransport then signed_drop_bit 38 (high_value g) AND 0xFFFFF
      else low_value g AND 0xFFFFFFFFFF)"

definition max_counter :: "HighGuid \<Rightarrow> i64" where
  "max_counter h = (if h = HgTransport then 0xFFFFF else 0xFFFFFFFFFF)"

definition to_raw_bytes :: "ObjectGuid \<Rightarrow> u8 list" where
  "to_raw_bytes g = to_le_bytes 8 (low_value g) @ to_le_bytes 8 (high_value g)"

text \<open>The argument of \<open>from_raw_bytes\<close> is an array of sixteen bytes.\<close>

definition from_raw_bytes :: "u8 list \<Rightarrow> ObjectGuid" where
  "from_raw_bytes bytes =
     ObjectGuid (from_le_bytes (drop 8 bytes)) (from_le_bytes (take 8 bytes))"

section \<open>Classification\<close>

definition is_empty :: "ObjectGuid \<Rightarrow> bool" where
  "is_empty g = (high_value g = 0 \<and> low_value g = 0)"

definition is_creature :: "ObjectGuid \<Rightarrow> bool" where
  "is_creature g = (high_type g = HgCreature)"

definition is_pet :: "ObjectGuid \<Rightarrow> bool" where
  "is_pet g = (high_type g = HgPet)"

definition is_vehicle :: "ObjectGuid \<Rightarrow> bool" where
  "is_vehicle g = (high_type g = HgVehicle)"

definition is_creature_or_pet :: "ObjectGuid \<Rightarrow> bool" where
  "is_creature_or_pet g = (is_creature g \<or> is_pet g)"

definition is_creature_or_vehicle :: "ObjectGuid \<Rightarrow> bool" where
  "is_creature_or_vehicle g = (is_creature g \<or> is_vehicle g)"

definition is_any_type_creature :: "ObjectGuid \<Rightarrow> bool" where
  "is_any_type_creature g = (is_creature g \<or> is_pet g \<or> is_vehicle g)"

definition is_player :: "ObjectGuid \<Rightarrow> bool" where
  "is_player g = (\<not> is_empty g \<and> high_type g = HgPlayer)"

definition is_unit :: "ObjectGuid \<Rightarrow> bool" where
  "is_unit g = (is_any_type_creature g \<or> is_player g)"

definition is_item :: "ObjectGuid \<Rightarrow> bool" where
  "is_item g = (high_type g = HgItem)"

definition is_game_object :: "ObjectGuid \<Rightarrow> bool" where
  "is_game_object g = (high_type g = HgGameObject)"

definition is_dynamic_object :: "ObjectGuid \<Rightarrow> bool" where
  "is_dynamic_object g = (high_type g = HgDynamicObject)"

definition is_corpse :: "ObjectGuid \<Rightarrow> bool" where
  "is_corpse g = (high_type g = HgCorpse)"

definition is_area_trigger :: "ObjectGuid \<Rightarrow> bool" where
  "is_area_trigger g = (high_type g = HgAreaTrigger)"

definition is_mo_transport :: "ObjectGuid \<Rightarrow> bool" where
  "is_mo_transport g = (high_type g = HgTransport)"

definition is_any_type_game_object :: "ObjectGuid \<Rightarrow> bool" where
  "is_any_type_game_object g = (is_game_object g \<or> is_mo_transport g)"

definition is_party :: "ObjectGuid \<Rightarrow> bool" where
  "is_party g = (high_type g = HgParty)"

definition is_guild :: "ObjectGuid \<Rightarrow> bool" where
  "is_guild g = (high_type g = HgGuild)"

definition is_scene_object :: "ObjectGuid \<Rightarrow> bool" where
  "is_scene_object g = (high_type g = HgSceneObject)"

definition is_conversation :: "ObjectGuid \<Rightarrow> bool" where
  "is_conversation g = (high_type g = HgConversation)"

definition is_cast :: "ObjectGuid \<Rightarrow> bool" where
  "is_cast g = (high_type g = HgCast)"

definition type_id_for :: "HighGuid \<Rightarrow> TypeId" where
  "type_id_for high =
     (if high = HgItem then TypeId_Item
      else if high \<in> {HgCreature, HgPet, HgVehicle} then TypeId_Unit
      else if high = HgPlayer then TypeId_Player
      else if high \<in> {HgGameObject, HgTransport} then TypeId_GameObject
      else if high = HgDynamicObject then TypeId_DynamicObject
      else if high = HgCorpse then TypeId_Corpse
      else if high = HgAreaTrigger then TypeId_AreaTrigger
      else if high = HgSceneObject then TypeId_SceneObject
      else if high = HgConversation then TypeId_Conversation
      else TypeId_Object)"

definition type_id :: "ObjectGuid \<Rightarrow> TypeId" where
  "type_id g = type_id_for (high_type g)"

definition has_entry :: "ObjectGuid \<Rightarrow> bool" where
  "has_entry g = (high_type g \<in>
      {HgWorldTransaction, HgConversation, HgCreature, HgVehicle, HgPet, HgGameObject,
       HgDynamicObject, HgAreaTrigger, HgCorpse, HgLootObject, HgSceneObject, HgScenario,
       HgAIGroup, HgDynamicDoor, HgVignette, HgCallForHelp, HgAIResource, HgAILock,
       HgAILockTicket, HgCast})"

definition is_map_specific :: "HighGuid \<Rightarrow> bool" where
  "is_map_specific high = (high \<in>
      {HgConversation, HgCreature, HgVehicle, HgPet, HgGameObject, HgDynamicObject,
       HgAreaTrigger, HgCorpse, HgLootObject, HgSceneObject, HgScenario, HgAIGroup,
       HgDynamicDoor, HgVignette, HgCallForHelp, HgAIResource, HgAILock, HgAILockTicket})"

definition is_realm_specific :: "HighGuid \<Rightarrow> bool" where
  "is_realm_specific high = (high \<in> {HgPlayer, HgItem, HgChatChannel, HgTransport, HgGuild})"

definition is_global :: "HighGuid \<Rightarrow> bool" where
  "is_global high = (high \<in>
      {HgUniq, HgParty, HgWowAccount, HgBNetAccount, HgGMTask, HgRaidGroup, HgSpell,
       HgMail, HgUserRouter, HgPVPQueueGroup, HgUserClient, HgUniqUserClient, HgBattlePet})"

section \<open>Factories\<close>

text \<open>\<open>(guid_type as i64) << 58\<close>, and a field of a factory: mask, then shift into place.\<close>

definition high_bits :: "HighGuid \<Rightarrow> i64" where
  "high_bits h = push_bit 58 (ucast (HighGuid_as_u8 h))"

definition create_null :: ObjectGuid where
  "create_null = ObjectGuid_EMPTY"

definition create_uniq :: "i64 \<Rightarrow> ObjectGuid" where
  "create_uniq i = ObjectGuid (high_bits HgUniq) i"

definition create_player :: "u16 \<Rightarrow> i64 \<Rightarrow> ObjectGuid" where
  "create_player realm db_id =
     ObjectGuid (high_bits HgPlayer OR push_bit 42 (ucast realm AND 0x1FFF)) db_id"

definition create_item :: "u16 \<Rightarrow> i64 \<Rightarrow> ObjectGuid" where
  "create_item realm db_id =
     ObjectGuid (high_bits HgItem OR push_bit 42 (ucast realm AND 0x1FFF)) db_id"

definition create_world_object ::
  "HighGuid \<Rightarrow> u8 \<Rightarrow> u16 \<Rightarrow> u16 \<Rightarrow> u32 \<Rightarrow> u32 \<Rightarrow> i64 \<Rightarrow> ObjectGuid" where
  "create_world_object guid_type sub realm mapid server entry cnt =
     ObjectGuid
       (high_bits guid_type
        OR push_bit 42 (ucast realm AND 0x1FFF)
        OR push_bit 29 (ucast mapid AND 0x1FFF)
        OR push_bit 6 (ucast entry AND 0x7FFFFF)
        OR (ucast sub AND 0x3F))
       (push_bit 40 (ucast server AND 0xFFFFFF) OR (cnt AND 0xFFFFFFFFFF))"

definition create_creature_like_cpp :: "u16 \<Rightarrow> u16 \<Rightarrow> u32 \<Rightarrow> i64 \<Rightarrow> ObjectGuid" where
  "create_creature_like_cpp realm mapid entry cnt =
     create_world_object HgCreature 0 realm mapid 0 entry cnt"

definition create_vehicle_like_cpp :: "u16 \<Rightarrow> u16 \<Rightarrow> u32 \<Rightarrow> i64 \<Rightarrow> ObjectGuid" where
  "create_vehicle_like_cpp realm mapid entry cnt =
     create_world_object HgVehicle 0 realm mapid 0 entry cnt"

definition create_gameobject_like_cpp :: "u16 \<Rightarrow> u32 \<Rightarrow> i64 \<Rightarrow> ObjectGuid" where
  "create_gameobject_like_cpp mapid entry cnt =
     create_world_object HgGameObject 0 0 mapid 0 entry cnt"

definition create_area_trigger_like_cpp :: "u16 \<Rightarrow> u32 \<Rightarrow> i64 \<Rightarrow> ObjectGuid" where
  "create_area_trigger_like_cpp mapid entry cnt =
     create_world_object HgAreaTrigger 0 0 mapid 0 entry cnt"

definition create_transport :: "HighGuid \<Rightarrow> i64 \<Rightarrow> ObjectGuid" where
  "create_transport guid_type cnt = ObjectGuid (high_bits guid_type OR push_bit 38 cnt) 0"

definition create_global :: "HighGuid \<Rightarrow> i64 \<Rightarrow> i64 \<Rightarrow> ObjectGuid" where
  "create_global guid_type db_id_high db_id =
     ObjectGuid (high_bits guid_type OR (db_id_high AND 0x3FFFFFFFFFFFFFF)) db_id"

definition create_guild :: "HighGuid \<Rightarrow> u16 \<Rightarrow> i64 \<Rightarrow> ObjectGuid" where
  "create_guild guid_type realm db_id =
     ObjectGuid (high_bits guid_type OR push_bit 42 (ucast realm AND 0x1FFF)) db_id"

definition create_chat_channel ::
  "u16 \<Rightarrow> bool \<Rightarrow> bool \<Rightarrow> u16 \<Rightarrow> u8 \<Rightarrow> i64 \<Rightarrow> ObjectGuid" where
  "create_chat_channel realm built_in trade zone_id faction_group_mask cnt =
     ObjectGuid
       (high_bits HgChatChannel
        OR push_bit 42 (ucast realm AND 0x1FFF)
        OR push_bit 25 (of_bool built_in)
        OR push_bit 24 (of_bool trade)
        OR push_bit 10 (ucast zone_id AND 0x3FFF)
        OR push_bit 4 (ucast faction_group_mask AND 0x3F))
       cnt"

definition create_client_actor :: "u16 \<Rightarrow> u16 \<Rightarrow> u32 \<Rightarrow> ObjectGuid" where
  "create_client_actor owner_type owner_id cnt =
     ObjectGuid
       (high_bits HgClientActor
        OR push_bit 42 (ucast owner_type AND 0x1FFF)
        OR push_bit 26 (ucast owner_id AND 0xFFFFFF))
       (ucast cnt)"

definition create_client :: "HighGuid \<Rightarrow> u16 \<Rightarrow> i32 \<Rightarrow> i64 \<Rightarrow> ObjectGuid" where
  "create_client guid_type realm arg1 cnt =
     ObjectGuid
       (high_bits guid_type
        OR push_bit 42 (ucast realm AND 0x1FFF)
        OR push_bit 10 (scast arg1 AND 0xFFFFFFFF))
       cnt"

definition create_group :: "u64 \<Rightarrow> ObjectGuid" where
  "create_group cnt = create_global HgParty 0 cnt"

section \<open>Order\<close>

lemma sint_word_inject: "sint a = sint b \<Longrightarrow> a = (b :: i64)"
  by (rule signed_word_eqI)

text \<open>\<open>Ord for ObjectGuid\<close>: the signed high quadword first, then the signed low one.\<close>

instantiation ObjectGuid :: linorder
begin

definition less_eq_ObjectGuid :: "ObjectGuid \<Rightarrow> ObjectGuid \<Rightarrow> bool" where
  "g \<le> h \<longleftrightarrow> sint (high_value g) < sint (high_value h) \<or>
     sint (high_value g) = sint (high_value h) \<and> sint (low_value g) \<le> sint (low_value h)"

definition less_ObjectGuid :: "ObjectGuid \<Rightarrow> ObjectGuid \<Rightarrow> bool" where
  "g < h \<longleftrightarrow> sint (high_value g) < sint (high_value h) \<or>
     sint (high_value g) = sint (high_value h) \<and> sint (low_value g) < sint (low_value h)"

instance
  by intro_classes
    (auto simp: less_eq_ObjectGuid_def less_ObjectGuid_def
      intro!: ObjectGuid.expand dest!: sint_word_inject)

end

definition guid_cmp :: "ObjectGuid \<Rightarrow> ObjectGuid \<Rightarrow> int" where
  "guid_cmp g h =
     (if sint (high_value g) < sint (high_value h) then -1
      else if sint (high_value g) > sint (high_value h) then 1
      else if sint (low_value g) < sint (low_value h) then -1
      else if sint (low_value g) > sint (low_value h) then 1 else 0)"

section \<open>Generators\<close>

record ObjectGuidGenerator =
  og_next_guid :: i64
  og_high_guid :: HighGuid

definition guid_generator_new :: "HighGuid \<Rightarrow> i64 \<Rightarrow> ObjectGuidGenerator" where
  "guid_generator_new h start = \<lparr>og_next_guid = start, og_high_guid = h\<rparr>"

text \<open>\<open>None\<close> is the failed assertion; the counter has been advanced by then.\<close>

definition guid_generate :: "ObjectGuidGenerator \<Rightarrow> i64 option \<times> ObjectGuidGenerator" where
  "guid_generate gen =
     (let val = og_next_guid gen; gen' = gen\<lparr>og_next_guid := og_next_guid gen + 1\<rparr>
      in if sint val < sint (max_counter (og_high_guid gen) - 1) then (Some val, gen')
         else (None, gen'))"

definition guid_generator_set :: "ObjectGuidGenerator \<Rightarrow> i64 \<Rightarrow> ObjectGuidGenerator" where
  "guid_generator_set gen val = gen\<lparr>og_next_guid := val\<rparr>"

definition next_after_max_used :: "ObjectGuidGenerator \<Rightarrow> i64" where
  "next_after_max_used gen = og_next_guid gen"

record EquipmentSetGuidGeneratorLikeCpp =
  eq_next_guid :: u64

definition EQUIPMENT_SET_GUID_LIMIT_LIKE_CPP :: u64 where
  "EQUIPMENT_SET_GUID_LIMIT_LIKE_CPP = 0xFFFFFFFFFFFFFFFE"

definition equipment_set_new :: "u64 \<Rightarrow> EquipmentSetGuidGeneratorLikeCpp option" where
  "equipment_set_new n =
     (if n < EQUIPMENT_SET_GUID_LIMIT_LIKE_CPP then Some \<lparr>eq_next_guid = n\<rparr> else None)"

text \<open>\<open>fetch_update\<close> returns the previous value; \<open>None\<close> is where \<open>generate\<close> aborts the process.\<close>

definition equipment_set_try_generate ::
  "EquipmentSetGuidGeneratorLikeCpp \<Rightarrow> (u64 \<times> EquipmentSetGuidGeneratorLikeCpp) option" where
  "equipment_set_try_generate gen =
     (let current = eq_next_guid gen
      in if current < EQUIPMENT_SET_GUID_LIMIT_LIKE_CPP
         then Some (current, gen\<lparr>eq_next_guid := current + 1\<rparr>) else None)"

record VoidStorageItemIdGeneratorLikeCpp =
  vs_next_id :: u64

definition VOID_STORAGE_ITEM_ID_LIMIT_LIKE_PACKET_GUID :: u64 where
  "VOID_STORAGE_ITEM_ID_LIMIT_LIKE_PACKET_GUID = 0x10000000000"

definition void_storage_new :: "u64 \<Rightarrow> VoidStorageItemIdGeneratorLikeCpp option" where
  "void_storage_new n =
     (if n < VOID_STORAGE_ITEM_ID_LIMIT_LIKE_PACKET_GUID then Some \<lparr>vs_next_id = n\<rparr> else None)"

definition void_storage_try_generate ::
  "VoidStorageItemIdGeneratorLikeCpp \<Rightarrow> (u64 \<times> VoidStorageItemIdGeneratorLikeCpp) option" where
  "void_storage_try_generate gen =
     (let current = vs_next_id gen
      in if current < VOID_STORAGE_ITEM_ID_LIMIT_LIKE_PACKET_GUID
         then Some (current, gen\<lparr>vs_next_id := current + 1\<rparr>) else None)"

section \<open>Typed identifiers\<close>

datatype PlayerGuid = PlayerGuid (player_inner: ObjectGuid)

datatype CreatureGuid = CreatureGuid (creature_inner: ObjectGuid)

definition as_player :: "ObjectGuid \<Rightarrow> PlayerGuid option" where
  "as_player g = (if is_player g then Some (PlayerGuid g) else None)"

definition as_creature :: "ObjectGuid \<Rightarrow> CreatureGuid option" where
  "as_creature g = (if is_creature g then Some (CreatureGuid g) else None)"

section \<open>Bit-level facts\<close>

lemma guid_masks [guid_simps]:
  "(0x3F :: i64) = mask 6" "(0x1FFF :: i64) = mask 13" "(0x7FFFFF :: i64) = mask 23"
  "(0xFFFFF :: i64) = mask 20" "(0xFFFFFFFFFF :: i64) = mask 40" "(0xFFFFFF :: i64) = mask 24"
  "(0x3FFFFFFFFFFFFFF :: i64) = mask 58" "(0x3FFF :: i64) = mask 14" "(0xFFFFFFFF :: i64) = mask 32"
  "(0x3F :: u8) = mask 6" "(0x1FFF :: u16) = mask 13" "(0x7FFFFF :: u32) = mask 23"
  "(0x1FFF :: u32) = mask 13"
  by (simp_all add: mask_eq_exp_minus_1)

lemma bit_HighGuid_as_u8: "bit (HighGuid_as_u8 h) n \<Longrightarrow> n < 6"
proof -
  assume b: "bit (HighGuid_as_u8 h) n"
  have "take_bit 6 (HighGuid_as_u8 h) = HighGuid_as_u8 h"
    by (cases h) (simp_all add: take_bit_eq_mod)
  with b show ?thesis by (metis bit_take_bit_iff)
qed

lemma from_u8_as_u8: "h \<noteq> HgCount \<Longrightarrow> from_u8 (HighGuid_as_u8 h) = Some h"
  by (cases h) (simp_all add: from_u8_def HighGuid_table_def)

lemmas bit_field_simps = bit_simps high_bits_def guid_simps not_less

lemma high_type_high_bits:
  assumes w: "\<And>n. bit w n \<Longrightarrow> n < 58" and h: "h \<noteq> HgCount"
  shows "high_type (ObjectGuid (high_bits h OR w) l) = h"
proof -
  have "ucast (signed_drop_bit 58 (high_bits h OR w) AND 0x3F) = HighGuid_as_u8 h"
    by (rule bit_word_eqI) (auto simp: bit_field_simps dest: w bit_HighGuid_as_u8)
  with h show ?thesis by (simp add: high_type_def from_u8_as_u8)
qed

lemma realm_field_bits: "bit (push_bit 42 (ucast (r :: u16) AND 0x1FFF) :: i64) n \<Longrightarrow> n < 58"
  by (auto simp: bit_field_simps)

lemma high_type_create_player [simp]: "high_type (create_player r d) = HgPlayer"
  unfolding create_player_def by (rule high_type_high_bits) (erule realm_field_bits, simp)

lemma high_type_create_item [simp]: "high_type (create_item r d) = HgItem"
  unfolding create_item_def by (rule high_type_high_bits) (erule realm_field_bits, simp)

lemma high_type_world_object:
  assumes "t \<noteq> HgCount"
  shows "high_type (create_world_object t sub realm mapid server entry cnt) = t"
  unfolding create_world_object_def or.assoc
  by (rule high_type_high_bits [OF _ assms]) (auto simp: bit_field_simps)

lemma realm_id_world_object:
  "realm_id (create_world_object t sub realm mapid server entry cnt) = realm AND 0x1FFF"
  unfolding create_world_object_def realm_id_def
  by (rule bit_word_eqI) (auto simp: bit_field_simps dest: bit_imp_le_length)

lemma map_id_world_object:
  "map_id (create_world_object t sub realm mapid server entry cnt) = mapid AND 0x1FFF"
  unfolding create_world_object_def map_id_def
  by (rule bit_word_eqI) (auto simp: bit_field_simps dest: bit_imp_le_length)

lemma guid_entry_world_object:
  "guid_entry (create_world_object t sub realm mapid server entry cnt) = entry AND 0x7FFFFF"
  unfolding create_world_object_def guid_entry_def
  by (rule bit_word_eqI) (auto simp: bit_field_simps dest: bit_imp_le_length)

lemma sub_type_world_object:
  "sub_type (create_world_object t sub realm mapid server entry cnt) = sub AND 0x3F"
  unfolding create_world_object_def sub_type_def
  by (rule bit_word_eqI) (auto simp: bit_field_simps dest: bit_imp_le_length)

lemma server_id_world_object:
  "server_id (create_world_object t sub realm mapid server entry cnt) = server AND 0x1FFF"
  unfolding create_world_object_def server_id_def
  by (rule bit_word_eqI) (auto simp: bit_field_simps dest: bit_imp_le_length)

lemma low_counter_world_object:
  "low_value (create_world_object t sub realm mapid server entry cnt) AND 0xFFFFFFFFFF
     = cnt AND 0xFFFFFFFFFF"
  unfolding create_world_object_def
  by (simp, rule bit_word_eqI) (auto simp: bit_field_simps dest: bit_imp_le_length)

lemma guid_counter_low:
  "high_type g \<noteq> HgTransport \<Longrightarrow> guid_counter g = low_value g AND 0xFFFFFFFFFF"
  by (simp add: guid_counter_def)

lemma counter_create_item: "i < 0x10000000000 \<Longrightarrow> guid_counter (create_item r i) = i"
proof -
  assume "i < 0x10000000000"
  then have "i AND mask 40 = i" using less_mask_eq [of i 40] by simp
  moreover have "low_value (create_item r i) = i" by (simp add: create_item_def)
  ultimately show ?thesis by (simp add: guid_counter_low) (simp add: guid_simps)
qed

lemma bit_less_power: "c < 2 ^ n \<Longrightarrow> bit (c :: i64) k \<Longrightarrow> k < n"
  by (metis bit_and_iff bit_mask_iff less_mask_eq)

lemma high_type_transport:
  "c < 0x100000 \<Longrightarrow> high_type (create_transport HgTransport c) = HgTransport"
  unfolding create_transport_def
  by (rule high_type_high_bits) (auto simp: bit_simps dest!: bit_less_power [of c 20, simplified])

lemma transport_counter_bits:
  "c < 0x100000 \<Longrightarrow> signed_drop_bit 38 (high_bits h OR push_bit 38 c) AND 0xFFFFF = c"
  by (rule bit_word_eqI)
    (auto simp: bit_field_simps dest: bit_less_power [of c 20, simplified])

section \<open>Generators: interpretation of the allocator interface\<close>

text \<open>The object counter as an allocator of signed values.\<close>

definition guid_try_generate :: "ObjectGuidGenerator \<Rightarrow> (int \<times> ObjectGuidGenerator) option" where
  "guid_try_generate gen =
     (case guid_generate gen of (Some v, gen') \<Rightarrow> Some (sint v, gen') | (None, _) \<Rightarrow> None)"

lemma sint_max_counter: "sint (max_counter h - 1) < 2 ^ 40"
  by (simp add: max_counter_def)

lemma sint_succ_i64: "sint (a :: i64) < 2 ^ 40 \<Longrightarrow> sint (a + 1) = sint a + 1"
  using sint_greater_eq [of a]
  by (simp add: signed_take_bit_int_eq_self sint_word_ariths)

lemma guid_try_generate_Some:
  "guid_try_generate gen = Some (i, gen') \<longleftrightarrow>
     i = sint (og_next_guid gen) \<and> i < sint (max_counter (og_high_guid gen) - 1)
     \<and> gen' = gen\<lparr>og_next_guid := og_next_guid gen + 1\<rparr>"
  by (auto simp: guid_try_generate_def guid_generate_def Let_def split: if_splits)

interpretation oggen: id_generator guid_try_generate "\<lambda>gen. sint (og_next_guid gen)"
proof unfold_locales
  fix s s' and i :: int
  assume g: "guid_try_generate s = Some (i, s')"
  then show "i = sint (og_next_guid s)" by (simp add: guid_try_generate_Some)
  from g have "sint (og_next_guid s) < 2 ^ 40"
    using sint_max_counter [of "og_high_guid s"] by (simp add: guid_try_generate_Some)
  with g show "sint (og_next_guid s) < sint (og_next_guid s')"
    by (simp add: guid_try_generate_Some sint_succ_i64)
qed

interpretation vsgen: id_generator void_storage_try_generate vs_next_id
  by unfold_locales
    (auto simp: void_storage_try_generate_def VOID_STORAGE_ITEM_ID_LIMIT_LIKE_PACKET_GUID_def
      Let_def word_less_nat_alt unat_word_ariths split: if_splits)

interpretation eqgen: id_generator equipment_set_try_generate eq_next_guid
  by unfold_locales
    (auto simp: equipment_set_try_generate_def EQUIPMENT_SET_GUID_LIMIT_LIKE_CPP_def
      Let_def word_less_nat_alt unat_word_ariths split: if_splits)

section \<open>Properties\<close>



text \<open>
  The accessor \<open>server_id\<close> keeps only 13 bits of the server field although the factory
  stores 24 (and the documented layout is 24 bits wide): it agrees with the argument exactly
  when the argument fits in 13 bits.
\<close>

theorem server_id_truncated:
  "server_id (create_world_object t sub realm mapid server entry cnt) = server \<longleftrightarrow> server < 0x2000"
proof
  assume "server_id (create_world_object t sub realm mapid server entry cnt) = server"
  then have "server AND mask 13 = server" by (simp add: server_id_world_object guid_simps)
  then show "server < 0x2000" using and_mask_less' [of 13 server] by simp
next
  assume "server < 0x2000"
  then show "server_id (create_world_object t sub realm mapid server entry cnt) = server"
    using less_mask_eq [of server 13] by (simp add: server_id_world_object guid_simps)
qed

text \<open>
  The sixteen raw bytes and the identifier determine each other.
\<close>

theorem raw_bytes_roundtrip:
  "from_raw_bytes (to_raw_bytes g) = g \<and>
   (length bs = 16 \<longrightarrow> to_raw_bytes (from_raw_bytes bs) = bs)"
proof
  show "from_raw_bytes (to_raw_bytes g) = g"
    by (simp add: from_raw_bytes_def to_raw_bytes_def)
  show "length bs = 16 \<longrightarrow> to_raw_bytes (from_raw_bytes bs) = bs"
  proof
    assume l: "length bs = 16"
    have "to_le_bytes 8 (from_le_bytes (take 8 bs) :: i64) = take 8 bs"
      using to_from_le_bytes [of "take 8 bs", where 'a = 64] l by simp
    moreover have "to_le_bytes 8 (from_le_bytes (drop 8 bs) :: i64) = drop 8 bs"
      using to_from_le_bytes [of "drop 8 bs", where 'a = 64] l by simp
    ultimately show "to_raw_bytes (from_raw_bytes bs) = bs"
      by (simp add: from_raw_bytes_def to_raw_bytes_def)
  qed
qed

theorem raw_bytes_roundtrip_witness:
  "to_raw_bytes (from_raw_bytes (replicate 16 7)) = replicate 16 7"
  using raw_bytes_roundtrip [of ObjectGuid_EMPTY "replicate 16 7"] by simp

text \<open>
  A transport GUID shifts its counter without a mask, so it keeps its type and returns its
  counter exactly for the counters below \<open>max_counter\<close>'s 20-bit range.
\<close>

theorem transport_counter_range:
  "high_type (create_transport HgTransport c) = HgTransport
     \<and> guid_counter (create_transport HgTransport c) = c \<longleftrightarrow> c < 0x100000"
proof
  assume a: "high_type (create_transport HgTransport c) = HgTransport
     \<and> guid_counter (create_transport HgTransport c) = c"
  then obtain w where "w AND mask 20 = c"
    by (auto simp: guid_counter_def guid_simps)
  then show "c < 0x100000" using and_mask_less' [of 20 w] by simp
next
  assume c: "c < 0x100000"
  from high_type_transport [OF c] transport_counter_bits [OF c]
  show "high_type (create_transport HgTransport c) = HgTransport
     \<and> guid_counter (create_transport HgTransport c) = c"
    by (simp add: guid_counter_def create_transport_def)
qed

text \<open>
  The void-storage allocator never repeats an identifier and never hands out one that the
  40-bit counter of an item GUID would truncate.
\<close>

theorem void_storage_ids_fit_guid:
  assumes "generate_many void_storage_try_generate n gen = Some (ids, gen')"
  shows "distinct ids \<and> (\<forall>i\<in>set ids. guid_counter (create_item r i) = i)"
proof
  show "distinct ids" by (rule vsgen.generate_many_distinct [OF assms])
  have "\<forall>i\<in>set ids. i < 0x10000000000"
    by (rule generate_many_all [OF _ assms])
      (auto simp: void_storage_try_generate_def VOID_STORAGE_ITEM_ID_LIMIT_LIKE_PACKET_GUID_def
        Let_def split: if_splits)
  then show "\<forall>i\<in>set ids. guid_counter (create_item r i) = i"
    by (auto intro: counter_create_item)
qed

theorem void_storage_ids_fit_guid_witness:
  "generate_many void_storage_try_generate 2 \<lparr>vs_next_id = 0xFFFFFFFFFE\<rparr>
     = Some ([0xFFFFFFFFFE, 0xFFFFFFFFFF], \<lparr>vs_next_id = 0x10000000000\<rparr>)
   \<and> guid_counter (create_item 1 0xFFFFFFFFFF) = 0xFFFFFFFFFF"
proof -
  have r: "generate_many void_storage_try_generate 2 \<lparr>vs_next_id = 0xFFFFFFFFFE\<rparr>
     = Some ([0xFFFFFFFFFE, 0xFFFFFFFFFF], \<lparr>vs_next_id = 0x10000000000\<rparr>)"
    by code_simp
  with void_storage_ids_fit_guid [OF r, of 1] show ?thesis by simp
qed

text \<open>
  An object counter generator that does not assert returns strictly increasing values
  inside the counter range of its GUID type.
\<close>

theorem guid_generator_unique:
  assumes "generate_many guid_try_generate n gen = Some (ids, gen')"
  shows "sorted_wrt (<) ids \<and> length ids = n
    \<and> (\<forall>i\<in>set ids. i < sint (max_counter (og_high_guid gen)))"
proof -
  have "og_high_guid gen = h \<Longrightarrow> generate_many guid_try_generate n gen = Some (ids, gen') \<Longrightarrow>
      \<forall>i\<in>set ids. i < sint (max_counter h)" for n gen ids h
  proof (induction n arbitrary: gen ids)
    case (Suc n)
    have "sint (max_counter h - 1) < sint (max_counter h)" by (simp add: max_counter_def)
    with Suc.prems Suc.IH [of "gen\<lparr>og_next_guid := og_next_guid gen + 1\<rparr>"] show ?case
      by (auto simp: guid_try_generate_Some split: option.splits prod.splits)
  qed simp
  with oggen.generate_many_sorted [OF assms] assms show ?thesis by blast
qed

theorem guid_generator_unique_witness:
  "sorted_wrt (<) [41, 42 :: int] \<and> generate_many guid_try_generate 2 (guid_generator_new HgItem 41)
     = Some ([41, 42], guid_generator_new HgItem 43)"
proof -
  have r: "generate_many guid_try_generate 2 (guid_generator_new HgItem 41)
     = Some ([41, 42], guid_generator_new HgItem 43)"
    by (simp add: numeral_2_eq_2 guid_try_generate_def guid_generate_def guid_generator_new_def
        max_counter_def)
  with guid_generator_unique [OF r] show ?thesis by simp
qed

end
