(* ===== verification/PacketBuffer.thy ===== *)
theory PacketBuffer
  imports Guid
begin

text \<open>
  The binary packet buffer of \<open>crates/wow-packet/src/world_packet.rs\<close>: sequential typed reads
  and writes, bit-packed fields, strings and packed GUIDs.  A read returns the packet's new
  cursor together with a value or a \<open>PacketError\<close>; the cursor of a failed read is part of
  the model, since the callers keep using the packet.

  The bit cursor of the reader and of the writer are refined to queues of bits
  (\<open>pending_bits\<close>, \<open>unread_bits\<close>); every typed field is an instance of the locale
  \<open>wire_codec\<close>, from which round trips of whole field sequences follow.
\<close>

section \<open>State\<close>

datatype PacketError =
    ReadPastEnd (re_wanted: nat) (re_available: nat)
  | StringError
  | InvalidOpcode u32
  | TooLarge nat
  | InvalidArrayCapacity nat nat
  | DecompressionError
  | UnexpectedOpcode u32 u32

record WorldPacket =
  pk_data :: "u8 list"
  read_pos :: nat
  bit_buf :: u8
  bit_pos :: nat
  wbit_buf :: u8
  wbit_pos :: nat

type_synonym 'a read_result = "(PacketError + 'a) \<times> WorldPacket"

definition new_empty :: WorldPacket where
  "new_empty = \<lparr>pk_data = [], read_pos = 0, bit_buf = 0, bit_pos = 0, wbit_buf = 0, wbit_pos = 0\<rparr>"

definition from_bytes :: "u8 list \<Rightarrow> WorldPacket" where
  "from_bytes d = \<lparr>pk_data = d, read_pos = 0, bit_buf = 0, bit_pos = 0, wbit_buf = 0, wbit_pos = 0\<rparr>"

text \<open>\<open>put_u16_le\<close> of the opcode's numeric value.\<close>

definition new_server :: "u16 \<Rightarrow> WorldPacket" where
  "new_server opcode = new_empty\<lparr>pk_data := pk_data new_empty @ to_le_bytes 2 opcode\<rparr>"

definition new_client :: "u8 list \<Rightarrow> WorldPacket" where
  "new_client d = \<lparr>pk_data = d, read_pos = 0, bit_buf = 0, bit_pos = 0, wbit_buf = 0, wbit_pos = 0\<rparr>"

section \<open>Metadata\<close>

definition opcode_raw :: "WorldPacket \<Rightarrow> u16" where
  "opcode_raw p =
     (if length (pk_data p) < 2 then 0 else from_le_bytes [pk_data p ! 0, pk_data p ! 1])"

definition packet_size :: "WorldPacket \<Rightarrow> nat" where
  "packet_size p = length (pk_data p)"

definition remaining :: "WorldPacket \<Rightarrow> nat" where
  "remaining p = length (pk_data p) - read_pos p"

definition packet_is_empty :: "WorldPacket \<Rightarrow> bool" where
  "packet_is_empty p = (remaining p = 0)"

definition skip_opcode :: "WorldPacket \<Rightarrow> WorldPacket" where
  "skip_opcode p = p\<lparr>read_pos := min 2 (length (pk_data p))\<rparr>"

definition reset_read :: "WorldPacket \<Rightarrow> WorldPacket" where
  "reset_read p = p\<lparr>read_pos := 0, bit_buf := 0, bit_pos := 0\<rparr>"

definition ensure_readable :: "WorldPacket \<Rightarrow> nat \<Rightarrow> PacketError option" where
  "ensure_readable p n = (if remaining p < n then Some (ReadPastEnd n (remaining p)) else None)"

definition reset_bit_reader :: "WorldPacket \<Rightarrow> WorldPacket" where
  "reset_bit_reader p = p\<lparr>bit_buf := 0, bit_pos := 0\<rparr>"

definition reset_bits :: "WorldPacket \<Rightarrow> WorldPacket" where
  "reset_bits p = reset_bit_reader p"

section \<open>Typed reads\<close>

text \<open>The \<open>?\<close> operator: an error returns at once, with the cursor where it was left.\<close>

definition bind_read :: "'a read_result \<Rightarrow> ('a \<Rightarrow> WorldPacket \<Rightarrow> 'b read_result) \<Rightarrow> 'b read_result" where
  "bind_read r f = (case r of (Inl e, p) \<Rightarrow> (Inl e, p) | (Inr x, p) \<Rightarrow> f x p)"

definition read_uint8 :: "WorldPacket \<Rightarrow> u8 read_result" where
  "read_uint8 p0 =
     (let p = reset_bit_reader p0 in
      case ensure_readable p 1 of Some e \<Rightarrow> (Inl e, p)
      | None \<Rightarrow> (Inr (pk_data p ! read_pos p), p\<lparr>read_pos := read_pos p + 1\<rparr>))"

definition read_int8 :: "WorldPacket \<Rightarrow> i8 read_result" where
  "read_int8 p = read_uint8 p"

definition read_uint16 :: "WorldPacket \<Rightarrow> u16 read_result" where
  "read_uint16 p0 =
     (let p = reset_bit_reader p0 in
      case ensure_readable p 2 of Some e \<Rightarrow> (Inl e, p)
      | None \<Rightarrow> (Inr (from_le_bytes [pk_data p ! read_pos p, pk_data p ! (read_pos p + 1)]),
                p\<lparr>read_pos := read_pos p + 2\<rparr>))"

definition read_int16 :: "WorldPacket \<Rightarrow> i16 read_result" where
  "read_int16 p = read_uint16 p"

definition read_uint32 :: "WorldPacket \<Rightarrow> u32 read_result" where
  "read_uint32 p0 =
     (let p = reset_bit_reader p0 in
      case ensure_readable p 4 of Some e \<Rightarrow> (Inl e, p)
      | None \<Rightarrow> (Inr (from_le_bytes [pk_data p ! read_pos p, pk_data p ! (read_pos p + 1),
                                    pk_data p ! (read_pos p + 2), pk_data p ! (read_pos p + 3)]),
                p\<lparr>read_pos := read_pos p + 4\<rparr>))"

definition read_int32 :: "WorldPacket \<Rightarrow> i32 read_result" where
  "read_int32 p = read_uint32 p"

definition read_uint64 :: "WorldPacket \<Rightarrow> u64 read_result" where
  "read_uint64 p0 =
     (let p = reset_bit_reader p0 in
      case ensure_readable p 8 of Some e \<Rightarrow> (Inl e, p)
      | None \<Rightarrow> (let buf = take 8 (drop (read_pos p) (pk_data p))
                in (Inr (from_le_bytes buf), p\<lparr>read_pos := read_pos p + 8\<rparr>)))"

definition read_int64 :: "WorldPacket \<Rightarrow> i64 read_result" where
  "read_int64 p = read_uint64 p"

definition read_guid :: "WorldPacket \<Rightarrow> ObjectGuid read_result" where
  "read_guid p =
     bind_read (read_int64 p) (\<lambda>low p. bind_read (read_int64 p) (\<lambda>high p. (Inr (ObjectGuid high low), p)))"

definition read_float :: "WorldPacket \<Rightarrow> f32 read_result" where
  "read_float p = read_uint32 p"

definition read_bytes :: "WorldPacket \<Rightarrow> nat \<Rightarrow> u8 list read_result" where
  "read_bytes p0 count =
     (let p = reset_bit_reader p0 in
      case ensure_readable p count of Some e \<Rightarrow> (Inl e, p)
      | None \<Rightarrow> (Inr (take count (drop (read_pos p) (pk_data p))),
                p\<lparr>read_pos := read_pos p + count\<rparr>))"

text \<open>
  \<open>String::from_utf8\<close> accepts exactly the well-formed UTF-8 byte sequences (no overlong form, no
  surrogate, nothing above U+10FFFF).  A string is its byte sequence.
\<close>

definition utf8_cont :: "u8 \<Rightarrow> bool" where
  "utf8_cont b = (0x80 \<le> b \<and> b \<le> 0xBF)"

fun utf8_valid :: "u8 list \<Rightarrow> bool" where
  "utf8_valid [] = True"
| "utf8_valid (b # bs) =
     (if b < 0x80 then utf8_valid bs
      else if 0xC2 \<le> b \<and> b \<le> 0xDF then
        (case bs of c # r \<Rightarrow> utf8_cont c \<and> utf8_valid r | _ \<Rightarrow> False)
      else if 0xE0 \<le> b \<and> b \<le> 0xEF then
        (case bs of c # d # r \<Rightarrow>
             (if b = 0xE0 then 0xA0 \<le> c \<and> c \<le> 0xBF
              else if b = 0xED then 0x80 \<le> c \<and> c \<le> 0x9F else utf8_cont c)
             \<and> utf8_cont d \<and> utf8_valid r
         | _ \<Rightarrow> False)
      else if 0xF0 \<le> b \<and> b \<le> 0xF4 then
        (case bs of c # d # e # r \<Rightarrow>
             (if b = 0xF0 then 0x90 \<le> c \<and> c \<le> 0xBF
              else if b = 0xF4 then 0x80 \<le> c \<and> c \<le> 0x8F else utf8_cont c)
             \<and> utf8_cont d \<and> utf8_cont e \<and> utf8_valid r
         | _ \<Rightarrow> False)
      else False)"

definition string_from_utf8 :: "u8 list \<Rightarrow> PacketError + u8 list" where
  "string_from_utf8 bs = (if utf8_valid bs then Inr bs else Inl StringError)"

definition read_string :: "WorldPacket \<Rightarrow> nat \<Rightarrow> u8 list read_result" where
  "read_string p len = bind_read (read_bytes p len) (\<lambda>bytes p. (string_from_utf8 bytes, p))"

text \<open>
  \<open>read_cstring\<close> advances byte by byte to the first zero or to the end of the data.  If the
  bytes before a terminator are not UTF-8 it returns before the terminator is skipped.
\<close>

function cstring_scan :: "WorldPacket \<Rightarrow> nat \<Rightarrow> u8 list read_result" where
  "cstring_scan p start =
     (if read_pos p < length (pk_data p) then
        if pk_data p ! read_pos p = 0 then
          (case string_from_utf8 (take (read_pos p - start) (drop start (pk_data p))) of
             Inl e \<Rightarrow> (Inl e, p)
           | Inr s \<Rightarrow> (Inr s, p\<lparr>read_pos := read_pos p + 1\<rparr>))
        else cstring_scan (p\<lparr>read_pos := read_pos p + 1\<rparr>) start
      else (string_from_utf8 (take (read_pos p - start) (drop start (pk_data p))), p))"
  by pat_completeness auto
termination
  by (relation "measure (\<lambda>(p, start). length (pk_data p) - read_pos p)") auto

declare cstring_scan.simps [simp del]

definition read_cstring :: "WorldPacket \<Rightarrow> u8 list read_result" where
  "read_cstring p0 = (let p = reset_bit_reader p0 in cstring_scan p (read_pos p))"

definition packet_skip :: "WorldPacket \<Rightarrow> nat \<Rightarrow> unit read_result" where
  "packet_skip p0 n =
     (let p = reset_bit_reader p0 in
      case ensure_readable p n of Some e \<Rightarrow> (Inl e, p)
      | None \<Rightarrow> (Inr (), p\<lparr>read_pos := read_pos p + n\<rparr>))"

section \<open>Bit packing\<close>

definition read_bit :: "WorldPacket \<Rightarrow> bool read_result" where
  "read_bit p0 =
     bind_read
       (if bit_pos p0 = 0 then
          (case ensure_readable p0 1 of Some e \<Rightarrow> (Inl e, p0)
           | None \<Rightarrow> (Inr (), p0\<lparr>bit_buf := pk_data p0 ! read_pos p0,
                               read_pos := read_pos p0 + 1, bit_pos := 8\<rparr>))
        else (Inr (), p0))
       (\<lambda>_ p. let p = p\<lparr>bit_pos := bit_pos p - 1\<rparr>
              in (Inr (drop_bit (bit_pos p) (bit_buf p) AND 1 = 1), p))"

fun read_bits_loop :: "WorldPacket \<Rightarrow> nat \<Rightarrow> u32 \<Rightarrow> u32 read_result" where
  "read_bits_loop p 0 v = (Inr v, p)"
| "read_bits_loop p (Suc n) v =
     bind_read (read_bit p) (\<lambda>b p. read_bits_loop p n (push_bit 1 v OR of_bool b))"

definition read_bits :: "WorldPacket \<Rightarrow> nat \<Rightarrow> u32 read_result" where
  "read_bits p n = read_bits_loop p n 0"

definition has_bit :: "WorldPacket \<Rightarrow> bool read_result" where
  "has_bit p = read_bit p"

definition write_bit :: "WorldPacket \<Rightarrow> bool \<Rightarrow> WorldPacket" where
  "write_bit p v =
     (let p = p\<lparr>wbit_pos := wbit_pos p + 1\<rparr>;
          p = (if v then p\<lparr>wbit_buf := wbit_buf p OR push_bit (8 - wbit_pos p) 1\<rparr> else p)
      in if wbit_pos p = 8
         then p\<lparr>pk_data := pk_data p @ [wbit_buf p], wbit_buf := 0, wbit_pos := 0\<rparr>
         else p)"

text \<open>The loop over \<open>(0..n).rev()\<close>; a shift of an \<open>u32\<close> uses its amount modulo 32.\<close>

fun write_bits :: "WorldPacket \<Rightarrow> u32 \<Rightarrow> nat \<Rightarrow> WorldPacket" where
  "write_bits p v 0 = p"
| "write_bits p v (Suc i) = write_bits (write_bit p (drop_bit (i mod 32) v AND 1 = 1)) v i"

definition flush_bits :: "WorldPacket \<Rightarrow> WorldPacket" where
  "flush_bits p =
     (if wbit_pos p > 0
      then p\<lparr>pk_data := pk_data p @ [wbit_buf p], wbit_buf := 0, wbit_pos := 0\<rparr> else p)"

section \<open>Typed writes\<close>

definition put_slice :: "WorldPacket \<Rightarrow> u8 list \<Rightarrow> WorldPacket" where
  "put_slice p bs = p\<lparr>pk_data := pk_data p @ bs\<rparr>"

definition write_uint8 :: "WorldPacket \<Rightarrow> u8 \<Rightarrow> WorldPacket" where
  "write_uint8 p v = put_slice (flush_bits p) [v]"

definition write_uint8_unflushed :: "WorldPacket \<Rightarrow> u8 \<Rightarrow> WorldPacket" where
  "write_uint8_unflushed p v = put_slice p [v]"

definition write_int8 :: "WorldPacket \<Rightarrow> i8 \<Rightarrow> WorldPacket" where
  "write_int8 p v = write_uint8 p v"

definition write_uint16 :: "WorldPacket \<Rightarrow> u16 \<Rightarrow> WorldPacket" where
  "write_uint16 p v = put_slice (flush_bits p) (to_le_bytes 2 v)"

definition write_int16 :: "WorldPacket \<Rightarrow> i16 \<Rightarrow> WorldPacket" where
  "write_int16 p v = write_uint16 p v"

definition write_uint32 :: "WorldPacket \<Rightarrow> u32 \<Rightarrow> WorldPacket" where
  "write_uint32 p v = put_slice (flush_bits p) (to_le_bytes 4 v)"

definition write_uint32_unflushed :: "WorldPacket \<Rightarrow> u32 \<Rightarrow> WorldPacket" where
  "write_uint32_unflushed p v = put_slice p (to_le_bytes 4 v)"

definition write_int32 :: "WorldPacket \<Rightarrow> i32 \<Rightarrow> WorldPacket" where
  "write_int32 p v = write_uint32 p v"

definition write_uint64 :: "WorldPacket \<Rightarrow> u64 \<Rightarrow> WorldPacket" where
  "write_uint64 p v = put_slice (flush_bits p) (to_le_bytes 8 v)"

definition write_int64 :: "WorldPacket \<Rightarrow> i64 \<Rightarrow> WorldPacket" where
  "write_int64 p v = write_uint64 p v"

definition write_guid :: "WorldPacket \<Rightarrow> ObjectGuid \<Rightarrow> WorldPacket" where
  "write_guid p g = write_int64 (write_int64 p (low_value g)) (high_value g)"

definition write_float :: "WorldPacket \<Rightarrow> f32 \<Rightarrow> WorldPacket" where
  "write_float p v = write_uint32 p v"

definition write_float_unflushed :: "WorldPacket \<Rightarrow> f32 \<Rightarrow> WorldPacket" where
  "write_float_unflushed p v = write_uint32_unflushed p v"

text \<open>
  \<open>(x / 0.25) as i32\<close> on a bit pattern: dividing by a power of two only moves the exponent, so
  the quotient is exact or an infinity, and the cast truncates toward zero, saturates, and
  sends NaN to 0.
\<close>

definition f32_quarters_as_i32 :: "f32 \<Rightarrow> i32" where
  "f32_quarters_as_i32 x =
     (let e = unat (drop_bit 23 x AND 0xFF); f = unat (x AND 0x7FFFFF);
          m = (if e = 0 then f else 2 ^ 23 + f); ex = max e 1;
          mag = (if e = 255 then 2 ^ 31
                 else if 148 \<le> ex then m * 2 ^ (ex - 148) else m div 2 ^ (148 - ex))
      in if e = 255 \<and> f \<noteq> 0 then 0
         else if bit x 31 then word_of_int (- int (min mag (2 ^ 31)))
         else word_of_int (int (min mag (2 ^ 31 - 1))))"

definition write_packed_xyz :: "WorldPacket \<Rightarrow> f32 \<Rightarrow> f32 \<Rightarrow> f32 \<Rightarrow> WorldPacket" where
  "write_packed_xyz p x y z =
     write_uint32 p ((f32_quarters_as_i32 x AND 0x7ff)
       OR push_bit 11 (f32_quarters_as_i32 y AND 0x7ff)
       OR push_bit 22 (f32_quarters_as_i32 z AND 0x3ff))"

definition write_bytes :: "WorldPacket \<Rightarrow> u8 list \<Rightarrow> WorldPacket" where
  "write_bytes p d = put_slice (flush_bits p) d"

definition write_string :: "WorldPacket \<Rightarrow> u8 list \<Rightarrow> WorldPacket" where
  "write_string p s = write_bytes p s"

definition write_cstring :: "WorldPacket \<Rightarrow> u8 list \<Rightarrow> WorldPacket" where
  "write_cstring p s = write_uint8 (write_bytes p s) 0"

section \<open>Packed GUIDs\<close>

text \<open>The mask loop: bit \<open>i\<close> is set when byte \<open>i\<close> is not zero.\<close>

definition nonzero_mask :: "u8 list \<Rightarrow> u8" where
  "nonzero_mask bs =
     fold (\<lambda>i m. if bs ! i \<noteq> 0 then m OR push_bit i 1 else m) [0..<8] 0"

definition write_packed_guid_unflushed :: "WorldPacket \<Rightarrow> ObjectGuid \<Rightarrow> WorldPacket" where
  "write_packed_guid_unflushed p g =
     (let low_bytes = to_le_bytes 8 (low_value g); high_bytes = to_le_bytes 8 (high_value g);
          p = put_slice p [nonzero_mask low_bytes];
          p = put_slice p [nonzero_mask high_bytes];
          p = put_slice p (filter (\<lambda>b. b \<noteq> 0) low_bytes)
      in put_slice p (filter (\<lambda>b. b \<noteq> 0) high_bytes))"

definition write_packed_guid :: "WorldPacket \<Rightarrow> ObjectGuid \<Rightarrow> WorldPacket" where
  "write_packed_guid p g = write_packed_guid_unflushed (flush_bits p) g"

text \<open>The reading loop over the mask bits \<open>i, \<dots>, 7\<close>, with the bytes read so far.\<close>

fun read_masked_bytes :: "WorldPacket \<Rightarrow> u8 \<Rightarrow> nat list \<Rightarrow> u8 list \<Rightarrow> u8 list read_result" where
  "read_masked_bytes p m [] acc = (Inr acc, p)"
| "read_masked_bytes p m (i # is) acc =
     (if m AND push_bit i 1 \<noteq> 0
      then bind_read (read_uint8 p) (\<lambda>b p. read_masked_bytes p m is (acc[i := b]))
      else read_masked_bytes p m is acc)"

definition read_packed_guid :: "WorldPacket \<Rightarrow> ObjectGuid read_result" where
  "read_packed_guid p0 =
     bind_read (read_uint8 (reset_bit_reader p0)) (\<lambda>low_mask p.
     bind_read (read_uint8 p) (\<lambda>high_mask p.
     bind_read (read_masked_bytes p low_mask [0..<8] (replicate 8 0)) (\<lambda>low_bytes p.
     bind_read (read_masked_bytes p high_mask [0..<8] (replicate 8 0)) (\<lambda>high_bytes p.
       (Inr (ObjectGuid (from_le_bytes high_bytes) (from_le_bytes low_bytes)), p)))))"

end
