(* ===== verification/PacketLaws.thy ===== *)
theory PacketLaws
  imports PacketBuffer
begin

text \<open>
  The laws of the packet buffer: the bit cursor refines a queue of bits in both directions,
  every typed field implements the locale \<open>wire_codec\<close>, whole sequences of fields round-trip,
  and no sequence of reads leaves the buffer.
\<close>


section \<open>Bit queues\<close>

definition byte_bits :: "u8 \<Rightarrow> bool list" where
  "byte_bits b = [bit b 7, bit b 6, bit b 5, bit b 4, bit b 3, bit b 2, bit b 1, bit b 0]"

definition pending_bits :: "WorldPacket \<Rightarrow> bool list" where
  "pending_bits p = concat (map byte_bits (pk_data p)) @ take (wbit_pos p) (byte_bits (wbit_buf p))"

definition unread_bits :: "WorldPacket \<Rightarrow> bool list" where
  "unread_bits p =
     drop (8 - bit_pos p) (byte_bits (bit_buf p)) @ concat (map byte_bits (drop (read_pos p) (pk_data p)))"

definition writer_ok :: "WorldPacket \<Rightarrow> bool" where
  "writer_ok p = (wbit_pos p < 8 \<and> (\<forall>i < 8 - wbit_pos p. \<not> bit (wbit_buf p) i))"

definition reader_ok :: "WorldPacket \<Rightarrow> bool" where
  "reader_ok p = (bit_pos p \<le> 8 \<and> read_pos p \<le> length (pk_data p))"

lemma write_bit_pending:
  assumes "writer_ok p"
  shows "pending_bits (write_bit p v) = pending_bits p @ [v]"
proof -
  from assms have z: "\<And>i. i < 8 - wbit_pos p \<Longrightarrow> \<not> bit (wbit_buf p) i" and "wbit_pos p < 8"
    by (auto simp: writer_ok_def)
  then consider "wbit_pos p = 0" | "wbit_pos p = 1" | "wbit_pos p = 2" | "wbit_pos p = 3"
    | "wbit_pos p = 4" | "wbit_pos p = 5" | "wbit_pos p = 6" | "wbit_pos p = 7"
    by linarith
  then show ?thesis
    by cases (use z in \<open>auto simp: write_bit_def pending_bits_def byte_bits_def bit_simps Let_def numeral_2_eq_2\<close>)
qed

lemma write_bit_writer_ok: "writer_ok p \<Longrightarrow> writer_ok (write_bit p v)"
  by (auto simp: writer_ok_def write_bit_def Let_def bit_simps)

lemma bit_and_1: "(drop_bit n (b :: u8) AND 1 = 1) = bit b n"
  by (simp add: and_one_eq mod_2_eq_odd bit_iff_odd_drop_bit)


lemma byte_bits_drop:
  assumes "0 < k" "k \<le> 8"
  shows "drop (8 - k) (byte_bits b) = bit b (k - 1) # drop (8 - (k - 1)) (byte_bits b)"
proof -
  from assms consider "k = 8" | "k = 1" | "k = 2" | "k = 3" | "k = 4" | "k = 5" | "k = 6" | "k = 7"
    by linarith
  then show ?thesis by cases (simp_all add: byte_bits_def)
qed

lemma read_bit_loaded:
  assumes "0 < bit_pos p" "bit_pos p \<le> 8"
  shows "read_bit p = (Inr (bit (bit_buf p) (bit_pos p - 1)), p\<lparr>bit_pos := bit_pos p - 1\<rparr>)
    \<and> unread_bits p = bit (bit_buf p) (bit_pos p - 1) # unread_bits (p\<lparr>bit_pos := bit_pos p - 1\<rparr>)"
  using assms byte_bits_drop [OF assms]
  by (simp add: read_bit_def bind_read_def Let_def bit_and_1 unread_bits_def)

lemma read_bit_load:
  assumes "bit_pos p = 0" "read_pos p < length (pk_data p)"
  defines "q \<equiv> p\<lparr>bit_buf := pk_data p ! read_pos p, read_pos := read_pos p + 1, bit_pos := 8\<rparr>"
  shows "read_bit p = read_bit q \<and> unread_bits p = unread_bits q"
  using assms(1,2) Cons_nth_drop_Suc [OF assms(2), symmetric]
  by (simp add: q_def read_bit_def bind_read_def ensure_readable_def remaining_def unread_bits_def byte_bits_def)

lemma read_bit_Cons:
  assumes ok: "reader_ok p" and u: "unread_bits p = b # r"
  shows "\<exists>p'. read_bit p = (Inr b, p') \<and> unread_bits p' = r \<and> reader_ok p' \<and> pk_data p' = pk_data p"
proof (cases "bit_pos p = 0")
  case True
  with u ok have l: "read_pos p < length (pk_data p)"
    by (cases "read_pos p < length (pk_data p)") (auto simp: unread_bits_def byte_bits_def)
  let ?q = "p\<lparr>bit_buf := pk_data p ! read_pos p, read_pos := read_pos p + 1, bit_pos := 8\<rparr>"
  from read_bit_load [OF True l] read_bit_loaded [of ?q] u l show ?thesis
    by (auto simp: reader_ok_def)
next
  case False
  with ok read_bit_loaded [of p] u show ?thesis by (auto simp: reader_ok_def)
qed

lemma read_bit_Nil:
  assumes "reader_ok p" "unread_bits p = []"
  shows "read_bit p = (Inl (ReadPastEnd 1 0), p)"
proof -
  have "bit_pos p = 0" using assms read_bit_loaded [of p] by (cases "bit_pos p = 0") (auto simp: reader_ok_def)
  moreover have "length (pk_data p) \<le> read_pos p" using assms(2) by (auto simp: unread_bits_def byte_bits_def)
  ultimately show ?thesis by (simp add: read_bit_def ensure_readable_def remaining_def bind_read_def)
qed


lemma write_bits_pending:
  "writer_ok p \<Longrightarrow> writer_ok (write_bits p v n) \<and>
     pending_bits (write_bits p v n) = pending_bits p @ map (\<lambda>i. bit v (i mod 32)) (rev [0..<n])"
proof (induction n arbitrary: p)
  case (Suc n)
  have b: "(drop_bit (n mod 32) v AND 1 = 1) = bit v (n mod 32)"
    by (simp add: and_one_eq mod_2_eq_odd bit_iff_odd_drop_bit)
  from Suc.IH [OF write_bit_writer_ok [OF Suc.prems]] write_bit_pending [OF Suc.prems]
  show ?case by (simp add: b)
qed simp

lemma read_bits_queue:
  "reader_ok p \<Longrightarrow> unread_bits p = bs @ r \<Longrightarrow> length bs = n \<Longrightarrow>
     \<exists>p'. read_bits_loop p n v = (Inr (foldl (\<lambda>v b. push_bit 1 v OR of_bool b) v bs), p')
       \<and> unread_bits p' = r \<and> reader_ok p' \<and> pk_data p' = pk_data p"
proof (induction bs arbitrary: p n v)
  case (Cons b bs)
  then obtain m where n: "n = Suc m" "length bs = m" by auto
  from read_bit_Cons [OF Cons.prems(1), of b "bs @ r"] Cons.prems(2) obtain q where
    q: "read_bit p = (Inr b, q)" "unread_bits q = bs @ r" "reader_ok q" "pk_data q = pk_data p" by auto
  from Cons.IH [OF q(3,2) n(2), of "push_bit 1 v OR of_bool b"] q n show ?case
    by (simp add: bind_read_def)
qed auto

lemma foldl_bits_value:
  "foldl (\<lambda>v b. push_bit 1 v OR of_bool b) a (map (bit v) (rev [0..<n]))
     = push_bit n a OR take_bit n (v :: u32)"
proof (induction n arbitrary: a)
  case (Suc n)
  have "push_bit n (push_bit 1 a OR of_bool (bit v n)) OR take_bit n v
      = push_bit (Suc n) a OR take_bit (Suc n) v"
    by (rule bit_word_eqI) (auto simp: bit_simps less_Suc_eq)
  with Suc.IH show ?case by simp
qed simp

lemma bits_mod_32: "n \<le> 32 \<Longrightarrow> map (\<lambda>i. bit v (i mod 32)) (rev [0..<n]) = map (bit v) (rev [0..<n])"
  by (auto simp: rev_map)

lemma unread_from_bytes: "unread_bits (from_bytes d) = concat (map byte_bits d)"
  by (simp add: unread_bits_def from_bytes_def byte_bits_def)

lemma reader_ok_from_bytes: "reader_ok (from_bytes d)"
  by (simp add: reader_ok_def from_bytes_def)

lemma flush_bits_pending: "\<exists>z. concat (map byte_bits (pk_data (flush_bits p))) = pending_bits p @ z"
  by (auto simp: flush_bits_def pending_bits_def intro: exI [of _ "drop (wbit_pos p) (byte_bits (wbit_buf p))"])

fun write_bit_fields :: "WorldPacket \<Rightarrow> (u32 \<times> nat) list \<Rightarrow> WorldPacket" where
  "write_bit_fields p [] = p"
| "write_bit_fields p ((v, n) # fs) = write_bit_fields (write_bits p v n) fs"

fun read_bit_fields :: "WorldPacket \<Rightarrow> nat list \<Rightarrow> u32 list read_result" where
  "read_bit_fields p [] = (Inr [], p)"
| "read_bit_fields p (n # ns) =
     bind_read (read_bits p n) (\<lambda>v p. bind_read (read_bit_fields p ns) (\<lambda>vs p. (Inr (v # vs), p)))"

definition field_bits :: "(u32 \<times> nat) list \<Rightarrow> bool list" where
  "field_bits fs = concat (map (\<lambda>(v, n). map (bit v) (rev [0..<n])) fs)"

lemma write_bit_fields_pending:
  "writer_ok p \<Longrightarrow> \<forall>(v, n)\<in>set fs. n \<le> 32 \<Longrightarrow>
     pending_bits (write_bit_fields p fs) = pending_bits p @ field_bits fs"
  by (induction p fs rule: write_bit_fields.induct)
    (auto simp: field_bits_def write_bits_pending bits_mod_32)

lemma read_bit_fields_queue:
  "reader_ok p \<Longrightarrow> unread_bits p = field_bits fs @ r \<Longrightarrow>
     fst (read_bit_fields p (map snd fs)) = Inr (map (\<lambda>(v, n). take_bit n v) fs)"
proof (induction fs arbitrary: p)
  case (Cons f fs)
  obtain v n where f: "f = (v, n)" by (cases f)
  from Cons.prems(2) f have u: "unread_bits p = map (bit v) (rev [0..<n]) @ field_bits fs @ r"
    by (simp add: field_bits_def)
  from read_bits_queue [OF Cons.prems(1) u, of n 0] obtain q where
    q: "read_bits p n = (Inr (take_bit n v), q)" "unread_bits q = field_bits fs @ r" "reader_ok q"
    using foldl_bits_value [of 0 v n] by (auto simp: read_bits_def)
  from Cons.IH [OF q(3,2)] q(1) f show ?case
    by (auto simp: bind_read_def split: prod.splits sum.splits)
qed simp

text \<open>
  C37: any sequence of bit fields of at most 32 bits each, written back to back and flushed, is
  read back field by field: every value returns cut to its width.
\<close>

theorem bit_fields_roundtrip:
  assumes "\<forall>(v, n)\<in>set fs. n \<le> 32"
  shows "fst (read_bit_fields (from_bytes (pk_data (flush_bits (write_bit_fields new_empty fs)))) (map snd fs))
    = Inr (map (\<lambda>(v, n). take_bit n v) fs)"
proof -
  have "writer_ok new_empty" "pending_bits new_empty = []"
    by (simp_all add: writer_ok_def new_empty_def pending_bits_def)
  with write_bit_fields_pending [of new_empty fs] assms flush_bits_pending [of "write_bit_fields new_empty fs"]
  obtain z where "concat (map byte_bits (pk_data (flush_bits (write_bit_fields new_empty fs)))) = field_bits fs @ z"
    by auto
  then show ?thesis
    by (intro read_bit_fields_queue [of _ _ z] reader_ok_from_bytes) (simp add: unread_from_bytes)
qed

theorem bit_fields_roundtrip_witness:
  "fst (read_bit_fields (from_bytes (pk_data (flush_bits (write_bit_fields new_empty
     [(1, 1), (0x3FF, 10), (5, 2)])))) [1, 10, 2]) = Inr [1, 0x3FF, 1]"
  using bit_fields_roundtrip [of "[(1, 1), (0x3FF, 10), (5, 2)]"] by (simp add: take_bit_eq_mod)

section \<open>Typed fields as codecs\<close>

fun read_all :: "(WorldPacket \<Rightarrow> 'a read_result) \<Rightarrow> nat \<Rightarrow> WorldPacket \<Rightarrow> 'a list read_result" where
  "read_all rd 0 p = (Inr [], p)"
| "read_all rd (Suc n) p =
     bind_read (rd p) (\<lambda>x p. bind_read (read_all rd n p) (\<lambda>xs p. (Inr (x # xs), p)))"

locale wire_codec =
  fixes wr :: "WorldPacket \<Rightarrow> 'a \<Rightarrow> WorldPacket"
    and rd :: "WorldPacket \<Rightarrow> 'a read_result"
    and enc :: "'a \<Rightarrow> u8 list"
  assumes write_enc: "pk_data (wr p x) = pk_data (flush_bits p) @ enc x"
    and write_flushed: "wbit_pos (wr p x) = 0"
    and read_enc: "pk_data p = pre @ enc x @ rest \<Longrightarrow> read_pos p = length pre \<Longrightarrow>
      \<exists>p'. rd p = (Inr x, p') \<and> pk_data p' = pk_data p \<and> read_pos p' = length pre + length (enc x)"
begin

lemma write_all_data:
  "wbit_pos p = 0 \<Longrightarrow> pk_data (foldl wr p xs) = pk_data p @ concat (map enc xs)"
proof (induction xs arbitrary: p)
  case (Cons x xs)
  from Cons.IH [OF write_flushed] Cons.prems show ?case
    by (simp add: write_enc flush_bits_def)
qed simp

lemma read_all_data:
  "pk_data p = pre @ concat (map enc xs) @ rest \<Longrightarrow> read_pos p = length pre \<Longrightarrow>
     \<exists>p'. read_all rd (length xs) p = (Inr xs, p') \<and> pk_data p' = pk_data p
       \<and> read_pos p' = length pre + length (concat (map enc xs))"
proof (induction xs arbitrary: p pre)
  case (Cons x xs)
  from Cons.prems read_enc [of p pre x "concat (map enc xs) @ rest"] obtain q where
    q: "rd p = (Inr x, q)" "pk_data q = pk_data p" "read_pos q = length (pre @ enc x)" by auto
  from Cons.IH [of q "pre @ enc x"] q Cons.prems show ?case by (auto simp: bind_read_def)
qed simp

lemma roundtrip_all:
  "fst (read_all rd (length xs) (from_bytes (pk_data (foldl wr new_empty xs)))) = Inr xs"
proof -
  have "pk_data (foldl wr new_empty xs) = concat (map enc xs)"
    using write_all_data [of new_empty xs] by (simp add: new_empty_def)
  then show ?thesis
    using read_all_data [of "from_bytes (concat (map enc xs))" "[]" xs "[]"]
    by (auto simp: from_bytes_def)
qed

end

lemmas write_field_defs = write_uint8_def write_uint16_def write_uint32_def write_uint64_def
  write_int64_def write_guid_def put_slice_def flush_bits_def write_packed_guid_def
  write_packed_guid_unflushed_def

lemmas read_field_defs = reset_bit_reader_def ensure_readable_def remaining_def Let_def

interpretation u8c: wire_codec write_uint8 read_uint8 "\<lambda>v. [v]"
  by unfold_locales (auto simp: write_field_defs read_uint8_def read_field_defs nth_append)

lemma le_bytes_2: "from_le_bytes [to_le_bytes 2 v ! 0, to_le_bytes 2 v ! 1] = (v :: u16)"
  using from_to_le_bytes [of 2 v] by (simp add: numeral_2_eq_2)

lemma le_bytes_4:
  "from_le_bytes [to_le_bytes 4 v ! 0, to_le_bytes 4 v ! 1, to_le_bytes 4 v ! 2, to_le_bytes 4 v ! 3]
     = (v :: u32)"
  using from_to_le_bytes [of 4 v] by (simp add: eval_nat_numeral)

interpretation u16c: wire_codec write_uint16 read_uint16 "to_le_bytes 2"
  by unfold_locales
    (auto simp: write_field_defs read_uint16_def read_field_defs nth_append le_bytes_2 [simplified])

interpretation u32c: wire_codec write_uint32 read_uint32 "to_le_bytes 4"
  by unfold_locales
    (auto simp: write_field_defs read_uint32_def read_field_defs nth_append le_bytes_4 [simplified])

interpretation u64c: wire_codec write_uint64 read_uint64 "to_le_bytes 8"
  by unfold_locales (auto simp: write_field_defs read_uint64_def read_field_defs)

interpretation guidc: wire_codec write_guid read_guid to_raw_bytes
proof unfold_locales
  fix p :: WorldPacket and x pre rest
  assume d: "pk_data p = pre @ to_raw_bytes x @ rest" and r: "read_pos p = length pre"
  from u64c.read_enc [of p pre "low_value x" "to_le_bytes 8 (high_value x) @ rest"] d r
  obtain q where q: "read_uint64 p = (Inr (low_value x), q)" "pk_data q = pk_data p"
    "read_pos q = length pre + 8" by (auto simp: to_raw_bytes_def)
  from u64c.read_enc [of q "pre @ to_le_bytes 8 (low_value x)" "high_value x" rest] d q
  obtain q' where "read_uint64 q = (Inr (high_value x), q')" "pk_data q' = pk_data q"
    "read_pos q' = length pre + 16" by (auto simp: to_raw_bytes_def)
  with q show "\<exists>p'. read_guid p = (Inr x, p') \<and> pk_data p' = pk_data p
      \<and> read_pos p' = length pre + length (to_raw_bytes x)"
    by (auto simp: read_guid_def read_int64_def bind_read_def to_raw_bytes_def)
qed (auto simp: write_field_defs to_raw_bytes_def)

subsection \<open>Packed GUIDs\<close>

lemma bit_fold_mask:
  "bit (fold (\<lambda>i m. if P i then m OR push_bit i 1 else m) is (m :: u8)) k
     \<longleftrightarrow> bit m k \<or> k < 8 \<and> k \<in> set is \<and> P k"
  by (induction "is" arbitrary: m) (auto simp: bit_simps)

lemma bit_nonzero_mask: "i < 8 \<Longrightarrow> bit (nonzero_mask bs) i \<longleftrightarrow> bs ! i \<noteq> 0"
  by (simp add: nonzero_mask_def bit_fold_mask del: upt_rec_numeral)

lemma read_masked_bytes_enc:
  assumes m: "\<forall>i\<in>set is. bit m i \<longleftrightarrow> bs ! i \<noteq> 0"
  shows "pk_data p = pre @ filter (\<lambda>b. b \<noteq> 0) (map ((!) bs) is) @ rest \<Longrightarrow> read_pos p = length pre \<Longrightarrow>
     \<exists>p'. read_masked_bytes p m is acc
         = (Inr (foldl (\<lambda>a i. if bs ! i \<noteq> 0 then a[i := bs ! i] else a) acc is), p')
       \<and> pk_data p' = pk_data p
       \<and> read_pos p' = length pre + length (filter (\<lambda>b. b \<noteq> 0) (map ((!) bs) is))"
  using m
proof (induction "is" arbitrary: p pre acc)
  case (Cons i "is")
  show ?case
  proof (cases "bs ! i = 0")
    case True
    with Cons show ?thesis by (simp add: bit_iff_and_push_bit_not_eq_0)
  next
    case False
    from False Cons.prems u8c.read_enc [of p pre "bs ! i" "filter (\<lambda>b. b \<noteq> 0) (map ((!) bs) is) @ rest"]
    obtain q where q: "read_uint8 p = (Inr (bs ! i), q)" "pk_data q = pk_data p"
      "read_pos q = length (pre @ [bs ! i])" by auto
    from False q Cons.prems Cons.IH [of q "pre @ [bs ! i]" "acc[i := bs ! i]"] show ?thesis
      by (auto simp: bind_read_def bit_iff_and_push_bit_not_eq_0)
  qed
qed simp

lemma nth_list_update_any: "xs[i := x] ! j = (if i = j \<and> j < length xs then x else xs ! j)"
  by (cases "i < length xs") (auto simp: nth_list_update list_update_beyond)

lemma masked_fold:
  assumes "length bs = 8"
  shows "foldl (\<lambda>a i. if bs ! i \<noteq> 0 then a[i := bs ! i] else a) (replicate 8 0) [0..<8] = (bs :: u8 list)"
proof (rule nth_equalityI)
  have len: "length (foldl (\<lambda>a i. if bs ! i \<noteq> 0 then a[i := bs ! i] else a) acc is) = length acc" for acc "is"
    by (induction "is" arbitrary: acc) auto
  have nth: "j < length acc \<Longrightarrow> foldl (\<lambda>a i. if bs ! i \<noteq> 0 then a[i := bs ! i] else a) acc is ! j
      = (if j \<in> set is \<and> bs ! j \<noteq> 0 then bs ! j else acc ! j)" for acc "is" j
    by (induction "is" arbitrary: acc) (auto simp: nth_list_update_any)
  show "length (foldl (\<lambda>a i. if bs ! i \<noteq> 0 then a[i := bs ! i] else a) (replicate 8 0) [0..<8]) = length bs"
    using assms by (simp only: len) simp
  fix j assume "j < length (foldl (\<lambda>a i. if bs ! i \<noteq> 0 then a[i := bs ! i] else a) (replicate 8 0) [0..<8])"
  then have "j < 8" by (simp only: len) simp
  then show "foldl (\<lambda>a i. if bs ! i \<noteq> 0 then a[i := bs ! i] else a) (replicate 8 0) [0..<8] ! j = bs ! j"
    by (subst nth) auto
qed

lemma read_masked_roundtrip:
  assumes "length bs = 8" "pk_data p = pre @ filter (\<lambda>b. b \<noteq> 0) bs @ rest" "read_pos p = length pre"
  shows "\<exists>p'. read_masked_bytes p (nonzero_mask bs) [0..<8] (replicate 8 0) = (Inr bs, p')
    \<and> pk_data p' = pk_data p \<and> read_pos p' = length pre + length (filter (\<lambda>b. b \<noteq> 0) bs)"
proof -
  have bs: "map ((!) bs) [0..<8] = bs" using assms(1) map_nth [of bs] by simp
  have "\<forall>i\<in>set [0..<8]. bit (nonzero_mask bs) i \<longleftrightarrow> bs ! i \<noteq> 0" by (auto simp: bit_nonzero_mask)
  from read_masked_bytes_enc [OF this, of p pre rest "replicate 8 0"] assms show ?thesis
    by (simp only: bs masked_fold)
qed

definition packed_guid_bytes :: "ObjectGuid \<Rightarrow> u8 list" where
  "packed_guid_bytes g =
     (let lo = to_le_bytes 8 (low_value g); hi = to_le_bytes 8 (high_value g)
      in [nonzero_mask lo, nonzero_mask hi] @ filter (\<lambda>b. b \<noteq> 0) lo @ filter (\<lambda>b. b \<noteq> 0) hi)"

lemma read_packed_enc:
  assumes d: "pk_data p = pre @ packed_guid_bytes g @ rest" and r: "read_pos p = length pre"
  shows "\<exists>p'. read_packed_guid p = (Inr g, p') \<and> pk_data p' = pk_data p
      \<and> read_pos p' = length pre + length (packed_guid_bytes g)"
proof -
  let ?lo = "to_le_bytes 8 (low_value g)" and ?hi = "to_le_bytes 8 (high_value g)"
  let ?nz = "filter (\<lambda>b. b \<noteq> (0 :: u8))"
  let ?p = "reset_bit_reader p"
  have d': "pk_data ?p = pre @ [nonzero_mask ?lo, nonzero_mask ?hi] @ ?nz ?lo @ ?nz ?hi @ rest"
    and r': "read_pos ?p = length pre"
    using d r by (auto simp: packed_guid_bytes_def Let_def reset_bit_reader_def)
  from u8c.read_enc [of ?p pre "nonzero_mask ?lo" "nonzero_mask ?hi # ?nz ?lo @ ?nz ?hi @ rest"] d' r'
  obtain p1 where p1: "read_uint8 ?p = (Inr (nonzero_mask ?lo), p1)" "pk_data p1 = pk_data ?p"
    "read_pos p1 = length (pre @ [nonzero_mask ?lo])" by auto
  from u8c.read_enc [of p1 "pre @ [nonzero_mask ?lo]" "nonzero_mask ?hi" "?nz ?lo @ ?nz ?hi @ rest"] d' p1
  obtain p2 where p2: "read_uint8 p1 = (Inr (nonzero_mask ?hi), p2)" "pk_data p2 = pk_data ?p"
    "read_pos p2 = length (pre @ [nonzero_mask ?lo, nonzero_mask ?hi])" by auto
  from read_masked_roundtrip [of ?lo p2 "pre @ [nonzero_mask ?lo, nonzero_mask ?hi]" "?nz ?hi @ rest"] d' p2
  obtain p3 where p3: "read_masked_bytes p2 (nonzero_mask ?lo) [0..<8] (replicate 8 0) = (Inr ?lo, p3)"
    "pk_data p3 = pk_data ?p"
    "read_pos p3 = length (pre @ [nonzero_mask ?lo, nonzero_mask ?hi] @ ?nz ?lo)" by auto
  from read_masked_roundtrip [of ?hi p3 "pre @ [nonzero_mask ?lo, nonzero_mask ?hi] @ ?nz ?lo" rest] d' p3
  obtain p4 where p4: "read_masked_bytes p3 (nonzero_mask ?hi) [0..<8] (replicate 8 0) = (Inr ?hi, p4)"
    "pk_data p4 = pk_data ?p" "read_pos p4 = length pre + length (packed_guid_bytes g)"
    by (auto simp: packed_guid_bytes_def Let_def)
  have "read_packed_guid p = (Inr g, p4)"
    using p1(1) p2(1) p3(1) p4(1) by (simp add: read_packed_guid_def bind_read_def)
  with p4 show ?thesis by (auto simp: reset_bit_reader_def)
qed

interpretation packedc: wire_codec write_packed_guid read_packed_guid packed_guid_bytes
proof unfold_locales
  fix p :: WorldPacket and x
  show "pk_data (write_packed_guid p x) = pk_data (flush_bits p) @ packed_guid_bytes x"
    "wbit_pos (write_packed_guid p x) = 0"
    by (auto simp: write_field_defs packed_guid_bytes_def Let_def)
qed (rule read_packed_enc)

text \<open>
  C38: any list of GUIDs written in the packed form (two masks and the non-zero bytes) is read
  back unchanged, and each takes two bytes plus one per non-zero byte.
\<close>

theorem packed_guids_roundtrip:
  "fst (read_all read_packed_guid (length gs)
      (from_bytes (pk_data (foldl write_packed_guid new_empty gs)))) = Inr gs
   \<and> packet_size (foldl write_packed_guid new_empty gs)
      = (\<Sum>g\<leftarrow>gs. 2 + length (filter (\<lambda>b. b \<noteq> 0) (to_raw_bytes g)))"
proof
  show "fst (read_all read_packed_guid (length gs)
      (from_bytes (pk_data (foldl write_packed_guid new_empty gs)))) = Inr gs"
    by (rule packedc.roundtrip_all)
  have "packet_size (foldl write_packed_guid new_empty gs) = length (concat (map packed_guid_bytes gs))"
    using packedc.write_all_data [of new_empty gs] by (simp add: packet_size_def new_empty_def)
  also have "\<dots> = (\<Sum>g\<leftarrow>gs. 2 + length (filter (\<lambda>b. b \<noteq> 0) (to_raw_bytes g)))"
    by (simp add: length_concat packed_guid_bytes_def Let_def to_raw_bytes_def comp_def)
  finally show "packet_size (foldl write_packed_guid new_empty gs)
      = (\<Sum>g\<leftarrow>gs. 2 + length (filter (\<lambda>b. b \<noteq> 0) (to_raw_bytes g)))" .
qed


subsection \<open>Strings\<close>

lemma cstring_scan_found:
  assumes "pk_data p = pre @ s @ 0 # rest" "0 \<notin> set s" "utf8_valid s"
    "read_pos p = length pre + k" "k \<le> length s"
  shows "cstring_scan p (length pre) = (Inr s, p\<lparr>read_pos := length pre + length s + 1\<rparr>)"
  using assms
proof (induction "length s - k" arbitrary: p k)
  case 0
  then have "k = length s" by simp
  with 0 show ?case
    by (subst cstring_scan.simps) (simp add: nth_append string_from_utf8_def)
next
  case (Suc n)
  then have k: "k < length s" by simp
  with Suc.prems have nz: "pk_data p ! read_pos p \<noteq> 0"
    by (simp add: nth_append) (metis nth_mem)
  let ?q = "p\<lparr>read_pos := read_pos p + 1\<rparr>"
  have "cstring_scan p (length pre) = cstring_scan ?q (length pre)"
    using k Suc.prems nz by (subst cstring_scan.simps) simp
  also have "\<dots> = (Inr s, ?q\<lparr>read_pos := length pre + length s + 1\<rparr>)"
    by (rule Suc.hyps(1) [of "Suc k"]) (use Suc k in auto)
  finally show ?case by simp
qed

text \<open>
  A C string written at the end of a buffer is read back whole: for text without an inner
  zero byte, \<open>read_cstring\<close> at the place where \<open>write_cstring\<close> started returns the text and stops
  right behind the terminator.
\<close>

theorem cstring_roundtrip:
  assumes "utf8_valid s" and "0 \<notin> set s" and "wbit_pos p = 0"
  shows "let q = write_cstring p s; start = length (pk_data p) in
    read_cstring (q\<lparr>read_pos := start\<rparr>)
      = (Inr s, (reset_bit_reader q)\<lparr>read_pos := start + length s + 1\<rparr>)
    \<and> pk_data q = pk_data p @ s @ [0]"
proof -
  have d: "pk_data (write_cstring p s) = pk_data p @ s @ [0]"
    using assms(3) by (simp add: write_cstring_def write_bytes_def write_field_defs)
  let ?q = "reset_bit_reader ((write_cstring p s)\<lparr>read_pos := length (pk_data p)\<rparr>)"
  have "cstring_scan ?q (length (pk_data p))
      = (Inr s, ?q\<lparr>read_pos := length (pk_data p) + length s + 1\<rparr>)"
    by (rule cstring_scan_found [of _ _ _ "[]" 0]) (use d assms in \<open>auto simp: reset_bit_reader_def\<close>)
  with d show ?thesis by (simp add: Let_def read_cstring_def) (simp add: reset_bit_reader_def)
qed

theorem cstring_roundtrip_witness:
  "utf8_valid [104, 0xC3, 0xA9] \<and>
   fst (read_cstring (write_cstring new_empty [104, 0xC3, 0xA9])) = Inr [104, 0xC3, 0xA9]"
proof -
  have v: "utf8_valid [104, 0xC3, 0xA9]" by (simp add: utf8_cont_def)
  have e: "(write_cstring new_empty [104, 0xC3, 0xA9])\<lparr>read_pos := 0\<rparr>
      = write_cstring new_empty [104, 0xC3, 0xA9]"
    by (simp add: write_cstring_def write_bytes_def write_field_defs new_empty_def)
  have "wbit_pos new_empty = 0" "pk_data new_empty = []" by (simp_all add: new_empty_def)
  with cstring_roundtrip [OF v, of new_empty] v e show ?thesis by (simp add: Let_def)
qed

section \<open>Reads stay inside the buffer\<close>

text \<open>One step for every reading operation, whatever it returns.\<close>

inductive packet_read :: "WorldPacket \<Rightarrow> WorldPacket \<Rightarrow> bool" where
  rd_u8: "packet_read p (snd (read_uint8 p))"
| rd_u16: "packet_read p (snd (read_uint16 p))"
| rd_u32: "packet_read p (snd (read_uint32 p))"
| rd_u64: "packet_read p (snd (read_uint64 p))"
| rd_guid: "packet_read p (snd (read_guid p))"
| rd_packed: "packet_read p (snd (read_packed_guid p))"
| rd_bytes: "packet_read p (snd (read_bytes p n))"
| rd_string: "packet_read p (snd (read_string p n))"
| rd_cstring: "packet_read p (snd (read_cstring p))"
| rd_skip: "packet_read p (snd (packet_skip p n))"
| rd_bit: "packet_read p (snd (read_bit p))"
| rd_bits: "packet_read p (snd (read_bits p n))"
| rd_skip_opcode: "packet_read p (skip_opcode p)"
| rd_reset: "packet_read p (reset_read p)"
| rd_reset_bits: "packet_read p (reset_bits p)"

definition reads_from :: "u8 list \<Rightarrow> WorldPacket \<Rightarrow> bool" where
  "reads_from d p = (reader_ok p \<and> pk_data p = d)"

lemma reads_from_bind:
  "reads_from d (snd r) \<Longrightarrow> (\<And>x p. reads_from d p \<Longrightarrow> reads_from d (snd (f x p))) \<Longrightarrow>
     reads_from d (snd (bind_read r f))"
  by (auto simp: bind_read_def split: prod.splits sum.splits)

lemma reads_from_fixed:
  assumes "reads_from d p"
  shows "reads_from d (snd (read_uint8 p))" "reads_from d (snd (read_uint16 p))"
    "reads_from d (snd (read_uint32 p))" "reads_from d (snd (read_uint64 p))"
    "reads_from d (snd (read_bytes p n))" "reads_from d (snd (packet_skip p n))"
    "reads_from d (reset_bit_reader p)" "reads_from d (skip_opcode p)" "reads_from d (reset_read p)"
  using assms
  by (auto simp: reads_from_def reader_ok_def read_uint8_def read_uint16_def read_uint32_def
      read_uint64_def read_bytes_def packet_skip_def skip_opcode_def reset_read_def read_field_defs)

lemma reads_from_bit: "reads_from d p \<Longrightarrow> reads_from d (snd (read_bit p))"
  by (auto simp: reads_from_def reader_ok_def read_bit_def bind_read_def ensure_readable_def
      remaining_def Let_def)

lemma reads_from_bits: "reads_from d p \<Longrightarrow> reads_from d (snd (read_bits_loop p n v))"
  by (induction n arbitrary: p v) (auto intro!: reads_from_bind reads_from_bit)

lemma reads_from_masked: "reads_from d p \<Longrightarrow> reads_from d (snd (read_masked_bytes p m is acc))"
  by (induction "is" arbitrary: p acc) (auto intro!: reads_from_bind reads_from_fixed)

lemma reads_from_scan: "reads_from d p \<Longrightarrow> reads_from d (snd (cstring_scan p start))"
proof (induction p start rule: cstring_scan.induct)
  case (1 p start)
  have "reads_from d (p\<lparr>read_pos := read_pos p + 1\<rparr>)" if "read_pos p < length (pk_data p)"
    using that "1.prems" by (auto simp: reads_from_def reader_ok_def)
  with 1 show ?case
    by (subst cstring_scan.simps) (auto split: sum.splits)
qed

lemma packet_read_reads_from: "reads_from d p \<Longrightarrow> packet_read p q \<Longrightarrow> reads_from d q"
  by (erule packet_read.cases)
    (auto simp: read_guid_def read_int64_def read_packed_guid_def read_string_def read_cstring_def
      read_bits_def reset_bits_def Let_def
      intro!: reads_from_bind reads_from_fixed reads_from_bit reads_from_bits reads_from_masked
        reads_from_scan)

lemma reads_from_from_bytes: "reads_from d (from_bytes d)"
  by (simp add: reads_from_def reader_ok_from_bytes) (simp add: from_bytes_def)

interpretation packet_reads: invariant_system "\<lambda>p. p = from_bytes d" packet_read "reads_from d" for d
  by unfold_locales (auto intro: packet_read_reads_from reads_from_from_bytes)

text \<open>
  C39: no sequence of reads, failed ones included, moves the cursor past the end of the data or
  changes the data.
\<close>

theorem reads_stay_in_bounds:
  assumes "reachable (\<lambda>p. p = from_bytes d) packet_read p"
  shows "read_pos p \<le> length d \<and> pk_data p = d"
  using packet_reads.reachable_inv [OF assms] by (auto simp: reads_from_def reader_ok_def)

theorem reads_stay_in_bounds_witness:
  "read_pos (snd (read_uint32 (snd (read_uint16 (from_bytes [1, 2, 3]))))) \<le> 3"
proof -
  have "reachable (\<lambda>p. p = from_bytes [1, 2, 3]) packet_read
      (snd (read_uint32 (snd (read_uint16 (from_bytes [1, 2, 3])))))"
    by (rule reach_step, rule reach_step, rule reach_init, rule refl, rule rd_u16, rule rd_u32)
  from reads_stay_in_bounds [OF this] show ?thesis by simp
qed

end
