(* ===== verification/LootModel.thy ===== *)
theory LootModel
  imports Guid
begin

text \<open>
  Data and lock-protected helpers of \<open>crates/wow-loot/src/authority/state.rs\<close>: the loot pools
  of one map object, the claim keys and errors, the state behind the authority mutex, the
  single reservation attempts, and the claim lease.  A lease's \<open>AtomicU8\<close> status is a field
  of the lease record; every operation that reads or writes it does so while it holds the
  authority mutex, so one operation is one atomic step.  A poisoned mutex is recovered by the
  code (\<open>into_inner\<close>) and needs no case of its own.
\<close>

section \<open>Loot pools\<close>

record NotNormalLootItem =
  nn_loot_list_id :: u8
  nn_is_looted :: bool

record LootEntryFlags =
  follow_loot_rules :: bool
  freeforall :: bool
  blocked :: bool
  counted :: bool
  under_threshold :: bool
  needs_quest :: bool

record LootEntry =
  loot_list_id :: u8
  item_id :: u32
  quantity :: u32
  random_properties_id :: i32
  random_properties_seed :: i32
  item_context :: u8
  entry_flags :: LootEntryFlags
  entry_allowed_looters :: "ObjectGuid list"
  roll_winner :: ObjectGuid
  ffa_looted_by :: "ObjectGuid list"
  taken :: bool

record CreatureLoot =
  loot_guid :: ObjectGuid
  coins :: u32
  unlooted_count :: u8
  loot_type :: u8
  dungeon_encounter_id :: u32
  loot_method :: u8
  loot_master :: ObjectGuid
  round_robin_player :: ObjectGuid
  player_ffa_items :: "(ObjectGuid \<times> NotNormalLootItem list) list"
  players_looting :: "ObjectGuid list"
  pool_allowed_looters :: "ObjectGuid list"
  loot_items :: "LootEntry list"
  looted_by_player :: bool

definition LOOT_SLOT_TYPE_OWNER_LIKE_CPP :: u8 where
  "LOOT_SLOT_TYPE_OWNER_LIKE_CPP = 4"

definition free_for_all_ui_type_like_cpp :: "LootEntry \<Rightarrow> u8" where
  "free_for_all_ui_type_like_cpp e = LOOT_SLOT_TYPE_OWNER_LIKE_CPP"

definition is_over_threshold_like_cpp :: "LootEntry \<Rightarrow> bool" where
  "is_over_threshold_like_cpp e =
     (\<not> under_threshold (entry_flags e) \<and> \<not> freeforall (entry_flags e))"

definition add_allowed_looter_like_cpp :: "ObjectGuid \<Rightarrow> LootEntry \<Rightarrow> LootEntry" where
  "add_allowed_looter_like_cpp player e =
     (if \<not> is_empty player \<and> player \<notin> set (entry_allowed_looters e)
      then e\<lparr>entry_allowed_looters := entry_allowed_looters e @ [player]\<rparr> else e)"

definition has_allowed_looter_like_cpp :: "LootEntry \<Rightarrow> ObjectGuid \<Rightarrow> bool" where
  "has_allowed_looter_like_cpp e player = (player \<in> set (entry_allowed_looters e))"

definition roll_winner_allows_like_cpp :: "LootEntry \<Rightarrow> ObjectGuid \<Rightarrow> bool" where
  "roll_winner_allows_like_cpp e player = (is_empty (roll_winner e) \<or> roll_winner e = player)"

definition is_looted_for_player_like_cpp :: "LootEntry \<Rightarrow> ObjectGuid \<Rightarrow> bool" where
  "is_looted_for_player_like_cpp e player =
     (if freeforall (entry_flags e) then player \<in> set (ffa_looted_by e) else taken e)"

definition visible_in_represented_free_for_all_view_like_cpp ::
  "LootEntry \<Rightarrow> ObjectGuid \<Rightarrow> bool" where
  "visible_in_represented_free_for_all_view_like_cpp e player =
     (\<not> is_looted_for_player_like_cpp e player \<and> has_allowed_looter_like_cpp e player)"

definition mark_looted_for_player_like_cpp :: "ObjectGuid \<Rightarrow> LootEntry \<Rightarrow> LootEntry" where
  "mark_looted_for_player_like_cpp player e =
     (if freeforall (entry_flags e) then
        (if \<not> is_empty player \<and> player \<notin> set (ffa_looted_by e)
         then e\<lparr>ffa_looted_by := ffa_looted_by e @ [player]\<rparr> else e)
      else e\<lparr>taken := True\<rparr>)"

definition fully_looted_like_cpp :: "LootEntry \<Rightarrow> bool" where
  "fully_looted_like_cpp e =
     (if freeforall (entry_flags e) then
        entry_allowed_looters e \<noteq> [] \<and>
        (\<forall>player\<in>set (entry_allowed_looters e). player \<in> set (ffa_looted_by e))
      else taken e)"

definition is_looted_like_cpp :: "CreatureLoot \<Rightarrow> bool" where
  "is_looted_like_cpp loot = (coins loot = 0 \<and> unlooted_count loot = 0)"

definition item_like_cpp :: "CreatureLoot \<Rightarrow> u8 \<Rightarrow> LootEntry option" where
  "item_like_cpp loot lid = find (\<lambda>e. loot_list_id e = lid) (loot_items loot)"

definition player_has_unlooted_ffa_item_like_cpp :: "CreatureLoot \<Rightarrow> ObjectGuid \<Rightarrow> u8 \<Rightarrow> bool" where
  "player_has_unlooted_ffa_item_like_cpp loot player lid =
     (case find (\<lambda>(looter, _). looter = player) (player_ffa_items loot) of
        None \<Rightarrow> False
      | Some (_, its) \<Rightarrow> \<exists>item\<in>set its. nn_loot_list_id item = lid \<and> \<not> nn_is_looted item)"

definition item_is_looted_for_player_like_cpp :: "CreatureLoot \<Rightarrow> u8 \<Rightarrow> ObjectGuid \<Rightarrow> bool" where
  "item_is_looted_for_player_like_cpp loot lid player =
     (case item_like_cpp loot lid of None \<Rightarrow> True
      | Some e \<Rightarrow> is_looted_for_player_like_cpp e player)"

definition mark_item_looted_for_player_like_cpp ::
  "u8 \<Rightarrow> ObjectGuid \<Rightarrow> CreatureLoot \<Rightarrow> bool \<times> CreatureLoot" where
  "mark_item_looted_for_player_like_cpp lid player loot =
     (case position (\<lambda>e. loot_list_id e = lid) (loot_items loot) of
        None \<Rightarrow> (False, loot)
      | Some index \<Rightarrow>
          (let e = loot_items loot ! index in
           if is_looted_for_player_like_cpp e player then (False, loot)
           else
             (let loot1 = loot\<lparr>loot_items :=
                            (loot_items loot)[index := mark_looted_for_player_like_cpp player e]\<rparr>;
                  loot2 = (if freeforall (entry_flags e)
                           then loot1\<lparr>player_ffa_items :=
                                  update_first (\<lambda>(looter, _). looter = player)
                                    (\<lambda>(looter, its). (looter,
                                       update_first (\<lambda>item. nn_loot_list_id item = lid)
                                         (nn_is_looted_update (\<lambda>_. True)) its))
                                    (player_ffa_items loot1)\<rparr>
                           else loot1)
              in (True, loot2\<lparr>unlooted_count := saturating_sub (unlooted_count loot2) 1\<rparr>))))"

section \<open>Scopes, keys and outcomes\<close>

datatype OwnedLootScope = Shared | Personal ObjectGuid

datatype OwnedLootAuthorityLifecycle = Pristine | Active | Retired | Quarantined | Detached

record OwnedLootAuthorityStamp =
  stamp_lifecycle :: OwnedLootAuthorityLifecycle
  stamp_object_generation :: u64

record OwnedLootSnapshot =
  snap_generation :: u64
  snap_scope :: OwnedLootScope
  snap_loot :: CreatureLoot

datatype LootInstallOutcome = Installed (install_generation: u64) | AlreadyInitialized (install_generation: u64)

definition installed :: "LootInstallOutcome \<Rightarrow> bool" where
  "installed out = (case out of Installed _ \<Rightarrow> True | AlreadyInitialized _ \<Rightarrow> False)"

record LootViewerOpenOutcome =
  open_generation :: u64
  open_scope :: OwnedLootScope
  open_inserted :: bool
  open_first_viewer :: bool

record LootViewerCloseOutcome =
  close_snapshot :: OwnedLootSnapshot
  close_removed :: bool
  close_whole_object_fully_looted :: bool
  close_object_generation :: u64
  close_lifecycle_revision :: u64
  close_whole_object_fully_skinned :: bool

record LootFullyLootedLifecycleObservation =
  obs_object_generation :: u64
  obs_lifecycle_revision :: u64
  obs_whole_object_fully_skinned :: bool

record LootRoundRobinReleaseOutcome =
  rr_snapshot :: OwnedLootSnapshot
  rr_cleared :: bool

datatype LootItemClaimKey =
  LootItemClaimKey (key_scope: OwnedLootScope) (key_loot_list_id: u8) (key_claimant: "ObjectGuid option")

datatype LootClaimPayload = PayItem LootEntry | PayMoney u32

datatype LootClaimError =
    ErrRetired | ErrStaleGeneration | ErrNoLootForPlayer | ErrResponseEnqueueFailed |
    ErrItemNotFound | ErrItemAlreadyLooted | ErrPlayerNotAllowed | ErrItemBlocked |
    ErrWrongRollWinner

datatype LootClaimCommitError = CommitRolledBack | CommitStaleGeneration | CommitStateChanged

datatype ReservationKey = KeyItem LootItemClaimKey | KeyMoney OwnedLootScope

definition reservation_scope :: "ReservationKey \<Rightarrow> OwnedLootScope" where
  "reservation_scope key = (case key of KeyItem item \<Rightarrow> key_scope item | KeyMoney scope \<Rightarrow> scope)"

section \<open>The state behind the mutex\<close>

record AuthorityState =
  generation :: u64
  retired :: bool
  detached :: bool
  quarantined :: bool
  shared :: "CreatureLoot option"
  personal :: "(ObjectGuid, CreatureLoot) hash_map"
  scope_epochs :: "(OwnedLootScope, u64) hash_map"
  next_scope_epoch_field :: u64
  lifecycle_revision :: u64
  reservations :: "(ReservationKey, u64) hash_map"
  persisting :: "(ReservationKey, u64) hash_map"
  next_token_field :: u64

definition AuthorityState_default :: AuthorityState where
  "AuthorityState_default =
     \<lparr>generation = 0, retired = True, detached = False, quarantined = False, shared = None,
      personal = [], scope_epochs = [], next_scope_epoch_field = 1, lifecycle_revision = 0,
      reservations = [], persisting = [], next_token_field = 1\<rparr>"

definition retain_only_persisting_reservations :: "AuthorityState \<Rightarrow> AuthorityState" where
  "retain_only_persisting_reservations st =
     st\<lparr>reservations := hm_retain (\<lambda>key token. hm_get (persisting st) key = Some token) (reservations st)\<rparr>"

definition finalize_closed_state_if_drained :: "AuthorityState \<Rightarrow> AuthorityState" where
  "finalize_closed_state_if_drained st =
     (if \<not> retired st \<or> persisting st \<noteq> [] then st
      else st\<lparr>shared := None, personal := [], scope_epochs := [], reservations := []\<rparr>)"

definition scope_has_persisting_claim :: "AuthorityState \<Rightarrow> OwnedLootScope \<Rightarrow> bool" where
  "scope_has_persisting_claim st scope =
     (\<exists>key\<in>set (map fst (persisting st)). reservation_scope key = scope)"

definition next_token :: "AuthorityState \<Rightarrow> u64 \<times> AuthorityState" where
  "next_token st = (next_token_field st, st\<lparr>next_token_field := bump_nonzero (next_token_field st)\<rparr>)"

definition next_scope_epoch :: "AuthorityState \<Rightarrow> u64 \<times> AuthorityState" where
  "next_scope_epoch st =
     (next_scope_epoch_field st, st\<lparr>next_scope_epoch_field := bump_nonzero (next_scope_epoch_field st)\<rparr>)"

definition bump_lifecycle_revision :: "AuthorityState \<Rightarrow> AuthorityState" where
  "bump_lifecycle_revision st =
     st\<lparr>lifecycle_revision := max (saturating_add (lifecycle_revision st) 1) 1\<rparr>"

definition install_all_scope_epochs :: "u64 \<Rightarrow> AuthorityState \<Rightarrow> AuthorityState" where
  "install_all_scope_epochs epoch st =
     st\<lparr>scope_epochs :=
         fold (\<lambda>player. hm_insert (Personal player) epoch) (map fst (personal st))
           (if shared st \<noteq> None then hm_insert Shared epoch [] else [])\<rparr>"

definition any_scope_epoch :: "AuthorityState \<Rightarrow> u64 option" where
  "any_scope_epoch st =
     (case hm_values (scope_epochs st) of [] \<Rightarrow> None | v # vs \<Rightarrow> Some (fold min vs v))"

definition scope_epoch :: "AuthorityState \<Rightarrow> OwnedLootScope \<Rightarrow> u64 option" where
  "scope_epoch st scope = hm_get (scope_epochs st) scope"

definition selected_scope_like_cpp :: "AuthorityState \<Rightarrow> ObjectGuid \<Rightarrow> OwnedLootScope option" where
  "selected_scope_like_cpp st player =
     (if retired st then None
      else if personal st = [] then map_option (\<lambda>_. Shared) (shared st)
      else if hm_contains_key (personal st) player then Some (Personal player) else None)"

definition active_loot_pools_fully_looted_like_cpp :: "AuthorityState \<Rightarrow> bool" where
  "active_loot_pools_fully_looted_like_cpp st =
     ((case shared st of None \<Rightarrow> True | Some loot \<Rightarrow> is_looted_like_cpp loot) \<and>
      list_all is_looted_like_cpp (hm_values (personal st)))"

definition active_loot_pools_have_no_viewers_like_cpp :: "AuthorityState \<Rightarrow> bool" where
  "active_loot_pools_have_no_viewers_like_cpp st =
     ((case shared st of None \<Rightarrow> True | Some loot \<Rightarrow> players_looting loot = []) \<and>
      list_all (\<lambda>loot. players_looting loot = []) (hm_values (personal st)))"

definition LootType_Skinning :: u8 where
  "LootType_Skinning = 6"

fun skinned_scan :: "CreatureLoot list \<Rightarrow> bool \<Rightarrow> bool" where
  "skinned_scan [] has_personal_skinning_loot = has_personal_skinning_loot"
| "skinned_scan (loot # rest) has_personal_skinning_loot =
     (if loot_type loot \<noteq> LootType_Skinning then skinned_scan rest has_personal_skinning_loot
      else if \<not> is_looted_like_cpp loot then False
      else skinned_scan rest True)"

definition active_loot_pools_fully_skinned_like_cpp :: "AuthorityState \<Rightarrow> bool" where
  "active_loot_pools_fully_skinned_like_cpp st =
     ((case shared st of None \<Rightarrow> False
       | Some loot \<Rightarrow> loot_type loot = LootType_Skinning \<and> is_looted_like_cpp loot) \<or>
      skinned_scan (hm_values (personal st)) False)"

definition loot_for_scope :: "AuthorityState \<Rightarrow> OwnedLootScope \<Rightarrow> CreatureLoot option" where
  "loot_for_scope st scope =
     (case scope of Shared \<Rightarrow> shared st | Personal player \<Rightarrow> hm_get (personal st) player)"

text \<open>\<open>loot_for_scope_mut\<close> with the assignment its caller makes through the reference.\<close>

definition loot_for_scope_mut ::
  "OwnedLootScope \<Rightarrow> (CreatureLoot \<Rightarrow> CreatureLoot) \<Rightarrow> AuthorityState \<Rightarrow> AuthorityState" where
  "loot_for_scope_mut scope f st =
     (case scope of Shared \<Rightarrow> st\<lparr>shared := map_option f (shared st)\<rparr>
      | Personal player \<Rightarrow> st\<lparr>personal := hm_modify player f (personal st)\<rparr>)"

definition snapshot_for_scope :: "AuthorityState \<Rightarrow> OwnedLootScope \<Rightarrow> OwnedLootSnapshot option" where
  "snapshot_for_scope st scope =
     (if retired st then None
      else case scope_epoch st scope of None \<Rightarrow> None
      | Some gen \<Rightarrow> map_option (\<lambda>loot. \<lparr>snap_generation = gen, snap_scope = scope, snap_loot = loot\<rparr>)
                     (loot_for_scope st scope))"

section \<open>One reservation attempt\<close>

datatype ReserveAttempt =
    Acquired u64 u64 ReservationKey LootClaimPayload
  | Wait
  | Rejected LootClaimError

datatype LootItemClaimMode = Direct | Award

definition reserve_item_once ::
  "AuthorityState \<Rightarrow> ObjectGuid \<Rightarrow> u8 \<Rightarrow> LootItemClaimMode \<Rightarrow> u64 option
     \<Rightarrow> ReserveAttempt \<times> AuthorityState" where
  "reserve_item_once st player lid mode expected_generation =
     (if retired st then (Rejected ErrRetired, st) else
      case selected_scope_like_cpp st player of None \<Rightarrow> (Rejected ErrNoLootForPlayer, st)
      | Some scope \<Rightarrow>
     (case scope_epoch st scope of None \<Rightarrow> (Rejected ErrStaleGeneration, st)
      | Some gen \<Rightarrow>
      if (case expected_generation of None \<Rightarrow> False | Some expected \<Rightarrow> expected \<noteq> gen)
      then (Rejected ErrStaleGeneration, st) else
     (case loot_for_scope st scope of None \<Rightarrow> (Rejected ErrNoLootForPlayer, st)
      | Some loot \<Rightarrow>
     (case item_like_cpp loot lid of None \<Rightarrow> (Rejected ErrItemNotFound, st)
      | Some entry \<Rightarrow>
      if is_looted_for_player_like_cpp entry player then (Rejected ErrItemAlreadyLooted, st)
      else if \<not> has_allowed_looter_like_cpp entry player then (Rejected ErrPlayerNotAllowed, st)
      else if mode = Direct \<and> blocked (entry_flags entry) then (Rejected ErrItemBlocked, st)
      else if \<not> roll_winner_allows_like_cpp entry player then (Rejected ErrWrongRollWinner, st)
      else
       (let key = KeyItem (LootItemClaimKey scope lid
                    (if freeforall (entry_flags entry) then Some player else None)) in
        if hm_contains_key (reservations st) key then (Wait, st)
        else
         (let (token, st1) = next_token st;
              st2 = st1\<lparr>reservations := hm_insert key token (reservations st1)\<rparr>
          in (Acquired gen token key (PayItem entry), st2)))))))"

definition reserve_money_once ::
  "AuthorityState \<Rightarrow> ObjectGuid \<Rightarrow> u64 option \<Rightarrow> ReserveAttempt \<times> AuthorityState" where
  "reserve_money_once st player expected_generation =
     (if retired st then (Rejected ErrRetired, st) else
      case selected_scope_like_cpp st player of None \<Rightarrow> (Rejected ErrNoLootForPlayer, st)
      | Some scope \<Rightarrow>
     (case scope_epoch st scope of None \<Rightarrow> (Rejected ErrStaleGeneration, st)
      | Some gen \<Rightarrow>
      if (case expected_generation of None \<Rightarrow> False | Some expected \<Rightarrow> expected \<noteq> gen)
      then (Rejected ErrStaleGeneration, st) else
     (case loot_for_scope st scope of None \<Rightarrow> (Rejected ErrNoLootForPlayer, st)
      | Some loot \<Rightarrow>
      if player \<notin> set (pool_allowed_looters loot) then (Rejected ErrPlayerNotAllowed, st)
      else
       (let key = KeyMoney scope in
        if hm_contains_key (reservations st) key then (Wait, st)
        else
         (let payload = PayMoney (coins loot);
              (token, st1) = next_token st;
              st2 = st1\<lparr>reservations := hm_insert key token (reservations st1)\<rparr>
          in (Acquired gen token key payload, st2))))))"

section \<open>Leases\<close>

datatype LeaseStatus = LEASE_ACTIVE | LEASE_COMMITTED | LEASE_ROLLED_BACK | LEASE_QUARANTINED

record LootClaimLease =
  lease_generation :: u64
  lease_token :: u64
  lease_key :: ReservationKey
  lease_player :: ObjectGuid
  lease_payload :: LootClaimPayload
  lease_status :: LeaseStatus

definition LootClaimLease_new ::
  "u64 \<Rightarrow> u64 \<Rightarrow> ReservationKey \<Rightarrow> ObjectGuid \<Rightarrow> LootClaimPayload \<Rightarrow> LootClaimLease" where
  "LootClaimLease_new gen token key player payload =
     \<lparr>lease_generation = gen, lease_token = token, lease_key = key, lease_player = player,
      lease_payload = payload, lease_status = LEASE_ACTIVE\<rparr>"

definition is_committed_like_cpp :: "LootClaimLease \<Rightarrow> bool" where
  "is_committed_like_cpp lease = (lease_status lease = LEASE_COMMITTED)"

record LootClaimCommitOutcome =
  first_commit :: bool
  commit_snapshot :: "OwnedLootSnapshot option"

record OwnedLootAuthorityInner =
  auth_state :: AuthorityState
  auth_changed :: u64

section \<open>Laws of the helpers\<close>

lemma is_empty_iff: "is_empty g \<longleftrightarrow> g = ObjectGuid_EMPTY"
  by (cases g) (auto simp: is_empty_def ObjectGuid_EMPTY_def)

lemma loot_for_scope_mut_same [simp]:
  "loot_for_scope (loot_for_scope_mut sc f st) sc' =
     (if sc' = sc then map_option f (loot_for_scope st sc) else loot_for_scope st sc')"
  by (auto simp: loot_for_scope_def loot_for_scope_mut_def split: OwnedLootScope.splits)

lemma loot_for_scope_mut_fields [simp]:
  "generation (loot_for_scope_mut sc f st) = generation st"
  "retired (loot_for_scope_mut sc f st) = retired st"
  "detached (loot_for_scope_mut sc f st) = detached st"
  "quarantined (loot_for_scope_mut sc f st) = quarantined st"
  "scope_epochs (loot_for_scope_mut sc f st) = scope_epochs st"
  "next_scope_epoch_field (loot_for_scope_mut sc f st) = next_scope_epoch_field st"
  "lifecycle_revision (loot_for_scope_mut sc f st) = lifecycle_revision st"
  "reservations (loot_for_scope_mut sc f st) = reservations st"
  "persisting (loot_for_scope_mut sc f st) = persisting st"
  "next_token_field (loot_for_scope_mut sc f st) = next_token_field st"
  "shared (loot_for_scope_mut sc f st) = None \<longleftrightarrow> shared st = None"
  "personal (loot_for_scope_mut sc f st) = [] \<longleftrightarrow> personal st = []"
  "hm_get (personal (loot_for_scope_mut sc f st)) p = None \<longleftrightarrow> hm_get (personal st) p = None"
  by (auto simp: loot_for_scope_mut_def hm_empty_iff split: OwnedLootScope.splits if_splits)

lemma selected_scope_mut [simp]:
  "selected_scope_like_cpp (loot_for_scope_mut sc f st) p = selected_scope_like_cpp st p"
proof -
  have "map_option (\<lambda>_. Shared) (shared (loot_for_scope_mut sc f st)) = map_option (\<lambda>_. Shared) (shared st)"
    by (cases "shared st") (auto simp: loot_for_scope_mut_def split: OwnedLootScope.splits)
  then show ?thesis by (simp add: selected_scope_like_cpp_def domIff)
qed

lemma loot_for_scope_mut_id:
  "(\<And>loot. loot_for_scope st sc = Some loot \<Longrightarrow> f loot = loot) \<Longrightarrow> loot_for_scope_mut sc f st = st"
  by (cases "shared st")
    (auto simp: loot_for_scope_mut_def loot_for_scope_def hm_modify_id split: OwnedLootScope.splits)

lemma loot_for_scope_mut_mut:
  "loot_for_scope_mut sc f (loot_for_scope_mut sc g st) = loot_for_scope_mut sc (f \<circ> g) st"
  by (auto simp: loot_for_scope_mut_def hm_modify_modify option.map_comp split: OwnedLootScope.splits)

lemma selected_scope_pool:
  "selected_scope_like_cpp st p = Some sc \<Longrightarrow> \<not> retired st \<and> (\<exists>loot. loot_for_scope st sc = Some loot)"
  by (auto simp: selected_scope_like_cpp_def loot_for_scope_def split: if_splits)

end
