(* ===== verification/LootAuthority.thy ===== *)
theory LootAuthority
  imports LootModel
begin

text \<open>
  The operations of \<open>OwnedLootAuthority\<close> (\<open>crates/wow-loot/src/authority/ops_1.rs\<close> and
  \<open>ops_2.rs\<close>), one definition per method.  Each takes the authority (the state behind the
  mutex and the version of the \<open>watch\<close> channel) and returns its result with the new
  authority; a method that holds the mutex for one critical section is one function
  application.  An \<open>async\<close> reservation is one iteration of its loop: \<open>None\<close> says that the
  task goes to sleep on the channel.  A callback run under the lock is a function argument.
\<close>

section \<open>Lifecycle\<close>

definition notify_changed :: "OwnedLootAuthorityInner \<Rightarrow> OwnedLootAuthorityInner" where
  "notify_changed a = a\<lparr>auth_changed := auth_changed a + 1\<rparr>"

definition authority_new :: OwnedLootAuthorityInner where
  "authority_new = \<lparr>auth_state = AuthorityState_default, auth_changed = 0\<rparr>"

definition lifecycle_like_cpp :: "AuthorityState \<Rightarrow> OwnedLootAuthorityLifecycle" where
  "lifecycle_like_cpp st =
     (if detached st then Detached
      else if quarantined st then Quarantined
      else if \<not> retired st then Active
      else if generation st = 0 then Pristine
      else Retired)"

definition is_pristine_like_cpp :: "OwnedLootAuthorityInner \<Rightarrow> bool" where
  "is_pristine_like_cpp a = (lifecycle_like_cpp (auth_state a) = Pristine)"

definition stamp_like_cpp :: "OwnedLootAuthorityInner \<Rightarrow> OwnedLootAuthorityStamp" where
  "stamp_like_cpp a =
     \<lparr>stamp_lifecycle = lifecycle_like_cpp (auth_state a),
      stamp_object_generation = generation (auth_state a)\<rparr>"

definition new_retired_tombstone_like_cpp :: OwnedLootAuthorityInner where
  "new_retired_tombstone_like_cpp =
     authority_new\<lparr>auth_state := (auth_state authority_new)\<lparr>generation := 1, quarantined := True\<rparr>\<rparr>"

text \<open>The body both detaching methods share.\<close>

definition detach_state :: "AuthorityState \<Rightarrow> AuthorityState" where
  "detach_state st =
     finalize_closed_state_if_drained (retain_only_persisting_reservations
       (st\<lparr>generation := bump_nonzero (generation st), retired := True, detached := True,
           quarantined := False\<rparr>))"

definition detach_like_cpp :: "OwnedLootAuthorityInner \<Rightarrow> u64 \<times> OwnedLootAuthorityInner" where
  "detach_like_cpp a =
     (let st = auth_state a in
      if detached st then (generation st, a)
      else (generation (detach_state st), notify_changed (a\<lparr>auth_state := detach_state st\<rparr>)))"

definition detach_if_stamp_like_cpp ::
  "OwnedLootAuthorityInner \<Rightarrow> OwnedLootAuthorityStamp \<Rightarrow> bool \<times> OwnedLootAuthorityInner" where
  "detach_if_stamp_like_cpp a expected =
     (let st = auth_state a in
      if lifecycle_like_cpp st \<noteq> stamp_lifecycle expected \<or>
         generation st \<noteq> stamp_object_generation expected then (False, a)
      else if detached st then (True, a)
      else (True, notify_changed (a\<lparr>auth_state := detach_state st\<rparr>)))"

definition is_fully_looted_like_cpp :: "OwnedLootAuthorityInner \<Rightarrow> bool" where
  "is_fully_looted_like_cpp a =
     (retired (auth_state a) \<or> active_loot_pools_fully_looted_like_cpp (auth_state a))"

text \<open>One test of the wait loop: whether the waiter may return.\<close>

definition wait_for_persisting_claims_like_cpp :: "OwnedLootAuthorityInner \<Rightarrow> bool" where
  "wait_for_persisting_claims_like_cpp a = (persisting (auth_state a) = [])"

definition with_fully_looted_lifecycle_observation_like_cpp ::
  "OwnedLootAuthorityInner \<Rightarrow> u64 \<Rightarrow> u64 \<Rightarrow> (unit \<Rightarrow> 'r) \<Rightarrow> 'r option" where
  "with_fully_looted_lifecycle_observation_like_cpp a expected_gen expected_rev apply_before_unlock =
     (let st = auth_state a in
      if retired st \<or> generation st \<noteq> expected_gen \<or> lifecycle_revision st \<noteq> expected_rev \<or>
         \<not> active_loot_pools_fully_looted_like_cpp st then None
      else Some (apply_before_unlock ()))"

definition with_unviewed_fully_looted_lifecycle_observation_like_cpp ::
  "OwnedLootAuthorityInner \<Rightarrow> u64 \<Rightarrow> u64 \<Rightarrow> (unit \<Rightarrow> 'r) \<Rightarrow> 'r option" where
  "with_unviewed_fully_looted_lifecycle_observation_like_cpp a expected_gen expected_rev apply_before_unlock =
     (let st = auth_state a in
      if retired st \<or> generation st \<noteq> expected_gen \<or> lifecycle_revision st \<noteq> expected_rev \<or>
         \<not> active_loot_pools_fully_looted_like_cpp st \<or>
         \<not> active_loot_pools_have_no_viewers_like_cpp st then None
      else Some (apply_before_unlock ()))"

definition fully_looted_unviewed_lifecycle_observation_like_cpp ::
  "OwnedLootAuthorityInner \<Rightarrow> LootFullyLootedLifecycleObservation option" where
  "fully_looted_unviewed_lifecycle_observation_like_cpp a =
     (let st = auth_state a in
      if retired st \<or> \<not> active_loot_pools_fully_looted_like_cpp st \<or>
         \<not> active_loot_pools_have_no_viewers_like_cpp st then None
      else Some \<lparr>obs_object_generation = generation st,
                 obs_lifecycle_revision = lifecycle_revision st,
                 obs_whole_object_fully_skinned = active_loot_pools_fully_skinned_like_cpp st\<rparr>)"

section \<open>Installing loot\<close>

text \<open>
  The common tail of the three whole-object installs: pools replaced, claims cleared, one
  fresh epoch for every scope, the lifecycle revision advanced.
\<close>

definition install_pools ::
  "u64 \<Rightarrow> CreatureLoot option \<Rightarrow> (ObjectGuid, CreatureLoot) hash_map \<Rightarrow> AuthorityState
     \<Rightarrow> u64 \<times> AuthorityState" where
  "install_pools gen shared_loot personal_loot st =
     (let st1 = st\<lparr>generation := gen, retired := False, shared := shared_loot,
                   personal := personal_loot, reservations := [], persisting := []\<rparr>;
          (epoch, st2) = next_scope_epoch st1
      in (epoch, bump_lifecycle_revision (install_all_scope_epochs epoch st2)))"

definition initialize_pristine_like_cpp ::
  "OwnedLootAuthorityInner \<Rightarrow> CreatureLoot option \<Rightarrow> (ObjectGuid, CreatureLoot) hash_map
     \<Rightarrow> LootInstallOutcome \<times> OwnedLootAuthorityInner" where
  "initialize_pristine_like_cpp a shared_loot personal_loot =
     (let st = auth_state a in
      if detached st \<or> quarantined st \<or> persisting st \<noteq> [] \<or> \<not> retired st \<or> generation st \<noteq> 0
      then (AlreadyInitialized (case any_scope_epoch st of None \<Rightarrow> 0 | Some e \<Rightarrow> e), a)
      else (let (epoch, st') = install_pools 1 shared_loot personal_loot st
            in (Installed epoch, notify_changed (a\<lparr>auth_state := st'\<rparr>))))"

definition initialize_like_cpp ::
  "OwnedLootAuthorityInner \<Rightarrow> CreatureLoot option \<Rightarrow> (ObjectGuid, CreatureLoot) hash_map
     \<Rightarrow> LootInstallOutcome \<times> OwnedLootAuthorityInner" where
  "initialize_like_cpp a shared_loot personal_loot =
     initialize_pristine_like_cpp a shared_loot personal_loot"

definition replace_retired_generation_like_cpp ::
  "OwnedLootAuthorityInner \<Rightarrow> u64 \<Rightarrow> CreatureLoot option \<Rightarrow> (ObjectGuid, CreatureLoot) hash_map
     \<Rightarrow> u64 option \<times> OwnedLootAuthorityInner" where
  "replace_retired_generation_like_cpp a expected_gen shared_loot personal_loot =
     (let st = auth_state a in
      if detached st \<or> quarantined st \<or> persisting st \<noteq> [] \<or> \<not> retired st \<or>
         generation st \<noteq> expected_gen then (None, a)
      else (let (epoch, st') = install_pools (bump_nonzero (generation st)) shared_loot personal_loot st
            in (Some epoch, notify_changed (a\<lparr>auth_state := st'\<rparr>))))"

definition replace_like_cpp ::
  "OwnedLootAuthorityInner \<Rightarrow> CreatureLoot option \<Rightarrow> (ObjectGuid, CreatureLoot) hash_map
     \<Rightarrow> u64 \<times> OwnedLootAuthorityInner" where
  "replace_like_cpp a shared_loot personal_loot =
     (let st = auth_state a in
      if detached st \<or> quarantined st \<or> persisting st \<noteq> [] then (0, a)
      else (let (epoch, st') = install_pools (bump_nonzero (generation st)) shared_loot personal_loot st
            in (epoch, notify_changed (a\<lparr>auth_state := st'\<rparr>))))"

definition initialize_shared_like_cpp ::
  "OwnedLootAuthorityInner \<Rightarrow> CreatureLoot \<Rightarrow> LootInstallOutcome \<times> OwnedLootAuthorityInner" where
  "initialize_shared_like_cpp a loot =
     (let st = auth_state a in
      if detached st \<or> quarantined st \<or> persisting st \<noteq> [] \<or> (retired st \<and> generation st \<noteq> 0)
      then (AlreadyInitialized 0, a)
      else if \<not> retired st \<and> shared st \<noteq> None
      then (AlreadyInitialized (case scope_epoch st Shared of None \<Rightarrow> 0 | Some e \<Rightarrow> e), a)
      else
        (let st1 = (if retired st
                    then st\<lparr>generation := bump_nonzero (generation st), retired := False,
                            personal := [], scope_epochs := [], reservations := [],
                            persisting := []\<rparr>
                    else st);
             (epoch, st2) = next_scope_epoch st1;
             st3 = st2\<lparr>shared := Some loot, scope_epochs := hm_insert Shared epoch (scope_epochs st2)\<rparr>
         in (Installed epoch, notify_changed (a\<lparr>auth_state := bump_lifecycle_revision st3\<rparr>))))"

definition upsert_personal_like_cpp ::
  "OwnedLootAuthorityInner \<Rightarrow> ObjectGuid \<Rightarrow> CreatureLoot \<Rightarrow> bool
     \<Rightarrow> LootInstallOutcome \<times> OwnedLootAuthorityInner" where
  "upsert_personal_like_cpp a player loot replace =
     (let st = auth_state a in
      if detached st \<or> quarantined st \<or> (retired st \<and> generation st \<noteq> 0)
      then (AlreadyInitialized 0, a)
      else if scope_has_persisting_claim st (Personal player) \<or>
              (personal st = [] \<and> shared st \<noteq> None \<and> persisting st \<noteq> [])
      then (AlreadyInitialized
              (case scope_epoch st (Personal player) of Some e \<Rightarrow> e
               | None \<Rightarrow> (case scope_epoch st Shared of Some e \<Rightarrow> e | None \<Rightarrow> 0)), a)
      else if \<not> retired st \<and> hm_contains_key (personal st) player \<and> \<not> replace
      then (AlreadyInitialized (case scope_epoch st (Personal player) of Some e \<Rightarrow> e | None \<Rightarrow> 0), a)
      else
        (let st1 =
               (if retired st
                then st\<lparr>generation := bump_nonzero (generation st), retired := False, shared := None,
                        scope_epochs := [], reservations := [], persisting := []\<rparr>
                else if personal st = [] \<and> shared st \<noteq> None
                then st\<lparr>generation := bump_nonzero (generation st),
                        scope_epochs := hm_remove Shared (scope_epochs st), reservations := []\<rparr>
                else if hm_contains_key (personal st) player
                then st\<lparr>reservations :=
                        hm_retain (\<lambda>key _. reservation_scope key \<noteq> Personal player) (reservations st)\<rparr>
                else st);
             (epoch, st2) = next_scope_epoch st1;
             st3 = st2\<lparr>personal := hm_insert player loot (personal st2),
                       scope_epochs := hm_insert (Personal player) epoch (scope_epochs st2)\<rparr>
         in (Installed epoch, notify_changed (a\<lparr>auth_state := bump_lifecycle_revision st3\<rparr>))))"

definition retire_like_cpp :: "OwnedLootAuthorityInner \<Rightarrow> u64 \<times> OwnedLootAuthorityInner" where
  "retire_like_cpp a =
     (let st = auth_state a in
      if retired st \<and> generation st \<noteq> 0 then (generation st, a)
      else
        (let st1 = finalize_closed_state_if_drained (retain_only_persisting_reservations
                     (st\<lparr>generation := bump_nonzero (generation st), retired := True\<rparr>))
         in (generation st1, notify_changed (a\<lparr>auth_state := st1\<rparr>))))"

section \<open>Observing loot\<close>

definition generation_like_cpp :: "OwnedLootAuthorityInner \<Rightarrow> u64" where
  "generation_like_cpp a = generation (auth_state a)"

definition scope_generation_like_cpp :: "OwnedLootAuthorityInner \<Rightarrow> OwnedLootScope \<Rightarrow> u64 option" where
  "scope_generation_like_cpp a scope =
     (if \<not> retired (auth_state a) then scope_epoch (auth_state a) scope else None)"

definition is_retired_like_cpp :: "OwnedLootAuthorityInner \<Rightarrow> bool" where
  "is_retired_like_cpp a = retired (auth_state a)"

definition snapshot_for_player_like_cpp ::
  "OwnedLootAuthorityInner \<Rightarrow> ObjectGuid \<Rightarrow> OwnedLootSnapshot option" where
  "snapshot_for_player_like_cpp a player =
     (case selected_scope_like_cpp (auth_state a) player of None \<Rightarrow> None
      | Some scope \<Rightarrow> snapshot_for_scope (auth_state a) scope)"

definition shared_snapshot_like_cpp :: "OwnedLootAuthorityInner \<Rightarrow> OwnedLootSnapshot option" where
  "shared_snapshot_like_cpp a = snapshot_for_scope (auth_state a) Shared"

definition personal_snapshot_like_cpp ::
  "OwnedLootAuthorityInner \<Rightarrow> ObjectGuid \<Rightarrow> OwnedLootSnapshot option" where
  "personal_snapshot_like_cpp a player = snapshot_for_scope (auth_state a) (Personal player)"

definition personal_snapshots_like_cpp ::
  "OwnedLootAuthorityInner \<Rightarrow> (ObjectGuid, OwnedLootSnapshot) hash_map" where
  "personal_snapshots_like_cpp a =
     (let st = auth_state a in
      if retired st then []
      else List.map_filter (\<lambda>(player, loot).
             map_option (\<lambda>gen. (player, \<lparr>snap_generation = gen, snap_scope = Personal player,
                                        snap_loot = loot\<rparr>))
               (scope_epoch st (Personal player))) (personal st))"

section \<open>Viewers\<close>

definition try_open_view_with_snapshot_like_cpp ::
  "OwnedLootAuthorityInner \<Rightarrow> ObjectGuid \<Rightarrow> (OwnedLootSnapshot \<Rightarrow> LootViewerOpenOutcome \<Rightarrow> 'r option)
     \<Rightarrow> (LootClaimError + LootViewerOpenOutcome \<times> 'r) \<times> OwnedLootAuthorityInner" where
  "try_open_view_with_snapshot_like_cpp a player try_observe_before_unlock =
     (let st = auth_state a in
      if retired st then (Inl ErrRetired, a) else
      case selected_scope_like_cpp st player of None \<Rightarrow> (Inl ErrNoLootForPlayer, a)
      | Some scope \<Rightarrow>
     (case scope_epoch st scope of None \<Rightarrow> (Inl ErrStaleGeneration, a)
      | Some gen \<Rightarrow>
     (case loot_for_scope st scope of None \<Rightarrow> (Inl ErrNoLootForPlayer, a)
      | Some loot \<Rightarrow>
       (let first_viewer = (\<not> looted_by_player loot);
            loot1 = (if first_viewer then loot\<lparr>looted_by_player := True\<rparr> else loot);
            inserted = (player \<notin> set (players_looting loot1));
            loot2 = (if inserted then loot1\<lparr>players_looting := players_looting loot1 @ [player]\<rparr>
                     else loot1);
            st1 = loot_for_scope_mut scope (\<lambda>_. loot2) st;
            outcome = \<lparr>open_generation = gen, open_scope = scope, open_inserted = inserted,
                       open_first_viewer = first_viewer\<rparr>;
            snapshot = \<lparr>snap_generation = gen, snap_scope = scope, snap_loot = loot2\<rparr>
        in case try_observe_before_unlock snapshot outcome of
             None \<Rightarrow>
               (let st2 = loot_for_scope_mut scope (\<lambda>l.
                      (let l1 = (if inserted
                                 then l\<lparr>players_looting :=
                                        filter (\<lambda>viewer. viewer \<noteq> player) (players_looting l)\<rparr>
                                 else l)
                       in if first_viewer then l1\<lparr>looted_by_player := False\<rparr> else l1)) st1
                in (Inl ErrResponseEnqueueFailed, a\<lparr>auth_state := st2\<rparr>))
           | Some observed \<Rightarrow>
               (let a1 = a\<lparr>auth_state := st1\<rparr>
                in (Inr (outcome, observed),
                    if inserted \<or> first_viewer then notify_changed a1 else a1))))))"

definition open_view_with_snapshot_like_cpp ::
  "OwnedLootAuthorityInner \<Rightarrow> ObjectGuid \<Rightarrow> (OwnedLootSnapshot \<Rightarrow> LootViewerOpenOutcome \<Rightarrow> 'r)
     \<Rightarrow> (LootClaimError + LootViewerOpenOutcome \<times> 'r) \<times> OwnedLootAuthorityInner" where
  "open_view_with_snapshot_like_cpp a player observe_before_unlock =
     try_open_view_with_snapshot_like_cpp a player (\<lambda>snapshot outcome.
       Some (observe_before_unlock snapshot outcome))"

definition add_viewer_like_cpp ::
  "OwnedLootAuthorityInner \<Rightarrow> ObjectGuid
     \<Rightarrow> (LootClaimError + LootViewerOpenOutcome) \<times> OwnedLootAuthorityInner" where
  "add_viewer_like_cpp a player =
     (let (r, a') = open_view_with_snapshot_like_cpp a player (\<lambda>_ _. ())
      in (map_sum id fst r, a'))"

definition remove_viewer :: "ObjectGuid \<Rightarrow> CreatureLoot \<Rightarrow> CreatureLoot" where
  "remove_viewer player loot =
     loot\<lparr>players_looting := filter (\<lambda>viewer. viewer \<noteq> player) (players_looting loot)\<rparr>"

definition remove_viewer_like_cpp ::
  "OwnedLootAuthorityInner \<Rightarrow> ObjectGuid \<Rightarrow> bool \<times> OwnedLootAuthorityInner" where
  "remove_viewer_like_cpp a player =
     (let st = auth_state a in
      case selected_scope_like_cpp st player of None \<Rightarrow> (False, a)
      | Some scope \<Rightarrow>
     (case loot_for_scope st scope of None \<Rightarrow> (False, a)
      | Some loot \<Rightarrow>
       (let removed = (length (players_looting loot) \<noteq> length (players_looting (remove_viewer player loot)));
            a1 = a\<lparr>auth_state := loot_for_scope_mut scope (remove_viewer player) st\<rparr>
        in (removed, if removed then notify_changed a1 else a1))))"

definition remove_viewer_if_generation_like_cpp ::
  "OwnedLootAuthorityInner \<Rightarrow> u64 \<Rightarrow> ObjectGuid \<Rightarrow> bool option \<times> OwnedLootAuthorityInner" where
  "remove_viewer_if_generation_like_cpp a expected_gen player =
     (let st = auth_state a in
      if retired st then (None, a) else
      case selected_scope_like_cpp st player of None \<Rightarrow> (None, a)
      | Some scope \<Rightarrow>
      if scope_epoch st scope \<noteq> Some expected_gen then (None, a) else
     (case loot_for_scope st scope of None \<Rightarrow> (None, a)
      | Some loot \<Rightarrow>
       (let removed = (length (players_looting loot) \<noteq> length (players_looting (remove_viewer player loot)));
            a1 = a\<lparr>auth_state := loot_for_scope_mut scope (remove_viewer player) st\<rparr>
        in (Some removed, if removed then notify_changed a1 else a1))))"

definition close_viewer_if_generation_like_cpp ::
  "OwnedLootAuthorityInner \<Rightarrow> u64 \<Rightarrow> ObjectGuid
     \<Rightarrow> LootViewerCloseOutcome option \<times> OwnedLootAuthorityInner" where
  "close_viewer_if_generation_like_cpp a expected_gen player =
     (let st = auth_state a in
      if retired st then (None, a) else
      case selected_scope_like_cpp st player of None \<Rightarrow> (None, a)
      | Some scope \<Rightarrow>
      if scope_epoch st scope \<noteq> Some expected_gen then (None, a) else
     (case loot_for_scope st scope of None \<Rightarrow> (None, a)
      | Some loot \<Rightarrow>
       (let loot1 = remove_viewer player loot;
            removed = (length (players_looting loot) \<noteq> length (players_looting loot1));
            st1 = loot_for_scope_mut scope (remove_viewer player) st;
            outcome = \<lparr>close_snapshot = \<lparr>snap_generation = expected_gen, snap_scope = scope,
                                        snap_loot = loot1\<rparr>,
                       close_removed = removed,
                       close_whole_object_fully_looted = active_loot_pools_fully_looted_like_cpp st1,
                       close_object_generation = generation st1,
                       close_lifecycle_revision = lifecycle_revision st1,
                       close_whole_object_fully_skinned = active_loot_pools_fully_skinned_like_cpp st1\<rparr>;
            a1 = a\<lparr>auth_state := st1\<rparr>
        in (Some outcome, if removed then notify_changed a1 else a1))))"

definition clear_round_robin_if_generation_like_cpp ::
  "OwnedLootAuthorityInner \<Rightarrow> u64 \<Rightarrow> ObjectGuid
     \<Rightarrow> LootRoundRobinReleaseOutcome option \<times> OwnedLootAuthorityInner" where
  "clear_round_robin_if_generation_like_cpp a expected_gen player =
     (let st = auth_state a in
      if retired st then (None, a) else
      case selected_scope_like_cpp st player of None \<Rightarrow> (None, a)
      | Some scope \<Rightarrow>
      if scope_epoch st scope \<noteq> Some expected_gen then (None, a) else
     (case loot_for_scope st scope of None \<Rightarrow> (None, a)
      | Some loot \<Rightarrow>
       (let cleared = (round_robin_player loot = player);
            loot1 = (if cleared then loot\<lparr>round_robin_player := ObjectGuid_EMPTY\<rparr> else loot);
            a1 = a\<lparr>auth_state := loot_for_scope_mut scope (\<lambda>_. loot1) st\<rparr>
        in (Some \<lparr>rr_snapshot = \<lparr>snap_generation = expected_gen, snap_scope = scope, snap_loot = loot1\<rparr>,
                  rr_cleared = cleared\<rparr>,
            if cleared then notify_changed a1 else a1))))"

definition viewers_for_player_like_cpp :: "OwnedLootAuthorityInner \<Rightarrow> ObjectGuid \<Rightarrow> ObjectGuid list" where
  "viewers_for_player_like_cpp a player =
     (case snapshot_for_player_like_cpp a player of None \<Rightarrow> []
      | Some snapshot \<Rightarrow> players_looting (snap_loot snapshot))"

section \<open>Rolls\<close>

text \<open>Assignment of the three roll fields of the first entry with the given list id.\<close>

definition set_roll_fields :: "u8 \<Rightarrow> bool \<Rightarrow> bool \<Rightarrow> ObjectGuid \<Rightarrow> CreatureLoot \<Rightarrow> CreatureLoot" where
  "set_roll_fields lid is_blocked is_under winner loot =
     loot\<lparr>loot_items := update_first (\<lambda>e. loot_list_id e = lid)
       (\<lambda>e. e\<lparr>entry_flags := (entry_flags e)\<lparr>blocked := is_blocked, under_threshold := is_under\<rparr>,
              roll_winner := winner\<rparr>) (loot_items loot)\<rparr>"

definition finish_item_roll_like_cpp ::
  "OwnedLootAuthorityInner \<Rightarrow> ObjectGuid \<Rightarrow> u64 \<Rightarrow> u8 \<Rightarrow> bool \<Rightarrow> ObjectGuid option
     \<Rightarrow> (LootClaimError + bool) \<times> OwnedLootAuthorityInner" where
  "finish_item_roll_like_cpp a player expected_gen lid is_under winner_opt =
     (let st = auth_state a in
      if retired st then (Inl ErrRetired, a) else
      case selected_scope_like_cpp st player of None \<Rightarrow> (Inl ErrNoLootForPlayer, a)
      | Some scope \<Rightarrow>
      if scope_epoch st scope \<noteq> Some expected_gen then (Inl ErrStaleGeneration, a) else
     (case loot_for_scope st scope of None \<Rightarrow> (Inl ErrNoLootForPlayer, a)
      | Some loot \<Rightarrow>
     (case item_like_cpp loot lid of None \<Rightarrow> (Inl ErrItemNotFound, a)
      | Some entry \<Rightarrow>
       (let winner = (case winner_opt of None \<Rightarrow> ObjectGuid_EMPTY | Some w \<Rightarrow> w);
            changed = (blocked (entry_flags entry) \<or> under_threshold (entry_flags entry) \<noteq> is_under \<or>
                       roll_winner entry \<noteq> winner);
            a1 = a\<lparr>auth_state := loot_for_scope_mut scope (set_roll_fields lid False is_under winner) st\<rparr>
        in (Inr changed, if changed then notify_changed a1 else a1)))))"

definition finish_item_roll_and_reserve_award_like_cpp ::
  "OwnedLootAuthorityInner \<Rightarrow> ObjectGuid \<Rightarrow> u64 \<Rightarrow> u8 \<Rightarrow> ObjectGuid
     \<Rightarrow> (LootClaimError + LootClaimLease) \<times> OwnedLootAuthorityInner" where
  "finish_item_roll_and_reserve_award_like_cpp a scope_player expected_gen lid winner =
     (let st = auth_state a in
      if retired st then (Inl ErrRetired, a) else
      case selected_scope_like_cpp st scope_player of None \<Rightarrow> (Inl ErrNoLootForPlayer, a)
      | Some scope \<Rightarrow>
      if selected_scope_like_cpp st winner \<noteq> Some scope then (Inl ErrNoLootForPlayer, a)
      else if scope_epoch st scope \<noteq> Some expected_gen then (Inl ErrStaleGeneration, a) else
     (case loot_for_scope st scope of None \<Rightarrow> (Inl ErrNoLootForPlayer, a)
      | Some loot \<Rightarrow>
     (case item_like_cpp loot lid of None \<Rightarrow> (Inl ErrItemNotFound, a)
      | Some entry \<Rightarrow>
       (let st1 = loot_for_scope_mut scope (set_roll_fields lid False False winner) st
        in case reserve_item_once st1 winner lid Award (Some expected_gen) of
             (Acquired gen token key payload, st2) \<Rightarrow>
               (Inr (LootClaimLease_new gen token key winner payload),
                notify_changed (a\<lparr>auth_state := st2\<rparr>))
           | (_, st2) \<Rightarrow>
               (Inl ErrItemAlreadyLooted,
                a\<lparr>auth_state := loot_for_scope_mut scope
                    (set_roll_fields lid (blocked (entry_flags entry))
                       (under_threshold (entry_flags entry)) (roll_winner entry)) st2\<rparr>)))))"

section \<open>Reservations\<close>

definition reserve_item_with_mode_like_cpp ::
  "OwnedLootAuthorityInner \<Rightarrow> ObjectGuid \<Rightarrow> u8 \<Rightarrow> LootItemClaimMode \<Rightarrow> u64 option
     \<Rightarrow> (LootClaimError + LootClaimLease) option \<times> OwnedLootAuthorityInner" where
  "reserve_item_with_mode_like_cpp a player lid mode expected_gen =
     (case reserve_item_once (auth_state a) player lid mode expected_gen of
        (Acquired gen token key payload, st) \<Rightarrow>
          (Some (Inr (LootClaimLease_new gen token key player payload)), a\<lparr>auth_state := st\<rparr>)
      | (Wait, st) \<Rightarrow> (None, a\<lparr>auth_state := st\<rparr>)
      | (Rejected error, st) \<Rightarrow> (Some (Inl error), a\<lparr>auth_state := st\<rparr>))"

definition reserve_item_like_cpp ::
  "OwnedLootAuthorityInner \<Rightarrow> ObjectGuid \<Rightarrow> u8
     \<Rightarrow> (LootClaimError + LootClaimLease) option \<times> OwnedLootAuthorityInner" where
  "reserve_item_like_cpp a player lid = reserve_item_with_mode_like_cpp a player lid Direct None"

definition reserve_item_for_generation_like_cpp ::
  "OwnedLootAuthorityInner \<Rightarrow> ObjectGuid \<Rightarrow> u8 \<Rightarrow> u64
     \<Rightarrow> (LootClaimError + LootClaimLease) option \<times> OwnedLootAuthorityInner" where
  "reserve_item_for_generation_like_cpp a player lid expected_gen =
     reserve_item_with_mode_like_cpp a player lid Direct (Some expected_gen)"

definition reserve_item_for_award_like_cpp ::
  "OwnedLootAuthorityInner \<Rightarrow> ObjectGuid \<Rightarrow> u8
     \<Rightarrow> (LootClaimError + LootClaimLease) option \<times> OwnedLootAuthorityInner" where
  "reserve_item_for_award_like_cpp a player lid = reserve_item_with_mode_like_cpp a player lid Award None"

definition reserve_item_for_award_generation_like_cpp ::
  "OwnedLootAuthorityInner \<Rightarrow> ObjectGuid \<Rightarrow> u8 \<Rightarrow> u64
     \<Rightarrow> (LootClaimError + LootClaimLease) option \<times> OwnedLootAuthorityInner" where
  "reserve_item_for_award_generation_like_cpp a player lid expected_gen =
     reserve_item_with_mode_like_cpp a player lid Award (Some expected_gen)"

definition reserve_money_for_optional_generation_like_cpp ::
  "OwnedLootAuthorityInner \<Rightarrow> ObjectGuid \<Rightarrow> u64 option
     \<Rightarrow> (LootClaimError + LootClaimLease) option \<times> OwnedLootAuthorityInner" where
  "reserve_money_for_optional_generation_like_cpp a player expected_gen =
     (case reserve_money_once (auth_state a) player expected_gen of
        (Acquired gen token key payload, st) \<Rightarrow>
          (Some (Inr (LootClaimLease_new gen token key player payload)), a\<lparr>auth_state := st\<rparr>)
      | (Wait, st) \<Rightarrow> (None, a\<lparr>auth_state := st\<rparr>)
      | (Rejected error, st) \<Rightarrow> (Some (Inl error), a\<lparr>auth_state := st\<rparr>))"

definition reserve_money_like_cpp ::
  "OwnedLootAuthorityInner \<Rightarrow> ObjectGuid
     \<Rightarrow> (LootClaimError + LootClaimLease) option \<times> OwnedLootAuthorityInner" where
  "reserve_money_like_cpp a player = reserve_money_for_optional_generation_like_cpp a player None"

definition reserve_money_for_generation_like_cpp ::
  "OwnedLootAuthorityInner \<Rightarrow> ObjectGuid \<Rightarrow> u64
     \<Rightarrow> (LootClaimError + LootClaimLease) option \<times> OwnedLootAuthorityInner" where
  "reserve_money_for_generation_like_cpp a player expected_gen =
     reserve_money_for_optional_generation_like_cpp a player (Some expected_gen)"

section \<open>Resolving a claim\<close>

definition begin_claim_persistence ::
  "OwnedLootAuthorityInner \<Rightarrow> LootClaimLease
     \<Rightarrow> (LootClaimCommitError + unit) \<times> OwnedLootAuthorityInner \<times> LootClaimLease" where
  "begin_claim_persistence a lease =
     (let st = auth_state a in
      case lease_status lease of
        LEASE_COMMITTED \<Rightarrow> (Inl CommitStateChanged, a, lease)
      | LEASE_ROLLED_BACK \<Rightarrow> (Inl CommitRolledBack, a, lease)
      | LEASE_QUARANTINED \<Rightarrow> (Inl CommitStateChanged, a, lease)
      | LEASE_ACTIVE \<Rightarrow>
          if hm_get (persisting st) (lease_key lease) = Some (lease_token lease)
          then (Inl CommitStateChanged, a, lease)
          else if retired st \<or>
                  scope_epoch st (reservation_scope (lease_key lease)) \<noteq> Some (lease_generation lease)
          then (Inl CommitStaleGeneration, a, lease\<lparr>lease_status := LEASE_ROLLED_BACK\<rparr>)
          else if hm_get (reservations st) (lease_key lease) \<noteq> Some (lease_token lease)
          then (Inl CommitStateChanged, a, lease\<lparr>lease_status := LEASE_ROLLED_BACK\<rparr>)
          else (Inr (),
                a\<lparr>auth_state := st\<lparr>persisting :=
                     hm_insert (lease_key lease) (lease_token lease) (persisting st)\<rparr>\<rparr>,
                lease))"

definition abort_claim_persistence ::
  "OwnedLootAuthorityInner \<Rightarrow> LootClaimLease \<Rightarrow> bool \<times> OwnedLootAuthorityInner \<times> LootClaimLease" where
  "abort_claim_persistence a lease =
     (let st = auth_state a in
      if lease_status lease \<noteq> LEASE_ACTIVE \<or>
         hm_get (persisting st) (lease_key lease) \<noteq> Some (lease_token lease)
      then (False, a, lease)
      else
        (let st1 = st\<lparr>persisting := hm_remove (lease_key lease) (persisting st),
                      reservations := hm_remove (lease_key lease) (reservations st)\<rparr>
         in (True,
             notify_changed (a\<lparr>auth_state := finalize_closed_state_if_drained st1\<rparr>),
             lease\<lparr>lease_status := LEASE_ROLLED_BACK\<rparr>)))"

definition quarantine_claim_persistence_commit_unknown ::
  "OwnedLootAuthorityInner \<Rightarrow> LootClaimLease \<Rightarrow> bool \<times> OwnedLootAuthorityInner \<times> LootClaimLease" where
  "quarantine_claim_persistence_commit_unknown a lease =
     (let st = auth_state a in
      if lease_status lease \<noteq> LEASE_ACTIVE \<or>
         hm_get (persisting st) (lease_key lease) \<noteq> Some (lease_token lease)
      then (False, a, lease)
      else
        (let st1 = st\<lparr>persisting := hm_remove (lease_key lease) (persisting st),
                      reservations := hm_remove (lease_key lease) (reservations st),
                      retired := True, quarantined := True\<rparr>
         in (True,
             notify_changed (a\<lparr>auth_state := finalize_closed_state_if_drained st1\<rparr>),
             lease\<lparr>lease_status := LEASE_QUARANTINED\<rparr>)))"

text \<open>The mutation of the pool: whether it was applied, and the new state.\<close>

definition apply_claim :: "AuthorityState \<Rightarrow> LootClaimLease \<Rightarrow> bool \<times> AuthorityState" where
  "apply_claim st lease =
     (case lease_key lease of
        KeyItem key \<Rightarrow>
          (case loot_for_scope st (key_scope key) of None \<Rightarrow> (False, st)
           | Some loot \<Rightarrow>
               (let (ok, loot1) = mark_item_looted_for_player_like_cpp (key_loot_list_id key)
                                    (lease_player lease) loot
                in (ok, loot_for_scope_mut (key_scope key) (\<lambda>_. loot1) st)))
      | KeyMoney scope \<Rightarrow>
          (case loot_for_scope st scope of None \<Rightarrow> (False, st)
           | Some loot \<Rightarrow> (True, loot_for_scope_mut scope (coins_update (\<lambda>_. 0)) st)))"

definition commit_claim_with_snapshot ::
  "OwnedLootAuthorityInner \<Rightarrow> LootClaimLease \<Rightarrow> bool
     \<Rightarrow> (LootClaimCommitError + LootClaimCommitOutcome) \<times> OwnedLootAuthorityInner \<times> LootClaimLease"
  where
  "commit_claim_with_snapshot a lease persistence_owner =
     (case lease_status lease of
        LEASE_COMMITTED \<Rightarrow> (Inr \<lparr>first_commit = False, commit_snapshot = None\<rparr>, a, lease)
      | LEASE_QUARANTINED \<Rightarrow> (Inl CommitStateChanged, a, lease)
      | LEASE_ROLLED_BACK \<Rightarrow> (Inl CommitRolledBack, a, lease)
      | LEASE_ACTIVE \<Rightarrow>
         (let st = auth_state a;
              scope = reservation_scope (lease_key lease);
              persistence_protected =
                (hm_get (persisting st) (lease_key lease) = Some (lease_token lease));
              drop_persisting = (\<lambda>s. if persistence_protected
                then finalize_closed_state_if_drained
                       (s\<lparr>persisting := hm_remove (lease_key lease) (persisting s)\<rparr>)
                else s)
          in
          if persistence_protected \<and> \<not> persistence_owner then (Inl CommitStateChanged, a, lease)
          else if (retired st \<and> \<not> persistence_protected) \<or> scope_epoch st scope \<noteq> Some (lease_generation lease)
          then (Inl CommitStaleGeneration, notify_changed (a\<lparr>auth_state := drop_persisting st\<rparr>),
                lease\<lparr>lease_status := LEASE_ROLLED_BACK\<rparr>)
          else if hm_get (reservations st) (lease_key lease) \<noteq> Some (lease_token lease)
          then (Inl CommitStateChanged, notify_changed (a\<lparr>auth_state := drop_persisting st\<rparr>),
                lease\<lparr>lease_status := LEASE_ROLLED_BACK\<rparr>)
          else
            (let (committed, st1) = apply_claim st lease;
                 committed_snapshot =
                   (if committed
                    then (case scope_epoch st1 scope of None \<Rightarrow> None
                          | Some gen \<Rightarrow> map_option
                              (\<lambda>loot. \<lparr>snap_generation = gen, snap_scope = scope, snap_loot = loot\<rparr>)
                              (loot_for_scope st1 scope))
                    else None);
                 st2 = st1\<lparr>reservations := hm_remove (lease_key lease) (reservations st1),
                           persisting := hm_remove (lease_key lease) (persisting st1)\<rparr>;
                 a1 = notify_changed (a\<lparr>auth_state := finalize_closed_state_if_drained st2\<rparr>)
             in if committed
                then (Inr \<lparr>first_commit = True, commit_snapshot = committed_snapshot\<rparr>, a1,
                      lease\<lparr>lease_status := LEASE_COMMITTED\<rparr>)
                else (Inl CommitStateChanged, a1, lease\<lparr>lease_status := LEASE_ROLLED_BACK\<rparr>))))"

definition commit_claim ::
  "OwnedLootAuthorityInner \<Rightarrow> LootClaimLease \<Rightarrow> bool
     \<Rightarrow> (LootClaimCommitError + bool) \<times> OwnedLootAuthorityInner \<times> LootClaimLease" where
  "commit_claim a lease persistence_owner =
     (let (r, a', lease') = commit_claim_with_snapshot a lease persistence_owner
      in (map_sum id first_commit r, a', lease'))"

definition rollback_claim ::
  "OwnedLootAuthorityInner \<Rightarrow> LootClaimLease \<Rightarrow> bool \<times> OwnedLootAuthorityInner \<times> LootClaimLease" where
  "rollback_claim a lease =
     (let st = auth_state a in
      if lease_status lease \<noteq> LEASE_ACTIVE then (False, a, lease)
      else if hm_get (persisting st) (lease_key lease) = Some (lease_token lease) then (False, a, lease)
      else
        (let removed = (scope_epoch st (reservation_scope (lease_key lease)) = Some (lease_generation lease) \<and>
                        hm_get (reservations st) (lease_key lease) = Some (lease_token lease));
             st1 = (if removed then st\<lparr>reservations := hm_remove (lease_key lease) (reservations st)\<rparr> else st);
             st2 = (if hm_get (persisting st1) (lease_key lease) = Some (lease_token lease)
                    then st1\<lparr>persisting := hm_remove (lease_key lease) (persisting st1)\<rparr> else st1);
             a1 = a\<lparr>auth_state := finalize_closed_state_if_drained st2\<rparr>
         in (removed, if removed then notify_changed a1 else a1,
             lease\<lparr>lease_status := LEASE_ROLLED_BACK\<rparr>)))"

section \<open>Lease and guard methods\<close>

text \<open>
  A lease is cloneable and shared; \<open>Drop\<close> of its last clone calls \<open>rollback_claim\<close>.  The
  persistence guard owns the durable phase of one lease; its flag \<open>resolved\<close> says whether
  \<open>Drop\<close> still has to abort.
\<close>

definition lease_commit_like_cpp ::
  "OwnedLootAuthorityInner \<Rightarrow> LootClaimLease
     \<Rightarrow> (LootClaimCommitError + bool) \<times> OwnedLootAuthorityInner \<times> LootClaimLease" where
  "lease_commit_like_cpp a lease = commit_claim a lease False"

definition lease_commit_with_snapshot_like_cpp ::
  "OwnedLootAuthorityInner \<Rightarrow> LootClaimLease
     \<Rightarrow> (LootClaimCommitError + bool \<times> OwnedLootSnapshot option)
        \<times> OwnedLootAuthorityInner \<times> LootClaimLease" where
  "lease_commit_with_snapshot_like_cpp a lease =
     (let (r, a', lease') = commit_claim_with_snapshot a lease False
      in (map_sum id (\<lambda>out. (first_commit out, commit_snapshot out)) r, a', lease'))"

definition lease_rollback_like_cpp ::
  "OwnedLootAuthorityInner \<Rightarrow> LootClaimLease \<Rightarrow> bool \<times> OwnedLootAuthorityInner \<times> LootClaimLease" where
  "lease_rollback_like_cpp a lease = rollback_claim a lease"

definition lease_drop :: "OwnedLootAuthorityInner \<Rightarrow> LootClaimLease \<Rightarrow> OwnedLootAuthorityInner \<times> LootClaimLease" where
  "lease_drop a lease = snd (rollback_claim a lease)"

text \<open>\<open>Inr False\<close> is a new guard whose \<open>resolved\<close> flag is false.\<close>

definition begin_persistence_guard_like_cpp ::
  "OwnedLootAuthorityInner \<Rightarrow> LootClaimLease
     \<Rightarrow> (LootClaimCommitError + bool) \<times> OwnedLootAuthorityInner \<times> LootClaimLease" where
  "begin_persistence_guard_like_cpp a lease =
     (let (r, a', lease') = begin_claim_persistence a lease
      in (map_sum id (\<lambda>_. False) r, a', lease'))"

definition guard_commit_with_snapshot_like_cpp ::
  "OwnedLootAuthorityInner \<Rightarrow> LootClaimLease \<Rightarrow> bool
     \<Rightarrow> (LootClaimCommitError + bool \<times> OwnedLootSnapshot option)
        \<times> OwnedLootAuthorityInner \<times> LootClaimLease \<times> bool" where
  "guard_commit_with_snapshot_like_cpp a lease resolved =
     (let (r, a', lease') = commit_claim_with_snapshot a lease True
      in (map_sum id (\<lambda>out. (first_commit out, commit_snapshot out)) r, a', lease',
          (case r of Inr _ \<Rightarrow> True | Inl _ \<Rightarrow> resolved)))"

definition guard_commit_like_cpp ::
  "OwnedLootAuthorityInner \<Rightarrow> LootClaimLease \<Rightarrow> bool
     \<Rightarrow> (LootClaimCommitError + bool) \<times> OwnedLootAuthorityInner \<times> LootClaimLease \<times> bool" where
  "guard_commit_like_cpp a lease resolved =
     (let (r, rest) = guard_commit_with_snapshot_like_cpp a lease resolved
      in (map_sum id fst r, rest))"

definition quarantine_commit_unknown_like_cpp ::
  "OwnedLootAuthorityInner \<Rightarrow> LootClaimLease \<Rightarrow> bool
     \<Rightarrow> bool \<times> OwnedLootAuthorityInner \<times> LootClaimLease \<times> bool" where
  "quarantine_commit_unknown_like_cpp a lease resolved =
     (let (q, a', lease') = quarantine_claim_persistence_commit_unknown a lease
      in (q, a', lease', resolved \<or> q))"

definition guard_drop ::
  "OwnedLootAuthorityInner \<Rightarrow> LootClaimLease \<Rightarrow> bool \<Rightarrow> OwnedLootAuthorityInner \<times> LootClaimLease" where
  "guard_drop a lease resolved =
     (if \<not> resolved then snd (abort_claim_persistence a lease) else (a, lease))"

end
