(* ===== verification/LootSystem.thy ===== *)
theory LootSystem
  imports LootAuthority
begin

text \<open>
  One authority together with everything that acts on it: the leases handed out so far (the
  position in the list is the identity of the shared allocation) and the persistence guards,
  each with the lease it owns and its \<open>resolved\<close> flag.  \<open>run_op\<close> performs one call of
  the public interface, in any order and by any task; \<open>run_ops\<close> performs a sequence of
  them on a new authority.  The rest of the theory is the invariant of these sequences.
\<close>

section \<open>The system and its steps\<close>

record LootSystem =
  sys_authority :: OwnedLootAuthorityInner
  sys_leases :: "LootClaimLease list"
  sys_guards :: "(nat \<times> bool) list"

datatype LootOp =
    OpDetach
  | OpDetachIfStamp OwnedLootAuthorityStamp
  | OpInitialize "CreatureLoot option" "(ObjectGuid \<times> CreatureLoot) list"
  | OpReplaceRetired u64 "CreatureLoot option" "(ObjectGuid \<times> CreatureLoot) list"
  | OpReplace "CreatureLoot option" "(ObjectGuid \<times> CreatureLoot) list"
  | OpInitializeShared CreatureLoot
  | OpUpsertPersonal ObjectGuid CreatureLoot bool
  | OpRetire
  | OpOpenView ObjectGuid bool
  | OpRemoveViewer ObjectGuid
  | OpRemoveViewerIfGeneration u64 ObjectGuid
  | OpCloseViewer u64 ObjectGuid
  | OpClearRoundRobin u64 ObjectGuid
  | OpFinishRoll ObjectGuid u64 u8 bool "ObjectGuid option"
  | OpFinishRollReserve ObjectGuid u64 u8 ObjectGuid
  | OpReserveItem ObjectGuid u8 LootItemClaimMode "u64 option"
  | OpReserveMoney ObjectGuid "u64 option"
  | OpBeginPersistence nat
  | OpCommit nat
  | OpRollback nat
  | OpGuardCommit nat
  | OpGuardQuarantine nat
  | OpGuardDrop nat

definition set_authority :: "OwnedLootAuthorityInner \<Rightarrow> LootSystem \<Rightarrow> LootSystem" where
  "set_authority a s = s\<lparr>sys_authority := a\<rparr>"

definition hand_out :: "LootClaimLease \<Rightarrow> LootSystem \<Rightarrow> LootSystem" where
  "hand_out L s = s\<lparr>sys_leases := sys_leases s @ [L]\<rparr>"

definition set_lease :: "nat \<Rightarrow> OwnedLootAuthorityInner \<times> LootClaimLease \<Rightarrow> LootSystem \<Rightarrow> LootSystem" where
  "set_lease i r s = s\<lparr>sys_authority := fst r, sys_leases := (sys_leases s)[i := snd r]\<rparr>"

definition set_guard :: "nat \<Rightarrow> bool \<Rightarrow> LootSystem \<Rightarrow> LootSystem" where
  "set_guard g resolved s = s\<lparr>sys_guards := (sys_guards s)[g := (fst (sys_guards s ! g), resolved)]\<rparr>"

primrec run_op :: "LootOp \<Rightarrow> LootSystem \<Rightarrow> LootSystem" where
  "run_op OpDetach s = set_authority (snd (detach_like_cpp (sys_authority s))) s"
| "run_op (OpDetachIfStamp stamp) s =
     set_authority (snd (detach_if_stamp_like_cpp (sys_authority s) stamp)) s"
| "run_op (OpInitialize sh pe) s = set_authority (snd (initialize_like_cpp (sys_authority s) sh pe)) s"
| "run_op (OpReplaceRetired g sh pe) s =
     set_authority (snd (replace_retired_generation_like_cpp (sys_authority s) g sh pe)) s"
| "run_op (OpReplace sh pe) s = set_authority (snd (replace_like_cpp (sys_authority s) sh pe)) s"
| "run_op (OpInitializeShared l) s = set_authority (snd (initialize_shared_like_cpp (sys_authority s) l)) s"
| "run_op (OpUpsertPersonal p l r) s =
     set_authority (snd (upsert_personal_like_cpp (sys_authority s) p l r)) s"
| "run_op OpRetire s = set_authority (snd (retire_like_cpp (sys_authority s))) s"
| "run_op (OpOpenView p accept) s =
     set_authority (snd (try_open_view_with_snapshot_like_cpp (sys_authority s) p
       (\<lambda>_ _. if accept then Some () else None))) s"
| "run_op (OpRemoveViewer p) s = set_authority (snd (remove_viewer_like_cpp (sys_authority s) p)) s"
| "run_op (OpRemoveViewerIfGeneration g p) s =
     set_authority (snd (remove_viewer_if_generation_like_cpp (sys_authority s) g p)) s"
| "run_op (OpCloseViewer g p) s =
     set_authority (snd (close_viewer_if_generation_like_cpp (sys_authority s) g p)) s"
| "run_op (OpClearRoundRobin g p) s =
     set_authority (snd (clear_round_robin_if_generation_like_cpp (sys_authority s) g p)) s"
| "run_op (OpFinishRoll p g lid u w) s =
     set_authority (snd (finish_item_roll_like_cpp (sys_authority s) p g lid u w)) s"
| "run_op (OpFinishRollReserve p g lid w) s =
     (case finish_item_roll_and_reserve_award_like_cpp (sys_authority s) p g lid w of
        (Inr L, a) \<Rightarrow> hand_out L (set_authority a s)
      | (Inl _, a) \<Rightarrow> set_authority a s)"
| "run_op (OpReserveItem p lid mode g) s =
     (case reserve_item_with_mode_like_cpp (sys_authority s) p lid mode g of
        (Some (Inr L), a) \<Rightarrow> hand_out L (set_authority a s)
      | (_, a) \<Rightarrow> set_authority a s)"
| "run_op (OpReserveMoney p g) s =
     (case reserve_money_for_optional_generation_like_cpp (sys_authority s) p g of
        (Some (Inr L), a) \<Rightarrow> hand_out L (set_authority a s)
      | (_, a) \<Rightarrow> set_authority a s)"
| "run_op (OpBeginPersistence i) s =
     (if i < length (sys_leases s) then
        (case begin_persistence_guard_like_cpp (sys_authority s) (sys_leases s ! i) of
           (Inr resolved, r) \<Rightarrow> (set_lease i r s)\<lparr>sys_guards := sys_guards s @ [(i, resolved)]\<rparr>
         | (Inl _, r) \<Rightarrow> set_lease i r s)
      else s)"
| "run_op (OpCommit i) s =
     (if i < length (sys_leases s)
      then set_lease i (snd (lease_commit_with_snapshot_like_cpp (sys_authority s) (sys_leases s ! i))) s
      else s)"
| "run_op (OpRollback i) s =
     (if i < length (sys_leases s)
      then set_lease i (snd (lease_rollback_like_cpp (sys_authority s) (sys_leases s ! i))) s else s)"
| "run_op (OpGuardCommit g) s =
     (if g < length (sys_guards s) then
        (case sys_guards s ! g of (i, resolved) \<Rightarrow>
         case guard_commit_with_snapshot_like_cpp (sys_authority s) (sys_leases s ! i) resolved of
           (_, a, L, resolved') \<Rightarrow> set_guard g resolved' (set_lease i (a, L) s))
      else s)"
| "run_op (OpGuardQuarantine g) s =
     (if g < length (sys_guards s) then
        (case sys_guards s ! g of (i, resolved) \<Rightarrow>
         case quarantine_commit_unknown_like_cpp (sys_authority s) (sys_leases s ! i) resolved of
           (_, a, L, resolved') \<Rightarrow> set_guard g resolved' (set_lease i (a, L) s))
      else s)"
| "run_op (OpGuardDrop g) s =
     (if g < length (sys_guards s) then
        (case sys_guards s ! g of (i, resolved) \<Rightarrow>
           set_guard g True (set_lease i (guard_drop (sys_authority s) (sys_leases s ! i) resolved) s))
      else s)"

definition system_new :: LootSystem where
  "system_new = \<lparr>sys_authority = authority_new, sys_leases = [], sys_guards = []\<rparr>"

definition run_ops :: "LootOp list \<Rightarrow> LootSystem" where
  "run_ops ops = fold run_op ops system_new"

abbreviation sys_state :: "LootSystem \<Rightarrow> AuthorityState" where
  "sys_state s \<equiv> auth_state (sys_authority s)"

text \<open>A numbered step: the operation count bounds the tokens and epochs issued.\<close>

inductive loot_step :: "nat \<times> LootSystem \<Rightarrow> nat \<times> LootSystem \<Rightarrow> bool" where
  loot_step: "loot_step (n, s) (Suc n, run_op op s)"

inductive_cases loot_stepE: "loot_step c d"

lemma run_ops_snoc: "run_ops (ops @ [op]) = run_op op (run_ops ops)"
  by (simp add: run_ops_def)

lemma run_ops_reachable: "reachable (\<lambda>c. c = (0, system_new)) loot_step (length ops, run_ops ops)"
proof (induction ops rule: rev_induct)
  case Nil
  show ?case by (rule reach_init) (simp add: run_ops_def)
next
  case (snoc op ops)
  have "loot_step (length ops, run_ops ops) (length (ops @ [op]), run_ops (ops @ [op]))"
    using loot_step [of "length ops" "run_ops ops" op] by (simp add: run_ops_snoc)
  with snoc show ?case by (rule reach_step)
qed

section \<open>Contracts every operation keeps\<close>

text \<open>
  A relation between an authority before and after a step that each method of the public
  interface establishes; every operation of the system then establishes it.
\<close>

locale authority_contract =
  fixes R :: "OwnedLootAuthorityInner \<Rightarrow> OwnedLootAuthorityInner \<Rightarrow> bool"
  assumes skip: "R a a"
    and detach: "R a (snd (detach_like_cpp a))"
    and detach_stamp: "R a (snd (detach_if_stamp_like_cpp a stamp))"
    and initialize: "R a (snd (initialize_like_cpp a sh pe))"
    and replace_retired: "R a (snd (replace_retired_generation_like_cpp a g sh pe))"
    and replace: "R a (snd (replace_like_cpp a sh pe))"
    and initialize_shared: "R a (snd (initialize_shared_like_cpp a l))"
    and upsert_personal: "R a (snd (upsert_personal_like_cpp a p l b))"
    and retire: "R a (snd (retire_like_cpp a))"
    and open_view: "R a (snd (try_open_view_with_snapshot_like_cpp a p (\<lambda>_ _. if b then Some () else None)))"
    and remove_view: "R a (snd (remove_viewer_like_cpp a p))"
    and remove_view_generation: "R a (snd (remove_viewer_if_generation_like_cpp a g p))"
    and close_view: "R a (snd (close_viewer_if_generation_like_cpp a g p))"
    and clear_round_robin: "R a (snd (clear_round_robin_if_generation_like_cpp a g p))"
    and finish_roll: "R a (snd (finish_item_roll_like_cpp a p g lid u wo))"
    and award: "R a (snd (finish_item_roll_and_reserve_award_like_cpp a p g lid w))"
    and reserve_item: "R a (snd (reserve_item_with_mode_like_cpp a p lid mode go))"
    and reserve_money: "R a (snd (reserve_money_for_optional_generation_like_cpp a p go))"
    and begin_persistence: "R a (fst (snd (begin_claim_persistence a L)))"
    and commit: "R a (fst (snd (commit_claim_with_snapshot a L b)))"
    and rollback: "R a (fst (snd (rollback_claim a L)))"
    and abort: "R a (fst (snd (abort_claim_persistence a L)))"
    and quarantine: "R a (fst (snd (quarantine_claim_persistence_commit_unknown a L)))"
begin

lemma grants_contract:
  "R (sys_authority s) (sys_authority (run_op (OpFinishRollReserve p g lid w) s))"
  "R (sys_authority s) (sys_authority (run_op (OpReserveItem p lid mode go) s))"
  "R (sys_authority s) (sys_authority (run_op (OpReserveMoney p go) s))"
proof -
  show "R (sys_authority s) (sys_authority (run_op (OpFinishRollReserve p g lid w) s))"
    using award [of "sys_authority s" p g lid w]
    by (cases "finish_item_roll_and_reserve_award_like_cpp (sys_authority s) p g lid w")
      (auto simp: set_authority_def hand_out_def split: sum.split)
  show "R (sys_authority s) (sys_authority (run_op (OpReserveItem p lid mode go) s))"
    using reserve_item [of "sys_authority s" p lid mode go]
    by (cases "reserve_item_with_mode_like_cpp (sys_authority s) p lid mode go")
      (auto simp: set_authority_def hand_out_def split: option.split sum.split)
  show "R (sys_authority s) (sys_authority (run_op (OpReserveMoney p go) s))"
    using reserve_money [of "sys_authority s" p go]
    by (cases "reserve_money_for_optional_generation_like_cpp (sys_authority s) p go")
      (auto simp: set_authority_def hand_out_def split: option.split sum.split)
qed

lemma leases_contract:
  "R (sys_authority s) (sys_authority (run_op (OpBeginPersistence i) s))"
  "R (sys_authority s) (sys_authority (run_op (OpCommit i) s))"
  "R (sys_authority s) (sys_authority (run_op (OpRollback i) s))"
proof -
  show "R (sys_authority s) (sys_authority (run_op (OpBeginPersistence i) s))"
    using begin_persistence [of "sys_authority s" "sys_leases s ! i"] skip [of "sys_authority s"]
    by (cases "begin_claim_persistence (sys_authority s) (sys_leases s ! i)")
      (auto simp: begin_persistence_guard_like_cpp_def set_lease_def split: sum.split)
  show "R (sys_authority s) (sys_authority (run_op (OpCommit i) s))"
    using commit [of "sys_authority s" "sys_leases s ! i" False] skip [of "sys_authority s"]
    by (cases "commit_claim_with_snapshot (sys_authority s) (sys_leases s ! i) False")
      (auto simp: lease_commit_with_snapshot_like_cpp_def set_lease_def)
  show "R (sys_authority s) (sys_authority (run_op (OpRollback i) s))"
    using rollback [of "sys_authority s" "sys_leases s ! i"] skip [of "sys_authority s"]
    by (simp add: lease_rollback_like_cpp_def set_lease_def)
qed

lemma guards_contract:
  "R (sys_authority s) (sys_authority (run_op (OpGuardCommit y) s))"
  "R (sys_authority s) (sys_authority (run_op (OpGuardQuarantine y) s))"
  "R (sys_authority s) (sys_authority (run_op (OpGuardDrop y) s))"
  using commit [of "sys_authority s" "sys_leases s ! fst (sys_guards s ! y)" True]
    quarantine [of "sys_authority s" "sys_leases s ! fst (sys_guards s ! y)"]
    abort [of "sys_authority s" "sys_leases s ! fst (sys_guards s ! y)"] skip [of "sys_authority s"]
  by (auto simp: guard_commit_with_snapshot_like_cpp_def quarantine_commit_unknown_like_cpp_def guard_drop_def
      set_lease_def set_guard_def split: prod.split)

lemma run_op_contract: "R (sys_authority s) (sys_authority (run_op op s))"
  by (cases op)
    (simp_all only: grants_contract leases_contract guards_contract,
     simp_all add: set_authority_def detach detach_stamp initialize replace_retired replace initialize_shared
       upsert_personal retire open_view remove_view remove_view_generation close_view clear_round_robin finish_roll)

end

section \<open>What a lease may still do, and what it did\<close>

definition item_view :: "AuthorityState \<Rightarrow> OwnedLootScope \<Rightarrow> u8 \<Rightarrow> (bool \<times> bool \<times> ObjectGuid list) option" where
  "item_view st sc lid =
     (case loot_for_scope st sc of None \<Rightarrow> None
      | Some loot \<Rightarrow> map_option (\<lambda>e. (freeforall (entry_flags e), taken e, ffa_looted_by e))
                       (item_like_cpp loot lid))"

definition coins_view :: "AuthorityState \<Rightarrow> OwnedLootScope \<Rightarrow> u32 option" where
  "coins_view st sc = map_option coins (loot_for_scope st sc)"

definition claimable :: "AuthorityState \<Rightarrow> LootClaimLease \<Rightarrow> bool" where
  "claimable st L =
     (case lease_key L of
        KeyItem k \<Rightarrow>
          (case item_view st (key_scope k) (key_loot_list_id k) of None \<Rightarrow> False
           | Some (ffa, tk, looters) \<Rightarrow>
               \<not> (if ffa then lease_player L \<in> set looters else tk) \<and>
               key_claimant k = (if ffa then Some (lease_player L) else None))
      | KeyMoney sc \<Rightarrow> (\<exists>c. coins_view st sc = Some c \<and> lease_payload L = PayMoney c))"

definition settled :: "AuthorityState \<Rightarrow> LootClaimLease \<Rightarrow> bool" where
  "settled st L =
     (case lease_key L of
        KeyItem k \<Rightarrow>
          (case item_view st (key_scope k) (key_loot_list_id k) of None \<Rightarrow> False
           | Some (ffa, tk, looters) \<Rightarrow>
               ((if ffa then lease_player L \<in> set looters else tk) \<or>
                key_claimant k = Some ObjectGuid_EMPTY) \<and>
               key_claimant k = (if ffa then Some (lease_player L) else None))
      | KeyMoney sc \<Rightarrow> coins_view st sc = Some 0)"

section \<open>The invariant\<close>

abbreviation lease_scope :: "LootClaimLease \<Rightarrow> OwnedLootScope" where
  "lease_scope L \<equiv> reservation_scope (lease_key L)"

definition auth_inv :: "AuthorityState \<Rightarrow> bool" where
  "auth_inv st \<longleftrightarrow>
     hm_ok (reservations st) \<and> hm_ok (persisting st) \<and>
     (\<forall>k t. hm_get (persisting st) k = Some t \<longrightarrow> hm_get (reservations st) k = Some t) \<and>
     (retired st \<and> persisting st = [] \<longrightarrow>
        shared st = None \<and> personal st = [] \<and> scope_epochs st = [] \<and> reservations st = []) \<and>
     (generation st = 0 \<longrightarrow> retired st \<and> reservations st = [] \<and> persisting st = []) \<and>
     (detached st \<or> quarantined st \<longrightarrow> retired st) \<and>
     (\<forall>k t. hm_get (reservations st) k = Some t \<and> (\<not> retired st \<or> hm_get (persisting st) k = Some t) \<longrightarrow>
        loot_for_scope st (reservation_scope k) \<noteq> None)"

definition tokens_ok :: "nat \<Rightarrow> AuthorityState \<Rightarrow> LootClaimLease list \<Rightarrow> bool" where
  "tokens_ok n st Ls \<longleftrightarrow>
     distinct (map lease_token Ls) \<and> (\<forall>L\<in>set Ls. lease_token L < next_token_field st) \<and>
     unat (next_token_field st) \<le> Suc n"

definition epochs_ok :: "nat \<Rightarrow> AuthorityState \<Rightarrow> LootClaimLease list \<Rightarrow> bool" where
  "epochs_ok n st Ls \<longleftrightarrow>
     (\<forall>sc e. scope_epoch st sc = Some e \<longrightarrow> e < next_scope_epoch_field st) \<and>
     (\<forall>L\<in>set Ls. lease_generation L < next_scope_epoch_field st) \<and>
     unat (next_scope_epoch_field st) \<le> Suc n"

definition holds_key :: "AuthorityState \<Rightarrow> ReservationKey \<Rightarrow> u64 \<Rightarrow> LootClaimLease \<Rightarrow> bool" where
  "holds_key st k t L \<longleftrightarrow>
     lease_token L = t \<and> lease_key L = k \<and> lease_status L = LEASE_ACTIVE \<and>
     scope_epoch st (reservation_scope k) = Some (lease_generation L) \<and> claimable st L"

definition holders_ok :: "AuthorityState \<Rightarrow> LootClaimLease list \<Rightarrow> bool" where
  "holders_ok st Ls \<longleftrightarrow>
     (\<forall>k t. hm_get (reservations st) k = Some t \<longrightarrow>
        \<not> retired st \<or> hm_get (persisting st) k = Some t \<longrightarrow> (\<exists>L\<in>set Ls. holds_key st k t L))"

definition guards_ok :: "AuthorityState \<Rightarrow> LootClaimLease list \<Rightarrow> (nat \<times> bool) list \<Rightarrow> bool" where
  "guards_ok st Ls Gs \<longleftrightarrow>
     (\<forall>(i, resolved)\<in>set Gs. i < length Ls \<and>
        (if resolved then lease_status (Ls ! i) \<noteq> LEASE_ACTIVE
         else hm_get (persisting st) (lease_key (Ls ! i)) = Some (lease_token (Ls ! i)))) \<and>
     (\<forall>k t. hm_get (persisting st) k = Some t \<longrightarrow>
        (\<exists>i. (i, False) \<in> set Gs \<and> lease_key (Ls ! i) = k \<and> lease_token (Ls ! i) = t)) \<and>
     distinct (map fst Gs)"

definition settled_ok :: "AuthorityState \<Rightarrow> LootClaimLease list \<Rightarrow> bool" where
  "settled_ok st Ls \<longleftrightarrow>
     (\<forall>L\<in>set Ls. lease_status L = LEASE_COMMITTED \<longrightarrow>
        scope_epoch st (lease_scope L) = Some (lease_generation L) \<longrightarrow> settled st L)"

definition excludes :: "LootClaimLease \<Rightarrow> LootClaimLease \<Rightarrow> bool" where
  "excludes L M \<longleftrightarrow>
     lease_key L = lease_key M \<longrightarrow> lease_generation L = lease_generation M \<longrightarrow>
     (case lease_key L of
        KeyItem k \<Rightarrow> key_claimant k = Some ObjectGuid_EMPTY
      | KeyMoney _ \<Rightarrow> lease_payload L = PayMoney 0 \<or> lease_payload M = PayMoney 0)"

definition unique_ok :: "LootClaimLease list \<Rightarrow> bool" where
  "unique_ok Ls \<longleftrightarrow>
     (\<forall>i j. i < length Ls \<longrightarrow> j < length Ls \<longrightarrow> i \<noteq> j \<longrightarrow>
        lease_status (Ls ! i) = LEASE_COMMITTED \<longrightarrow> lease_status (Ls ! j) = LEASE_COMMITTED \<longrightarrow>
        excludes (Ls ! i) (Ls ! j))"

definition claims_inv :: "nat \<Rightarrow> AuthorityState \<Rightarrow> LootClaimLease list \<Rightarrow> (nat \<times> bool) list \<Rightarrow> bool" where
  "claims_inv n st Ls Gs \<longleftrightarrow>
     auth_inv st \<and> tokens_ok n st Ls \<and> epochs_ok n st Ls \<and> holders_ok st Ls \<and> guards_ok st Ls Gs \<and>
     settled_ok st Ls \<and> unique_ok Ls"

text \<open>Tokens and epochs are 64-bit counters: the invariant speaks of runs that cannot exhaust them.\<close>

definition sys_inv :: "nat \<times> LootSystem \<Rightarrow> bool" where
  "sys_inv c \<longleftrightarrow>
     (case c of (n, s) \<Rightarrow>
        n < 2 ^ 64 - 1 \<longrightarrow> claims_inv n (sys_state s) (sys_leases s) (sys_guards s))"

lemma sys_invD: "sys_inv (n, s) \<Longrightarrow> n < 2 ^ 64 - 1 \<Longrightarrow> claims_inv n (sys_state s) (sys_leases s) (sys_guards s)"
  by (simp add: sys_inv_def)

lemma sys_invI:
  "(Suc n < 2 ^ 64 - 1 \<Longrightarrow> claims_inv (Suc n) (sys_state s) (sys_leases s) (sys_guards s)) \<Longrightarrow> sys_inv (Suc n, s)"
  by (simp add: sys_inv_def)

end
