(* ===== verification/LootInvariant.thy ===== *)
theory LootInvariant
  imports LootSystem
begin

text \<open>
  The invariant of \<open>LootSystem\<close> is kept by every operation.  The proof goes through one
  relation between the states before and after an operation, \<open>frame K\<close>: outside the keys
  \<open>K\<close> the operation resolves, live claims keep their reservation, their epoch and their
  pool contents.  Every operation on the authority satisfies it, and it is enough to
  re-establish each part of the invariant.
\<close>

section \<open>Frames\<close>

definition frame :: "ReservationKey set \<Rightarrow> AuthorityState \<Rightarrow> AuthorityState \<Rightarrow> bool" where
  "frame K st st' \<longleftrightarrow>
     (\<forall>k t. hm_get (persisting st') k = Some t \<longrightarrow> hm_get (persisting st) k = Some t) \<and>
     (\<forall>k t. hm_get (reservations st') k = Some t \<longrightarrow> hm_get (reservations st) k = Some t) \<and>
     (\<forall>k t. hm_get (persisting st) k = Some t \<longrightarrow> k \<notin> K \<longrightarrow>
        hm_get (persisting st') k = Some t \<and>
        scope_epoch st' (reservation_scope k) = scope_epoch st (reservation_scope k)) \<and>
     (\<forall>k t. hm_get (reservations st') k = Some t \<longrightarrow> \<not> retired st' \<longrightarrow>
        \<not> retired st \<and> scope_epoch st' (reservation_scope k) = scope_epoch st (reservation_scope k)) \<and>
     (\<forall>L. scope_epoch st' (lease_scope L) = Some (lease_generation L) \<longrightarrow>
        lease_generation L < next_scope_epoch_field st \<longrightarrow>
        scope_epoch st (lease_scope L) = Some (lease_generation L) \<and>
        (settled st L \<longrightarrow> settled st' L) \<and>
        (lease_key L \<notin> K \<longrightarrow> claimable st L \<longrightarrow> claimable st' L)) \<and>
     (\<forall>sc e. scope_epoch st' sc = Some e \<longrightarrow>
        scope_epoch st sc = Some e \<or>
        e = next_scope_epoch_field st \<and> next_scope_epoch_field st' = bump_nonzero e) \<and>
     (next_scope_epoch_field st' = next_scope_epoch_field st \<or>
      next_scope_epoch_field st' = bump_nonzero (next_scope_epoch_field st)) \<and>
     next_token_field st' = next_token_field st \<and>
     (\<forall>k\<in>K. hm_get (reservations st') k = None \<and> hm_get (persisting st') k = None)"

lemma frameD:
  assumes "frame K st st'"
  shows frame_persisting: "hm_get (persisting st') k = Some t \<Longrightarrow> hm_get (persisting st) k = Some t"
    and frame_reservations: "hm_get (reservations st') k = Some t \<Longrightarrow> hm_get (reservations st) k = Some t"
    and frame_keeps: "hm_get (persisting st) k = Some t \<Longrightarrow> k \<notin> K \<Longrightarrow>
          hm_get (persisting st') k = Some t \<and>
          scope_epoch st' (reservation_scope k) = scope_epoch st (reservation_scope k)"
    and frame_live: "hm_get (reservations st') k = Some t \<Longrightarrow> \<not> retired st' \<Longrightarrow>
          \<not> retired st \<and> scope_epoch st' (reservation_scope k) = scope_epoch st (reservation_scope k)"
    and frame_lease: "scope_epoch st' (lease_scope L) = Some (lease_generation L) \<Longrightarrow>
          lease_generation L < next_scope_epoch_field st \<Longrightarrow>
          scope_epoch st (lease_scope L) = Some (lease_generation L) \<and>
          (settled st L \<longrightarrow> settled st' L) \<and> (lease_key L \<notin> K \<longrightarrow> claimable st L \<longrightarrow> claimable st' L)"
    and frame_epoch: "scope_epoch st' sc = Some e \<Longrightarrow> scope_epoch st sc = Some e \<or>
          e = next_scope_epoch_field st \<and> next_scope_epoch_field st' = bump_nonzero e"
    and frame_next: "next_scope_epoch_field st' = next_scope_epoch_field st \<or>
          next_scope_epoch_field st' = bump_nonzero (next_scope_epoch_field st)"
    and frame_token: "next_token_field st' = next_token_field st"
    and frame_resolved: "k \<in> K \<Longrightarrow> hm_get (reservations st') k = None \<and> hm_get (persisting st') k = None"
  using assms unfolding frame_def by blast+

lemma frame_refl: "frame {} st st"
  by (auto simp: frame_def)

text \<open>Claims read a pool only through its coins and the views of its items.\<close>

definition same_pool :: "AuthorityState \<Rightarrow> AuthorityState \<Rightarrow> OwnedLootScope \<Rightarrow> bool" where
  "same_pool st st' sc \<longleftrightarrow> coins_view st' sc = coins_view st sc \<and> (\<forall>lid. item_view st' sc lid = item_view st sc lid)"

lemma same_pool_eq: "loot_for_scope st' sc = loot_for_scope st sc \<Longrightarrow> same_pool st st' sc"
  by (simp add: same_pool_def coins_view_def item_view_def)

lemma same_pool_claims:
  assumes "same_pool st st' (lease_scope L)"
  shows "claimable st' L \<longleftrightarrow> claimable st L" "settled st' L \<longleftrightarrow> settled st L"
  using assms
  by (auto simp: same_pool_def claimable_def settled_def reservation_scope_def split: ReservationKey.splits)

lemma frame_poolI:
  assumes "\<And>k t. hm_get (persisting st') k = Some t \<Longrightarrow> hm_get (persisting st) k = Some t"
    and "\<And>k t. hm_get (reservations st') k = Some t \<Longrightarrow> hm_get (reservations st) k = Some t"
    and "\<And>k t. hm_get (persisting st) k = Some t \<Longrightarrow> hm_get (persisting st') k = Some t \<and>
        scope_epoch st' (reservation_scope k) = scope_epoch st (reservation_scope k)"
    and "\<And>k t. hm_get (reservations st') k = Some t \<Longrightarrow> \<not> retired st' \<Longrightarrow>
        \<not> retired st \<and> scope_epoch st' (reservation_scope k) = scope_epoch st (reservation_scope k)"
    and epoch: "\<And>sc e. scope_epoch st' sc = Some e \<Longrightarrow>
        scope_epoch st sc = Some e \<and> same_pool st st' sc \<or>
        e = next_scope_epoch_field st \<and> next_scope_epoch_field st' = bump_nonzero e"
    and "next_scope_epoch_field st' = next_scope_epoch_field st \<or>
      next_scope_epoch_field st' = bump_nonzero (next_scope_epoch_field st)"
    and "next_token_field st' = next_token_field st"
  shows "frame {} st st'"
proof -
  have "scope_epoch st (lease_scope L) = Some (lease_generation L) \<and>
        (settled st L \<longrightarrow> settled st' L) \<and> (claimable st L \<longrightarrow> claimable st' L)"
    if "scope_epoch st' (lease_scope L) = Some (lease_generation L)"
      and "lease_generation L < next_scope_epoch_field st" for L
    using epoch [OF that(1)] that(2) same_pool_claims by auto
  with assms show ?thesis unfolding frame_def by blast
qed

section \<open>Each part of the invariant under a frame\<close>

lemma tokens_ok_frame: "frame K st st' \<Longrightarrow> tokens_ok n st Ls \<Longrightarrow> tokens_ok (Suc n) st' Ls"
  by (auto simp: tokens_ok_def frame_token)

lemma epochs_ok_frame:
  assumes f: "frame K st st'" and e: "epochs_ok n st Ls" and n: "Suc n < 2 ^ 64 - 1"
  shows "epochs_ok (Suc n) st' Ls"
proof -
  let ?e = "next_scope_epoch_field st" and ?e' = "next_scope_epoch_field st'"
  from e n have "unat ?e < 2 ^ 64 - 1" by (auto simp: epochs_ok_def)
  then have s: "unat (bump_nonzero ?e) = Suc (unat ?e)" by (rule unat_bump_nonzero)
  have up: "?e \<le> ?e'" using frame_next [OF f] s by (auto simp: word_le_nat_alt)
  have "x < ?e'" if "scope_epoch st' sc = Some x" for sc x
    using frame_epoch [OF f that] e up s
    by (auto simp: epochs_ok_def word_less_nat_alt word_le_nat_alt dest: less_le_trans)
  moreover have "lease_generation L < ?e'" if "L \<in> set Ls" for L
    using e that up by (auto simp: epochs_ok_def)
  moreover have "unat ?e' \<le> Suc (Suc n)" using frame_next [OF f] s e by (auto simp: epochs_ok_def)
  ultimately show ?thesis by (simp add: epochs_ok_def)
qed

lemma holders_ok_frame:
  assumes f: "frame K st st'" and h: "holders_ok st Ls" and e: "epochs_ok n st Ls"
    and upd: "\<And>L. L \<in> set Ls \<Longrightarrow> lease_key L \<notin> K \<Longrightarrow> hm_get (reservations st) (lease_key L) = Some (lease_token L) \<Longrightarrow>
        \<not> retired st \<or> hm_get (persisting st) (lease_key L) = Some (lease_token L) \<Longrightarrow> L \<in> set Ls'"
  shows "holders_ok st' Ls'"
  unfolding holders_ok_def
proof (intro allI impI)
  fix k t
  assume r': "hm_get (reservations st') k = Some t"
    and live: "\<not> retired st' \<or> hm_get (persisting st') k = Some t"
  have r: "hm_get (reservations st) k = Some t" by (rule frame_reservations [OF f r'])
  have nK: "k \<notin> K" using frame_resolved [OF f, of k] r' by auto
  have *: "(\<not> retired st \<or> hm_get (persisting st) k = Some t) \<and>
      scope_epoch st' (reservation_scope k) = scope_epoch st (reservation_scope k)"
    using live frame_live [OF f r'] frame_persisting [OF f, of k t] frame_keeps [OF f _ nK, of t] by blast
  with h r obtain L where L: "L \<in> set Ls" "holds_key st k t L" unfolding holders_ok_def by blast
  have "holds_key st' k t L"
    using L * frame_lease [OF f, of L] nK e by (auto simp: holds_key_def epochs_ok_def)
  moreover have "L \<in> set Ls'" using L upd [of L] nK r * by (auto simp: holds_key_def)
  ultimately show "\<exists>L\<in>set Ls'. holds_key st' k t L" by blast
qed

lemma settled_ok_frame:
  assumes f: "frame K st st'" and s: "settled_ok st Ls" and e: "epochs_ok n st Ls"
  shows "settled_ok st' Ls"
  unfolding settled_ok_def
proof (intro ballI impI)
  fix L assume L: "L \<in> set Ls" "lease_status L = LEASE_COMMITTED"
    "scope_epoch st' (lease_scope L) = Some (lease_generation L)"
  with e have "lease_generation L < next_scope_epoch_field st" by (auto simp: epochs_ok_def)
  with frame_lease [OF f L(3)] s L show "settled st' L" by (auto simp: settled_ok_def)
qed

lemma guards_ok_frame:
  assumes f: "frame {} st st'" and g: "guards_ok st Ls Gs"
  shows "guards_ok st' Ls Gs"
proof -
  have "hm_get (persisting st') k = Some t \<longleftrightarrow> hm_get (persisting st) k = Some t" for k t
    using frame_keeps [OF f, of k t] frame_persisting [OF f, of k t] by auto
  then have eq: "hm_get (persisting st') = hm_get (persisting st)"
    by (intro ext) (metis option.exhaust)
  show ?thesis using g unfolding guards_ok_def eq .
qed

text \<open>The invariant after an operation that changes the authority only.\<close>

lemma sys_inv_frame:
  assumes inv: "sys_inv (n, s)" and f: "auth_inv (sys_state s) \<Longrightarrow> frame {} (sys_state s) (auth_state a)"
    and a: "auth_inv (sys_state s) \<Longrightarrow> auth_inv (auth_state a)"
  shows "sys_inv (Suc n, set_authority a s)"
proof (rule sys_invI)
  assume n: "Suc n < 2 ^ 64 - 1"
  with sys_invD [OF inv] have i: "auth_inv (sys_state s)" "tokens_ok n (sys_state s) (sys_leases s)"
    "epochs_ok n (sys_state s) (sys_leases s)" "holders_ok (sys_state s) (sys_leases s)"
    "guards_ok (sys_state s) (sys_leases s) (sys_guards s)" "settled_ok (sys_state s) (sys_leases s)"
    "unique_ok (sys_leases s)"
    by (auto simp: claims_inv_def)
  note fr = f [OF i(1)]
  have "holders_ok (auth_state a) (sys_leases s)"
    by (rule holders_ok_frame [OF fr i(4) i(3)])
  then show "claims_inv (Suc n) (sys_state (set_authority a s)) (sys_leases (set_authority a s))
      (sys_guards (set_authority a s))"
    using a [OF i(1)] tokens_ok_frame [OF fr i(2)] epochs_ok_frame [OF fr i(3) n] guards_ok_frame [OF fr i(5)]
      settled_ok_frame [OF fr i(6) i(3)] i(7)
    by (simp add: set_authority_def claims_inv_def)
qed

section \<open>Operations on the authority are frames\<close>

lemma auth_state_notify [simp]: "auth_state (notify_changed a) = auth_state a"
  by (simp add: notify_changed_def)

lemma scope_epoch_mut [simp]: "scope_epoch (loot_for_scope_mut sc f st) = scope_epoch st"
  by (simp add: scope_epoch_def fun_eq_iff)

text \<open>Changes of a pool that claims do not see: viewers, the round-robin player, roll fields.\<close>

definition claim_neutral :: "CreatureLoot \<Rightarrow> CreatureLoot \<Rightarrow> bool" where
  "claim_neutral l l' \<longleftrightarrow> coins l' = coins l \<and>
     (\<forall>lid. map_option (\<lambda>e. (freeforall (entry_flags e), taken e, ffa_looted_by e)) (item_like_cpp l' lid) =
            map_option (\<lambda>e. (freeforall (entry_flags e), taken e, ffa_looted_by e)) (item_like_cpp l lid))"

lemma claim_neutral_items:
  "coins l' = coins l \<Longrightarrow> loot_items l' = loot_items l \<Longrightarrow> claim_neutral l l'"
  by (simp add: claim_neutral_def item_like_cpp_def)

lemma claim_neutral_roll: "claim_neutral l (set_roll_fields lid b u w l)"
proof -
  have "map_option (\<lambda>e. (freeforall (entry_flags e), taken e, ffa_looted_by e))
          (find (\<lambda>e. loot_list_id e = lid') (update_first (\<lambda>e. loot_list_id e = lid)
            (\<lambda>e. e\<lparr>entry_flags := (entry_flags e)\<lparr>blocked := b, under_threshold := u\<rparr>, roll_winner := w\<rparr>) xs)) =
        map_option (\<lambda>e. (freeforall (entry_flags e), taken e, ffa_looted_by e))
          (find (\<lambda>e. loot_list_id e = lid') xs)" for lid' and xs :: "LootEntry list"
    by (induction xs) auto
  then show ?thesis by (simp add: claim_neutral_def item_like_cpp_def set_roll_fields_def)
qed

lemma frame_neutral:
  assumes "\<And>l. loot_for_scope st sc = Some l \<Longrightarrow> claim_neutral l (f l)"
  shows "frame {} st (loot_for_scope_mut sc f st)"
proof (rule frame_poolI)
  have "same_pool st (loot_for_scope_mut sc f st) sc'" for sc'
    by (cases "loot_for_scope st sc")
      (use assms in \<open>auto simp: same_pool_def coins_view_def item_view_def claim_neutral_def\<close>)
  then show "scope_epoch (loot_for_scope_mut sc f st) sc' = Some e \<Longrightarrow>
      scope_epoch st sc' = Some e \<and> same_pool st (loot_for_scope_mut sc f st) sc' \<or>
      e = next_scope_epoch_field st \<and>
      next_scope_epoch_field (loot_for_scope_mut sc f st) = bump_nonzero e" for sc' e
    by simp
qed simp_all

lemma auth_invI:
  assumes "hm_ok (reservations st)" "hm_ok (persisting st)"
    and "\<And>k t. hm_get (persisting st) k = Some t \<Longrightarrow> hm_get (reservations st) k = Some t"
    and "retired st \<Longrightarrow> persisting st = [] \<Longrightarrow>
        shared st = None \<and> personal st = [] \<and> scope_epochs st = [] \<and> reservations st = []"
    and "generation st = 0 \<Longrightarrow> retired st \<and> reservations st = [] \<and> persisting st = []"
    and "detached st \<or> quarantined st \<Longrightarrow> retired st"
    and "\<And>k t. hm_get (reservations st) k = Some t \<Longrightarrow> \<not> retired st \<or> hm_get (persisting st) k = Some t \<Longrightarrow>
        loot_for_scope st (reservation_scope k) \<noteq> None"
  shows "auth_inv st"
  using assms unfolding auth_inv_def by blast

lemma auth_invD:
  assumes "auth_inv st"
  shows inv_ok_res: "hm_ok (reservations st)" and inv_ok_pers: "hm_ok (persisting st)"
    and inv_pers_res: "hm_get (persisting st) k = Some t \<Longrightarrow> hm_get (reservations st) k = Some t"
    and inv_drained: "retired st \<Longrightarrow> persisting st = [] \<Longrightarrow>
        shared st = None \<and> personal st = [] \<and> scope_epochs st = [] \<and> reservations st = []"
    and inv_pristine: "generation st = 0 \<Longrightarrow> retired st \<and> reservations st = [] \<and> persisting st = []"
    and inv_closed: "detached st \<or> quarantined st \<Longrightarrow> retired st"
    and inv_pool: "hm_get (reservations st) k = Some t \<Longrightarrow> \<not> retired st \<or> hm_get (persisting st) k = Some t \<Longrightarrow>
        loot_for_scope st (reservation_scope k) \<noteq> None"
  using assms unfolding auth_inv_def by blast+

lemma auth_inv_mut:
  assumes i: "auth_inv st"
  shows "auth_inv (loot_for_scope_mut sc f st)"
proof (rule auth_invI)
  show "hm_get (reservations (loot_for_scope_mut sc f st)) k = Some t \<Longrightarrow>
      \<not> retired (loot_for_scope_mut sc f st) \<or> hm_get (persisting (loot_for_scope_mut sc f st)) k = Some t \<Longrightarrow>
      loot_for_scope (loot_for_scope_mut sc f st) (reservation_scope k) \<noteq> None" for k t
    using inv_pool [OF i, of k t] by auto
qed (use auth_invD [OF i] in auto)

lemma bump_nonzero_neq_0 [simp]: "bump_nonzero (a :: u64) \<noteq> 0"
  by (rule bump_nonzero_pos)

lemma finalize_fields [simp]:
  "generation (finalize_closed_state_if_drained st) = generation st"
  "retired (finalize_closed_state_if_drained st) = retired st"
  "detached (finalize_closed_state_if_drained st) = detached st"
  "quarantined (finalize_closed_state_if_drained st) = quarantined st"
  "persisting (finalize_closed_state_if_drained st) = persisting st"
  "next_scope_epoch_field (finalize_closed_state_if_drained st) = next_scope_epoch_field st"
  "lifecycle_revision (finalize_closed_state_if_drained st) = lifecycle_revision st"
  "next_token_field (finalize_closed_state_if_drained st) = next_token_field st"
  by (auto simp: finalize_closed_state_if_drained_def)

lemma finalize_noop: "auth_inv st \<Longrightarrow> finalize_closed_state_if_drained st = st"
  by (auto simp: finalize_closed_state_if_drained_def auth_inv_def)

lemma finalize_open: "\<not> retired st \<or> persisting st \<noteq> [] \<Longrightarrow> finalize_closed_state_if_drained st = st"
  by (simp add: finalize_closed_state_if_drained_def)

lemma finalize_drained:
  "retired st \<Longrightarrow> persisting st = [] \<Longrightarrow>
     finalize_closed_state_if_drained st = st\<lparr>shared := None, personal := [], scope_epochs := [], reservations := []\<rparr>"
  by (simp add: finalize_closed_state_if_drained_def)

text \<open>A finalised state satisfies the invariant as soon as its claims are consistent.\<close>

lemma auth_inv_finalize:
  assumes "hm_ok (reservations st)" "hm_ok (persisting st)"
    and "\<And>k t. hm_get (persisting st) k = Some t \<Longrightarrow> hm_get (reservations st) k = Some t"
    and "generation st = 0 \<Longrightarrow> retired st \<and> reservations st = [] \<and> persisting st = []"
    and "detached st \<or> quarantined st \<Longrightarrow> retired st"
    and "\<And>k t. hm_get (reservations st) k = Some t \<Longrightarrow> \<not> retired st \<or> hm_get (persisting st) k = Some t \<Longrightarrow>
        loot_for_scope st (reservation_scope k) \<noteq> None"
  shows "auth_inv (finalize_closed_state_if_drained st)"
proof (cases "\<not> retired st \<or> persisting st \<noteq> []")
  case True
  show ?thesis unfolding finalize_open [OF True]
    by (rule auth_invI [OF assms(1-3) _ assms(4-6)]) (use True in blast)+
next
  case False
  then have "finalize_closed_state_if_drained st =
      st\<lparr>shared := None, personal := [], scope_epochs := [], reservations := []\<rparr>"
    by (simp add: finalize_drained)
  with False show ?thesis by (simp add: auth_inv_def)
qed

text \<open>Closing: only persisting claims survive, and pools go once none is left.\<close>

lemma close_frame:
  assumes inv: "auth_inv st"
    and st'_def: "st' = finalize_closed_state_if_drained (retain_only_persisting_reservations
      (st\<lparr>generation := g, retired := True, detached := d, quarantined := q\<rparr>))"
  shows "frame {} st st'"
proof (rule frame_poolI)
  have ok: "hm_ok (reservations st)" using inv by (simp add: auth_inv_def)
  have p: "persisting st' = persisting st" and r: "retired st'"
    by (simp_all add: st'_def retain_only_persisting_reservations_def)
  show "hm_get (persisting st') k = Some t \<Longrightarrow> hm_get (persisting st) k = Some t" for k t
    by (simp add: p)
  show "hm_get (reservations st') k = Some t \<Longrightarrow> hm_get (reservations st) k = Some t" for k t
    using ok by (auto simp: st'_def retain_only_persisting_reservations_def
        finalize_closed_state_if_drained_def split: if_splits option.splits)
  show "hm_get (persisting st) k = Some t \<Longrightarrow> hm_get (persisting st') k = Some t \<and>
      scope_epoch st' (reservation_scope k) = scope_epoch st (reservation_scope k)" for k t
    by (auto simp: p st'_def retain_only_persisting_reservations_def
        finalize_closed_state_if_drained_def scope_epoch_def)
  show "scope_epoch st' sc = Some e \<Longrightarrow> scope_epoch st sc = Some e \<and> same_pool st st' sc \<or>
      e = next_scope_epoch_field st \<and> next_scope_epoch_field st' = bump_nonzero e" for sc e
    by (auto simp: st'_def retain_only_persisting_reservations_def finalize_closed_state_if_drained_def
        scope_epoch_def loot_for_scope_def split: if_splits OwnedLootScope.splits intro!: same_pool_eq)
qed (simp_all add: st'_def retain_only_persisting_reservations_def)

lemma close_inv:
  assumes inv: "auth_inv st" and g: "g \<noteq> 0"
  shows "auth_inv (finalize_closed_state_if_drained (retain_only_persisting_reservations
      (st\<lparr>generation := g, retired := True, detached := d, quarantined := q\<rparr>)))"
    (is "auth_inv (finalize_closed_state_if_drained ?st)")
proof (rule auth_inv_finalize)
  have pool: "loot_for_scope ?st sc = loot_for_scope st sc" for sc
    by (simp add: loot_for_scope_def retain_only_persisting_reservations_def split: OwnedLootScope.splits)
  show "hm_get (reservations ?st) k = Some t \<Longrightarrow> \<not> retired ?st \<or> hm_get (persisting ?st) k = Some t \<Longrightarrow>
      loot_for_scope ?st (reservation_scope k) \<noteq> None" for k t
    unfolding pool using inv_pool [OF inv, of k t] inv_pers_res [OF inv, of k t]
    by (simp add: retain_only_persisting_reservations_def)
qed (use auth_invD [OF inv] g in \<open>auto simp: retain_only_persisting_reservations_def split: option.splits\<close>)


text \<open>Installing over a state with no persisting claim.\<close>

lemma get_install_epochs:
  "hm_get (fold (\<lambda>player. hm_insert (Personal player) epoch) ps m) sc =
     (if sc \<in> Personal ` set ps then Some epoch else hm_get m sc)"
  by (induction ps arbitrary: m) auto

lemma install_pools_state:
  assumes "install_pools g sh pe st = (epoch, st')"
  shows "epoch = next_scope_epoch_field st" "reservations st' = []" "persisting st' = []"
    "\<not> retired st'" "generation st' = g" "detached st' = detached st" "quarantined st' = quarantined st"
    "next_scope_epoch_field st' = bump_nonzero (next_scope_epoch_field st)"
    "next_token_field st' = next_token_field st" "shared st' = sh" "personal st' = pe"
    "scope_epoch st' sc =
       (if (sc = Shared \<and> sh \<noteq> None) \<or> sc \<in> Personal ` set (map fst pe)
        then Some (next_scope_epoch_field st) else None)"
proof -
  have e: "epoch = next_scope_epoch_field st"
    and st': "st' = snd (install_pools g sh pe st)"
    using assms by (auto simp: install_pools_def next_scope_epoch_def Let_def)
  show "epoch = next_scope_epoch_field st" by (fact e)
  show "reservations st' = []" "persisting st' = []"
    "\<not> retired st'" "generation st' = g" "detached st' = detached st" "quarantined st' = quarantined st"
    "next_scope_epoch_field st' = bump_nonzero (next_scope_epoch_field st)"
    "next_token_field st' = next_token_field st" "shared st' = sh" "personal st' = pe"
    "scope_epoch st' sc =
       (if (sc = Shared \<and> sh \<noteq> None) \<or> sc \<in> Personal ` set (map fst pe)
        then Some (next_scope_epoch_field st) else None)"
    unfolding st' install_pools_def next_scope_epoch_def install_all_scope_epochs_def
      bump_lifecycle_revision_def Let_def scope_epoch_def
    by (simp_all add: get_install_epochs)
qed

lemma install_frame:
  assumes i: "install_pools g sh pe st = (epoch, st')" and p: "persisting st = []"
  shows "frame {} st st'"
  by (rule frame_poolI) (use install_pools_state [OF i] p in \<open>auto split: if_splits\<close>)

lemma install_inv:
  assumes i: "install_pools g sh pe st = (epoch, st')" and g: "g \<noteq> 0"
    and c: "\<not> detached st" "\<not> quarantined st"
  shows "auth_inv st'"
  by (rule auth_invI) (use install_pools_state [OF i] g c in auto)


lemma scope_has_persisting: "hm_get (persisting st) k = Some t \<Longrightarrow> scope_has_persisting_claim st (reservation_scope k)"
  by (auto simp: scope_has_persisting_claim_def dest!: map_of_SomeD intro: rev_bexI)

lemma initialize_shared_frame:
  assumes inv: "auth_inv (auth_state a)" and r: "initialize_shared_like_cpp a loot = (out, a')"
  shows "frame {} (auth_state a) (auth_state a')"
proof (cases "installed out")
  case False
  with r show ?thesis
    by (auto simp: initialize_shared_like_cpp_def installed_def next_scope_epoch_def frame_refl
        Let_def split: if_splits)
next
  case True
  let ?st = "auth_state a"
  have p: "persisting ?st = []" and g: "retired ?st \<Longrightarrow> generation ?st = 0"
    and s: "\<not> retired ?st \<Longrightarrow> shared ?st = None"
    using True r by (auto simp: initialize_shared_like_cpp_def installed_def Let_def split: if_splits)
  have nores: "hm_get (reservations ?st) k = Some t \<Longrightarrow> reservation_scope k \<noteq> Shared" if "\<not> retired ?st" for k t
    using inv_pool [OF inv, of k t] s that by (auto simp: loot_for_scope_def)
  have res: "retired ?st \<Longrightarrow> reservations ?st = [] \<and> scope_epochs ?st = []"
    using inv_drained [OF inv] p by simp
  show ?thesis
    by (rule frame_poolI)
      (use True r p s nores res in \<open>auto simp: initialize_shared_like_cpp_def installed_def Let_def
          next_scope_epoch_def bump_lifecycle_revision_def scope_epoch_def loot_for_scope_def
          split: if_splits OwnedLootScope.splits intro!: same_pool_eq\<close>)
qed

lemma initialize_shared_inv:
  assumes inv: "auth_inv (auth_state a)" and r: "initialize_shared_like_cpp a loot = (out, a')"
  shows "auth_inv (auth_state a')"
proof (cases "installed out")
  case False
  with r inv show ?thesis
    by (auto simp: initialize_shared_like_cpp_def installed_def next_scope_epoch_def Let_def split: if_splits)
next
  case True
  let ?st = "auth_state a" and ?st' = "auth_state a'"
  have pool: "loot_for_scope ?st' sc \<noteq> None"
    if "loot_for_scope ?st sc \<noteq> None" "\<not> retired ?st" for sc
    using True r that by (auto simp: initialize_shared_like_cpp_def installed_def Let_def
        next_scope_epoch_def bump_lifecycle_revision_def loot_for_scope_def
        split: if_splits OwnedLootScope.splits)
  have st': "\<not> retired ?st'" "persisting ?st' = []" "\<not> detached ?st'" "\<not> quarantined ?st'" "generation ?st' \<noteq> 0"
    "reservations ?st' = (if retired ?st then [] else reservations ?st)"
    using True r inv_pristine [OF inv] by (auto simp: initialize_shared_like_cpp_def installed_def Let_def
        next_scope_epoch_def bump_lifecycle_revision_def split: if_splits)
  show ?thesis
    by (rule auth_invI) (use st' inv_ok_res [OF inv] inv_pool [OF inv] pool in \<open>auto split: if_splits\<close>)
qed

end
