(* ===== verification/LootSteps.thy ===== *)
theory LootSteps
  imports LootInvariant
begin

text \<open>
  Every operation of \<open>run_op\<close> keeps the invariant of \<open>LootSystem\<close>: the authority
  operations as frames, the reservations, which hand out a lease, and the operations that
  resolve one.
\<close>

section \<open>Personal pools\<close>

text \<open>The pools of a replaced generation, of a source that turns personal, and of one that is personal.\<close>

definition upsert_kind ::
  "ObjectGuid \<Rightarrow> AuthorityState \<Rightarrow> AuthorityState \<Rightarrow> (OwnedLootScope \<times> u64) list \<Rightarrow> bool" where
  "upsert_kind player st st' E \<longleftrightarrow>
     retired st \<and> E = [] \<and> shared st' = None \<and> reservations st' = [] \<and> persisting st' = [] \<or>
     \<not> retired st \<and> personal st = [] \<and> persisting st = [] \<and> E = hm_remove Shared (scope_epochs st) \<and>
       shared st' = shared st \<and> reservations st' = [] \<and> persisting st' = [] \<or>
     \<not> retired st \<and> E = scope_epochs st \<and> shared st' = shared st \<and> persisting st' = persisting st \<and>
       (reservations st' = hm_retain (\<lambda>key _. reservation_scope key \<noteq> Personal player) (reservations st) \<or>
        hm_get (personal st) player = None \<and> reservations st' = reservations st)"

lemma upsert_personal_fields:
  assumes r: "upsert_personal_like_cpp a player loot replace = (out, a')" and i: "installed out"
  defines "st \<equiv> auth_state a" and "st' \<equiv> auth_state a'"
  obtains E where "personal st' = hm_insert player loot (personal st)"
    "scope_epochs st' = hm_insert (Personal player) (next_scope_epoch_field st) E"
    "next_scope_epoch_field st' = bump_nonzero (next_scope_epoch_field st)"
    "next_token_field st' = next_token_field st" "\<not> retired st'" "\<not> detached st'" "\<not> quarantined st'"
    "generation st' \<noteq> 0 \<or> generation st' = generation st \<and> \<not> retired st"
    "retired st \<longrightarrow> generation st = 0" "\<not> scope_has_persisting_claim st (Personal player)"
    "upsert_kind player st st' E"
proof -
  let ?st1 = "if retired st
      then st\<lparr>generation := bump_nonzero (generation st), retired := False, shared := None,
              scope_epochs := [], reservations := [], persisting := []\<rparr>
      else if personal st = [] \<and> shared st \<noteq> None
      then st\<lparr>generation := bump_nonzero (generation st),
              scope_epochs := hm_remove Shared (scope_epochs st), reservations := []\<rparr>
      else if hm_contains_key (personal st) player
      then st\<lparr>reservations := hm_retain (\<lambda>key _. reservation_scope key \<noteq> Personal player) (reservations st)\<rparr>
      else st"
  note op = upsert_personal_like_cpp_def [of a player loot replace, unfolded Let_def, folded st_def]
  have rejected: False if "upsert_personal_like_cpp a player loot replace = (AlreadyInitialized e, a)" for e
    using that r i by (simp add: installed_def)
  have c: "\<not> (detached st \<or> quarantined st \<or> (retired st \<and> generation st \<noteq> 0))"
    by (rule notI, rule rejected, unfold op, erule if_P)
  note op = op [unfolded if_not_P [OF c]]
  have c2: "\<not> (scope_has_persisting_claim st (Personal player) \<or>
          (personal st = [] \<and> shared st \<noteq> None \<and> persisting st \<noteq> []))"
    by (rule notI, rule rejected, unfold op, erule if_P)
  note op = op [unfolded if_not_P [OF c2]]
  have c3: "\<not> (\<not> retired st \<and> hm_contains_key (personal st) player \<and> \<not> replace)"
    by (rule notI, rule rejected, unfold op, erule if_P)
  note op = op [unfolded if_not_P [OF c3] next_scope_epoch_def prod.case]
  have s: "st' = bump_lifecycle_revision (snd (next_scope_epoch ?st1)\<lparr>
        personal := hm_insert player loot (personal (snd (next_scope_epoch ?st1))),
        scope_epochs := hm_insert (Personal player) (next_scope_epoch_field ?st1) (scope_epochs (snd (next_scope_epoch ?st1)))\<rparr>)"
    using r unfolding op st'_def next_scope_epoch_def snd_conv by (simp only: prod.inject) auto
  note upd = next_scope_epoch_def bump_lifecycle_revision_def upsert_kind_def
  consider "retired st" | "\<not> retired st" "personal st = [] \<and> shared st \<noteq> None" |
    "\<not> retired st" "\<not> (personal st = [] \<and> shared st \<noteq> None)" "hm_contains_key (personal st) player" |
    "\<not> retired st" "\<not> (personal st = [] \<and> shared st \<noteq> None)" "\<not> hm_contains_key (personal st) player" by blast
  then show ?thesis
  proof cases
    case 1
    show ?thesis by (rule that [of "[]"]) (use c c2 in \<open>simp_all add: s [unfolded if_P [OF 1]] upd 1\<close>)
  next
    case 2
    show ?thesis by (rule that [of "hm_remove Shared (scope_epochs st)"])
      (use c c2 2 in \<open>simp_all add: s [unfolded if_not_P [OF 2(1)] if_P [OF 2(2)]] upd\<close>)
  next
    case 3
    show ?thesis by (rule that [of "scope_epochs st"])
      (use c c2 3 in \<open>simp_all add: s [unfolded if_not_P [OF 3(1)] if_not_P [OF 3(2)] if_P [OF 3(3)]] upd\<close>)
  next
    case 4
    show ?thesis by (rule that [of "scope_epochs st"])
      (use c c2 4 in \<open>auto simp: s [unfolded if_not_P [OF 4(1)] if_not_P [OF 4(2)] if_not_P [OF 4(3)]] upd domIff\<close>)
  qed
qed

lemma upsert_personal_frame:
  assumes inv: "auth_inv (auth_state a)" and r: "upsert_personal_like_cpp a player loot replace = (out, a')"
  shows "frame {} (auth_state a) (auth_state a')"
proof (cases "installed out")
  case False
  with r show ?thesis
    by (auto simp: upsert_personal_like_cpp_def installed_def next_scope_epoch_def frame_refl
        Let_def split: if_splits)
next
  case True
  let ?st = "auth_state a" and ?st' = "auth_state a'"
  obtain E where
    st': "personal ?st' = hm_insert player loot (personal ?st)"
      "scope_epochs ?st' = hm_insert (Personal player) (next_scope_epoch_field ?st) E"
      "next_scope_epoch_field ?st' = bump_nonzero (next_scope_epoch_field ?st)"
      "next_token_field ?st' = next_token_field ?st" "\<not> retired ?st'" "\<not> detached ?st'" "\<not> quarantined ?st'"
      "generation ?st' \<noteq> 0 \<or> generation ?st' = generation ?st \<and> \<not> retired ?st"
    and old: "retired ?st \<longrightarrow> generation ?st = 0" "\<not> scope_has_persisting_claim ?st (Personal player)"
    and k: "upsert_kind player ?st ?st' E"
    by (rule upsert_personal_fields [OF r True]) (rule that; assumption)
  note kinds = k [unfolded upsert_kind_def]
  have res: "retired ?st \<Longrightarrow> reservations ?st = [] \<and> scope_epochs ?st = [] \<and> persisting ?st = []"
    using inv_pristine [OF inv] inv_drained [OF inv] old(1) by blast
  have per: "hm_get (persisting ?st) k = Some t \<Longrightarrow> reservation_scope k \<noteq> Personal player" for k t
    using scope_has_persisting [of ?st k t] old(2) by auto
  have nores: "hm_get (reservations ?st) k = Some t \<Longrightarrow> reservation_scope k \<noteq> Personal player"
    if "\<not> retired ?st" "hm_get (personal ?st) player = None" for k t
    using inv_pool [OF inv, of k t] that by (auto simp: loot_for_scope_def)
  note ok = inv_ok_res [OF inv]
  show ?thesis
  proof (rule frame_poolI)
    fix k t
    show "hm_get (persisting ?st') k = Some t \<Longrightarrow> hm_get (persisting ?st) k = Some t"
      using kinds by auto
    show "hm_get (reservations ?st') k = Some t \<Longrightarrow> hm_get (reservations ?st) k = Some t"
      using kinds ok by (auto split: option.splits if_splits)
    show "hm_get (persisting ?st) k = Some t \<Longrightarrow> hm_get (persisting ?st') k = Some t \<and>
        scope_epoch ?st' (reservation_scope k) = scope_epoch ?st (reservation_scope k)"
      using kinds res per [of k t] by (auto simp: scope_epoch_def st')
    show "hm_get (reservations ?st') k = Some t \<Longrightarrow> \<not> retired ?st' \<Longrightarrow>
        \<not> retired ?st \<and> scope_epoch ?st' (reservation_scope k) = scope_epoch ?st (reservation_scope k)"
      using kinds ok nores [of k t] by (auto simp: scope_epoch_def st' split: option.splits if_splits)
  next
    fix sc e
    show "scope_epoch ?st' sc = Some e \<Longrightarrow> scope_epoch ?st sc = Some e \<and> same_pool ?st ?st' sc \<or>
        e = next_scope_epoch_field ?st \<and> next_scope_epoch_field ?st' = bump_nonzero e"
      using kinds by (cases sc) (auto simp: scope_epoch_def st' loot_for_scope_def split: if_splits intro!: same_pool_eq)
  qed (simp_all add: st')
qed

lemma upsert_personal_inv:
  assumes inv: "auth_inv (auth_state a)" and r: "upsert_personal_like_cpp a player loot replace = (out, a')"
  shows "auth_inv (auth_state a')"
proof (cases "installed out")
  case False
  with r inv show ?thesis
    by (auto simp: upsert_personal_like_cpp_def installed_def next_scope_epoch_def Let_def split: if_splits)
next
  case True
  let ?st = "auth_state a" and ?st' = "auth_state a'"
  have f: "frame {} ?st ?st'" by (rule upsert_personal_frame [OF inv r])
  obtain E where
    st': "personal ?st' = hm_insert player loot (personal ?st)"
      "scope_epochs ?st' = hm_insert (Personal player) (next_scope_epoch_field ?st) E"
      "next_scope_epoch_field ?st' = bump_nonzero (next_scope_epoch_field ?st)"
      "next_token_field ?st' = next_token_field ?st" "\<not> retired ?st'" "\<not> detached ?st'" "\<not> quarantined ?st'"
    and g: "generation ?st' \<noteq> 0 \<or> generation ?st' = generation ?st \<and> \<not> retired ?st"
    and old: "retired ?st \<longrightarrow> generation ?st = 0" "\<not> scope_has_persisting_claim ?st (Personal player)"
    and k: "upsert_kind player ?st ?st' E"
    by (rule upsert_personal_fields [OF r True]) (rule that; assumption)
  note kinds = k [unfolded upsert_kind_def]
  have pool: "loot_for_scope ?st' sc \<noteq> None" if "loot_for_scope ?st sc \<noteq> None" "\<not> retired ?st" for sc
    using kinds that by (cases sc) (auto simp: loot_for_scope_def st')
  have oks: "hm_ok (reservations ?st')" "hm_ok (persisting ?st')" "generation ?st' \<noteq> 0"
    using kinds g inv_pristine [OF inv] inv_ok_res [OF inv] inv_ok_pers [OF inv] by auto
  have pr: "hm_get (reservations ?st') k = Some t" if p: "hm_get (persisting ?st') k = Some t" for k t
  proof -
    have "hm_get (persisting ?st) k = Some t" using frame_persisting [OF f p] by simp
    moreover from this have "reservation_scope k \<noteq> Personal player"
      using scope_has_persisting [of ?st k t] old(2) by auto
    ultimately show ?thesis using kinds inv_pers_res [OF inv, of k t] inv_ok_res [OF inv] p by auto
  qed
  show ?thesis
  proof (rule auth_invI)
    show "hm_get (reservations ?st') k = Some t \<Longrightarrow> \<not> retired ?st' \<or> hm_get (persisting ?st') k = Some t \<Longrightarrow>
        loot_for_scope ?st' (reservation_scope k) \<noteq> None" for k t
      using frame_live [OF f, of k t] frame_reservations [OF f, of k t] inv_pool [OF inv, of k t] pool st'(5)
      by blast
  qed (use st' oks pr in auto)
qed

section \<open>Authority operations as steps\<close>

definition framed :: "OwnedLootAuthorityInner \<Rightarrow> OwnedLootAuthorityInner \<Rightarrow> bool" where
  "framed a a' \<longleftrightarrow> (auth_inv (auth_state a) \<longrightarrow>
     frame {} (auth_state a) (auth_state a') \<and> auth_inv (auth_state a'))"

lemma framed_refl: "framed a a"
  by (simp add: framed_def frame_refl)

lemma framed_neutral:
  assumes "auth_state a' = loot_for_scope_mut sc f (auth_state a)"
    and "\<And>l. loot_for_scope (auth_state a) sc = Some l \<Longrightarrow> claim_neutral l (f l)"
  shows "framed a a'"
  using assms by (simp add: framed_def frame_neutral auth_inv_mut)

lemma framed_detach: "framed a (snd (detach_like_cpp a))" "framed a (snd (detach_if_stamp_like_cpp a x))"
  by (auto simp: framed_def detach_like_cpp_def detach_if_stamp_like_cpp_def detach_state_def Let_def
      frame_refl close_inv intro!: close_frame)

lemma framed_retire: "framed a (snd (retire_like_cpp a))"
proof -
  let ?st = "auth_state a"
  let ?close = "\<lambda>g. finalize_closed_state_if_drained (retain_only_persisting_reservations
      (?st\<lparr>generation := g, retired := True\<rparr>))"
  have "frame {} ?st (?close g)" "g \<noteq> 0 \<Longrightarrow> auth_inv (?close g)" if "auth_inv ?st" for g
    using close_frame [OF that refl, where g = g and d = "detached ?st" and q = "quarantined ?st"]
      close_inv [OF that, where g = g and d = "detached ?st" and q = "quarantined ?st"] by simp_all
  then show ?thesis by (auto simp: framed_def retire_like_cpp_def Let_def frame_refl)
qed

lemma framed_install:
  "framed a (snd (initialize_like_cpp a sh pe))"
  "framed a (snd (replace_retired_generation_like_cpp a g sh pe))"
  "framed a (snd (replace_like_cpp a sh pe))"
  by (auto simp: framed_def initialize_like_cpp_def initialize_pristine_like_cpp_def
      replace_retired_generation_like_cpp_def replace_like_cpp_def Let_def frame_refl
      split: prod.splits dest: install_frame intro: install_inv)

lemma framed_pools:
  "framed a (snd (initialize_shared_like_cpp a l))"
  "framed a (snd (upsert_personal_like_cpp a p l r))"
  unfolding framed_def
  using initialize_shared_frame [of a l] initialize_shared_inv [of a l]
    upsert_personal_frame [of a p l r] upsert_personal_inv [of a p l r]
  by (metis prod.collapse)+

text \<open>A rejected opening restores the pool exactly.\<close>

lemma restore_pool:
  "loot_for_scope (auth_state a) sc = Some l \<Longrightarrow>
     a\<lparr>auth_state := loot_for_scope_mut sc (\<lambda>_. l) (auth_state a)\<rparr> = a"
  by (subst loot_for_scope_mut_id) auto

lemma restore_looted_by_player: "\<not> looted_by_player l \<Longrightarrow> l\<lparr>looted_by_player := False\<rparr> = l"
  by (cases l) simp

lemma filter_neq_id: "p \<notin> set xs \<Longrightarrow> filter (\<lambda>v. v \<noteq> p) xs = xs"
  by (induction xs) auto

lemma undo_open:
  assumes "loot_for_scope (auth_state a) sc = Some l"
    and "undo l' = l"
  shows "a\<lparr>auth_state := loot_for_scope_mut sc undo (loot_for_scope_mut sc (\<lambda>_. l') (auth_state a))\<rparr> = a"
  using assms by (simp add: loot_for_scope_mut_mut comp_def restore_pool)

lemma open_rejected_state: "snd (try_open_view_with_snapshot_like_cpp a p (\<lambda>_ _. None)) = a"
proof (cases "selected_scope_like_cpp (auth_state a) p")
  case None
  then show ?thesis by (simp add: try_open_view_with_snapshot_like_cpp_def Let_def)
next
  case (Some sc)
  from selected_scope_pool [OF Some] obtain l where l: "loot_for_scope (auth_state a) sc = Some l" by blast
  show ?thesis
  proof (cases "scope_epoch (auth_state a) sc")
    case None
    with Some show ?thesis by (simp add: try_open_view_with_snapshot_like_cpp_def Let_def)
  next
    case (Some e)
    show ?thesis
      unfolding try_open_view_with_snapshot_like_cpp_def Let_def \<open>selected_scope_like_cpp (auth_state a) p = Some sc\<close>
        Some l option.case
      by (simp, intro impI conjI undo_open [OF l])
        (auto simp: filter_neq_id restore_looted_by_player)
  qed
qed

lemma framed_update:
  assumes "\<And>l. loot_for_scope (auth_state a) sc = Some l \<Longrightarrow> claim_neutral l (f l)"
  shows "framed a (a\<lparr>auth_state := loot_for_scope_mut sc f (auth_state a)\<rparr>)"
    and "framed a (notify_changed (a\<lparr>auth_state := loot_for_scope_mut sc f (auth_state a)\<rparr>))"
  by (simp_all add: framed_neutral [OF _ assms])

lemma framed_put:
  assumes "loot_for_scope (auth_state a) sc = Some l" "claim_neutral l l'"
  shows "framed a (a\<lparr>auth_state := loot_for_scope_mut sc (\<lambda>_. l') (auth_state a)\<rparr>)"
    and "framed a (notify_changed (a\<lparr>auth_state := loot_for_scope_mut sc (\<lambda>_. l') (auth_state a)\<rparr>))"
  using assms by (auto intro!: framed_update)

lemma framed_open: "framed a (snd (try_open_view_with_snapshot_like_cpp a p (\<lambda>_ _. if b then Some () else None)))"
proof (cases b)
  case True
  then show ?thesis
    by (simp add: try_open_view_with_snapshot_like_cpp_def Let_def framed_refl framed_put
        claim_neutral_items split: option.split)
next
  case False
  then show ?thesis by (simp add: open_rejected_state framed_refl)
qed

lemma framed_viewers:
  "framed a (snd (remove_viewer_like_cpp a p))"
  "framed a (snd (remove_viewer_if_generation_like_cpp a g p))"
  "framed a (snd (close_viewer_if_generation_like_cpp a g p))"
  "framed a (snd (clear_round_robin_if_generation_like_cpp a g p))"
  "framed a (snd (finish_item_roll_like_cpp a p g lid u w))"
  by (simp_all add: remove_viewer_like_cpp_def remove_viewer_if_generation_like_cpp_def
      close_viewer_if_generation_like_cpp_def clear_round_robin_if_generation_like_cpp_def
      finish_item_roll_like_cpp_def remove_viewer_def Let_def framed_refl framed_update framed_put
      claim_neutral_items claim_neutral_roll split: option.split)

lemmas framed_ops = framed_detach framed_retire framed_install framed_pools framed_open framed_viewers

lemma framed_step: "framed (sys_authority s) a \<Longrightarrow> sys_inv (n, s) \<Longrightarrow> sys_inv (Suc n, set_authority a s)"
  by (rule sys_inv_frame) (auto simp: framed_def)

section \<open>Handing out a lease\<close>

definition grants :: "AuthorityState \<Rightarrow> AuthorityState \<Rightarrow> LootClaimLease \<Rightarrow> bool" where
  "grants st st' L \<longleftrightarrow>
     \<not> retired st \<and> hm_get (reservations st) (lease_key L) = None \<and>
     lease_token L = next_token_field st \<and> lease_status L = LEASE_ACTIVE \<and>
     scope_epoch st (lease_scope L) = Some (lease_generation L) \<and> claimable st L \<and>
     st' = st\<lparr>next_token_field := bump_nonzero (next_token_field st),
              reservations := hm_insert (lease_key L) (lease_token L) (reservations st)\<rparr>"

lemma reserve_item_cases:
  assumes "reserve_item_once st p lid mode g = (r, st')"
  shows "(\<exists>gen token key payload. r = Acquired gen token key payload \<and>
            grants st st' (LootClaimLease_new gen token key p payload)) \<or>
         ((\<forall>gen token key payload. r \<noteq> Acquired gen token key payload) \<and> st' = st)"
  using assms
  by (auto simp: reserve_item_once_def grants_def next_token_def LootClaimLease_new_def Let_def
      claimable_def item_view_def reservation_scope_def is_looted_for_player_like_cpp_def domIff
      split: if_splits option.splits)

lemma reserve_money_cases:
  assumes "reserve_money_once st p g = (r, st')"
  shows "(\<exists>gen token key payload. r = Acquired gen token key payload \<and>
            grants st st' (LootClaimLease_new gen token key p payload)) \<or>
         ((\<forall>gen token key payload. r \<noteq> Acquired gen token key payload) \<and> st' = st)"
  using assms
  by (auto simp: reserve_money_once_def grants_def next_token_def LootClaimLease_new_def Let_def
      claimable_def coins_view_def reservation_scope_def domIff split: if_splits option.splits)

end
