(* ===== verification/LootResolve.thy ===== *)
theory LootResolve
  imports LootSteps
begin

text \<open>
  The remaining steps of \<open>run_op\<close>: handing out a lease, crossing the durable boundary,
  and resolving a lease by commit, rollback, abort or quarantine; and with them the invariant
  of every sequence of operations.
\<close>

section \<open>Handing out a lease keeps the invariant\<close>

lemma claim_views_eq:
  assumes "shared st' = shared st" "personal st' = personal st"
  shows "loot_for_scope st' = loot_for_scope st" "claimable st' = claimable st" "settled st' = settled st"
  using assms
  by (auto simp: fun_eq_iff loot_for_scope_def claimable_def settled_def item_view_def coins_view_def
      split: OwnedLootScope.splits ReservationKey.splits)

lemma sys_inv_grant:
  assumes inv: "sys_inv (n, s)" and g: "grants (sys_state s) (auth_state a) L"
  shows "sys_inv (Suc n, hand_out L (set_authority a s))"
proof (rule sys_invI)
  let ?st = "sys_state s" and ?st' = "auth_state a" and ?Ls = "sys_leases s"
  assume n: "Suc n < 2 ^ 64 - 1"
  with sys_invD [OF inv] have i: "auth_inv ?st" "tokens_ok n ?st ?Ls" "epochs_ok n ?st ?Ls" "holders_ok ?st ?Ls"
    "guards_ok ?st ?Ls (sys_guards s)" "settled_ok ?st ?Ls" "unique_ok ?Ls"
    by (auto simp: claims_inv_def)
  from g have st': "?st' = ?st\<lparr>next_token_field := bump_nonzero (next_token_field ?st),
      reservations := hm_insert (lease_key L) (lease_token L) (reservations ?st)\<rparr>"
    and nr: "\<not> retired ?st" and free: "hm_get (reservations ?st) (lease_key L) = None"
    and tok: "lease_token L = next_token_field ?st" and act: "lease_status L = LEASE_ACTIVE"
    and ep: "scope_epoch ?st (lease_scope L) = Some (lease_generation L)" and cl: "claimable ?st L"
    by (auto simp: grants_def)
  have views: "loot_for_scope ?st' = loot_for_scope ?st" "claimable ?st' = claimable ?st" "settled ?st' = settled ?st"
    by (rule claim_views_eq; simp add: st')+
  have eps: "scope_epoch ?st' = scope_epoch ?st" by (simp add: st' scope_epoch_def fun_eq_iff)
  have pool: "loot_for_scope ?st (lease_scope L) \<noteq> None"
    using cl by (auto simp: claimable_def item_view_def coins_view_def reservation_scope_def
        split: ReservationKey.splits option.splits)
  from i(2) n have "unat (next_token_field ?st) < 2 ^ 64 - 1" by (auto simp: tokens_ok_def)
  then have s1: "unat (bump_nonzero (next_token_field ?st)) = Suc (unat (next_token_field ?st))"
    by (rule unat_bump_nonzero)
  then have lt: "next_token_field ?st < next_token_field ?st'"
    by (simp add: st' word_less_nat_alt)
  have "auth_inv ?st'"
  proof (rule auth_invI)
    show "hm_get (persisting ?st') k = Some t \<Longrightarrow> hm_get (reservations ?st') k = Some t" for k t
      using inv_pers_res [OF i(1), of k t] free by (auto simp: st')
    show "hm_get (reservations ?st') k = Some t \<Longrightarrow> \<not> retired ?st' \<or> hm_get (persisting ?st') k = Some t \<Longrightarrow>
        loot_for_scope ?st' (reservation_scope k) \<noteq> None" for k t
      using inv_pool [OF i(1), of k t] pool nr unfolding views by (auto simp: st' split: if_splits)
  qed (use auth_invD [OF i(1)] nr in \<open>auto simp: st'\<close>)
  moreover have "tokens_ok (Suc n) ?st' (?Ls @ [L])"
    using i(2) tok lt s1 by (auto simp: tokens_ok_def st' dest: less_trans)
  moreover have "epochs_ok (Suc n) ?st' (?Ls @ [L])"
    using i(3) ep unfolding epochs_ok_def eps by (auto simp: st')
  moreover have "holders_ok ?st' (?Ls @ [L])"
    using i(4) act ep cl nr unfolding holders_ok_def holds_key_def eps views
    by (auto simp: st' split: if_splits)
  moreover have "guards_ok ?st' (?Ls @ [L]) (sys_guards s)"
    using i(5) unfolding guards_ok_def by (fastforce simp: st' nth_append split: if_splits)
  moreover have "settled_ok ?st' (?Ls @ [L])"
    using i(6) act unfolding settled_ok_def eps views by auto
  moreover have "unique_ok (?Ls @ [L])"
    using i(7) act unfolding unique_ok_def by (auto simp: nth_append less_Suc_eq)
  ultimately show "claims_inv (Suc n) (sys_state (hand_out L (set_authority a s)))
      (sys_leases (hand_out L (set_authority a s))) (sys_guards (hand_out L (set_authority a s)))"
    by (simp add: hand_out_def set_authority_def claims_inv_def)
qed


section \<open>Crossing the durable boundary\<close>

lemma guards_distinct_tokens:
  assumes "tokens_ok n st Ls" "i < length Ls" "j < length Ls" "lease_token (Ls ! i) = lease_token (Ls ! j)"
  shows "i = j"
  using assms by (auto simp: tokens_ok_def distinct_conv_nth)

lemma holder_unique:
  assumes "tokens_ok n st Ls" "holders_ok st Ls" "i < length Ls"
    and "hm_get (reservations st) (lease_key (Ls ! i)) = Some (lease_token (Ls ! i))"
    and "\<not> retired st \<or> hm_get (persisting st) (lease_key (Ls ! i)) = Some (lease_token (Ls ! i))"
  shows "holds_key st (lease_key (Ls ! i)) (lease_token (Ls ! i)) (Ls ! i)"
proof -
  from assms obtain L where L: "L \<in> set Ls" "holds_key st (lease_key (Ls ! i)) (lease_token (Ls ! i)) L"
    unfolding holders_ok_def by blast
  then obtain j where j: "j < length Ls" "L = Ls ! j" by (auto simp: in_set_conv_nth)
  with L(2) have "lease_token (Ls ! j) = lease_token (Ls ! i)" by (simp add: holds_key_def)
  from guards_distinct_tokens [OF assms(1) j(1) assms(3) this] L j show ?thesis by simp
qed

lemma claims_inv_begin:
  assumes i: "claims_inv n st Ls Gs" and x: "x < length Ls" and L: "L = Ls ! x"
    and act: "lease_status L = LEASE_ACTIVE" and np: "hm_get (persisting st) (lease_key L) \<noteq> Some (lease_token L)"
    and nr: "\<not> retired st" and res: "hm_get (reservations st) (lease_key L) = Some (lease_token L)"
  shows "claims_inv (Suc n) (st\<lparr>persisting := hm_insert (lease_key L) (lease_token L) (persisting st)\<rparr>)
           Ls (Gs @ [(x, False)])" (is "claims_inv _ ?st' _ _")
proof -
  have v: "auth_inv st" and g: "guards_ok st Ls Gs" and tk: "tokens_ok n st Ls" and h: "holders_ok st Ls"
    using i by (simp_all add: claims_inv_def)
  have views: "loot_for_scope ?st' = loot_for_scope st" "claimable ?st' = claimable st" "settled ?st' = settled st"
    by (rule claim_views_eq; simp)+
  have eps: "scope_epoch ?st' = scope_epoch st" by (simp add: scope_epoch_def fun_eq_iff)
  have none: "hm_get (persisting st) (lease_key L) = None"
    using inv_pers_res [OF v, of "lease_key L"] res np by (cases "hm_get (persisting st) (lease_key L)") auto
  have "auth_inv ?st'"
  proof (rule auth_invI)
    show "hm_get (reservations ?st') k = Some t \<Longrightarrow> \<not> retired ?st' \<or> hm_get (persisting ?st') k = Some t \<Longrightarrow>
        loot_for_scope ?st' (reservation_scope k) \<noteq> None" for k t
      using inv_pool [OF v, of k t] nr unfolding views by simp
  qed (use auth_invD [OF v] nr res in \<open>auto split: if_splits\<close>)
  moreover have "holders_ok ?st' Ls"
    using h nr unfolding holders_ok_def holds_key_def eps views by simp
  moreover have "x \<notin> fst ` set Gs"
  proof
    assume "x \<in> fst ` set Gs"
    then obtain b where "(x, b) \<in> set Gs" by auto
    with g none act L show False unfolding guards_ok_def by (cases b) fastforce+
  qed
  then have "guards_ok ?st' Ls (Gs @ [(x, False)])"
    using g x L none unfolding guards_ok_def by (fastforce split: if_splits)
  ultimately show ?thesis
    using i unfolding claims_inv_def tokens_ok_def epochs_ok_def settled_ok_def eps views by auto
qed


section \<open>Resolving a lease\<close>

lemma excludes_sym: "excludes L M \<Longrightarrow> excludes M L"
  by (auto simp: excludes_def split: ReservationKey.splits)

lemma claimable_excludes:
  assumes "claimable st L" "settled st M"
  shows "excludes L M"
  using assms
  by (auto simp: claimable_def settled_def excludes_def split: ReservationKey.splits option.splits
      if_splits prod.splits)

lemma unique_ok_commit:
  assumes u: "unique_ok Ls" and x: "x < length Ls" and s: "settled_ok st Ls"
    and c: "claimable st (Ls ! x)" "scope_epoch st (lease_scope (Ls ! x)) = Some (lease_generation (Ls ! x))"
  shows "unique_ok (Ls[x := (Ls ! x)\<lparr>lease_status := LEASE_COMMITTED\<rparr>])"
proof -
  have new: "excludes (Ls ! x) (Ls ! j)" if "j < length Ls" "lease_status (Ls ! j) = LEASE_COMMITTED" for j
  proof (cases "lease_key (Ls ! x) = lease_key (Ls ! j) \<and> lease_generation (Ls ! x) = lease_generation (Ls ! j)")
    case True
    with that s c(2) have "settled st (Ls ! j)" by (simp add: settled_ok_def)
    with c(1) show ?thesis by (rule claimable_excludes)
  qed (auto simp: excludes_def)
  have upd: "excludes (L\<lparr>lease_status := r\<rparr>) M \<longleftrightarrow> excludes L M" "excludes L (M\<lparr>lease_status := r\<rparr>) \<longleftrightarrow> excludes L M" for L M r
    by (simp_all add: excludes_def split: ReservationKey.split)
  show ?thesis unfolding unique_ok_def
    using u new excludes_sym [OF new] x by (auto simp: nth_list_update upd unique_ok_def)
qed

lemma frame_persisting_iff:
  "frame K st st' \<Longrightarrow> hm_get (persisting st') k = Some t \<longleftrightarrow> hm_get (persisting st) k = Some t \<and> k \<notin> K"
  using frame_persisting frame_keeps frame_resolved by (metis option.distinct(1))

lemma unresolved_persisting:
  assumes "guards_ok st Ls Gs" "tokens_ok n st Ls" "x < length Ls" "(x, False) \<notin> set Gs"
  shows "hm_get (persisting st) (lease_key (Ls ! x)) \<noteq> Some (lease_token (Ls ! x))"
proof
  assume "hm_get (persisting st) (lease_key (Ls ! x)) = Some (lease_token (Ls ! x))"
  with assms(1) obtain i where "(i, False) \<in> set Gs" "i < length Ls" "lease_token (Ls ! i) = lease_token (Ls ! x)"
    unfolding guards_ok_def by blast
  with guards_distinct_tokens [OF assms(2) this(2) assms(3)] assms(4) show False by blast
qed

lemma guards_ok_untouched:
  assumes f: "frame K st st'" and g: "guards_ok st Ls Gs" and tk: "tokens_ok n st Ls" and v: "auth_inv st"
    and x: "x < length Ls" "(x, False) \<notin> set Gs" and r: "r \<noteq> LEASE_ACTIVE"
    and K: "K \<subseteq> {lease_key (Ls ! x)}"
    and own: "K \<noteq> {} \<Longrightarrow> hm_get (reservations st) (lease_key (Ls ! x)) = Some (lease_token (Ls ! x))"
  shows "guards_ok st' (Ls[x := (Ls ! x)\<lparr>lease_status := r\<rparr>]) Gs"
proof -
  have "k \<notin> K" if "hm_get (persisting st) k = Some t" for k t
  proof
    assume "k \<in> K"
    with K own have "k = lease_key (Ls ! x)" "hm_get (reservations st) k = Some (lease_token (Ls ! x))" by auto
    with unresolved_persisting [OF g tk x] inv_pers_res [OF v that] that show False by simp
  qed
  then have "hm_get (persisting st') k = hm_get (persisting st) k" for k
    using frame_persisting_iff [OF f, of k] by (metis option.exhaust)
  then have eq: "hm_get (persisting st') = hm_get (persisting st)" by (rule ext)
  show ?thesis using g x r unfolding guards_ok_def eq
    by (fastforce simp: nth_list_update split: if_splits)
qed

lemma guards_ok_resolved:
  assumes f: "frame {lease_key (Ls ! x)} st st'" and g: "guards_ok st Ls Gs" and tk: "tokens_ok n st Ls"
    and i: "i < length Gs" "Gs ! i = (x, False)" and r: "r \<noteq> LEASE_ACTIVE"
  shows "guards_ok st' (Ls[x := (Ls ! x)\<lparr>lease_status := r\<rparr>]) (Gs[i := (x, True)])" (is "guards_ok _ ?Ls ?Gs")
proof -
  from i have mem: "(x, False) \<in> set Gs" by (metis nth_mem)
  with g have x: "x < length Ls" and d: "distinct (map fst Gs)"
    and px: "hm_get (persisting st) (lease_key (Ls ! x)) = Some (lease_token (Ls ! x))"
    by (auto simp: guards_ok_def)
  have other: "j \<noteq> x" if "(j, b) \<in> set ?Gs" "(j, b) \<noteq> (x, True)" for j b
  proof -
    from that obtain m where m: "m < length Gs" "?Gs ! m = (j, b)" by (auto simp: in_set_conv_nth)
    with that i have "m \<noteq> i" "Gs ! m = (j, b)" by (auto simp: nth_list_update split: if_splits)
    with m i nth_eq_iff_index_eq [OF d, of m i] have "fst (Gs ! m) \<noteq> fst (Gs ! i)" by simp
    with \<open>Gs ! m = (j, b)\<close> i show ?thesis by simp
  qed
  have old: "(j, b) \<in> set Gs" if "(j, b) \<in> set ?Gs" "(j, b) \<noteq> (x, True)" for j b
    using that set_update_subset_insert [of Gs i "(x, True)"] by auto
  have "j < length ?Ls \<and> (if b then lease_status (?Ls ! j) \<noteq> LEASE_ACTIVE
      else hm_get (persisting st') (lease_key (?Ls ! j)) = Some (lease_token (?Ls ! j)))"
    if jb: "(j, b) \<in> set ?Gs" for j b
  proof (cases "(j, b) = (x, True)")
    case True
    with x r show ?thesis by simp
  next
    case False
    note ne = other [OF jb False] and o = old [OF jb False]
    from g o have jl: "j < length Ls" by (auto simp: guards_ok_def)
    have "lease_key (Ls ! j) \<noteq> lease_key (Ls ! x)" if "hm_get (persisting st) (lease_key (Ls ! j)) = Some (lease_token (Ls ! j))"
      using guards_distinct_tokens [OF tk jl x] ne that px by auto
    with g o ne jl show ?thesis
      unfolding frame_persisting_iff [OF f] by (auto simp: guards_ok_def split: if_splits)
  qed
  moreover have "\<exists>j. (j, False) \<in> set ?Gs \<and> lease_key (?Ls ! j) = k \<and> lease_token (?Ls ! j) = t"
    if kt: "hm_get (persisting st') k = Some t" for k t
  proof -
    from kt have k: "hm_get (persisting st) k = Some t" "k \<noteq> lease_key (Ls ! x)"
      unfolding frame_persisting_iff [OF f] by auto
    with g obtain j where j: "(j, False) \<in> set Gs" "lease_key (Ls ! j) = k" "lease_token (Ls ! j) = t"
      unfolding guards_ok_def by blast
    with k have ne: "j \<noteq> x" by auto
    from j(1) obtain m where m: "m < length Gs" "Gs ! m = (j, False)" by (auto simp: in_set_conv_nth)
    with ne i have "m \<noteq> i" by auto
    with m have "(j, False) \<in> set ?Gs" by (metis length_list_update nth_list_update_neq nth_mem)
    with j ne show ?thesis by auto
  qed
  moreover have "map fst ?Gs = map fst Gs" using i by (simp add: map_update list_update_same_conv)
  then have "distinct (map fst ?Gs)" using d by simp
  ultimately show ?thesis unfolding guards_ok_def by blast
qed


text \<open>
  One lemma for every resolution of lease \<open>x\<close>: either it held its key and the step released
  it (\<open>K\<close> is its key), or it held nothing live and the authority did not change for others.
\<close>

lemma claims_inv_resolve:
  assumes i: "claims_inv n st Ls Gs" and n: "Suc n < 2 ^ 64 - 1" and x: "x < length Ls"
    and f: "frame K st st'" and v': "auth_inv st'"
    and loser: "K = {} \<Longrightarrow> \<not> (hm_get (reservations st) (lease_key (Ls ! x)) = Some (lease_token (Ls ! x)) \<and>
        (\<not> retired st \<or> hm_get (persisting st) (lease_key (Ls ! x)) = Some (lease_token (Ls ! x))))"
    and K: "K \<subseteq> {lease_key (Ls ! x)}"
    and committed: "r = LEASE_COMMITTED \<Longrightarrow> claimable st (Ls ! x) \<and>
        (scope_epoch st' (lease_scope (Ls ! x)) \<noteq> None \<longrightarrow> settled st' (Ls ! x)) \<and>
        scope_epoch st (lease_scope (Ls ! x)) = Some (lease_generation (Ls ! x))"
    and g': "guards_ok st' (Ls[x := (Ls ! x)\<lparr>lease_status := r\<rparr>]) Gs'"
  shows "claims_inv (Suc n) st' (Ls[x := (Ls ! x)\<lparr>lease_status := r\<rparr>]) Gs'"
proof -
  let ?L = "(Ls ! x)\<lparr>lease_status := r\<rparr>" and ?Ls = "Ls[x := (Ls ! x)\<lparr>lease_status := r\<rparr>]"
  have c: "auth_inv st" "tokens_ok n st Ls" "epochs_ok n st Ls" "holders_ok st Ls" "guards_ok st Ls Gs"
    "settled_ok st Ls" "unique_ok Ls"
    using i by (simp_all add: claims_inv_def)
  have tk: "map lease_token ?Ls = map lease_token Ls"
    using x by (simp add: map_update list_update_same_conv)
  have sub: "L \<in> set ?Ls \<Longrightarrow> L = ?L \<or> L \<in> set Ls" for L
    using set_update_subset_insert [of Ls x ?L] by auto
  have same: "\<exists>M\<in>set Ls. lease_token M = lease_token L \<and> lease_generation M = lease_generation L"
    if "L \<in> set ?Ls" for L
    using sub [OF that] nth_mem [OF x] by auto
  have "tokens_ok (Suc n) st' ?Ls"
    using tokens_ok_frame [OF f c(2)] same unfolding tokens_ok_def tk by metis
  moreover have "epochs_ok (Suc n) st' ?Ls"
    using epochs_ok_frame [OF f c(3) n] same unfolding epochs_ok_def by metis
  moreover have "holders_ok st' ?Ls"
  proof (rule holders_ok_frame [OF f c(4) c(3)])
    fix L assume L: "L \<in> set Ls" "lease_key L \<notin> K" "hm_get (reservations st) (lease_key L) = Some (lease_token L)"
      "\<not> retired st \<or> hm_get (persisting st) (lease_key L) = Some (lease_token L)"
    then have "L \<noteq> Ls ! x" using loser K by auto
    with L(1) show "L \<in> set ?Ls" by (metis in_set_conv_nth length_list_update nth_list_update_neq)
  qed
  moreover have "settled_ok st' ?Ls"
  proof -
    have "settled st' ?L \<longleftrightarrow> settled st' (Ls ! x)"
      by (simp add: settled_def split: ReservationKey.split option.split prod.split)
    then show ?thesis
      using settled_ok_frame [OF f c(6) c(3)] committed sub unfolding settled_ok_def by fastforce
  qed
  moreover have "unique_ok ?Ls"
  proof (cases "r = LEASE_COMMITTED")
    case True
    with unique_ok_commit [OF c(7) x c(6)] committed show ?thesis by simp
  next
    case False
    have upd: "excludes (L\<lparr>lease_status := r\<rparr>) M \<longleftrightarrow> excludes L M" for L M
      by (simp add: excludes_def split: ReservationKey.split)
    show ?thesis using c(7) False x by (auto simp: unique_ok_def nth_list_update)
  qed
  ultimately show ?thesis using v' g' by (simp add: claims_inv_def)
qed

section \<open>The states after a resolution\<close>

lemma claims_finalize:
  assumes "scope_epoch (finalize_closed_state_if_drained st) sc \<noteq> None"
  shows "finalize_closed_state_if_drained st = st"
  using assms by (auto simp: finalize_closed_state_if_drained_def scope_epoch_def)

lemma release_frame:
  assumes v: "auth_inv st"
    and st1: "scope_epochs st1 = scope_epochs st" "reservations st1 = reservations st"
      "persisting st1 = persisting st" "next_scope_epoch_field st1 = next_scope_epoch_field st"
      "next_token_field st1 = next_token_field st" "retired st \<Longrightarrow> retired st1"
    and views: "\<And>L. settled st L \<Longrightarrow> settled st1 L"
      "\<And>L. lease_key L \<noteq> k \<Longrightarrow> claimable st L \<Longrightarrow> claimable st1 L"
    and st': "st' = finalize_closed_state_if_drained (st1\<lparr>reservations := hm_remove k (reservations st1),
        persisting := hm_remove k (persisting st1)\<rparr>)"
  shows "frame {k} st st'"
proof -
  let ?st2 = "st1\<lparr>reservations := hm_remove k (reservations st1), persisting := hm_remove k (persisting st1)\<rparr>"
  have cv: "claimable ?st2 = claimable st1" "settled ?st2 = settled st1"
    by (rule claim_views_eq; simp)+
  have eq: "st' = ?st2" if "scope_epoch st' sc \<noteq> None" for sc
    using claims_finalize that st' by metis
  have ep2: "scope_epoch ?st2 = scope_epoch st" by (simp add: scope_epoch_def st1 fun_eq_iff)
  have p': "persisting st' = hm_remove k (persisting st)" by (simp add: st' st1)
  have r': "hm_get (reservations st') k' = Some t \<Longrightarrow> hm_get (reservations st) k' = Some t \<and> k' \<noteq> k \<and> st' = ?st2" for k' t
    by (auto simp: st' finalize_closed_state_if_drained_def st1 split: if_splits)
  have rk: "hm_get (reservations st') k = None" using r' [of k] by (cases "hm_get (reservations st') k") auto
  have keep: "st' = ?st2" if "hm_get (persisting st') k' = Some t" for k' t
  proof -
    have "persisting st' \<noteq> []" using that by auto
    then have "persisting ?st2 \<noteq> []" by (simp add: p' st1)
    then show ?thesis unfolding st' by (intro finalize_open disjI2)
  qed
  show ?thesis
    unfolding frame_def
  proof (intro conjI allI impI ballI)
    fix L assume L: "scope_epoch st' (lease_scope L) = Some (lease_generation L)"
    then have "st' = ?st2" by (intro eq) auto
    then show "scope_epoch st (lease_scope L) = Some (lease_generation L)"
      "settled st L \<Longrightarrow> settled st' L" "lease_key L \<notin> {k} \<Longrightarrow> claimable st L \<Longrightarrow> claimable st' L"
      using L views ep2 cv by auto
  next
    fix sc e assume "scope_epoch st' sc = Some e"
    then show "scope_epoch st sc = Some e \<or> e = next_scope_epoch_field st \<and> next_scope_epoch_field st' = bump_nonzero e"
      using eq [of sc] ep2 by auto
  next
    fix k' t assume a: "hm_get (persisting st) k' = Some t" "k' \<notin> {k}"
    then show p: "hm_get (persisting st') k' = Some t" by (simp add: p')
    show "scope_epoch st' (reservation_scope k') = scope_epoch st (reservation_scope k')"
      using keep [OF p] ep2 by simp
  next
    fix k' t assume a: "hm_get (reservations st') k' = Some t" "\<not> retired st'"
    show "\<not> retired st" using a(2) st1(6) by (auto simp: st')
    show "scope_epoch st' (reservation_scope k') = scope_epoch st (reservation_scope k')"
      using r' [OF a(1)] ep2 by simp
  qed (use r' rk in \<open>auto simp: p' split: if_splits\<close>, simp_all add: st' st1)
qed


lemma release_inv:
  assumes v: "auth_inv st"
    and st1: "reservations st1 = reservations st" "persisting st1 = persisting st" "generation st1 = generation st"
      "detached st1 = detached st" "quarantined st1 \<Longrightarrow> retired st1" "retired st \<Longrightarrow> retired st1"
      "\<And>sc. loot_for_scope st sc \<noteq> None \<Longrightarrow> loot_for_scope st1 sc \<noteq> None"
  shows "auth_inv (finalize_closed_state_if_drained (st1\<lparr>reservations := hm_remove k (reservations st1),
        persisting := hm_remove k (persisting st1)\<rparr>))" (is "auth_inv (finalize_closed_state_if_drained ?st2)")
proof (rule auth_inv_finalize)
  have pool: "loot_for_scope ?st2 = loot_for_scope st1" by (rule claim_views_eq; simp)
  show "hm_get (reservations ?st2) k' = Some t \<Longrightarrow> \<not> retired ?st2 \<or> hm_get (persisting ?st2) k' = Some t \<Longrightarrow>
      loot_for_scope ?st2 (reservation_scope k') \<noteq> None" for k' t
    unfolding pool using inv_pool [OF v, of k' t] st1 by (auto split: if_splits)
qed (use auth_invD [OF v] st1 in \<open>auto split: if_splits\<close>)

text \<open>What marking an item does to the pool.\<close>

lemma list_update_position:
  "position p xs = Some i \<Longrightarrow> xs[i := f (xs ! i)] = update_first p f xs"
  by (induction xs arbitrary: i) (auto split: if_splits)

lemma mark_list_id [simp]:
  "loot_list_id (mark_looted_for_player_like_cpp p e) = loot_list_id e"
  "freeforall (entry_flags (mark_looted_for_player_like_cpp p e)) = freeforall (entry_flags e)"
  by (simp_all add: mark_looted_for_player_like_cpp_def)

lemma mark_item_spec:
  assumes e: "item_like_cpp loot lid = Some e" and nl: "\<not> is_looted_for_player_like_cpp e p"
  obtains loot1 where "mark_item_looted_for_player_like_cpp lid p loot = (True, loot1)"
    and "\<And>lid'. item_like_cpp loot1 lid' =
           (if lid' = lid then Some (mark_looted_for_player_like_cpp p e) else item_like_cpp loot lid')"
    and "coins loot1 = coins loot" "unlooted_count loot1 = saturating_sub (unlooted_count loot) 1"
proof -
  let ?P = "\<lambda>e. loot_list_id e = lid"
  from e obtain i where i: "position ?P (loot_items loot) = Some i" "loot_items loot ! i = e"
    unfolding item_like_cpp_def by (blast dest: find_position)
  define loot1 where "loot1 = snd (mark_item_looted_for_player_like_cpp lid p loot)"
  have r: "mark_item_looted_for_player_like_cpp lid p loot = (True, loot1)"
    using i nl by (simp add: mark_item_looted_for_player_like_cpp_def loot1_def Let_def)
  have c: "coins loot1 = coins loot" "unlooted_count loot1 = saturating_sub (unlooted_count loot) 1"
    and items: "loot_items loot1 = update_first ?P (mark_looted_for_player_like_cpp p) (loot_items loot)"
    using i nl list_update_position [OF i(1), of "mark_looted_for_player_like_cpp p"]
    by (simp_all add: mark_item_looted_for_player_like_cpp_def loot1_def Let_def)
  have "item_like_cpp loot1 lid' =
      (if lid' = lid then Some (mark_looted_for_player_like_cpp p e) else item_like_cpp loot lid')" for lid'
    using e find_update_first_same [of ?P "mark_looted_for_player_like_cpp p" "loot_items loot"]
      find_update_first_other [of ?P "\<lambda>e. loot_list_id e = lid'" "mark_looted_for_player_like_cpp p" "loot_items loot"]
    unfolding item_like_cpp_def items by auto
  from that [OF r this c] show ?thesis .
qed

end
