(* ===== verification/LootClaims.thy ===== *)
theory LootClaims
  imports LootResolve
begin

text \<open>
  The effect of a commit on the pools, the preservation of the invariant by the operations
  that resolve a lease, and the properties of claims over every sequence of operations.
\<close>

section \<open>Applying a claim\<close>

lemma is_looted_mark:
  "is_looted_for_player_like_cpp (mark_looted_for_player_like_cpp p e) q \<longleftrightarrow>
     is_looted_for_player_like_cpp e q \<or> (if freeforall (entry_flags e) then q = p \<and> p \<noteq> ObjectGuid_EMPTY else True)"
  by (auto simp: mark_looted_for_player_like_cpp_def is_looted_for_player_like_cpp_def is_empty_iff)

lemma item_view_some:
  "item_view st sc lid = Some v \<longleftrightarrow>
     (\<exists>loot e. loot_for_scope st sc = Some loot \<and> item_like_cpp loot lid = Some e \<and>
        v = (freeforall (entry_flags e), taken e, ffa_looted_by e))"
  by (auto simp: item_view_def split: option.splits)

lemma claimable_item:
  "lease_key L = KeyItem k \<Longrightarrow>
     claimable st L \<longleftrightarrow> (\<exists>loot e. loot_for_scope st (key_scope k) = Some loot \<and>
        item_like_cpp loot (key_loot_list_id k) = Some e \<and> \<not> is_looted_for_player_like_cpp e (lease_player L) \<and>
        key_claimant k = (if freeforall (entry_flags e) then Some (lease_player L) else None))"
  by (auto simp: claimable_def item_view_def is_looted_for_player_like_cpp_def split: option.splits)

lemma settled_item:
  "lease_key L = KeyItem k \<Longrightarrow>
     settled st L \<longleftrightarrow> (\<exists>loot e. loot_for_scope st (key_scope k) = Some loot \<and>
        item_like_cpp loot (key_loot_list_id k) = Some e \<and>
        (is_looted_for_player_like_cpp e (lease_player L) \<or> key_claimant k = Some ObjectGuid_EMPTY) \<and>
        key_claimant k = (if freeforall (entry_flags e) then Some (lease_player L) else None))"
  by (auto simp: settled_def item_view_def is_looted_for_player_like_cpp_def split: option.splits)

lemma claimable_money:
  "lease_key L = KeyMoney sc \<Longrightarrow>
     claimable st L \<longleftrightarrow> (\<exists>loot. loot_for_scope st sc = Some loot \<and> lease_payload L = PayMoney (coins loot))"
  by (auto simp: claimable_def coins_view_def)

lemma settled_money:
  "lease_key L = KeyMoney sc \<Longrightarrow>
     settled st L \<longleftrightarrow> (\<exists>loot. loot_for_scope st sc = Some loot \<and> coins loot = 0)"
  by (auto simp: settled_def coins_view_def)

lemmas claim_iffs = claimable_item settled_item claimable_money settled_money

text \<open>
  A claimable lease is applied: its own claim is settled afterwards, no settled claim is
  reopened, and every claim on another key stays as it was.
\<close>

lemma apply_claim_item:
  assumes k: "lease_key L = KeyItem k" and c: "claimable st L"
  obtains f where "apply_claim st L = (True, loot_for_scope_mut (key_scope k) f st)"
    "settled (loot_for_scope_mut (key_scope k) f st) L"
    "\<And>M. settled st M \<Longrightarrow> settled (loot_for_scope_mut (key_scope k) f st) M"
    "\<And>M. lease_key M \<noteq> lease_key L \<Longrightarrow> claimable st M \<Longrightarrow> claimable (loot_for_scope_mut (key_scope k) f st) M"
proof -
  let ?sc = "key_scope k" and ?lid = "key_loot_list_id k" and ?p = "lease_player L"
  from c obtain loot e where l: "loot_for_scope st ?sc = Some loot" and e: "item_like_cpp loot ?lid = Some e"
    and nl: "\<not> is_looted_for_player_like_cpp e ?p"
    and cl: "key_claimant k = (if freeforall (entry_flags e) then Some ?p else None)"
    unfolding claimable_item [OF k] by blast
  obtain loot1 where m: "mark_item_looted_for_player_like_cpp ?lid ?p loot = (True, loot1)"
    and it: "\<And>lid'. item_like_cpp loot1 lid' =
         (if lid' = ?lid then Some (mark_looted_for_player_like_cpp ?p e) else item_like_cpp loot lid')"
    and co: "coins loot1 = coins loot"
    using mark_item_spec [OF e nl] by blast
  let ?st1 = "loot_for_scope_mut ?sc (\<lambda>_. loot1) st"
  have ap: "apply_claim st L = (True, ?st1)" using k l m by (simp add: apply_claim_def)
  have own: "settled ?st1 L"
    using k l e cl it by (auto simp: settled_item is_looted_mark split: if_splits)
  have mono: "settled ?st1 M" if s: "settled st M" for M
  proof (cases "lease_key M")
    case (KeyItem k')
    with s show ?thesis using l e it by (auto simp: settled_item is_looted_mark split: if_splits)
  next
    case (KeyMoney sc)
    with s show ?thesis using l co by (auto simp: settled_money)
  qed
  have other: "claimable ?st1 M" if s: "claimable st M" and ne: "lease_key M \<noteq> lease_key L" for M
  proof (cases "lease_key M")
    case (KeyItem k')
    show ?thesis
    proof (cases "key_scope k' = ?sc \<and> key_loot_list_id k' = ?lid")
      case True
      with s KeyItem l e have c': "\<not> is_looted_for_player_like_cpp e (lease_player M)"
        "key_claimant k' = (if freeforall (entry_flags e) then Some (lease_player M) else None)"
        by (auto simp: claimable_item)
      with ne KeyItem k True cl have "freeforall (entry_flags e) \<and> lease_player M \<noteq> ?p"
        by (cases k; cases k') (auto split: if_splits)
      with c' True KeyItem l it show ?thesis by (auto simp: claimable_item is_looted_mark)
    next
      case False
      with s KeyItem show ?thesis using l it by (auto simp: claimable_item split: if_splits)
    qed
  next
    case (KeyMoney sc)
    with s show ?thesis using l co by (auto simp: claimable_money)
  qed
  show ?thesis using that [of "\<lambda>_. loot1"] ap own mono other by blast
qed

lemma apply_claim_money:
  assumes k: "lease_key L = KeyMoney sc" and c: "claimable st L"
  obtains f where "apply_claim st L = (True, loot_for_scope_mut sc f st)"
    "settled (loot_for_scope_mut sc f st) L"
    "\<And>M. settled st M \<Longrightarrow> settled (loot_for_scope_mut sc f st) M"
    "\<And>M. lease_key M \<noteq> lease_key L \<Longrightarrow> claimable st M \<Longrightarrow> claimable (loot_for_scope_mut sc f st) M"
proof -
  let ?st1 = "loot_for_scope_mut sc (coins_update (\<lambda>_. 0)) st"
  from c obtain loot where l: "loot_for_scope st sc = Some loot" unfolding claimable_money [OF k] by blast
  have it: "item_like_cpp (loot\<lparr>coins := 0\<rparr>) lid = item_like_cpp loot lid" for lid
    by (simp add: item_like_cpp_def)
  have ap: "apply_claim st L = (True, ?st1)" using k l by (simp add: apply_claim_def)
  have own: "settled ?st1 L" using k l by (simp add: settled_money)
  have mono: "settled ?st1 M" if "settled st M" for M
    by (cases "lease_key M") (use that l it in \<open>auto simp: settled_item settled_money\<close>)
  have other: "claimable ?st1 M" if "claimable st M" "lease_key M \<noteq> lease_key L" for M
    by (cases "lease_key M") (use that l it k in \<open>auto simp: claimable_item claimable_money\<close>)
  show ?thesis using that [of "coins_update (\<lambda>_. 0)"] ap own mono other by blast
qed

lemma apply_claim_spec:
  assumes "claimable st L"
  obtains sc f where "apply_claim st L = (True, loot_for_scope_mut sc f st)"
    "settled (loot_for_scope_mut sc f st) L"
    "\<And>M. settled st M \<Longrightarrow> settled (loot_for_scope_mut sc f st) M"
    "\<And>M. lease_key M \<noteq> lease_key L \<Longrightarrow> claimable st M \<Longrightarrow> claimable (loot_for_scope_mut sc f st) M"
proof (cases "lease_key L")
  case (KeyItem k)
  from apply_claim_item [OF KeyItem assms] that show ?thesis by metis
next
  case (KeyMoney sc)
  from apply_claim_money [OF KeyMoney assms] that show ?thesis by metis
qed

section \<open>Commit\<close>

text \<open>The state after a holder's key is released over the pools of \<open>st1\<close>.\<close>

definition released :: "ReservationKey \<Rightarrow> AuthorityState \<Rightarrow> AuthorityState" where
  "released k st1 = finalize_closed_state_if_drained (st1\<lparr>reservations := hm_remove k (reservations st1),
     persisting := hm_remove k (persisting st1)\<rparr>)"

lemma released_abort:
  "released k st = finalize_closed_state_if_drained (st\<lparr>persisting := hm_remove k (persisting st),
     reservations := hm_remove k (reservations st)\<rparr>)"
  by (cases st) (simp add: released_def)

lemma released_quarantine:
  "released k (st\<lparr>retired := True, quarantined := True\<rparr>) =
     finalize_closed_state_if_drained (st\<lparr>persisting := hm_remove k (persisting st),
       reservations := hm_remove k (reservations st), retired := True, quarantined := True\<rparr>)"
  by (cases st) (simp add: released_def)

lemma commit_holder:
  assumes act: "lease_status L = LEASE_ACTIVE"
    and h: "holds_key (auth_state a) (lease_key L) (lease_token L) L"
    and res: "hm_get (reservations (auth_state a)) (lease_key L) = Some (lease_token L)"
    and live: "hm_get (persisting (auth_state a)) (lease_key L) = Some (lease_token L) \<and> owner \<or>
      hm_get (persisting (auth_state a)) (lease_key L) \<noteq> Some (lease_token L) \<and> \<not> retired (auth_state a)"
    and ap: "apply_claim (auth_state a) L = (True, st1)"
    and e1: "scope_epochs st1 = scope_epochs (auth_state a)"
  shows "commit_claim_with_snapshot a L owner =
     (Inr \<lparr>first_commit = True,
           commit_snapshot = map_option (\<lambda>loot. \<lparr>snap_generation = lease_generation L,
             snap_scope = lease_scope L, snap_loot = loot\<rparr>) (loot_for_scope st1 (lease_scope L))\<rparr>,
      notify_changed (a\<lparr>auth_state := released (lease_key L) st1\<rparr>),
      L\<lparr>lease_status := LEASE_COMMITTED\<rparr>)"
proof -
  have ep: "scope_epoch (auth_state a) (lease_scope L) = Some (lease_generation L)"
    using h by (simp add: holds_key_def)
  then have ep1: "scope_epoch st1 (lease_scope L) = Some (lease_generation L)"
    using e1 by (simp add: scope_epoch_def)
  show ?thesis using act res live ap ep ep1
    by (auto simp: commit_claim_with_snapshot_def released_def Let_def)
qed


lemma claims_inv_idle: "claims_inv n st Ls Gs \<Longrightarrow> claims_inv (Suc n) st Ls Gs"
  by (auto simp: claims_inv_def tokens_ok_def epochs_ok_def)

text \<open>A lease that holds nothing live is rolled back and the authority stays as it is.\<close>

lemma claims_inv_loser:
  assumes i: "claims_inv n st Ls Gs" and n: "Suc n < 2 ^ 64 - 1" and x: "x < length Ls"
    and loser: "\<not> (hm_get (reservations st) (lease_key (Ls ! x)) = Some (lease_token (Ls ! x)) \<and>
        (\<not> retired st \<or> hm_get (persisting st) (lease_key (Ls ! x)) = Some (lease_token (Ls ! x))))"
  shows "claims_inv (Suc n) st (Ls[x := (Ls ! x)\<lparr>lease_status := LEASE_ROLLED_BACK\<rparr>]) Gs"
proof -
  have c: "auth_inv st" "tokens_ok n st Ls" "guards_ok st Ls Gs" using i by (simp_all add: claims_inv_def)
  have "(x, False) \<notin> set Gs"
    using c(3) loser inv_pers_res [OF c(1)] by (fastforce simp: guards_ok_def)
  then have "guards_ok st (Ls[x := (Ls ! x)\<lparr>lease_status := LEASE_ROLLED_BACK\<rparr>]) Gs"
    using guards_ok_untouched [OF frame_refl c(3) c(2) c(1) x, of LEASE_ROLLED_BACK] by simp
  then show ?thesis
    by (intro claims_inv_resolve [OF i n x frame_refl c(1)]) (use loser in auto)
qed

text \<open>
  The holder's key is released: the pools \<open>st1\<close> are those of the state, with this claim
  applied if the new status is committed.
\<close>

lemma claims_inv_release:
  assumes i: "claims_inv n st Ls Gs" and n: "Suc n < 2 ^ 64 - 1" and x: "x < length Ls"
    and res: "hm_get (reservations st) (lease_key (Ls ! x)) = Some (lease_token (Ls ! x))"
    and st1: "scope_epochs st1 = scope_epochs st" "reservations st1 = reservations st"
      "persisting st1 = persisting st" "next_scope_epoch_field st1 = next_scope_epoch_field st"
      "next_token_field st1 = next_token_field st" "generation st1 = generation st" "detached st1 = detached st"
      "quarantined st1 \<Longrightarrow> retired st1" "retired st \<Longrightarrow> retired st1"
      "\<And>sc. loot_for_scope st sc \<noteq> None \<Longrightarrow> loot_for_scope st1 sc \<noteq> None"
    and views: "\<And>M. settled st M \<Longrightarrow> settled st1 M"
      "\<And>M. lease_key M \<noteq> lease_key (Ls ! x) \<Longrightarrow> claimable st M \<Longrightarrow> claimable st1 M"
    and r: "r \<noteq> LEASE_ACTIVE" "r = LEASE_COMMITTED \<Longrightarrow> claimable st (Ls ! x) \<and> settled st1 (Ls ! x) \<and>
        scope_epoch st (lease_scope (Ls ! x)) = Some (lease_generation (Ls ! x))"
    and g: "Gs' = Gs \<and> (x, False) \<notin> set Gs \<or> (\<exists>y<length Gs. Gs ! y = (x, False) \<and> Gs' = Gs[y := (x, True)])"
  shows "claims_inv (Suc n) (released (lease_key (Ls ! x)) st1) (Ls[x := (Ls ! x)\<lparr>lease_status := r\<rparr>]) Gs'"
proof -
  have c: "auth_inv st" "tokens_ok n st Ls" "guards_ok st Ls Gs" using i by (simp_all add: claims_inv_def)
  have f: "frame {lease_key (Ls ! x)} st (released (lease_key (Ls ! x)) st1)"
    by (rule release_frame [OF c(1) st1(1-5) _ _ _ released_def]) (use st1(9) views in auto)
  have v': "auth_inv (released (lease_key (Ls ! x)) st1)"
    unfolding released_def by (rule release_inv [OF c(1) st1(2,3,6,7)]) (use st1(8-10) in auto)
  have g': "guards_ok (released (lease_key (Ls ! x)) st1) (Ls[x := (Ls ! x)\<lparr>lease_status := r\<rparr>]) Gs'"
    using g guards_ok_untouched [OF f c(3) c(2) c(1) x _ r(1)] guards_ok_resolved [OF f c(3) c(2) _ _ r(1)] res by blast
  have "settled (released (lease_key (Ls ! x)) st1) (Ls ! x)"
    if s: "settled st1 (Ls ! x)" and "scope_epoch (released (lease_key (Ls ! x)) st1) sc \<noteq> None" for sc
  proof -
    have "released (lease_key (Ls ! x)) st1 = st1\<lparr>reservations := hm_remove (lease_key (Ls ! x)) (reservations st1),
        persisting := hm_remove (lease_key (Ls ! x)) (persisting st1)\<rparr>"
      using that(2) claims_finalize unfolding released_def by blast
    then show ?thesis using s claim_views_eq(3) [of "released (lease_key (Ls ! x)) st1" st1] by simp
  qed
  then show ?thesis
    by (intro claims_inv_resolve [OF i n x f v' _ _ _ g']) (use r(2) in auto)
qed

lemma claims_inv_rollback:
  assumes i: "claims_inv n (auth_state a) Ls Gs" and n: "Suc n < 2 ^ 64 - 1" and x: "x < length Ls"
    and r: "rollback_claim a (Ls ! x) = (b, a', L')"
  shows "claims_inv (Suc n) (auth_state a') (Ls[x := L']) Gs"
proof (cases "lease_status (Ls ! x) \<noteq> LEASE_ACTIVE \<or>
    hm_get (persisting (auth_state a)) (lease_key (Ls ! x)) = Some (lease_token (Ls ! x))")
  case True
  with r have "a' = a" "L' = Ls ! x" by (auto simp: rollback_claim_def Let_def split: if_splits)
  with claims_inv_idle [OF i] show ?thesis by simp
next
  case False
  let ?st = "auth_state a" and ?L = "Ls ! x"
  have v: "auth_inv ?st" and tk: "tokens_ok n ?st Ls" and h: "holders_ok ?st Ls" and gd: "guards_ok ?st Ls Gs"
    using i by (simp_all add: claims_inv_def)
  have L': "L' = ?L\<lparr>lease_status := LEASE_ROLLED_BACK\<rparr>"
    using r False by (auto simp: rollback_claim_def Let_def split: if_splits)
  show ?thesis
  proof (cases "scope_epoch ?st (lease_scope ?L) = Some (lease_generation ?L) \<and>
      hm_get (reservations ?st) (lease_key ?L) = Some (lease_token ?L)")
    case True
    have np: "hm_remove (lease_key ?L) (persisting ?st) = persisting ?st"
    proof -
      have "hm_get (persisting ?st) (lease_key ?L) = None"
        using inv_pers_res [OF v, of "lease_key ?L"] True False
        by (cases "hm_get (persisting ?st) (lease_key ?L)") auto
      then show ?thesis by (rule hm_remove_absent)
    qed
    have "auth_state a' = released (lease_key ?L) ?st"
      using r False True by (auto simp: rollback_claim_def Let_def released_def np split: if_splits)
    moreover have "(x, False) \<notin> set Gs" using gd False by (fastforce simp: guards_ok_def)
    ultimately show ?thesis unfolding L' using True inv_closed [OF v]
      by (auto intro!: claims_inv_release [OF i n x])
  next
    case loser: False
    have "auth_state a' = ?st"
      using r finalize_noop [OF v] False loser by (auto simp: rollback_claim_def Let_def split: if_splits)
    then show ?thesis unfolding L'
      using claims_inv_loser [OF i n x] holder_unique [OF tk h x] loser by (auto simp: holds_key_def)
  qed
qed

text \<open>
  A commit of a lease with no open guard, or by the owner of its guard \<open>y\<close>; the guard is
  resolved by the commit.
\<close>

lemma claims_inv_commit:
  assumes i: "claims_inv n (auth_state a) Ls Gs" and n: "Suc n < 2 ^ 64 - 1" and x: "x < length Ls"
    and r: "commit_claim_with_snapshot a (Ls ! x) owner = (res, a', L')"
    and g: "\<not> owner \<and> Gs' = Gs \<or> owner \<and> (\<exists>y<length Gs. Gs ! y = (x, b) \<and> Gs' = Gs[y := (x, True)])"
  shows "claims_inv (Suc n) (auth_state a') (Ls[x := L']) Gs' \<and> (owner \<and> \<not> b \<longrightarrow> \<not> isl res)"
proof -
  let ?st = "auth_state a" and ?L = "Ls ! x"
  have v: "auth_inv ?st" and tk: "tokens_ok n ?st Ls" and h: "holders_ok ?st Ls" and gd: "guards_ok ?st Ls Gs"
    using i by (simp_all add: claims_inv_def)
  have unresolved: "(x, False) \<in> set Gs \<longleftrightarrow> hm_get (persisting ?st) (lease_key ?L) = Some (lease_token ?L)"
    using gd unresolved_persisting [OF gd tk x] by (fastforce simp: guards_ok_def)
  have resolved: "lease_status ?L \<noteq> LEASE_ACTIVE" if "(x, True) \<in> set Gs"
    using gd that by (fastforce simp: guards_ok_def)
  have holder: "holds_key ?st (lease_key ?L) (lease_token ?L) ?L"
    if "hm_get (reservations ?st) (lease_key ?L) = Some (lease_token ?L)"
      "\<not> retired ?st \<or> hm_get (persisting ?st) (lease_key ?L) = Some (lease_token ?L)"
    by (rule holder_unique [OF tk h x that])
  have owned: "hm_get (persisting ?st) (lease_key ?L) = Some (lease_token ?L) \<and> \<not> b" if "owner" "lease_status ?L = LEASE_ACTIVE"
    using g that unresolved resolved by (cases b) (auto dest: nth_mem)
  consider (idle) "lease_status ?L \<noteq> LEASE_ACTIVE" | (loser) "lease_status ?L = LEASE_ACTIVE"
      "\<not> (hm_get (reservations ?st) (lease_key ?L) = Some (lease_token ?L) \<and>
         (\<not> retired ?st \<or> hm_get (persisting ?st) (lease_key ?L) = Some (lease_token ?L)))"
    | (holder) "lease_status ?L = LEASE_ACTIVE" "hm_get (reservations ?st) (lease_key ?L) = Some (lease_token ?L)"
      "\<not> retired ?st \<or> hm_get (persisting ?st) (lease_key ?L) = Some (lease_token ?L)"
    by blast
  then show ?thesis
  proof cases
    case idle
    then have "(x, False) \<notin> set Gs"
      using unresolved holder inv_pers_res [OF v] by (auto simp: holds_key_def)
    then have "Gs' = Gs \<and> (owner \<longrightarrow> b)"
      using g by (cases b) (auto dest: nth_mem simp: list_update_same_conv)
    moreover have "a' = a" "L' = ?L" using r idle by (cases "lease_status ?L"; simp add: commit_claim_with_snapshot_def)+
    ultimately show ?thesis using claims_inv_idle [OF i] by auto
  next
    case loser
    have np: "hm_get (persisting ?st) (lease_key ?L) \<noteq> Some (lease_token ?L)"
      using loser(2) inv_pers_res [OF v] by blast
    then have "\<not> owner" using owned loser(1) by blast
    moreover have "auth_state a' = ?st" "L' = ?L\<lparr>lease_status := LEASE_ROLLED_BACK\<rparr>"
      using r loser np by (auto simp: commit_claim_with_snapshot_def Let_def split: if_splits prod.splits)
    ultimately show ?thesis using claims_inv_loser [OF i n x loser(2)] g by simp
  next
    case holder: holder
    note hk = \<open>\<lbrakk>_; _\<rbrakk> \<Longrightarrow> holds_key _ _ _ _\<close> [OF holder(2,3)]
    show ?thesis
    proof (cases "hm_get (persisting ?st) (lease_key ?L) = Some (lease_token ?L) \<and> \<not> owner")
      case True
      then have "a' = a" "L' = ?L" using r holder(1) by (auto simp: commit_claim_with_snapshot_def Let_def)
      with True g claims_inv_idle [OF i] show ?thesis by simp
    next
      case False
      from hk have cl: "claimable ?st ?L"
        and ep: "scope_epoch ?st (lease_scope ?L) = Some (lease_generation ?L)" by (auto simp: holds_key_def)
      obtain sc f where ap: "apply_claim ?st ?L = (True, loot_for_scope_mut sc f ?st)"
        and own: "settled (loot_for_scope_mut sc f ?st) ?L"
        and mono: "\<And>M. settled ?st M \<Longrightarrow> settled (loot_for_scope_mut sc f ?st) M"
        and other: "\<And>M. lease_key M \<noteq> lease_key ?L \<Longrightarrow> claimable ?st M \<Longrightarrow> claimable (loot_for_scope_mut sc f ?st) M"
        using apply_claim_spec [OF cl] by blast
      have live: "hm_get (persisting ?st) (lease_key ?L) = Some (lease_token ?L) \<and> owner \<or>
          hm_get (persisting ?st) (lease_key ?L) \<noteq> Some (lease_token ?L) \<and> \<not> retired ?st"
        using False holder(3) by blast
      have out: "\<not> isl res" "auth_state a' = released (lease_key ?L) (loot_for_scope_mut sc f ?st)"
        "L' = ?L\<lparr>lease_status := LEASE_COMMITTED\<rparr>"
        using commit_holder [OF holder(1) hk holder(2) live ap] r by auto
      have gg: "Gs' = Gs \<and> (x, False) \<notin> set Gs \<or> (\<exists>y<length Gs. Gs ! y = (x, False) \<and> Gs' = Gs[y := (x, True)])"
        using g owned holder(1) False unresolved by (cases b) auto
      have "claims_inv (Suc n) (released (lease_key ?L) (loot_for_scope_mut sc f ?st))
          (Ls[x := ?L\<lparr>lease_status := LEASE_COMMITTED\<rparr>]) Gs'"
        by (rule claims_inv_release [OF i n x holder(2) _ _ _ _ _ _ _ _ _ _ mono other _ _ gg])
          (use inv_closed [OF v] cl own ep in auto)
      with out show ?thesis by simp
    qed
  qed
qed


section \<open>Guards\<close>

lemma claims_inv_begin_step:
  assumes i: "claims_inv n (auth_state a) Ls Gs" and n: "Suc n < 2 ^ 64 - 1" and x: "x < length Ls"
    and r: "begin_claim_persistence a (Ls ! x) = (res, a', L')"
  shows "claims_inv (Suc n) (auth_state a') (Ls[x := L']) (if isl res then Gs else Gs @ [(x, False)])"
proof -
  let ?st = "auth_state a" and ?L = "Ls ! x"
  have v: "auth_inv ?st" and tk: "tokens_ok n ?st Ls" and h: "holders_ok ?st Ls"
    using i by (simp_all add: claims_inv_def)
  consider (idle) "lease_status ?L \<noteq> LEASE_ACTIVE \<or>
      hm_get (persisting ?st) (lease_key ?L) = Some (lease_token ?L)"
    | (loser) "lease_status ?L = LEASE_ACTIVE" "hm_get (persisting ?st) (lease_key ?L) \<noteq> Some (lease_token ?L)"
      "retired ?st \<or> hm_get (reservations ?st) (lease_key ?L) \<noteq> Some (lease_token ?L)"
    | (begins) "lease_status ?L = LEASE_ACTIVE" "hm_get (persisting ?st) (lease_key ?L) \<noteq> Some (lease_token ?L)"
      "\<not> retired ?st" "hm_get (reservations ?st) (lease_key ?L) = Some (lease_token ?L)"
    by blast
  then show ?thesis
  proof cases
    case idle
    then have "a' = a" "L' = ?L" "isl res"
      using r by (cases "lease_status ?L"; auto simp: begin_claim_persistence_def Let_def)+
    then show ?thesis using claims_inv_idle [OF i] by simp
  next
    case loser
    then have "a' = a" "L' = ?L\<lparr>lease_status := LEASE_ROLLED_BACK\<rparr>" "isl res"
      using r by (auto simp: begin_claim_persistence_def Let_def split: if_splits)
    then show ?thesis using claims_inv_loser [OF i n x] loser by auto
  next
    case begins
    have "holds_key ?st (lease_key ?L) (lease_token ?L) ?L"
      using holder_unique [OF tk h x begins(4)] begins(3) by blast
    then have "auth_state a' = ?st\<lparr>persisting := hm_insert (lease_key ?L) (lease_token ?L) (persisting ?st)\<rparr>"
      "L' = ?L" "\<not> isl res"
      using r begins by (auto simp: begin_claim_persistence_def Let_def holds_key_def)
    then show ?thesis using claims_inv_begin [OF i x refl begins(1,2,3,4)] by simp
  qed
qed

text \<open>The owner of an unresolved guard \<open>y\<close> aborts or quarantines: the key is released.\<close>

lemma claims_inv_guard:
  assumes i: "claims_inv n (auth_state a) Ls Gs" and n: "Suc n < 2 ^ 64 - 1"
    and y: "y < length Gs" "Gs ! y = (x, False)"
  shows "abort_claim_persistence a (Ls ! x) = (q, a', L') \<Longrightarrow>
      q \<and> claims_inv (Suc n) (auth_state a') (Ls[x := L']) (Gs[y := (x, True)])"
    and "quarantine_claim_persistence_commit_unknown a (Ls ! x) = (q, a', L') \<Longrightarrow>
      q \<and> claims_inv (Suc n) (auth_state a') (Ls[x := L']) (Gs[y := (x, True)])"
proof -
  let ?st = "auth_state a" and ?L = "Ls ! x"
  have v: "auth_inv ?st" and tk: "tokens_ok n ?st Ls" and h: "holders_ok ?st Ls" and gd: "guards_ok ?st Ls Gs"
    using i by (simp_all add: claims_inv_def)
  from gd nth_mem [OF y(1)] y(2) have x: "x < length Ls"
    and p: "hm_get (persisting ?st) (lease_key ?L) = Some (lease_token ?L)"
    by (auto simp: guards_ok_def)
  note res = inv_pers_res [OF v p]
  have act: "lease_status ?L = LEASE_ACTIVE"
    using holder_unique [OF tk h x res] p by (simp add: holds_key_def)
  have gg: "Gs[y := (x, True)] = Gs \<and> (x, False) \<notin> set Gs \<or>
      (\<exists>z<length Gs. Gs ! z = (x, False) \<and> Gs[y := (x, True)] = Gs[z := (x, True)])"
    using y by blast
  show "q \<and> claims_inv (Suc n) (auth_state a') (Ls[x := L']) (Gs[y := (x, True)])"
    if r: "abort_claim_persistence a ?L = (q, a', L')"
  proof -
    have "q" "auth_state a' = released (lease_key ?L) ?st" "L' = ?L\<lparr>lease_status := LEASE_ROLLED_BACK\<rparr>"
      using r act p by (auto simp: abort_claim_persistence_def released_abort Let_def)
    then show ?thesis
      using claims_inv_release [OF i n x res refl refl refl refl refl refl refl _ _ _ _ _ _ _ gg, of LEASE_ROLLED_BACK]
        inv_closed [OF v] by simp
  qed
  show "q \<and> claims_inv (Suc n) (auth_state a') (Ls[x := L']) (Gs[y := (x, True)])"
    if r: "quarantine_claim_persistence_commit_unknown a ?L = (q, a', L')"
  proof -
    let ?st1 = "?st\<lparr>retired := True, quarantined := True\<rparr>"
    have cv: "loot_for_scope ?st1 = loot_for_scope ?st" "claimable ?st1 = claimable ?st" "settled ?st1 = settled ?st"
      by (rule claim_views_eq; simp)+
    have "q" "auth_state a' = released (lease_key ?L) ?st1" "L' = ?L\<lparr>lease_status := LEASE_QUARANTINED\<rparr>"
      using r act p by (auto simp: quarantine_claim_persistence_commit_unknown_def released_quarantine Let_def)
    moreover have "claims_inv (Suc n) (released (lease_key ?L) ?st1) (Ls[x := ?L\<lparr>lease_status := LEASE_QUARANTINED\<rparr>])
        (Gs[y := (x, True)])"
      by (rule claims_inv_release [OF i n x res _ _ _ _ _ _ _ _ _ _ _ _ _ _ gg]) (simp_all add: cv)
    ultimately show ?thesis by simp
  qed
qed


section \<open>Every sequence of operations\<close>

text \<open>A resolved guard has nothing left to do.\<close>

lemma resolved_guard:
  assumes i: "claims_inv n (auth_state a) Ls Gs" and y: "y < length Gs" "Gs ! y = (x, True)"
  shows "lease_status (Ls ! x) \<noteq> LEASE_ACTIVE" "x < length Ls" "Gs[y := (x, True)] = Gs"
  using i nth_mem [OF y(1)] y by (auto simp: claims_inv_def guards_ok_def list_update_same_conv)

lemma sys_inv_lease:
  assumes "sys_inv (n, s)"
    and "\<And>Gs. Suc n < 2 ^ 64 - 1 \<Longrightarrow> claims_inv n (sys_state s) (sys_leases s) (sys_guards s) \<Longrightarrow>
      claims_inv (Suc n) (sys_state t) (sys_leases t) (sys_guards t)"
  shows "sys_inv (Suc n, t)"
  using assms by (intro sys_invI) (auto dest: sys_invD)

lemma set_lease_fields [simp]:
  "sys_authority (set_lease i r s) = fst r" "sys_leases (set_lease i r s) = (sys_leases s)[i := snd r]"
  "sys_guards (set_lease i r s) = sys_guards s"
  "sys_authority (set_guard g b s) = sys_authority s" "sys_leases (set_guard g b s) = sys_leases s"
  "sys_guards (set_guard g b s) = (sys_guards s)[g := (fst (sys_guards s ! g), b)]"
  by (simp_all add: set_lease_def set_guard_def)

lemma step_reserve:
  assumes inv: "sys_inv (n, s)"
  shows "sys_inv (Suc n, run_op (OpReserveItem p lid mode g) s)" "sys_inv (Suc n, run_op (OpReserveMoney p g) s)"
proof -
  obtain r st' where q: "reserve_item_once (sys_state s) p lid mode g = (r, st')" by fastforce
  then show "sys_inv (Suc n, run_op (OpReserveItem p lid mode g) s)"
    using reserve_item_cases [OF q] framed_step [OF framed_refl inv] inv
    by (cases r) (auto simp: reserve_item_with_mode_like_cpp_def intro!: sys_inv_grant)
next
  obtain r st' where q: "reserve_money_once (sys_state s) p g = (r, st')" by fastforce
  then show "sys_inv (Suc n, run_op (OpReserveMoney p g) s)"
    using reserve_money_cases [OF q] framed_step [OF framed_refl inv] inv
    by (cases r) (auto simp: reserve_money_for_optional_generation_like_cpp_def intro!: sys_inv_grant)
qed

lemma step_commit_rollback:
  assumes inv: "sys_inv (n, s)"
  shows "sys_inv (Suc n, run_op (OpCommit x) s)" "sys_inv (Suc n, run_op (OpRollback x) s)"
    "sys_inv (Suc n, run_op (OpBeginPersistence x) s)"
proof -
  let ?a = "sys_authority s" and ?L = "sys_leases s ! x"
  obtain r1 a1 L1 where c: "commit_claim_with_snapshot ?a ?L False = (r1, a1, L1)" by (metis prod_cases3)
  obtain r2 a2 L2 where rb: "rollback_claim ?a ?L = (r2, a2, L2)" by (metis prod_cases3)
  obtain r3 a3 L3 where bg: "begin_claim_persistence ?a ?L = (r3, a3, L3)" by (metis prod_cases3)
  show "sys_inv (Suc n, run_op (OpCommit x) s)"
    by (rule sys_inv_lease [OF inv])
      (auto simp: lease_commit_with_snapshot_like_cpp_def c claims_inv_idle dest: claims_inv_commit [OF _ _ _ c])
  show "sys_inv (Suc n, run_op (OpRollback x) s)"
    by (rule sys_inv_lease [OF inv])
      (auto simp: lease_rollback_like_cpp_def rb claims_inv_idle dest: claims_inv_rollback [OF _ _ _ rb])
  show "sys_inv (Suc n, run_op (OpBeginPersistence x) s)"
    by (rule sys_inv_lease [OF inv], cases r3)
      (auto simp: begin_persistence_guard_like_cpp_def bg claims_inv_idle dest: claims_inv_begin_step [OF _ _ _ bg])
qed


lemma step_guard:
  assumes inv: "sys_inv (n, s)"
  shows "sys_inv (Suc n, run_op (OpGuardCommit y) s)" "sys_inv (Suc n, run_op (OpGuardQuarantine y) s)"
    "sys_inv (Suc n, run_op (OpGuardDrop y) s)"
proof -
  let ?a = "sys_authority s"
  obtain x b where g: "sys_guards s ! y = (x, b)" by fastforce
  let ?L = "sys_leases s ! x"
  obtain r1 a1 L1 where c: "commit_claim_with_snapshot ?a ?L True = (r1, a1, L1)" by (metis prod_cases3)
  obtain r2 a2 L2 where q: "quarantine_claim_persistence_commit_unknown ?a ?L = (r2, a2, L2)" by (metis prod_cases3)
  obtain r3 a3 L3 where d: "abort_claim_persistence ?a ?L = (r3, a3, L3)" by (metis prod_cases3)
  have resolved: "claims_inv n (sys_state s) (sys_leases s) (sys_guards s) \<Longrightarrow> y < length (sys_guards s) \<Longrightarrow> b \<Longrightarrow>
      a2 = ?a \<and> L2 = ?L \<and> \<not> r2 \<and> a3 = ?a \<and> L3 = ?L \<and> x < length (sys_leases s) \<and>
      (sys_guards s)[y := (x, True)] = sys_guards s"
    using resolved_guard [of n ?a "sys_leases s" "sys_guards s" y x] g q d
    by (auto simp: quarantine_claim_persistence_commit_unknown_def abort_claim_persistence_def Let_def)
  have x: "claims_inv n (sys_state s) (sys_leases s) (sys_guards s) \<Longrightarrow> y < length (sys_guards s) \<Longrightarrow>
      x < length (sys_leases s)"
    using g nth_mem [of y "sys_guards s"] by (fastforce simp: claims_inv_def guards_ok_def)
  show "sys_inv (Suc n, run_op (OpGuardCommit y) s)"
  proof (rule sys_inv_lease [OF inv])
    assume n: "Suc n < 2 ^ 64 - 1" and i: "claims_inv n (sys_state s) (sys_leases s) (sys_guards s)"
    show "claims_inv (Suc n) (sys_state (run_op (OpGuardCommit y) s)) (sys_leases (run_op (OpGuardCommit y) s))
        (sys_guards (run_op (OpGuardCommit y) s))"
    proof (cases "y < length (sys_guards s)")
      case True
      then have "claims_inv (Suc n) (auth_state a1) ((sys_leases s)[x := L1]) ((sys_guards s)[y := (x, True)]) \<and>
          (\<not> b \<longrightarrow> \<not> isl r1)"
        using claims_inv_commit [OF i n x [OF i True] c] g by blast
      moreover have "(case r1 of Inr _ \<Rightarrow> True | Inl _ \<Rightarrow> b) = True" if "\<not> b \<longrightarrow> \<not> isl r1"
        using that by (cases r1) auto
      ultimately show ?thesis using True g c by (simp add: guard_commit_with_snapshot_like_cpp_def)
    next
      case False
      then show ?thesis using claims_inv_idle [OF i] by simp
    qed
  qed
  have qd: "(b \<or> r2) \<and> claims_inv (Suc n) (auth_state a2) ((sys_leases s)[x := L2]) ((sys_guards s)[y := (x, True)]) \<and>
      (\<not> b \<longrightarrow> claims_inv (Suc n) (auth_state a3) ((sys_leases s)[x := L3]) ((sys_guards s)[y := (x, True)])) \<and>
      (b \<longrightarrow> claims_inv (Suc n) (sys_state s) (sys_leases s) ((sys_guards s)[y := (x, True)]))"
    if n: "Suc n < 2 ^ 64 - 1" and i: "claims_inv n (sys_state s) (sys_leases s) (sys_guards s)"
      and y: "y < length (sys_guards s)"
  proof (cases b)
    case True
    with resolved [OF i y] claims_inv_idle [OF i] show ?thesis by simp
  next
    case False
    with claims_inv_guard(1) [OF i n y _ d] claims_inv_guard(2) [OF i n y _ q] g show ?thesis by simp
  qed
  show "sys_inv (Suc n, run_op (OpGuardQuarantine y) s)"
    by (rule sys_inv_lease [OF inv], cases "y < length (sys_guards s)")
      (use g q qd in \<open>auto simp: quarantine_commit_unknown_like_cpp_def claims_inv_idle\<close>)
  show "sys_inv (Suc n, run_op (OpGuardDrop y) s)"
    by (rule sys_inv_lease [OF inv], cases "y < length (sys_guards s)")
      (use g d qd in \<open>auto simp: guard_drop_def claims_inv_idle\<close>)
qed

text \<open>A failed award leaves the authority as it was.\<close>

lemma undo_roll:
  assumes "item_like_cpp loot lid = Some e"
  shows "set_roll_fields lid (blocked (entry_flags e)) (under_threshold (entry_flags e)) (roll_winner e)
      (set_roll_fields lid b u w loot) = loot"
proof -
  let ?P = "\<lambda>e. loot_list_id e = lid"
  let ?F = "\<lambda>b u w e. e\<lparr>entry_flags := (entry_flags e)\<lparr>blocked := b, under_threshold := u\<rparr>, roll_winner := w\<rparr>"
  have "update_first ?P (?F (blocked (entry_flags e)) (under_threshold (entry_flags e)) (roll_winner e))
      (update_first ?P (?F b u w) xs) = xs" if "find ?P xs = Some e" for xs :: "LootEntry list"
    using that by (induction xs) (auto split: if_splits)
  with assms show ?thesis by (simp add: set_roll_fields_def item_like_cpp_def)
qed

lemma award_failure_state:
  assumes "finish_item_roll_and_reserve_award_like_cpp a p g lid w = (Inl err, a')"
  shows "a' = a"
proof -
  have undo: "a\<lparr>auth_state := loot_for_scope_mut sc (set_roll_fields lid (blocked (entry_flags e))
      (under_threshold (entry_flags e)) (roll_winner e)) st2\<rparr> = a"
    if "reserve_item_once (loot_for_scope_mut sc (set_roll_fields lid False False w) (auth_state a)) w lid Award (Some g) = (r, st2)"
      "\<And>gen token key payload. r \<noteq> Acquired gen token key payload"
      "loot_for_scope (auth_state a) sc = Some loot" "item_like_cpp loot lid = Some e" for sc e loot r st2
  proof -
    have "st2 = loot_for_scope_mut sc (set_roll_fields lid False False w) (auth_state a)"
      using reserve_item_cases [OF that(1)] that(2) by blast
    moreover have "loot_for_scope_mut sc (set_roll_fields lid (blocked (entry_flags e))
        (under_threshold (entry_flags e)) (roll_winner e) \<circ> set_roll_fields lid False False w) (auth_state a) = auth_state a"
      by (rule loot_for_scope_mut_id) (use that(3,4) undo_roll in auto)
    ultimately show ?thesis by (simp add: loot_for_scope_mut_mut)
  qed
  from assms show ?thesis
    unfolding finish_item_roll_and_reserve_award_like_cpp_def Let_def
    by (auto split: if_splits option.splits prod.splits ReserveAttempt.splits dest: undo)
qed


lemma claims_inv_neutral:
  assumes i: "claims_inv n st Ls Gs" and f: "\<And>l. claim_neutral l (f l)"
  shows "claims_inv n (loot_for_scope_mut sc f st) Ls Gs"
proof -
  have c: "auth_inv st" "tokens_ok n st Ls" "epochs_ok n st Ls" "holders_ok st Ls" "guards_ok st Ls Gs"
    "settled_ok st Ls" "unique_ok Ls"
    using i by (simp_all add: claims_inv_def)
  have fr: "frame {} st (loot_for_scope_mut sc f st)" by (rule frame_neutral) (rule f)
  show ?thesis
    using auth_inv_mut [OF c(1)] c(2,3,7) holders_ok_frame [OF fr c(4,3)] guards_ok_frame [OF fr c(5)]
      settled_ok_frame [OF fr c(6,3)]
    by (simp add: claims_inv_def tokens_ok_def epochs_ok_def)
qed

lemma step_award:
  assumes inv: "sys_inv (n, s)"
  shows "sys_inv (Suc n, run_op (OpFinishRollReserve p g lid w) s)"
proof -
  let ?a = "sys_authority s"
  obtain r a' where f: "finish_item_roll_and_reserve_award_like_cpp ?a p g lid w = (r, a')" by fastforce
  show ?thesis
  proof (cases r)
    case (Inl err)
    with award_failure_state [of ?a p g lid w err a'] f framed_step [OF framed_refl inv] show ?thesis by simp
  next
    case (Inr L)
    obtain sc where gr: "grants (loot_for_scope_mut sc (set_roll_fields lid False False w) (sys_state s)) (auth_state a') L"
      using f Inr unfolding finish_item_roll_and_reserve_award_like_cpp_def Let_def
      by (auto split: if_splits option.splits prod.splits ReserveAttempt.splits dest!: reserve_item_cases)
    let ?m = "?a\<lparr>auth_state := loot_for_scope_mut sc (set_roll_fields lid False False w) (sys_state s)\<rparr>"
    have "sys_inv (Suc n, hand_out L (set_authority a' s))"
    proof (rule sys_inv_lease [OF inv])
      assume n: "Suc n < 2 ^ 64 - 1" and i: "claims_inv n (sys_state s) (sys_leases s) (sys_guards s)"
      have "sys_inv (n, set_authority ?m s)"
        using claims_inv_neutral [OF i claim_neutral_roll] by (simp add: sys_inv_def set_authority_def)
      from sys_inv_grant [OF this] gr n
      show "claims_inv (Suc n) (sys_state (hand_out L (set_authority a' s))) (sys_leases (hand_out L (set_authority a' s)))
          (sys_guards (hand_out L (set_authority a' s)))"
        by (simp add: sys_inv_def set_authority_def hand_out_def)
    qed
    with f Inr show ?thesis by simp
  qed
qed


lemma run_op_inv: "sys_inv (n, s) \<Longrightarrow> sys_inv (Suc n, run_op op s)"
  by (cases op)
    (simp_all only: step_reserve step_commit_rollback step_guard step_award,
     simp_all add: framed_step framed_ops)

lemma system_new_inv: "sys_inv (0, system_new)"
  by (simp add: sys_inv_def claims_inv_def system_new_def authority_new_def AuthorityState_default_def
      auth_inv_def tokens_ok_def epochs_ok_def holders_ok_def guards_ok_def settled_ok_def unique_ok_def
      scope_epoch_def)

interpretation loot_runs: invariant_system "\<lambda>c. c = (0, system_new)" loot_step sys_inv
  by unfold_locales (auto simp: system_new_inv elim!: loot_stepE intro: run_op_inv)

lemma run_ops_inv:
  assumes "length ops < 2 ^ 64 - 1"
  shows "claims_inv (length ops) (sys_state (run_ops ops)) (sys_leases (run_ops ops)) (sys_guards (run_ops ops))"
  using loot_runs.reachable_inv [OF run_ops_reachable] assms by (rule sys_invD)

end
