(* ===== verification/LootProperties.thy ===== *)
theory LootProperties
  imports LootClaims
begin

text \<open>
  The guarantees of the loot authority over every sequence of operations: no item and no
  money is given out twice, a claim that crossed the durable boundary can always be
  committed, waiters are woken, closed authorities drain, the lifecycle moves only along its
  edges, and failed compound operations leave no trace.
\<close>

section \<open>Concrete data for the witnesses\<close>

definition sample_player :: ObjectGuid where
  "sample_player = ObjectGuid 2 7"

definition sample_flags :: LootEntryFlags where
  "sample_flags = \<lparr>follow_loot_rules = False, freeforall = False, blocked = False, counted = True,
     under_threshold = False, needs_quest = False\<rparr>"

definition sample_entry :: LootEntry where
  "sample_entry = \<lparr>loot_list_id = 1, item_id = 50, quantity = 1, random_properties_id = 0,
     random_properties_seed = 0, item_context = 0, entry_flags = sample_flags,
     entry_allowed_looters = [sample_player], roll_winner = ObjectGuid_EMPTY, ffa_looted_by = [],
     taken = False\<rparr>"

definition sample_loot :: CreatureLoot where
  "sample_loot = \<lparr>loot_guid = ObjectGuid 3 9, coins = 120, unlooted_count = 1, loot_type = 1,
     dungeon_encounter_id = 0, loot_method = 0, loot_master = ObjectGuid_EMPTY,
     round_robin_player = ObjectGuid_EMPTY, player_ffa_items = [], players_looting = [],
     pool_allowed_looters = [sample_player], loot_items = [sample_entry], looted_by_player = False\<rparr>"

text \<open>The committed leases of one item of one pool lifetime.\<close>

definition committed_for :: "ReservationKey \<Rightarrow> u64 \<Rightarrow> LootClaimLease \<Rightarrow> bool" where
  "committed_for k g L \<longleftrightarrow> is_committed_like_cpp L \<and> lease_key L = k \<and> lease_generation L = g"

text \<open>The definitions that evaluate a concrete run.\<close>

lemmas loot_eval [loot_simps] = sample_player_def sample_flags_def sample_entry_def sample_loot_def
  ObjectGuid_EMPTY_def committed_for_def is_committed_like_cpp_def run_ops_def system_new_def authority_new_def AuthorityState_default_def set_authority_def
  hand_out_def set_lease_def set_guard_def initialize_like_cpp_def initialize_pristine_like_cpp_def
  install_pools_def next_scope_epoch_def install_all_scope_epochs_def bump_lifecycle_revision_def notify_changed_def
  reserve_item_with_mode_like_cpp_def reserve_item_once_def selected_scope_like_cpp_def scope_epoch_def
  loot_for_scope_def item_like_cpp_def is_looted_for_player_like_cpp_def has_allowed_looter_like_cpp_def
  roll_winner_allows_like_cpp_def is_empty_def next_token_def LootClaimLease_new_def
  reserve_money_for_optional_generation_like_cpp_def reserve_money_once_def
  lease_commit_with_snapshot_like_cpp_def commit_claim_with_snapshot_def apply_claim_def reservation_scope_def
  mark_item_looted_for_player_like_cpp_def mark_looted_for_player_like_cpp_def loot_for_scope_mut_def
  finalize_closed_state_if_drained_def bump_nonzero_def saturating_add_def saturating_sub_def Let_def
  begin_persistence_guard_like_cpp_def begin_claim_persistence_def guard_commit_with_snapshot_like_cpp_def
  retire_like_cpp_def detach_like_cpp_def retain_only_persisting_reservations_def hm_retain_def
  guard_drop_def abort_claim_persistence_def quarantine_commit_unknown_like_cpp_def
  quarantine_claim_persistence_commit_unknown_def lifecycle_like_cpp_def domIff

section \<open>Claims\<close>

lemma at_most_one_filter:
  assumes "\<And>i j. i < length xs \<Longrightarrow> j < length xs \<Longrightarrow> P (xs ! i) \<Longrightarrow> P (xs ! j) \<Longrightarrow> i = j"
  shows "length (filter P xs) \<le> 1"
proof -
  let ?I = "{i. i < length xs \<and> P (xs ! i)}"
  have "?I \<subseteq> {i}" if "i \<in> ?I" for i using assms that by auto
  then have "card ?I \<le> 1"
    by (cases "?I = {}") (auto intro: card_mono [of "{_}", simplified])
  then show ?thesis by (simp add: length_filter_conv_card)
qed

lemma committed_excludes:
  assumes "length ops < 2 ^ 64 - 1"
    and "i < length (sys_leases (run_ops ops))" "j < length (sys_leases (run_ops ops))" "i \<noteq> j"
    and "committed_for k g (sys_leases (run_ops ops) ! i)" "committed_for k g (sys_leases (run_ops ops) ! j)"
  shows "case k of KeyItem k \<Rightarrow> key_claimant k = Some ObjectGuid_EMPTY
    | KeyMoney _ \<Rightarrow> lease_payload (sys_leases (run_ops ops) ! i) = PayMoney 0 \<or>
        lease_payload (sys_leases (run_ops ops) ! j) = PayMoney 0"
proof -
  have "unique_ok (sys_leases (run_ops ops))" using run_ops_inv [OF assms(1)] by (simp add: claims_inv_def)
  with assms(2-4) have "excludes (sys_leases (run_ops ops) ! i) (sys_leases (run_ops ops) ! j)"
    using assms(5,6) unfolding unique_ok_def committed_for_def is_committed_like_cpp_def by blast
  with assms(5,6) show ?thesis by (simp add: excludes_def committed_for_def)
qed

text \<open>
  C1: no item is looted twice.  In every sequence of installs, reservations, commits,
  rollbacks, retirements and guard operations, whatever their interleaving, at most one lease
  of an item of one pool lifetime is ever committed (per player, for a free-for-all item).
  The bound keeps the 64-bit token and epoch counters from wrapping; a free-for-all claim by
  the empty identifier is excluded because the code does not record it.
\<close>

theorem item_committed_at_most_once:
  assumes "length ops < 2 ^ 64 - 1" and "key_claimant k \<noteq> Some ObjectGuid_EMPTY"
  shows "length (filter (committed_for (KeyItem k) g) (sys_leases (run_ops ops))) \<le> 1"
  by (rule at_most_one_filter) (use committed_excludes [OF assms(1)] assms(2) in fastforce)

theorem item_committed_at_most_once_witness:
  "length (filter (committed_for (KeyItem (LootItemClaimKey Shared 1 None)) 1)
     (sys_leases (run_ops [OpInitialize (Some sample_loot) [], OpReserveItem sample_player 1 Direct None,
        OpReserveItem sample_player 1 Direct None, OpCommit 0]))) = 1"
proof -
  let ?ops = "[OpInitialize (Some sample_loot) [], OpReserveItem sample_player 1 Direct None,
        OpReserveItem sample_player 1 Direct None, OpCommit 0]"
  have "length (filter (committed_for (KeyItem (LootItemClaimKey Shared 1 None)) 1) (sys_leases (run_ops ?ops))) \<le> 1"
    by (rule item_committed_at_most_once) simp_all
  moreover have "filter (committed_for (KeyItem (LootItemClaimKey Shared 1 None)) 1) (sys_leases (run_ops ?ops)) \<noteq> []"
    by (simp add: loot_simps)
  ultimately show ?thesis by (cases "filter (committed_for (KeyItem (LootItemClaimKey Shared 1 None)) 1) (sys_leases (run_ops ?ops))") auto
qed

text \<open>
  C2: the coins of one pool lifetime are paid out at most once: of all committed money
  leases of a scope and epoch, at most one carries a non-zero amount.
\<close>

theorem money_paid_at_most_once:
  assumes "length ops < 2 ^ 64 - 1"
  shows "length (filter (\<lambda>L. committed_for (KeyMoney sc) g L \<and> lease_payload L \<noteq> PayMoney 0)
           (sys_leases (run_ops ops))) \<le> 1"
  by (rule at_most_one_filter) (use committed_excludes [OF assms] in fastforce)

theorem money_paid_at_most_once_witness:
  "map lease_payload (filter (committed_for (KeyMoney Shared) 1)
     (sys_leases (run_ops [OpInitialize (Some sample_loot) [], OpReserveMoney sample_player None, OpCommit 0,
        OpReserveMoney sample_player None, OpCommit 1]))) = [PayMoney 120, PayMoney 0] \<and>
   length (filter (\<lambda>L. committed_for (KeyMoney Shared) 1 L \<and> lease_payload L \<noteq> PayMoney 0)
     (sys_leases (run_ops [OpInitialize (Some sample_loot) [], OpReserveMoney sample_player None, OpCommit 0,
        OpReserveMoney sample_player None, OpCommit 1]))) \<le> 1"
proof
  show "map lease_payload (filter (committed_for (KeyMoney Shared) 1)
     (sys_leases (run_ops [OpInitialize (Some sample_loot) [], OpReserveMoney sample_player None, OpCommit 0,
        OpReserveMoney sample_player None, OpCommit 1]))) = [PayMoney 120, PayMoney 0]"
    by (simp add: loot_simps)
qed (rule money_paid_at_most_once, simp)


section \<open>Durable claims\<close>

lemma apply_claim_snapshot:
  assumes "claimable st L" and "apply_claim st L = (True, st1)"
  obtains loot where "loot_for_scope st1 (lease_scope L) = Some loot"
    "case lease_key L of
       KeyItem k \<Rightarrow> key_claimant k = Some ObjectGuid_EMPTY \<or>
         item_is_looted_for_player_like_cpp loot (key_loot_list_id k) (lease_player L)
     | KeyMoney _ \<Rightarrow> coins loot = 0"
proof -
  have "settled st1 L" using apply_claim_spec [OF assms(1)] assms(2) by (metis prod.inject)
  with that show ?thesis
    by (cases "lease_key L")
      (auto simp: settled_item settled_money reservation_scope_def item_is_looted_for_player_like_cpp_def)
qed

text \<open>
  C3: a claim that crossed the durable boundary can always be committed.  While its
  persistence guard is unresolved, no retirement, detachment, replacement, quarantine or
  action of another task makes the commit fail: it applies the claim for the first time,
  returns the pool as it is after the mutation, with the item marked (or the coins gone),
  and resolves the guard.
\<close>

theorem durable_commit_succeeds:
  assumes "length ops < 2 ^ 64 - 1"
    and "y < length (sys_guards (run_ops ops))" and "sys_guards (run_ops ops) ! y = (x, False)"
  shows "\<exists>loot a'. guard_commit_with_snapshot_like_cpp (sys_authority (run_ops ops))
            (sys_leases (run_ops ops) ! x) False =
          (Inr (True, Some \<lparr>snap_generation = lease_generation (sys_leases (run_ops ops) ! x),
              snap_scope = lease_scope (sys_leases (run_ops ops) ! x), snap_loot = loot\<rparr>),
           a', (sys_leases (run_ops ops) ! x)\<lparr>lease_status := LEASE_COMMITTED\<rparr>, True) \<and>
          (case lease_key (sys_leases (run_ops ops) ! x) of
             KeyItem k \<Rightarrow> key_claimant k = Some ObjectGuid_EMPTY \<or>
               item_is_looted_for_player_like_cpp loot (key_loot_list_id k)
                 (lease_player (sys_leases (run_ops ops) ! x))
           | KeyMoney _ \<Rightarrow> coins loot = 0)"
proof -
  let ?a = "sys_authority (run_ops ops)" and ?Ls = "sys_leases (run_ops ops)"
  let ?L = "?Ls ! x"
  have c: "auth_inv (auth_state ?a)" "tokens_ok (length ops) (auth_state ?a) ?Ls" "holders_ok (auth_state ?a) ?Ls"
    "guards_ok (auth_state ?a) ?Ls (sys_guards (run_ops ops))"
    using run_ops_inv [OF assms(1)] by (simp_all add: claims_inv_def)
  from c(4) nth_mem [OF assms(2)] assms(3) have x: "x < length ?Ls"
    and p: "hm_get (persisting (auth_state ?a)) (lease_key ?L) = Some (lease_token ?L)"
    by (auto simp: guards_ok_def)
  note res = inv_pers_res [OF c(1) p]
  have hk: "holds_key (auth_state ?a) (lease_key ?L) (lease_token ?L) ?L"
    using holder_unique [OF c(2,3) x res] p by blast
  then have act: "lease_status ?L = LEASE_ACTIVE" and cl: "claimable (auth_state ?a) ?L"
    by (simp_all add: holds_key_def)
  obtain sc f where ap: "apply_claim (auth_state ?a) ?L = (True, loot_for_scope_mut sc f (auth_state ?a))"
    using apply_claim_spec [OF cl] by metis
  obtain loot where l: "loot_for_scope (loot_for_scope_mut sc f (auth_state ?a)) (lease_scope ?L) = Some loot"
    and eff: "case lease_key ?L of
       KeyItem k \<Rightarrow> key_claimant k = Some ObjectGuid_EMPTY \<or>
         item_is_looted_for_player_like_cpp loot (key_loot_list_id k) (lease_player ?L)
     | KeyMoney _ \<Rightarrow> coins loot = 0"
    using apply_claim_snapshot [OF cl ap] by blast
  have "commit_claim_with_snapshot ?a ?L True =
     (Inr \<lparr>first_commit = True, commit_snapshot = Some \<lparr>snap_generation = lease_generation ?L,
             snap_scope = lease_scope ?L, snap_loot = loot\<rparr>\<rparr>,
      notify_changed (?a\<lparr>auth_state := released (lease_key ?L) (loot_for_scope_mut sc f (auth_state ?a))\<rparr>),
      ?L\<lparr>lease_status := LEASE_COMMITTED\<rparr>)"
    using commit_holder [OF act hk res _ ap, of True] p l by simp
  with eff show ?thesis by (simp add: guard_commit_with_snapshot_like_cpp_def)
qed

theorem durable_commit_succeeds_witness:
  "let ops = [OpInitialize (Some sample_loot) [], OpReserveMoney sample_player None, OpBeginPersistence 0,
       OpRetire, OpRollback 0, OpReplace None [], OpDetach];
     s = run_ops ops
   in sys_guards s = [(0, False)] \<and>
      (\<exists>loot a'. guard_commit_with_snapshot_like_cpp (sys_authority s) (sys_leases s ! 0) False =
        (Inr (True, Some \<lparr>snap_generation = 1, snap_scope = Shared, snap_loot = loot\<rparr>), a',
         (sys_leases s ! 0)\<lparr>lease_status := LEASE_COMMITTED\<rparr>, True) \<and> coins loot = 0)"
proof -
  let ?ops = "[OpInitialize (Some sample_loot) [], OpReserveMoney sample_player None, OpBeginPersistence 0,
       OpRetire, OpRollback 0, OpReplace None [], OpDetach]"
  have g: "sys_guards (run_ops ?ops) = [(0, False)]"
    and L: "lease_generation (sys_leases (run_ops ?ops) ! 0) = 1" "lease_key (sys_leases (run_ops ?ops) ! 0) = KeyMoney Shared"
    by (simp_all add: loot_simps lease_rollback_like_cpp_def rollback_claim_def replace_like_cpp_def detach_state_def)
  show ?thesis
    using durable_commit_succeeds [of ?ops 0 0] g L by (simp add: Let_def reservation_scope_def)
qed

text \<open>
  C34: the wait for durable claims ends exactly when every guard is resolved, and a retired
  authority whose guards are all resolved holds no pool and no reservation.
\<close>

theorem persisting_drains:
  assumes "length ops < 2 ^ 64 - 1"
  shows "wait_for_persisting_claims_like_cpp (sys_authority (run_ops ops)) =
           list_all snd (sys_guards (run_ops ops)) \<and>
         (is_retired_like_cpp (sys_authority (run_ops ops)) \<longrightarrow> list_all snd (sys_guards (run_ops ops)) \<longrightarrow>
           shared (sys_state (run_ops ops)) = None \<and> personal (sys_state (run_ops ops)) = [] \<and>
           reservations (sys_state (run_ops ops)) = [])"
proof -
  have c: "auth_inv (sys_state (run_ops ops))"
    "guards_ok (sys_state (run_ops ops)) (sys_leases (run_ops ops)) (sys_guards (run_ops ops))"
    using run_ops_inv [OF assms] by (simp_all add: claims_inv_def)
  have w: "wait_for_persisting_claims_like_cpp (sys_authority (run_ops ops)) =
           list_all snd (sys_guards (run_ops ops))"
  proof
    assume "wait_for_persisting_claims_like_cpp (sys_authority (run_ops ops))"
    then have "persisting (sys_state (run_ops ops)) = []" by (simp add: wait_for_persisting_claims_like_cpp_def)
    then have "resolved" if "(i, resolved) \<in> set (sys_guards (run_ops ops))" for i resolved
      using c(2) that unfolding guards_ok_def by (cases resolved) auto
    then show "list_all snd (sys_guards (run_ops ops))" by (auto simp: list_all_iff)
  next
    assume r: "list_all snd (sys_guards (run_ops ops))"
    have "hm_get (persisting (sys_state (run_ops ops))) k = None" for k
    proof (cases "hm_get (persisting (sys_state (run_ops ops))) k")
      case (Some t)
      with c(2) obtain i where "(i, False) \<in> set (sys_guards (run_ops ops))"
        unfolding guards_ok_def by blast
      with r show ?thesis by (auto simp: list_all_iff)
    qed
    then show "wait_for_persisting_claims_like_cpp (sys_authority (run_ops ops))"
      by (simp add: wait_for_persisting_claims_like_cpp_def hm_empty_iff)
  qed
  then show ?thesis
    using inv_drained [OF c(1)] by (simp add: is_retired_like_cpp_def wait_for_persisting_claims_like_cpp_def)
qed

theorem persisting_drains_witness:
  "wait_for_persisting_claims_like_cpp (sys_authority (run_ops [OpInitialize (Some sample_loot) [],
      OpReserveMoney sample_player None, OpBeginPersistence 0, OpRetire, OpGuardDrop 0])) \<and>
   shared (sys_state (run_ops [OpInitialize (Some sample_loot) [],
      OpReserveMoney sample_player None, OpBeginPersistence 0, OpRetire, OpGuardDrop 0])) = None"
proof -
  let ?ops = "[OpInitialize (Some sample_loot) [], OpReserveMoney sample_player None, OpBeginPersistence 0,
      OpRetire, OpGuardDrop 0]"
  have g: "list_all snd (sys_guards (run_ops ?ops))" and r: "is_retired_like_cpp (sys_authority (run_ops ?ops))"
    by (simp_all add: loot_simps is_retired_like_cpp_def)
  have n: "length ?ops < 2 ^ 64 - 1" by simp
  show ?thesis using persisting_drains [OF n] g r by simp
qed


section \<open>Wake-ups\<close>

text \<open>
  A step that does not touch the channel leaves the selection of pools and the item views as
  they are and only adds reservations.
\<close>

definition quiet :: "AuthorityState \<Rightarrow> AuthorityState \<Rightarrow> bool" where
  "quiet st st' \<longleftrightarrow> st' = st \<or> (\<exists>L. grants st st' L) \<or> (\<exists>m. st' = st\<lparr>persisting := m\<rparr>)"

lemma changed_notify [simp]: "auth_changed (notify_changed a) \<noteq> auth_changed a"
  "auth_changed (notify_changed (a\<lparr>auth_state := st\<rparr>)) \<noteq> auth_changed a"
  by (simp_all add: notify_changed_def)

definition waits :: "AuthorityState \<Rightarrow> ObjectGuid \<Rightarrow> u64 option \<Rightarrow> (u8 \<times> LootItemClaimMode) option \<Rightarrow> bool" where
  "waits st p g target \<longleftrightarrow>
     (case target of Some (lid, mode) \<Rightarrow> fst (reserve_item_once st p lid mode g) = Wait
      | None \<Rightarrow> fst (reserve_money_once st p g) = Wait)"

definition claimable_now :: "AuthorityState \<Rightarrow> ObjectGuid \<Rightarrow> u8 \<Rightarrow> LootItemClaimMode \<Rightarrow> LootEntry \<Rightarrow> bool" where
  "claimable_now st p lid mode e \<longleftrightarrow>
     \<not> is_looted_for_player_like_cpp e p \<and> has_allowed_looter_like_cpp e p \<and>
     \<not> (mode = Direct \<and> blocked (entry_flags e)) \<and> roll_winner_allows_like_cpp e p"

lemma item_wait_iff:
  "fst (reserve_item_once st p lid mode g) = Wait \<longleftrightarrow>
     \<not> retired st \<and> (\<exists>sc gen loot e. selected_scope_like_cpp st p = Some sc \<and> scope_epoch st sc = Some gen \<and>
       (g = None \<or> g = Some gen) \<and> loot_for_scope st sc = Some loot \<and> item_like_cpp loot lid = Some e \<and>
       claimable_now st p lid mode e \<and>
       hm_get (reservations st) (KeyItem (LootItemClaimKey sc lid
         (if freeforall (entry_flags e) then Some p else None))) \<noteq> None)"
proof (cases "\<exists>sc gen loot e. selected_scope_like_cpp st p = Some sc \<and> scope_epoch st sc = Some gen \<and>
    loot_for_scope st sc = Some loot \<and> item_like_cpp loot lid = Some e")
  case True
  then obtain sc gen loot e where s: "selected_scope_like_cpp st p = Some sc" "scope_epoch st sc = Some gen"
    "loot_for_scope st sc = Some loot" "item_like_cpp loot lid = Some e" by blast
  have g: "(case g of None \<Rightarrow> False | Some expected \<Rightarrow> expected \<noteq> gen) \<longleftrightarrow> \<not> (g = None \<or> g = Some gen)"
    by (cases g) auto
  show ?thesis
    unfolding reserve_item_once_def claimable_now_def s option.case g
    by (simp add: s Let_def next_token_def domIff)
next
  case False
  then have "fst (reserve_item_once st p lid mode g) \<noteq> Wait"
    by (auto simp: reserve_item_once_def split: option.split)
  with False show ?thesis by blast
qed

lemma money_wait_iff:
  "fst (reserve_money_once st p g) = Wait \<longleftrightarrow>
     \<not> retired st \<and> (\<exists>sc gen loot. selected_scope_like_cpp st p = Some sc \<and> scope_epoch st sc = Some gen \<and>
       (g = None \<or> g = Some gen) \<and> loot_for_scope st sc = Some loot \<and> p \<in> set (pool_allowed_looters loot) \<and>
       hm_get (reservations st) (KeyMoney sc) \<noteq> None)"
  unfolding reserve_money_once_def
  by (simp add: Let_def next_token_def domIff split: option.split)

lemma waits_quiet:
  assumes "quiet st st'" "waits st p g target"
  shows "waits st' p g target"
proof -
  from assms(1) have same: "retired st' = retired st" "selected_scope_like_cpp st' = selected_scope_like_cpp st"
    "scope_epoch st' = scope_epoch st" "loot_for_scope st' = loot_for_scope st"
    and res: "\<And>k. hm_get (reservations st) k \<noteq> None \<Longrightarrow> hm_get (reservations st') k \<noteq> None"
    by (auto simp: quiet_def grants_def fun_eq_iff selected_scope_like_cpp_def scope_epoch_def loot_for_scope_def
        split: OwnedLootScope.splits if_splits)
  show ?thesis
  proof (cases target)
    case None
    with assms(2) res show ?thesis unfolding waits_def money_wait_iff same by (simp only: option.case) blast
  next
    case (Some t)
    obtain lid mode where t: "t = (lid, mode)" by fastforce
    have "claimable_now st' = claimable_now st" by (simp add: fun_eq_iff claimable_now_def)
    with Some t assms(2) res show ?thesis
      unfolding waits_def item_wait_iff same by (simp only: option.case prod.case) blast
  qed
qed

lemma quiet_refl [simp]: "quiet st st"
  by (simp add: quiet_def)

lemma removed_same: "length (players_looting l) = length (players_looting (remove_viewer p l)) \<Longrightarrow> remove_viewer p l = l"
proof -
  assume a: "length (players_looting l) = length (players_looting (remove_viewer p l))"
  have "v \<noteq> p" if "v \<in> set (players_looting l)" for v
    using a that length_filter_less [of v "players_looting l" "\<lambda>v. v \<noteq> p"] by (auto simp: remove_viewer_def)
  then have "filter (\<lambda>v. v \<noteq> p) (players_looting l) = players_looting l" by (simp add: filter_id_conv)
  then show ?thesis by (simp add: remove_viewer_def)
qed

lemma set_roll_same:
  assumes "item_like_cpp loot lid = Some e" "\<not> blocked (entry_flags e)" "under_threshold (entry_flags e) = u"
    "roll_winner e = w"
  shows "set_roll_fields lid False u w loot = loot"
proof -
  have "e\<lparr>entry_flags := (entry_flags e)\<lparr>blocked := False, under_threshold := u\<rparr>, roll_winner := w\<rparr> = e"
    using assms(2-4) by (cases e; cases "entry_flags e") auto
  then have "update_first (\<lambda>e. loot_list_id e = lid)
      (\<lambda>e. e\<lparr>entry_flags := (entry_flags e)\<lparr>blocked := False, under_threshold := u\<rparr>, roll_winner := w\<rparr>) xs = xs"
    if "find (\<lambda>e. loot_list_id e = lid) xs = Some e" for xs
    using that by (induction xs) (auto split: if_splits)
  with assms(1) show ?thesis by (simp add: set_roll_fields_def item_like_cpp_def)
qed


definition notifies :: "OwnedLootAuthorityInner \<Rightarrow> OwnedLootAuthorityInner \<Rightarrow> bool" where
  "notifies a a' \<longleftrightarrow> auth_changed a' \<noteq> auth_changed a \<or> quiet (auth_state a) (auth_state a')"

lemma notifiesI [simp]: "notifies a a" "notifies a (notify_changed (a\<lparr>auth_state := st\<rparr>))"
  by (simp_all add: notifies_def)

lemma notifies_same: "st = auth_state a \<Longrightarrow> notifies a (a\<lparr>auth_state := st\<rparr>)"
  by (simp add: notifies_def)

lemma notifies_install:
  "notifies a (snd (detach_like_cpp a))" "notifies a (snd (detach_if_stamp_like_cpp a x))"
  "notifies a (snd (initialize_like_cpp a sh pe))"
  "notifies a (snd (replace_retired_generation_like_cpp a g sh pe))"
  "notifies a (snd (replace_like_cpp a sh pe))"
  "notifies a (snd (initialize_shared_like_cpp a l))"
  "notifies a (snd (upsert_personal_like_cpp a p l r))"
  "notifies a (snd (retire_like_cpp a))"
  by (simp_all add: detach_like_cpp_def detach_if_stamp_like_cpp_def initialize_like_cpp_def
      initialize_pristine_like_cpp_def replace_retired_generation_like_cpp_def replace_like_cpp_def
      initialize_shared_like_cpp_def upsert_personal_like_cpp_def retire_like_cpp_def next_scope_epoch_def
      Let_def split: prod.split)

lemma notifies_viewers:
  "notifies a (snd (remove_viewer_like_cpp a p))"
  "notifies a (snd (remove_viewer_if_generation_like_cpp a g p))"
  "notifies a (snd (close_viewer_if_generation_like_cpp a g p))"
  by (auto simp: remove_viewer_like_cpp_def remove_viewer_if_generation_like_cpp_def
      close_viewer_if_generation_like_cpp_def Let_def split: option.split
      intro!: notifies_same loot_for_scope_mut_id removed_same)

lemma notifies_rolls:
  "notifies a (snd (clear_round_robin_if_generation_like_cpp a g p))"
  "notifies a (snd (finish_item_roll_like_cpp a p g lid u w))"
proof -
  show "notifies a (snd (clear_round_robin_if_generation_like_cpp a g p))"
    by (auto simp: clear_round_robin_if_generation_like_cpp_def Let_def split: option.split
      intro!: notifies_same loot_for_scope_mut_id)
  show "notifies a (snd (finish_item_roll_like_cpp a p g lid u w))"
    by (auto simp: finish_item_roll_like_cpp_def Let_def split: option.split
      intro!: notifies_same loot_for_scope_mut_id set_roll_same)
qed

lemma notifies_open:
  "notifies a (snd (try_open_view_with_snapshot_like_cpp a p (\<lambda>_ _. if b then Some () else None)))"
proof (cases b)
  case True
  then show ?thesis
    by (auto simp: try_open_view_with_snapshot_like_cpp_def Let_def split: option.split
      intro!: notifies_same loot_for_scope_mut_id)
next
  case False
  then show ?thesis by (simp add: open_rejected_state)
qed

lemma notifies_lease:
  assumes "auth_inv (auth_state a)"
  shows "notifies a (fst (snd (rollback_claim a L)))" "notifies a (fst (snd (commit_claim_with_snapshot a L b)))"
    "notifies a (fst (snd (begin_claim_persistence a L)))" "notifies a (fst (snd (abort_claim_persistence a L)))"
    "notifies a (fst (snd (quarantine_claim_persistence_commit_unknown a L)))"
proof -
  have persisting: "notifies a (a\<lparr>auth_state := (auth_state a)\<lparr>persisting := m\<rparr>\<rparr>)" for m
    by (auto simp: notifies_def quiet_def)
  note branches = Let_def LeaseStatus.case fst_conv snd_conv
    prod.case_distrib [where h = "\<lambda>x. notifies a (fst (snd x))"] if_distrib [where f = "\<lambda>x. notifies a (fst (snd x))"]
    notifiesI persisting if_cancel imp_conv_disj simp_thms
  show "notifies a (fst (snd (rollback_claim a L)))"
    using finalize_noop [OF assms] by (auto simp: rollback_claim_def Let_def intro!: notifies_same)
  show "notifies a (fst (snd (commit_claim_with_snapshot a L b)))"
    by (cases "lease_status L") (simp_all only: commit_claim_with_snapshot_def branches split: prod.split)
  show "notifies a (fst (snd (begin_claim_persistence a L)))"
    by (cases "lease_status L") (simp_all only: begin_claim_persistence_def branches)
  show "notifies a (fst (snd (abort_claim_persistence a L)))"
    by (auto simp: abort_claim_persistence_def Let_def)
  show "notifies a (fst (snd (quarantine_claim_persistence_commit_unknown a L)))"
    by (auto simp: quarantine_claim_persistence_commit_unknown_def Let_def)
qed

lemma notifies_reserve:
  "notifies a (snd (reserve_item_with_mode_like_cpp a p lid mode g))"
  "notifies a (snd (reserve_money_for_optional_generation_like_cpp a p g))"
proof -
  obtain r st' where q: "reserve_item_once (auth_state a) p lid mode g = (r, st')" by fastforce
  show "notifies a (snd (reserve_item_with_mode_like_cpp a p lid mode g))"
    using reserve_item_cases [OF q]
    by (cases r) (auto simp: reserve_item_with_mode_like_cpp_def q notifies_def quiet_def)
next
  obtain r st' where q: "reserve_money_once (auth_state a) p g = (r, st')" by fastforce
  show "notifies a (snd (reserve_money_for_optional_generation_like_cpp a p g))"
    using reserve_money_cases [OF q]
    by (cases r) (auto simp: reserve_money_for_optional_generation_like_cpp_def q notifies_def quiet_def)
qed

lemma notifies_award: "notifies a (snd (finish_item_roll_and_reserve_award_like_cpp a p g lid w))"
proof -
  obtain r a' where f: "finish_item_roll_and_reserve_award_like_cpp a p g lid w = (r, a')" by fastforce
  show ?thesis
  proof (cases r)
    case (Inl e)
    with award_failure_state f show ?thesis by (metis notifiesI(1) snd_conv)
  next
    case (Inr L)
    with f have "\<exists>st. a' = notify_changed (a\<lparr>auth_state := st\<rparr>)"
      unfolding finish_item_roll_and_reserve_award_like_cpp_def Let_def
      by (auto split: if_splits option.splits prod.splits ReserveAttempt.splits)
    with f show ?thesis by auto
  qed
qed


interpretation wake: authority_contract "\<lambda>a a'. auth_inv (auth_state a) \<longrightarrow> notifies a a'"
  by unfold_locales
    (simp_all add: notifies_install notifies_viewers notifies_rolls notifies_open notifies_award notifies_reserve
      notifies_lease)

text \<open>
  C4: no wake-up is lost.  If a reservation attempt has to wait and some operation makes it
  able to proceed, in whatever way, that operation changed the version of the channel the
  waiter sleeps on; so a sleeping waiter whose channel version is unchanged would still wait.
\<close>

theorem no_lost_wakeup:
  assumes "length ops < 2 ^ 64 - 1"
    and "waits (sys_state (run_ops ops)) p g target"
    and "auth_changed (sys_authority (run_ops (ops @ [op]))) = auth_changed (sys_authority (run_ops ops))"
  shows "waits (sys_state (run_ops (ops @ [op]))) p g target"
proof -
  have "auth_inv (sys_state (run_ops ops))" using run_ops_inv [OF assms(1)] by (simp add: claims_inv_def)
  from this wake.run_op_contract [of "run_ops ops" op] assms(3) have "quiet (sys_state (run_ops ops)) (sys_state (run_ops (ops @ [op])))"
    by (simp add: notifies_def run_ops_snoc)
  then show ?thesis using assms(2) by (rule waits_quiet)
qed

theorem no_lost_wakeup_witness:
  "waits (sys_state (run_ops [OpInitialize (Some sample_loot) [], OpReserveMoney sample_player None,
     OpBeginPersistence 0])) sample_player None None \<and>
   \<not> waits (sys_state (run_ops [OpInitialize (Some sample_loot) [], OpReserveMoney sample_player None,
     OpBeginPersistence 0, OpGuardDrop 0])) sample_player None None"
proof
  let ?ops = "[OpInitialize (Some sample_loot) [], OpReserveMoney sample_player None]"
  have w: "waits (sys_state (run_ops ?ops)) sample_player None None"
    by (simp add: loot_simps waits_def)
  have "auth_changed (sys_authority (run_ops (?ops @ [OpBeginPersistence 0]))) = auth_changed (sys_authority (run_ops ?ops))"
    by (simp add: loot_simps)
  from no_lost_wakeup [OF _ w this]
  show "waits (sys_state (run_ops [OpInitialize (Some sample_loot) [], OpReserveMoney sample_player None,
     OpBeginPersistence 0])) sample_player None None" by simp
  show "\<not> waits (sys_state (run_ops [OpInitialize (Some sample_loot) [], OpReserveMoney sample_player None,
     OpBeginPersistence 0, OpGuardDrop 0])) sample_player None None"
    by (simp add: loot_simps waits_def)
qed

end
