(* ===== verification/LootLifecycle.thy ===== *)
theory LootLifecycle
  imports LootProperties
begin

text \<open>
  The lifecycle of an authority as a state machine, single installation of first-generation
  loot, and the compound operations that either succeed or change nothing.
\<close>

section \<open>The lifecycle machine\<close>

fun lifecycle_edge :: "OwnedLootAuthorityLifecycle \<Rightarrow> OwnedLootAuthorityLifecycle \<Rightarrow> bool" where
  "lifecycle_edge Pristine l = (l = Pristine \<or> l = Active \<or> l = Retired \<or> l = Detached)"
| "lifecycle_edge Active l = (l \<noteq> Pristine)"
| "lifecycle_edge Retired l = (l \<noteq> Pristine)"
| "lifecycle_edge Quarantined l = (l = Quarantined \<or> l = Detached)"
| "lifecycle_edge Detached l = (l = Detached)"

text \<open>What an operation may do to the four fields the lifecycle is read from.\<close>

definition moves :: "AuthorityState \<Rightarrow> AuthorityState \<Rightarrow> bool" where
  "moves st st' \<longleftrightarrow>
     (detached st \<longrightarrow> detached st') \<and> (quarantined st \<longrightarrow> quarantined st' \<or> detached st') \<and>
     (detached st \<or> quarantined st \<longrightarrow> retired st \<longrightarrow> retired st') \<and>
     (generation st' = 0 \<longrightarrow> generation st = 0 \<and> (retired st \<longrightarrow> retired st')) \<and>
     (quarantined st' \<longrightarrow> quarantined st \<or> persisting st \<noteq> [] \<and> retired st')"

lemma moves_edge:
  assumes "auth_inv st" "auth_inv st'" "moves st st'"
  shows "lifecycle_edge (lifecycle_like_cpp st) (lifecycle_like_cpp st')"
  using assms inv_pristine [OF assms(1)] inv_pristine [OF assms(2)] inv_closed [OF assms(1)] inv_closed [OF assms(2)]
  by (auto simp: lifecycle_like_cpp_def moves_def)

lemma moves_refl [simp]: "moves st st"
  by (auto simp: moves_def)

lemma moves_same:
  "generation st' = generation st \<Longrightarrow> retired st' = retired st \<Longrightarrow> detached st' = detached st \<Longrightarrow>
     quarantined st' = quarantined st \<Longrightarrow> moves st st'"
  by (auto simp: moves_def)

lemma moves_install:
  "moves (auth_state a) (auth_state (snd (detach_like_cpp a)))"
  "moves (auth_state a) (auth_state (snd (detach_if_stamp_like_cpp a x)))"
  "moves (auth_state a) (auth_state (snd (initialize_like_cpp a sh pe)))"
  "moves (auth_state a) (auth_state (snd (replace_retired_generation_like_cpp a g sh pe)))"
  "moves (auth_state a) (auth_state (snd (replace_like_cpp a sh pe)))"
  "moves (auth_state a) (auth_state (snd (initialize_shared_like_cpp a l)))"
  "moves (auth_state a) (auth_state (snd (upsert_personal_like_cpp a p l r)))"
  "moves (auth_state a) (auth_state (snd (retire_like_cpp a)))"
  by (auto simp: detach_like_cpp_def detach_if_stamp_like_cpp_def initialize_like_cpp_def detach_state_def
      initialize_pristine_like_cpp_def replace_retired_generation_like_cpp_def replace_like_cpp_def
      initialize_shared_like_cpp_def upsert_personal_like_cpp_def retire_like_cpp_def next_scope_epoch_def
      retain_only_persisting_reservations_def bump_lifecycle_revision_def install_pools_def
      install_all_scope_epochs_def moves_def Let_def)

lemma moves_viewers:
  "moves (auth_state a) (auth_state (snd (remove_viewer_like_cpp a p)))"
  "moves (auth_state a) (auth_state (snd (remove_viewer_if_generation_like_cpp a g p)))"
  "moves (auth_state a) (auth_state (snd (close_viewer_if_generation_like_cpp a g p)))"
  "moves (auth_state a) (auth_state (snd (clear_round_robin_if_generation_like_cpp a g p)))"
  "moves (auth_state a) (auth_state (snd (finish_item_roll_like_cpp a p g lid u w)))"
  by (simp_all add: remove_viewer_like_cpp_def remove_viewer_if_generation_like_cpp_def
      close_viewer_if_generation_like_cpp_def clear_round_robin_if_generation_like_cpp_def
      finish_item_roll_like_cpp_def Let_def moves_same split: option.split)

lemma moves_open:
  "moves (auth_state a) (auth_state (snd (try_open_view_with_snapshot_like_cpp a p f)))"
  by (simp add: try_open_view_with_snapshot_like_cpp_def Let_def moves_same split: option.split)

lemma moves_apply_claim: "apply_claim st L = (b, st1) \<Longrightarrow>
    generation st1 = generation st \<and> retired st1 = retired st \<and> detached st1 = detached st \<and> quarantined st1 = quarantined st"
  by (auto simp: apply_claim_def Let_def split: ReservationKey.splits option.splits prod.splits)

lemma moves_lease:
  "moves (auth_state a) (auth_state (fst (snd (rollback_claim a L))))"
  "moves (auth_state a) (auth_state (fst (snd (commit_claim_with_snapshot a L b))))"
  "moves (auth_state a) (auth_state (fst (snd (begin_claim_persistence a L))))"
  "moves (auth_state a) (auth_state (fst (snd (abort_claim_persistence a L))))"
  "moves (auth_state a) (auth_state (fst (snd (quarantine_claim_persistence_commit_unknown a L))))"
proof -
  show "moves (auth_state a) (auth_state (fst (snd (rollback_claim a L))))"
    by (simp add: rollback_claim_def Let_def moves_same)
  show "moves (auth_state a) (auth_state (fst (snd (commit_claim_with_snapshot a L b))))"
    using moves_apply_claim [of "auth_state a" L]
    by (cases "apply_claim (auth_state a) L")
      (simp add: commit_claim_with_snapshot_def Let_def moves_same split: LeaseStatus.split)
  show "moves (auth_state a) (auth_state (fst (snd (begin_claim_persistence a L))))"
    by (simp add: begin_claim_persistence_def Let_def moves_same split: LeaseStatus.split)
  show "moves (auth_state a) (auth_state (fst (snd (abort_claim_persistence a L))))"
    by (simp add: abort_claim_persistence_def Let_def moves_same)
  show "moves (auth_state a) (auth_state (fst (snd (quarantine_claim_persistence_commit_unknown a L))))"
    by (auto simp: quarantine_claim_persistence_commit_unknown_def Let_def moves_def)
qed


lemma moves_reserve:
  "moves (auth_state a) (auth_state (snd (reserve_item_with_mode_like_cpp a p lid mode g)))"
  "moves (auth_state a) (auth_state (snd (reserve_money_for_optional_generation_like_cpp a p g)))"
proof -
  have gr: "grants st st' L \<Longrightarrow> moves st st'" for st st' L by (auto simp: grants_def intro: moves_same)
  obtain r st' where q: "reserve_item_once (auth_state a) p lid mode g = (r, st')" by fastforce
  show "moves (auth_state a) (auth_state (snd (reserve_item_with_mode_like_cpp a p lid mode g)))"
    using reserve_item_cases [OF q]
    by (cases r) (auto simp: reserve_item_with_mode_like_cpp_def q dest: gr)
  obtain r st' where q: "reserve_money_once (auth_state a) p g = (r, st')" by fastforce
  show "moves (auth_state a) (auth_state (snd (reserve_money_for_optional_generation_like_cpp a p g)))"
    using reserve_money_cases [OF q]
    by (cases r) (auto simp: reserve_money_for_optional_generation_like_cpp_def q dest: gr)
qed

lemma moves_award: "moves (auth_state a) (auth_state (snd (finish_item_roll_and_reserve_award_like_cpp a p g lid w)))"
proof -
  obtain r a' where f: "finish_item_roll_and_reserve_award_like_cpp a p g lid w = (r, a')" by fastforce
  show ?thesis
  proof (cases r)
    case (Inl e)
    with award_failure_state f have "a' = a" by blast
    with f show ?thesis by simp
  next
    case (Inr L)
    with f obtain sc where "grants (loot_for_scope_mut sc (set_roll_fields lid False False w) (auth_state a)) (auth_state a') L"
      unfolding finish_item_roll_and_reserve_award_like_cpp_def Let_def
      by (auto split: if_splits option.splits prod.splits ReserveAttempt.splits dest!: reserve_item_cases)
    with f show ?thesis by (auto simp: grants_def intro: moves_same)
  qed
qed

interpretation life: authority_contract "\<lambda>a a'. moves (auth_state a) (auth_state a')"
  by unfold_locales
    (simp_all add: moves_install moves_viewers moves_open moves_award moves_reserve moves_lease)

text \<open>
  C5: the lifecycle of an authority moves only along the edges of \<open>lifecycle_edge\<close>, whatever
  operation is run: nothing leaves \<open>Detached\<close>, a quarantined authority can only be detached,
  and no authority becomes pristine again.
\<close>

theorem lifecycle_moves_along_edges:
  assumes "length ops < 2 ^ 64 - 2"
  shows "lifecycle_edge (lifecycle_like_cpp (sys_state (run_ops ops)))
           (lifecycle_like_cpp (sys_state (run_ops (ops @ [op]))))"
proof -
  have "auth_inv (sys_state (run_ops ops))" "auth_inv (sys_state (run_ops (ops @ [op])))"
    using run_ops_inv [of ops] run_ops_inv [of "ops @ [op]"] assms by (simp_all add: claims_inv_def)
  then show ?thesis using life.run_op_contract [of "run_ops ops" op] by (simp add: moves_edge run_ops_snoc)
qed

theorem lifecycle_moves_along_edges_witness:
  "lifecycle_like_cpp (sys_state (run_ops [OpInitialize (Some sample_loot) [], OpReserveMoney sample_player None,
      OpBeginPersistence 0, OpGuardQuarantine 0])) = Quarantined \<and>
   lifecycle_edge (lifecycle_like_cpp (sys_state (run_ops [OpInitialize (Some sample_loot) [],
      OpReserveMoney sample_player None, OpBeginPersistence 0])))
     (lifecycle_like_cpp (sys_state (run_ops [OpInitialize (Some sample_loot) [],
      OpReserveMoney sample_player None, OpBeginPersistence 0, OpGuardQuarantine 0])))"
proof
  show "lifecycle_like_cpp (sys_state (run_ops [OpInitialize (Some sample_loot) [], OpReserveMoney sample_player None,
      OpBeginPersistence 0, OpGuardQuarantine 0])) = Quarantined"
    by (simp add: loot_simps)
  show "lifecycle_edge (lifecycle_like_cpp (sys_state (run_ops [OpInitialize (Some sample_loot) [],
      OpReserveMoney sample_player None, OpBeginPersistence 0])))
     (lifecycle_like_cpp (sys_state (run_ops [OpInitialize (Some sample_loot) [],
      OpReserveMoney sample_player None, OpBeginPersistence 0, OpGuardQuarantine 0])))"
    using lifecycle_moves_along_edges [of "[OpInitialize (Some sample_loot) [],
      OpReserveMoney sample_player None, OpBeginPersistence 0]" "OpGuardQuarantine 0"] by simp
qed


section \<open>Consequences of the lifecycle\<close>

lemma run_ops_append: "run_ops (ops @ ops') = fold run_op ops' (run_ops ops)"
  by (simp add: run_ops_def)

lemma moves_later: "detached (sys_state s) \<Longrightarrow> detached (sys_state (fold run_op ops s))"
  "generation (sys_state s) \<noteq> 0 \<Longrightarrow> generation (sys_state (fold run_op ops s)) \<noteq> 0"
proof -
  show "detached (sys_state s) \<Longrightarrow> detached (sys_state (fold run_op ops s))"
    by (induction ops arbitrary: s) (use life.run_op_contract in \<open>auto simp: moves_def\<close>)
  show "generation (sys_state s) \<noteq> 0 \<Longrightarrow> generation (sys_state (fold run_op ops s)) \<noteq> 0"
    by (induction ops arbitrary: s) (use life.run_op_contract in \<open>auto simp: moves_def\<close>)
qed

text \<open>
  C35: a detached authority never gives anything out again: after any further operations every
  attempt to reserve an item or the coins is rejected as retired and changes nothing.
\<close>

theorem detached_rejects_claims:
  assumes "length (ops @ ops') < 2 ^ 64 - 1" and "lifecycle_like_cpp (sys_state (run_ops ops)) = Detached"
  shows "reserve_item_with_mode_like_cpp (sys_authority (run_ops (ops @ ops'))) p lid mode g =
           (Some (Inl ErrRetired), sys_authority (run_ops (ops @ ops'))) \<and>
         reserve_money_for_optional_generation_like_cpp (sys_authority (run_ops (ops @ ops'))) p g =
           (Some (Inl ErrRetired), sys_authority (run_ops (ops @ ops')))"
proof -
  have "detached (sys_state (run_ops ops))" using assms(2) by (auto simp: lifecycle_like_cpp_def split: if_splits)
  then have "detached (sys_state (run_ops (ops @ ops')))" unfolding run_ops_append by (rule moves_later)
  moreover have "auth_inv (sys_state (run_ops (ops @ ops')))"
    using run_ops_inv [OF assms(1)] by (simp add: claims_inv_def)
  ultimately have "retired (sys_state (run_ops (ops @ ops')))" using inv_closed by blast
  then show ?thesis
    by (simp add: reserve_item_with_mode_like_cpp_def reserve_item_once_def
        reserve_money_for_optional_generation_like_cpp_def reserve_money_once_def)
qed

theorem detached_rejects_claims_witness:
  "fst (reserve_money_for_optional_generation_like_cpp
     (sys_authority (run_ops ([OpDetach] @ [OpReplace (Some sample_loot) []]))) sample_player None) = Some (Inl ErrRetired)"
proof -
  have n: "length ([OpDetach] @ [OpReplace (Some sample_loot) []]) < 2 ^ 64 - 1" by simp
  have d: "lifecycle_like_cpp (sys_state (run_ops [OpDetach])) = Detached"
    by (simp add: loot_simps detach_state_def)
  from detached_rejects_claims [OF n d] show ?thesis by simp
qed

text \<open>
  First-generation loot is installed at most once: after a successful initialization no
  later initialization installs, whatever happened in between.
\<close>

theorem initialize_installs_once:
  assumes "installed (fst (initialize_like_cpp (sys_authority (run_ops ops)) sh pe))"
  shows "\<not> installed (fst (initialize_like_cpp (sys_authority (run_ops (ops @ OpInitialize sh pe # ops'))) sh' pe'))"
proof -
  have "generation (sys_state (run_op (OpInitialize sh pe) (run_ops ops))) \<noteq> 0"
    using assms
    by (auto simp: initialize_like_cpp_def initialize_pristine_like_cpp_def installed_def Let_def set_authority_def
        install_pools_def next_scope_epoch_def bump_lifecycle_revision_def install_all_scope_epochs_def
        split: if_splits)
  then have "generation (sys_state (fold run_op ops' (run_op (OpInitialize sh pe) (run_ops ops)))) \<noteq> 0"
    by (rule moves_later)
  then show ?thesis
    unfolding run_ops_append
    by (simp add: initialize_like_cpp_def initialize_pristine_like_cpp_def installed_def Let_def)
qed

theorem initialize_installs_once_witness:
  "\<not> installed (fst (initialize_like_cpp
     (sys_authority (run_ops ([] @ OpInitialize (Some sample_loot) [] # [OpRetire]))) None []))"
  by (rule initialize_installs_once) (simp add: loot_simps installed_def)

section \<open>All or nothing\<close>

lemma notify_state: "auth_state (if b then notify_changed a else a) = auth_state a"
  by simp

text \<open>
  Opening a window either registers the viewer or leaves no trace.  If the response cannot
  be enqueued, or the pool cannot be opened, the authority is exactly what it was; otherwise
  the player is among the viewers of the selected pool and the pool counts as opened.
\<close>

theorem open_view_atomic:
  "case try_open_view_with_snapshot_like_cpp a p f of
     (Inl e, a') \<Rightarrow> a' = a
   | (Inr (out, r), a') \<Rightarrow>
       (\<exists>loot. loot_for_scope (auth_state a') (open_scope out) = Some loot \<and>
          p \<in> set (players_looting loot) \<and> looted_by_player loot)"
proof (cases "selected_scope_like_cpp (auth_state a) p")
  case None
  then show ?thesis by (simp add: try_open_view_with_snapshot_like_cpp_def Let_def)
next
  case (Some sc)
  note sel = Some
  from selected_scope_pool [OF Some] obtain l where l: "loot_for_scope (auth_state a) sc = Some l" by blast
  show ?thesis
  proof (cases "scope_epoch (auth_state a) sc")
    case None
    with Some show ?thesis by (simp add: try_open_view_with_snapshot_like_cpp_def Let_def)
  next
    case (Some e)
    show ?thesis
      unfolding try_open_view_with_snapshot_like_cpp_def Let_def sel Some l option.case
      by (simp add: l undo_open [OF l] filter_neq_id restore_looted_by_player split: option.split)
  qed
qed

text \<open>
  C36: a winning roll is published and reserved in one step.  Either the result is an error
  and the authority is exactly what it was, or the winner gets an active lease that holds its
  key, and the channel is notified.
\<close>

theorem roll_award_atomic:
  "case finish_item_roll_and_reserve_award_like_cpp a p g lid w of
     (Inl e, a') \<Rightarrow> a' = a
   | (Inr L, a') \<Rightarrow> lease_player L = w \<and> lease_status L = LEASE_ACTIVE \<and> lease_generation L = g \<and>
       hm_get (reservations (auth_state a)) (lease_key L) = None \<and>
       hm_get (reservations (auth_state a')) (lease_key L) = Some (lease_token L) \<and>
       auth_changed a' \<noteq> auth_changed a"
proof -
  obtain r a' where f: "finish_item_roll_and_reserve_award_like_cpp a p g lid w = (r, a')" by fastforce
  show ?thesis
  proof (cases r)
    case (Inl e)
    with award_failure_state f show ?thesis by auto
  next
    case (Inr L)
    with f obtain sc st2 gen token key payload where
      q: "reserve_item_once (loot_for_scope_mut sc (set_roll_fields lid False False w) (auth_state a)) w lid Award (Some g) =
            (Acquired gen token key payload, st2)"
      and L: "L = LootClaimLease_new gen token key w payload" and a': "a' = notify_changed (a\<lparr>auth_state := st2\<rparr>)"
      unfolding finish_item_roll_and_reserve_award_like_cpp_def Let_def
      by (auto split: if_splits option.splits prod.splits ReserveAttempt.splits)
    have g: "gen = g" using q by (auto simp: reserve_item_once_def Let_def next_token_def split: if_splits option.splits)
    have gr: "grants (loot_for_scope_mut sc (set_roll_fields lid False False w) (auth_state a)) st2 L"
      using reserve_item_cases [OF q] L by simp
    show ?thesis using gr f Inr a' g
      by (simp add: grants_def) (simp add: L LootClaimLease_new_def)
  qed
qed

text \<open>
  A session that opened an earlier lifetime of the pool cannot touch its replacement:
  removing or closing its view, or releasing the round robin, with a generation other than
  the current epoch of the selected pool reports \<open>None\<close> and changes nothing.
\<close>

theorem stale_release_ignored:
  assumes "\<forall>sc. selected_scope_like_cpp (auth_state a) p = Some sc \<longrightarrow> scope_epoch (auth_state a) sc \<noteq> Some g"
  shows "remove_viewer_if_generation_like_cpp a g p = (None, a) \<and>
         close_viewer_if_generation_like_cpp a g p = (None, a) \<and>
         clear_round_robin_if_generation_like_cpp a g p = (None, a)"
  using assms
  by (auto simp: remove_viewer_if_generation_like_cpp_def close_viewer_if_generation_like_cpp_def
      clear_round_robin_if_generation_like_cpp_def Let_def split: option.split)

theorem stale_release_ignored_witness:
  "close_viewer_if_generation_like_cpp (sys_authority (run_ops [OpReplace (Some sample_loot) [],
      OpOpenView sample_player True, OpReplace (Some sample_loot) []])) 1 sample_player =
   (None, sys_authority (run_ops [OpReplace (Some sample_loot) [],
      OpOpenView sample_player True, OpReplace (Some sample_loot) []]))"
proof -
  have "\<forall>sc. selected_scope_like_cpp (sys_state (run_ops [OpReplace (Some sample_loot) [],
      OpOpenView sample_player True, OpReplace (Some sample_loot) []])) sample_player = Some sc \<longrightarrow>
      scope_epoch (sys_state (run_ops [OpReplace (Some sample_loot) [],
      OpOpenView sample_player True, OpReplace (Some sample_loot) []])) sc \<noteq> Some 1"
    by (simp add: loot_simps replace_like_cpp_def try_open_view_with_snapshot_like_cpp_def)
  from stale_release_ignored [OF this] show ?thesis by simp
qed

end
