(* ===== verification/GroupModel.thy ===== *)
theory GroupModel
  imports Guid "HOL-Library.Product_Lexorder"
begin

text \<open>
  Group identity, owned state and storage of \<open>crates/wow-social/src/group/model.rs\<close>, with
  the facts and persistence intents of \<open>outcome.rs\<close>.  The four process-wide statics are the
  record \<open>GroupIds\<close>; \<open>GroupAuthority\<close> joins them with the registry.  A lock that is
  taken and released inside one function is not a separate step, since no other lock is held
  across it.  \<open>sequence_num\<close> is a \<open>u32\<close> whose increment wraps (release profile).
\<close>

section \<open>Constants\<close>

definition GROUP_FLAG_RAID_LIKE_CPP :: u16 where "GROUP_FLAG_RAID_LIKE_CPP = 0x002"
definition GROUP_FLAG_LFG_LIKE_CPP :: u16 where "GROUP_FLAG_LFG_LIKE_CPP = 0x008"
definition GROUP_FLAG_EVERYONE_ASSISTANT_LIKE_CPP :: u16 where
  "GROUP_FLAG_EVERYONE_ASSISTANT_LIKE_CPP = 0x040"
definition GROUP_CATEGORY_HOME_LIKE_CPP :: u8 where "GROUP_CATEGORY_HOME_LIKE_CPP = 0"
definition GROUP_CATEGORY_INSTANCE_LIKE_CPP :: u8 where "GROUP_CATEGORY_INSTANCE_LIKE_CPP = 1"
definition MAX_GROUP_CATEGORY_LIKE_CPP :: u8 where "MAX_GROUP_CATEGORY_LIKE_CPP = 2"
definition LFG_STATE_DUNGEON_LIKE_CPP :: u8 where "LFG_STATE_DUNGEON_LIKE_CPP = 5"
definition LFG_STATE_FINISHED_DUNGEON_LIKE_CPP :: u8 where "LFG_STATE_FINISHED_DUNGEON_LIKE_CPP = 6"
definition LFG_GROUP_MAX_KICKS_LIKE_CPP :: u8 where "LFG_GROUP_MAX_KICKS_LIKE_CPP = 3"
definition LFG_GROUP_KICK_VOTES_NEEDED_LIKE_CPP :: nat where
  "LFG_GROUP_KICK_VOTES_NEEDED_LIKE_CPP = 3"
definition MEMBER_FLAG_ASSISTANT_LIKE_CPP :: u8 where "MEMBER_FLAG_ASSISTANT_LIKE_CPP = 0x01"
definition MEMBER_FLAG_MAINTANK_LIKE_CPP :: u8 where "MEMBER_FLAG_MAINTANK_LIKE_CPP = 0x02"
definition MEMBER_FLAG_MAINASSIST_LIKE_CPP :: u8 where "MEMBER_FLAG_MAINASSIST_LIKE_CPP = 0x04"
definition GROUP_ASSIGN_MAINTANK_LIKE_CPP :: u8 where "GROUP_ASSIGN_MAINTANK_LIKE_CPP = 0"
definition GROUP_ASSIGN_MAINASSIST_LIKE_CPP :: u8 where "GROUP_ASSIGN_MAINASSIST_LIKE_CPP = 1"
definition MAX_GROUP_SIZE_LIKE_CPP :: nat where "MAX_GROUP_SIZE_LIKE_CPP = 5"
definition MAX_RAID_SIZE_LIKE_CPP :: nat where "MAX_RAID_SIZE_LIKE_CPP = 40"
definition MAX_RAID_SUBGROUPS_LIKE_CPP :: nat where
  "MAX_RAID_SUBGROUPS_LIKE_CPP = MAX_RAID_SIZE_LIKE_CPP div MAX_GROUP_SIZE_LIKE_CPP"
definition MISSING_MEMBER_GROUP_LIKE_CPP :: u8 where
  "MISSING_MEMBER_GROUP_LIKE_CPP = of_nat MAX_RAID_SUBGROUPS_LIKE_CPP + 1"
definition LOOT_METHOD_FREE_FOR_ALL_LIKE_CPP :: u8 where "LOOT_METHOD_FREE_FOR_ALL_LIKE_CPP = 0"
definition LOOT_METHOD_PERSONAL_LIKE_CPP :: u8 where "LOOT_METHOD_PERSONAL_LIKE_CPP = 5"
definition ITEM_QUALITY_UNCOMMON_LIKE_CPP :: u8 where "ITEM_QUALITY_UNCOMMON_LIKE_CPP = 2"
definition DIFFICULTY_NORMAL_LIKE_CPP :: u32 where "DIFFICULTY_NORMAL_LIKE_CPP = 1"
definition DIFFICULTY_NORMAL_RAID_LIKE_CPP :: u32 where "DIFFICULTY_NORMAL_RAID_LIKE_CPP = 14"
definition DIFFICULTY_10_N_LIKE_CPP :: u32 where "DIFFICULTY_10_N_LIKE_CPP = 3"
definition TARGET_ICONS_COUNT_LIKE_CPP :: nat where "TARGET_ICONS_COUNT_LIKE_CPP = 8"
definition EMPTY_TARGET_ICON_RAW_LIKE_CPP :: "u8 list" where
  "EMPTY_TARGET_ICON_RAW_LIKE_CPP = replicate 16 0"
definition RAID_MARKERS_COUNT_LIKE_CPP :: nat where "RAID_MARKERS_COUNT_LIKE_CPP = 8"

section \<open>Records\<close>

record GroupMemberCharacterLikeCpp =
  character_name :: string
  character_race :: u8
  character_class :: u8

record GroupMemberSlotLikeCpp =
  slot_guid :: ObjectGuid
  slot_name :: string
  slot_race :: u8
  slot_class :: u8
  slot_subgroup :: u8
  slot_flags :: u8
  slot_roles :: u8
  slot_ready_checked :: bool

record GroupDbRowLikeCpp =
  row_leader_guid_low :: u64
  row_loot_method :: u8
  row_looter_guid_low :: u64
  row_loot_threshold :: u8
  row_target_icons :: "u8 list list"
  row_group_flags :: u16
  row_dungeon_difficulty_id :: u32
  row_raid_difficulty_id :: u32
  row_legacy_raid_difficulty_id :: u32
  row_master_looter_guid_low :: u64
  row_db_store_id :: u32
  row_lfg_dungeon_id :: "u32 option"
  row_lfg_state :: "u8 option"

record GroupMemberDbRowLikeCpp =
  mrow_db_store_id :: u32
  mrow_member_guid_low :: u64
  mrow_member_flags :: u8
  mrow_subgroup :: u8
  mrow_roles :: u8

record GroupRecentInstanceLikeCpp =
  instance_owner :: ObjectGuid
  recent_instance_id :: u32

record GroupOwnedInstanceLikeCpp =
  owned_map_id :: u32
  owned_instance_id :: u32

datatype GroupInstanceResetMethodLikeCpp = ResetManual | ResetOnChangeDifficulty

datatype GroupInstanceResetResultLikeCpp = ResetSuccess | ResetNotEmpty | ResetCannotReset | ResetOther

datatype GroupDifficultyKindLikeCpp = DiffDungeon | DiffRaid | DiffLegacyRaid

record GroupLoadSummaryLikeCpp =
  loaded_groups :: nat
  loaded_member_rows :: nat
  loaded_members :: nat
  skipped_group_rows :: nat
  skipped_member_rows :: nat

record GroupLfgDbStateLikeCpp =
  lfg_dungeon_id :: u32
  lfg_state :: "u8 option"

record Position =
  pos_x :: f32
  pos_y :: f32
  pos_z :: f32
  pos_orientation :: f32

record RaidMarkerLikeCpp =
  marker_map_id :: u32
  marker_position :: Position
  marker_transport_guid :: ObjectGuid

record GroupInfo =
  group_guid :: u64
  db_store_id :: u32
  leader_guid :: ObjectGuid
  group_category :: u8
  group_members :: "ObjectGuid list"
  member_slots :: "GroupMemberSlotLikeCpp list"
  group_loot_method :: u8
  looter_guid :: ObjectGuid
  loot_threshold :: u8
  master_looter_guid :: ObjectGuid
  dungeon_difficulty_id :: u32
  raid_difficulty_id :: u32
  legacy_raid_difficulty_id :: u32
  target_icons :: "u8 list list"
  raid_markers :: "RaidMarkerLikeCpp option list"
  recent_instances :: "(u32 \<times> GroupRecentInstanceLikeCpp) list"
  owned_instances :: "((u32 \<times> u32) \<times> GroupOwnedInstanceLikeCpp) list"
  lfg_db_state :: "GroupLfgDbStateLikeCpp option"
  lfg_kicks_left_like_cpp :: u8
  raid_subgroup_counts :: "u8 list option"
  ready_check_started :: bool
  ready_check_timer_ms :: int
  sequence_num :: u32
  group_flags :: u16

type_synonym GroupRegistry = "(u64, GroupInfo) hash_map"

text \<open>\<open>NEXT_GROUP_ID\<close>, \<open>NEXT_GROUP_DB_STORE_ID\<close>, \<open>FREED_GROUP_DB_STORE_IDS\<close>, \<open>GROUP_DB_STORE\<close>.\<close>

record GroupIds =
  next_group_id :: u64
  next_group_db_store_id :: u32
  freed_group_db_store_ids :: "u32 list"
  group_db_store :: "u64 option list"

record GroupAuthority =
  group_ids :: GroupIds
  groups :: GroupRegistry

section \<open>Outcomes\<close>

datatype GroupAuthorityErrorLikeCpp =
    MissingGroup | MissingMember | NotLeader | NotLeaderOrAssistant | InvalidSubgroup |
    SubgroupFull | NotRaid | GroupTooLarge | NoChange | LfgGroup | LfgBootLimit |
    LfgBootTooFewPlayers | LfgBootDungeonComplete | LfgBootLootRolls | LfgBootInCombat |
    LfgKickOwnedByVote | InviteRestricted | TargetIsLeader

datatype GroupPersistenceIntentLikeCpp =
    InsertGroup u32 ObjectGuid u8 ObjectGuid u8 u16 u32 u32 u32 ObjectGuid
  | InsertMember u32 ObjectGuid u8 u8 u8
  | DeleteGroup u32
  | DeleteAllMembers u32
  | DeleteLfgData u32
  | DeleteMember ObjectGuid
  | UpdateLeader u32 ObjectGuid
  | UpdateGroupType u32 u16
  | UpdateMemberSubgroup ObjectGuid u8
  | UpdateMemberFlags ObjectGuid u8
  | UpdateDifficulty u32 GroupDifficultyKindLikeCpp u32

record 'f GroupTransitionOutcomeLikeCpp =
  outcome_group :: GroupInfo
  outcome_facts :: 'f
  outcome_persistence :: "GroupPersistenceIntentLikeCpp list"

record GroupMemberRemovalFactsLikeCpp =
  removed_guid :: ObjectGuid
  removal_db_store_id :: u32
  disbanded :: bool
  new_leader_guid :: "ObjectGuid option"
  remaining_members :: "ObjectGuid list"

datatype GroupMemberRemovalKindLikeCpp =
  Leave | Kick ObjectGuid bool bool bool

section \<open>Identifier allocation\<close>

text \<open>\<open>Vec::swap_remove\<close>: the last element takes the place of the removed one.\<close>

definition swap_remove :: "nat \<Rightarrow> 'a list \<Rightarrow> 'a list" where
  "swap_remove i xs = butlast (xs[i := last xs])"

text \<open>The position of the first minimum.\<close>

definition min_position :: "u32 list \<Rightarrow> nat option" where
  "min_position xs = (if xs = [] then None else position (\<lambda>x. x = Min (set xs)) xs)"

definition generate_group_db_store_id_like_cpp :: "GroupIds \<Rightarrow> u32 \<times> GroupIds" where
  "generate_group_db_store_id_like_cpp ids =
     (case min_position (freed_group_db_store_ids ids) of
        Some index \<Rightarrow>
          (freed_group_db_store_ids ids ! index,
           ids\<lparr>freed_group_db_store_ids := swap_remove index (freed_group_db_store_ids ids)\<rparr>)
      | None \<Rightarrow>
          (next_group_db_store_id ids, ids\<lparr>next_group_db_store_id := next_group_db_store_id ids + 1\<rparr>))"

definition generate_group_id_like_cpp :: "GroupIds \<Rightarrow> u64 \<times> GroupIds" where
  "generate_group_id_like_cpp ids = (next_group_id ids, ids\<lparr>next_group_id := next_group_id ids + 1\<rparr>)"

definition advance_next_group_db_store_id_after_load_like_cpp :: "u32 \<Rightarrow> GroupIds \<Rightarrow> GroupIds" where
  "advance_next_group_db_store_id_after_load_like_cpp storage_id ids =
     (if next_group_db_store_id ids = storage_id
      then ids\<lparr>next_group_db_store_id := saturating_add storage_id 1\<rparr> else ids)"

definition represented_lfg_db_state_like_cpp ::
  "u16 \<Rightarrow> u32 option \<Rightarrow> u8 option \<Rightarrow> GroupLfgDbStateLikeCpp option" where
  "represented_lfg_db_state_like_cpp flags dungeon_opt state_opt =
     (if flags AND GROUP_FLAG_LFG_LIKE_CPP = 0 then None
      else
       (let dungeon = (case dungeon_opt of None \<Rightarrow> 0 | Some d \<Rightarrow> d);
            state = (case state_opt of None \<Rightarrow> 0 | Some s \<Rightarrow> s)
        in if dungeon = 0 \<or> state = 0 then None
           else Some \<lparr>lfg_dungeon_id = dungeon,
                      lfg_state = (if state = LFG_STATE_DUNGEON_LIKE_CPP \<or>
                                      state = LFG_STATE_FINISHED_DUNGEON_LIKE_CPP
                                   then Some state else None)\<rparr>))"

definition free_group_db_store_id_like_cpp :: "u32 \<Rightarrow> GroupIds \<Rightarrow> GroupIds" where
  "free_group_db_store_id_like_cpp storage_id ids =
     (if storage_id = 0 then ids
      else
       (let ids1 = ids\<lparr>group_db_store := (group_db_store ids)[unat storage_id := None]\<rparr>
        in if storage_id \<notin> set (freed_group_db_store_ids ids1)
           then ids1\<lparr>freed_group_db_store_ids := freed_group_db_store_ids ids1 @ [storage_id]\<rparr>
           else ids1))"

definition register_group_db_store_id_like_cpp :: "u32 \<Rightarrow> u64 \<Rightarrow> GroupIds \<Rightarrow> GroupIds" where
  "register_group_db_store_id_like_cpp storage_id runtime_group_guid ids =
     (let store = group_db_store ids;
          index = unat storage_id;
          store1 = (if index \<ge> length store
                    then store @ replicate (index + 1 - length store) None else store)
      in ids\<lparr>group_db_store := store1[index := Some runtime_group_guid]\<rparr>)"

definition group_guid_by_db_store_id_like_cpp :: "GroupIds \<Rightarrow> u32 \<Rightarrow> u64 option" where
  "group_guid_by_db_store_id_like_cpp ids storage_id =
     (if unat storage_id < length (group_db_store ids)
      then group_db_store ids ! unat storage_id else None)"

definition get_group_by_db_store_id_like_cpp :: "GroupAuthority \<Rightarrow> u32 \<Rightarrow> GroupInfo option" where
  "get_group_by_db_store_id_like_cpp a storage_id =
     (case group_guid_by_db_store_id_like_cpp (group_ids a) storage_id of None \<Rightarrow> None
      | Some gid \<Rightarrow> hm_get (groups a) gid)"

section \<open>Group records\<close>

definition is_raid_group :: "GroupInfo \<Rightarrow> bool" where
  "is_raid_group g = (group_flags g AND GROUP_FLAG_RAID_LIKE_CPP \<noteq> 0)"

definition is_full_like_cpp :: "GroupInfo \<Rightarrow> bool" where
  "is_full_like_cpp g =
     (length (group_members g) \<ge>
        (if is_raid_group g then MAX_RAID_SIZE_LIKE_CPP else MAX_GROUP_SIZE_LIKE_CPP))"

definition is_lfg_group_like_cpp :: "GroupInfo \<Rightarrow> bool" where
  "is_lfg_group_like_cpp g = (group_flags g AND GROUP_FLAG_LFG_LIKE_CPP \<noteq> 0)"

definition group_is_empty :: "GroupInfo \<Rightarrow> bool" where
  "group_is_empty g = (length (group_members g) < 2)"

definition fresh_slot :: "ObjectGuid \<Rightarrow> u8 \<Rightarrow> GroupMemberSlotLikeCpp" where
  "fresh_slot guid subgroup =
     \<lparr>slot_guid = guid, slot_name = '''', slot_race = 0, slot_class = 0, slot_subgroup = subgroup,
      slot_flags = 0, slot_roles = 0, slot_ready_checked = False\<rparr>"

definition GroupInfo_new :: "ObjectGuid \<Rightarrow> GroupIds \<Rightarrow> GroupInfo \<times> GroupIds" where
  "GroupInfo_new leader ids =
     (let (gid, ids1) = generate_group_id_like_cpp ids;
          (sid, ids2) = generate_group_db_store_id_like_cpp ids1
      in (\<lparr>group_guid = gid, db_store_id = sid, leader_guid = leader,
           group_category = GROUP_CATEGORY_HOME_LIKE_CPP, group_members = [leader],
           member_slots = [fresh_slot leader 0], group_loot_method = LOOT_METHOD_PERSONAL_LIKE_CPP,
           looter_guid = leader, loot_threshold = ITEM_QUALITY_UNCOMMON_LIKE_CPP,
           master_looter_guid = ObjectGuid_EMPTY, dungeon_difficulty_id = DIFFICULTY_NORMAL_LIKE_CPP,
           raid_difficulty_id = DIFFICULTY_NORMAL_RAID_LIKE_CPP,
           legacy_raid_difficulty_id = DIFFICULTY_10_N_LIKE_CPP,
           target_icons = replicate TARGET_ICONS_COUNT_LIKE_CPP EMPTY_TARGET_ICON_RAW_LIKE_CPP,
           raid_markers = replicate RAID_MARKERS_COUNT_LIKE_CPP None, recent_instances = [],
           owned_instances = [], lfg_db_state = None, lfg_kicks_left_like_cpp = 0,
           raid_subgroup_counts = None, ready_check_started = False, ready_check_timer_ms = 0,
           sequence_num = 1, group_flags = 0\<rparr>, ids2))"

definition loaded_from_db_like_cpp ::
  "u64 \<Rightarrow> u32 \<Rightarrow> ObjectGuid \<Rightarrow> u8 \<Rightarrow> ObjectGuid \<Rightarrow> u8 \<Rightarrow> u16 \<Rightarrow> u32 \<Rightarrow> u32 \<Rightarrow> u32 \<Rightarrow> ObjectGuid \<Rightarrow> GroupInfo"
  where
  "loaded_from_db_like_cpp gid sid leader lmethod looter threshold flags dd rd ld master_looter =
     \<lparr>group_guid = gid, db_store_id = sid, leader_guid = leader,
      group_category = GROUP_CATEGORY_HOME_LIKE_CPP, group_members = [], member_slots = [],
      group_loot_method = lmethod, looter_guid = looter, loot_threshold = threshold,
      master_looter_guid = master_looter, dungeon_difficulty_id = dd, raid_difficulty_id = rd,
      legacy_raid_difficulty_id = ld,
      target_icons = replicate TARGET_ICONS_COUNT_LIKE_CPP EMPTY_TARGET_ICON_RAW_LIKE_CPP,
      raid_markers = replicate RAID_MARKERS_COUNT_LIKE_CPP None, recent_instances = [],
      owned_instances = [], lfg_db_state = None,
      lfg_kicks_left_like_cpp =
        (if flags AND GROUP_FLAG_LFG_LIKE_CPP \<noteq> 0 then LFG_GROUP_MAX_KICKS_LIKE_CPP else 0),
      raid_subgroup_counts =
        (if flags AND GROUP_FLAG_RAID_LIKE_CPP \<noteq> 0
         then Some (replicate MAX_RAID_SUBGROUPS_LIKE_CPP 0) else None),
      ready_check_started = False, ready_check_timer_ms = 0, sequence_num = 1, group_flags = flags\<rparr>"

text \<open>
  The difficulty validator is a trait the composition root implements over the client
  database: a parameter of the loading functions.
\<close>

record GroupDifficultyValidatorLikeCpp =
  check_loaded_dungeon_difficulty_id_like_cpp :: "u32 \<Rightarrow> u32"
  check_loaded_raid_difficulty_id_like_cpp :: "u32 \<Rightarrow> u32"
  check_loaded_legacy_raid_difficulty_id_like_cpp :: "u32 \<Rightarrow> u32"

definition loaded_from_db_validated_like_cpp ::
  "u64 \<Rightarrow> u32 \<Rightarrow> ObjectGuid \<Rightarrow> u8 \<Rightarrow> ObjectGuid \<Rightarrow> u8 \<Rightarrow> u16 \<Rightarrow> u32 \<Rightarrow> u32 \<Rightarrow> u32 \<Rightarrow> ObjectGuid
     \<Rightarrow> GroupDifficultyValidatorLikeCpp \<Rightarrow> GroupInfo" where
  "loaded_from_db_validated_like_cpp gid sid leader lmethod looter threshold flags dd rd ld master_looter v =
     loaded_from_db_like_cpp gid sid leader lmethod looter threshold flags
       (check_loaded_dungeon_difficulty_id_like_cpp v dd) (check_loaded_raid_difficulty_id_like_cpp v rd)
       (check_loaded_legacy_raid_difficulty_id_like_cpp v ld) master_looter"

text \<open>\<open>i64::try_from\<close> on a \<open>u64\<close>.\<close>

definition i64_try_from :: "u64 \<Rightarrow> i64 option" where
  "i64_try_from w = (if unat w < 2 ^ 63 then Some w else None)"

definition load_group_from_db_row_validated_like_cpp ::
  "u64 \<Rightarrow> GroupDbRowLikeCpp \<Rightarrow> GroupMemberCharacterLikeCpp option \<Rightarrow> GroupDifficultyValidatorLikeCpp
     \<Rightarrow> GroupInfo option" where
  "load_group_from_db_row_validated_like_cpp gid row leader v =
     (case leader of None \<Rightarrow> None | Some _ \<Rightarrow>
     (case i64_try_from (row_leader_guid_low row) of None \<Rightarrow> None | Some leader_id \<Rightarrow>
     (case i64_try_from (row_looter_guid_low row) of None \<Rightarrow> None | Some looter_id \<Rightarrow>
     (case i64_try_from (row_master_looter_guid_low row) of None \<Rightarrow> None | Some master_id \<Rightarrow>
       (let g = loaded_from_db_validated_like_cpp gid (row_db_store_id row) (create_player 1 leader_id)
                  (row_loot_method row) (create_player 1 looter_id) (row_loot_threshold row)
                  (row_group_flags row) (row_dungeon_difficulty_id row) (row_raid_difficulty_id row)
                  (row_legacy_raid_difficulty_id row) (create_player 1 master_id) v
        in Some (g\<lparr>target_icons := row_target_icons row,
                   lfg_db_state := represented_lfg_db_state_like_cpp (row_group_flags row)
                     (row_lfg_dungeon_id row) (row_lfg_state row)\<rparr>))))))"

definition group_category_like_cpp :: "GroupInfo \<Rightarrow> u8" where
  "group_category_like_cpp g = group_category g"

definition recent_instance_owner_like_cpp :: "GroupInfo \<Rightarrow> u32 \<Rightarrow> ObjectGuid" where
  "recent_instance_owner_like_cpp g mapid =
     (case map_of (recent_instances g) mapid of None \<Rightarrow> leader_guid g
      | Some recent \<Rightarrow> instance_owner recent)"

definition recent_instance_id_like_cpp :: "GroupInfo \<Rightarrow> u32 \<Rightarrow> u32" where
  "recent_instance_id_like_cpp g mapid =
     (case map_of (recent_instances g) mapid of None \<Rightarrow> 0
      | Some recent \<Rightarrow> recent_instance_id recent)"

definition set_recent_instance_like_cpp :: "u32 \<Rightarrow> ObjectGuid \<Rightarrow> u32 \<Rightarrow> GroupInfo \<Rightarrow> GroupInfo" where
  "set_recent_instance_like_cpp mapid owner iid g =
     g\<lparr>recent_instances := bt_insert mapid \<lparr>instance_owner = owner, recent_instance_id = iid\<rparr>
         (recent_instances g)\<rparr>"

definition forget_recent_instance_like_cpp :: "u32 \<Rightarrow> GroupInfo \<Rightarrow> bool \<times> GroupInfo" where
  "forget_recent_instance_like_cpp mapid g =
     (map_of (recent_instances g) mapid \<noteq> None,
      g\<lparr>recent_instances := AList.delete mapid (recent_instances g)\<rparr>)"

definition link_owned_instance_like_cpp :: "u32 \<Rightarrow> u32 \<Rightarrow> GroupInfo \<Rightarrow> bool \<times> GroupInfo" where
  "link_owned_instance_like_cpp mapid iid g =
     (map_of (owned_instances g) (mapid, iid) = None,
      g\<lparr>owned_instances := bt_insert (mapid, iid) \<lparr>owned_map_id = mapid, owned_instance_id = iid\<rparr>
          (owned_instances g)\<rparr>)"

definition unlink_owned_instance_like_cpp :: "u32 \<Rightarrow> u32 \<Rightarrow> GroupInfo \<Rightarrow> bool \<times> GroupInfo" where
  "unlink_owned_instance_like_cpp mapid iid g =
     (map_of (owned_instances g) (mapid, iid) \<noteq> None,
      g\<lparr>owned_instances := AList.delete (mapid, iid) (owned_instances g)\<rparr>)"

definition owned_instances_like_cpp :: "GroupInfo \<Rightarrow> GroupOwnedInstanceLikeCpp list" where
  "owned_instances_like_cpp g = map snd (owned_instances g)"

definition apply_owned_instance_reset_result_like_cpp ::
  "u32 \<Rightarrow> GroupInstanceResetResultLikeCpp \<Rightarrow> GroupInstanceResetMethodLikeCpp \<Rightarrow> GroupInfo
     \<Rightarrow> bool \<times> GroupInfo" where
  "apply_owned_instance_reset_result_like_cpp mapid result reset_method g =
     (case result of
        ResetSuccess \<Rightarrow> forget_recent_instance_like_cpp mapid g
      | ResetCannotReset \<Rightarrow> forget_recent_instance_like_cpp mapid g
      | ResetNotEmpty \<Rightarrow>
          (if reset_method = ResetOnChangeDifficulty
           then forget_recent_instance_like_cpp mapid g else (False, g))
      | ResetOther \<Rightarrow> (False, g))"

definition matches_party_index_like_cpp :: "GroupInfo \<Rightarrow> u8 option \<Rightarrow> bool" where
  "matches_party_index_like_cpp g party_index =
     (case party_index of None \<Rightarrow> True
      | Some index \<Rightarrow> if index < MAX_GROUP_CATEGORY_LIKE_CPP then group_category g = index else False)"

section \<open>The registry\<close>

definition GroupIds_initial :: GroupIds where
  "GroupIds_initial =
     \<lparr>next_group_id = 1, next_group_db_store_id = 1, freed_group_db_store_ids = [], group_db_store = []\<rparr>"

definition registry_new :: GroupAuthority where
  "registry_new = \<lparr>group_ids = GroupIds_initial, groups = []\<rparr>"

definition registry_get :: "GroupAuthority \<Rightarrow> u64 \<Rightarrow> GroupInfo option" where
  "registry_get a gid = hm_get (groups a) gid"

definition registry_contains_key :: "GroupAuthority \<Rightarrow> u64 \<Rightarrow> bool" where
  "registry_contains_key a gid = hm_contains_key (groups a) gid"

definition snapshots :: "GroupAuthority \<Rightarrow> GroupInfo list" where
  "snapshots a = hm_values (groups a)"

text \<open>\<open>None\<close> is the failed assertion that key and group identity agree.\<close>

definition register_group_like_cpp ::
  "u64 \<Rightarrow> GroupInfo \<Rightarrow> GroupAuthority \<Rightarrow> (GroupInfo option \<times> GroupAuthority) option" where
  "register_group_like_cpp gid g a =
     (if gid \<noteq> group_guid g then None
      else
       (let sid = db_store_id g;
            ids1 = register_group_db_store_id_like_cpp sid gid (group_ids a);
            previous = hm_get (groups a) gid;
            ids2 = (case previous of None \<Rightarrow> ids1
                    | Some p \<Rightarrow> if db_store_id p \<noteq> sid
                                then free_group_db_store_id_like_cpp (db_store_id p) ids1 else ids1)
        in Some (previous, a\<lparr>group_ids := ids2, groups := hm_insert gid g (groups a)\<rparr>)))"

definition unregister_group_like_cpp :: "u64 \<Rightarrow> GroupAuthority \<Rightarrow> GroupInfo option \<times> GroupAuthority" where
  "unregister_group_like_cpp gid a =
     (case hm_get (groups a) gid of None \<Rightarrow> (None, a)
      | Some g \<Rightarrow> (Some g, a\<lparr>groups := hm_remove gid (groups a),
                           group_ids := free_group_db_store_id_like_cpp (db_store_id g) (group_ids a)\<rparr>))"

text \<open>
  The shape of every transition: \<open>get_mut\<close> or \<open>MissingGroup\<close>, then the body on the group;
  an outcome carries a copy of the group as the body left it.
\<close>

type_synonym 'f group_body =
  "GroupInfo \<Rightarrow> (GroupAuthorityErrorLikeCpp + 'f \<times> GroupPersistenceIntentLikeCpp list) \<times> GroupInfo"

type_synonym 'f group_transition =
  "GroupAuthority \<Rightarrow> (GroupAuthorityErrorLikeCpp + 'f GroupTransitionOutcomeLikeCpp) \<times> GroupAuthority"

definition with_group :: "u64 \<Rightarrow> 'f group_body \<Rightarrow> 'f group_transition" where
  "with_group gid body a =
     (case hm_get (groups a) gid of None \<Rightarrow> (Inl MissingGroup, a)
      | Some g \<Rightarrow>
          (case body g of
             (Inl e, g') \<Rightarrow> (Inl e, a\<lparr>groups := hm_insert gid g' (groups a)\<rparr>)
           | (Inr (facts, intents), g') \<Rightarrow>
               (Inr \<lparr>outcome_group = g', outcome_facts = facts, outcome_persistence = intents\<rparr>,
                a\<lparr>groups := hm_insert gid g' (groups a)\<rparr>)))"

definition bump_sequence :: "GroupInfo \<Rightarrow> GroupInfo" where
  "bump_sequence g = g\<lparr>sequence_num := sequence_num g + 1\<rparr>"

end
