(* ===== verification/GroupMembership.thy ===== *)
theory GroupMembership
  imports GroupModel
begin

text \<open>
  \<open>crates/wow-social/src/group/membership.rs\<close>: joining, leaving, roles, member flags and
  raid subgroups of one group, the registry transitions built on them, and the loading of
  groups from database rows (\<open>load_groups_from_db_rows_like_cpp\<close> of \<open>model.rs\<close>, which needs
  the member loading of this file).  Operations that take \<open>&mut self\<close> return the changed
  group; a transition returns its result and the changed authority.
\<close>

section \<open>Subgroup counters\<close>

definition subgroup_counter_increase_like_cpp :: "u8 \<Rightarrow> GroupInfo \<Rightarrow> bool \<times> GroupInfo" where
  "subgroup_counter_increase_like_cpp subgroup g =
     (case raid_subgroup_counts g of None \<Rightarrow> (True, g)
      | Some counts \<Rightarrow>
          (if unat subgroup < length counts
           then (True, g\<lparr>raid_subgroup_counts :=
                    Some (counts[unat subgroup := saturating_add (counts ! unat subgroup) 1])\<rparr>)
           else (False, g)))"

definition subgroup_counter_decrease_like_cpp :: "u8 \<Rightarrow> GroupInfo \<Rightarrow> GroupInfo" where
  "subgroup_counter_decrease_like_cpp subgroup g =
     (case raid_subgroup_counts g of None \<Rightarrow> g
      | Some counts \<Rightarrow>
          (if unat subgroup < length counts
           then g\<lparr>raid_subgroup_counts :=
                    Some (counts[unat subgroup := saturating_sub (counts ! unat subgroup) 1])\<rparr>
           else g))"

definition count_slot :: "u8 list \<Rightarrow> GroupMemberSlotLikeCpp \<Rightarrow> u8 list" where
  "count_slot counts slot =
     (if unat (slot_subgroup slot) < length counts
      then counts[unat (slot_subgroup slot) :=
                    saturating_add (counts ! unat (slot_subgroup slot)) 1]
      else counts)"

definition init_raid_subgroups_counter_like_cpp :: "GroupInfo \<Rightarrow> GroupInfo" where
  "init_raid_subgroups_counter_like_cpp g =
     g\<lparr>raid_subgroup_counts :=
         Some (foldl count_slot (replicate MAX_RAID_SUBGROUPS_LIKE_CPP 0) (member_slots g))\<rparr>"

section \<open>Members\<close>

definition add_member :: "ObjectGuid \<Rightarrow> GroupInfo \<Rightarrow> bool \<times> GroupInfo" where
  "add_member guid g =
     (if guid \<in> set (group_members g) then (False, g)
      else
       (case (case raid_subgroup_counts g of None \<Rightarrow> Some 0
              | Some counts \<Rightarrow>
                  map_option of_nat (position (\<lambda>c. unat c < MAX_GROUP_SIZE_LIKE_CPP) counts)) of
          None \<Rightarrow> (False, g)
        | Some subgroup \<Rightarrow>
            (case subgroup_counter_increase_like_cpp subgroup g of
               (False, g1) \<Rightarrow> (False, g1)
             | (True, g1) \<Rightarrow>
                 (True, bump_sequence
                    (g1\<lparr>group_members := group_members g1 @ [guid],
                        member_slots := member_slots g1 @ [fresh_slot guid subgroup]\<rparr>)))))"

definition member_slot_like_cpp :: "GroupInfo \<Rightarrow> ObjectGuid \<Rightarrow> GroupMemberSlotLikeCpp option" where
  "member_slot_like_cpp g guid = find (\<lambda>slot. slot_guid slot = guid) (member_slots g)"

definition member_group_like_cpp :: "GroupInfo \<Rightarrow> ObjectGuid \<Rightarrow> u8" where
  "member_group_like_cpp g guid =
     (case member_slot_like_cpp g guid of None \<Rightarrow> MISSING_MEMBER_GROUP_LIKE_CPP
      | Some slot \<Rightarrow> slot_subgroup slot)"

definition get_lfg_roles_like_cpp :: "GroupInfo \<Rightarrow> ObjectGuid \<Rightarrow> u8" where
  "get_lfg_roles_like_cpp g guid =
     (case member_slot_like_cpp g guid of None \<Rightarrow> 0 | Some slot \<Rightarrow> slot_roles slot)"

definition set_lfg_roles_like_cpp :: "ObjectGuid \<Rightarrow> u8 \<Rightarrow> GroupInfo \<Rightarrow> bool \<times> GroupInfo" where
  "set_lfg_roles_like_cpp guid roles g =
     (case member_slot_like_cpp g guid of None \<Rightarrow> (False, g)
      | Some _ \<Rightarrow>
          (True, g\<lparr>member_slots := update_first (\<lambda>slot. slot_guid slot = guid)
                                     (\<lambda>slot. slot\<lparr>slot_roles := roles\<rparr>) (member_slots g)\<rparr>))"

definition has_free_slot_sub_group_like_cpp :: "GroupInfo \<Rightarrow> u8 \<Rightarrow> bool" where
  "has_free_slot_sub_group_like_cpp g subgroup =
     (case raid_subgroup_counts g of None \<Rightarrow> False
      | Some counts \<Rightarrow>
          unat subgroup < length counts \<and> unat (counts ! unat subgroup) < MAX_GROUP_SIZE_LIKE_CPP)"

definition is_leader_like_cpp :: "GroupInfo \<Rightarrow> ObjectGuid \<Rightarrow> bool" where
  "is_leader_like_cpp g guid = (leader_guid g = guid)"

definition is_assistant_like_cpp :: "GroupInfo \<Rightarrow> ObjectGuid \<Rightarrow> bool" where
  "is_assistant_like_cpp g guid =
     list_ex (\<lambda>slot. slot_guid slot = guid \<and> slot_flags slot AND MEMBER_FLAG_ASSISTANT_LIKE_CPP \<noteq> 0)
       (member_slots g)"

definition slot_position :: "ObjectGuid \<Rightarrow> GroupInfo \<Rightarrow> nat option" where
  "slot_position guid g = position (\<lambda>slot. slot_guid slot = guid) (member_slots g)"

definition set_slot_subgroup :: "nat \<Rightarrow> u8 \<Rightarrow> GroupInfo \<Rightarrow> GroupInfo" where
  "set_slot_subgroup i subgroup g =
     g\<lparr>member_slots := (member_slots g)[i := (member_slots g ! i)\<lparr>slot_subgroup := subgroup\<rparr>]\<rparr>"

definition swap_members_groups_like_cpp ::
  "ObjectGuid \<Rightarrow> ObjectGuid \<Rightarrow> GroupInfo \<Rightarrow> (ObjectGuid \<times> u8) list option \<times> GroupInfo" where
  "swap_members_groups_like_cpp first second g =
     (if \<not> is_raid_group g then (None, g)
      else case slot_position first g of None \<Rightarrow> (None, g)
      | Some first_index \<Rightarrow> (case slot_position second g of None \<Rightarrow> (None, g)
      | Some second_index \<Rightarrow>
         (if first_index = second_index then (None, g)
          else
           (let first_subgroup = slot_subgroup (member_slots g ! first_index);
                second_subgroup = slot_subgroup (member_slots g ! second_index)
            in if first_subgroup = second_subgroup then (None, g)
               else (Some [(first, second_subgroup), (second, first_subgroup)],
                     bump_sequence (set_slot_subgroup second_index first_subgroup
                       (set_slot_subgroup first_index second_subgroup g)))))))"

definition change_member_group_like_cpp :: "ObjectGuid \<Rightarrow> u8 \<Rightarrow> GroupInfo \<Rightarrow> bool \<times> GroupInfo" where
  "change_member_group_like_cpp guid subgroup g =
     (if \<not> is_raid_group g then (False, g)
      else if unat subgroup \<ge> MAX_RAID_SUBGROUPS_LIKE_CPP then (False, g)
      else if \<not> has_free_slot_sub_group_like_cpp g subgroup then (False, g)
      else case slot_position guid g of None \<Rightarrow> (False, g)
      | Some slot_index \<Rightarrow>
         (let previous_subgroup = slot_subgroup (member_slots g ! slot_index)
          in if previous_subgroup = subgroup then (False, g)
             else
              (True,
               bump_sequence
                (subgroup_counter_decrease_like_cpp previous_subgroup
                 (snd (subgroup_counter_increase_like_cpp subgroup
                   (set_slot_subgroup slot_index subgroup g)))))))"

section \<open>Member flags\<close>

definition clear_flag :: "u8 \<Rightarrow> GroupMemberSlotLikeCpp \<Rightarrow> GroupMemberSlotLikeCpp" where
  "clear_flag flag slot = slot\<lparr>slot_flags := slot_flags slot AND NOT flag\<rparr>"

definition raise_flag :: "u8 \<Rightarrow> GroupMemberSlotLikeCpp \<Rightarrow> GroupMemberSlotLikeCpp" where
  "raise_flag flag slot = slot\<lparr>slot_flags := slot_flags slot OR flag\<rparr>"

definition unique_member_flag :: "u8 \<Rightarrow> bool" where
  "unique_member_flag flag =
     (flag = MEMBER_FLAG_MAINTANK_LIKE_CPP \<or> flag = MEMBER_FLAG_MAINASSIST_LIKE_CPP)"

definition remove_unique_group_member_flag_like_cpp :: "u8 \<Rightarrow> GroupInfo \<Rightarrow> bool \<times> GroupInfo" where
  "remove_unique_group_member_flag_like_cpp flag g =
     (if \<not> unique_member_flag flag then (False, g)
      else
       (let changed = list_ex (\<lambda>slot. slot_flags slot AND flag \<noteq> 0) (member_slots g);
            g1 = g\<lparr>member_slots := map (\<lambda>slot. if slot_flags slot AND flag \<noteq> 0
                                                then clear_flag flag slot else slot) (member_slots g)\<rparr>
        in (changed, if changed then bump_sequence g1 else g1)))"

definition flags_changed ::
  "GroupMemberSlotLikeCpp list \<Rightarrow> GroupMemberSlotLikeCpp list \<Rightarrow> bool" where
  "flags_changed previous current =
     list_ex (\<lambda>slot. list_ex (\<lambda>p. slot_guid p = slot_guid slot \<and> slot_flags p \<noteq> slot_flags slot)
       previous) current"

definition set_group_member_flag_updates_like_cpp ::
  "ObjectGuid \<Rightarrow> bool \<Rightarrow> u8 \<Rightarrow> GroupInfo \<Rightarrow> (ObjectGuid \<times> u8) list option \<times> GroupInfo" where
  "set_group_member_flag_updates_like_cpp guid apply_flag flag g =
     (if \<not> is_raid_group g then (None, g)
      else case slot_position guid g of None \<Rightarrow> (None, g)
      | Some slot_index \<Rightarrow>
         (if \<not> (flag = MEMBER_FLAG_ASSISTANT_LIKE_CPP \<or> unique_member_flag flag) then (None, g)
          else
           (let slots1 = (if unique_member_flag flag
                          then map (clear_flag flag) (member_slots g) else member_slots g);
                slots2 = slots1[slot_index := (if apply_flag then raise_flag flag else clear_flag flag)
                                                (slots1 ! slot_index)];
                g1 = g\<lparr>member_slots := slots2\<rparr>
            in (Some [(guid, slot_flags (slots2 ! slot_index))],
                if flags_changed (member_slots g) slots2 then bump_sequence g1 else g1))))"

definition set_group_member_flag_like_cpp ::
  "ObjectGuid \<Rightarrow> bool \<Rightarrow> u8 \<Rightarrow> GroupInfo \<Rightarrow> u8 option \<times> GroupInfo" where
  "set_group_member_flag_like_cpp guid apply_flag flag g =
     (case set_group_member_flag_updates_like_cpp guid apply_flag flag g of
        (None, g1) \<Rightarrow> (None, g1)
      | (Some updates, g1) \<Rightarrow> (map_option snd (find (\<lambda>(member, f). member = guid) updates), g1))"

definition set_assistant_leader_flag_like_cpp ::
  "ObjectGuid \<Rightarrow> bool \<Rightarrow> GroupInfo \<Rightarrow> u8 option \<times> GroupInfo" where
  "set_assistant_leader_flag_like_cpp guid apply_flag g =
     set_group_member_flag_like_cpp guid apply_flag MEMBER_FLAG_ASSISTANT_LIKE_CPP g"

definition change_leader_like_cpp :: "ObjectGuid \<Rightarrow> GroupInfo \<Rightarrow> u8 option \<times> GroupInfo" where
  "change_leader_like_cpp new_leader g =
     (case member_slot_like_cpp g new_leader of None \<Rightarrow> (None, g)
      | Some slot \<Rightarrow>
         (let flags = slot_flags slot AND NOT MEMBER_FLAG_ASSISTANT_LIKE_CPP;
              g1 = g\<lparr>leader_guid := new_leader,
                     member_slots := update_first (\<lambda>s. slot_guid s = new_leader)
                       (clear_flag MEMBER_FLAG_ASSISTANT_LIKE_CPP) (member_slots g)\<rparr>
          in (Some flags,
              if leader_guid g \<noteq> new_leader \<or> slot_flags slot \<noteq> flags then bump_sequence g1 else g1)))"

definition set_everyone_is_assistant_like_cpp :: "bool \<Rightarrow> GroupInfo \<Rightarrow> (u16 \<times> u32) \<times> GroupInfo" where
  "set_everyone_is_assistant_like_cpp apply_flag g =
     (let flags = (if apply_flag then group_flags g OR GROUP_FLAG_EVERYONE_ASSISTANT_LIKE_CPP
                   else group_flags g AND NOT GROUP_FLAG_EVERYONE_ASSISTANT_LIKE_CPP);
          f = (if apply_flag then raise_flag MEMBER_FLAG_ASSISTANT_LIKE_CPP
               else clear_flag MEMBER_FLAG_ASSISTANT_LIKE_CPP);
          changed = (flags \<noteq> group_flags g \<or>
                     list_ex (\<lambda>slot. slot_flags (f slot) \<noteq> slot_flags slot) (member_slots g));
          g1 = g\<lparr>group_flags := flags, member_slots := map f (member_slots g)\<rparr>;
          g2 = (if changed then bump_sequence g1 else g1)
      in ((group_flags g2, db_store_id g2), g2))"

section \<open>Conversion, removal, loading\<close>

definition convert_to_raid_like_cpp :: "GroupInfo \<Rightarrow> GroupInfo" where
  "convert_to_raid_like_cpp g =
     (if \<not> is_raid_group g
      then bump_sequence (init_raid_subgroups_counter_like_cpp
             (g\<lparr>group_flags := group_flags g OR GROUP_FLAG_RAID_LIKE_CPP\<rparr>))
      else g)"

definition convert_to_group_like_cpp :: "GroupInfo \<Rightarrow> bool \<times> GroupInfo" where
  "convert_to_group_like_cpp g =
     (if length (group_members g) > 5 then (False, g)
      else if is_raid_group g
      then (True, bump_sequence (g\<lparr>group_flags := group_flags g AND NOT GROUP_FLAG_RAID_LIKE_CPP,
                                   raid_subgroup_counts := None\<rparr>))
      else (True, g))"

text \<open>The two \<open>retain\<close> calls shared by removal and by reloading a member.\<close>

definition drop_member_entries :: "ObjectGuid \<Rightarrow> GroupInfo \<Rightarrow> GroupInfo" where
  "drop_member_entries guid g =
     (let g1 = (case member_slot_like_cpp g guid of None \<Rightarrow> g
                | Some slot \<Rightarrow> subgroup_counter_decrease_like_cpp (slot_subgroup slot) g)
      in g1\<lparr>group_members := filter (\<lambda>m. m \<noteq> guid) (group_members g1),
            member_slots := filter (\<lambda>slot. slot_guid slot \<noteq> guid) (member_slots g1)\<rparr>)"

definition remove_member :: "ObjectGuid \<Rightarrow> GroupInfo \<Rightarrow> GroupInfo" where
  "remove_member guid g = bump_sequence (drop_member_entries guid g)"

definition load_member_from_db_like_cpp ::
  "u64 \<Rightarrow> u8 \<Rightarrow> u8 \<Rightarrow> u8 \<Rightarrow> GroupMemberCharacterLikeCpp option \<Rightarrow> GroupInfo \<Rightarrow> bool \<times> GroupInfo" where
  "load_member_from_db_like_cpp guid_low member_flags subgroup roles character g =
     (case character of None \<Rightarrow> (False, g)
      | Some c \<Rightarrow>
       (let flags = (if group_flags g AND GROUP_FLAG_EVERYONE_ASSISTANT_LIKE_CPP \<noteq> 0
                     then member_flags OR MEMBER_FLAG_ASSISTANT_LIKE_CPP else member_flags)
        in case i64_try_from guid_low of None \<Rightarrow> (False, g)
        | Some guid_db_id \<Rightarrow>
           (if raid_subgroup_counts g \<noteq> None \<and> unat subgroup \<ge> MAX_RAID_SUBGROUPS_LIKE_CPP
            then (False, g)
            else
             (let guid = create_player 1 guid_db_id
              in case subgroup_counter_increase_like_cpp subgroup (drop_member_entries guid g) of
                   (False, g1) \<Rightarrow> (False, g1)
                 | (True, g1) \<Rightarrow>
                     (True,
                      g1\<lparr>group_members := group_members g1 @ [guid],
                         member_slots := member_slots g1 @
                           [\<lparr>slot_guid = guid, slot_name = character_name c,
                             slot_race = character_race c, slot_class = character_class c,
                             slot_subgroup = subgroup, slot_flags = flags, slot_roles = roles,
                             slot_ready_checked = False\<rparr>]\<rparr>)))))"

definition load_group_row ::
  "GroupDifficultyValidatorLikeCpp \<Rightarrow> (u64 \<times> GroupMemberCharacterLikeCpp) list
     \<Rightarrow> GroupLoadSummaryLikeCpp \<times> GroupAuthority \<Rightarrow> GroupDbRowLikeCpp
     \<Rightarrow> GroupLoadSummaryLikeCpp \<times> GroupAuthority" where
  "load_group_row v cache acc row =
     (case acc of (summary, a) \<Rightarrow>
       (let leader = map_of cache (row_leader_guid_low row);
            (gid, ids1) = generate_group_id_like_cpp (group_ids a);
            a1 = a\<lparr>group_ids := ids1\<rparr>
        in case load_group_from_db_row_validated_like_cpp gid row leader v of
             None \<Rightarrow> (summary\<lparr>skipped_group_rows := skipped_group_rows summary + 1\<rparr>, a1)
           | Some g \<Rightarrow>
              (case register_group_like_cpp (group_guid g) g a1 of
                 None \<Rightarrow> (summary, a1)
               | Some (_, a2) \<Rightarrow>
                  (summary\<lparr>loaded_groups := loaded_groups summary + 1\<rparr>,
                   a2\<lparr>group_ids := advance_next_group_db_store_id_after_load_like_cpp (row_db_store_id row)
                       (register_group_db_store_id_like_cpp (row_db_store_id row) (group_guid g)
                         (group_ids a2))\<rparr>))))"

definition load_member_row ::
  "(u64 \<times> GroupMemberCharacterLikeCpp) list \<Rightarrow> GroupLoadSummaryLikeCpp \<times> GroupAuthority
     \<Rightarrow> GroupMemberDbRowLikeCpp \<Rightarrow> GroupLoadSummaryLikeCpp \<times> GroupAuthority" where
  "load_member_row cache acc row =
     (case acc of (summary, a) \<Rightarrow>
       (let summary1 = summary\<lparr>loaded_member_rows := loaded_member_rows summary + 1\<rparr>;
            skipped = summary1\<lparr>skipped_member_rows := skipped_member_rows summary1 + 1\<rparr>
        in case group_guid_by_db_store_id_like_cpp (group_ids a) (mrow_db_store_id row) of
             None \<Rightarrow> (skipped, a)
           | Some gid \<Rightarrow>
              (case hm_get (groups a) gid of
                 None \<Rightarrow> (skipped, a)
               | Some g \<Rightarrow>
                  (case load_member_from_db_like_cpp (mrow_member_guid_low row) (mrow_member_flags row)
                          (mrow_subgroup row) (mrow_roles row)
                          (map_of cache (mrow_member_guid_low row)) g of
                     (ok, g') \<Rightarrow>
                       (if ok then summary1\<lparr>loaded_members := loaded_members summary1 + 1\<rparr> else skipped,
                        a\<lparr>groups := hm_insert gid g' (groups a)\<rparr>)))))"

definition load_groups_from_db_rows_like_cpp ::
  "GroupDifficultyValidatorLikeCpp \<Rightarrow> (u64 \<times> GroupMemberCharacterLikeCpp) list
     \<Rightarrow> GroupDbRowLikeCpp list \<Rightarrow> GroupMemberDbRowLikeCpp list \<Rightarrow> GroupAuthority
     \<Rightarrow> GroupLoadSummaryLikeCpp \<times> GroupAuthority" where
  "load_groups_from_db_rows_like_cpp v cache group_rows member_rows a =
     foldl (load_member_row cache)
       (foldl (load_group_row v cache)
         (\<lparr>loaded_groups = 0, loaded_member_rows = 0, loaded_members = 0, skipped_group_rows = 0,
           skipped_member_rows = 0\<rparr>, a) group_rows)
       member_rows"

end
