(* ===== verification/GroupInvariant.thy ===== *)
theory GroupInvariant
  imports GroupMembership
begin

text \<open>
  What every group of the registry satisfies, and that each operation on one group keeps
  it.  \<open>group_wf\<close> ties the two member vectors and the raid subgroup counters together;
  \<open>group_cap\<close> is the capacity of parties, raids and subgroups; \<open>ready_ok\<close> couples the
  ready-check flag, its timer and the responses.
\<close>

section \<open>The invariant of one group\<close>

definition subgroup_size :: "nat \<Rightarrow> GroupMemberSlotLikeCpp list \<Rightarrow> nat" where
  "subgroup_size i slots = length (filter (\<lambda>s. unat (slot_subgroup s) = i) slots)"

definition counts_ok :: "u8 list \<Rightarrow> GroupMemberSlotLikeCpp list \<Rightarrow> bool" where
  "counts_ok counts slots =
     (length counts = 8 \<and> (\<forall>i<8. unat (counts ! i) = subgroup_size i slots))"

definition group_wf :: "GroupInfo \<Rightarrow> bool" where
  "group_wf g =
     (distinct (group_members g) \<and> map slot_guid (member_slots g) = group_members g \<and>
      length (group_members g) < 256 \<and>
      (case raid_subgroup_counts g of None \<Rightarrow> \<not> is_raid_group g
       | Some counts \<Rightarrow> is_raid_group g \<and> counts_ok counts (member_slots g)))"

definition group_cap :: "GroupInfo \<Rightarrow> bool" where
  "group_cap g =
     (length (group_members g) \<le> (if is_raid_group g then 40 else 5) \<and>
      (case raid_subgroup_counts g of None \<Rightarrow> True | Some counts \<Rightarrow> \<forall>c\<in>set counts. unat c \<le> 5))"

definition ready_ok :: "GroupInfo \<Rightarrow> bool" where
  "ready_ok g =
     (if ready_check_started g then 0 < ready_check_timer_ms g \<and> ready_check_timer_ms g \<le> 35000
      else ready_check_timer_ms g = 0 \<and> (\<forall>s\<in>set (member_slots g). \<not> slot_ready_checked s))"

definition group_ok :: "GroupInfo \<Rightarrow> bool" where
  "group_ok g = (group_wf g \<and> group_cap g \<and> ready_ok g)"

lemma group_constants [simp]:
  "MAX_GROUP_SIZE_LIKE_CPP = 5" "MAX_RAID_SIZE_LIKE_CPP = 40" "MAX_RAID_SUBGROUPS_LIKE_CPP = 8"
  by (simp_all add: MAX_GROUP_SIZE_LIKE_CPP_def MAX_RAID_SIZE_LIKE_CPP_def
      MAX_RAID_SUBGROUPS_LIKE_CPP_def)

section \<open>Counting subgroups\<close>

lemma subgroup_size_simps [simp]:
  "subgroup_size i [] = 0"
  "subgroup_size i (s # ss) = (if unat (slot_subgroup s) = i then Suc (subgroup_size i ss) else subgroup_size i ss)"
  "subgroup_size i (ss @ ts) = subgroup_size i ss + subgroup_size i ts"
  by (simp_all add: subgroup_size_def)

lemma subgroup_size_le: "subgroup_size i ss \<le> length ss"
  by (simp add: subgroup_size_def)

lemma subgroup_size_list_update:
  "k < length ss \<Longrightarrow>
     subgroup_size i (ss[k := s]) + (if unat (slot_subgroup (ss ! k)) = i then 1 else 0) =
     subgroup_size i ss + (if unat (slot_subgroup s) = i then 1 else 0)"
proof (induction ss arbitrary: k)
  case (Cons x ss)
  show ?case
  proof (cases k)
    case (Suc j)
    with Cons.prems have "j < length ss" by simp
    from Cons.IH [OF this] Suc show ?thesis by (simp split: if_splits)
  qed simp
qed simp

lemma subgroup_size_map:
  "(\<And>s. s \<in> set ss \<Longrightarrow> slot_subgroup (f s) = slot_subgroup s) \<Longrightarrow>
     subgroup_size i (map f ss) = subgroup_size i ss"
  by (induction ss) auto

lemma filter_ne_id: "x \<notin> f ` set ss \<Longrightarrow> filter (\<lambda>s. f s \<noteq> x) ss = ss"
  by (induction ss) auto

lemma subgroup_size_drop:
  "distinct (map slot_guid ss) \<Longrightarrow> find (\<lambda>s. slot_guid s = guid) ss = Some slot \<Longrightarrow>
     subgroup_size i (filter (\<lambda>s. slot_guid s \<noteq> guid) ss) +
       (if unat (slot_subgroup slot) = i then 1 else 0) = subgroup_size i ss"
proof (induction ss)
  case (Cons x ss)
  show ?case
  proof (cases "slot_guid x = guid")
    case True
    with Cons.prems have "filter (\<lambda>s. slot_guid s \<noteq> guid) ss = ss"
      by (intro filter_ne_id) auto
    with True Cons.prems show ?thesis by simp
  next
    case False
    with Cons show ?thesis by simp
  qed
qed simp

lemma sum_subgroups:
  "(\<Sum>i<8. subgroup_size i ss) = length (filter (\<lambda>s. unat (slot_subgroup s) < 8) ss)"
proof (induction ss)
  case Nil
  then show ?case by simp
next
  case (Cons s ss)
  let ?k = "unat (slot_subgroup s)"
  have "(\<Sum>i<8. subgroup_size i (s # ss)) =
        (\<Sum>i<8. (if i = ?k then 1 else 0) + subgroup_size i ss)"
    by (rule sum.cong) auto
  also have "\<dots> = (\<Sum>i<(8::nat). if i = ?k then 1 else 0) + (\<Sum>i<8. subgroup_size i ss)"
    by (rule sum.distrib)
  also have "(\<Sum>i<(8::nat). if i = ?k then (1::nat) else 0) = (if ?k < 8 then 1 else 0)"
    by (simp add: sum.delta)
  finally show ?case using Cons.IH by simp
qed

lemma sat_inc_u8: "unat (c :: u8) < 255 \<Longrightarrow> unat (saturating_add c 1) = Suc (unat c)"
  by (simp add: unat_saturating_add)

lemma counts_ok_inc:
  assumes "counts_ok cs ss" "length ss < 255" "unat (slot_subgroup s) < 8"
  shows "counts_ok (cs[unat (slot_subgroup s) := saturating_add (cs ! unat (slot_subgroup s)) 1])
           (ss @ [s])"
proof -
  have "unat (cs ! unat (slot_subgroup s)) < 255"
    using assms subgroup_size_le [of "unat (slot_subgroup s)" ss] by (simp add: counts_ok_def)
  with assms show ?thesis by (auto simp: counts_ok_def nth_list_update sat_inc_u8)
qed

lemma count_slot_ok:
  assumes "counts_ok cs ss" "length ss < 255"
  shows "counts_ok (count_slot cs s) (ss @ [s])"
proof (cases "unat (slot_subgroup s) < length cs")
  case True
  with assms counts_ok_inc [OF assms, of s] show ?thesis by (simp add: count_slot_def counts_ok_def)
next
  case False
  with assms show ?thesis by (auto simp: count_slot_def counts_ok_def)
qed

lemma foldl_count_slot_ok:
  "counts_ok cs ss \<Longrightarrow> length ss + length ts < 256 \<Longrightarrow> counts_ok (foldl count_slot cs ts) (ss @ ts)"
proof (induction ts arbitrary: cs ss)
  case (Cons t ts)
  have "counts_ok (count_slot cs t) (ss @ [t])"
    using Cons.prems by (intro count_slot_ok) auto
  with Cons.IH [of "count_slot cs t" "ss @ [t]"] Cons.prems show ?case by simp
qed simp

lemma init_counts_ok:
  "length ss < 256 \<Longrightarrow> counts_ok (foldl count_slot (replicate 8 0) ss) ss"
  using foldl_count_slot_ok [of "replicate 8 0" "[]" ss] by (simp add: counts_ok_def)

section \<open>Frames\<close>

text \<open>Operations that touch neither the member list nor the subgroup of any slot.\<close>

definition same_roster :: "GroupInfo \<Rightarrow> GroupInfo \<Rightarrow> bool" where
  "same_roster g g' =
     (group_members g' = group_members g \<and> is_raid_group g' = is_raid_group g \<and>
      raid_subgroup_counts g' = raid_subgroup_counts g \<and>
      map slot_guid (member_slots g') = map slot_guid (member_slots g) \<and>
      (\<forall>i. subgroup_size i (member_slots g') = subgroup_size i (member_slots g)))"

lemma wf_frame: "same_roster g g' \<Longrightarrow> group_wf g \<Longrightarrow> group_wf g'"
  by (auto simp: same_roster_def group_wf_def counts_ok_def split: option.splits)

lemma cap_frame: "same_roster g g' \<Longrightarrow> group_cap g \<Longrightarrow> group_cap g'"
  by (auto simp: same_roster_def group_cap_def split: option.splits)

lemma same_roster_refl [simp]: "same_roster g g"
  by (simp add: same_roster_def)

lemma same_roster_trans: "same_roster g h \<Longrightarrow> same_roster h k \<Longrightarrow> same_roster g k"
  by (simp add: same_roster_def)

definition same_ready :: "GroupInfo \<Rightarrow> GroupInfo \<Rightarrow> bool" where
  "same_ready g g' =
     (ready_check_started g' = ready_check_started g \<and>
      ready_check_timer_ms g' = ready_check_timer_ms g \<and>
      set (map slot_ready_checked (member_slots g')) \<subseteq> insert False (set (map slot_ready_checked (member_slots g))))"

lemma ready_frame: "same_ready g g' \<Longrightarrow> ready_ok g \<Longrightarrow> ready_ok g'"
proof -
  assume f: "same_ready g g'" and ok: "ready_ok g"
  have "\<forall>s\<in>set (member_slots g'). \<not> slot_ready_checked s"
    if "\<forall>s\<in>set (member_slots g). \<not> slot_ready_checked s"
  proof
    fix s assume "s \<in> set (member_slots g')"
    then have "slot_ready_checked s \<in> insert False (slot_ready_checked ` set (member_slots g))"
      using f by (auto simp: same_ready_def)
    with that show "\<not> slot_ready_checked s" by auto
  qed
  with f ok show "ready_ok g'" by (simp add: same_ready_def ready_ok_def split: if_splits)
qed

lemma same_ready_refl [simp]: "same_ready g g"
  by (auto simp: same_ready_def)

definition quiet :: "GroupInfo \<Rightarrow> GroupInfo \<Rightarrow> bool" where
  "quiet g g' = (same_roster g g' \<and> same_ready g g')"

lemma group_quiet_refl [simp]: "quiet g g"
  by (simp add: quiet_def)

lemma same_ready_trans: "same_ready g h \<Longrightarrow> same_ready h k \<Longrightarrow> same_ready g k"
proof -
  assume a: "same_ready g h" and b: "same_ready h k"
  have "insert False (set (map slot_ready_checked (member_slots h))) \<subseteq>
        insert False (set (map slot_ready_checked (member_slots g)))"
    using a by (simp only: same_ready_def insert_subset) blast
  with b have "set (map slot_ready_checked (member_slots k)) \<subseteq>
        insert False (set (map slot_ready_checked (member_slots g)))"
    unfolding same_ready_def by (elim conjE) (rule subset_trans)
  moreover have "ready_check_started k = ready_check_started g"
    "ready_check_timer_ms k = ready_check_timer_ms g"
    using a b by (simp_all add: same_ready_def)
  ultimately show "same_ready g k" by (simp only: same_ready_def simp_thms)
qed

lemma quiet_trans: "quiet g h \<Longrightarrow> quiet h k \<Longrightarrow> quiet g k"
  unfolding quiet_def by (blast intro: same_roster_trans same_ready_trans)

lemma ok_quiet: "quiet g g' \<Longrightarrow> group_ok g \<Longrightarrow> group_ok g'"
  unfolding quiet_def group_ok_def by (blast intro: wf_frame cap_frame ready_frame)

lemma bump_sequence_sel [simp]:
  "group_members (bump_sequence g) = group_members g"
  "member_slots (bump_sequence g) = member_slots g"
  "raid_subgroup_counts (bump_sequence g) = raid_subgroup_counts g"
  "group_flags (bump_sequence g) = group_flags g"
  "leader_guid (bump_sequence g) = leader_guid g"
  "group_guid (bump_sequence g) = group_guid g"
  "db_store_id (bump_sequence g) = db_store_id g"
  "group_category (bump_sequence g) = group_category g"
  "ready_check_started (bump_sequence g) = ready_check_started g"
  "ready_check_timer_ms (bump_sequence g) = ready_check_timer_ms g"
  "looter_guid (bump_sequence g) = looter_guid g"
  "group_loot_method (bump_sequence g) = group_loot_method g"
  "is_raid_group (bump_sequence g) = is_raid_group g"
  by (simp_all add: bump_sequence_def is_raid_group_def)

lemma bump_invariants [simp]:
  "group_wf (bump_sequence g) = group_wf g" "group_cap (bump_sequence g) = group_cap g"
  "ready_ok (bump_sequence g) = ready_ok g" "group_ok (bump_sequence g) = group_ok g"
  by (simp_all add: group_ok_def group_wf_def group_cap_def ready_ok_def split: option.split)

lemma quiet_bump [simp]: "quiet g (bump_sequence g') = quiet g g'"
  by (simp add: quiet_def same_roster_def same_ready_def)

lemma quiet_slots:
  assumes "group_members g' = group_members g" "is_raid_group g' = is_raid_group g"
    "raid_subgroup_counts g' = raid_subgroup_counts g"
    "ready_check_started g' = ready_check_started g"
    "ready_check_timer_ms g' = ready_check_timer_ms g"
    "member_slots g' = map f (member_slots g)"
    "\<And>s. slot_guid (f s) = slot_guid s" "\<And>s. slot_subgroup (f s) = slot_subgroup s"
    "\<And>s. slot_ready_checked (f s) = slot_ready_checked s"
  shows "quiet g g'"
  using assms by (auto simp: quiet_def same_roster_def same_ready_def subgroup_size_map)

lemma quiet_same_slots:
  assumes "group_members g' = group_members g" "is_raid_group g' = is_raid_group g"
    "raid_subgroup_counts g' = raid_subgroup_counts g"
    "ready_check_started g' = ready_check_started g"
    "ready_check_timer_ms g' = ready_check_timer_ms g" "member_slots g' = member_slots g"
  shows "quiet g g'"
  using assms by (intro quiet_slots [where f = "\<lambda>s. s"]) auto

lemma update_first_conv_list_update:
  "position p xs = Some i \<Longrightarrow> update_first p f xs = xs[i := f (xs ! i)]"
  by (induction xs arbitrary: i) (auto split: if_splits)

lemma quiet_list_update:
  assumes "i < length (member_slots g)"
    "slot_guid (f (member_slots g ! i)) = slot_guid (member_slots g ! i)"
    "slot_subgroup (f (member_slots g ! i)) = slot_subgroup (member_slots g ! i)"
    "slot_ready_checked (f (member_slots g ! i)) = slot_ready_checked (member_slots g ! i)"
  shows "quiet g (g\<lparr>member_slots := (member_slots g)[i := f (member_slots g ! i)]\<rparr>)"
proof -
  let ?ss = "member_slots g"
  have "map slot_guid (?ss[i := f (?ss ! i)]) = map slot_guid ?ss"
    using assms(2) by (simp add: map_update list_update_same_conv)
       (metis assms(1) length_map list_update_id nth_map)
  moreover have "map slot_ready_checked (?ss[i := f (?ss ! i)]) = map slot_ready_checked ?ss"
    using assms(4) by (simp add: map_update) (metis assms(1) length_map list_update_id nth_map)
  moreover have "subgroup_size j (?ss[i := f (?ss ! i)]) = subgroup_size j ?ss" for j
    using subgroup_size_list_update [OF assms(1), of j "f (?ss ! i)"] assms(3)
    by (simp split: if_splits)
  ultimately show ?thesis
    by (auto simp: quiet_def same_roster_def same_ready_def is_raid_group_def simp del: map_update)
qed

lemma find_slot_position:
  "member_slot_like_cpp g guid = Some s \<Longrightarrow>
     \<exists>i. slot_position guid g = Some i \<and> i < length (member_slots g) \<and> member_slots g ! i = s"
  unfolding member_slot_like_cpp_def slot_position_def
  by (metis find_position position_Some)

lemma quiet_update_first:
  assumes "\<And>s. slot_guid (f s) = slot_guid s" "\<And>s. slot_subgroup (f s) = slot_subgroup s"
    "\<And>s. slot_ready_checked (f s) = slot_ready_checked s"
    "group_members g' = group_members g" "is_raid_group g' = is_raid_group g"
    "raid_subgroup_counts g' = raid_subgroup_counts g"
    "ready_check_started g' = ready_check_started g"
    "ready_check_timer_ms g' = ready_check_timer_ms g"
    "member_slots g' = update_first p f (member_slots g)"
  shows "quiet g g'"
proof -
  have "map slot_guid (update_first p f (member_slots g)) = map slot_guid (member_slots g)"
    "map slot_ready_checked (update_first p f (member_slots g)) = map slot_ready_checked (member_slots g)"
    using assms(1,3) by (simp_all add: map_update_first)
  moreover have "subgroup_size j (update_first p f ss) = subgroup_size j ss" for j ss
    using assms(2) by (induction ss) auto
  ultimately show ?thesis
    using assms(4-) by (auto simp: quiet_def same_ready_def same_roster_def simp flip: set_map)
qed

section \<open>Quiet operations\<close>

lemma flag_slot_sel [simp]:
  "slot_guid (clear_flag f s) = slot_guid s" "slot_guid (raise_flag f s) = slot_guid s"
  "slot_subgroup (clear_flag f s) = slot_subgroup s" "slot_subgroup (raise_flag f s) = slot_subgroup s"
  "slot_ready_checked (clear_flag f s) = slot_ready_checked s"
  "slot_ready_checked (raise_flag f s) = slot_ready_checked s"
  by (simp_all add: clear_flag_def raise_flag_def)

lemma quiet_set_lfg_roles: "quiet g (snd (set_lfg_roles_like_cpp guid roles g))"
  unfolding set_lfg_roles_like_cpp_def
  by (auto split: option.splits simp: is_raid_group_def
      intro!: quiet_update_first [where f = "\<lambda>s. s\<lparr>slot_roles := roles\<rparr>" and p = "\<lambda>slot. slot_guid slot = guid"])

lemma quiet_remove_unique: "quiet g (snd (remove_unique_group_member_flag_like_cpp flag g))"
  unfolding remove_unique_group_member_flag_like_cpp_def Let_def
  by (auto simp: is_raid_group_def
      intro!: quiet_slots [where f = "\<lambda>slot. if slot_flags slot AND flag \<noteq> 0 then clear_flag flag slot else slot"]
      split: if_splits)

lemma quiet_change_leader: "quiet g (snd (change_leader_like_cpp guid g))"
  unfolding change_leader_like_cpp_def Let_def
  by (auto split: option.splits simp: is_raid_group_def
      intro!: quiet_update_first [where f = "clear_flag MEMBER_FLAG_ASSISTANT_LIKE_CPP"
                and p = "\<lambda>s. slot_guid s = guid"])

lemma everyone_flag_keeps_raid:
  "((flags :: u16) OR GROUP_FLAG_EVERYONE_ASSISTANT_LIKE_CPP) AND GROUP_FLAG_RAID_LIKE_CPP =
     flags AND GROUP_FLAG_RAID_LIKE_CPP"
  "(flags AND NOT GROUP_FLAG_EVERYONE_ASSISTANT_LIKE_CPP) AND GROUP_FLAG_RAID_LIKE_CPP =
     flags AND GROUP_FLAG_RAID_LIKE_CPP"
proof -
  have "GROUP_FLAG_EVERYONE_ASSISTANT_LIKE_CPP AND GROUP_FLAG_RAID_LIKE_CPP = 0"
    "NOT GROUP_FLAG_EVERYONE_ASSISTANT_LIKE_CPP AND GROUP_FLAG_RAID_LIKE_CPP = GROUP_FLAG_RAID_LIKE_CPP"
    by (simp_all add: GROUP_FLAG_EVERYONE_ASSISTANT_LIKE_CPP_def GROUP_FLAG_RAID_LIKE_CPP_def)
  then show "((flags :: u16) OR GROUP_FLAG_EVERYONE_ASSISTANT_LIKE_CPP) AND GROUP_FLAG_RAID_LIKE_CPP =
     flags AND GROUP_FLAG_RAID_LIKE_CPP"
    "(flags AND NOT GROUP_FLAG_EVERYONE_ASSISTANT_LIKE_CPP) AND GROUP_FLAG_RAID_LIKE_CPP =
     flags AND GROUP_FLAG_RAID_LIKE_CPP"
    by (simp_all add: word_ao_dist bit.conj_disj_distrib2 and.assoc)
qed

lemma quiet_set_everyone: "quiet g (snd (set_everyone_is_assistant_like_cpp b g))"
  unfolding set_everyone_is_assistant_like_cpp_def Let_def
  by (auto simp: is_raid_group_def everyone_flag_keeps_raid
      intro!: quiet_slots [where f = "if b then raise_flag MEMBER_FLAG_ASSISTANT_LIKE_CPP
                                      else clear_flag MEMBER_FLAG_ASSISTANT_LIKE_CPP"])

lemma quiet_flag_updates: "quiet g (snd (set_group_member_flag_updates_like_cpp guid b flag g))"
proof (cases "\<not> is_raid_group g \<or> slot_position guid g = None \<or>
              \<not> (flag = MEMBER_FLAG_ASSISTANT_LIKE_CPP \<or> unique_member_flag flag)")
  case True
  then show ?thesis
    by (auto simp: set_group_member_flag_updates_like_cpp_def split: option.splits)
next
  case False
  then obtain i where i: "slot_position guid g = Some i" and raid: "is_raid_group g"
    and flag: "flag = MEMBER_FLAG_ASSISTANT_LIKE_CPP \<or> unique_member_flag flag" by auto
  define slots1 where "slots1 = (if unique_member_flag flag
                          then map (clear_flag flag) (member_slots g) else member_slots g)"
  define f where "f = (if b then raise_flag flag else clear_flag flag)"
  define g1 where "g1 = g\<lparr>member_slots := slots1\<rparr>"
  have il: "i < length slots1"
    using i position_Some [of _ "member_slots g" i] by (simp add: slot_position_def slots1_def)
  have "quiet g g1"
    by (rule quiet_slots [where f = "if unique_member_flag flag then clear_flag flag else (\<lambda>s. s)"])
      (auto simp: g1_def slots1_def is_raid_group_def)
  moreover have "quiet g1 (g1\<lparr>member_slots := slots1[i := f (slots1 ! i)]\<rparr>)"
    using quiet_list_update [of i g1 f] il by (simp add: g1_def f_def)
  ultimately have "quiet g (g\<lparr>member_slots := slots1[i := f (slots1 ! i)]\<rparr>)"
    by (auto dest: quiet_trans simp: g1_def)
  then show ?thesis
    using raid i flag unfolding set_group_member_flag_updates_like_cpp_def Let_def
    by (simp add: slots1_def [symmetric] f_def [symmetric])
qed

lemma quiet_set_flag: "quiet g (snd (set_group_member_flag_like_cpp guid b flag g))"
  using quiet_flag_updates [of g guid b flag]
  by (auto simp: set_group_member_flag_like_cpp_def split: prod.splits option.splits)

lemmas quiet_ops = quiet_set_lfg_roles quiet_remove_unique quiet_change_leader quiet_set_everyone
  quiet_flag_updates quiet_set_flag

section \<open>Joining\<close>

lemma in_set_update: "c \<in> set (xs[i := x]) \<Longrightarrow> c = x \<or> c \<in> set xs"
  using set_update_subset_insert [of xs i x] by (auto dest: subsetD)

text \<open>Where a new member goes: subgroup 0 of a party, the first raid subgroup with a free place.\<close>

lemma add_member_party:
  assumes "raid_subgroup_counts g = None" "guid \<notin> set (group_members g)"
  shows "add_member guid g =
    (True, bump_sequence (g\<lparr>group_members := group_members g @ [guid],
                            member_slots := member_slots g @ [fresh_slot guid 0]\<rparr>))"
  using assms by (simp add: add_member_def subgroup_counter_increase_like_cpp_def)

lemma add_member_raid:
  assumes "raid_subgroup_counts g = Some cs" "length cs = 8" "guid \<notin> set (group_members g)"
    "position (\<lambda>c. unat c < 5) cs = Some i"
  shows "add_member guid g =
    (True, bump_sequence (g\<lparr>raid_subgroup_counts := Some (cs[i := saturating_add (cs ! i) 1]),
                            group_members := group_members g @ [guid],
                            member_slots := member_slots g @ [fresh_slot guid (of_nat i)]\<rparr>))"
proof -
  have "i < 8" using position_Some [OF assms(4)] assms(2) by simp
  then have "unat (of_nat i :: u8) = i" by (simp add: unat_of_nat)
  with assms \<open>i < 8\<close> show ?thesis
    by (simp add: add_member_def subgroup_counter_increase_like_cpp_def)
qed

lemma add_member_raid_full:
  assumes "raid_subgroup_counts g = Some cs" "position (\<lambda>c. unat c < 5) cs = None"
  shows "add_member guid g = (False, g)"
  using assms by (simp add: add_member_def)

lemma add_member_known: "guid \<in> set (group_members g) \<Longrightarrow> add_member guid g = (False, g)"
  by (simp add: add_member_def)

lemma wf_raid_counts:
  "group_wf g \<Longrightarrow> is_raid_group g \<Longrightarrow> \<exists>cs. raid_subgroup_counts g = Some cs \<and> counts_ok cs (member_slots g)"
  by (auto simp: group_wf_def split: option.splits)

lemma wf_party_counts: "group_wf g \<Longrightarrow> \<not> is_raid_group g \<Longrightarrow> raid_subgroup_counts g = None"
  by (auto simp: group_wf_def split: option.splits)

lemma wf_length_slots: "group_wf g \<Longrightarrow> length (member_slots g) = length (group_members g)"
  by (metis group_wf_def length_map)

lemma free_subgroup_exists:
  assumes "group_wf g" "raid_subgroup_counts g = Some cs" "length (group_members g) < 40"
  shows "\<exists>i. position (\<lambda>c. unat c < 5) cs = Some i \<and> i < 8 \<and> unat (cs ! i) < 5"
proof (cases "position (\<lambda>c. unat c < 5) cs")
  case None
  have ok: "counts_ok cs (member_slots g)" using assms by (simp add: group_wf_def)
  then have len: "length cs = 8" by (simp add: counts_ok_def)
  have "5 \<le> subgroup_size i (member_slots g)" if "i < 8" for i
  proof -
    from None len that have "\<not> unat (cs ! i) < 5" by (auto simp: position_None)
    with ok that show ?thesis by (simp add: counts_ok_def)
  qed
  then have "(\<Sum>i<(8::nat). 5) \<le> (\<Sum>i<8. subgroup_size i (member_slots g))"
    by (intro sum_mono) auto
  also have "\<dots> \<le> length (member_slots g)" by (simp add: sum_subgroups)
  finally show ?thesis using assms wf_length_slots by simp
next
  case (Some i)
  from position_Some [OF Some] assms show ?thesis
    by (auto simp: group_wf_def counts_ok_def Some)
qed

lemma add_member_succeeds:
  assumes "group_wf g" "\<not> is_full_like_cpp g" "guid \<notin> set (group_members g)"
  shows "fst (add_member guid g)"
proof (cases "raid_subgroup_counts g")
  case None
  then show ?thesis using assms by (simp add: add_member_party)
next
  case (Some cs)
  with assms have "is_raid_group g" "length cs = 8" by (auto simp: group_wf_def counts_ok_def)
  with assms free_subgroup_exists [OF assms(1) Some] show ?thesis
    by (auto simp: add_member_raid [OF Some] is_full_like_cpp_def)
qed

lemma fresh_slot_sel [simp]:
  "slot_guid (fresh_slot guid i) = guid" "slot_subgroup (fresh_slot guid i) = i"
  "slot_ready_checked (fresh_slot guid i) = False" "slot_flags (fresh_slot guid i) = 0"
  "slot_roles (fresh_slot guid i) = 0"
  by (simp_all add: fresh_slot_def)

lemma add_member_ok:
  assumes ok: "group_ok g" and full: "\<not> is_full_like_cpp g"
  shows "group_ok (snd (add_member guid g))"
proof (cases "guid \<in> set (group_members g)")
  case True
  then show ?thesis using ok by (simp add: add_member_known)
next
  case new: False
  have wf: "group_wf g" and cap: "group_cap g" and rd: "ready_ok g" using ok by (auto simp: group_ok_def)
  have lens: "length (member_slots g) = length (group_members g)" by (rule wf_length_slots [OF wf])
  show ?thesis
  proof (cases "raid_subgroup_counts g")
    case None
    then have "\<not> is_raid_group g" using wf by (simp add: group_wf_def)
    define h where "h = g\<lparr>group_members := group_members g @ [guid],
                            member_slots := member_slots g @ [fresh_slot guid 0]\<rparr>"
    have h: "group_members h = group_members g @ [guid]" "is_raid_group h = is_raid_group g"
      "member_slots h = member_slots g @ [fresh_slot guid 0]" "raid_subgroup_counts h = None"
      "ready_check_started h = ready_check_started g" "ready_check_timer_ms h = ready_check_timer_ms g"
      by (simp_all add: h_def None is_raid_group_def)
    have "length (group_members g) < 5" using full \<open>\<not> is_raid_group g\<close> by (simp add: is_full_like_cpp_def)
    then have "group_wf h" "group_cap h"
      using wf new \<open>\<not> is_raid_group g\<close> by (simp_all add: group_wf_def group_cap_def h)
    moreover have "ready_ok h" using rd unfolding ready_ok_def h by auto
    ultimately show ?thesis using add_member_party [OF None new] by (simp add: group_ok_def h_def)
  next
    case (Some cs)
    then have raid: "is_raid_group g" and cok: "counts_ok cs (member_slots g)"
      using wf by (auto simp: group_wf_def)
    have len: "length (group_members g) < 40" using full raid by (simp add: is_full_like_cpp_def)
    from free_subgroup_exists [OF wf Some len] obtain i where
      i: "position (\<lambda>c. unat c < 5) cs = Some i" "i < 8" "unat (cs ! i) < 5" by auto
    have u: "unat (of_nat i :: u8) = i" using i(2) by (simp add: unat_of_nat)
    have "counts_ok (cs[i := saturating_add (cs ! i) 1]) (member_slots g @ [fresh_slot guid (of_nat i)])"
      using counts_ok_inc [OF cok, of "fresh_slot guid (of_nat i)"] len lens i(2) u by simp
    moreover have "\<forall>c\<in>set (cs[i := saturating_add (cs ! i) 1]). unat c \<le> 5"
    proof
      fix c assume "c \<in> set (cs[i := saturating_add (cs ! i) 1])"
      then have "c = saturating_add (cs ! i) 1 \<or> c \<in> set cs"
        by (rule in_set_update)
      then show "unat c \<le> 5" using i(3) cap Some by (auto simp: sat_inc_u8 group_cap_def)
    qed
    moreover define h where "h = g\<lparr>raid_subgroup_counts := Some (cs[i := saturating_add (cs ! i) 1]),
                            group_members := group_members g @ [guid],
                            member_slots := member_slots g @ [fresh_slot guid (of_nat i)]\<rparr>"
    moreover have h: "group_members h = group_members g @ [guid]" "is_raid_group h"
      "member_slots h = member_slots g @ [fresh_slot guid (of_nat i)]"
      "raid_subgroup_counts h = Some (cs[i := saturating_add (cs ! i) 1])"
      "ready_check_started h = ready_check_started g" "ready_check_timer_ms h = ready_check_timer_ms g"
      using raid by (simp_all add: h_def is_raid_group_def)
    ultimately have "group_wf h" "group_cap h"
      using wf new len by (simp_all add: group_wf_def group_cap_def)
    moreover have "ready_ok h" using rd unfolding ready_ok_def h by auto
    moreover have "add_member guid g = (True, bump_sequence h)"
      using add_member_raid [OF Some _ new i(1)] cok by (simp add: counts_ok_def h_def)
    ultimately show ?thesis by (simp add: group_ok_def)
  qed
qed

section \<open>Leaving\<close>

lemma dec_u8: "unat (saturating_sub (c :: u8) 1) = unat c - 1"
  by simp

lemma drop_member_counts:
  assumes "counts_ok cs ss" "distinct (map slot_guid ss)" "find (\<lambda>s. slot_guid s = guid) ss = Some slot"
    "unat (slot_subgroup slot) < length cs"
  shows "counts_ok (cs[unat (slot_subgroup slot) := saturating_sub (cs ! unat (slot_subgroup slot)) 1])
           (filter (\<lambda>s. slot_guid s \<noteq> guid) ss)"
  unfolding counts_ok_def
proof (intro conjI allI impI)
  show "length (cs[unat (slot_subgroup slot) := saturating_sub (cs ! unat (slot_subgroup slot)) 1]) = 8"
    using assms by (simp add: counts_ok_def)
next
  fix i :: nat
  assume i: "i < 8"
  show "unat (cs[unat (slot_subgroup slot) := saturating_sub (cs ! unat (slot_subgroup slot)) 1] ! i) =
        subgroup_size i (filter (\<lambda>s. slot_guid s \<noteq> guid) ss)"
    using subgroup_size_drop [OF assms(2,3), of i] assms(1,4) i
    by (auto simp: counts_ok_def nth_list_update split: if_splits)
qed

lemma wf_members: "group_wf g \<Longrightarrow> group_members g = map slot_guid (member_slots g)"
  by (simp add: group_wf_def)

lemma find_slot_None: "group_wf g \<Longrightarrow> member_slot_like_cpp g guid = None \<longleftrightarrow> guid \<notin> set (group_members g)"
  by (auto simp: member_slot_like_cpp_def wf_members find_None_iff_all)

lemma drop_member_wf:
  assumes wf: "group_wf g"
  shows "group_wf (drop_member_entries guid g)"
    and "group_cap g \<Longrightarrow> group_cap (drop_member_entries guid g)"
    and "group_members (drop_member_entries guid g) = filter (\<lambda>m. m \<noteq> guid) (group_members g)"
    and "member_slots (drop_member_entries guid g) =
           filter (\<lambda>s. slot_guid s \<noteq> guid) (member_slots g)"
proof -
  let ?ss = "filter (\<lambda>s. slot_guid s \<noteq> guid) (member_slots g)"
  have m: "map slot_guid ?ss = filter (\<lambda>m. m \<noteq> guid) (group_members g)"
    by (simp add: wf_members [OF wf] filter_map comp_def)
  have d: "distinct (map slot_guid (member_slots g))" using wf by (simp add: group_wf_def)
  show gm: "group_members (drop_member_entries guid g) = filter (\<lambda>m. m \<noteq> guid) (group_members g)"
    and ms: "member_slots (drop_member_entries guid g) = ?ss"
    by (auto simp: drop_member_entries_def subgroup_counter_decrease_like_cpp_def Let_def
        split: option.splits)
  have raid: "is_raid_group (drop_member_entries guid g) = is_raid_group g"
    by (auto simp: drop_member_entries_def subgroup_counter_decrease_like_cpp_def Let_def
        is_raid_group_def split: option.splits)
  have len: "length (filter (\<lambda>m. m \<noteq> guid) (group_members g)) \<le> length (group_members g)" by simp
  have len2: "length (filter (\<lambda>m. m \<noteq> guid) (group_members g)) < 256"
    using wf len unfolding group_wf_def by linarith
  have counts: "case raid_subgroup_counts (drop_member_entries guid g) of
           None \<Rightarrow> raid_subgroup_counts g = None
         | Some cs' \<Rightarrow> \<exists>cs. raid_subgroup_counts g = Some cs \<and> counts_ok cs' ?ss \<and>
             (\<forall>c'\<in>set cs'. \<exists>c\<in>set cs. unat c' \<le> unat c)"
  proof (cases "raid_subgroup_counts g")
    case None
    then show ?thesis
      by (auto simp: drop_member_entries_def subgroup_counter_decrease_like_cpp_def Let_def
          split: option.splits)
  next
    case (Some cs)
    have cok: "counts_ok cs (member_slots g)" using Some wf by (simp add: group_wf_def)
    show ?thesis
    proof (cases "member_slot_like_cpp g guid")
      case None
      then have "?ss = member_slots g" using wf by (intro filter_ne_id)
          (auto simp: member_slot_like_cpp_def find_None_iff_all)
      with None Some cok show ?thesis by (auto simp: drop_member_entries_def)
    next
      case slot: (Some slot)
      let ?i = "unat (slot_subgroup slot)"
      show ?thesis
      proof (cases "?i < length cs")
        case True
        have "\<forall>c'\<in>set (cs[?i := saturating_sub (cs ! ?i) 1]). \<exists>c\<in>set cs. unat c' \<le> unat c"
        proof
          fix c' assume "c' \<in> set (cs[?i := saturating_sub (cs ! ?i) 1])"
          then have "c' = saturating_sub (cs ! ?i) 1 \<or> c' \<in> set cs"
            by (rule in_set_update)
          then show "\<exists>c\<in>set cs. unat c' \<le> unat c"
          proof
            assume "c' = saturating_sub (cs ! ?i) 1"
            with True show ?thesis by (intro bexI [of _ "cs ! ?i"]) auto
          qed blast
        qed
        with True Some slot drop_member_counts [OF cok d, of guid slot] show ?thesis
          by (auto simp: drop_member_entries_def subgroup_counter_decrease_like_cpp_def Let_def
              member_slot_like_cpp_def)
      next
        case False
        have "subgroup_size i ?ss = subgroup_size i (member_slots g)" if "i < 8" for i
          using subgroup_size_drop [OF d, of guid slot i] slot False cok that
          by (auto simp: member_slot_like_cpp_def counts_ok_def split: if_splits)
        then have "counts_ok cs ?ss" using cok by (simp add: counts_ok_def)
        with False Some slot show ?thesis
          by (auto simp: drop_member_entries_def subgroup_counter_decrease_like_cpp_def Let_def
              member_slot_like_cpp_def)
      qed
    qed
  qed
  show "group_wf (drop_member_entries guid g)"
    using wf counts raid gm ms m len2 unfolding group_wf_def
    by (auto split: option.splits)
  show "group_cap (drop_member_entries guid g)" if "group_cap g"
  proof -
    have "case raid_subgroup_counts (drop_member_entries guid g) of None \<Rightarrow> True
          | Some cs \<Rightarrow> \<forall>c\<in>set cs. unat c \<le> 5"
      using that counts unfolding group_cap_def by (fastforce split: option.splits)
    moreover have "length (group_members g) \<le> (if is_raid_group g then 40 else 5)"
      using that unfolding group_cap_def by blast
    ultimately show ?thesis
      unfolding group_cap_def gm raid using le_trans [OF len] by blast
  qed
qed

lemma drop_member_ready: "ready_ok g \<Longrightarrow> ready_ok (drop_member_entries guid g)"
proof -
  assume ok: "ready_ok g"
  have "ready_check_started (drop_member_entries guid g) = ready_check_started g"
    "ready_check_timer_ms (drop_member_entries guid g) = ready_check_timer_ms g"
    "set (member_slots (drop_member_entries guid g)) \<subseteq> set (member_slots g)"
    by (auto simp: drop_member_entries_def subgroup_counter_decrease_like_cpp_def Let_def
        split: option.splits)
  with ok show ?thesis by (auto simp: ready_ok_def)
qed

lemma remove_member_ok: "group_ok g \<Longrightarrow> group_ok (remove_member guid g)"
  by (simp add: group_ok_def remove_member_def drop_member_wf drop_member_ready)

lemma remove_member_members:
  "group_wf g \<Longrightarrow> group_members (remove_member guid g) = filter (\<lambda>m. m \<noteq> guid) (group_members g)"
  by (simp add: remove_member_def drop_member_wf)

section \<open>Moving between subgroups\<close>

lemma set_slot_subgroup_sel [simp]:
  "group_members (set_slot_subgroup i k g) = group_members g"
  "raid_subgroup_counts (set_slot_subgroup i k g) = raid_subgroup_counts g"
  "is_raid_group (set_slot_subgroup i k g) = is_raid_group g"
  "ready_check_started (set_slot_subgroup i k g) = ready_check_started g"
  "ready_check_timer_ms (set_slot_subgroup i k g) = ready_check_timer_ms g"
  "member_slots (set_slot_subgroup i k g) =
     (member_slots g)[i := (member_slots g ! i)\<lparr>slot_subgroup := k\<rparr>]"
  "length (member_slots (set_slot_subgroup i k g)) = length (member_slots g)"
  by (simp_all add: set_slot_subgroup_def is_raid_group_def)

lemma map_list_update_same:
  "i < length xs \<Longrightarrow> f x = f (xs ! i) \<Longrightarrow> map f (xs[i := x]) = map f xs"
  by (simp add: map_update) (metis length_map list_update_id nth_map)

lemma set_slot_subgroup_maps:
  "i < length (member_slots g) \<Longrightarrow>
     map slot_guid (member_slots (set_slot_subgroup i k g)) = map slot_guid (member_slots g)"
  "i < length (member_slots g) \<Longrightarrow>
     map slot_ready_checked (member_slots (set_slot_subgroup i k g)) = map slot_ready_checked (member_slots g)"
  by (simp_all del: map_update add: map_list_update_same)

lemma slot_position_Some:
  "slot_position guid g = Some i \<Longrightarrow> i < length (member_slots g) \<and> slot_guid (member_slots g ! i) = guid"
  unfolding slot_position_def by (drule position_Some) simp

lemma swap_quiet: "quiet g (snd (swap_members_groups_like_cpp first second g))"
proof (cases "fst (swap_members_groups_like_cpp first second g)")
  case None
  then have "snd (swap_members_groups_like_cpp first second g) = g"
    unfolding swap_members_groups_like_cpp_def by (auto simp: Let_def split: option.splits if_splits)
  then show ?thesis by simp
next
  case (Some us)
  then obtain i j where ij: "slot_position first g = Some i" "slot_position second g = Some j" "i \<noteq> j"
    and snd: "snd (swap_members_groups_like_cpp first second g) =
      bump_sequence (set_slot_subgroup j (slot_subgroup (member_slots g ! i))
        (set_slot_subgroup i (slot_subgroup (member_slots g ! j)) g))"
    unfolding swap_members_groups_like_cpp_def by (auto simp: Let_def split: option.splits if_splits)
  let ?ss = "member_slots g"
  let ?a = "slot_subgroup (?ss ! i)" and ?b = "slot_subgroup (?ss ! j)"
  let ?g1 = "set_slot_subgroup i ?b g"
  have len: "i < length ?ss" "j < length ?ss" using ij(1,2) by (auto dest: slot_position_Some)
  have "subgroup_size k (member_slots (set_slot_subgroup j ?a ?g1)) = subgroup_size k ?ss" for k
    using subgroup_size_list_update [OF len(1), of k "(?ss ! i)\<lparr>slot_subgroup := ?b\<rparr>"]
      subgroup_size_list_update [of j "member_slots ?g1" k "(?ss ! j)\<lparr>slot_subgroup := ?a\<rparr>"] len ij(3)
    by (auto split: if_splits)
  moreover have "map slot_guid (member_slots (set_slot_subgroup j ?a ?g1)) = map slot_guid ?ss"
    "map slot_ready_checked (member_slots (set_slot_subgroup j ?a ?g1)) = map slot_ready_checked ?ss"
    using len by (simp_all only: set_slot_subgroup_maps set_slot_subgroup_sel(7))
  ultimately show ?thesis
    unfolding snd quiet_bump quiet_def same_roster_def same_ready_def
    by (simp del: map_update set_slot_subgroup_sel(6) set_map add: subset_insertI)
qed

lemma change_group_None:
  "\<not> fst (change_member_group_like_cpp guid k g) \<Longrightarrow> snd (change_member_group_like_cpp guid k g) = g"
  unfolding change_member_group_like_cpp_def by (auto simp: Let_def split: option.splits if_splits)

lemma change_group_cases:
  assumes "fst (change_member_group_like_cpp guid k g)" "group_wf g"
  obtains i cs where "is_raid_group g" "unat k < 8" "slot_position guid g = Some i"
    "raid_subgroup_counts g = Some cs" "counts_ok cs (member_slots g)" "unat (cs ! unat k) < 5"
    "slot_subgroup (member_slots g ! i) \<noteq> k"
    "snd (change_member_group_like_cpp guid k g) =
       bump_sequence (subgroup_counter_decrease_like_cpp (slot_subgroup (member_slots g ! i))
         ((set_slot_subgroup i k g)\<lparr>raid_subgroup_counts :=
            Some (cs[unat k := saturating_add (cs ! unat k) 1])\<rparr>))"
proof -
  from assms(1) obtain i where raid: "is_raid_group g" and k: "unat k < 8"
    and free: "has_free_slot_sub_group_like_cpp g k" and i: "slot_position guid g = Some i"
    and ne: "slot_subgroup (member_slots g ! i) \<noteq> k"
    unfolding change_member_group_like_cpp_def by (auto simp: Let_def split: option.splits if_splits)
  from wf_raid_counts [OF assms(2) raid] obtain cs where
    cs: "raid_subgroup_counts g = Some cs" "counts_ok cs (member_slots g)" by auto
  have "unat (cs ! unat k) < 5" "length cs = 8"
    using free cs by (auto simp: has_free_slot_sub_group_like_cpp_def counts_ok_def)
  with raid k i cs ne show thesis
    by (intro that [of i cs])
      (auto simp: change_member_group_like_cpp_def free subgroup_counter_increase_like_cpp_def Let_def)
qed

lemma change_group_counts:
  assumes cok: "counts_ok cs ss" and i: "i < length ss" and k: "unat k < 8" "unat (cs ! unat k) < 5"
    and ne: "slot_subgroup (ss ! i) \<noteq> k"
  defines "cs1 \<equiv> cs[unat k := saturating_add (cs ! unat k) 1]" and "p \<equiv> unat (slot_subgroup (ss ! i))"
  shows "counts_ok (if p < length cs1 then cs1[p := saturating_sub (cs1 ! p) 1] else cs1)
           (ss[i := (ss ! i)\<lparr>slot_subgroup := k\<rparr>])"
  unfolding counts_ok_def
proof (intro conjI allI impI)
  show "length (if p < length cs1 then cs1[p := saturating_sub (cs1 ! p) 1] else cs1) = 8"
    using cok by (simp add: cs1_def counts_ok_def)
next
  fix j :: nat
  assume j: "j < 8"
  have pk: "p \<noteq> unat k" using ne by (simp add: p_def word_unat_eq_iff)
  have len: "length cs = 8" and eq: "unat (cs ! j) = subgroup_size j ss" using cok j by (auto simp: counts_ok_def)
  have upd: "subgroup_size j (ss[i := (ss ! i)\<lparr>slot_subgroup := k\<rparr>]) + (if p = j then 1 else 0) =
             subgroup_size j ss + (if unat k = j then 1 else 0)"
    using subgroup_size_list_update [OF i, of j "(ss ! i)\<lparr>slot_subgroup := k\<rparr>"] by (simp add: p_def)
  show "unat ((if p < length cs1 then cs1[p := saturating_sub (cs1 ! p) 1] else cs1) ! j) =
        subgroup_size j (ss[i := (ss ! i)\<lparr>slot_subgroup := k\<rparr>])"
    using upd eq len pk k j
    by (auto simp: cs1_def nth_list_update sat_inc_u8 split: if_splits)
qed

lemma change_group_ok:
  assumes ok: "group_ok g"
  shows "group_ok (snd (change_member_group_like_cpp guid k g))"
proof (cases "fst (change_member_group_like_cpp guid k g)")
  case False
  then show ?thesis using ok by (simp add: change_group_None)
next
  case True
  have wf: "group_wf g" and cap: "group_cap g" and rd: "ready_ok g" using ok by (auto simp: group_ok_def)
  obtain i cs where raid: "is_raid_group g" and k: "unat k < 8" and i: "slot_position guid g = Some i"
    and cs: "raid_subgroup_counts g = Some cs" and cok: "counts_ok cs (member_slots g)"
    and free: "unat (cs ! unat k) < 5" and ne: "slot_subgroup (member_slots g ! i) \<noteq> k"
    and res: "snd (change_member_group_like_cpp guid k g) =
       bump_sequence (subgroup_counter_decrease_like_cpp (slot_subgroup (member_slots g ! i))
         ((set_slot_subgroup i k g)\<lparr>raid_subgroup_counts :=
            Some (cs[unat k := saturating_add (cs ! unat k) 1])\<rparr>))"
    by (rule change_group_cases [OF True wf])
  let ?p = "unat (slot_subgroup (member_slots g ! i))"
  define cs1 where "cs1 = cs[unat k := saturating_add (cs ! unat k) 1]"
  define cs2 where "cs2 = (if ?p < length cs1 then cs1[?p := saturating_sub (cs1 ! ?p) 1] else cs1)"
  define h where "h = (set_slot_subgroup i k g)\<lparr>raid_subgroup_counts := Some cs2\<rparr>"
  have il: "i < length (member_slots g)" using i by (auto dest: slot_position_Some)
  have h: "group_members h = group_members g" "is_raid_group h"
    "map slot_guid (member_slots h) = map slot_guid (member_slots g)"
    "map slot_ready_checked (member_slots h) = map slot_ready_checked (member_slots g)"
    "raid_subgroup_counts h = Some cs2" "ready_check_started h = ready_check_started g"
    "ready_check_timer_ms h = ready_check_timer_ms g"
    "member_slots h = (member_slots g)[i := (member_slots g ! i)\<lparr>slot_subgroup := k\<rparr>]"
    using raid set_slot_subgroup_maps [OF il, of k] by (simp_all add: h_def is_raid_group_def set_slot_subgroup_def)
  have eq: "snd (change_member_group_like_cpp guid k g) = bump_sequence h"
    unfolding res by (simp add: subgroup_counter_decrease_like_cpp_def h_def cs2_def cs1_def)
  have le5: "\<forall>c\<in>set cs. unat c \<le> 5" using cap cs by (simp add: group_cap_def)
  have "\<forall>c\<in>set cs1. unat c \<le> 5"
    using le5 free by (auto simp: cs1_def sat_inc_u8 dest!: in_set_update)
  moreover have "unat (cs1 ! ?p) \<le> 6" if "?p < length cs1"
  proof -
    have "cs1 ! ?p \<in> set cs1" using that by (rule nth_mem)
    with \<open>\<forall>c\<in>set cs1. unat c \<le> 5\<close> have "unat (cs1 ! ?p) \<le> 5" by (rule bspec)
    then show ?thesis by simp
  qed
  ultimately have "\<forall>c\<in>set cs2. unat c \<le> 5"
    by (auto simp: cs2_def le_diff_conv dest!: in_set_update)
  moreover have "counts_ok cs2 (member_slots h)"
    using change_group_counts [OF cok il k free ne] unfolding h(8) cs2_def cs1_def .
  ultimately have "group_wf h" "group_cap h"
    using wf cap raid by (simp_all add: group_wf_def group_cap_def h(1-5))
  moreover have "ready_ok h"
    using ready_frame [OF _ rd, of h] by (simp only: same_ready_def h(4,6,7) simp_thms subset_insertI)
  ultimately show ?thesis by (simp add: eq group_ok_def)
qed

section \<open>Conversion\<close>

lemma raid_flag_bits:
  "((flags :: u16) OR GROUP_FLAG_RAID_LIKE_CPP) AND GROUP_FLAG_RAID_LIKE_CPP \<noteq> 0"
  "(flags AND NOT GROUP_FLAG_RAID_LIKE_CPP) AND GROUP_FLAG_RAID_LIKE_CPP = 0"
proof -
  have "((flags :: u16) OR GROUP_FLAG_RAID_LIKE_CPP) AND GROUP_FLAG_RAID_LIKE_CPP = GROUP_FLAG_RAID_LIKE_CPP"
    by (rule bit_eqI) (auto simp: bit_simps)
  then show "((flags :: u16) OR GROUP_FLAG_RAID_LIKE_CPP) AND GROUP_FLAG_RAID_LIKE_CPP \<noteq> 0"
    by (simp add: GROUP_FLAG_RAID_LIKE_CPP_def)
  show "(flags AND NOT GROUP_FLAG_RAID_LIKE_CPP) AND GROUP_FLAG_RAID_LIKE_CPP = 0"
    by (simp add: and.assoc)
qed

lemma raid_flag_nonzero [simp]: "GROUP_FLAG_RAID_LIKE_CPP \<noteq> 0"
  by (simp add: GROUP_FLAG_RAID_LIKE_CPP_def)

lemma convert_to_raid_ok:
  assumes ok: "group_ok g"
  shows "group_ok (convert_to_raid_like_cpp g)" and "is_raid_group (convert_to_raid_like_cpp g)"
proof -
  have wf: "group_wf g" and cap: "group_cap g" and rd: "ready_ok g" using ok by (auto simp: group_ok_def)
  show "group_ok (convert_to_raid_like_cpp g)"
  proof (cases "is_raid_group g")
    case True
    then show ?thesis using ok by (simp add: convert_to_raid_like_cpp_def)
  next
    case False
    define cs where "cs = foldl count_slot (replicate 8 0) (member_slots g)"
    define h where "h = g\<lparr>group_flags := group_flags g OR GROUP_FLAG_RAID_LIKE_CPP,
                          raid_subgroup_counts := Some cs\<rparr>"
    have h: "group_members h = group_members g" "member_slots h = member_slots g"
      "is_raid_group h" "raid_subgroup_counts h = Some cs"
      "ready_check_started h = ready_check_started g"
      "ready_check_timer_ms h = ready_check_timer_ms g"
      by (simp_all add: h_def is_raid_group_def raid_flag_bits)
    have len: "length (group_members g) \<le> 5" using cap False by (simp add: group_cap_def)
    have cok: "counts_ok cs (member_slots g)"
      using init_counts_ok len wf_length_slots [OF wf] by (simp add: cs_def)
    have "\<forall>c\<in>set cs. unat c \<le> 5"
    proof
      fix c assume "c \<in> set cs"
      then obtain i where "i < 8" "c = cs ! i" using cok by (auto simp: in_set_conv_nth counts_ok_def)
      then have "unat c = subgroup_size i (member_slots g)" using cok by (simp add: counts_ok_def)
      also have "\<dots> \<le> 5" using subgroup_size_le [of i "member_slots g"] len wf_length_slots [OF wf] by simp
      finally show "unat c \<le> 5" .
    qed
    with cok len wf cap have "group_wf h" "group_cap h" by (simp_all add: group_wf_def group_cap_def h)
    moreover have "ready_ok h" using rd by (simp add: ready_ok_def h)
    moreover have "convert_to_raid_like_cpp g = bump_sequence h"
      using False by (simp add: convert_to_raid_like_cpp_def init_raid_subgroups_counter_like_cpp_def
          h_def cs_def)
    ultimately show ?thesis by (simp add: group_ok_def)
  qed
  show "is_raid_group (convert_to_raid_like_cpp g)"
    by (simp add: convert_to_raid_like_cpp_def init_raid_subgroups_counter_like_cpp_def)
      (simp add: is_raid_group_def raid_flag_bits)
qed

lemma convert_to_group_ok:
  assumes ok: "group_ok g"
  shows "group_ok (snd (convert_to_group_like_cpp g))"
proof -
  have wf: "group_wf g" and cap: "group_cap g" and rd: "ready_ok g" using ok by (auto simp: group_ok_def)
  define h where "h = g\<lparr>group_flags := group_flags g AND NOT GROUP_FLAG_RAID_LIKE_CPP,
                        raid_subgroup_counts := None\<rparr>"
  have h: "group_members h = group_members g" "member_slots h = member_slots g"
    "\<not> is_raid_group h" "raid_subgroup_counts h = None"
    "ready_check_started h = ready_check_started g"
    "ready_check_timer_ms h = ready_check_timer_ms g"
    by (simp_all add: h_def is_raid_group_def raid_flag_bits)
  show ?thesis
  proof (cases "length (group_members g) > 5 \<or> \<not> is_raid_group g")
    case True
    then show ?thesis using ok by (auto simp: convert_to_group_like_cpp_def)
  next
    case False
    then have "group_wf h" "group_cap h" "ready_ok h"
      using wf cap rd by (simp_all add: group_wf_def group_cap_def ready_ok_def h)
    then show ?thesis using False by (simp add: convert_to_group_like_cpp_def group_ok_def flip: h_def)
  qed
qed

section \<open>Loading\<close>

text \<open>Rows may exceed the capacities, so loading keeps well-formedness below 256 members.\<close>

lemma load_member_wf:
  assumes wf: "group_wf g" and len: "length (group_members g) < 255"
  shows "group_wf (snd (load_member_from_db_like_cpp low flags k roles c g))"
proof (cases "\<exists>ch db. c = Some ch \<and> i64_try_from low = Some db \<and>
                \<not> (raid_subgroup_counts g \<noteq> None \<and> unat k \<ge> 8)")
  case False
  then have "snd (load_member_from_db_like_cpp low flags k roles c g) = g"
    by (auto simp: load_member_from_db_like_cpp_def Let_def split: option.splits)
  with wf show ?thesis by simp
next
  case True
  then obtain ch db where c: "c = Some ch" "i64_try_from low = Some db"
    and k: "raid_subgroup_counts g \<noteq> None \<Longrightarrow> unat k < 8" by auto
  let ?guid = "create_player 1 db"
  define d where "d = drop_member_entries ?guid g"
  have dwf: "group_wf d" and new: "?guid \<notin> set (group_members d)"
    and dl: "length (group_members d) < 255"
    using drop_member_wf [OF wf, of ?guid] len le_less_trans [OF length_filter_le len]
    by (simp_all add: d_def)
  define s where "s = \<lparr>slot_guid = ?guid, slot_name = character_name ch,
                         slot_race = character_race ch, slot_class = character_class ch,
                         slot_subgroup = k,
                         slot_flags = (if group_flags g AND GROUP_FLAG_EVERYONE_ASSISTANT_LIKE_CPP \<noteq> 0
                           then flags OR MEMBER_FLAG_ASSISTANT_LIKE_CPP else flags),
                         slot_roles = roles, slot_ready_checked = False\<rparr>"
  have s: "slot_guid s = ?guid" "slot_subgroup s = k" by (simp_all add: s_def)
  show ?thesis
  proof (cases "raid_subgroup_counts d")
    case None
    define h where "h = d\<lparr>group_members := group_members d @ [?guid],
                          member_slots := member_slots d @ [s]\<rparr>"
    have "raid_subgroup_counts g = None"
      using None by (auto simp: d_def drop_member_entries_def subgroup_counter_decrease_like_cpp_def Let_def
          split: option.splits if_splits)
    with c None have "load_member_from_db_like_cpp low flags k roles c g = (True, h)"
      by (simp add: load_member_from_db_like_cpp_def Let_def flip: d_def)
        (simp add: subgroup_counter_increase_like_cpp_def h_def s_def)
    moreover have "group_wf h" using dwf new dl None s
      by (simp add: group_wf_def h_def is_raid_group_def)
    ultimately show ?thesis by simp
  next
    case (Some cs)
    define cs1 where "cs1 = cs[unat k := saturating_add (cs ! unat k) 1]"
    define h where "h = d\<lparr>raid_subgroup_counts := Some cs1, group_members := group_members d @ [?guid],
                          member_slots := member_slots d @ [s]\<rparr>"
    have cok: "counts_ok cs (member_slots d)" and raid: "is_raid_group d"
      using dwf Some by (auto simp: group_wf_def)
    have "raid_subgroup_counts g \<noteq> None"
      using Some by (auto simp: d_def drop_member_entries_def subgroup_counter_decrease_like_cpp_def Let_def
          split: option.splits if_splits)
    with k have k8: "unat k < 8" by simp
    with c Some cok have "load_member_from_db_like_cpp low flags k roles c g = (True, h)"
      by (simp add: load_member_from_db_like_cpp_def Let_def flip: d_def)
        (simp add: subgroup_counter_increase_like_cpp_def h_def cs1_def counts_ok_def s_def)
    moreover have "counts_ok cs1 (member_slots d @ [s])"
      using counts_ok_inc [OF cok, of s] wf_length_slots [OF dwf] dl k8 s by (simp add: cs1_def)
    then have "group_wf h" using dwf new dl raid s
      by (simp add: group_wf_def h_def is_raid_group_def)
    ultimately show ?thesis by simp
  qed
qed

section \<open>Identity\<close>

text \<open>No operation changes the identity under which the registry and the database know a group.\<close>

definition same_identity :: "GroupInfo \<Rightarrow> GroupInfo \<Rightarrow> bool" where
  "same_identity g g' =
     (group_guid g' = group_guid g \<and> db_store_id g' = db_store_id g \<and>
      group_category g' = group_category g)"

lemma same_identity_bump [simp]: "same_identity g (bump_sequence h) = same_identity g h"
  by (simp add: same_identity_def)

lemma same_identity_refl [simp]: "same_identity g g"
  by (simp add: same_identity_def)

lemma same_identity_trans: "same_identity g h \<Longrightarrow> same_identity h k \<Longrightarrow> same_identity g k"
  by (simp add: same_identity_def)

lemma counter_identity [simp]:
  "same_identity g (subgroup_counter_decrease_like_cpp k h) = same_identity g h"
  "same_identity g (snd (subgroup_counter_increase_like_cpp k h)) = same_identity g h"
  by (auto simp: subgroup_counter_decrease_like_cpp_def subgroup_counter_increase_like_cpp_def
      same_identity_def split: option.splits)

lemma slot_subgroup_identity [simp]:
  "same_identity g (set_slot_subgroup i k h) = same_identity g h"
  by (simp add: same_identity_def set_slot_subgroup_def)

lemma drop_identity [simp]: "same_identity g (drop_member_entries guid g)"
  by (auto simp: drop_member_entries_def subgroup_counter_decrease_like_cpp_def Let_def
      same_identity_def split: option.splits)

lemma add_member_identity [simp]: "same_identity g (snd (add_member guid g))"
proof -
  have "same_identity g h" if "subgroup_counter_increase_like_cpp k g = (b, h)" for k b h
    using counter_identity(2) [of g k g] that by simp
  then show ?thesis
    by (auto simp: add_member_def split: option.splits prod.splits bool.splits)
      (simp_all add: same_identity_def)
qed

lemma membership_identity [simp]:
  "same_identity g (remove_member guid g)"
  "same_identity g (snd (swap_members_groups_like_cpp first second g))"
  "same_identity g (snd (change_member_group_like_cpp guid k g))"
  "same_identity g (snd (set_lfg_roles_like_cpp guid roles g))"
  "same_identity g (snd (remove_unique_group_member_flag_like_cpp flag g))"
  "same_identity g (snd (change_leader_like_cpp guid g))"
  "same_identity g (snd (set_everyone_is_assistant_like_cpp b g))"
  "same_identity g (convert_to_raid_like_cpp g)"
  "same_identity g (snd (convert_to_group_like_cpp g))"
  by (auto simp: remove_member_def swap_members_groups_like_cpp_def Let_def
      change_member_group_like_cpp_def set_lfg_roles_like_cpp_def
      remove_unique_group_member_flag_like_cpp_def change_leader_like_cpp_def
      set_everyone_is_assistant_like_cpp_def convert_to_raid_like_cpp_def
      convert_to_group_like_cpp_def init_raid_subgroups_counter_like_cpp_def split: option.splits)
    (simp_all add: same_identity_def)

lemma flag_updates_identity:
  "same_identity g (snd (set_group_member_flag_updates_like_cpp guid b flag g))"
  by (auto simp: set_group_member_flag_updates_like_cpp_def Let_def split: option.splits)
    (simp_all add: same_identity_def)

lemma set_flag_identity [simp]: "same_identity g (snd (set_group_member_flag_like_cpp guid b flag g))"
  using flag_updates_identity [of g guid b flag]
  by (auto simp: set_group_member_flag_like_cpp_def split: prod.splits option.splits)

declare flag_updates_identity [simp]

end
