(* ===== verification/GroupTransitions.thy ===== *)
theory GroupTransitions
  imports GroupInvariant
begin

text \<open>
  The registry transitions of \<open>membership.rs\<close>.  A transition that takes \<open>get_mut\<close> is
  \<open>with_group\<close> applied to its body; removal works on the map entry, since it may delete it.
  The contract every body meets is the locale \<open>group_operation\<close>: identity and invariant of
  the group are kept, hence the registry's.
\<close>

section \<open>Reads\<close>

record GroupMembershipStateLikeCpp =
  membership_group_guid :: u64
  membership_group_category :: u8
  membership_leader_guid :: ObjectGuid
  membership_role_mask :: u8
  membership_subgroup :: u8

definition membership_state ::
  "GroupInfo \<Rightarrow> ObjectGuid \<Rightarrow> GroupMembershipStateLikeCpp option" where
  "membership_state g member =
     (case member_slot_like_cpp g member of None \<Rightarrow> None
      | Some slot \<Rightarrow> Some \<lparr>membership_group_guid = group_guid g,
                           membership_group_category = group_category_like_cpp g,
                           membership_leader_guid = leader_guid g,
                           membership_role_mask = slot_roles slot,
                           membership_subgroup = slot_subgroup slot\<rparr>)"

fun find_map :: "('a \<Rightarrow> 'b option) \<Rightarrow> 'a list \<Rightarrow> 'b option" where
  "find_map f [] = None"
| "find_map f (x # xs) = (case f x of None \<Rightarrow> find_map f xs | Some y \<Rightarrow> Some y)"

definition member_group_state_like_cpp ::
  "GroupAuthority \<Rightarrow> ObjectGuid \<Rightarrow> GroupMembershipStateLikeCpp option" where
  "member_group_state_like_cpp a member = find_map (\<lambda>g. membership_state g member) (hm_values (groups a))"

definition registry_group_category_like_cpp :: "GroupAuthority \<Rightarrow> u64 \<Rightarrow> u8 option" where
  "registry_group_category_like_cpp a gid = map_option group_category_like_cpp (hm_get (groups a) gid)"

section \<open>Removal\<close>

definition kick_guard ::
  "GroupMemberRemovalKindLikeCpp \<Rightarrow> ObjectGuid \<Rightarrow> GroupInfo \<Rightarrow> GroupAuthorityErrorLikeCpp option" where
  "kick_guard kind member g =
     (case kind of Leave \<Rightarrow> None
      | Kick actor in_battleground loot_rolls in_combat \<Rightarrow>
         (if is_lfg_group_like_cpp g then
            (if lfg_kicks_left_like_cpp g = 0 then Some LfgBootLimit
             else if length (group_members g) \<le> LFG_GROUP_KICK_VOTES_NEEDED_LIKE_CPP
             then Some LfgBootTooFewPlayers
             else if Option.bind (lfg_db_state g) lfg_state = Some LFG_STATE_FINISHED_DUNGEON_LIKE_CPP
             then Some LfgBootDungeonComplete
             else if loot_rolls then Some LfgBootLootRolls
             else if in_combat then Some LfgBootInCombat
             else None)
          else
            (if \<not> is_leader_like_cpp g actor \<and> \<not> is_assistant_like_cpp g actor
             then Some NotLeaderOrAssistant
             else if in_battleground then Some InviteRestricted
             else if leader_guid g = member then Some TargetIsLeader
             else None)))"

fun is_kick :: "GroupMemberRemovalKindLikeCpp \<Rightarrow> bool" where
  "is_kick Leave = False"
| "is_kick (Kick _ _ _ _) = True"

text \<open>The member is taken out; a removed leader of two or more is succeeded by the first connected member.\<close>

definition removal_succession ::
  "ObjectGuid \<Rightarrow> ObjectGuid list \<Rightarrow> GroupInfo \<Rightarrow> ObjectGuid option \<times> GroupInfo" where
  "removal_succession member connected g =
     (let g1 = remove_member member g
      in if length (group_members g1) \<ge> 2 \<and> leader_guid g = member then
           (case find (\<lambda>c. c \<in> set (group_members g1)) connected of
              None \<Rightarrow> (None, g1)
            | Some successor \<Rightarrow>
                (case change_leader_like_cpp successor g1 of
                   (None, g2) \<Rightarrow> (None, g2)
                 | (Some _, g2) \<Rightarrow> (Some successor, g2)))
         else (None, g1))"

definition removal_persistence ::
  "u32 \<Rightarrow> ObjectGuid \<Rightarrow> ObjectGuid option \<Rightarrow> bool \<Rightarrow> GroupPersistenceIntentLikeCpp list" where
  "removal_persistence sid member successor gone =
     (if gone then [DeleteGroup sid, DeleteAllMembers sid, DeleteLfgData sid]
      else DeleteMember member #
           (case successor of None \<Rightarrow> [] | Some l \<Rightarrow> [UpdateLeader sid l]))"

definition remove_member_like_cpp ::
  "u64 \<Rightarrow> ObjectGuid \<Rightarrow> GroupMemberRemovalKindLikeCpp \<Rightarrow> ObjectGuid list \<Rightarrow> GroupAuthority
     \<Rightarrow> (GroupAuthorityErrorLikeCpp +
          GroupMemberRemovalFactsLikeCpp GroupTransitionOutcomeLikeCpp) \<times> GroupAuthority" where
  "remove_member_like_cpp gid member kind connected a =
     (case hm_get (groups a) gid of None \<Rightarrow> (Inl MissingGroup, a)
      | Some g \<Rightarrow>
       (case kick_guard kind member g of Some e \<Rightarrow> (Inl e, a)
        | None \<Rightarrow>
         (if member \<notin> set (group_members g) then (Inl MissingMember, a)
          else if is_kick kind \<and> is_lfg_group_like_cpp g then (Inl LfgKickOwnedByVote, a)
          else
           (case removal_succession member connected g of (successor, g') \<Rightarrow>
             (let sid = db_store_id g';
                  gone = (length (group_members g') < 2);
                  outcome =
                    \<lparr>outcome_group = g',
                     outcome_facts = \<lparr>removed_guid = member, removal_db_store_id = sid, disbanded = gone,
                                      new_leader_guid = successor, remaining_members = group_members g'\<rparr>,
                     outcome_persistence = removal_persistence sid member successor gone\<rparr>
              in (Inr outcome,
                  if gone
                  then a\<lparr>groups := hm_remove gid (groups a),
                         group_ids := free_group_db_store_id_like_cpp sid (group_ids a)\<rparr>
                  else a\<lparr>groups := hm_insert gid g' (groups a)\<rparr>))))))"

section \<open>Transitions on one group\<close>

definition may_manage :: "GroupInfo \<Rightarrow> ObjectGuid \<Rightarrow> bool" where
  "may_manage g actor = (is_leader_like_cpp g actor \<or> is_assistant_like_cpp g actor)"

definition convert_group_body :: "ObjectGuid \<Rightarrow> bool \<Rightarrow> (u16 \<times> u32) group_body" where
  "convert_group_body actor raid g =
     (if \<not> is_leader_like_cpp g actor then (Inl NotLeader, g)
      else if length (group_members g) < 2 then (Inl MissingMember, g)
      else
       (case (if raid then (True, convert_to_raid_like_cpp g) else convert_to_group_like_cpp g) of
          (False, g') \<Rightarrow> (Inl GroupTooLarge, g')
        | (True, g') \<Rightarrow>
            (Inr ((group_flags g', db_store_id g'), [UpdateGroupType (db_store_id g') (group_flags g')]), g')))"

definition convert_group_like_cpp ::
  "u64 \<Rightarrow> ObjectGuid \<Rightarrow> bool \<Rightarrow> (u16 \<times> u32) group_transition" where
  "convert_group_like_cpp gid actor raid = with_group gid (convert_group_body actor raid)"

definition change_member_subgroup_body :: "ObjectGuid \<Rightarrow> ObjectGuid \<Rightarrow> u8 \<Rightarrow> (ObjectGuid \<times> u8) group_body" where
  "change_member_subgroup_body actor member subgroup g =
     (if \<not> may_manage g actor then (Inl NotLeaderOrAssistant, g)
      else if \<not> is_raid_group g then (Inl NotRaid, g)
      else if unat subgroup \<ge> MAX_RAID_SUBGROUPS_LIKE_CPP then (Inl InvalidSubgroup, g)
      else if \<not> has_free_slot_sub_group_like_cpp g subgroup then (Inl SubgroupFull, g)
      else if member \<notin> set (group_members g) then (Inl MissingMember, g)
      else
       (case change_member_group_like_cpp member subgroup g of
          (False, g') \<Rightarrow> (Inl NoChange, g')
        | (True, g') \<Rightarrow> (Inr ((member, subgroup), [UpdateMemberSubgroup member subgroup]), g')))"

definition change_member_subgroup_like_cpp ::
  "u64 \<Rightarrow> ObjectGuid \<Rightarrow> ObjectGuid \<Rightarrow> u8 \<Rightarrow> (ObjectGuid \<times> u8) group_transition" where
  "change_member_subgroup_like_cpp gid actor member subgroup =
     with_group gid (change_member_subgroup_body actor member subgroup)"

definition swap_member_subgroups_body :: "ObjectGuid \<Rightarrow> ObjectGuid \<Rightarrow> ObjectGuid \<Rightarrow> ((ObjectGuid \<times> u8) list) group_body" where
  "swap_member_subgroups_body actor first second g =
     (if \<not> may_manage g actor then (Inl NotLeaderOrAssistant, g)
      else
       (case swap_members_groups_like_cpp first second g of
          (None, g') \<Rightarrow> (Inl NoChange, g')
        | (Some facts, g') \<Rightarrow>
            (Inr (facts, map (\<lambda>(member, subgroup). UpdateMemberSubgroup member subgroup) facts), g')))"

definition swap_member_subgroups_like_cpp ::
  "u64 \<Rightarrow> ObjectGuid \<Rightarrow> ObjectGuid \<Rightarrow> ObjectGuid \<Rightarrow> ((ObjectGuid \<times> u8) list) group_transition" where
  "swap_member_subgroups_like_cpp gid actor first second =
     with_group gid (swap_member_subgroups_body actor first second)"

definition change_leader_body :: "ObjectGuid \<Rightarrow> ObjectGuid \<Rightarrow> (u32 \<times> u8) group_body" where
  "change_leader_body actor new_leader g =
     (if \<not> is_leader_like_cpp g actor then (Inl NotLeader, g)
      else if new_leader \<notin> set (group_members g) then (Inl MissingMember, g)
      else
       (case change_leader_like_cpp new_leader g of
          (None, g') \<Rightarrow> (Inl NoChange, g')
        | (Some flags, g') \<Rightarrow>
            (Inr ((db_store_id g, flags),
                  (if db_store_id g \<noteq> 0 then [UpdateLeader (db_store_id g) new_leader] else []) @
                  [UpdateMemberFlags new_leader flags]), g')))"

definition change_leader_transition_like_cpp ::
  "u64 \<Rightarrow> ObjectGuid \<Rightarrow> ObjectGuid \<Rightarrow> (u32 \<times> u8) group_transition" where
  "change_leader_transition_like_cpp gid actor new_leader =
     with_group gid (change_leader_body actor new_leader)"

definition set_member_flag_body :: "ObjectGuid \<Rightarrow> ObjectGuid \<Rightarrow> bool \<Rightarrow> u8 \<Rightarrow> u8 group_body" where
  "set_member_flag_body actor member apply_flag flag g =
     (if \<not> is_leader_like_cpp g actor then (Inl NotLeader, g)
      else
       (case set_group_member_flag_like_cpp member apply_flag flag g of
          (None, g') \<Rightarrow> (Inl MissingMember, g')
        | (Some flags, g') \<Rightarrow> (Inr (flags, [UpdateMemberFlags member flags]), g')))"

definition set_member_flag_transition_like_cpp ::
  "u64 \<Rightarrow> ObjectGuid \<Rightarrow> ObjectGuid \<Rightarrow> bool \<Rightarrow> u8 \<Rightarrow> u8 group_transition" where
  "set_member_flag_transition_like_cpp gid actor member apply_flag flag =
     with_group gid (set_member_flag_body actor member apply_flag flag)"

definition set_everyone_assistant_body :: "ObjectGuid \<Rightarrow> bool \<Rightarrow> (u16 \<times> u32) group_body" where
  "set_everyone_assistant_body actor apply_flag g =
     (if \<not> is_leader_like_cpp g actor then (Inl NotLeader, g)
      else
       (case set_everyone_is_assistant_like_cpp apply_flag g of
          ((flags, sid), g') \<Rightarrow> (Inr ((flags, sid), [UpdateGroupType sid flags]), g')))"

definition set_everyone_assistant_transition_like_cpp ::
  "u64 \<Rightarrow> ObjectGuid \<Rightarrow> bool \<Rightarrow> (u16 \<times> u32) group_transition" where
  "set_everyone_assistant_transition_like_cpp gid actor apply_flag =
     with_group gid (set_everyone_assistant_body actor apply_flag)"

definition assignment_flag :: "u8 \<Rightarrow> u8 option" where
  "assignment_flag assignment =
     (if assignment = GROUP_ASSIGN_MAINASSIST_LIKE_CPP then Some MEMBER_FLAG_MAINASSIST_LIKE_CPP
      else if assignment = GROUP_ASSIGN_MAINTANK_LIKE_CPP then Some MEMBER_FLAG_MAINTANK_LIKE_CPP
      else None)"

definition set_party_assignment_body :: "ObjectGuid \<Rightarrow> ObjectGuid \<Rightarrow> u8 \<Rightarrow> bool \<Rightarrow> ((ObjectGuid \<times> u8) list) group_body" where
  "set_party_assignment_body actor member assignment apply_flag g =
     (if \<not> may_manage g actor then (Inl NotLeaderOrAssistant, g)
      else
       (case assignment_flag assignment of
          None \<Rightarrow> (Inr ([], []), g)
        | Some flag \<Rightarrow>
           (let g1 = snd (remove_unique_group_member_flag_like_cpp flag g)
            in case set_group_member_flag_updates_like_cpp member apply_flag flag g1 of (updates, g') \<Rightarrow>
                 (let facts = (case updates of None \<Rightarrow> [] | Some us \<Rightarrow> us)
                  in (Inr (facts, map (\<lambda>(m, flags). UpdateMemberFlags m flags) facts), g')))))"

definition set_party_assignment_transition_like_cpp ::
  "u64 \<Rightarrow> ObjectGuid \<Rightarrow> ObjectGuid \<Rightarrow> u8 \<Rightarrow> bool \<Rightarrow> ((ObjectGuid \<times> u8) list) group_transition" where
  "set_party_assignment_transition_like_cpp gid actor member assignment apply_flag =
     with_group gid (set_party_assignment_body actor member assignment apply_flag)"

definition set_lfg_role_body :: "ObjectGuid \<Rightarrow> u8 \<Rightarrow> (u8 \<times> bool) group_body" where
  "set_lfg_role_body member role g =
     (let old_role = get_lfg_roles_like_cpp g member
      in if old_role = role then (Inl NoChange, g)
         else (case set_lfg_roles_like_cpp member role g of
                 (mutated, g') \<Rightarrow> (Inr ((old_role, mutated), []), g')))"

definition set_lfg_role_transition_like_cpp ::
  "u64 \<Rightarrow> ObjectGuid \<Rightarrow> u8 \<Rightarrow> (u8 \<times> bool) group_transition" where
  "set_lfg_role_transition_like_cpp gid member role = with_group gid (set_lfg_role_body member role)"

section \<open>The contract of the transitions\<close>

definition registry_ok :: "GroupAuthority \<Rightarrow> bool" where
  "registry_ok a =
     (hm_ok (groups a) \<and>
      (\<forall>gid g. hm_get (groups a) gid = Some g \<longrightarrow> group_guid g = gid \<and> group_ok g))"

lemma with_group_missing: "hm_get (groups a) gid = None \<Longrightarrow> with_group gid body a = (Inl MissingGroup, a)"
  by (simp add: with_group_def)

lemma with_group_state:
  "hm_get (groups a) gid = Some g \<Longrightarrow>
     snd (with_group gid body a) = a\<lparr>groups := hm_insert gid (snd (body g)) (groups a)\<rparr>"
  by (auto simp: with_group_def split: prod.splits sum.splits)

text \<open>A result is the outcome of a body, with a copy of the group as the body left it.\<close>

lemma with_group_Inr:
  "fst (with_group gid body a) = Inr out \<longleftrightarrow>
     (\<exists>g facts intents. hm_get (groups a) gid = Some g \<and> fst (body g) = Inr (facts, intents) \<and>
        out = \<lparr>outcome_group = snd (body g), outcome_facts = facts, outcome_persistence = intents\<rparr>)"
  by (auto simp: with_group_def split: option.splits prod.splits sum.splits)

lemma with_group_ids [simp]: "group_ids (snd (with_group gid body a)) = group_ids a"
  by (auto simp: with_group_def split: option.splits prod.splits sum.splits)

locale group_operation =
  fixes body :: "'f group_body"
  assumes keeps_ok: "group_ok g \<Longrightarrow> group_ok (snd (body g))"
    and keeps_identity: "same_identity g (snd (body g))"
begin

lemma transition_ok: "registry_ok a \<Longrightarrow> registry_ok (snd (with_group gid body a))"
proof (cases "hm_get (groups a) gid")
  case None
  assume "registry_ok a"
  with None show ?thesis by (simp add: with_group_missing)
next
  case (Some g)
  assume "registry_ok a"
  with Some keeps_ok [of g] keeps_identity [of g] show ?thesis
    by (auto simp: with_group_state registry_ok_def same_identity_def)
qed

lemma transition_other:
  "k \<noteq> gid \<Longrightarrow> hm_get (groups (snd (with_group gid body a))) k = hm_get (groups a) k"
  by (cases "hm_get (groups a) gid") (simp_all add: with_group_missing with_group_state)

lemma transition_dom: "dom (hm_get (groups (snd (with_group gid body a)))) = dom (hm_get (groups a))"
  by (cases "hm_get (groups a) gid")
    (auto simp: with_group_missing with_group_state split: if_splits)

lemma transition_store_ids:
  "map_option db_store_id (hm_get (groups (snd (with_group gid body a))) k) =
     map_option db_store_id (hm_get (groups a) k)"
  using keeps_identity
  by (cases "hm_get (groups a) gid")
    (auto simp: with_group_missing with_group_state same_identity_def)

end

interpretation convert_op: group_operation "convert_group_body actor raid" for actor raid
proof
  show "group_ok g \<Longrightarrow> group_ok (snd (convert_group_body actor raid g))" for g
    using convert_to_raid_ok(1) [of g] convert_to_group_ok [of g]
    by (auto simp: convert_group_body_def split: prod.splits bool.splits)
  show "same_identity g (snd (convert_group_body actor raid g))" for g
    using membership_identity(8,9) [of g]
    by (auto simp: convert_group_body_def simp del: membership_identity split: prod.splits bool.splits)
qed

interpretation change_subgroup_op: group_operation "change_member_subgroup_body actor member subgroup"
  for actor member subgroup
proof
  show "group_ok g \<Longrightarrow> group_ok (snd (change_member_subgroup_body actor member subgroup g))" for g
    using change_group_ok [of g member subgroup]
    by (auto simp: change_member_subgroup_body_def split: prod.splits bool.splits)
  show "same_identity g (snd (change_member_subgroup_body actor member subgroup g))" for g
    using membership_identity(3) [of g member subgroup]
    by (auto simp: change_member_subgroup_body_def simp del: membership_identity
        split: prod.splits bool.splits)
qed

interpretation swap_op: group_operation "swap_member_subgroups_body actor first second"
  for actor first second
proof
  show "group_ok g \<Longrightarrow> group_ok (snd (swap_member_subgroups_body actor first second g))" for g
    using ok_quiet [OF swap_quiet [of g first second]]
    by (auto simp: swap_member_subgroups_body_def split: prod.splits option.splits)
  show "same_identity g (snd (swap_member_subgroups_body actor first second g))" for g
    using membership_identity(2) [of g first second]
    by (auto simp: swap_member_subgroups_body_def simp del: membership_identity
        split: prod.splits option.splits)
qed

interpretation leader_op: group_operation "change_leader_body actor new_leader" for actor new_leader
proof
  show "group_ok g \<Longrightarrow> group_ok (snd (change_leader_body actor new_leader g))" for g
    using ok_quiet [OF quiet_change_leader [of g new_leader]]
    by (auto simp: change_leader_body_def split: prod.splits option.splits)
  show "same_identity g (snd (change_leader_body actor new_leader g))" for g
    using membership_identity(6) [of g new_leader]
    by (auto simp: change_leader_body_def simp del: membership_identity split: prod.splits option.splits)
qed

interpretation member_flag_op: group_operation "set_member_flag_body actor member apply_flag flag"
  for actor member apply_flag flag
proof
  show "group_ok g \<Longrightarrow> group_ok (snd (set_member_flag_body actor member apply_flag flag g))" for g
    using ok_quiet [OF quiet_set_flag [of g member apply_flag flag]]
    by (auto simp: set_member_flag_body_def split: prod.splits option.splits)
  show "same_identity g (snd (set_member_flag_body actor member apply_flag flag g))" for g
    using set_flag_identity [of g member apply_flag flag]
    by (auto simp: set_member_flag_body_def simp del: set_flag_identity split: prod.splits option.splits)
qed

interpretation everyone_op: group_operation "set_everyone_assistant_body actor apply_flag"
  for actor apply_flag
proof
  show "group_ok g \<Longrightarrow> group_ok (snd (set_everyone_assistant_body actor apply_flag g))" for g
    using ok_quiet [OF quiet_set_everyone [of g apply_flag]]
    by (auto simp: set_everyone_assistant_body_def split: prod.splits)
  show "same_identity g (snd (set_everyone_assistant_body actor apply_flag g))" for g
    using membership_identity(7) [of g apply_flag]
    by (auto simp: set_everyone_assistant_body_def simp del: membership_identity split: prod.splits)
qed

interpretation assignment_op: group_operation "set_party_assignment_body actor member assignment apply_flag"
  for actor member assignment apply_flag
proof
  have q: "quiet g (snd (set_group_member_flag_updates_like_cpp member apply_flag flag
             (snd (remove_unique_group_member_flag_like_cpp flag g))))" for g flag
    by (rule quiet_trans [OF quiet_remove_unique quiet_flag_updates])
  have i: "same_identity g (snd (set_group_member_flag_updates_like_cpp member apply_flag flag
             (snd (remove_unique_group_member_flag_like_cpp flag g))))" for g flag
    by (rule same_identity_trans [OF membership_identity(5) flag_updates_identity])
  show "group_ok g \<Longrightarrow> group_ok (snd (set_party_assignment_body actor member assignment apply_flag g))" for g
    using ok_quiet [OF q [of g]]
    by (auto simp: set_party_assignment_body_def Let_def case_prod_beta split: option.splits)
  show "same_identity g (snd (set_party_assignment_body actor member assignment apply_flag g))" for g
    using i [of g] by (auto simp: set_party_assignment_body_def Let_def case_prod_beta split: option.splits)
qed

interpretation lfg_role_op: group_operation "set_lfg_role_body member role" for member role
proof
  show "group_ok g \<Longrightarrow> group_ok (snd (set_lfg_role_body member role g))" for g
    using ok_quiet [OF quiet_set_lfg_roles [of g member role]]
    by (auto simp: set_lfg_role_body_def Let_def split: prod.splits)
  show "same_identity g (snd (set_lfg_role_body member role g))" for g
    using membership_identity(4) [of g member role]
    by (auto simp: set_lfg_role_body_def Let_def simp del: membership_identity split: prod.splits)
qed

end
