(* ===== verification/GroupSettings.thy ===== *)
theory GroupSettings
  imports GroupTransitions
begin

text \<open>
  \<open>crates/wow-social/src/group/settings.rs\<close>: the looter rotation, target icons, raid markers,
  instance links and difficulty of a group, and their registry transitions.
\<close>

section \<open>Target icons and raid markers\<close>

definition target_icon_list_like_cpp :: "GroupInfo \<Rightarrow> (u8 \<times> ObjectGuid) list" where
  "target_icon_list_like_cpp g =
     map (\<lambda>(symbol, raw). (of_nat symbol, from_raw_bytes raw)) (enumerate 0 (target_icons g))"

definition active_raid_markers_mask_like_cpp :: "GroupInfo \<Rightarrow> u32" where
  "active_raid_markers_mask_like_cpp g =
     foldl (\<lambda>mask (index, marker). if marker \<noteq> None then mask OR push_bit index 1 else mask)
       0 (enumerate 0 (raid_markers g))"

definition raid_marker_list_like_cpp :: "GroupInfo \<Rightarrow> RaidMarkerLikeCpp list" where
  "raid_marker_list_like_cpp g = List.map_filter (\<lambda>m. m) (raid_markers g)"

definition add_raid_marker_like_cpp ::
  "u8 \<Rightarrow> u32 \<Rightarrow> Position \<Rightarrow> ObjectGuid \<Rightarrow> GroupInfo \<Rightarrow> bool \<times> GroupInfo" where
  "add_raid_marker_like_cpp marker_id mapid pos transport g =
     (let index = unat marker_id
      in if \<not> index < length (raid_markers g) then (False, g)
         else if raid_markers g ! index \<noteq> None then (False, g)
         else (True, g\<lparr>raid_markers := (raid_markers g)[index :=
                 Some \<lparr>marker_map_id = mapid, marker_position = pos,
                       marker_transport_guid = transport\<rparr>]\<rparr>))"

definition clears_marker :: "u8 \<Rightarrow> nat \<Rightarrow> 'm option \<Rightarrow> bool" where
  "clears_marker marker_id index marker =
     (marker \<noteq> None \<and> (unat marker_id = index \<or> unat marker_id = RAID_MARKERS_COUNT_LIKE_CPP))"

definition delete_raid_marker_like_cpp :: "u8 \<Rightarrow> GroupInfo \<Rightarrow> bool \<times> GroupInfo" where
  "delete_raid_marker_like_cpp marker_id g =
     (if unat marker_id > RAID_MARKERS_COUNT_LIKE_CPP then (False, g)
      else
       (let entries = enumerate 0 (raid_markers g)
        in (list_ex (\<lambda>(index, marker). clears_marker marker_id index marker) entries,
            g\<lparr>raid_markers := map (\<lambda>(index, marker).
                if clears_marker marker_id index marker then None else marker) entries\<rparr>)))"

text \<open>The loop over the eight symbols clears each icon that already shows the target.\<close>

fun clear_target_icons :: "u8 list \<Rightarrow> nat list \<Rightarrow> u8 list list \<Rightarrow> (u8 \<times> ObjectGuid) list
    \<Rightarrow> u8 list list \<times> (u8 \<times> ObjectGuid) list" where
  "clear_target_icons target_raw [] icons updates = (icons, updates)"
| "clear_target_icons target_raw (symbol # symbols) icons updates =
     (if icons ! symbol = target_raw
      then clear_target_icons target_raw symbols (icons[symbol := EMPTY_TARGET_ICON_RAW_LIKE_CPP])
             (updates @ [(of_nat symbol, ObjectGuid_EMPTY)])
      else clear_target_icons target_raw symbols icons updates)"

definition set_target_icon_like_cpp ::
  "u8 \<Rightarrow> ObjectGuid \<Rightarrow> GroupInfo \<Rightarrow> (u8 \<times> ObjectGuid) list option \<times> GroupInfo" where
  "set_target_icon_like_cpp symbol target g =
     (let symbol_index = unat symbol
      in if symbol_index \<ge> TARGET_ICONS_COUNT_LIKE_CPP then (None, g)
         else
          (let (icons, updates) =
                 (if \<not> is_empty target
                  then clear_target_icons (to_raw_bytes target) [0..<TARGET_ICONS_COUNT_LIKE_CPP]
                         (target_icons g) []
                  else (target_icons g, []))
           in (Some (updates @ [(symbol, target)]),
               bump_sequence (g\<lparr>target_icons := icons[symbol_index := to_raw_bytes target]\<rparr>))))"

section \<open>Looter rotation\<close>

definition looter_guid_like_cpp :: "GroupInfo \<Rightarrow> ObjectGuid" where
  "looter_guid_like_cpp g =
     (if group_loot_method g = LOOT_METHOD_FREE_FOR_ALL_LIKE_CPP then ObjectGuid_EMPTY else looter_guid g)"

definition next_looter :: "nat \<Rightarrow> ObjectGuid list \<Rightarrow> GroupMemberSlotLikeCpp list \<Rightarrow> ObjectGuid option" where
  "next_looter start_index eligible slots =
     map_option slot_guid (find (\<lambda>slot. slot_guid slot \<in> set eligible)
       (drop start_index slots @ take start_index slots))"

definition update_looter_guid_like_cpp ::
  "ObjectGuid list \<Rightarrow> bool \<Rightarrow> GroupInfo \<Rightarrow> bool \<times> GroupInfo" where
  "update_looter_guid_like_cpp eligible ifneed g =
     (if group_loot_method g = LOOT_METHOD_FREE_FOR_ALL_LIKE_CPP then (False, g)
      else
       (let old_looter = looter_guid_like_cpp g;
            current_index = slot_position old_looter g
        in if current_index \<noteq> None \<and> ifneed \<and> old_looter \<in> set eligible then (False, g)
           else
            (let start_index = (case current_index of Some index \<Rightarrow> index + 1 | None \<Rightarrow> 0);
                 new_looter = next_looter start_index eligible (member_slots g)
             in if new_looter = Some old_looter then (False, g)
                else (True, bump_sequence (g\<lparr>looter_guid :=
                       (case new_looter of Some l \<Rightarrow> l | None \<Rightarrow> ObjectGuid_EMPTY)\<rparr>)))))"

section \<open>Difficulty\<close>

definition set_dungeon_difficulty_id_like_cpp :: "u32 \<Rightarrow> GroupInfo \<Rightarrow> bool \<times> GroupInfo" where
  "set_dungeon_difficulty_id_like_cpp d g =
     (if dungeon_difficulty_id g = d then (False, g) else (True, g\<lparr>dungeon_difficulty_id := d\<rparr>))"

definition set_raid_difficulty_id_like_cpp :: "u32 \<Rightarrow> GroupInfo \<Rightarrow> bool \<times> GroupInfo" where
  "set_raid_difficulty_id_like_cpp d g =
     (if raid_difficulty_id g = d then (False, g) else (True, g\<lparr>raid_difficulty_id := d\<rparr>))"

definition set_legacy_raid_difficulty_id_like_cpp :: "u32 \<Rightarrow> GroupInfo \<Rightarrow> bool \<times> GroupInfo" where
  "set_legacy_raid_difficulty_id_like_cpp d g =
     (if legacy_raid_difficulty_id g = d then (False, g) else (True, g\<lparr>legacy_raid_difficulty_id := d\<rparr>))"

section \<open>Transitions\<close>

definition set_target_icon_body :: "ObjectGuid \<Rightarrow> u8 \<Rightarrow> ObjectGuid \<Rightarrow> (u8 \<times> ObjectGuid) list group_body" where
  "set_target_icon_body actor symbol target g =
     (if is_raid_group g \<and> \<not> is_leader_like_cpp g actor \<and> \<not> is_assistant_like_cpp g actor
      then (Inl NotLeaderOrAssistant, g)
      else
       (case set_target_icon_like_cpp symbol target g of
          (None, g') \<Rightarrow> (Inl InvalidSubgroup, g')
        | (Some facts, g') \<Rightarrow> (Inr (facts, []), g')))"

definition set_target_icon_transition_like_cpp ::
  "u64 \<Rightarrow> ObjectGuid \<Rightarrow> u8 \<Rightarrow> ObjectGuid \<Rightarrow> (u8 \<times> ObjectGuid) list group_transition" where
  "set_target_icon_transition_like_cpp gid actor symbol target =
     with_group gid (set_target_icon_body actor symbol target)"

definition delete_raid_marker_body :: "ObjectGuid \<Rightarrow> u8 \<Rightarrow> bool group_body" where
  "delete_raid_marker_body actor marker_id g =
     (if is_raid_group g \<and> \<not> is_leader_like_cpp g actor \<and> \<not> is_assistant_like_cpp g actor
      then (Inl NotLeaderOrAssistant, g)
      else if unat marker_id > RAID_MARKERS_COUNT_LIKE_CPP then (Inl InvalidSubgroup, g)
      else (case delete_raid_marker_like_cpp marker_id g of (facts, g') \<Rightarrow> (Inr (facts, []), g')))"

definition delete_raid_marker_transition_like_cpp ::
  "u64 \<Rightarrow> ObjectGuid \<Rightarrow> u8 \<Rightarrow> bool group_transition" where
  "delete_raid_marker_transition_like_cpp gid actor marker_id =
     with_group gid (delete_raid_marker_body actor marker_id)"

definition add_raid_marker_body ::
  "ObjectGuid \<Rightarrow> u8 \<Rightarrow> u32 \<Rightarrow> Position \<Rightarrow> ObjectGuid \<Rightarrow> unit group_body" where
  "add_raid_marker_body actor marker_id mapid pos transport g =
     (if actor \<notin> set (group_members g) then (Inl MissingMember, g)
      else if is_raid_group g \<and> \<not> is_leader_like_cpp g actor \<and> \<not> is_assistant_like_cpp g actor
      then (Inl NotLeaderOrAssistant, g)
      else
       (case add_raid_marker_like_cpp marker_id mapid pos transport g of
          (False, g') \<Rightarrow> (Inl NoChange, g')
        | (True, g') \<Rightarrow> (Inr ((), []), g')))"

definition add_raid_marker_transition_like_cpp ::
  "u64 \<Rightarrow> ObjectGuid \<Rightarrow> u8 \<Rightarrow> u32 \<Rightarrow> Position \<Rightarrow> ObjectGuid \<Rightarrow> unit group_transition" where
  "add_raid_marker_transition_like_cpp gid actor marker_id mapid pos transport =
     with_group gid (add_raid_marker_body actor marker_id mapid pos transport)"

definition set_recent_instance_body :: "u32 \<Rightarrow> ObjectGuid \<Rightarrow> u32 \<Rightarrow> unit group_body" where
  "set_recent_instance_body mapid owner iid g = (Inr ((), []), set_recent_instance_like_cpp mapid owner iid g)"

definition set_recent_instance_transition_like_cpp ::
  "u64 \<Rightarrow> u32 \<Rightarrow> ObjectGuid \<Rightarrow> u32 \<Rightarrow> unit group_transition" where
  "set_recent_instance_transition_like_cpp gid mapid owner iid =
     with_group gid (set_recent_instance_body mapid owner iid)"

definition link_owned_instance_body :: "u32 \<Rightarrow> u32 \<Rightarrow> bool group_body" where
  "link_owned_instance_body mapid iid g =
     (case link_owned_instance_like_cpp mapid iid g of (facts, g') \<Rightarrow> (Inr (facts, []), g'))"

definition link_owned_instance_transition_like_cpp :: "u64 \<Rightarrow> u32 \<Rightarrow> u32 \<Rightarrow> bool group_transition" where
  "link_owned_instance_transition_like_cpp gid mapid iid = with_group gid (link_owned_instance_body mapid iid)"

definition unlink_owned_instance_body :: "u32 \<Rightarrow> u32 \<Rightarrow> bool group_body" where
  "unlink_owned_instance_body mapid iid g =
     (case unlink_owned_instance_like_cpp mapid iid g of (facts, g') \<Rightarrow> (Inr (facts, []), g'))"

definition unlink_owned_instance_transition_like_cpp :: "u64 \<Rightarrow> u32 \<Rightarrow> u32 \<Rightarrow> bool group_transition" where
  "unlink_owned_instance_transition_like_cpp gid mapid iid =
     with_group gid (unlink_owned_instance_body mapid iid)"

definition apply_instance_reset_body ::
  "u32 \<Rightarrow> GroupInstanceResetResultLikeCpp \<Rightarrow> GroupInstanceResetMethodLikeCpp \<Rightarrow> bool group_body" where
  "apply_instance_reset_body mapid result reset_method g =
     (case apply_owned_instance_reset_result_like_cpp mapid result reset_method g of
        (facts, g') \<Rightarrow> (Inr (facts, []), g'))"

definition apply_instance_reset_transition_like_cpp ::
  "u64 \<Rightarrow> u32 \<Rightarrow> GroupInstanceResetResultLikeCpp \<Rightarrow> GroupInstanceResetMethodLikeCpp
     \<Rightarrow> bool group_transition" where
  "apply_instance_reset_transition_like_cpp gid mapid result reset_method =
     with_group gid (apply_instance_reset_body mapid result reset_method)"

definition set_difficulty_body :: "ObjectGuid \<Rightarrow> u32 \<Rightarrow> GroupDifficultyKindLikeCpp \<Rightarrow> u32 group_body" where
  "set_difficulty_body actor difficulty kind g =
     (if \<not> is_leader_like_cpp g actor then (Inl NotLeader, g)
      else if is_lfg_group_like_cpp g then (Inl LfgGroup, g)
      else
       (case (case kind of
                DiffDungeon \<Rightarrow> set_dungeon_difficulty_id_like_cpp difficulty g
              | DiffRaid \<Rightarrow> set_raid_difficulty_id_like_cpp difficulty g
              | DiffLegacyRaid \<Rightarrow> set_legacy_raid_difficulty_id_like_cpp difficulty g) of
          (False, g') \<Rightarrow> (Inl NoChange, g')
        | (True, g') \<Rightarrow>
            (Inr (db_store_id g', [UpdateDifficulty (db_store_id g') kind difficulty]), g')))"

definition set_difficulty_transition_like_cpp ::
  "u64 \<Rightarrow> ObjectGuid \<Rightarrow> u32 \<Rightarrow> GroupDifficultyKindLikeCpp \<Rightarrow> u32 group_transition" where
  "set_difficulty_transition_like_cpp gid actor difficulty kind =
     with_group gid (set_difficulty_body actor difficulty kind)"

definition advance_looter_body :: "ObjectGuid list \<Rightarrow> bool group_body" where
  "advance_looter_body eligible g =
     (case update_looter_guid_like_cpp eligible False g of (facts, g') \<Rightarrow> (Inr (facts, []), g'))"

definition advance_looter_transition_like_cpp :: "u64 \<Rightarrow> ObjectGuid list \<Rightarrow> bool group_transition" where
  "advance_looter_transition_like_cpp gid eligible = with_group gid (advance_looter_body eligible)"

section \<open>The transitions meet the contract\<close>

text \<open>None of them touches the roster, the subgroups or the ready check.\<close>

definition settings_only :: "GroupInfo \<Rightarrow> GroupInfo \<Rightarrow> bool" where
  "settings_only g g' =
     (group_members g' = group_members g \<and> member_slots g' = member_slots g \<and>
      raid_subgroup_counts g' = raid_subgroup_counts g \<and> group_flags g' = group_flags g \<and>
      leader_guid g' = leader_guid g \<and> same_identity g g' \<and>
      ready_check_started g' = ready_check_started g \<and>
      ready_check_timer_ms g' = ready_check_timer_ms g)"

lemma settings_only_refl [simp]: "settings_only g g"
  by (simp add: settings_only_def)

lemma settings_only_bump [simp]: "settings_only g (bump_sequence h) = settings_only g h"
  by (simp add: settings_only_def)

lemma settings_only_quiet: "settings_only g g' \<Longrightarrow> quiet g g'"
  by (rule quiet_same_slots) (simp_all add: settings_only_def is_raid_group_def)

lemma settings_operation:
  "(\<And>g. settings_only g (snd (body g))) \<Longrightarrow> group_operation body"
proof
  assume s: "\<And>g. settings_only g (snd (body g))"
  show "group_ok g \<Longrightarrow> group_ok (snd (body g))" for g
    by (rule ok_quiet [OF settings_only_quiet [OF s]])
  show "same_identity g (snd (body g))" for g
    using s [of g] by (simp add: settings_only_def)
qed

lemma settings_ops [simp]:
  "settings_only g (snd (set_target_icon_like_cpp symbol target g))"
  "settings_only g (snd (add_raid_marker_like_cpp marker_id mapid pos transport g))"
  "settings_only g (snd (delete_raid_marker_like_cpp marker_id g))"
  "settings_only g (set_recent_instance_like_cpp mapid owner iid g)"
  "settings_only g (snd (forget_recent_instance_like_cpp mapid g))"
  "settings_only g (snd (link_owned_instance_like_cpp mapid iid g))"
  "settings_only g (snd (unlink_owned_instance_like_cpp mapid iid g))"
  "settings_only g (snd (set_dungeon_difficulty_id_like_cpp d g))"
  "settings_only g (snd (set_raid_difficulty_id_like_cpp d g))"
  "settings_only g (snd (set_legacy_raid_difficulty_id_like_cpp d g))"
  "settings_only g (snd (update_looter_guid_like_cpp eligible ifneed g))"
  by (auto simp: settings_only_def same_identity_def set_target_icon_like_cpp_def
      add_raid_marker_like_cpp_def delete_raid_marker_like_cpp_def set_recent_instance_like_cpp_def
      forget_recent_instance_like_cpp_def link_owned_instance_like_cpp_def
      unlink_owned_instance_like_cpp_def set_dungeon_difficulty_id_like_cpp_def
      set_raid_difficulty_id_like_cpp_def set_legacy_raid_difficulty_id_like_cpp_def
      update_looter_guid_like_cpp_def Let_def split: prod.splits)

lemma settings_reset [simp]:
  "settings_only g (snd (apply_owned_instance_reset_result_like_cpp mapid result reset_method g))"
  by (simp add: apply_owned_instance_reset_result_like_cpp_def
      split: GroupInstanceResetResultLikeCpp.split)

lemma case_pair_snd: "snd (case p of (x, g') \<Rightarrow> (f x g', g')) = snd p"
  by (simp split: prod.split)

lemma case_bool_snd: "snd (case p of (False, g') \<Rightarrow> (f g', g') | (True, g') \<Rightarrow> (h g', g')) = snd p"
  by (simp split: prod.split bool.split)

lemma case_option_snd: "snd (case p of (None, g') \<Rightarrow> (f g', g') | (Some y, g') \<Rightarrow> (h y g', g')) = snd p"
  by (simp split: prod.split option.split)

lemmas settings_bodies = set_target_icon_body_def delete_raid_marker_body_def add_raid_marker_body_def
  set_recent_instance_body_def link_owned_instance_body_def unlink_owned_instance_body_def
  apply_instance_reset_body_def set_difficulty_body_def advance_looter_body_def
  case_pair_snd case_bool_snd case_option_snd

interpretation target_icon_op: group_operation "set_target_icon_body actor symbol target"
  for actor symbol target
  by (rule settings_operation) (simp add: settings_bodies)

interpretation delete_marker_op: group_operation "delete_raid_marker_body actor marker_id"
  for actor marker_id
  by (rule settings_operation) (simp add: settings_bodies)

interpretation add_marker_op: group_operation "add_raid_marker_body actor marker_id mapid pos transport"
  for actor marker_id mapid pos transport
  by (rule settings_operation) (simp add: settings_bodies)

interpretation recent_instance_op: group_operation "set_recent_instance_body mapid owner iid"
  for mapid owner iid
  by (rule settings_operation) (simp add: settings_bodies)

interpretation link_op: group_operation "link_owned_instance_body mapid iid" for mapid iid
  by (rule settings_operation) (simp add: settings_bodies)

interpretation unlink_op: group_operation "unlink_owned_instance_body mapid iid" for mapid iid
  by (rule settings_operation) (simp add: settings_bodies)

interpretation reset_op: group_operation "apply_instance_reset_body mapid result reset_method"
  for mapid result reset_method
  by (rule settings_operation) (simp add: settings_bodies)

interpretation difficulty_op: group_operation "set_difficulty_body actor difficulty kind"
  for actor difficulty kind
  by (rule settings_operation)
    (simp add: settings_bodies split: GroupDifficultyKindLikeCpp.split)

interpretation looter_op: group_operation "advance_looter_body eligible" for eligible
  by (rule settings_operation) (simp add: settings_bodies)

end
