(* ===== verification/GroupReadyCheck.thy ===== *)
theory GroupReadyCheck
  imports GroupTransitions
begin

text \<open>
  \<open>crates/wow-social/src/group/ready_check.rs\<close>: the ready-check state machine of one group and
  its registry transitions.  The event buffer that the source threads by reference is appended
  to the result; the \<open>i64\<close> timer only ever holds 35000 minus \<open>u32\<close> ticks down to the
  first non-positive value, so it is an \<open>int\<close>.
\<close>

definition READYCHECK_DURATION_MS_LIKE_CPP :: int where "READYCHECK_DURATION_MS_LIKE_CPP = 35000"

datatype ReadyCheckEventLikeCpp =
    Started u8 u64 ObjectGuid int
  | Response u64 ObjectGuid bool
  | Completed u8 u64

definition reset_member_ready_checked_like_cpp :: "GroupInfo \<Rightarrow> GroupInfo" where
  "reset_member_ready_checked_like_cpp g =
     g\<lparr>member_slots := map (\<lambda>slot. slot\<lparr>slot_ready_checked := False\<rparr>) (member_slots g)\<rparr>"

definition is_ready_check_completed_like_cpp :: "GroupInfo \<Rightarrow> bool" where
  "is_ready_check_completed_like_cpp g = list_all slot_ready_checked (member_slots g)"

definition end_ready_check_like_cpp :: "GroupInfo \<Rightarrow> ReadyCheckEventLikeCpp list \<times> GroupInfo" where
  "end_ready_check_like_cpp g =
     (if \<not> ready_check_started g then ([], g)
      else ([Completed 0 (group_guid g)],
            reset_member_ready_checked_like_cpp
              (g\<lparr>ready_check_started := False, ready_check_timer_ms := 0\<rparr>)))"

definition update_ready_check_like_cpp :: "u32 \<Rightarrow> GroupInfo \<Rightarrow> ReadyCheckEventLikeCpp list \<times> GroupInfo" where
  "update_ready_check_like_cpp diff_ms g =
     (if \<not> ready_check_started g then ([], g)
      else
       (let g1 = g\<lparr>ready_check_timer_ms := ready_check_timer_ms g - uint diff_ms\<rparr>
        in if ready_check_timer_ms g1 \<le> 0 then end_ready_check_like_cpp g1 else ([], g1)))"

definition mark_slot_ready :: "nat \<Rightarrow> GroupInfo \<Rightarrow> GroupInfo" where
  "mark_slot_ready slot_index g =
     g\<lparr>member_slots := (member_slots g)[slot_index :=
         (member_slots g ! slot_index)\<lparr>slot_ready_checked := True\<rparr>]\<rparr>"

definition set_member_ready_checked_like_cpp ::
  "nat \<Rightarrow> GroupInfo \<Rightarrow> ReadyCheckEventLikeCpp list \<times> GroupInfo" where
  "set_member_ready_checked_like_cpp slot_index g =
     (let g1 = mark_slot_ready slot_index g
      in if is_ready_check_completed_like_cpp g1 then end_ready_check_like_cpp g1 else ([], g1))"

definition set_member_ready_check_slot_like_cpp ::
  "nat \<Rightarrow> bool \<Rightarrow> GroupInfo \<Rightarrow> ReadyCheckEventLikeCpp list \<times> GroupInfo" where
  "set_member_ready_check_slot_like_cpp slot_index ready g =
     (case set_member_ready_checked_like_cpp slot_index g of (events, g') \<Rightarrow>
        (Response (group_guid g) (slot_guid (member_slots g ! slot_index)) ready # events, g'))"

text \<open>The loop over the offline members; the flag is read again before each of them.\<close>

fun mark_offline :: "nat list \<Rightarrow> GroupInfo \<Rightarrow> ReadyCheckEventLikeCpp list \<times> GroupInfo" where
  "mark_offline [] g = ([], g)"
| "mark_offline (index # rest) g =
     (if ready_check_started g then
        (case set_member_ready_check_slot_like_cpp index False g of (events, g1) \<Rightarrow>
           (case mark_offline rest g1 of (later, g2) \<Rightarrow> (events @ later, g2)))
      else mark_offline rest g)"

definition offline_indices :: "ObjectGuid list \<Rightarrow> GroupInfo \<Rightarrow> nat list" where
  "offline_indices connected g =
     map fst (filter (\<lambda>(index, slot). slot_guid slot \<notin> set connected) (enumerate 0 (member_slots g)))"

definition start_ready_check_like_cpp ::
  "ObjectGuid \<Rightarrow> ObjectGuid list \<Rightarrow> GroupInfo \<Rightarrow> ReadyCheckEventLikeCpp list \<times> GroupInfo" where
  "start_ready_check_like_cpp starter connected g =
     (if ready_check_started g then ([], g)
      else case slot_position starter g of None \<Rightarrow> ([], g)
      | Some starter_index \<Rightarrow>
         (let g1 = g\<lparr>ready_check_started := True,
                     ready_check_timer_ms := READYCHECK_DURATION_MS_LIKE_CPP\<rparr>;
              (events1, g2) = mark_offline (offline_indices connected g1) g1;
              (events2, g3) = (if ready_check_started g2
                               then set_member_ready_checked_like_cpp starter_index g2 else ([], g2))
          in (events1 @ events2 @
                [Started 0 (group_guid g3) starter READYCHECK_DURATION_MS_LIKE_CPP], g3)))"

definition set_member_ready_check_like_cpp ::
  "ObjectGuid \<Rightarrow> bool \<Rightarrow> GroupInfo \<Rightarrow> ReadyCheckEventLikeCpp list \<times> GroupInfo" where
  "set_member_ready_check_like_cpp guid ready g =
     (if \<not> ready_check_started g then ([], g)
      else case slot_position guid g of None \<Rightarrow> ([], g)
      | Some slot_index \<Rightarrow> set_member_ready_check_slot_like_cpp slot_index ready g)"

section \<open>Transitions\<close>

definition start_ready_check_body ::
  "ObjectGuid \<Rightarrow> ObjectGuid list \<Rightarrow> ReadyCheckEventLikeCpp list group_body" where
  "start_ready_check_body actor connected g =
     (if \<not> may_manage g actor then (Inl NotLeaderOrAssistant, g)
      else (case start_ready_check_like_cpp actor connected g of (facts, g') \<Rightarrow>
              (if facts = [] then Inl NoChange else Inr (facts, []), g')))"

definition start_ready_check_transition_like_cpp ::
  "u64 \<Rightarrow> ObjectGuid \<Rightarrow> ObjectGuid list \<Rightarrow> ReadyCheckEventLikeCpp list group_transition" where
  "start_ready_check_transition_like_cpp gid actor connected =
     with_group gid (start_ready_check_body actor connected)"

definition respond_ready_check_body :: "ObjectGuid \<Rightarrow> bool \<Rightarrow> ReadyCheckEventLikeCpp list group_body" where
  "respond_ready_check_body member ready g =
     (if member \<notin> set (group_members g) then (Inl MissingMember, g)
      else (case set_member_ready_check_like_cpp member ready g of (facts, g') \<Rightarrow>
              (if facts = [] then Inl NoChange else Inr (facts, []), g')))"

definition respond_ready_check_transition_like_cpp ::
  "u64 \<Rightarrow> ObjectGuid \<Rightarrow> bool \<Rightarrow> ReadyCheckEventLikeCpp list group_transition" where
  "respond_ready_check_transition_like_cpp gid member ready =
     with_group gid (respond_ready_check_body member ready)"

definition active_ready_check_keys :: "GroupAuthority \<Rightarrow> u64 list" where
  "active_ready_check_keys a = map fst (filter (\<lambda>(k, g). ready_check_started g) (groups a))"

fun tick_groups :: "u32 \<Rightarrow> u64 list \<Rightarrow> GroupAuthority
    \<Rightarrow> (u64 \<times> ReadyCheckEventLikeCpp list) list \<times> GroupAuthority" where
  "tick_groups diff_ms [] a = ([], a)"
| "tick_groups diff_ms (gid # rest) a =
     (case hm_get (groups a) gid of
        None \<Rightarrow> tick_groups diff_ms rest a
      | Some g \<Rightarrow>
         (case update_ready_check_like_cpp diff_ms g of (events, g') \<Rightarrow>
            (case tick_groups diff_ms rest (a\<lparr>groups := hm_insert gid g' (groups a)\<rparr>) of
               (results, a') \<Rightarrow>
                 ((if events \<noteq> [] then [(gid, events)] else []) @ results, a'))))"

definition tick_ready_checks_like_cpp ::
  "u32 \<Rightarrow> GroupAuthority \<Rightarrow> (u64 \<times> ReadyCheckEventLikeCpp list) list \<times> GroupAuthority" where
  "tick_ready_checks_like_cpp diff_ms a = tick_groups diff_ms (active_ready_check_keys a) a"

definition tick_all_group_ready_checks_like_cpp ::
  "u32 \<Rightarrow> GroupAuthority \<Rightarrow> (u64 \<times> ReadyCheckEventLikeCpp list) list \<times> GroupAuthority" where
  "tick_all_group_ready_checks_like_cpp diff_ms a = tick_ready_checks_like_cpp diff_ms a"

section \<open>The roster is never touched\<close>

lemma roster_slots:
  assumes "group_members g' = group_members g" "is_raid_group g' = is_raid_group g"
    "raid_subgroup_counts g' = raid_subgroup_counts g" "member_slots g' = map f (member_slots g)"
    "\<And>s. slot_guid (f s) = slot_guid s" "\<And>s. slot_subgroup (f s) = slot_subgroup s"
  shows "same_roster g g'"
  using assms by (auto simp: same_roster_def subgroup_size_map)

lemma reset_roster: "same_roster g (reset_member_ready_checked_like_cpp
    (g\<lparr>ready_check_started := b, ready_check_timer_ms := t\<rparr>))"
  by (rule roster_slots [where f = "\<lambda>slot. slot\<lparr>slot_ready_checked := False\<rparr>"])
    (simp_all add: reset_member_ready_checked_like_cpp_def is_raid_group_def)

lemma end_roster: "same_roster g (snd (end_ready_check_like_cpp g))"
  by (simp add: end_ready_check_like_cpp_def reset_roster)

lemma mark_roster:
  assumes "i < length (member_slots g)"
  shows "same_roster g (mark_slot_ready i g)"
proof -
  let ?s = "(member_slots g ! i)\<lparr>slot_ready_checked := True\<rparr>"
  have "map slot_guid ((member_slots g)[i := ?s]) = map slot_guid (member_slots g)"
    using assms by (simp add: map_list_update_same del: map_update)
  moreover have "subgroup_size k ((member_slots g)[i := ?s]) = subgroup_size k (member_slots g)" for k
    using subgroup_size_list_update [OF assms, of k ?s] by (simp split: if_splits)
  ultimately show ?thesis
    by (simp add: same_roster_def mark_slot_ready_def is_raid_group_def del: map_update)
qed

lemma set_checked_roster:
  "i < length (member_slots g) \<Longrightarrow> same_roster g (snd (set_member_ready_checked_like_cpp i g))"
  using mark_roster [of i g] end_roster [of "mark_slot_ready i g"]
  by (auto simp: set_member_ready_checked_like_cpp_def Let_def intro: same_roster_trans)

lemma set_slot_roster:
  "i < length (member_slots g) \<Longrightarrow> same_roster g (snd (set_member_ready_check_slot_like_cpp i b g))"
  using set_checked_roster [of i g]
  by (auto simp: set_member_ready_check_slot_like_cpp_def split: prod.split)

lemma same_roster_length: "same_roster g h \<Longrightarrow> length (member_slots h) = length (member_slots g)"
  by (metis length_map same_roster_def)

lemma mark_offline_roster:
  "\<forall>i\<in>set is. i < length (member_slots g) \<Longrightarrow> same_roster g (snd (mark_offline is g))"
proof (induction "is" arbitrary: g)
  case (Cons i "is")
  obtain ev g1 where g1: "set_member_ready_check_slot_like_cpp i False g = (ev, g1)" by fastforce
  have r: "same_roster g g1" using set_slot_roster [of i g False] Cons.prems g1 by simp
  have "same_roster g1 (snd (mark_offline is g1))"
    using Cons.prems same_roster_length [OF r] by (intro Cons.IH) simp
  with r Cons g1 show ?case by (auto split: prod.split dest: same_roster_trans)
qed simp

lemma offline_indices_bound: "\<forall>i\<in>set (offline_indices connected g). i < length (member_slots g)"
  by (auto simp: offline_indices_def in_set_enumerate_eq)

section \<open>The ready-check state\<close>

lemma end_ready:
  "ready_check_started g \<Longrightarrow>
     fst (end_ready_check_like_cpp g) = [Completed 0 (group_guid g)] \<and>
     ready_ok (snd (end_ready_check_like_cpp g)) \<and>
     \<not> ready_check_started (snd (end_ready_check_like_cpp g))"
  by (auto simp: end_ready_check_like_cpp_def ready_ok_def reset_member_ready_checked_like_cpp_def)

lemma mark_ready:
  "ready_check_started g \<Longrightarrow> ready_ok g \<Longrightarrow>
     ready_ok (mark_slot_ready i g) \<and> ready_check_started (mark_slot_ready i g) \<and>
     group_guid (mark_slot_ready i g) = group_guid g"
  by (simp add: ready_ok_def mark_slot_ready_def)

lemma set_checked_ready:
  "ready_check_started g \<Longrightarrow> ready_ok g \<Longrightarrow> ready_ok (snd (set_member_ready_checked_like_cpp i g))"
  using mark_ready [of g i] end_ready [of "mark_slot_ready i g"]
  by (auto simp: set_member_ready_checked_like_cpp_def Let_def)

lemma set_slot_ready:
  "ready_check_started g \<Longrightarrow> ready_ok g \<Longrightarrow> ready_ok (snd (set_member_ready_check_slot_like_cpp i b g))"
  using set_checked_ready [of g i]
  by (auto simp: set_member_ready_check_slot_like_cpp_def split: prod.split)

lemma mark_offline_ready: "ready_ok g \<Longrightarrow> ready_ok (snd (mark_offline is g))"
proof (induction "is" arbitrary: g)
  case (Cons i "is")
  show ?case
  proof (cases "ready_check_started g")
    case True
    obtain ev g1 where g1: "set_member_ready_check_slot_like_cpp i False g = (ev, g1)" by fastforce
    have "ready_ok g1" using set_slot_ready [OF True Cons.prems, of i False] g1 by simp
    with Cons.IH [of g1] True g1 show ?thesis by (auto split: prod.split)
  next
    case False
    with Cons show ?thesis by simp
  qed
qed simp

lemma start_ok:
  assumes ok: "group_ok g"
  shows "group_ok (snd (start_ready_check_like_cpp starter connected g))"
proof (cases "ready_check_started g \<or> slot_position starter g = None")
  case True
  with ok show ?thesis by (auto simp: start_ready_check_like_cpp_def split: option.split)
next
  case False
  then obtain i where i: "slot_position starter g = Some i" and ns: "\<not> ready_check_started g" by auto
  define g1 where "g1 = g\<lparr>ready_check_started := True,
                           ready_check_timer_ms := READYCHECK_DURATION_MS_LIKE_CPP\<rparr>"
  obtain e2 g2 where g2: "mark_offline (offline_indices connected g1) g1 = (e2, g2)" by fastforce
  define p3 where "p3 = (if ready_check_started g2 then set_member_ready_checked_like_cpp i g2 else ([], g2))"
  have i1: "i < length (member_slots g1)" using slot_position_Some [OF i] by (simp add: g1_def)
  have r1: "same_roster g g1" by (simp add: same_roster_def g1_def is_raid_group_def)
  have o1: "ready_ok g1" by (simp add: ready_ok_def g1_def READYCHECK_DURATION_MS_LIKE_CPP_def)
  have r2: "same_roster g1 g2"
    using mark_offline_roster [OF offline_indices_bound, of g1 connected] g2 by simp
  have o2: "ready_ok g2" using mark_offline_ready [OF o1, of "offline_indices connected g1"] g2 by simp
  have "i < length (member_slots g2)" using i1 same_roster_length [OF r2] by simp
  then have r3: "same_roster g2 (snd p3)" by (simp add: p3_def set_checked_roster)
  have o3: "ready_ok (snd p3)" using o2 set_checked_ready [of g2 i] by (simp add: p3_def)
  have "snd (start_ready_check_like_cpp starter connected g) = snd p3"
    using i ns g2 by (simp add: start_ready_check_like_cpp_def Let_def p3_def g1_def case_prod_beta)
  moreover have "same_roster g (snd p3)"
    by (rule same_roster_trans [OF same_roster_trans [OF r1 r2] r3])
  ultimately show ?thesis
    using ok o3 wf_frame cap_frame by (simp add: group_ok_def)
qed

lemma respond_ok:
  assumes ok: "group_ok g"
  shows "group_ok (snd (set_member_ready_check_like_cpp guid b g))"
proof (cases "\<not> ready_check_started g \<or> slot_position guid g = None")
  case True
  with ok show ?thesis by (auto simp: set_member_ready_check_like_cpp_def split: option.split)
next
  case False
  then obtain i where i: "slot_position guid g = Some i" and s: "ready_check_started g" by auto
  have eq: "set_member_ready_check_like_cpp guid b g = set_member_ready_check_slot_like_cpp i b g"
    using i s by (simp add: set_member_ready_check_like_cpp_def)
  have "same_roster g (snd (set_member_ready_check_slot_like_cpp i b g))"
    using slot_position_Some [OF i] by (simp add: set_slot_roster)
  moreover have "ready_ok (snd (set_member_ready_check_slot_like_cpp i b g))"
    using ok s by (simp add: set_slot_ready group_ok_def)
  ultimately show ?thesis
    unfolding eq using ok wf_frame cap_frame by (simp add: group_ok_def)
qed

lemma update_ok:
  assumes ok: "group_ok g"
  shows "group_ok (snd (update_ready_check_like_cpp d g))"
proof -
  let ?g1 = "g\<lparr>ready_check_timer_ms := ready_check_timer_ms g - uint d\<rparr>"
  have r1: "same_roster g ?g1" by (simp add: same_roster_def is_raid_group_def)
  have rd: "ready_ok g" using ok by (simp add: group_ok_def)
  have "same_roster g (snd (update_ready_check_like_cpp d g))"
    using same_roster_trans [OF r1 end_roster] r1
    by (auto simp: update_ready_check_like_cpp_def Let_def)
  moreover have "ready_ok (snd (update_ready_check_like_cpp d g))"
  proof (cases "ready_check_started g \<and> ready_check_timer_ms g - uint d \<le> 0")
    case True
    then show ?thesis using end_ready [of ?g1] by (simp add: update_ready_check_like_cpp_def)
  next
    case False
    then show ?thesis using rd
      by (auto simp: update_ready_check_like_cpp_def ready_ok_def Let_def intro: order_trans [of _ "ready_check_timer_ms g"])
  qed
  ultimately show ?thesis
    using ok wf_frame cap_frame by (simp add: group_ok_def)
qed

section \<open>The transitions meet the contract\<close>

lemma end_identity [simp]: "same_identity g (snd (end_ready_check_like_cpp h)) = same_identity g h"
  by (simp add: end_ready_check_like_cpp_def same_identity_def reset_member_ready_checked_like_cpp_def)

lemma set_slot_identity [simp]:
  "same_identity g (snd (set_member_ready_checked_like_cpp i h)) = same_identity g h"
  "same_identity g (snd (set_member_ready_check_slot_like_cpp i b h)) = same_identity g h"
proof -
  show c: "same_identity g (snd (set_member_ready_checked_like_cpp i h)) = same_identity g h"
    by (simp add: set_member_ready_checked_like_cpp_def Let_def)
      (simp add: mark_slot_ready_def same_identity_def)
  show "same_identity g (snd (set_member_ready_check_slot_like_cpp i b h)) = same_identity g h"
    using c by (simp add: set_member_ready_check_slot_like_cpp_def case_prod_beta)
qed

lemma mark_offline_identity [simp]:
  "same_identity g (snd (mark_offline is h)) = same_identity g h"
proof (induction "is" arbitrary: h)
  case (Cons i "is")
  then show ?case by (simp add: case_prod_beta)
qed simp

lemma ready_identity [simp]:
  "same_identity g (snd (start_ready_check_like_cpp starter connected g))"
  "same_identity g (snd (set_member_ready_check_like_cpp guid b g))"
  "same_identity g (snd (update_ready_check_like_cpp d g))"
proof -
  have u: "same_identity g (g\<lparr>ready_check_started := b, ready_check_timer_ms := t\<rparr>)"
    "same_identity g (g\<lparr>ready_check_timer_ms := t\<rparr>)" for b t
    by (simp_all add: same_identity_def)
  then show "same_identity g (snd (start_ready_check_like_cpp starter connected g))"
    by (simp add: start_ready_check_like_cpp_def Let_def case_prod_beta split: option.split)
  show "same_identity g (snd (set_member_ready_check_like_cpp guid b g))"
    by (simp add: set_member_ready_check_like_cpp_def split: option.split)
  show "same_identity g (snd (update_ready_check_like_cpp d g))"
    using u by (simp add: update_ready_check_like_cpp_def Let_def)
qed

interpretation start_ready_op: group_operation "start_ready_check_body actor connected"
  for actor connected
  by unfold_locales (simp_all add: start_ready_check_body_def case_prod_beta start_ok)

interpretation respond_ready_op: group_operation "respond_ready_check_body member ready"
  for member ready
  by unfold_locales (simp_all add: respond_ready_check_body_def case_prod_beta respond_ok)

text \<open>The tick runs \<open>update_ready_check_like_cpp\<close> under the lock of each active group.\<close>

definition tick_body :: "u32 \<Rightarrow> ReadyCheckEventLikeCpp list group_body" where
  "tick_body d g = (case update_ready_check_like_cpp d g of (events, g') \<Rightarrow> (Inr (events, []), g'))"

interpretation tick_op: group_operation "tick_body d" for d
  by unfold_locales (simp_all add: tick_body_def case_prod_beta update_ok)

lemma tick_groups_step:
  "hm_get (groups a) gid = Some g \<Longrightarrow>
     a\<lparr>groups := hm_insert gid (snd (update_ready_check_like_cpp d g)) (groups a)\<rparr> =
     snd (with_group gid (tick_body d) a)"
  by (simp add: with_group_state tick_body_def case_prod_beta)

lemma tick_groups_ok: "registry_ok a \<Longrightarrow> registry_ok (snd (tick_groups d keys a))"
proof (induction keys arbitrary: a)
  case (Cons gid keys)
  show ?case
  proof (cases "hm_get (groups a) gid")
    case None
    with Cons show ?thesis by simp
  next
    case (Some g)
    have "registry_ok (snd (with_group gid (tick_body d) a))"
      by (rule tick_op.transition_ok [OF Cons.prems])
    from Cons.IH [OF this] Some show ?thesis
      by (simp add: case_prod_beta tick_groups_step [OF Some])
  qed
qed simp

end
