(* ===== verification/GroupInvites.thy ===== *)
theory GroupInvites
  imports GroupSettings GroupReadyCheck
begin

text \<open>
  \<open>crates/wow-social/src/group/invites.rs\<close>: the directory of pending invites and the
  transitions that create, cancel, replace, decline and accept them.  Every transition holds
  the directory's \<open>transition_lock\<close> from beginning to end, so each is one step; declining
  reads under one lock and cancels under another, as the two steps it is composed of.
\<close>

record PendingInviteLikeCpp =
  invite_leader_guid :: ObjectGuid
  invite_group_guid :: "u64 option"
  invite_group_category :: u8

type_synonym PendingInvites = "(ObjectGuid, PendingInviteLikeCpp) hash_map"

definition new_pending_group :: "ObjectGuid \<Rightarrow> u8 \<Rightarrow> PendingInviteLikeCpp" where
  "new_pending_group leader category =
     \<lparr>invite_leader_guid = leader, invite_group_guid = None, invite_group_category = category\<rparr>"

definition new_existing_group :: "ObjectGuid \<Rightarrow> u64 \<Rightarrow> u8 \<Rightarrow> PendingInviteLikeCpp" where
  "new_existing_group leader gid category =
     \<lparr>invite_leader_guid = leader, invite_group_guid = Some gid, invite_group_category = category\<rparr>"

definition invite_get :: "PendingInvites \<Rightarrow> ObjectGuid \<Rightarrow> PendingInviteLikeCpp option" where
  "invite_get pending invited = hm_get pending invited"

definition invite_contains_key :: "PendingInvites \<Rightarrow> ObjectGuid \<Rightarrow> bool" where
  "invite_contains_key pending invited = hm_contains_key pending invited"

definition matching_guids :: "PendingInvites \<Rightarrow> PendingInviteLikeCpp \<Rightarrow> ObjectGuid list" where
  "matching_guids pending invite = map fst (filter (\<lambda>(k, v). v = invite) pending)"

definition seed_invite_like_cpp ::
  "ObjectGuid \<Rightarrow> PendingInviteLikeCpp \<Rightarrow> PendingInvites \<Rightarrow> PendingInviteLikeCpp option \<times> PendingInvites" where
  "seed_invite_like_cpp invited invite pending = (hm_get pending invited, hm_insert invited invite pending)"

datatype CreateGroupInviteResultLikeCpp =
    InviteCreated PendingInviteLikeCpp | TargetAlreadyInvited | TargetAlreadyGrouped |
    InviterNotLeaderOrAssistant | InviteGroupFull | MissingInviterGroup | InviteWrongCategory

datatype AcceptGroupInviteResultLikeCpp =
    NoInvite | WrongCategory | SelfInvite | GroupFull | AddFailed | AlreadyMember |
    AcceptMissingGroup | MissingLeader
  | JoinedExisting GroupInfo u8 "GroupPersistenceIntentLikeCpp list"
  | GroupCreated GroupInfo u8 "GroupPersistenceIntentLikeCpp list"

section \<open>Creating\<close>

definition groups_member_in :: "u8 \<Rightarrow> ObjectGuid \<Rightarrow> GroupInfo \<Rightarrow> bool" where
  "groups_member_in category guid g =
     (group_category_like_cpp g = category \<and> guid \<in> set (group_members g))"

definition resolve_inviter_group :: "GroupAuthority \<Rightarrow> ObjectGuid \<Rightarrow> u64 option \<Rightarrow> u8 \<Rightarrow> u64 option" where
  "resolve_inviter_group a inviter inviter_group category =
     (case (case inviter_group of None \<Rightarrow> None
            | Some gid \<Rightarrow> (case hm_get (groups a) gid of None \<Rightarrow> None
                          | Some g \<Rightarrow> if groups_member_in category inviter g then Some gid else None)) of
        Some gid \<Rightarrow> Some gid
      | None \<Rightarrow> map_option fst (find (\<lambda>(k, g). groups_member_in category inviter g) (groups a)))"

definition create_invite_like_cpp ::
  "GroupAuthority \<Rightarrow> ObjectGuid \<Rightarrow> ObjectGuid \<Rightarrow> u64 option \<Rightarrow> u8 \<Rightarrow> u8 \<Rightarrow> PendingInvites
     \<Rightarrow> CreateGroupInviteResultLikeCpp \<times> PendingInvites" where
  "create_invite_like_cpp a inviter invitee inviter_group lookup_category new_category pending =
     (if hm_contains_key pending invitee then (TargetAlreadyInvited, pending)
      else if list_ex (groups_member_in lookup_category invitee) (hm_values (groups a))
      then (TargetAlreadyGrouped, pending)
      else
       (let resolved = resolve_inviter_group a inviter inviter_group lookup_category
        in if inviter_group \<noteq> None \<and> resolved = None then (MissingInviterGroup, pending)
           else case resolved of
             Some gid \<Rightarrow>
               (case hm_get (groups a) gid of None \<Rightarrow> (MissingInviterGroup, pending)
                | Some g \<Rightarrow>
                   (if group_category_like_cpp g \<noteq> lookup_category then (InviteWrongCategory, pending)
                    else if \<not> is_leader_like_cpp g inviter \<and> \<not> is_assistant_like_cpp g inviter
                    then (InviterNotLeaderOrAssistant, pending)
                    else if is_full_like_cpp g then (InviteGroupFull, pending)
                    else
                     (let invite = new_existing_group (leader_guid g) gid (group_category_like_cpp g)
                      in (InviteCreated invite, hm_insert invitee invite pending))))
           | None \<Rightarrow>
               (case hm_get pending inviter of
                  Some invite \<Rightarrow> (InviteCreated invite, hm_insert invitee invite pending)
                | None \<Rightarrow>
                   (let invite = new_pending_group inviter new_category
                    in (InviteCreated invite,
                        hm_insert invitee invite (hm_insert inviter invite pending))))))"

section \<open>Cancelling, replacing, declining\<close>

definition remove_guids :: "ObjectGuid list \<Rightarrow> PendingInvites \<Rightarrow> PendingInvites" where
  "remove_guids guids pending = foldl (\<lambda>p guid. hm_remove guid p) pending guids"

definition cancel_invite_unlocked_like_cpp ::
  "ObjectGuid \<Rightarrow> PendingInviteLikeCpp \<Rightarrow> PendingInvites \<Rightarrow> bool \<times> PendingInvites" where
  "cancel_invite_unlocked_like_cpp invitee expected pending =
     (if hm_get pending invitee \<noteq> Some expected then (False, pending)
      else
       (let pending1 = hm_remove invitee pending
        in if invite_group_guid expected = None \<and> length (matching_guids pending1 expected) \<le> 1
           then (True, remove_guids (matching_guids pending1 expected) pending1)
           else (True, pending1)))"

definition cancel_invite_like_cpp ::
  "ObjectGuid \<Rightarrow> PendingInviteLikeCpp \<Rightarrow> PendingInvites \<Rightarrow> bool \<times> PendingInvites" where
  "cancel_invite_like_cpp invitee expected pending = cancel_invite_unlocked_like_cpp invitee expected pending"

definition replace_invite_like_cpp ::
  "ObjectGuid \<Rightarrow> PendingInviteLikeCpp \<Rightarrow> PendingInviteLikeCpp \<Rightarrow> PendingInvites \<Rightarrow> bool \<times> PendingInvites" where
  "replace_invite_like_cpp invitee expected replacement pending =
     (case cancel_invite_unlocked_like_cpp invitee expected pending of
        (False, pending1) \<Rightarrow> (False, pending1)
      | (True, pending1) \<Rightarrow>
         (let pending2 =
                (if invite_group_guid replacement = None \<and>
                    hm_get pending1 (invite_leader_guid replacement) = None
                 then hm_insert (invite_leader_guid replacement) replacement pending1 else pending1)
          in (True, hm_insert invitee replacement pending2)))"

definition expire_invite_like_cpp ::
  "ObjectGuid \<Rightarrow> PendingInviteLikeCpp \<Rightarrow> PendingInvites \<Rightarrow> bool \<times> PendingInvites" where
  "expire_invite_like_cpp invitee expected pending = cancel_invite_like_cpp invitee expected pending"

definition cancel_pending_group_like_cpp ::
  "PendingInviteLikeCpp \<Rightarrow> PendingInvites \<Rightarrow> nat \<times> PendingInvites" where
  "cancel_pending_group_like_cpp expected pending =
     (let guids = matching_guids pending expected in (length guids, remove_guids guids pending))"

definition decline_invite_like_cpp ::
  "ObjectGuid \<Rightarrow> u8 option \<Rightarrow> PendingInvites \<Rightarrow> PendingInviteLikeCpp option \<times> PendingInvites" where
  "decline_invite_like_cpp invitee party_index pending =
     (case invite_get pending invitee of None \<Rightarrow> (None, pending)
      | Some invite \<Rightarrow>
         (if (case party_index of None \<Rightarrow> False | Some index \<Rightarrow> invite_group_category invite \<noteq> index)
          then (None, pending)
          else (case cancel_invite_like_cpp invitee invite pending of
                  (ok, pending1) \<Rightarrow> (if ok then Some invite else None, pending1))))"

section \<open>Accepting\<close>

definition slot_subgroup_or_default :: "GroupInfo \<Rightarrow> ObjectGuid \<Rightarrow> u8" where
  "slot_subgroup_or_default g guid =
     (case member_slot_like_cpp g guid of None \<Rightarrow> 0 | Some slot \<Rightarrow> slot_subgroup slot)"

definition promote_guids :: "ObjectGuid list \<Rightarrow> PendingInviteLikeCpp \<Rightarrow> PendingInvites \<Rightarrow> PendingInvites" where
  "promote_guids guids invite pending = foldl (\<lambda>p guid. hm_insert guid invite p) pending guids"

definition accept_existing ::
  "ObjectGuid \<Rightarrow> PendingInviteLikeCpp \<Rightarrow> u64 \<Rightarrow> GroupAuthority \<times> PendingInvites
     \<Rightarrow> AcceptGroupInviteResultLikeCpp \<times> GroupAuthority \<times> PendingInvites" where
  "accept_existing invitee invite gid s =
     (case s of (a, pending) \<Rightarrow>
       (case hm_get (groups a) gid of None \<Rightarrow> (AcceptMissingGroup, a, pending)
        | Some g \<Rightarrow>
           (if group_category_like_cpp g \<noteq> invite_group_category invite then (WrongCategory, a, pending)
            else
             (let pending1 = hm_remove invitee pending
              in if is_full_like_cpp g then (GroupFull, a, pending1)
                 else if invitee \<in> set (group_members g) then (AlreadyMember, a, pending1)
                 else
                  (case add_member invitee g of
                     (False, g') \<Rightarrow> (AddFailed, a\<lparr>groups := hm_insert gid g' (groups a)\<rparr>, pending1)
                   | (True, g') \<Rightarrow>
                      (let subgroup = slot_subgroup_or_default g' invitee
                       in (JoinedExisting g' subgroup [InsertMember (db_store_id g') invitee 0 subgroup 0],
                           a\<lparr>groups := hm_insert gid g' (groups a)\<rparr>, pending1)))))))"

definition created_persistence :: "GroupInfo \<Rightarrow> ObjectGuid \<Rightarrow> u8 \<Rightarrow> GroupPersistenceIntentLikeCpp list" where
  "created_persistence g invitee subgroup =
     [InsertGroup (db_store_id g) (leader_guid g) (group_loot_method g) (looter_guid g) (loot_threshold g)
        (group_flags g) (dungeon_difficulty_id g) (raid_difficulty_id g) (legacy_raid_difficulty_id g)
        (master_looter_guid g),
      InsertMember (db_store_id g) (leader_guid g) 0 0 0,
      InsertMember (db_store_id g) invitee 0 subgroup 0]"

definition accept_pending ::
  "ObjectGuid \<Rightarrow> PendingInviteLikeCpp \<Rightarrow> ObjectGuid option \<Rightarrow> GroupAuthority \<times> PendingInvites
     \<Rightarrow> AcceptGroupInviteResultLikeCpp \<times> GroupAuthority \<times> PendingInvites" where
  "accept_pending invitee invite available_leader s =
     (case s of (a, pending) \<Rightarrow>
       (let pending1 = hm_remove invitee pending
        in if available_leader \<noteq> Some (invite_leader_guid invite)
           then (MissingLeader, a, remove_guids (matching_guids pending1 invite) pending1)
           else
            (let (g0, ids) = GroupInfo_new (invite_leader_guid invite) (group_ids a);
                 a1 = a\<lparr>group_ids := ids\<rparr>
             in case add_member invitee g0 of
                  (False, _) \<Rightarrow> (AddFailed, a1, pending1)
                | (True, g) \<Rightarrow>
                   (let gid = group_guid g;
                        sid = db_store_id g;
                        subgroup = slot_subgroup_or_default g invitee;
                        a2 = a1\<lparr>groups := hm_insert gid g (groups a1),
                                group_ids := register_group_db_store_id_like_cpp sid gid (group_ids a1)\<rparr>;
                        pending2 = hm_remove (invite_leader_guid invite) pending1;
                        promoted = new_existing_group (invite_leader_guid invite) gid
                                     (invite_group_category invite)
                    in (GroupCreated g subgroup (created_persistence g invitee subgroup), a2,
                        promote_guids (matching_guids pending2 invite) promoted pending2)))))"

definition accept_invite_like_cpp ::
  "ObjectGuid \<Rightarrow> u8 option \<Rightarrow> ObjectGuid option \<Rightarrow> GroupAuthority \<times> PendingInvites
     \<Rightarrow> AcceptGroupInviteResultLikeCpp \<times> GroupAuthority \<times> PendingInvites" where
  "accept_invite_like_cpp invitee party_index available_leader s =
     (case s of (a, pending) \<Rightarrow>
       (case hm_get pending invitee of None \<Rightarrow> (NoInvite, a, pending)
        | Some invite \<Rightarrow>
           (if (case party_index of None \<Rightarrow> False | Some index \<Rightarrow> invite_group_category invite \<noteq> index)
            then (WrongCategory, a, pending)
            else if invite_leader_guid invite = invitee then (SelfInvite, a, hm_remove invitee pending)
            else (case invite_group_guid invite of
                    Some gid \<Rightarrow> accept_existing invitee invite gid (a, pending)
                  | None \<Rightarrow> accept_pending invitee invite available_leader (a, pending)))))"

end
