(* ===== verification/GroupSystem.thy ===== *)
theory GroupSystem
  imports GroupInvites "HOL-Library.Multiset"
begin

text \<open>
  Registry, identifier allocators and invite directory together: the operations the server
  performs on them as one datatype, runs of such operations, and the invariants of every
  run.  \<open>ids_ok\<close> is the bookkeeping of database storage identifiers.
\<close>

section \<open>Operations and runs\<close>

type_synonym group_state = "GroupAuthority \<times> PendingInvites"

datatype GroupOp =
    OpRemoveMember u64 ObjectGuid GroupMemberRemovalKindLikeCpp "ObjectGuid list"
  | OpConvert u64 ObjectGuid bool
  | OpChangeSubgroup u64 ObjectGuid ObjectGuid u8
  | OpSwapSubgroups u64 ObjectGuid ObjectGuid ObjectGuid
  | OpChangeLeader u64 ObjectGuid ObjectGuid
  | OpSetMemberFlag u64 ObjectGuid ObjectGuid bool u8
  | OpSetEveryoneAssistant u64 ObjectGuid bool
  | OpSetPartyAssignment u64 ObjectGuid ObjectGuid u8 bool
  | OpSetLfgRole u64 ObjectGuid u8
  | OpSetTargetIcon u64 ObjectGuid u8 ObjectGuid
  | OpDeleteRaidMarker u64 ObjectGuid u8
  | OpAddRaidMarker u64 ObjectGuid u8 u32 Position ObjectGuid
  | OpSetRecentInstance u64 u32 ObjectGuid u32
  | OpLinkInstance u64 u32 u32
  | OpUnlinkInstance u64 u32 u32
  | OpApplyInstanceReset u64 u32 GroupInstanceResetResultLikeCpp GroupInstanceResetMethodLikeCpp
  | OpSetDifficulty u64 ObjectGuid u32 GroupDifficultyKindLikeCpp
  | OpAdvanceLooter u64 "ObjectGuid list"
  | OpStartReadyCheck u64 ObjectGuid "ObjectGuid list"
  | OpRespondReadyCheck u64 ObjectGuid bool
  | OpTickReadyChecks u32
  | OpUnregister u64
  | OpCreateInvite ObjectGuid ObjectGuid "u64 option" u8 u8
  | OpCancelInvite ObjectGuid PendingInviteLikeCpp
  | OpReplaceInvite ObjectGuid PendingInviteLikeCpp PendingInviteLikeCpp
  | OpExpireInvite ObjectGuid PendingInviteLikeCpp
  | OpCancelPendingGroup PendingInviteLikeCpp
  | OpDeclineInvite ObjectGuid "u8 option"
  | OpAcceptInvite ObjectGuid "u8 option" "ObjectGuid option"

fun run_group_op :: "GroupOp \<Rightarrow> group_state \<Rightarrow> group_state" where
  "run_group_op (OpRemoveMember gid member kind connected) (a, p) =
     (snd (remove_member_like_cpp gid member kind connected a), p)"
| "run_group_op (OpConvert gid actor raid) (a, p) = (snd (convert_group_like_cpp gid actor raid a), p)"
| "run_group_op (OpChangeSubgroup gid actor member k) (a, p) =
     (snd (change_member_subgroup_like_cpp gid actor member k a), p)"
| "run_group_op (OpSwapSubgroups gid actor first second) (a, p) =
     (snd (swap_member_subgroups_like_cpp gid actor first second a), p)"
| "run_group_op (OpChangeLeader gid actor leader) (a, p) =
     (snd (change_leader_transition_like_cpp gid actor leader a), p)"
| "run_group_op (OpSetMemberFlag gid actor member b flag) (a, p) =
     (snd (set_member_flag_transition_like_cpp gid actor member b flag a), p)"
| "run_group_op (OpSetEveryoneAssistant gid actor b) (a, p) =
     (snd (set_everyone_assistant_transition_like_cpp gid actor b a), p)"
| "run_group_op (OpSetPartyAssignment gid actor member assignment b) (a, p) =
     (snd (set_party_assignment_transition_like_cpp gid actor member assignment b a), p)"
| "run_group_op (OpSetLfgRole gid member role) (a, p) =
     (snd (set_lfg_role_transition_like_cpp gid member role a), p)"
| "run_group_op (OpSetTargetIcon gid actor symbol target) (a, p) =
     (snd (set_target_icon_transition_like_cpp gid actor symbol target a), p)"
| "run_group_op (OpDeleteRaidMarker gid actor marker) (a, p) =
     (snd (delete_raid_marker_transition_like_cpp gid actor marker a), p)"
| "run_group_op (OpAddRaidMarker gid actor marker mapid pos transport) (a, p) =
     (snd (add_raid_marker_transition_like_cpp gid actor marker mapid pos transport a), p)"
| "run_group_op (OpSetRecentInstance gid mapid owner iid) (a, p) =
     (snd (set_recent_instance_transition_like_cpp gid mapid owner iid a), p)"
| "run_group_op (OpLinkInstance gid mapid iid) (a, p) =
     (snd (link_owned_instance_transition_like_cpp gid mapid iid a), p)"
| "run_group_op (OpUnlinkInstance gid mapid iid) (a, p) =
     (snd (unlink_owned_instance_transition_like_cpp gid mapid iid a), p)"
| "run_group_op (OpApplyInstanceReset gid mapid result how) (a, p) =
     (snd (apply_instance_reset_transition_like_cpp gid mapid result how a), p)"
| "run_group_op (OpSetDifficulty gid actor d kind) (a, p) =
     (snd (set_difficulty_transition_like_cpp gid actor d kind a), p)"
| "run_group_op (OpAdvanceLooter gid eligible) (a, p) =
     (snd (advance_looter_transition_like_cpp gid eligible a), p)"
| "run_group_op (OpStartReadyCheck gid actor connected) (a, p) =
     (snd (start_ready_check_transition_like_cpp gid actor connected a), p)"
| "run_group_op (OpRespondReadyCheck gid member b) (a, p) =
     (snd (respond_ready_check_transition_like_cpp gid member b a), p)"
| "run_group_op (OpTickReadyChecks d) (a, p) = (snd (tick_ready_checks_like_cpp d a), p)"
| "run_group_op (OpUnregister gid) (a, p) = (snd (unregister_group_like_cpp gid a), p)"
| "run_group_op (OpCreateInvite inviter invitee gid c1 c2) (a, p) =
     (a, snd (create_invite_like_cpp a inviter invitee gid c1 c2 p))"
| "run_group_op (OpCancelInvite invitee expected) (a, p) = (a, snd (cancel_invite_like_cpp invitee expected p))"
| "run_group_op (OpReplaceInvite invitee expected replacement) (a, p) =
     (a, snd (replace_invite_like_cpp invitee expected replacement p))"
| "run_group_op (OpExpireInvite invitee expected) (a, p) = (a, snd (expire_invite_like_cpp invitee expected p))"
| "run_group_op (OpCancelPendingGroup expected) (a, p) = (a, snd (cancel_pending_group_like_cpp expected p))"
| "run_group_op (OpDeclineInvite invitee index) (a, p) = (a, snd (decline_invite_like_cpp invitee index p))"
| "run_group_op (OpAcceptInvite invitee index leader) (a, p) =
     snd (accept_invite_like_cpp invitee index leader (a, p))"

definition run_group_ops :: "GroupOp list \<Rightarrow> group_state \<Rightarrow> group_state" where
  "run_group_ops ops s = fold run_group_op ops s"

definition group_start :: group_state where
  "group_start = (registry_new, [])"

section \<open>Storage identifiers\<close>

definition store_lookup :: "GroupIds \<Rightarrow> u32 \<Rightarrow> u64 option" where
  "store_lookup ids sid = group_guid_by_db_store_id_like_cpp ids sid"

definition store_id :: "GroupAuthority \<Rightarrow> u64 \<Rightarrow> u32 option" where
  "store_id a gid = map_option db_store_id (hm_get (groups a) gid)"

definition ids_ok :: "GroupAuthority \<Rightarrow> bool" where
  "ids_ok a =
     ((\<forall>gid sid. store_id a gid = Some sid \<longrightarrow>
         unat gid < unat (next_group_id (group_ids a)) \<and>
         sid \<noteq> 0 \<and> unat sid < unat (next_group_db_store_id (group_ids a)) \<and>
         sid \<notin> set (freed_group_db_store_ids (group_ids a))) \<and>
      (\<forall>sid gid. sid \<noteq> 0 \<longrightarrow> store_lookup (group_ids a) sid = Some gid \<longleftrightarrow> store_id a gid = Some sid) \<and>
      distinct (freed_group_db_store_ids (group_ids a)) \<and>
      (\<forall>sid\<in>set (freed_group_db_store_ids (group_ids a)).
         sid \<noteq> 0 \<and> unat sid < unat (next_group_db_store_id (group_ids a))) \<and>
      0 < unat (next_group_db_store_id (group_ids a)))"

text \<open>The cursors a run may reach after \<open>n\<close> operations, far from wrapping.\<close>

definition ids_below :: "nat \<Rightarrow> GroupAuthority \<Rightarrow> bool" where
  "ids_below n a =
     (unat (next_group_id (group_ids a)) \<le> n \<and> unat (next_group_db_store_id (group_ids a)) \<le> n)"

lemma swap_remove_mset:
  assumes "i < length xs"
  shows "mset xs = mset (xs ! i # swap_remove i xs)"
proof -
  from assms obtain ys l where xs: "xs = ys @ [l]" by (cases xs rule: rev_cases) auto
  show ?thesis
  proof (cases "i = length ys")
    case True
    then show ?thesis by (simp add: xs swap_remove_def list_update_append)
  next
    case False
    with assms xs have i: "i < length ys" by simp
    then have "mset ys = add_mset (ys ! i) (mset ys - {#ys ! i#})" by simp
    with i show ?thesis
      by (simp add: xs swap_remove_def list_update_append nth_append butlast_append mset_update)
  qed
qed

lemma swap_remove_distinct:
  assumes "i < length xs" "distinct xs"
  shows "distinct (swap_remove i xs)" and "set (swap_remove i xs) = set xs - {xs ! i}"
proof -
  have "distinct (xs ! i # swap_remove i xs)"
    using mset_eq_imp_distinct_iff [OF swap_remove_mset [OF assms(1)]] assms(2) by blast
  moreover have "set xs = set (xs ! i # swap_remove i xs)"
    by (rule mset_eq_setD [OF swap_remove_mset [OF assms(1)]])
  ultimately show "distinct (swap_remove i xs)" "set (swap_remove i xs) = set xs - {xs ! i}" by auto
qed

lemma min_position_Some: "min_position xs = Some i \<Longrightarrow> i < length xs \<and> xs ! i = Min (set xs)"
  by (auto simp: min_position_def dest: position_Some split: if_splits)

lemma min_position_None: "min_position xs = None \<longleftrightarrow> xs = []"
  by (auto simp: min_position_def position_None)

lemma store_lookup_register:
  "store_lookup (register_group_db_store_id_like_cpp sid gid ids) k =
     (if k = sid then Some gid else store_lookup ids k)"
  by (auto simp: store_lookup_def group_guid_by_db_store_id_like_cpp_def nth_append word_unat_eq_iff
      register_group_db_store_id_like_cpp_def Let_def nth_list_update)

lemma store_lookup_free:
  "sid \<noteq> 0 \<Longrightarrow> store_lookup (free_group_db_store_id_like_cpp sid ids) k =
     (if k = sid then None else store_lookup ids k)"
  by (auto simp: store_lookup_def group_guid_by_db_store_id_like_cpp_def word_unat_eq_iff
      free_group_db_store_id_like_cpp_def Let_def nth_list_update)

lemma free_ids_sel [simp]:
  "next_group_id (free_group_db_store_id_like_cpp sid ids) = next_group_id ids"
  "next_group_db_store_id (free_group_db_store_id_like_cpp sid ids) = next_group_db_store_id ids"
  "set (freed_group_db_store_ids (free_group_db_store_id_like_cpp sid ids)) =
     (if sid = 0 then set (freed_group_db_store_ids ids)
      else insert sid (set (freed_group_db_store_ids ids)))"
  "distinct (freed_group_db_store_ids (free_group_db_store_id_like_cpp sid ids)) =
     distinct (freed_group_db_store_ids ids)"
  by (auto simp: free_group_db_store_id_like_cpp_def Let_def)

lemma register_ids_sel [simp]:
  "next_group_id (register_group_db_store_id_like_cpp sid gid ids) = next_group_id ids"
  "next_group_db_store_id (register_group_db_store_id_like_cpp sid gid ids) = next_group_db_store_id ids"
  "freed_group_db_store_ids (register_group_db_store_id_like_cpp sid gid ids) = freed_group_db_store_ids ids"
  by (simp_all add: register_group_db_store_id_like_cpp_def Let_def)

section \<open>Registration and removal keep the bookkeeping\<close>

lemma ids_ok_cong:
  "group_ids b = group_ids a \<Longrightarrow> (\<And>k. store_id b k = store_id a k) \<Longrightarrow> ids_ok a \<Longrightarrow> ids_ok b"
  by (simp add: ids_ok_def)

lemma store_id_inj: "ids_ok a \<Longrightarrow> store_id a k = Some sid \<Longrightarrow> store_id a l = Some sid \<Longrightarrow> k = l"
  unfolding ids_ok_def by (metis option.inject)

lemma ids_ok_delete:
  assumes ok: "ids_ok a" and hm: "hm_ok (groups a)" and g: "hm_get (groups a) gid = Some g"
  shows "ids_ok (a\<lparr>groups := hm_remove gid (groups a),
                    group_ids := free_group_db_store_id_like_cpp (db_store_id g) (group_ids a)\<rparr>)"
proof -
  let ?a = "a\<lparr>groups := hm_remove gid (groups a),
              group_ids := free_group_db_store_id_like_cpp (db_store_id g) (group_ids a)\<rparr>"
  have sid: "store_id a gid = Some (db_store_id g)" by (simp add: store_id_def g)
  then have nz: "db_store_id g \<noteq> 0" using ok by (simp add: ids_ok_def)
  have st: "store_id ?a k = (if k = gid then None else store_id a k)" for k
    using hm by (simp add: store_id_def)
  have other: "s \<noteq> db_store_id g" if "store_id a k = Some s" "k \<noteq> gid" for k s
    using store_id_inj [OF ok _ sid] that by blast
  show ?thesis
    unfolding ids_ok_def st
  proof (intro conjI allI impI ballI, goal_cases)
    case (1 k s) then show ?case using ok by (auto simp: ids_ok_def split: if_splits)
  next
    case (2 k s) then show ?case using ok by (auto simp: ids_ok_def split: if_splits)
  next
    case (3 k s) then show ?case using ok by (auto simp: ids_ok_def split: if_splits)
  next
    case (4 k s) then show ?case
      using ok nz other by (auto simp: ids_ok_def split: if_splits)
  next
    case (5 s k) then show ?case
      using ok nz other sid by (auto simp: ids_ok_def store_lookup_free split: if_splits)
  next
    case 6 then show ?case using ok by (simp add: ids_ok_def)
  next
    case (7 s) then show ?case using ok sid by (auto simp: ids_ok_def nz)
  next
    case (8 s) then show ?case using ok sid by (auto simp: ids_ok_def nz)
  next
    case 9 then show ?case using ok by (simp add: ids_ok_def)
  qed
qed

text \<open>What the allocators return is fresh, and what remains satisfies the bookkeeping.\<close>

lemma generate_store_id_fresh:
  assumes ok: "ids_ok a" and room: "unat (next_group_db_store_id (group_ids a)) < 2 ^ 32 - 1"
    and gen: "generate_group_db_store_id_like_cpp ids = (sid, ids')"
    and ids: "freed_group_db_store_ids ids = freed_group_db_store_ids (group_ids a)"
      "next_group_db_store_id ids = next_group_db_store_id (group_ids a)"
  shows "sid \<noteq> 0" and "unat sid < unat (next_group_db_store_id ids')"
    and "sid \<notin> set (freed_group_db_store_ids ids')" and "\<And>k. store_id a k \<noteq> Some sid"
    and "distinct (freed_group_db_store_ids ids')"
    and "set (freed_group_db_store_ids ids') \<subseteq> set (freed_group_db_store_ids (group_ids a))"
    and "unat (next_group_db_store_id (group_ids a)) \<le> unat (next_group_db_store_id ids')"
    and "unat (next_group_db_store_id ids') \<le> unat (next_group_db_store_id (group_ids a)) + 1"
    and "next_group_id ids' = next_group_id ids" and "group_db_store ids' = group_db_store ids"
proof -
  let ?n = "next_group_db_store_id (group_ids a)" and ?f = "freed_group_db_store_ids (group_ids a)"
  have *: "sid \<noteq> 0 \<and> unat sid < unat (next_group_db_store_id ids') \<and>
     sid \<notin> set (freed_group_db_store_ids ids') \<and> (\<forall>k. store_id a k \<noteq> Some sid) \<and>
     distinct (freed_group_db_store_ids ids') \<and> set (freed_group_db_store_ids ids') \<subseteq> set ?f \<and>
     unat ?n \<le> unat (next_group_db_store_id ids') \<and>
     unat (next_group_db_store_id ids') \<le> unat ?n + 1 \<and>
     next_group_id ids' = next_group_id ids \<and> group_db_store ids' = group_db_store ids"
  proof (cases "min_position ?f")
    case None
    then have f: "?f = []" by (simp add: min_position_None)
    have up: "unat (?n + 1) = Suc (unat ?n)"
      using room by (simp add: unat_word_ariths)
    have "?n \<noteq> 0" using ok by (auto simp: ids_ok_def unat_gt_0)
    moreover have "store_id a k \<noteq> Some ?n" for k using ok by (auto simp: ids_ok_def)
    moreover have "sid = ?n" "ids' = ids\<lparr>next_group_db_store_id := ?n + 1\<rparr>"
      using gen None ids by (auto simp: generate_group_db_store_id_like_cpp_def)
    ultimately show ?thesis using f up ids by simp
  next
    case (Some i)
    from min_position_Some [OF Some] have i: "i < length ?f" by blast
    have d: "distinct ?f" using ok by (simp add: ids_ok_def)
    have "sid = ?f ! i" "ids' = ids\<lparr>freed_group_db_store_ids := swap_remove i ?f\<rparr>"
      using gen Some ids by (auto simp: generate_group_db_store_id_like_cpp_def)
    moreover have "?f ! i \<in> set ?f" using i by simp
    ultimately show ?thesis
      using ok ids swap_remove_distinct [OF i d] by (auto simp: ids_ok_def)
  qed
  then show "sid \<noteq> 0" "unat sid < unat (next_group_db_store_id ids')"
    "sid \<notin> set (freed_group_db_store_ids ids')" "\<And>k. store_id a k \<noteq> Some sid"
    "distinct (freed_group_db_store_ids ids')"
    "set (freed_group_db_store_ids ids') \<subseteq> set (freed_group_db_store_ids (group_ids a))"
    "unat (next_group_db_store_id (group_ids a)) \<le> unat (next_group_db_store_id ids')"
    "unat (next_group_db_store_id ids') \<le> unat (next_group_db_store_id (group_ids a)) + 1"
    "next_group_id ids' = next_group_id ids" "group_db_store ids' = group_db_store ids"
    by blast+
qed

end
