(* ===== verification/GroupRuns.thy ===== *)
theory GroupRuns
  imports GroupSystem
begin

text \<open>
  Every operation of the group system keeps the registry, the storage identifiers and the
  invite directory well formed, and so does every run of them (\<open>run_group_ops_inv\<close>).
\<close>

definition group_sys_ok :: "nat \<Rightarrow> group_state \<Rightarrow> bool" where
  "group_sys_ok n s =
     (registry_ok (fst s) \<and> ids_ok (fst s) \<and> ids_below n (fst s) \<and> hm_ok (snd s))"

section \<open>The registry\<close>

lemma registry_ok_get: "registry_ok a \<Longrightarrow> hm_get (groups a) gid = Some g \<Longrightarrow> group_ok g \<and> group_guid g = gid"
  by (simp add: registry_ok_def)

lemma registry_ok_insert:
  "registry_ok a \<Longrightarrow> group_ok g \<Longrightarrow> group_guid g = gid \<Longrightarrow>
     registry_ok (a\<lparr>groups := hm_insert gid g (groups a)\<rparr>)"
  by (simp add: registry_ok_def)

lemma registry_ok_remove: "registry_ok a \<Longrightarrow> registry_ok (a\<lparr>groups := hm_remove gid (groups a)\<rparr>)"
  by (auto simp: registry_ok_def split: if_splits)

lemma registry_ok_ids [simp]: "registry_ok (a\<lparr>group_ids := ids\<rparr>) = registry_ok a"
  by (simp add: registry_ok_def)

lemma registry_ok_hm: "registry_ok a \<Longrightarrow> hm_ok (groups a)"
  by (simp add: registry_ok_def)

lemma registry_update_commute:
  "a\<lparr>groups := gs, group_ids := ids\<rparr> = a\<lparr>group_ids := ids\<rparr>\<lparr>groups := gs\<rparr>"
  by (cases a) simp

context group_operation begin

lemma transition_sys:
  "registry_ok a \<and> ids_ok a \<and> ids_below n a \<Longrightarrow>
     registry_ok (snd (with_group gid body a)) \<and> ids_ok (snd (with_group gid body a)) \<and>
     ids_below n (snd (with_group gid body a))"
  using transition_ok [of a gid] ids_ok_cong [of "snd (with_group gid body a)" a] transition_store_ids [of gid a]
  by (simp add: store_id_def ids_below_def)

end

section \<open>Removal\<close>

lemma change_leader_members [simp]:
  "group_members (snd (change_leader_like_cpp guid g)) = group_members g"
  by (auto simp: change_leader_like_cpp_def Let_def split: option.splits)

lemma succession_cases:
  "snd (removal_succession member connected g) = remove_member member g \<or>
   (\<exists>successor. snd (removal_succession member connected g) =
      snd (change_leader_like_cpp successor (remove_member member g)))"
  by (auto simp: removal_succession_def Let_def split: option.split prod.split) (metis snd_conv)+

lemma succession_ok: "group_ok g \<Longrightarrow> group_ok (snd (removal_succession member connected g))"
  using succession_cases [of member connected g] remove_member_ok [of g member]
    ok_quiet [OF quiet_change_leader, of "remove_member member g"]
  by auto

lemma succession_identity: "same_identity g (snd (removal_succession member connected g))"
  using succession_cases [of member connected g]
  by (auto intro: same_identity_trans [OF membership_identity(1) membership_identity(6)])

lemma remove_member_sys:
  assumes ok: "registry_ok a \<and> ids_ok a \<and> ids_below n a"
  shows "registry_ok (snd (remove_member_like_cpp gid member kind connected a)) \<and>
         ids_ok (snd (remove_member_like_cpp gid member kind connected a)) \<and>
         ids_below n (snd (remove_member_like_cpp gid member kind connected a))"
proof (cases "\<exists>g. hm_get (groups a) gid = Some g \<and> kick_guard kind member g = None \<and>
        member \<in> set (group_members g) \<and> \<not> (is_kick kind \<and> is_lfg_group_like_cpp g)")
  case False
  then have "snd (remove_member_like_cpp gid member kind connected a) = a"
    by (auto simp: remove_member_like_cpp_def split: option.split)
  with ok show ?thesis by simp
next
  case True
  then obtain g where g: "hm_get (groups a) gid = Some g" and k: "kick_guard kind member g = None"
    "member \<in> set (group_members g)" "\<not> (is_kick kind \<and> is_lfg_group_like_cpp g)" by auto
  obtain s g' where sc: "removal_succession member connected g = (s, g')" by fastforce
  have gok: "group_ok g" and gg: "group_guid g = gid" using ok g by (auto dest: registry_ok_get)
  have g'ok: "group_ok g'" using succession_ok [OF gok, of member connected] sc by simp
  have id: "group_guid g' = gid" "db_store_id g' = db_store_id g"
    using succession_identity [of g member connected] sc gg by (simp_all add: same_identity_def)
  show ?thesis
  proof (cases "length (group_members g') < 2")
    case gone: True
    have st: "snd (remove_member_like_cpp gid member kind connected a) =
        a\<lparr>groups := hm_remove gid (groups a),
          group_ids := free_group_db_store_id_like_cpp (db_store_id g) (group_ids a)\<rparr>"
      using g k sc gone id by (auto simp: remove_member_like_cpp_def Let_def)
    show ?thesis
      unfolding st using ok ids_ok_delete [of a gid g] g registry_ok_hm registry_ok_remove [of a gid]
      by (simp add: ids_below_def)
  next
    case stay: False
    have st: "snd (remove_member_like_cpp gid member kind connected a) =
        a\<lparr>groups := hm_insert gid g' (groups a)\<rparr>"
      using g k sc stay id by (auto simp: remove_member_like_cpp_def Let_def)
    have "store_id (a\<lparr>groups := hm_insert gid g' (groups a)\<rparr>) l = store_id a l" for l
      using g id by (simp add: store_id_def)
    then show ?thesis
      unfolding st using ok registry_ok_insert [OF _ g'ok id(1)] ids_ok_cong [of _ a]
      by (simp add: ids_below_def)
  qed
qed

lemma unregister_sys:
  assumes ok: "registry_ok a \<and> ids_ok a \<and> ids_below n a"
  shows "registry_ok (snd (unregister_group_like_cpp gid a)) \<and>
         ids_ok (snd (unregister_group_like_cpp gid a)) \<and>
         ids_below n (snd (unregister_group_like_cpp gid a))"
  using ok ids_ok_delete [of a gid] registry_ok_hm registry_ok_remove [of a gid]
  by (auto simp: unregister_group_like_cpp_def ids_below_def split: option.split)

section \<open>Ticks\<close>

lemma tick_groups_sys:
  "registry_ok a \<and> ids_ok a \<and> ids_below n a \<Longrightarrow>
     registry_ok (snd (tick_groups d keys a)) \<and> ids_ok (snd (tick_groups d keys a)) \<and>
     ids_below n (snd (tick_groups d keys a))"
proof (induction keys arbitrary: a)
  case (Cons gid keys)
  show ?case
  proof (cases "hm_get (groups a) gid")
    case None
    with Cons show ?thesis by simp
  next
    case (Some g)
    from Cons.IH [OF tick_op.transition_sys [OF Cons.prems, where gid = gid and d = d]] Some
    show ?thesis by (simp add: case_prod_beta tick_groups_step [OF Some])
  qed
qed simp

section \<open>New groups\<close>

lemma GroupInfo_new_ok:
  "group_ok (fst (GroupInfo_new leader ids))"
  "group_members (fst (GroupInfo_new leader ids)) = [leader]"
  "leader_guid (fst (GroupInfo_new leader ids)) = leader"
  "\<not> is_full_like_cpp (fst (GroupInfo_new leader ids))"
  by (simp_all add: GroupInfo_new_def case_prod_beta group_ok_def group_wf_def group_cap_def ready_ok_def
      is_raid_group_def is_full_like_cpp_def)

lemma ids_ok_create:
  assumes ok: "ids_ok a" and below: "ids_below n a" and n: "n < 2 ^ 32 - 1"
    and new: "GroupInfo_new leader (group_ids a) = (g0, ids)"
    and id: "same_identity g0 g" and hm: "hm_ok (groups a)"
  defines "b \<equiv> a\<lparr>group_ids := register_group_db_store_id_like_cpp (db_store_id g) (group_guid g) ids,
                  groups := hm_insert (group_guid g) g (groups a)\<rparr>"
  shows "ids_ok b" and "ids_below (Suc n) b" and "hm_get (groups a) (group_guid g) = None"
    and "group_guid g = next_group_id (group_ids a)"
proof -
  define ids1 where "ids1 = (group_ids a)\<lparr>next_group_id := next_group_id (group_ids a) + 1\<rparr>"
  obtain sid ids2 where gen: "generate_group_db_store_id_like_cpp ids1 = (sid, ids2)" by fastforce
  have room: "unat (next_group_db_store_id (group_ids a)) < 2 ^ 32 - 1"
    using below n by (simp add: ids_below_def)
  note fresh = generate_store_id_fresh [OF ok room gen, unfolded ids1_def, simplified, folded ids1_def]
  have g: "group_guid g = next_group_id (group_ids a)" "db_store_id g = sid" "ids = ids2"
    using new id gen
    by (auto simp: GroupInfo_new_def generate_group_id_like_cpp_def same_identity_def ids1_def Let_def)
  have up: "unat (next_group_id (group_ids a) + 1) = Suc (unat (next_group_id (group_ids a)))"
    using below n by (simp add: ids_below_def unat_word_ariths)
  have ng: "next_group_id ids2 = next_group_id (group_ids a) + 1"
    "group_db_store ids2 = group_db_store (group_ids a)"
    using fresh(9,10) by (simp_all add: ids1_def)
  have "store_id a (next_group_id (group_ids a)) = None"
    using ok unfolding ids_ok_def by (metis less_irrefl option.exhaust)
  then show none: "hm_get (groups a) (group_guid g) = None"
    by (simp add: g(1) store_id_def)
  show "group_guid g = next_group_id (group_ids a)" by (rule g(1))
  have st: "store_id b k = (if k = group_guid g then Some sid else store_id a k)" for k
    using hm by (simp add: b_def store_id_def g(2))
  have lk: "store_lookup (group_ids b) s = (if s = sid then Some (group_guid g) else store_lookup (group_ids a) s)" for s
    by (simp add: b_def g(2,3) store_lookup_register)
      (simp add: store_lookup_def group_guid_by_db_store_id_like_cpp_def ng)
  have nb: "next_group_id (group_ids b) = next_group_id (group_ids a) + 1"
    "next_group_db_store_id (group_ids b) = next_group_db_store_id ids2"
    "freed_group_db_store_ids (group_ids b) = freed_group_db_store_ids ids2"
    by (simp_all add: b_def g(3) ng)
  have old: "unat k < Suc (unat (next_group_id (group_ids a)))" "s \<noteq> 0"
    "unat s < unat (next_group_db_store_id ids2)" "s \<notin> set (freed_group_db_store_ids ids2)" "s \<noteq> sid"
    if "store_id a k = Some s" for k s
  proof -
    have "unat k < unat (next_group_id (group_ids a))" "s \<noteq> 0"
      "unat s < unat (next_group_db_store_id (group_ids a))"
      "s \<notin> set (freed_group_db_store_ids (group_ids a))"
      using ok that unfolding ids_ok_def by blast+
    with that fresh(4,6,7) show "unat k < Suc (unat (next_group_id (group_ids a)))" "s \<noteq> 0"
      "unat s < unat (next_group_db_store_id ids2)" "s \<notin> set (freed_group_db_store_ids ids2)" "s \<noteq> sid"
      by auto
  qed
  show "ids_below (Suc n) b"
    using below fresh(8) by (simp add: ids_below_def nb up)
  show "ids_ok b"
    unfolding ids_ok_def st lk nb up
  proof (intro conjI allI impI ballI, goal_cases)
    case (1 k s) then show ?case using old(1) g(1) by (auto split: if_splits)
  next
    case (2 k s) then show ?case using old(2) fresh(1) by (auto split: if_splits)
  next
    case (3 k s) then show ?case using old(3) fresh(2) by (auto split: if_splits)
  next
    case (4 k s) then show ?case using old(4) fresh(3) by (auto split: if_splits)
  next
    case (5 s k) then show ?case
      using ok old(5) none fresh(4) by (auto simp: ids_ok_def store_id_def split: if_splits)
  next
    case 6 then show ?case by (rule fresh(5))
  next
    case (7 s) then show ?case using ok fresh(6) by (auto simp: ids_ok_def)
  next
    case (8 s) then show ?case using ok fresh(6,7) by (auto simp: ids_ok_def intro: less_le_trans)
  next
    case 9 then show ?case using fresh(2) by simp
  qed
qed

section \<open>Invites\<close>

lemma remove_guids_get:
  "hm_ok p \<Longrightarrow> hm_ok (remove_guids guids p) \<and>
     hm_get (remove_guids guids p) k = (if k \<in> set guids then None else hm_get p k)"
  unfolding remove_guids_def
  by (induction guids arbitrary: p) auto

lemma promote_guids_get:
  "hm_ok p \<Longrightarrow> hm_ok (promote_guids guids invite p) \<and>
     hm_get (promote_guids guids invite p) k = (if k \<in> set guids then Some invite else hm_get p k)"
  unfolding promote_guids_def
  by (induction guids arbitrary: p) auto

lemma set_matching: "hm_ok p \<Longrightarrow> k \<in> set (matching_guids p invite) \<longleftrightarrow> hm_get p k = Some invite"
  by (force simp: matching_guids_def dest: hm_mem_get hm_get_mem)

lemma distinct_matching: "hm_ok p \<Longrightarrow> distinct (matching_guids p invite)"
  by (simp add: matching_guids_def distinct_map_filter)

lemma create_invite_hm: "hm_ok p \<Longrightarrow> hm_ok (snd (create_invite_like_cpp a i j gid c1 c2 p))"
  by (simp add: create_invite_like_cpp_def Let_def split: option.split)

lemma cancel_unlocked_hm: "hm_ok p \<Longrightarrow> hm_ok (snd (cancel_invite_unlocked_like_cpp i e p))"
  by (simp add: cancel_invite_unlocked_like_cpp_def Let_def remove_guids_get)

lemma replace_invite_hm: "hm_ok p \<Longrightarrow> hm_ok (snd (replace_invite_like_cpp i e r p))"
proof -
  assume p: "hm_ok p"
  obtain b q where c: "cancel_invite_unlocked_like_cpp i e p = (b, q)" by fastforce
  then have "hm_ok q" using cancel_unlocked_hm [OF p, of i e] by simp
  with c show ?thesis by (cases b) (simp_all add: replace_invite_like_cpp_def Let_def)
qed

lemma decline_invite_hm: "hm_ok p \<Longrightarrow> hm_ok (snd (decline_invite_like_cpp i idx p))"
  using cancel_unlocked_hm [of p i]
  by (simp add: decline_invite_like_cpp_def cancel_invite_like_cpp_def split: prod.split option.split)
    (metis snd_conv)

lemma accept_existing_sys:
  assumes ok: "registry_ok a \<and> ids_ok a \<and> ids_below n a \<and> hm_ok p"
  shows "group_sys_ok n (snd (accept_existing invitee invite gid (a, p)))"
proof (cases "hm_get (groups a) gid")
  case None
  with ok show ?thesis by (simp add: accept_existing_def group_sys_ok_def)
next
  case (Some g)
  define g' where "g' = snd (add_member invitee g)"
  have g: "group_ok g" "group_guid g = gid" using ok Some by (auto dest: registry_ok_get)
  have id: "group_guid g' = gid" "db_store_id g' = db_store_id g"
    using add_member_identity [of g invitee] g by (simp_all add: same_identity_def g'_def)
  have sys: "registry_ok (a\<lparr>groups := hm_insert gid g' (groups a)\<rparr>) \<and>
        ids_ok (a\<lparr>groups := hm_insert gid g' (groups a)\<rparr>) \<and>
        ids_below n (a\<lparr>groups := hm_insert gid g' (groups a)\<rparr>)" if "\<not> is_full_like_cpp g"
  proof -
    have "group_ok g'" unfolding g'_def by (rule add_member_ok [OF g(1) that])
    moreover have "store_id (a\<lparr>groups := hm_insert gid g' (groups a)\<rparr>) l = store_id a l" for l
      using Some id by (simp add: store_id_def)
    ultimately show ?thesis
      using ok registry_ok_insert [of a g' gid] id(1) ids_ok_cong [of _ a] by (simp add: ids_below_def)
  qed
  have "fst (add_member invitee g) = b \<Longrightarrow> add_member invitee g = (b, g')" for b
    by (simp add: g'_def prod_eq_iff)
  then show ?thesis
    using ok sys Some
    by (cases "fst (add_member invitee g)")
      (auto simp: accept_existing_def group_sys_ok_def Let_def)
qed

lemma accept_pending_sys:
  assumes ok: "registry_ok a \<and> ids_ok a \<and> ids_below n a \<and> hm_ok p" and n: "n < 2 ^ 32 - 1"
    and ne: "invite_leader_guid invite \<noteq> invitee"
  shows "group_sys_ok (Suc n) (snd (accept_pending invitee invite available (a, p)))"
proof -
  obtain g0 ids where new: "GroupInfo_new (invite_leader_guid invite) (group_ids a) = (g0, ids)" by fastforce
  note n0 = GroupInfo_new_ok [of "invite_leader_guid invite" "group_ids a", unfolded new fst_conv]
  define g where "g = snd (add_member invitee g0)"
  have add: "add_member invitee g0 = (True, g)"
    using add_member_succeeds [of g0 invitee] n0 ne by (simp add: g_def prod_eq_iff group_ok_def)
  have gok: "group_ok g" unfolding g_def by (rule add_member_ok [OF n0(1) n0(4)])
  have id: "same_identity g0 g" unfolding g_def by (rule add_member_identity)
  have below: "ids_below (Suc n) a" using ok by (simp add: ids_below_def)
  let ?p1 = "hm_remove invitee p"
  let ?p2 = "hm_remove (invite_leader_guid invite) ?p1"
  let ?b = "a\<lparr>group_ids := register_group_db_store_id_like_cpp (db_store_id g) (group_guid g) ids,
              groups := hm_insert (group_guid g) g (groups a)\<rparr>"
  have b: "ids_ok ?b" "ids_below (Suc n) ?b"
    using ids_ok_create [OF _ _ n new id] ok registry_ok_hm by blast+
  have rb: "registry_ok ?b"
    using registry_ok_insert [OF _ gok refl, of "a\<lparr>group_ids := register_group_db_store_id_like_cpp
      (db_store_id g) (group_guid g) ids\<rparr>"] ok by simp
  show ?thesis
    using ok b rb below remove_guids_get [of ?p1] promote_guids_get [of ?p2]
    by (auto simp: accept_pending_def group_sys_ok_def Let_def new add registry_update_commute)
qed

lemma accept_sys:
  assumes ok: "group_sys_ok n s" and n: "n < 2 ^ 32 - 1"
  shows "group_sys_ok (Suc n) (snd (accept_invite_like_cpp invitee idx available s))"
proof -
  have mono: "group_sys_ok n t \<Longrightarrow> group_sys_ok (Suc n) t" for t
    by (auto simp: group_sys_ok_def ids_below_def)
  obtain a p where s: "s = (a, p)" by (cases s)
  have ok': "registry_ok a \<and> ids_ok a \<and> ids_below n a \<and> hm_ok p" using ok s by (simp add: group_sys_ok_def)
  show ?thesis
    using ok' mono [OF accept_existing_sys [OF ok']] accept_pending_sys [OF ok' n]
      mono [of "(a, p)"] mono [of "(a, hm_remove invitee p)"]
    by (auto simp: s accept_invite_like_cpp_def group_sys_ok_def split: option.split)
qed

section \<open>Runs\<close>

lemma run_group_op_sys:
  assumes ok: "group_sys_ok n s" and n: "n < 2 ^ 32 - 1"
  shows "group_sys_ok (Suc n) (run_group_op op s)"
proof -
  obtain a p where s: "s = (a, p)" by (cases s)
  have ok': "registry_ok a \<and> ids_ok a \<and> ids_below n a" and p: "hm_ok p"
    using ok by (auto simp: group_sys_ok_def s)
  have mono: "group_sys_ok n t \<Longrightarrow> group_sys_ok (Suc n) t" for t
    by (auto simp: group_sys_ok_def ids_below_def)
  have reg: "registry_ok b \<and> ids_ok b \<and> ids_below n b \<Longrightarrow> group_sys_ok (Suc n) (b, p)" for b
    using mono [of "(b, p)"] p by (simp add: group_sys_ok_def)
  have dir: "hm_ok q \<Longrightarrow> group_sys_ok (Suc n) (a, q)" for q
    using mono [of "(a, q)"] ok' by (simp add: group_sys_ok_def)
  show ?thesis
  proof (cases op)
    case (OpAcceptInvite i idx l)
    then show ?thesis using accept_sys [OF ok n, of i idx l] by (simp add: s)
  next
    case (OpRemoveMember gid m k c)
    then show ?thesis using reg [OF remove_member_sys [OF ok']] by (simp add: s)
  next
    case (OpUnregister gid)
    then show ?thesis using reg [OF unregister_sys [OF ok']] by (simp add: s)
  next
    case (OpTickReadyChecks d)
    then show ?thesis
      using reg [OF tick_groups_sys [OF ok']] by (simp add: s tick_ready_checks_like_cpp_def)
  qed (simp_all add: s dir p create_invite_hm cancel_unlocked_hm replace_invite_hm decline_invite_hm
      cancel_invite_like_cpp_def expire_invite_like_cpp_def cancel_pending_group_like_cpp_def Let_def
      remove_guids_get
      convert_group_like_cpp_def reg [OF convert_op.transition_sys [OF ok']]
      change_member_subgroup_like_cpp_def reg [OF change_subgroup_op.transition_sys [OF ok']]
      swap_member_subgroups_like_cpp_def reg [OF swap_op.transition_sys [OF ok']]
      change_leader_transition_like_cpp_def reg [OF leader_op.transition_sys [OF ok']]
      set_member_flag_transition_like_cpp_def reg [OF member_flag_op.transition_sys [OF ok']]
      set_everyone_assistant_transition_like_cpp_def reg [OF everyone_op.transition_sys [OF ok']]
      set_party_assignment_transition_like_cpp_def reg [OF assignment_op.transition_sys [OF ok']]
      set_lfg_role_transition_like_cpp_def reg [OF lfg_role_op.transition_sys [OF ok']]
      set_target_icon_transition_like_cpp_def reg [OF target_icon_op.transition_sys [OF ok']]
      delete_raid_marker_transition_like_cpp_def reg [OF delete_marker_op.transition_sys [OF ok']]
      add_raid_marker_transition_like_cpp_def reg [OF add_marker_op.transition_sys [OF ok']]
      set_recent_instance_transition_like_cpp_def reg [OF recent_instance_op.transition_sys [OF ok']]
      link_owned_instance_transition_like_cpp_def reg [OF link_op.transition_sys [OF ok']]
      unlink_owned_instance_transition_like_cpp_def reg [OF unlink_op.transition_sys [OF ok']]
      apply_instance_reset_transition_like_cpp_def reg [OF reset_op.transition_sys [OF ok']]
      set_difficulty_transition_like_cpp_def reg [OF difficulty_op.transition_sys [OF ok']]
      advance_looter_transition_like_cpp_def reg [OF looter_op.transition_sys [OF ok']]
      start_ready_check_transition_like_cpp_def reg [OF start_ready_op.transition_sys [OF ok']]
      respond_ready_check_transition_like_cpp_def reg [OF respond_ready_op.transition_sys [OF ok']])
qed

lemma group_start_ok: "group_sys_ok 1 group_start"
  by (simp add: group_sys_ok_def group_start_def registry_new_def registry_ok_def ids_ok_def
      ids_below_def GroupIds_initial_def store_id_def store_lookup_def
      group_guid_by_db_store_id_like_cpp_def)

lemma run_group_ops_from:
  "group_sys_ok n s \<Longrightarrow> n + length ops < 2 ^ 32 \<Longrightarrow> group_sys_ok (n + length ops) (run_group_ops ops s)"
proof (induction ops arbitrary: n s)
  case Nil
  then show ?case by (simp add: run_group_ops_def)
next
  case (Cons op ops)
  have "group_sys_ok (Suc n) (run_group_op op s)"
    using Cons.prems by (intro run_group_op_sys) auto
  from Cons.IH [OF this] Cons.prems(2) show ?case by (simp add: run_group_ops_def)
qed

lemma run_group_ops_inv:
  "length ops < 2 ^ 32 - 1 \<Longrightarrow> group_sys_ok (Suc (length ops)) (run_group_ops ops group_start)"
  using run_group_ops_from [OF group_start_ok, of ops] by simp

end
