(* ===== verification/GroupProperties.thy ===== *)
theory GroupProperties
  imports GroupRuns
begin

text \<open>
  What the group registry promises: rosters and subgroup counters agree with each other and
  with the capacities in every run, database storage identifiers are unique and resolvable,
  joining never fails for lack of a subgroup, leaving picks a successor or disbands, and the
  settings operations do what they say.  Witnesses are runs evaluated by rewriting.
\<close>

named_theorems group_eval \<open>unfolding of the group operations on concrete states\<close>

lemmas group_constant_defs [group_eval] =
  GROUP_FLAG_RAID_LIKE_CPP_def GROUP_FLAG_LFG_LIKE_CPP_def GROUP_FLAG_EVERYONE_ASSISTANT_LIKE_CPP_def
  GROUP_CATEGORY_HOME_LIKE_CPP_def GROUP_CATEGORY_INSTANCE_LIKE_CPP_def MAX_GROUP_CATEGORY_LIKE_CPP_def
  LFG_STATE_DUNGEON_LIKE_CPP_def LFG_STATE_FINISHED_DUNGEON_LIKE_CPP_def LFG_GROUP_MAX_KICKS_LIKE_CPP_def
  LFG_GROUP_KICK_VOTES_NEEDED_LIKE_CPP_def MEMBER_FLAG_ASSISTANT_LIKE_CPP_def
  MEMBER_FLAG_MAINTANK_LIKE_CPP_def MEMBER_FLAG_MAINASSIST_LIKE_CPP_def
  LOOT_METHOD_FREE_FOR_ALL_LIKE_CPP_def LOOT_METHOD_PERSONAL_LIKE_CPP_def
  READYCHECK_DURATION_MS_LIKE_CPP_def RAID_MARKERS_COUNT_LIKE_CPP_def TARGET_ICONS_COUNT_LIKE_CPP_def

lemmas group_op_defs [group_eval] =
  run_group_ops_def group_start_def registry_new_def GroupIds_initial_def create_invite_like_cpp_def
  accept_invite_like_cpp_def accept_pending_def accept_existing_def GroupInfo_new_def
  generate_group_id_like_cpp_def generate_group_db_store_id_like_cpp_def min_position_def swap_remove_def
  register_group_db_store_id_like_cpp_def free_group_db_store_id_like_cpp_def
  add_member_def subgroup_counter_increase_like_cpp_def subgroup_counter_decrease_like_cpp_def
  bump_sequence_def fresh_slot_def matching_guids_def remove_guids_def promote_guids_def
  new_pending_group_def new_existing_group_def slot_subgroup_or_default_def created_persistence_def
  member_slot_like_cpp_def resolve_inviter_group_def groups_member_in_def group_category_like_cpp_def
  hm_values_def is_full_like_cpp_def is_raid_group_def is_leader_like_cpp_def is_assistant_like_cpp_def
  is_lfg_group_like_cpp_def decline_invite_like_cpp_def cancel_invite_like_cpp_def
  cancel_invite_unlocked_like_cpp_def invite_get_def with_group_def
  convert_group_like_cpp_def convert_group_body_def convert_to_raid_like_cpp_def
  convert_to_group_like_cpp_def init_raid_subgroups_counter_like_cpp_def count_slot_def
  remove_member_like_cpp_def kick_guard_def removal_succession_def removal_persistence_def
  remove_member_def drop_member_entries_def change_leader_like_cpp_def clear_flag_def
  saturating_add_def saturating_sub_def
  group_guid_by_db_store_id_like_cpp_def get_group_by_db_store_id_like_cpp_def

definition gA :: ObjectGuid where "gA = ObjectGuid 0x800000000000000 1"
definition gB :: ObjectGuid where "gB = ObjectGuid 0x800000000000000 2"
definition gC :: ObjectGuid where "gC = ObjectGuid 0x800000000000000 3"
definition gD :: ObjectGuid where "gD = ObjectGuid 0x800000000000000 4"

lemma replicate_8 [group_eval]: "replicate 8 x = [x, x, x, x, x, x, x, x]"
  by (simp add: numeral_eq_Suc)

declare Let_def [group_eval]

lemmas sample_guids [group_eval] = gA_def gB_def gC_def gD_def

text \<open>Two players form a party, and it becomes a raid.\<close>

definition sample_party :: "GroupOp list" where
  "sample_party = [OpCreateInvite gA gB None 0 0, OpAcceptInvite gB None (Some gA)]"

definition sample_raid :: "GroupOp list" where
  "sample_raid = sample_party @ [OpConvert 1 gA True, OpCreateInvite gA gC (Some 1) 0 0, OpAcceptInvite gC None None]"

lemma sample_party_state:
  "\<exists>g. hm_get (groups (fst (run_group_ops sample_party group_start))) 1 = Some g \<and>
       group_members g = [gA, gB]"
  by (simp add: sample_party_def group_eval)

lemma sample_raid_state:
  "\<exists>g. hm_get (groups (fst (run_group_ops sample_raid group_start))) 1 = Some g \<and>
       group_members g = [gA, gB, gC] \<and> is_raid_group g \<and> raid_subgroup_counts g = Some [3,0,0,0,0,0,0,0]"
  by (simp add: sample_raid_def sample_party_def group_eval)

section \<open>Invariants of every run\<close>

lemma run_ok: "length ops < 2 ^ 32 - 1 \<Longrightarrow> registry_ok (fst (run_group_ops ops group_start))"
  using run_group_ops_inv [of ops] by (simp add: group_sys_ok_def)

lemma run_ids: "length ops < 2 ^ 32 - 1 \<Longrightarrow> ids_ok (fst (run_group_ops ops group_start))"
  using run_group_ops_inv [of ops] by (simp add: group_sys_ok_def)

text \<open>
  C21: In every run of fewer than 2^32 - 1 operations each group is stored under its own
  identifier, its members are pairwise different and are exactly the owners of its member
  slots in the same order, a party has at most 5 and a raid at most 40 members, only raids
  have subgroup counters, and each counter is the number of members in that subgroup and is
  at most 5.
\<close>

theorem rosters_consistent:
  assumes "length ops < 2 ^ 32 - 1"
    and "hm_get (groups (fst (run_group_ops ops group_start))) gid = Some g"
  shows "group_guid g = gid \<and> distinct (group_members g) \<and>
    map slot_guid (member_slots g) = group_members g \<and>
    length (group_members g) \<le> (if is_raid_group g then 40 else 5) \<and>
    (case raid_subgroup_counts g of
       None \<Rightarrow> \<not> is_raid_group g
     | Some counts \<Rightarrow> is_raid_group g \<and> length counts = 8 \<and>
         (\<forall>i<8. unat (counts ! i) =
                  length (filter (\<lambda>s. unat (slot_subgroup s) = i) (member_slots g)) \<and>
                unat (counts ! i) \<le> 5))"
proof -
  have ok: "group_wf g" "group_cap g" "group_guid g = gid"
    using registry_ok_get [OF run_ok [OF assms(1)] assms(2)] by (simp_all add: group_ok_def)
  show ?thesis
  proof (cases "raid_subgroup_counts g")
    case None
    then show ?thesis using ok by (simp add: group_wf_def group_cap_def)
  next
    case (Some counts)
    then have cap: "\<forall>c\<in>set counts. unat c \<le> 5" and len: "length counts = 8"
      using ok by (simp_all add: group_wf_def group_cap_def counts_ok_def)
    then have "\<forall>i<8. unat (counts ! i) \<le> 5" by (metis nth_mem)
    then show ?thesis using Some ok len
      by (simp add: group_wf_def group_cap_def counts_ok_def subgroup_size_def)
  qed
qed

theorem rosters_consistent_witness:
  "\<exists>g. hm_get (groups (fst (run_group_ops sample_raid group_start))) 1 = Some g \<and>
       group_members g = [gA, gB, gC] \<and> map slot_guid (member_slots g) = [gA, gB, gC]"
proof -
  obtain g where g: "hm_get (groups (fst (run_group_ops sample_raid group_start))) 1 = Some g"
    "group_members g = [gA, gB, gC]" using sample_raid_state by auto
  have "length sample_raid < 2 ^ 32 - 1" by (simp add: sample_raid_def sample_party_def)
  from rosters_consistent [OF this g(1)] g show ?thesis by auto
qed

text \<open>
  In every run the subgroup counters that joins, leaves and moves keep incrementally are
  the ones a recount of the member slots gives: recomputing them changes nothing.
\<close>

theorem counters_equal_recount:
  assumes "length ops < 2 ^ 32 - 1"
    and "hm_get (groups (fst (run_group_ops ops group_start))) gid = Some g" "is_raid_group g"
  shows "init_raid_subgroups_counter_like_cpp g = g"
proof -
  have ok: "group_wf g" using registry_ok_get [OF run_ok [OF assms(1)] assms(2)] by (simp add: group_ok_def)
  obtain cs where cs: "raid_subgroup_counts g = Some cs" "counts_ok cs (member_slots g)"
    using wf_raid_counts [OF ok assms(3)] by auto
  have "length (member_slots g) < 256" using ok wf_length_slots [OF ok] by (simp add: group_wf_def)
  from init_counts_ok [OF this]
  have "foldl count_slot (replicate 8 0) (member_slots g) = cs"
    using cs(2) by (intro nth_equalityI) (auto simp: counts_ok_def word_unat_eq_iff)
  then show ?thesis using cs(1) by (simp add: init_raid_subgroups_counter_like_cpp_def)
qed

theorem counters_equal_recount_witness:
  "\<exists>g. hm_get (groups (fst (run_group_ops sample_raid group_start))) 1 = Some g \<and>
       raid_subgroup_counts g = Some [3,0,0,0,0,0,0,0] \<and> init_raid_subgroups_counter_like_cpp g = g"
proof -
  obtain g where g: "hm_get (groups (fst (run_group_ops sample_raid group_start))) 1 = Some g"
    "is_raid_group g" "raid_subgroup_counts g = Some [3,0,0,0,0,0,0,0]"
    using sample_raid_state by auto
  have "length sample_raid < 2 ^ 32 - 1" by (simp add: sample_raid_def sample_party_def)
  from counters_equal_recount [OF this g(1,2)] g show ?thesis by auto
qed



section \<open>Joining\<close>



text \<open>
  C25: Accepting the first invite of a pending group founds it: with the leader available the
  answer is the new group of exactly leader and invitee (in this order, the invitee led by
  the leader), registered under an identifier no group had; the invites of leader and invitee
  are consumed, every other invite to the pending group now names the new group, and all
  other invites are untouched.
\<close>

theorem first_accept_founds_group:
  assumes "length ops < 2 ^ 32 - 1" and "run_group_ops ops group_start = (a, p)"
    and "hm_get p invitee = Some invite" "invite_group_guid invite = None"
    and "invite_leader_guid invite = leader" "leader \<noteq> invitee"
  shows "\<exists>g subgroup intents a' p'.
    accept_invite_like_cpp invitee None (Some leader) (a, p) = (GroupCreated g subgroup intents, a', p') \<and>
    group_members g = [leader, invitee] \<and> leader_guid g = leader \<and>
    hm_get (groups a) (group_guid g) = None \<and>
    hm_get (groups a') = (hm_get (groups a))(group_guid g \<mapsto> g) \<and>
    hm_get p' = (\<lambda>k. if k = invitee \<or> k = leader then None
                      else if hm_get p k = Some invite
                      then Some (new_existing_group leader (group_guid g) (invite_group_category invite))
                      else hm_get p k)"
proof -
  have sys: "group_sys_ok (Suc (length ops)) (a, p)" using run_group_ops_inv [OF assms(1)] assms(2) by simp
  then have reg: "registry_ok a" and ids: "ids_ok a" and bel: "ids_below (Suc (length ops)) a"
    and hm: "hm_ok p" by (simp_all add: group_sys_ok_def)
  obtain g0 ids' where new: "GroupInfo_new leader (group_ids a) = (g0, ids')" by fastforce
  note n0 = GroupInfo_new_ok [of leader "group_ids a", unfolded new fst_conv]
  define g where "g = snd (add_member invitee g0)"
  have add: "add_member invitee g0 = (True, g)"
    using add_member_succeeds [of g0 invitee] n0 assms(6) by (simp add: g_def prod_eq_iff group_ok_def)
  have counts: "raid_subgroup_counts g0 = None"
    using new by (auto simp: GroupInfo_new_def Let_def case_prod_beta)
  have mem: "group_members g = [leader, invitee]" "leader_guid g = leader"
    using add_member_party [OF counts, of invitee] n0 assms(6) by (simp_all add: g_def)
  have id: "same_identity g0 g" unfolding g_def by (rule add_member_identity)
  have fresh: "hm_get (groups a) (group_guid g) = None"
  proof (cases "Suc (length ops) < 2 ^ 32 - 1")
    case True
    show ?thesis by (rule ids_ok_create(3) [OF ids bel True new id registry_ok_hm [OF reg]])
  next
    case False
    have "group_guid g = next_group_id (group_ids a)"
      using new id by (auto simp: GroupInfo_new_def generate_group_id_like_cpp_def same_identity_def
          Let_def case_prod_beta)
    then show ?thesis
      using ids by (cases "hm_get (groups a) (group_guid g)") (auto simp: ids_ok_def store_id_def)
  qed
  let ?p1 = "hm_remove invitee p"
  let ?p2 = "hm_remove leader ?p1"
  let ?new = "new_existing_group leader (group_guid g) (invite_group_category invite)"
  have p2: "hm_ok ?p2" using hm by simp
  have "hm_get (promote_guids (matching_guids ?p2 invite) ?new ?p2) k =
      (if k = invitee \<or> k = leader then None else if hm_get p k = Some invite then Some ?new else hm_get p k)" for k
    using promote_guids_get [OF p2, of "matching_guids ?p2 invite" ?new k] hm
    by (simp add: set_matching [OF p2])
  then show ?thesis
    using assms mem fresh registry_ok_hm [OF reg]
    by (auto simp: accept_invite_like_cpp_def accept_pending_def new add Let_def)
qed

theorem first_accept_founds_group_witness:
  "\<exists>g subgroup intents a' p'.
    accept_invite_like_cpp gB None (Some gA) (run_group_ops [OpCreateInvite gA gB None 0 0] group_start) =
      (GroupCreated g subgroup intents, a', p') \<and> group_members g = [gA, gB]"
proof -
  let ?s = "run_group_ops [OpCreateInvite gA gB None 0 0] group_start"
  let ?inv = "new_pending_group gA 0"
  have g: "hm_get (snd ?s) gB = Some ?inv" by (simp add: group_eval)
  have i: "invite_group_guid ?inv = None" "invite_leader_guid ?inv = gA" "gA \<noteq> gB"
    by (simp_all add: group_eval)
  have l: "length [OpCreateInvite gA gB None 0 0] < (2 ^ 32 - 1 :: nat)" by simp
  show ?thesis
    using first_accept_founds_group [OF l prod.collapse [symmetric] g i] by auto
qed

text \<open>
  Joining a raid fills the lowest subgroup that has a free place: after an accepted invite
  the invitee is the last member and its slot is in subgroup \<open>i\<close>, where every earlier
  subgroup had five members and \<open>i\<close> fewer; only that counter grew, by one.
\<close>

theorem joining_fills_first_free_subgroup:
  assumes "group_ok g" "is_raid_group g" "\<not> is_full_like_cpp g" "guid \<notin> set (group_members g)"
  shows "\<exists>i g'. add_member guid g = (True, g') \<and> i < 8 \<and>
    (\<forall>j<i. subgroup_size j (member_slots g) = 5) \<and> subgroup_size i (member_slots g) < 5 \<and>
    group_members g' = group_members g @ [guid] \<and>
    member_slots g' = member_slots g @ [fresh_slot guid (of_nat i)] \<and>
    (\<forall>j<8. subgroup_size j (member_slots g') = subgroup_size j (member_slots g) + (if j = i then 1 else 0))"
proof -
  have wf: "group_wf g" and cap: "group_cap g" using assms by (auto simp: group_ok_def)
  obtain cs where cs: "raid_subgroup_counts g = Some cs" "counts_ok cs (member_slots g)"
    using wf_raid_counts [OF wf assms(2)] by auto
  have len: "length (group_members g) < 40" using assms by (simp add: is_full_like_cpp_def)
  obtain i where i: "position (\<lambda>c. unat c < 5) cs = Some i" "i < 8" "unat (cs ! i) < 5"
    using free_subgroup_exists [OF wf cs(1) len] by auto
  have l8: "length cs = 8" using cs by (simp add: counts_ok_def)
  have five: "subgroup_size j (member_slots g) = 5" if "j < i" for j
  proof -
    have "\<not> unat (cs ! j) < 5" using position_Some [OF i(1)] that by blast
    moreover have "cs ! j \<in> set cs" using that i(2) l8 by simp
    then have "unat (cs ! j) \<le> 5" using cap cs(1) by (simp add: group_cap_def)
    ultimately show ?thesis using cs(2) that i(2) by (simp add: counts_ok_def)
  qed
  have u: "unat (of_nat i :: u8) = i" using i(2) by (simp add: unat_of_nat)
  show ?thesis
    using add_member_raid [OF cs(1) l8 assms(4) i(1)] i cs(2) five u
    by (intro exI [of _ i]) (simp add: counts_ok_def)
qed

theorem joining_fills_first_free_subgroup_witness:
  "\<exists>g (i :: nat) g'. add_member gD g = (True, g') \<and> i < 8 \<and> group_members g' = [gA, gB, gC, gD]"
proof -
  obtain g where g: "hm_get (groups (fst (run_group_ops sample_raid group_start))) 1 = Some g"
    "group_members g = [gA, gB, gC]" "is_raid_group g" using sample_raid_state by auto
  have l: "length sample_raid < 2 ^ 32 - 1" by (simp add: sample_raid_def sample_party_def)
  have ok: "group_ok g" using registry_ok_get [OF run_ok [OF l] g(1)] by simp
  have f: "\<not> is_full_like_cpp g" using g by (simp add: is_full_like_cpp_def)
  have n: "gD \<notin> set (group_members g)" using g by (simp add: group_eval)
  from joining_fills_first_free_subgroup [OF ok g(3) f n] g(2) show ?thesis by auto
qed

section \<open>Leaving\<close>

lemma find_in_filter_slot:
  assumes "group_wf g" "c \<in> set (group_members g)"
  shows "member_slot_like_cpp g c \<noteq> None"
  using assms by (simp add: find_slot_None)

lemma succession_functional:
  assumes wf: "group_wf g"
  shows "group_members (snd (removal_succession member connected g)) = filter (\<lambda>m. m \<noteq> member) (group_members g)"
    and "fst (removal_succession member connected g) =
           (if length (filter (\<lambda>m. m \<noteq> member) (group_members g)) \<ge> 2 \<and> leader_guid g = member
            then find (\<lambda>c. c \<noteq> member \<and> c \<in> set (group_members g)) connected else None)"
    and "leader_guid (snd (removal_succession member connected g)) =
           (case fst (removal_succession member connected g) of None \<Rightarrow> leader_guid g | Some l \<Rightarrow> l)"
proof -
  let ?g1 = "remove_member member g"
  let ?ms = "filter (\<lambda>m. m \<noteq> member) (group_members g)"
  have m1: "group_members ?g1 = ?ms" by (rule remove_member_members [OF wf])
  have wf1: "group_wf ?g1" by (simp add: remove_member_def drop_member_wf [OF wf])
  have l1: "leader_guid ?g1 = leader_guid g"
    by (simp add: remove_member_def drop_member_entries_def Let_def subgroup_counter_decrease_like_cpp_def
        split: option.split)
  have f: "find (\<lambda>c. c \<in> set (group_members ?g1)) connected =
      find (\<lambda>c. c \<noteq> member \<and> c \<in> set (group_members g)) connected"
    by (simp add: m1 conj_commute)
  have ch: "fst (change_leader_like_cpp c ?g1) \<noteq> None \<and> leader_guid (snd (change_leader_like_cpp c ?g1)) = c"
    if "c \<in> set (group_members ?g1)" for c
    using find_in_filter_slot [OF wf1 that]
    by (auto simp: change_leader_like_cpp_def Let_def split: option.split)
  show "group_members (snd (removal_succession member connected g)) = ?ms"
    using succession_cases [of member connected g] m1 by auto
  have main: "fst (removal_succession member connected g) =
       (if length ?ms \<ge> 2 \<and> leader_guid g = member
        then find (\<lambda>c. c \<noteq> member \<and> c \<in> set (group_members g)) connected else None) \<and>
     leader_guid (snd (removal_succession member connected g)) =
       (case fst (removal_succession member connected g) of None \<Rightarrow> leader_guid g | Some l \<Rightarrow> l)"
  proof (cases "length ?ms \<ge> 2 \<and> leader_guid g = member")
    case False
    then have "removal_succession member connected g = (None, ?g1)"
      unfolding removal_succession_def Let_def m1 by (rule if_not_P)
    then show ?thesis using False by (auto simp: l1)
  next
    case True
    show ?thesis
    proof (cases "find (\<lambda>c. c \<in> set (group_members ?g1)) connected")
      case None
      then have "removal_succession member connected g = (None, ?g1)"
        using True by (simp add: removal_succession_def Let_def)
      then show ?thesis using True f None by (simp add: l1)
    next
      case (Some c)
      then have "c \<in> set (group_members ?g1)" by (auto dest: find_Some_mem)
      from ch [OF this] obtain fl g2 where g2: "change_leader_like_cpp c ?g1 = (Some fl, g2)"
        "leader_guid g2 = c" by (cases "change_leader_like_cpp c ?g1") auto
      have "length (group_members ?g1) \<ge> 2 \<and> leader_guid g = member" using True m1 by simp
      then have "removal_succession member connected g = (Some c, g2)"
        using Some g2 by (simp add: removal_succession_def Let_def)
      moreover have "find (\<lambda>c. c \<noteq> member \<and> c \<in> set (group_members g)) connected = Some c"
        using f Some by simp
      ultimately show ?thesis using True g2(2) by auto
    qed
  qed
  then show "fst (removal_succession member connected g) =
       (if length ?ms \<ge> 2 \<and> leader_guid g = member
        then find (\<lambda>c. c \<noteq> member \<and> c \<in> set (group_members g)) connected else None)"
    "leader_guid (snd (removal_succession member connected g)) =
       (case fst (removal_succession member connected g) of None \<Rightarrow> leader_guid g | Some l \<Rightarrow> l)"
    by blast+
qed



text \<open>
  C27: A kick is refused without any change unless the actor may give it: in an ordinary group
  by someone who is neither leader nor assistant, or against the leader; in an LFG group
  always, because kicks there belong to the vote.
\<close>

theorem unauthorised_kick_rejected:
  assumes "hm_get (groups a) gid = Some g"
    and "is_lfg_group_like_cpp g \<or> leader_guid g = member \<or>
         (leader_guid g \<noteq> actor \<and> \<not> is_assistant_like_cpp g actor)"
  shows "\<exists>e. remove_member_like_cpp gid member (Kick actor bg rolls combat) connected a = (Inl e, a)"
proof (cases "kick_guard (Kick actor bg rolls combat) member g")
  case (Some e)
  then show ?thesis using assms by (simp add: remove_member_like_cpp_def)
next
  case None
  then have "is_lfg_group_like_cpp g"
    using assms(2) by (auto simp: kick_guard_def is_leader_like_cpp_def split: if_splits)
  then show ?thesis using assms(1) None by (simp add: remove_member_like_cpp_def)
qed

theorem unauthorised_kick_rejected_witness:
  "\<exists>e. remove_member_like_cpp 1 gA (Kick gB False False False) [] (fst (run_group_ops sample_party group_start)) =
     (Inl e, fst (run_group_ops sample_party group_start))"
proof -
  obtain g where g: "hm_get (groups (fst (run_group_ops sample_party group_start))) 1 = Some g"
    "leader_guid g = gA" by (simp add: sample_party_def group_eval)
  show ?thesis by (rule unauthorised_kick_rejected [OF g(1)]) (simp add: g(2))
qed

section \<open>Errors change nothing\<close>

lemma with_group_error_same:
  assumes body: "\<And>g e. fst (body g) = Inl e \<Longrightarrow> snd (body g) = g"
    and err: "fst (with_group gid body a) = Inl e"
  shows "snd (with_group gid body a) = a"
proof (cases "hm_get (groups a) gid")
  case None
  then show ?thesis by (simp add: with_group_missing)
next
  case (Some g)
  have "\<exists>e. fst (body g) = Inl e"
    using err Some by (auto simp: with_group_def split: prod.splits sum.splits)
  then have "snd (body g) = g" using body by blast
  then show ?thesis using Some by (simp add: with_group_state update_same)
qed

lemma convert_False: "\<not> fst (convert_to_group_like_cpp g) \<Longrightarrow> snd (convert_to_group_like_cpp g) = g"
  by (auto simp: convert_to_group_like_cpp_def split: if_splits)

lemma convert_body_error:
  "fst (convert_group_body actor raid g) = Inl e \<Longrightarrow> snd (convert_group_body actor raid g) = g"
  using convert_False [of g]
  by (cases raid; cases "convert_to_group_like_cpp g")
    (auto simp: convert_group_body_def split: if_splits bool.splits)

lemma swap_None:
  "fst (swap_members_groups_like_cpp i j g) = None \<Longrightarrow> snd (swap_members_groups_like_cpp i j g) = g"
  by (auto simp: swap_members_groups_like_cpp_def Let_def split: if_splits option.splits)

lemma flag_updates_cases:
  "set_group_member_flag_updates_like_cpp m b f g = (None, g) \<or>
   (\<exists>x g1. set_group_member_flag_updates_like_cpp m b f g = (Some [(m, x)], g1))"
  by (simp add: set_group_member_flag_updates_like_cpp_def Let_def split: option.split)

lemma set_flag_None:
  "fst (set_group_member_flag_like_cpp m b f g) = None \<Longrightarrow> snd (set_group_member_flag_like_cpp m b f g) = g"
  using flag_updates_cases [of m b f g] by (auto simp: set_group_member_flag_like_cpp_def)

lemma start_ready_Nil:
  "fst (start_ready_check_like_cpp s c g) = [] \<Longrightarrow> snd (start_ready_check_like_cpp s c g) = g"
  by (auto simp: start_ready_check_like_cpp_def Let_def split: if_splits option.splits prod.splits)

lemma respond_ready_Nil:
  "fst (set_member_ready_check_like_cpp m b g) = [] \<Longrightarrow> snd (set_member_ready_check_like_cpp m b g) = g"
  by (auto simp: set_member_ready_check_like_cpp_def set_member_ready_check_slot_like_cpp_def
      split: if_splits option.splits prod.splits)

lemma change_subgroup_error:
  "fst (change_member_subgroup_body actor member k g) = Inl e \<Longrightarrow>
     snd (change_member_subgroup_body actor member k g) = g"
  using change_group_None [of member k g]
  by (cases "change_member_group_like_cpp member k g")
    (auto simp: change_member_subgroup_body_def split: if_splits bool.splits)

lemma swap_error:
  "fst (swap_member_subgroups_body actor first second g) = Inl e \<Longrightarrow>
     snd (swap_member_subgroups_body actor first second g) = g"
  using swap_None [of first second g]
  by (cases "swap_members_groups_like_cpp first second g")
    (auto simp: swap_member_subgroups_body_def split: if_splits option.splits)

lemma set_flag_error:
  "fst (set_member_flag_body actor member b flag g) = Inl e \<Longrightarrow>
     snd (set_member_flag_body actor member b flag g) = g"
  using set_flag_None [of member b flag g]
  by (cases "set_group_member_flag_like_cpp member b flag g")
    (auto simp: set_member_flag_body_def split: if_splits option.splits)

lemma set_difficulty_error:
  "fst (set_difficulty_body actor d dkind g) = Inl e \<Longrightarrow> snd (set_difficulty_body actor d dkind g) = g"
  by (cases "is_leader_like_cpp g actor"; cases "is_lfg_group_like_cpp g"; cases dkind;
      cases "dungeon_difficulty_id g = d"; cases "raid_difficulty_id g = d";
      cases "legacy_raid_difficulty_id g = d")
    (simp_all add: set_difficulty_body_def set_dungeon_difficulty_id_like_cpp_def
      set_raid_difficulty_id_like_cpp_def set_legacy_raid_difficulty_id_like_cpp_def)

lemma set_icon_None:
  "fst (set_target_icon_like_cpp k target g) = None \<Longrightarrow> snd (set_target_icon_like_cpp k target g) = g"
  by (cases "unat k \<ge> TARGET_ICONS_COUNT_LIKE_CPP")
    (simp_all add: set_target_icon_like_cpp_def case_prod_beta)

lemma set_icon_error:
  "fst (set_target_icon_body actor k target g) = Inl e \<Longrightarrow> snd (set_target_icon_body actor k target g) = g"
  using set_icon_None [of k target g]
  by (cases "set_target_icon_like_cpp k target g")
    (auto simp: set_target_icon_body_def split: if_splits option.splits)

lemma add_marker_False:
  "\<not> fst (add_raid_marker_like_cpp k mapid pos transport g) \<Longrightarrow>
     snd (add_raid_marker_like_cpp k mapid pos transport g) = g"
  by (cases "unat k < length (raid_markers g)"; cases "raid_markers g ! unat k = None")
    (simp_all add: add_raid_marker_like_cpp_def)

lemma add_marker_error:
  "fst (add_raid_marker_body actor k mapid pos transport g) = Inl e \<Longrightarrow>
     snd (add_raid_marker_body actor k mapid pos transport g) = g"
  using add_marker_False [of k mapid pos transport g]
  by (cases "add_raid_marker_like_cpp k mapid pos transport g")
    (auto simp: add_raid_marker_body_def split: if_splits bool.splits)

text \<open>
  C28: A transition that reports an error leaves the registry and the identifier allocators
  exactly as they were, whichever guard refused it.
\<close>

theorem rejected_transitions_change_nothing:
  "(\<forall>e. fst (remove_member_like_cpp gid member kind connected a) = Inl e \<longrightarrow>
        snd (remove_member_like_cpp gid member kind connected a) = a) \<and>
   (\<forall>e. fst (convert_group_like_cpp gid actor raid a) = Inl e \<longrightarrow>
        snd (convert_group_like_cpp gid actor raid a) = a) \<and>
   (\<forall>e. fst (change_member_subgroup_like_cpp gid actor member k a) = Inl e \<longrightarrow>
        snd (change_member_subgroup_like_cpp gid actor member k a) = a) \<and>
   (\<forall>e. fst (swap_member_subgroups_like_cpp gid actor member second a) = Inl e \<longrightarrow>
        snd (swap_member_subgroups_like_cpp gid actor member second a) = a) \<and>
   (\<forall>e. fst (change_leader_transition_like_cpp gid actor member a) = Inl e \<longrightarrow>
        snd (change_leader_transition_like_cpp gid actor member a) = a) \<and>
   (\<forall>e. fst (set_member_flag_transition_like_cpp gid actor member b flag a) = Inl e \<longrightarrow>
        snd (set_member_flag_transition_like_cpp gid actor member b flag a) = a) \<and>
   (\<forall>e. fst (set_difficulty_transition_like_cpp gid actor d dkind a) = Inl e \<longrightarrow>
        snd (set_difficulty_transition_like_cpp gid actor d dkind a) = a) \<and>
   (\<forall>e. fst (set_target_icon_transition_like_cpp gid actor k member a) = Inl e \<longrightarrow>
        snd (set_target_icon_transition_like_cpp gid actor k member a) = a) \<and>
   (\<forall>e. fst (add_raid_marker_transition_like_cpp gid actor k mapid pos transport a) = Inl e \<longrightarrow>
        snd (add_raid_marker_transition_like_cpp gid actor k mapid pos transport a) = a) \<and>
   (\<forall>e. fst (start_ready_check_transition_like_cpp gid actor connected a) = Inl e \<longrightarrow>
        snd (start_ready_check_transition_like_cpp gid actor connected a) = a) \<and>
   (\<forall>e. fst (respond_ready_check_transition_like_cpp gid member b a) = Inl e \<longrightarrow>
        snd (respond_ready_check_transition_like_cpp gid member b a) = a)"
proof (intro conjI allI impI, goal_cases)
  case (1 e)
  then show ?case
    by (auto simp: remove_member_like_cpp_def Let_def split: option.splits if_splits prod.splits)
next
  case (2 e)
  then show ?case unfolding convert_group_like_cpp_def
    by (rule with_group_error_same [rotated]) (rule convert_body_error)
next
  case (3 e)
  then show ?case unfolding change_member_subgroup_like_cpp_def
    by (rule with_group_error_same [rotated])
      (rule change_subgroup_error)
next
  case (4 e)
  then show ?case unfolding swap_member_subgroups_like_cpp_def
    by (rule with_group_error_same [rotated])
      (rule swap_error)
next
  case (5 e)
  then show ?case unfolding change_leader_transition_like_cpp_def
    by (rule with_group_error_same [rotated])
      (auto simp: change_leader_body_def change_leader_like_cpp_def Let_def split: if_splits prod.splits option.splits)
next
  case (6 e)
  then show ?case unfolding set_member_flag_transition_like_cpp_def
    by (rule with_group_error_same [rotated])
      (rule set_flag_error)
next
  case (7 e)
  then show ?case unfolding set_difficulty_transition_like_cpp_def
    by (rule with_group_error_same [rotated])
      (rule set_difficulty_error)
next
  case (8 e)
  then show ?case unfolding set_target_icon_transition_like_cpp_def
    by (rule with_group_error_same [rotated])
      (rule set_icon_error)
next
  case (9 e)
  then show ?case unfolding add_raid_marker_transition_like_cpp_def
    by (rule with_group_error_same [rotated])
      (rule add_marker_error)
next
  case (10 e)
  then show ?case unfolding start_ready_check_transition_like_cpp_def
    by (rule with_group_error_same [rotated])
      (use start_ready_Nil in \<open>auto simp: start_ready_check_body_def case_prod_beta split: if_splits\<close>)
next
  case (11 e)
  then show ?case unfolding respond_ready_check_transition_like_cpp_def
    by (rule with_group_error_same [rotated])
      (use respond_ready_Nil in \<open>auto simp: respond_ready_check_body_def case_prod_beta split: if_splits\<close>)
qed

theorem rejected_transitions_change_nothing_witness:
  "snd (convert_group_like_cpp 1 gB True (fst (run_group_ops sample_party group_start))) =
     fst (run_group_ops sample_party group_start)"
proof -
  let ?a = "fst (run_group_ops sample_party group_start)"
  have e: "fst (convert_group_like_cpp 1 gB True ?a) = Inl NotLeader"
    by (simp add: sample_party_def group_eval)
  from rejected_transitions_change_nothing [of 1 gA Leave "[]" ?a gB True] e show ?thesis by blast
qed

end
