(* ===== verification/GroupDatabase.thy ===== *)
theory GroupDatabase
  imports GroupInvites "HOL-Library.Monad_Syntax"
begin

text \<open>
  How group changes reach the characters database and come back at start-up: the mapping of
  persistence intents to commands (\<open>crates/wow-world/src/handlers/group/state.rs\<close>), the
  commands (\<open>crates/wow-persistence/src/group.rs\<close>), their prepared statements and the start-up
  queries (\<open>crates/wow-database\<close>: \<open>represented_group_persistence_adapter.rs\<close>, \<open>params.rs\<close>,
  \<open>statements/character/statement_def.rs\<close>), and the loading of all groups
  (\<open>crates/world-server/src/runtime/map.rs\<close>).

  The tables are lists of rows.  A statement is the SQL text of its identity with bound
  parameters; executing it is what that text says of the tables, \<open>None\<close> a duplicate primary
  key or a parameter of the wrong kind.  What the driver returns for a column read at another
  width is the parameter \<open>read_u8\<close>, and the order the server gives rows that the
  \<open>ORDER BY\<close> clause leaves unordered the parameter \<open>order\<close>.
\<close>

section \<open>Commands\<close>

datatype RepresentedGroupDifficultyKindLikeCpp = KindDungeon | KindRaid | KindLegacyRaid

datatype RepresentedGroupPersistenceCommandLikeCpp =
    CmdInsertGroup u32 u64 u8 u64 u8 u16 u32 u32 u32 u64
  | CmdInsertMember u32 u64 u8 u8 u8
  | CmdDeleteGroup u32
  | CmdDeleteAllMembers u32
  | CmdDeleteLfgData u32
  | CmdDeleteMember u64
  | CmdUpdateLeader u32 u64
  | CmdUpdateGroupType u32 u16
  | CmdUpdateMemberSubgroup u64 u8
  | CmdUpdateMemberFlags u64 u8
  | CmdUpdateDifficulty u32 RepresentedGroupDifficultyKindLikeCpp u32

text \<open>GUIDs are stored as their counters, \<open>counter() as u64\<close>.\<close>

fun group_persistence_command_like_cpp ::
  "GroupPersistenceIntentLikeCpp \<Rightarrow> RepresentedGroupPersistenceCommandLikeCpp" where
  "group_persistence_command_like_cpp (InsertGroup sid leader lmethod looter threshold flags dd rd ld master) =
     CmdInsertGroup sid (guid_counter leader) lmethod (guid_counter looter) threshold flags dd rd ld
       (guid_counter master)"
| "group_persistence_command_like_cpp (InsertMember sid member flags subgroup roles) =
     CmdInsertMember sid (guid_counter member) flags subgroup roles"
| "group_persistence_command_like_cpp (DeleteGroup sid) = CmdDeleteGroup sid"
| "group_persistence_command_like_cpp (DeleteAllMembers sid) = CmdDeleteAllMembers sid"
| "group_persistence_command_like_cpp (DeleteLfgData sid) = CmdDeleteLfgData sid"
| "group_persistence_command_like_cpp (DeleteMember member) = CmdDeleteMember (guid_counter member)"
| "group_persistence_command_like_cpp (UpdateLeader sid leader) = CmdUpdateLeader sid (guid_counter leader)"
| "group_persistence_command_like_cpp (UpdateGroupType sid flags) = CmdUpdateGroupType sid flags"
| "group_persistence_command_like_cpp (UpdateMemberSubgroup member subgroup) =
     CmdUpdateMemberSubgroup (guid_counter member) subgroup"
| "group_persistence_command_like_cpp (UpdateMemberFlags member flags) =
     CmdUpdateMemberFlags (guid_counter member) flags"
| "group_persistence_command_like_cpp (UpdateDifficulty sid kind difficulty) =
     CmdUpdateDifficulty sid
       (case kind of DiffDungeon \<Rightarrow> KindDungeon | DiffRaid \<Rightarrow> KindRaid | DiffLegacyRaid \<Rightarrow> KindLegacyRaid)
       difficulty"

section \<open>Prepared statements\<close>

datatype SqlParam =
    SqlNull | SqlBool bool | SqlI8 i8 | SqlU8 u8 | SqlI16 i16 | SqlU16 u16 | SqlI32 i32 | SqlU32 u32 |
    SqlI64 i64 | SqlU64 u64 | SqlF32 u32 | SqlF64 u64 | SqlString string | SqlBytes "u8 list"

text \<open>The statement identities the group code prepares, out of those of the whole database.\<close>

datatype CharStatements =
    INS_GROUP | INS_GROUP_MEMBER | DEL_GROUP | DEL_GROUP_MEMBER_ALL | DEL_LFG_DATA | DEL_GROUP_MEMBER |
    UPD_GROUP_LEADER | UPD_GROUP_TYPE | UPD_GROUP_MEMBER_SUBGROUP | UPD_GROUP_MEMBER_FLAG |
    UPD_GROUP_DIFFICULTY | UPD_GROUP_RAID_DIFFICULTY | UPD_GROUP_LEGACY_RAID_DIFFICULTY |
    DEL_GROUP_MEMBERS_WITHOUT_CHARACTER | DEL_GROUPS_WITHOUT_LEADER |
    DEL_GROUPS_WITH_FEWER_THAN_TWO_MEMBERS | DEL_GROUP_MEMBERS_WITHOUT_GROUP

fun sql :: "CharStatements \<Rightarrow> string" where
  "sql UPD_GROUP_TYPE = ''UPDATE `groups` SET groupType = ? WHERE guid = ?''"
| "sql UPD_GROUP_LEADER = ''UPDATE `groups` SET leaderGuid = ? WHERE guid = ?''"
| "sql INS_GROUP =
     ''INSERT INTO `groups` (guid, leaderGuid, lootMethod, looterGuid, lootThreshold, icon1, icon2, icon3, icon4, icon5, icon6, icon7, icon8, groupType, difficulty, raidDifficulty, legacyRaidDifficulty, masterLooterGuid) VALUES (?, ?, ?, ?, ?, ?, ?, ?, ?, ?, ?, ?, ?, ?, ?, ?, ?, ?)''"
| "sql INS_GROUP_MEMBER =
     ''INSERT INTO group_member (guid, memberGuid, memberFlags, subgroup, roles) VALUES(?, ?, ?, ?, ?)''"
| "sql UPD_GROUP_MEMBER_SUBGROUP = ''UPDATE group_member SET subgroup = ? WHERE memberGuid = ?''"
| "sql UPD_GROUP_MEMBER_FLAG = ''UPDATE group_member SET memberFlags = ? WHERE memberGuid = ?''"
| "sql UPD_GROUP_DIFFICULTY = ''UPDATE `groups` SET difficulty = ? WHERE guid = ?''"
| "sql UPD_GROUP_RAID_DIFFICULTY = ''UPDATE `groups` SET raidDifficulty = ? WHERE guid = ?''"
| "sql UPD_GROUP_LEGACY_RAID_DIFFICULTY = ''UPDATE `groups` SET legacyRaidDifficulty = ? WHERE guid = ?''"
| "sql DEL_GROUP_MEMBER = ''DELETE FROM group_member WHERE memberGuid = ?''"
| "sql DEL_GROUP = ''DELETE FROM `groups` WHERE guid = ?''"
| "sql DEL_GROUP_MEMBER_ALL = ''DELETE FROM group_member WHERE guid = ?''"
| "sql DEL_LFG_DATA = ''DELETE FROM lfg_data WHERE guid = ?''"
| "sql DEL_GROUP_MEMBERS_WITHOUT_CHARACTER =
     ''DELETE FROM group_member WHERE memberGuid NOT IN (SELECT guid FROM characters)''"
| "sql DEL_GROUPS_WITHOUT_LEADER =
     ''DELETE FROM `groups` WHERE leaderGuid NOT IN (SELECT guid FROM characters)''"
| "sql DEL_GROUPS_WITH_FEWER_THAN_TWO_MEMBERS =
     ''DELETE FROM `groups` WHERE guid NOT IN (SELECT guid FROM group_member GROUP BY guid HAVING COUNT(guid) > 1)''"
| "sql DEL_GROUP_MEMBERS_WITHOUT_GROUP =
     ''DELETE FROM group_member WHERE guid NOT IN (SELECT guid FROM `groups`)''"

text \<open>Statement types are the instances of \<open>StatementDef\<close>; \<open>sql_of\<close> is its \<open>sql\<close> method.\<close>

record 'st PreparedStatement =
  ps_statement :: 'st
  ps_params :: "SqlParam list"

definition with_capacity_like_cpp :: "'st \<Rightarrow> nat \<Rightarrow> 'st PreparedStatement" where
  "with_capacity_like_cpp st capacity =
     \<lparr>ps_statement = st, ps_params = replicate capacity (SqlBool False)\<rparr>"

definition for_statement :: "('st \<Rightarrow> string) \<Rightarrow> 'st \<Rightarrow> 'st PreparedStatement" where
  "for_statement sql_of st = with_capacity_like_cpp st (length (filter (\<lambda>c. c = CHR ''?'') (sql_of st)))"

text \<open>The setters; \<open>None\<close> is the failed assertion of \<open>ensure_capacity\<close>.\<close>

definition ensure_capacity :: "nat \<Rightarrow> 'st PreparedStatement \<Rightarrow> unit option" where
  "ensure_capacity index s = (if index < length (ps_params s) then Some () else None)"

definition bind_param :: "SqlParam \<Rightarrow> nat \<Rightarrow> 'st PreparedStatement \<Rightarrow> 'st PreparedStatement option" where
  "bind_param p index s =
     do { ensure_capacity index s; Some (s\<lparr>ps_params := (ps_params s)[index := p]\<rparr>) }"

definition set_u8 :: "nat \<Rightarrow> u8 \<Rightarrow> 'st PreparedStatement \<Rightarrow> 'st PreparedStatement option" where
  "set_u8 index v = bind_param (SqlU8 v) index"

definition set_u16 :: "nat \<Rightarrow> u16 \<Rightarrow> 'st PreparedStatement \<Rightarrow> 'st PreparedStatement option" where
  "set_u16 index v = bind_param (SqlU16 v) index"

definition set_u32 :: "nat \<Rightarrow> u32 \<Rightarrow> 'st PreparedStatement \<Rightarrow> 'st PreparedStatement option" where
  "set_u32 index v = bind_param (SqlU32 v) index"

definition set_u64 :: "nat \<Rightarrow> u64 \<Rightarrow> 'st PreparedStatement \<Rightarrow> 'st PreparedStatement option" where
  "set_u64 index v = bind_param (SqlU64 v) index"

definition set_string :: "nat \<Rightarrow> string \<Rightarrow> 'st PreparedStatement \<Rightarrow> 'st PreparedStatement option" where
  "set_string index v = bind_param (SqlString v) index"

definition set_bytes :: "nat \<Rightarrow> u8 list \<Rightarrow> 'st PreparedStatement \<Rightarrow> 'st PreparedStatement option" where
  "set_bytes index v = bind_param (SqlBytes v) index"

lemma bind_param_Some:
  "index < length (ps_params s) \<Longrightarrow> bind_param p index s = Some (s\<lparr>ps_params := (ps_params s)[index := p]\<rparr>)"
  by (simp add: bind_param_def ensure_capacity_def)

lemmas setter_defs = set_u8_def set_u16_def set_u32_def set_u64_def set_string_def set_bytes_def

fun set_icons :: "nat list \<Rightarrow> 'st PreparedStatement \<Rightarrow> 'st PreparedStatement option" where
  "set_icons [] s = Some s"
| "set_icons (index # rest) s = do { s \<leftarrow> set_bytes (5 + index) (replicate 16 0) s; set_icons rest s }"

fun difficulty_statement :: "RepresentedGroupDifficultyKindLikeCpp \<Rightarrow> CharStatements" where
  "difficulty_statement KindDungeon = UPD_GROUP_DIFFICULTY"
| "difficulty_statement KindRaid = UPD_GROUP_RAID_DIFFICULTY"
| "difficulty_statement KindLegacyRaid = UPD_GROUP_LEGACY_RAID_DIFFICULTY"

fun represented_group_statement_like_cpp ::
  "RepresentedGroupPersistenceCommandLikeCpp \<Rightarrow> CharStatements PreparedStatement option" where
  "represented_group_statement_like_cpp
     (CmdInsertGroup sid leader lmethod looter threshold flags dd rd ld master) =
     do { s \<leftarrow> set_u32 0 sid (for_statement sql INS_GROUP); s \<leftarrow> set_u64 1 leader s; s \<leftarrow> set_u8 2 lmethod s;
          s \<leftarrow> set_u64 3 looter s; s \<leftarrow> set_u8 4 threshold s; s \<leftarrow> set_icons [0..<8] s;
          s \<leftarrow> set_u16 13 flags s; s \<leftarrow> set_u32 14 dd s; s \<leftarrow> set_u32 15 rd s; s \<leftarrow> set_u32 16 ld s;
          set_u64 17 master s }"
| "represented_group_statement_like_cpp (CmdInsertMember sid member flags subgroup roles) =
     do { s \<leftarrow> set_u32 0 sid (for_statement sql INS_GROUP_MEMBER); s \<leftarrow> set_u64 1 member s;
          s \<leftarrow> set_u8 2 flags s; s \<leftarrow> set_u8 3 subgroup s; set_u8 4 roles s }"
| "represented_group_statement_like_cpp (CmdDeleteGroup sid) = set_u32 0 sid (for_statement sql DEL_GROUP)"
| "represented_group_statement_like_cpp (CmdDeleteAllMembers sid) =
     set_u32 0 sid (for_statement sql DEL_GROUP_MEMBER_ALL)"
| "represented_group_statement_like_cpp (CmdDeleteLfgData sid) = set_u32 0 sid (for_statement sql DEL_LFG_DATA)"
| "represented_group_statement_like_cpp (CmdDeleteMember member) =
     set_u64 0 member (for_statement sql DEL_GROUP_MEMBER)"
| "represented_group_statement_like_cpp (CmdUpdateLeader sid leader) =
     do { s \<leftarrow> set_u64 0 leader (for_statement sql UPD_GROUP_LEADER); set_u32 1 sid s }"
| "represented_group_statement_like_cpp (CmdUpdateGroupType sid flags) =
     do { s \<leftarrow> set_u16 0 flags (for_statement sql UPD_GROUP_TYPE); set_u32 1 sid s }"
| "represented_group_statement_like_cpp (CmdUpdateMemberSubgroup member subgroup) =
     do { s \<leftarrow> set_u8 0 subgroup (for_statement sql UPD_GROUP_MEMBER_SUBGROUP); set_u64 1 member s }"
| "represented_group_statement_like_cpp (CmdUpdateMemberFlags member flags) =
     do { s \<leftarrow> set_u8 0 flags (for_statement sql UPD_GROUP_MEMBER_FLAG); set_u64 1 member s }"
| "represented_group_statement_like_cpp (CmdUpdateDifficulty sid kind difficulty) =
     do { s \<leftarrow> set_u32 0 difficulty (for_statement sql (difficulty_statement kind)); set_u32 1 sid s }"

section \<open>Tables and statements\<close>

record GroupsTableRow =
  t_guid :: u32
  t_leaderGuid :: u64
  t_lootMethod :: u8
  t_looterGuid :: u64
  t_lootThreshold :: u8
  t_icons :: "u8 list list"
  t_groupType :: u16
  t_difficulty :: u32
  t_raidDifficulty :: u32
  t_legacyRaidDifficulty :: u32
  t_masterLooterGuid :: u64

record GroupMemberTableRow =
  t_group :: u32
  t_memberGuid :: u64
  t_memberFlags :: u8
  t_subgroup :: u8
  t_roles :: u8

record CharacterTables =
  tbl_groups :: "GroupsTableRow list"
  tbl_members :: "GroupMemberTableRow list"
  tbl_lfg :: "(u32 \<times> u32 \<times> u8) list"
  tbl_characters :: "(u64 \<times> GroupMemberCharacterLikeCpp) list"

fun as_u8 :: "SqlParam \<Rightarrow> u8 option" where "as_u8 (SqlU8 v) = Some v" | "as_u8 _ = None"
fun as_u16 :: "SqlParam \<Rightarrow> u16 option" where "as_u16 (SqlU16 v) = Some v" | "as_u16 _ = None"
fun as_u32 :: "SqlParam \<Rightarrow> u32 option" where "as_u32 (SqlU32 v) = Some v" | "as_u32 _ = None"
fun as_u64 :: "SqlParam \<Rightarrow> u64 option" where "as_u64 (SqlU64 v) = Some v" | "as_u64 _ = None"
fun as_bytes :: "SqlParam \<Rightarrow> u8 list option" where "as_bytes (SqlBytes v) = Some v" | "as_bytes _ = None"

fun as_icons :: "SqlParam list \<Rightarrow> u8 list list option" where
  "as_icons [] = Some []"
| "as_icons (p # ps) = do { b \<leftarrow> as_bytes p; bs \<leftarrow> as_icons ps; Some (b # bs) }"

definition update_groups ::
  "u32 \<Rightarrow> (GroupsTableRow \<Rightarrow> GroupsTableRow) \<Rightarrow> CharacterTables \<Rightarrow> CharacterTables" where
  "update_groups sid f db =
     db\<lparr>tbl_groups := map (\<lambda>row. if t_guid row = sid then f row else row) (tbl_groups db)\<rparr>"

definition update_members ::
  "u64 \<Rightarrow> (GroupMemberTableRow \<Rightarrow> GroupMemberTableRow) \<Rightarrow> CharacterTables \<Rightarrow> CharacterTables" where
  "update_members member f db =
     db\<lparr>tbl_members := map (\<lambda>row. if t_memberGuid row = member then f row else row) (tbl_members db)\<rparr>"

definition insert_group_row :: "GroupsTableRow \<Rightarrow> CharacterTables \<Rightarrow> CharacterTables option" where
  "insert_group_row row db =
     (if t_guid row \<in> t_guid ` set (tbl_groups db) then None
      else Some (db\<lparr>tbl_groups := tbl_groups db @ [row]\<rparr>))"

definition insert_member_row :: "GroupMemberTableRow \<Rightarrow> CharacterTables \<Rightarrow> CharacterTables option" where
  "insert_member_row row db =
     (if t_memberGuid row \<in> t_memberGuid ` set (tbl_members db) then None
      else Some (db\<lparr>tbl_members := tbl_members db @ [row]\<rparr>))"

definition members_in_group :: "u32 \<Rightarrow> CharacterTables \<Rightarrow> GroupMemberTableRow list" where
  "members_in_group sid db = filter (\<lambda>row. t_group row = sid) (tbl_members db)"

fun execute :: "CharStatements \<Rightarrow> SqlParam list \<Rightarrow> CharacterTables \<Rightarrow> CharacterTables option" where
  "execute INS_GROUP ps db =
     do { sid \<leftarrow> as_u32 (ps ! 0); leader \<leftarrow> as_u64 (ps ! 1); lmethod \<leftarrow> as_u8 (ps ! 2);
          looter \<leftarrow> as_u64 (ps ! 3); threshold \<leftarrow> as_u8 (ps ! 4); icons \<leftarrow> as_icons (take 8 (drop 5 ps));
          gtype \<leftarrow> as_u16 (ps ! 13); dd \<leftarrow> as_u32 (ps ! 14); rd \<leftarrow> as_u32 (ps ! 15);
          ld \<leftarrow> as_u32 (ps ! 16); master \<leftarrow> as_u64 (ps ! 17);
          insert_group_row \<lparr>t_guid = sid, t_leaderGuid = leader, t_lootMethod = lmethod,
            t_looterGuid = looter, t_lootThreshold = threshold, t_icons = icons, t_groupType = gtype,
            t_difficulty = dd, t_raidDifficulty = rd, t_legacyRaidDifficulty = ld,
            t_masterLooterGuid = master\<rparr> db }"
| "execute INS_GROUP_MEMBER ps db =
     do { sid \<leftarrow> as_u32 (ps ! 0); member \<leftarrow> as_u64 (ps ! 1); flags \<leftarrow> as_u8 (ps ! 2);
          subgroup \<leftarrow> as_u8 (ps ! 3); roles \<leftarrow> as_u8 (ps ! 4);
          insert_member_row \<lparr>t_group = sid, t_memberGuid = member, t_memberFlags = flags,
            t_subgroup = subgroup, t_roles = roles\<rparr> db }"
| "execute DEL_GROUP ps db =
     do { sid \<leftarrow> as_u32 (ps ! 0);
          Some (db\<lparr>tbl_groups := filter (\<lambda>row. t_guid row \<noteq> sid) (tbl_groups db)\<rparr>) }"
| "execute DEL_GROUP_MEMBER_ALL ps db =
     do { sid \<leftarrow> as_u32 (ps ! 0);
          Some (db\<lparr>tbl_members := filter (\<lambda>row. t_group row \<noteq> sid) (tbl_members db)\<rparr>) }"
| "execute DEL_LFG_DATA ps db =
     do { sid \<leftarrow> as_u32 (ps ! 0); Some (db\<lparr>tbl_lfg := filter (\<lambda>(guid, _). guid \<noteq> sid) (tbl_lfg db)\<rparr>) }"
| "execute DEL_GROUP_MEMBER ps db =
     do { member \<leftarrow> as_u64 (ps ! 0);
          Some (db\<lparr>tbl_members := filter (\<lambda>row. t_memberGuid row \<noteq> member) (tbl_members db)\<rparr>) }"
| "execute UPD_GROUP_LEADER ps db =
     do { leader \<leftarrow> as_u64 (ps ! 0); sid \<leftarrow> as_u32 (ps ! 1);
          Some (update_groups sid (\<lambda>row. row\<lparr>t_leaderGuid := leader\<rparr>) db) }"
| "execute UPD_GROUP_TYPE ps db =
     do { gtype \<leftarrow> as_u16 (ps ! 0); sid \<leftarrow> as_u32 (ps ! 1);
          Some (update_groups sid (\<lambda>row. row\<lparr>t_groupType := gtype\<rparr>) db) }"
| "execute UPD_GROUP_MEMBER_SUBGROUP ps db =
     do { subgroup \<leftarrow> as_u8 (ps ! 0); member \<leftarrow> as_u64 (ps ! 1);
          Some (update_members member (\<lambda>row. row\<lparr>t_subgroup := subgroup\<rparr>) db) }"
| "execute UPD_GROUP_MEMBER_FLAG ps db =
     do { flags \<leftarrow> as_u8 (ps ! 0); member \<leftarrow> as_u64 (ps ! 1);
          Some (update_members member (\<lambda>row. row\<lparr>t_memberFlags := flags\<rparr>) db) }"
| "execute UPD_GROUP_DIFFICULTY ps db =
     do { d \<leftarrow> as_u32 (ps ! 0); sid \<leftarrow> as_u32 (ps ! 1);
          Some (update_groups sid (\<lambda>row. row\<lparr>t_difficulty := d\<rparr>) db) }"
| "execute UPD_GROUP_RAID_DIFFICULTY ps db =
     do { d \<leftarrow> as_u32 (ps ! 0); sid \<leftarrow> as_u32 (ps ! 1);
          Some (update_groups sid (\<lambda>row. row\<lparr>t_raidDifficulty := d\<rparr>) db) }"
| "execute UPD_GROUP_LEGACY_RAID_DIFFICULTY ps db =
     do { d \<leftarrow> as_u32 (ps ! 0); sid \<leftarrow> as_u32 (ps ! 1);
          Some (update_groups sid (\<lambda>row. row\<lparr>t_legacyRaidDifficulty := d\<rparr>) db) }"
| "execute DEL_GROUP_MEMBERS_WITHOUT_CHARACTER ps db =
     Some (db\<lparr>tbl_members := filter (\<lambda>row. t_memberGuid row \<in> fst ` set (tbl_characters db)) (tbl_members db)\<rparr>)"
| "execute DEL_GROUPS_WITHOUT_LEADER ps db =
     Some (db\<lparr>tbl_groups := filter (\<lambda>row. t_leaderGuid row \<in> fst ` set (tbl_characters db)) (tbl_groups db)\<rparr>)"
| "execute DEL_GROUPS_WITH_FEWER_THAN_TWO_MEMBERS ps db =
     Some (db\<lparr>tbl_groups := filter (\<lambda>row. length (members_in_group (t_guid row) db) > 1) (tbl_groups db)\<rparr>)"
| "execute DEL_GROUP_MEMBERS_WITHOUT_GROUP ps db =
     Some (db\<lparr>tbl_members := filter (\<lambda>row. t_group row \<in> t_guid ` set (tbl_groups db)) (tbl_members db)\<rparr>)"

section \<open>Executing a request\<close>

datatype RepresentedGroupPersistenceModeLikeCpp = Sequential | Atomic

record RepresentedGroupPersistenceRequestLikeCpp =
  request_commands :: "RepresentedGroupPersistenceCommandLikeCpp list"
  request_mode :: RepresentedGroupPersistenceModeLikeCpp

datatype RepresentedGroupPersistenceOutcomeLikeCpp =
  Applied nat | FailedAfterPrefix nat | DefinitelyRolledBack | CommitOutcomeUnknown nat

datatype SqlTransactionCommitResult = CommitDone | CommitDefinitelyRolledBack | CommitUnknown

text \<open>
  The connection is a parameter: \<open>run\<close> executes one statement, \<open>None\<close> when the server reports
  an error, which leaves the data as it was; \<open>commit\<close> is
  \<open>SqlTransaction::commit_with_outcome_like_cpp\<close>.  \<open>None\<close> as a whole is a panic while the
  statements are built.
\<close>

fun persist_sequential ::
  "(CharStatements PreparedStatement \<Rightarrow> 'db \<Rightarrow> 'db option) \<Rightarrow> nat \<Rightarrow> RepresentedGroupPersistenceCommandLikeCpp list \<Rightarrow> 'db
     \<Rightarrow> (RepresentedGroupPersistenceOutcomeLikeCpp \<times> 'db) option" where
  "persist_sequential run applied [] db = Some (Applied applied, db)"
| "persist_sequential run applied (command # commands) db =
     do { s \<leftarrow> represented_group_statement_like_cpp command;
          (case run s db of
             None \<Rightarrow> Some (FailedAfterPrefix applied, db)
           | Some db' \<Rightarrow> persist_sequential run (applied + 1) commands db') }"

fun append_statements ::
  "RepresentedGroupPersistenceCommandLikeCpp list \<Rightarrow> CharStatements PreparedStatement list option" where
  "append_statements [] = Some []"
| "append_statements (command # commands) =
     do { s \<leftarrow> represented_group_statement_like_cpp command; ss \<leftarrow> append_statements commands; Some (s # ss) }"

definition persist_group_commands_like_cpp ::
  "(CharStatements PreparedStatement \<Rightarrow> 'db \<Rightarrow> 'db option) \<Rightarrow>
   (CharStatements PreparedStatement list \<Rightarrow> 'db \<Rightarrow> SqlTransactionCommitResult \<times> 'db) \<Rightarrow>
   RepresentedGroupPersistenceRequestLikeCpp \<Rightarrow> 'db
     \<Rightarrow> (RepresentedGroupPersistenceOutcomeLikeCpp \<times> 'db) option" where
  "persist_group_commands_like_cpp run commit request db =
     (let command_count = length (request_commands request)
      in case request_mode request of
           Sequential \<Rightarrow> persist_sequential run 0 (request_commands request) db
         | Atomic \<Rightarrow>
             do { ss \<leftarrow> append_statements (request_commands request);
                  (case commit ss db of
                     (CommitDone, db') \<Rightarrow> Some (Applied command_count, db')
                   | (CommitDefinitelyRolledBack, db') \<Rightarrow> Some (DefinitelyRolledBack, db')
                   | (CommitUnknown, db') \<Rightarrow> Some (CommitOutcomeUnknown command_count, db')) })"

definition execute_statement :: "CharStatements PreparedStatement \<Rightarrow> CharacterTables \<Rightarrow> CharacterTables option" where
  "execute_statement s db = execute (ps_statement s) (ps_params s) db"

text \<open>
  What a session does with the intents of a transition.  The outcome is only logged.  The port
  is present in a running server.
\<close>

definition persist_group_intents_like_cpp ::
  "(CharStatements PreparedStatement \<Rightarrow> 'db \<Rightarrow> 'db option) \<Rightarrow>
   (CharStatements PreparedStatement list \<Rightarrow> 'db \<Rightarrow> SqlTransactionCommitResult \<times> 'db) \<Rightarrow>
   GroupPersistenceIntentLikeCpp list \<Rightarrow> 'db
     \<Rightarrow> (RepresentedGroupPersistenceOutcomeLikeCpp \<times> 'db) option" where
  "persist_group_intents_like_cpp run commit intents db =
     persist_group_commands_like_cpp run commit
       \<lparr>request_commands = map group_persistence_command_like_cpp intents, request_mode = Sequential\<rparr> db"

section \<open>Start-up\<close>

record RepresentedGroupStartupCharacterLikeCpp =
  startup_guid :: u64
  startup_name :: string
  startup_race :: u8
  startup_class :: u8

record RepresentedGroupStartupGroupRowLikeCpp =
  startup_leader_guid_low :: u64
  startup_loot_method :: u8
  startup_looter_guid_low :: u64
  startup_loot_threshold :: u8
  startup_target_icons :: "u8 list list"
  startup_group_flags :: u16
  startup_dungeon_difficulty_id :: u32
  startup_raid_difficulty_id :: u32
  startup_legacy_raid_difficulty_id :: u32
  startup_master_looter_guid_low :: u64
  startup_db_store_id :: u32
  startup_lfg_dungeon_id :: "u32 option"
  startup_lfg_state :: "u8 option"

record RepresentedGroupStartupMemberRowLikeCpp =
  startup_member_db_store_id :: u32
  startup_member_guid_low :: u64
  startup_member_flags :: u8
  startup_subgroup :: u8
  startup_roles :: u8

datatype RepresentedGroupStartupLoadStageLikeCpp =
    DeleteMembersWithoutCharacter | DeleteGroupsWithoutLeader | DeleteGroupsWithFewerThanTwoMembers |
    DeleteMembersWithoutGroup | CharacterCache | Groups | Members

datatype RepresentedGroupStartupLoadOutcomeLikeCpp =
    Loaded "RepresentedGroupStartupCharacterLikeCpp list" "RepresentedGroupStartupGroupRowLikeCpp list"
      "RepresentedGroupStartupMemberRowLikeCpp list"
  | LoadFailed RepresentedGroupStartupLoadStageLikeCpp

fun represented_group_startup_cleanup_statement_like_cpp ::
  "RepresentedGroupStartupLoadStageLikeCpp \<Rightarrow> CharStatements PreparedStatement option" where
  "represented_group_startup_cleanup_statement_like_cpp DeleteMembersWithoutCharacter =
     Some (for_statement sql DEL_GROUP_MEMBERS_WITHOUT_CHARACTER)"
| "represented_group_startup_cleanup_statement_like_cpp DeleteGroupsWithoutLeader =
     Some (for_statement sql DEL_GROUPS_WITHOUT_LEADER)"
| "represented_group_startup_cleanup_statement_like_cpp DeleteGroupsWithFewerThanTwoMembers =
     Some (for_statement sql DEL_GROUPS_WITH_FEWER_THAN_TWO_MEMBERS)"
| "represented_group_startup_cleanup_statement_like_cpp DeleteMembersWithoutGroup =
     Some (for_statement sql DEL_GROUP_MEMBERS_WITHOUT_GROUP)"
| "represented_group_startup_cleanup_statement_like_cpp CharacterCache = None"
| "represented_group_startup_cleanup_statement_like_cpp Groups = None"
| "represented_group_startup_cleanup_statement_like_cpp Members = None"

text \<open>The cleanup loop, with the stage that failed; \<open>None\<close> is the \<open>expect\<close> of a stage without a
  statement.\<close>

fun startup_cleanup ::
  "RepresentedGroupStartupLoadStageLikeCpp list \<Rightarrow> CharacterTables
     \<Rightarrow> (RepresentedGroupStartupLoadStageLikeCpp option \<times> CharacterTables) option" where
  "startup_cleanup [] db = Some (None, db)"
| "startup_cleanup (stage # stages) db =
     do { s \<leftarrow> represented_group_startup_cleanup_statement_like_cpp stage;
          (case execute_statement s db of
             None \<Rightarrow> Some (Some stage, db)
           | Some db' \<Rightarrow> startup_cleanup stages db') }"

definition represented_group_target_icon_from_db_like_cpp :: "u8 list \<Rightarrow> u8 list" where
  "represented_group_target_icon_from_db_like_cpp bytes =
     (let icon = replicate 16 0; copy_len = min (length bytes) (length icon)
      in take copy_len bytes @ drop copy_len icon)"

text \<open>
  The three queries.  The group query joins the LFG row of the group, if any; a null LFG
  column is a group without such a row.
\<close>

definition select_character_cache :: "CharacterTables \<Rightarrow> RepresentedGroupStartupCharacterLikeCpp list" where
  "select_character_cache db =
     map (\<lambda>(guid, c). \<lparr>startup_guid = guid, startup_name = character_name c,
                        startup_race = character_race c, startup_class = character_class c\<rparr>)
       (filter (\<lambda>(guid, _). guid \<in> t_leaderGuid ` set (tbl_groups db) \<union> t_memberGuid ` set (tbl_members db))
         (tbl_characters db))"

definition startup_group_row ::
  "(u32 \<Rightarrow> u8 option) \<Rightarrow> GroupsTableRow \<Rightarrow> (u32 \<times> u8) option \<Rightarrow> RepresentedGroupStartupGroupRowLikeCpp" where
  "startup_group_row read_u8 row lfg =
     \<lparr>startup_leader_guid_low = t_leaderGuid row, startup_loot_method = t_lootMethod row,
      startup_looter_guid_low = t_looterGuid row, startup_loot_threshold = t_lootThreshold row,
      startup_target_icons = map represented_group_target_icon_from_db_like_cpp (t_icons row),
      startup_group_flags = t_groupType row,
      startup_dungeon_difficulty_id = (case read_u8 (t_difficulty row) of None \<Rightarrow> 0 | Some d \<Rightarrow> ucast d),
      startup_raid_difficulty_id = (case read_u8 (t_raidDifficulty row) of None \<Rightarrow> 0 | Some d \<Rightarrow> ucast d),
      startup_legacy_raid_difficulty_id =
        (case read_u8 (t_legacyRaidDifficulty row) of None \<Rightarrow> 0 | Some d \<Rightarrow> ucast d),
      startup_master_looter_guid_low = t_masterLooterGuid row, startup_db_store_id = t_guid row,
      startup_lfg_dungeon_id = map_option fst lfg, startup_lfg_state = map_option snd lfg\<rparr>"

definition select_groups ::
  "(u32 \<Rightarrow> u8 option) \<Rightarrow> CharacterTables \<Rightarrow> RepresentedGroupStartupGroupRowLikeCpp list" where
  "select_groups read_u8 db =
     map (\<lambda>row. startup_group_row read_u8 row (map_of (tbl_lfg db) (t_guid row)))
       (sort_key t_guid (tbl_groups db))"

definition select_group_members ::
  "(GroupMemberTableRow list \<Rightarrow> GroupMemberTableRow list) \<Rightarrow> CharacterTables
     \<Rightarrow> RepresentedGroupStartupMemberRowLikeCpp list" where
  "select_group_members order db =
     map (\<lambda>row. \<lparr>startup_member_db_store_id = t_group row, startup_member_guid_low = t_memberGuid row,
                 startup_member_flags = t_memberFlags row, startup_subgroup = t_subgroup row,
                 startup_roles = t_roles row\<rparr>)
       (order (tbl_members db))"

definition load_represented_groups_like_cpp ::
  "(u32 \<Rightarrow> u8 option) \<Rightarrow> (GroupMemberTableRow list \<Rightarrow> GroupMemberTableRow list) \<Rightarrow> CharacterTables
     \<Rightarrow> (RepresentedGroupStartupLoadOutcomeLikeCpp \<times> CharacterTables) option" where
  "load_represented_groups_like_cpp read_u8 order db =
     do { (failed, db') \<leftarrow> startup_cleanup [DeleteMembersWithoutCharacter, DeleteGroupsWithoutLeader,
                        DeleteGroupsWithFewerThanTwoMembers, DeleteMembersWithoutGroup] db;
          (case failed of
             Some stage \<Rightarrow> Some (LoadFailed stage, db')
           | None \<Rightarrow> Some (Loaded (select_character_cache db') (select_groups read_u8 db')
                               (select_group_members order db'), db')) }"

section \<open>Loading the registry\<close>

definition startup_character_cache ::
  "RepresentedGroupStartupCharacterLikeCpp list \<Rightarrow> (u64 \<times> GroupMemberCharacterLikeCpp) list" where
  "startup_character_cache characters =
     fold (\<lambda>c. bt_insert (startup_guid c) \<lparr>character_name = startup_name c,
             character_race = startup_race c, character_class = startup_class c\<rparr>)
       (filter (\<lambda>c. startup_guid c \<noteq> 0) characters) []"

definition db_row_from_startup :: "RepresentedGroupStartupGroupRowLikeCpp \<Rightarrow> GroupDbRowLikeCpp" where
  "db_row_from_startup row =
     \<lparr>row_leader_guid_low = startup_leader_guid_low row, row_loot_method = startup_loot_method row,
      row_looter_guid_low = startup_looter_guid_low row, row_loot_threshold = startup_loot_threshold row,
      row_target_icons = startup_target_icons row, row_group_flags = startup_group_flags row,
      row_dungeon_difficulty_id = startup_dungeon_difficulty_id row,
      row_raid_difficulty_id = startup_raid_difficulty_id row,
      row_legacy_raid_difficulty_id = startup_legacy_raid_difficulty_id row,
      row_master_looter_guid_low = startup_master_looter_guid_low row,
      row_db_store_id = startup_db_store_id row, row_lfg_dungeon_id = startup_lfg_dungeon_id row,
      row_lfg_state = startup_lfg_state row\<rparr>"

definition db_member_from_startup :: "RepresentedGroupStartupMemberRowLikeCpp \<Rightarrow> GroupMemberDbRowLikeCpp" where
  "db_member_from_startup row =
     \<lparr>mrow_db_store_id = startup_member_db_store_id row, mrow_member_guid_low = startup_member_guid_low row,
      mrow_member_flags = startup_member_flags row, mrow_subgroup = startup_subgroup row,
      mrow_roles = startup_roles row\<rparr>"

text \<open>The error is the stage at which the start-up failed.\<close>

definition load_groups_from_character_database_like_cpp ::
  "(u32 \<Rightarrow> u8 option) \<Rightarrow> (GroupMemberTableRow list \<Rightarrow> GroupMemberTableRow list) \<Rightarrow>
   GroupDifficultyValidatorLikeCpp \<Rightarrow> CharacterTables \<Rightarrow> GroupAuthority
     \<Rightarrow> ((RepresentedGroupStartupLoadStageLikeCpp + GroupLoadSummaryLikeCpp) \<times>
         CharacterTables \<times> GroupAuthority) option" where
  "load_groups_from_character_database_like_cpp read_u8 order v db a =
     do { (outcome, db') \<leftarrow> load_represented_groups_like_cpp read_u8 order db;
          (case outcome of
             LoadFailed stage \<Rightarrow> Some (Inl stage, db', a)
           | Loaded characters group_rows member_rows \<Rightarrow>
               (case load_groups_from_db_rows_like_cpp v (startup_character_cache characters)
                       (map db_row_from_startup group_rows) (map db_member_from_startup member_rows) a of
                  (summary, a') \<Rightarrow> Some (Inr summary, db', a'))) }"

end
