(* ===== verification/GroupPersistence.thy ===== *)
theory GroupPersistence
  imports GroupProperties GroupDatabase
begin

text \<open>
  The database follows the registry.  \<open>command_effect\<close> says what each command means for the
  tables, and the prepared statements mean just that.  \<open>in_sync\<close> relates registry and tables;
  every operation of the registry together with the persistence of its intents keeps it.  The
  bodies of the group transitions satisfy one contract for it, the locale
  \<open>persistent_operation\<close>.
\<close>

section \<open>The statements mean the commands\<close>

fun set_difficulty_column ::
  "RepresentedGroupDifficultyKindLikeCpp \<Rightarrow> u32 \<Rightarrow> GroupsTableRow \<Rightarrow> GroupsTableRow" where
  "set_difficulty_column KindDungeon d row = row\<lparr>t_difficulty := d\<rparr>"
| "set_difficulty_column KindRaid d row = row\<lparr>t_raidDifficulty := d\<rparr>"
| "set_difficulty_column KindLegacyRaid d row = row\<lparr>t_legacyRaidDifficulty := d\<rparr>"

fun command_effect ::
  "RepresentedGroupPersistenceCommandLikeCpp \<Rightarrow> CharacterTables \<Rightarrow> CharacterTables option" where
  "command_effect (CmdInsertGroup sid leader lmethod looter threshold flags dd rd ld master) db =
     insert_group_row \<lparr>t_guid = sid, t_leaderGuid = leader, t_lootMethod = lmethod, t_looterGuid = looter,
       t_lootThreshold = threshold, t_icons = replicate 8 (replicate 16 0), t_groupType = flags,
       t_difficulty = dd, t_raidDifficulty = rd, t_legacyRaidDifficulty = ld,
       t_masterLooterGuid = master\<rparr> db"
| "command_effect (CmdInsertMember sid member flags subgroup roles) db =
     insert_member_row \<lparr>t_group = sid, t_memberGuid = member, t_memberFlags = flags,
       t_subgroup = subgroup, t_roles = roles\<rparr> db"
| "command_effect (CmdDeleteGroup sid) db =
     Some (db\<lparr>tbl_groups := filter (\<lambda>row. t_guid row \<noteq> sid) (tbl_groups db)\<rparr>)"
| "command_effect (CmdDeleteAllMembers sid) db =
     Some (db\<lparr>tbl_members := filter (\<lambda>row. t_group row \<noteq> sid) (tbl_members db)\<rparr>)"
| "command_effect (CmdDeleteLfgData sid) db =
     Some (db\<lparr>tbl_lfg := filter (\<lambda>(guid, _). guid \<noteq> sid) (tbl_lfg db)\<rparr>)"
| "command_effect (CmdDeleteMember member) db =
     Some (db\<lparr>tbl_members := filter (\<lambda>row. t_memberGuid row \<noteq> member) (tbl_members db)\<rparr>)"
| "command_effect (CmdUpdateLeader sid leader) db =
     Some (update_groups sid (\<lambda>row. row\<lparr>t_leaderGuid := leader\<rparr>) db)"
| "command_effect (CmdUpdateGroupType sid flags) db =
     Some (update_groups sid (\<lambda>row. row\<lparr>t_groupType := flags\<rparr>) db)"
| "command_effect (CmdUpdateMemberSubgroup member subgroup) db =
     Some (update_members member (\<lambda>row. row\<lparr>t_subgroup := subgroup\<rparr>) db)"
| "command_effect (CmdUpdateMemberFlags member flags) db =
     Some (update_members member (\<lambda>row. row\<lparr>t_memberFlags := flags\<rparr>) db)"
| "command_effect (CmdUpdateDifficulty sid kind d) db =
     Some (update_groups sid (set_difficulty_column kind d) db)"

lemma set_difficulty_column_eta [simp]:
  "set_difficulty_column KindDungeon d = t_difficulty_update (\<lambda>_. d)"
  "set_difficulty_column KindRaid d = t_raidDifficulty_update (\<lambda>_. d)"
  "set_difficulty_column KindLegacyRaid d = t_legacyRaidDifficulty_update (\<lambda>_. d)"
  by (simp_all add: fun_eq_iff)

lemma insert_group_statement:
  "represented_group_statement_like_cpp (CmdInsertGroup sid leader lmethod looter threshold flags dd rd ld master) =
     Some \<lparr>ps_statement = INS_GROUP,
           ps_params = [SqlU32 sid, SqlU64 leader, SqlU8 lmethod, SqlU64 looter, SqlU8 threshold] @
             replicate 8 (SqlBytes (replicate 16 0)) @
             [SqlU16 flags, SqlU32 dd, SqlU32 rd, SqlU32 ld, SqlU64 master]\<rparr>"
  by (simp add: for_statement_def with_capacity_like_cpp_def setter_defs bind_param_Some upt_rec numeral_eq_Suc)

lemma prepared_effect:
  "\<exists>s. represented_group_statement_like_cpp c = Some s \<and>
     length (ps_params s) = length (filter (\<lambda>c. c = CHR ''?'') (sql (ps_statement s))) \<and>
     (\<forall>b. SqlBool b \<notin> set (ps_params s)) \<and>
     execute_statement s db = command_effect c db"
proof (cases c)
  case (CmdInsertGroup sid leader lmethod looter threshold flags dd rd ld master)
  then show ?thesis
    by (simp del: represented_group_statement_like_cpp.simps add: insert_group_statement execute_statement_def numeral_eq_Suc)
next
  case (CmdUpdateDifficulty sid kind d)
  then show ?thesis
    by (cases kind) (simp_all add: for_statement_def with_capacity_like_cpp_def setter_defs bind_param_Some
        execute_statement_def numeral_eq_Suc)
qed (simp_all add: for_statement_def with_capacity_like_cpp_def setter_defs bind_param_Some
        execute_statement_def numeral_eq_Suc)

text \<open>
  C23: Each persistence command is prepared without a panic, with every parameter bound, and
  executing the prepared statement does to the tables what the command says: in particular
  every value is bound at the position its column has in the SQL text.
\<close>

theorem statements_mean_commands:
  "\<exists>s. represented_group_statement_like_cpp c = Some s \<and>
     length (ps_params s) = length (filter (\<lambda>c. c = CHR ''?'') (sql (ps_statement s))) \<and>
     (\<forall>b. SqlBool b \<notin> set (ps_params s)) \<and>
     execute_statement s db = command_effect c db"
  by (rule prepared_effect)

section \<open>What the tables and the registry say\<close>

text \<open>
  The durable part of a group: what an operation that changes it also writes.  The current
  looter, the target icons, the member flags and the LFG roles are changed without being
  written, or are recomputed, and are not part of it.
\<close>

record GroupDurable =
  d_leader :: u64
  d_loot_method :: u8
  d_loot_threshold :: u8
  d_flags :: u16
  d_dungeon_difficulty :: u32
  d_raid_difficulty :: u32
  d_legacy_raid_difficulty :: u32
  d_master_looter :: u64

definition group_durable :: "GroupInfo \<Rightarrow> GroupDurable" where
  "group_durable g =
     \<lparr>d_leader = guid_counter (leader_guid g), d_loot_method = group_loot_method g,
      d_loot_threshold = loot_threshold g, d_flags = group_flags g,
      d_dungeon_difficulty = dungeon_difficulty_id g, d_raid_difficulty = raid_difficulty_id g,
      d_legacy_raid_difficulty = legacy_raid_difficulty_id g,
      d_master_looter = guid_counter (master_looter_guid g)\<rparr>"

definition row_durable :: "GroupsTableRow \<Rightarrow> GroupDurable" where
  "row_durable row =
     \<lparr>d_leader = t_leaderGuid row, d_loot_method = t_lootMethod row, d_loot_threshold = t_lootThreshold row,
      d_flags = t_groupType row, d_dungeon_difficulty = t_difficulty row,
      d_raid_difficulty = t_raidDifficulty row, d_legacy_raid_difficulty = t_legacyRaidDifficulty row,
      d_master_looter = t_masterLooterGuid row\<rparr>"

definition roster :: "GroupInfo \<Rightarrow> (u64 \<times> u8) list" where
  "roster g = map (\<lambda>s. (guid_counter (slot_guid s), slot_subgroup s)) (member_slots g)"

definition group_view :: "CharacterTables \<Rightarrow> u32 \<Rightarrow> GroupDurable option" where
  "group_view db sid = map_option row_durable (find (\<lambda>row. t_guid row = sid) (tbl_groups db))"

definition member_view :: "CharacterTables \<Rightarrow> u64 \<Rightarrow> (u32 \<times> u8) option" where
  "member_view db c =
     map_option (\<lambda>row. (t_group row, t_subgroup row)) (find (\<lambda>row. t_memberGuid row = c) (tbl_members db))"

definition keys_ok :: "CharacterTables \<Rightarrow> bool" where
  "keys_ok db = (distinct (map t_guid (tbl_groups db)) \<and> distinct (map t_memberGuid (tbl_members db)))"

type_synonym table_view = "(u32 \<Rightarrow> GroupDurable option) \<times> (u64 \<Rightarrow> (u32 \<times> u8) option)"

definition table_views :: "CharacterTables \<Rightarrow> table_view" where
  "table_views db = (group_view db, member_view db)"

text \<open>What an intent does to the views.\<close>

fun set_difficulty_durable :: "GroupDifficultyKindLikeCpp \<Rightarrow> u32 \<Rightarrow> GroupDurable \<Rightarrow> GroupDurable" where
  "set_difficulty_durable DiffDungeon d r = r\<lparr>d_dungeon_difficulty := d\<rparr>"
| "set_difficulty_durable DiffRaid d r = r\<lparr>d_raid_difficulty := d\<rparr>"
| "set_difficulty_durable DiffLegacyRaid d r = r\<lparr>d_legacy_raid_difficulty := d\<rparr>"

fun intent_view :: "GroupPersistenceIntentLikeCpp \<Rightarrow> table_view \<Rightarrow> table_view" where
  "intent_view (InsertGroup sid leader lmethod looter threshold flags dd rd ld master) (gv, mv) =
     (gv(sid \<mapsto> \<lparr>d_leader = guid_counter leader, d_loot_method = lmethod, d_loot_threshold = threshold,
                 d_flags = flags, d_dungeon_difficulty = dd, d_raid_difficulty = rd,
                 d_legacy_raid_difficulty = ld, d_master_looter = guid_counter master\<rparr>), mv)"
| "intent_view (InsertMember sid member flags subgroup roles) (gv, mv) =
     (gv, mv(guid_counter member \<mapsto> (sid, subgroup)))"
| "intent_view (DeleteGroup sid) (gv, mv) = (gv(sid := None), mv)"
| "intent_view (DeleteAllMembers sid) (gv, mv) =
     (gv, \<lambda>c. case mv c of None \<Rightarrow> None | Some (s, k) \<Rightarrow> if s = sid then None else Some (s, k))"
| "intent_view (DeleteLfgData sid) v = v"
| "intent_view (DeleteMember member) (gv, mv) = (gv, mv(guid_counter member := None))"
| "intent_view (UpdateLeader sid leader) (gv, mv) =
     (gv(sid := map_option (\<lambda>r. r\<lparr>d_leader := guid_counter leader\<rparr>) (gv sid)), mv)"
| "intent_view (UpdateGroupType sid flags) (gv, mv) =
     (gv(sid := map_option (\<lambda>r. r\<lparr>d_flags := flags\<rparr>) (gv sid)), mv)"
| "intent_view (UpdateMemberSubgroup member subgroup) (gv, mv) =
     (gv, mv(guid_counter member := map_option (\<lambda>(s, _). (s, subgroup)) (mv (guid_counter member))))"
| "intent_view (UpdateMemberFlags member flags) v = v"
| "intent_view (UpdateDifficulty sid kind d) (gv, mv) =
     (gv(sid := map_option (set_difficulty_durable kind d) (gv sid)), mv)"

text \<open>Inserts need a free key; nothing else can fail.\<close>

fun insertable :: "GroupPersistenceIntentLikeCpp \<Rightarrow> table_view \<Rightarrow> bool" where
  "insertable (InsertGroup sid leader lmethod looter threshold flags dd rd ld master) v = (fst v sid = None)"
| "insertable (InsertMember sid member flags subgroup roles) v = (snd v (guid_counter member) = None)"
| "insertable _ v = True"

fun admissible :: "GroupPersistenceIntentLikeCpp list \<Rightarrow> table_view \<Rightarrow> bool" where
  "admissible [] v = True"
| "admissible (i # is) v = (insertable i v \<and> admissible is (intent_view i v))"

section \<open>Rows by key\<close>

lemma find_map_key:
  "(\<And>r. key (f r) = key r) \<Longrightarrow>
     find (\<lambda>r. key r = k) (map (\<lambda>r. if key r = m then f r else r) rs) =
     (if k = m then map_option f (find (\<lambda>r. key r = k) rs) else find (\<lambda>r. key r = k) rs)"
  by (induction rs) auto

lemma map_key_same:
  "(\<And>r. key (f r) = key r) \<Longrightarrow> map key (map (\<lambda>r. if key r = m then f r else r) rs) = map key rs"
  by (induction rs) auto

lemma find_filter_key:
  "find (\<lambda>r. key r = k) (filter (\<lambda>r. key r \<noteq> m) rs) = (if k = m then None else find (\<lambda>r. key r = k) rs)"
  by (induction rs) (auto simp: find_None_iff)

lemma find_key_None: "find (\<lambda>r. key r = k) rs = None \<longleftrightarrow> k \<notin> key ` set rs"
  by (auto simp: find_None_iff_all)

lemma find_filter_distinct:
  "distinct (map key rs) \<Longrightarrow>
     find (\<lambda>r. key r = k) (filter p rs) =
     (case find (\<lambda>r. key r = k) rs of None \<Rightarrow> None | Some r \<Rightarrow> if p r then Some r else None)"
proof (induction rs)
  case (Cons r rs)
  have "find (\<lambda>r. key r = k) rs = None" if "key r = k"
    using Cons.prems that by (simp add: find_key_None)
  with Cons show ?case by auto
qed simp

lemma find_snoc: "find p (xs @ [x]) = (case find p xs of None \<Rightarrow> if p x then Some x else None | Some y \<Rightarrow> Some y)"
  by (induction xs) auto

lemma distinct_filter_map: "distinct (map key rs) \<Longrightarrow> distinct (map key (filter p rs))"
  by (rule distinct_map_filter)

lemma intent_effect:
  assumes "keys_ok db" "insertable i (table_views db)"
  shows "\<exists>db'. command_effect (group_persistence_command_like_cpp i) db = Some db' \<and> keys_ok db' \<and>
    table_views db' = intent_view i (table_views db) \<and> tbl_characters db' = tbl_characters db"
proof (cases i)
  case (InsertGroup sid leader lmethod looter threshold flags dd rd ld master)
  then have free: "find (\<lambda>row. t_guid row = sid) (tbl_groups db) = None"
    using assms(2) by (simp add: table_views_def group_view_def)
  then have "sid \<notin> t_guid ` set (tbl_groups db)" by (simp add: find_key_None)
  with free InsertGroup assms(1) show ?thesis
    by (auto simp: insert_group_row_def keys_ok_def table_views_def group_view_def member_view_def find_snoc
        fun_eq_iff row_durable_def split: option.split)
next
  case (InsertMember sid member flags subgroup roles)
  then have free: "find (\<lambda>row. t_memberGuid row = guid_counter member) (tbl_members db) = None"
    using assms(2) by (simp add: table_views_def member_view_def)
  then have "guid_counter member \<notin> t_memberGuid ` set (tbl_members db)" by (simp add: find_key_None)
  with free InsertMember assms(1) show ?thesis
    by (auto simp: insert_member_row_def keys_ok_def table_views_def group_view_def member_view_def find_snoc
        fun_eq_iff split: option.split)
next
  case (DeleteAllMembers sid)
  with assms(1) show ?thesis
    by (auto simp: keys_ok_def table_views_def group_view_def member_view_def fun_eq_iff
        find_filter_distinct distinct_filter_map split: option.split)
next
  case (UpdateDifficulty sid kind d)
  with assms(1) show ?thesis
    by (cases kind) (auto simp: update_groups_def keys_ok_def table_views_def group_view_def member_view_def
        fun_eq_iff find_map_key map_key_same option.map_comp comp_def row_durable_def
        simp del: map_map)
next
  case (UpdateLeader sid leader)
  with assms(1) show ?thesis
    by (auto simp: update_groups_def keys_ok_def table_views_def group_view_def member_view_def
        fun_eq_iff find_map_key map_key_same option.map_comp comp_def row_durable_def simp del: map_map)
next
  case (UpdateGroupType sid flags)
  with assms(1) show ?thesis
    by (auto simp: update_groups_def keys_ok_def table_views_def group_view_def member_view_def
        fun_eq_iff find_map_key map_key_same option.map_comp comp_def row_durable_def simp del: map_map)
next
  case (UpdateMemberSubgroup member subgroup)
  with assms(1) show ?thesis
    by (auto simp: update_members_def keys_ok_def table_views_def group_view_def member_view_def
        fun_eq_iff find_map_key map_key_same option.map_comp comp_def simp del: map_map)
next
  case (UpdateMemberFlags member flags)
  with assms(1) show ?thesis
    by (auto simp: update_members_def keys_ok_def table_views_def group_view_def member_view_def
        fun_eq_iff find_map_key map_key_same option.map_comp comp_def simp del: map_map)
qed (use assms(1) in \<open>auto simp: keys_ok_def table_views_def group_view_def member_view_def fun_eq_iff
        find_filter_key distinct_filter_map\<close>)

lemma run_intents:
  "keys_ok db \<Longrightarrow> admissible is (table_views db) \<Longrightarrow>
     \<exists>db'. persist_sequential execute_statement n (map group_persistence_command_like_cpp is) db =
             Some (Applied (n + length is), db') \<and> keys_ok db' \<and>
           table_views db' = fold intent_view is (table_views db) \<and> tbl_characters db' = tbl_characters db"
proof (induction "is" arbitrary: n db)
  case (Cons i "is")
  obtain db1 where db1: "command_effect (group_persistence_command_like_cpp i) db = Some db1" "keys_ok db1"
    "table_views db1 = intent_view i (table_views db)" "tbl_characters db1 = tbl_characters db"
    using intent_effect [of db i] Cons.prems by auto
  obtain s where s: "represented_group_statement_like_cpp (group_persistence_command_like_cpp i) = Some s"
    "execute_statement s db = Some db1"
    using prepared_effect [of "group_persistence_command_like_cpp i" db] db1(1) by auto
  from Cons.IH [of db1 "Suc n"] db1 Cons.prems s show ?case by auto
qed simp

lemma persist_intents:
  "keys_ok db \<Longrightarrow> admissible is (table_views db) \<Longrightarrow>
     \<exists>db'. persist_group_intents_like_cpp execute_statement commit is db = Some (Applied (length is), db') \<and>
           keys_ok db' \<and> table_views db' = fold intent_view is (table_views db) \<and>
           tbl_characters db' = tbl_characters db"
  using run_intents [of db "is" 0]
  by (simp add: persist_group_intents_like_cpp_def persist_group_commands_like_cpp_def)

section \<open>Registry and tables agree\<close>

definition player_guid :: "ObjectGuid \<Rightarrow> bool" where
  "player_guid m = (m = create_player 1 (guid_counter m))"

text \<open>Members are characters of this realm, each in at most one group.\<close>

definition one_group_each :: "GroupAuthority \<Rightarrow> bool" where
  "one_group_each a =
     (\<forall>gid g. hm_get (groups a) gid = Some g \<longrightarrow>
        (\<forall>m\<in>set (group_members g). player_guid m \<and>
           (\<forall>gid' g'. hm_get (groups a) gid' = Some g' \<and> m \<in> set (group_members g') \<longrightarrow> gid' = gid)))"

definition in_sync :: "GroupAuthority \<Rightarrow> CharacterTables \<Rightarrow> bool" where
  "in_sync a db =
     (keys_ok db \<and>
      (\<forall>sid d. group_view db sid = Some d \<longleftrightarrow>
         (\<exists>gid g. hm_get (groups a) gid = Some g \<and> db_store_id g = sid \<and> group_durable g = d)) \<and>
      (\<forall>c sid k. member_view db c = Some (sid, k) \<longleftrightarrow>
         (\<exists>gid g. hm_get (groups a) gid = Some g \<and> db_store_id g = sid \<and> (c, k) \<in> set (roster g))))"

lemma player_guid_inj:
  "player_guid m \<Longrightarrow> player_guid n \<Longrightarrow> guid_counter m = guid_counter n \<Longrightarrow> m = n"
  by (metis player_guid_def)

lemma roster_counters:
  "group_wf g \<Longrightarrow> fst ` set (roster g) = guid_counter ` set (group_members g)"
proof -
  assume "group_wf g"
  then have "group_members g = map slot_guid (member_slots g)" by (simp add: group_wf_def)
  then show ?thesis by (simp add: roster_def image_image)
qed

lemma roster_distinct:
  assumes "group_wf g" "inj_on guid_counter (set (group_members g))"
  shows "distinct (map fst (roster g))"
proof -
  have "map slot_guid (member_slots g) = group_members g" "distinct (group_members g)"
    using assms(1) by (auto simp: group_wf_def)
  moreover have "map fst (roster g) = map guid_counter (map slot_guid (member_slots g))"
    by (simp add: roster_def)
  ultimately show ?thesis using assms(2) by (simp add: distinct_map)
qed

lemma one_group_inj:
  "one_group_each a \<Longrightarrow> hm_get (groups a) gid = Some g \<Longrightarrow> inj_on guid_counter (set (group_members g))"
  by (rule inj_onI) (auto simp: one_group_each_def intro: player_guid_inj)

lemma one_group_counter:
  assumes "one_group_each a" "registry_ok a"
    and "hm_get (groups a) gid = Some g" "hm_get (groups a) gid' = Some g'"
    and "c \<in> fst ` set (roster g)" "c \<in> fst ` set (roster g')"
  shows "gid' = gid"
proof -
  have "group_wf g" "group_wf g'"
    using registry_ok_get [OF assms(2,3)] registry_ok_get [OF assms(2,4)] by (simp_all add: group_ok_def)
  then obtain m m' where m: "m \<in> set (group_members g)" "guid_counter m = c"
    "m' \<in> set (group_members g')" "guid_counter m' = c"
    using assms(5,6) by (auto simp: roster_counters)
  then have "m' = m" using assms(1,3,4) by (auto simp: one_group_each_def intro: player_guid_inj)
  with m assms(1,3,4) show ?thesis by (auto simp: one_group_each_def)
qed

definition unique_store_ids :: "GroupAuthority \<Rightarrow> bool" where
  "unique_store_ids a =
     (\<forall>gid g gid' g'. hm_get (groups a) gid = Some g \<and> hm_get (groups a) gid' = Some g' \<and>
        db_store_id g' = db_store_id g \<longrightarrow> gid' = gid)"

lemma ids_unique: "ids_ok a \<Longrightarrow> unique_store_ids a"
  using store_id_inj [of a] by (force simp: unique_store_ids_def store_id_def)

text \<open>
  One group replaced, added or removed: if the tables change in the rows of that group as
  the group does, they stay in agreement.
\<close>

definition roster_of :: "GroupInfo option \<Rightarrow> (u64 \<times> u8) list" where
  "roster_of go = (case go of None \<Rightarrow> [] | Some g \<Rightarrow> roster g)"

lemma sync_update:
  assumes sync: "in_sync a db" and ok: "registry_ok a" "registry_ok a'" and one: "one_group_each a" "one_group_each a'"
    and upd: "hm_get (groups a') = (hm_get (groups a))(gid := go)"
    and old: "\<And>g. hm_get (groups a) gid = Some g \<Longrightarrow> db_store_id g = sid"
    and new: "\<And>g. go = Some g \<Longrightarrow> db_store_id g = sid"
    and fresh: "\<And>k g. k \<noteq> gid \<Longrightarrow> hm_get (groups a) k = Some g \<Longrightarrow> db_store_id g \<noteq> sid"
    and keys: "keys_ok db'"
    and gv: "group_view db' = (group_view db)(sid := map_option group_durable go)"
    and mv: "\<And>c. member_view db' c =
      (case map_of (roster_of go) c of Some k \<Rightarrow> Some (sid, k)
       | None \<Rightarrow> if c \<in> fst ` set (roster_of (hm_get (groups a) gid)) then None else member_view db c)"
  shows "in_sync a' db'"
  unfolding in_sync_def
proof (intro conjI allI)
  show "keys_ok db'" by (rule keys)
next
  fix s d
  show "group_view db' s = Some d \<longleftrightarrow>
    (\<exists>k g. hm_get (groups a') k = Some g \<and> db_store_id g = s \<and> group_durable g = d)"
  proof (cases "s = sid")
    case True
    then show ?thesis using new fresh by (auto simp: gv upd split: if_splits)
  next
    case False
    have "group_view db s = Some d \<longleftrightarrow>
      (\<exists>k g. hm_get (groups a) k = Some g \<and> db_store_id g = s \<and> group_durable g = d)"
      using sync by (simp add: in_sync_def)
    then show ?thesis using False old new by (auto simp: gv upd split: if_splits) metis
  qed
next
  fix c s k
  have main: "member_view db c = Some (s, k) \<longleftrightarrow>
      (\<exists>j g. hm_get (groups a) j = Some g \<and> db_store_id g = s \<and> (c, k) \<in> set (roster g))"
    using sync by (simp add: in_sync_def)
  show "member_view db' c = Some (s, k) \<longleftrightarrow>
    (\<exists>j g. hm_get (groups a') j = Some g \<and> db_store_id g = s \<and> (c, k) \<in> set (roster g))"
  proof (cases "map_of (roster_of go) c")
    case (Some k')
    then obtain g' where g': "go = Some g'" "(c, k') \<in> set (roster g')"
      by (auto simp: roster_of_def split: option.splits dest: map_of_SomeD)
    then have get: "hm_get (groups a') gid = Some g'" by (simp add: upd)
    have "distinct (map fst (roster g'))"
      using roster_distinct one_group_inj [OF one(2) get] registry_ok_get [OF ok(2) get]
      by (simp add: group_ok_def)
    then have un: "(c, k) \<in> set (roster g') \<longleftrightarrow> k = k'" using g'(2) by (auto dest: eq_key_imp_eq_value)
    have "j = gid" if "hm_get (groups a') j = Some g" "(c, k) \<in> set (roster g)" for j g
      using one_group_counter [OF one(2) ok(2) get that(1)] g'(2) that(2) by force
    then show ?thesis using Some get un new [OF g'(1)] by (auto simp: mv)
  next
    case None
    then have notin: "c \<notin> fst ` set (roster_of go)" by (simp add: map_of_eq_None_iff)
    have upd_k: "hm_get (groups a') j = Some g \<and> (c, k) \<in> set (roster g) \<longleftrightarrow>
        j \<noteq> gid \<and> hm_get (groups a) j = Some g \<and> (c, k) \<in> set (roster g)" for j g
      using notin by (force simp: upd roster_of_def split: option.splits if_splits)
    show ?thesis
    proof (cases "c \<in> fst ` set (roster_of (hm_get (groups a) gid))")
      case True
      then obtain g where g: "hm_get (groups a) gid = Some g" "c \<in> fst ` set (roster g)"
        by (cases "hm_get (groups a) gid") (simp_all add: roster_of_def)
      have "j = gid" if "hm_get (groups a) j = Some g'" "(c, k) \<in> set (roster g')" for j g'
        using one_group_counter [OF one(1) ok(1) g(1) that(1)] g(2) that(2) by force
      then show ?thesis using None True upd_k by (auto simp: mv)
    next
      case False
      then have "hm_get (groups a) gid = Some g \<Longrightarrow> (c, k) \<notin> set (roster g)" for g
        by (force simp: roster_of_def)
      then show ?thesis using None False upd_k main by (auto simp: mv) metis+
    qed
  qed
qed

section \<open>The contract of the transitions\<close>

definition is_update :: "GroupPersistenceIntentLikeCpp \<Rightarrow> bool" where
  "is_update i \<longleftrightarrow> (\<forall>v. insertable i v)"

lemma admissible_updates: "list_all is_update is \<Longrightarrow> admissible is v"
  by (induction "is" arbitrary: v) (auto simp: is_update_def simp del: split_paired_All)

definition roster_map :: "u32 \<Rightarrow> GroupInfo \<Rightarrow> u64 \<Rightarrow> (u32 \<times> u8) option" where
  "roster_map sid g c = map_option (\<lambda>k. (sid, k)) (map_of (roster g) c)"

definition undisturbed :: "GroupInfo \<Rightarrow> GroupInfo \<Rightarrow> bool" where
  "undisturbed g g' \<longleftrightarrow>
     group_members g' = group_members g \<and> leader_guid g' = leader_guid g \<and> roster g' = roster g \<and>
     group_durable g' = group_durable g"

definition subgroups_small :: "GroupInfo \<Rightarrow> bool" where
  "subgroups_small g = (\<forall>k\<in>snd ` set (roster g). unat k < 8)"

text \<open>What a restart relies on: no group of one, subgroups in range, leaders that are characters.\<close>

definition restorable :: "GroupAuthority \<Rightarrow> bool" where
  "restorable a =
     (\<forall>gid g. hm_get (groups a) gid = Some g \<longrightarrow>
        2 \<le> length (group_members g) \<and> subgroups_small g \<and> player_guid (leader_guid g))"

definition intents_of :: "('e + 'f GroupTransitionOutcomeLikeCpp) \<Rightarrow> GroupPersistenceIntentLikeCpp list" where
  "intents_of result = (case result of Inl _ \<Rightarrow> [] | Inr out \<Rightarrow> outcome_persistence out)"

locale persistent_operation = group_operation body for body :: "'f group_body" +
  assumes members: "group_members (snd (body g)) = group_members g"
    and leads: "leader_guid (snd (body g)) \<in> insert (leader_guid g) (set (group_members g))"
    and small: "group_wf g \<Longrightarrow> subgroups_small g \<Longrightarrow> subgroups_small (snd (body g))"
    and fails: "fst (body g) = Inl e \<Longrightarrow> undisturbed g (snd (body g))"
    and updates: "fst (body g) = Inr (facts, is) \<Longrightarrow> list_all is_update is"
    and works: "\<lbrakk>group_wf g; inj_on guid_counter (set (group_members g)); db_store_id g \<noteq> 0;
      fst (body g) = Inr (facts, is); gv (db_store_id g) = Some (group_durable g);
      \<And>c. c \<in> fst ` set (roster g) \<Longrightarrow> mv c = roster_map (db_store_id g) g c\<rbrakk> \<Longrightarrow>
      fold intent_view is (gv, mv) =
        (gv(db_store_id g \<mapsto> group_durable (snd (body g))),
         \<lambda>c. if c \<in> fst ` set (roster g) then roster_map (db_store_id g) (snd (body g)) c else mv c)"
begin

lemma counters_same:
  "group_ok g \<Longrightarrow> fst ` set (roster (snd (body g))) = fst ` set (roster g)"
  using keeps_ok [of g] members [of g] by (simp add: roster_counters group_ok_def)

lemma transition_one_group:
  assumes "one_group_each a"
  shows "one_group_each (snd (with_group gid body a))"
proof (cases "hm_get (groups a) gid")
  case None
  with assms show ?thesis by (simp add: with_group_missing)
next
  case (Some g)
  with assms show ?thesis
    unfolding one_group_each_def with_group_state [OF Some] by (auto simp: members split: if_splits)
qed

lemma transition_restorable:
  assumes "restorable a" "one_group_each a" "registry_ok a"
  shows "restorable (snd (with_group gid body a))"
proof (cases "hm_get (groups a) gid")
  case None
  with assms show ?thesis by (simp add: with_group_missing)
next
  case (Some g)
  have "\<forall>m\<in>set (group_members g). player_guid m" using assms(2) Some by (auto simp: one_group_each_def)
  then have "player_guid (leader_guid (snd (body g)))"
    using leads [of g] assms(1) Some by (auto simp: restorable_def)
  moreover have "subgroups_small (snd (body g))"
    using small [of g] assms(1) Some registry_ok_get [OF assms(3) Some] by (simp add: restorable_def group_ok_def)
  ultimately show ?thesis
    using assms(1) Some by (auto simp: restorable_def with_group_state [OF Some] members split: if_splits)
qed

lemma transition_sync:
  assumes sync: "in_sync a db" and ok: "registry_ok a" "ids_ok a" and one: "one_group_each a"
  shows "\<exists>db'. persist_group_intents_like_cpp execute_statement commit
            (intents_of (fst (with_group gid body a))) db =
          Some (Applied (length (intents_of (fst (with_group gid body a)))), db') \<and>
      in_sync (snd (with_group gid body a)) db' \<and> tbl_characters db' = tbl_characters db"
proof (cases "hm_get (groups a) gid")
  case None
  then show ?thesis
    using sync persist_intents [of db "[]" commit] by (simp add: with_group_missing intents_of_def
        persist_group_intents_like_cpp_def persist_group_commands_like_cpp_def)
next
  case (Some g)
  let ?a = "snd (with_group gid body a)" and ?is = "intents_of (fst (with_group gid body a))"
  let ?sid = "db_store_id g" and ?g = "snd (body g)"
  have keys: "keys_ok db" using sync by (simp add: in_sync_def)
  have gok: "group_ok g" using registry_ok_get [OF ok(1) Some] by simp
  have sid: "?sid \<noteq> 0" using ok(2) Some by (auto simp: ids_ok_def store_id_def)
  have gsid: "db_store_id ?g = ?sid" using keeps_identity [of g] by (simp add: same_identity_def)
  have upd: "list_all is_update ?is"
    using updates [of g] Some by (auto simp: intents_of_def with_group_def split: prod.split sum.split)
  have gv: "group_view db ?sid = Some (group_durable g)" using sync Some by (auto simp: in_sync_def)
  have inj: "inj_on guid_counter (set (group_members g))" by (rule one_group_inj [OF one Some])
  have dist: "distinct (map fst (roster g))" using roster_distinct inj gok by (simp add: group_ok_def)
  have mv: "member_view db c = roster_map ?sid g c" if "c \<in> fst ` set (roster g)" for c
  proof -
    from that obtain k where k: "(c, k) \<in> set (roster g)" by auto
    then have "member_view db c = Some (?sid, k)" using sync Some by (auto simp: in_sync_def)
    with k dist show ?thesis by (simp add: roster_map_def)
  qed
  have view: "fold intent_view ?is (table_views db) =
      ((group_view db)(?sid \<mapsto> group_durable ?g),
       \<lambda>c. if c \<in> fst ` set (roster g) then roster_map ?sid ?g c else member_view db c)"
  proof (cases "fst (body g)")
    case (Inl e)
    then have "?is = []" "undisturbed g ?g"
      using Some fails [of g] by (auto simp: intents_of_def with_group_def split: prod.split)
    then show ?thesis
      using gv mv by (auto simp: table_views_def undisturbed_def roster_map_def fun_upd_idem fun_eq_iff)
  next
    case (Inr r)
    then obtain facts "is" where r: "fst (body g) = Inr (facts, is)" by (cases r) auto
    then have "?is = is" using Some by (auto simp: intents_of_def with_group_def split: prod.split)
    then show ?thesis
      using works [of g, where gv = "group_view db" and mv = "member_view db", OF _ inj sid r gv mv] gok by (simp add: table_views_def group_ok_def)
  qed
  obtain db' where db': "persist_group_intents_like_cpp execute_statement commit ?is db =
      Some (Applied (length ?is), db')" "keys_ok db'"
    "table_views db' = fold intent_view ?is (table_views db)" "tbl_characters db' = tbl_characters db"
    using persist_intents [OF keys admissible_updates [OF upd]] by blast
  have counters: "fst ` set (roster ?g) = fst ` set (roster g)" by (rule counters_same [OF gok])
  have "in_sync ?a db'"
  proof (rule sync_update [OF sync ok(1) transition_ok [OF ok(1)] one transition_one_group [OF one]])
    show "hm_get (groups ?a) = (hm_get (groups a))(gid := Some ?g)"
      by (auto simp: with_group_state [OF Some])
    show "db_store_id h = ?sid" if "hm_get (groups a) gid = Some h" for h using that Some by simp
    show "db_store_id h = ?sid" if "Some ?g = Some h" for h using that gsid by simp
    show "db_store_id h \<noteq> ?sid" if "k \<noteq> gid" "hm_get (groups a) k = Some h" for k h
      using ids_unique [OF ok(2)] Some that by (auto simp: unique_store_ids_def)
    show "keys_ok db'" by (rule db')
    show "group_view db' = (group_view db)(?sid := map_option group_durable (Some ?g))"
      using db'(3) view by (simp add: table_views_def)
    show "member_view db' c = (case map_of (roster_of (Some ?g)) c of Some k \<Rightarrow> Some (?sid, k)
       | None \<Rightarrow> if c \<in> fst ` set (roster_of (hm_get (groups a) gid)) then None else member_view db c)" for c
    proof -
      have "member_view db' = (\<lambda>c. if c \<in> fst ` set (roster g) then roster_map ?sid ?g c else member_view db c)"
        using db'(3) view by (simp add: table_views_def)
      moreover have "map_of (roster ?g) c = None \<longleftrightarrow> c \<notin> fst ` set (roster g)"
        by (simp add: map_of_eq_None_iff counters)
      ultimately show ?thesis
        using Some by (auto simp: roster_of_def roster_map_def split: option.split)
    qed
  qed
  with db' show ?thesis by blast
qed

end

end
