(* ===== verification/GroupBehaviour.thy ===== *)
theory GroupBehaviour
  imports GroupProperties
begin

text \<open>
  What single group operations do: moving and swapping raid members, the looter rotation,
  target icons, raid markers and the ready check, each on every branch.
\<close>

section \<open>Moving between subgroups\<close>

lemma set_slot_subgroup_first:
  assumes "slot_position guid g = Some i"
  shows "member_slots (set_slot_subgroup i k g) =
           update_first (\<lambda>s. slot_guid s = guid) (\<lambda>s. s\<lparr>slot_subgroup := k\<rparr>) (member_slots g)"
  using update_first_conv_list_update [of "\<lambda>s. slot_guid s = guid" "member_slots g" i "\<lambda>s. s\<lparr>slot_subgroup := k\<rparr>"]
    assms by (simp add: slot_position_def)

lemma member_group_move:
  assumes i: "slot_position guid g = Some i"
    and h: "member_slots h = member_slots (set_slot_subgroup i k g)"
  shows "member_group_like_cpp h x = (if x = guid then k else member_group_like_cpp g x)"
proof (cases "x = guid")
  case True
  obtain s where "find (\<lambda>s. slot_guid s = guid) (member_slots g) = Some s"
    using i position_find by (auto simp: slot_position_def)
  then show ?thesis
    by (simp add: True member_group_like_cpp_def member_slot_like_cpp_def h
        set_slot_subgroup_first [OF i] find_update_first_same del: set_slot_subgroup_sel)
next
  case False
  have "find (\<lambda>s. slot_guid s = x) (update_first (\<lambda>s. slot_guid s = guid)
          (\<lambda>s. s\<lparr>slot_subgroup := k\<rparr>) (member_slots g)) = find (\<lambda>s. slot_guid s = x) (member_slots g)"
    by (rule find_update_first_other) (use False in auto)
  then show ?thesis using False
    by (simp add: member_group_like_cpp_def member_slot_like_cpp_def h set_slot_subgroup_first [OF i]
        del: set_slot_subgroup_sel)
qed

lemma slot_position_guids:
  "slot_position guid g = position (\<lambda>x. x = guid) (map slot_guid (member_slots g))"
proof -
  have "position (\<lambda>s. slot_guid s = guid) xs = position (\<lambda>x. x = guid) (map slot_guid xs)" for xs
    by (induction xs) auto
  then show ?thesis by (simp add: slot_position_def)
qed

lemma member_group_slot:
  assumes "slot_position guid g = Some i"
  shows "member_group_like_cpp g guid = slot_subgroup (member_slots g ! i)"
  using assms position_find [of _ "member_slots g" i]
  by (simp add: slot_position_def member_group_like_cpp_def member_slot_like_cpp_def)

lemma member_has_position:
  assumes "group_wf g" "guid \<in> set (group_members g)"
  shows "\<exists>i. slot_position guid g = Some i"
  using find_in_filter_slot [OF assms] find_slot_position by blast

lemma has_free_iff:
  assumes "group_wf g" "is_raid_group g"
  shows "has_free_slot_sub_group_like_cpp g k \<longleftrightarrow> unat k < 8 \<and> subgroup_size (unat k) (member_slots g) < 5"
  using wf_raid_counts [OF assms]
  by (auto simp: has_free_slot_sub_group_like_cpp_def counts_ok_def)

text \<open>
  C31: Moving a raid member succeeds exactly when the actor is leader or assistant, the target
  subgroup exists and has a free place, and the member is not already there; then exactly
  that member's subgroup changes and the database is told exactly that.
\<close>

theorem subgroup_move:
  assumes "registry_ok a" "hm_get (groups a) gid = Some g" "is_raid_group g" "member \<in> set (group_members g)"
  shows "case fst (change_member_subgroup_like_cpp gid actor member k a) of
      Inl e \<Rightarrow> \<not> ((leader_guid g = actor \<or> is_assistant_like_cpp g actor) \<and> unat k < 8 \<and>
                    subgroup_size (unat k) (member_slots g) < 5 \<and> member_group_like_cpp g member \<noteq> k)
    | Inr out \<Rightarrow> (leader_guid g = actor \<or> is_assistant_like_cpp g actor) \<and> unat k < 8 \<and>
                  subgroup_size (unat k) (member_slots g) < 5 \<and> member_group_like_cpp g member \<noteq> k \<and>
                  outcome_persistence out = [UpdateMemberSubgroup member k] \<and>
                  (\<forall>x. member_group_like_cpp (outcome_group out) x =
                         (if x = member then k else member_group_like_cpp g x))"
proof -
  have wf: "group_wf g" using registry_ok_get [OF assms(1,2)] by (simp add: group_ok_def)
  obtain i where i: "slot_position member g = Some i" using member_has_position [OF wf assms(4)] by blast
  have free: "has_free_slot_sub_group_like_cpp g k \<longleftrightarrow> unat k < 8 \<and> subgroup_size (unat k) (member_slots g) < 5"
    by (rule has_free_iff [OF wf assms(3)])
  have grp: "member_group_like_cpp g member = slot_subgroup (member_slots g ! i)"
    by (rule member_group_slot [OF i])
  show ?thesis
  proof (cases "may_manage g actor \<and> has_free_slot_sub_group_like_cpp g k \<and> member_group_like_cpp g member \<noteq> k")
    case True
    then have ch: "fst (change_member_group_like_cpp member k g)"
      using assms(3) i free grp by (simp add: change_member_group_like_cpp_def Let_def)
    have slots: "member_slots (snd (change_member_group_like_cpp member k g)) = member_slots (set_slot_subgroup i k g)"
      using True assms(3) i free grp
      by (simp add: change_member_group_like_cpp_def Let_def subgroup_counter_decrease_like_cpp_def
          subgroup_counter_increase_like_cpp_def set_slot_subgroup_def split: option.split)
    from ch obtain h where h: "change_member_group_like_cpp member k g = (True, h)"
      by (cases "change_member_group_like_cpp member k g") simp
    then have "fst (change_member_subgroup_like_cpp gid actor member k a) =
        Inr \<lparr>outcome_group = h, outcome_facts = (member, k),
             outcome_persistence = [UpdateMemberSubgroup member k]\<rparr>"
      using True assms free
      by (simp add: change_member_subgroup_like_cpp_def with_group_def change_member_subgroup_body_def)
    then show ?thesis
      using True free member_group_move [OF i slots, unfolded h snd_conv]
      by (simp add: may_manage_def is_leader_like_cpp_def)
  next
    case False
    then have "\<exists>e. fst (change_member_subgroup_body actor member k g) = Inl e"
      using assms i free grp
      by (auto simp: change_member_subgroup_body_def change_member_group_like_cpp_def Let_def)
    then show ?thesis
      using False free assms(2)
      by (auto simp: change_member_subgroup_like_cpp_def with_group_def may_manage_def is_leader_like_cpp_def
          split: prod.split sum.splits)
  qed
qed

theorem subgroup_move_witness:
  "\<exists>out. fst (change_member_subgroup_like_cpp 1 gA gC 3 (fst (run_group_ops sample_raid group_start))) = Inr out \<and>
     member_group_like_cpp (outcome_group out) gC = 3 \<and> member_group_like_cpp (outcome_group out) gB = 0"
proof -
  let ?a = "fst (run_group_ops sample_raid group_start)"
  have l: "length sample_raid < 2 ^ 32 - 1" by (simp add: sample_raid_def sample_party_def)
  obtain g where g: "hm_get (groups ?a) 1 = Some g" "gC \<in> set (group_members g)" "is_raid_group g"
    "leader_guid g = gA" "member_group_like_cpp g gC = 0" "member_group_like_cpp g gB = 0"
    "subgroup_size 3 (member_slots g) = 0"
    by (simp add: sample_raid_def sample_party_def group_eval member_group_like_cpp_def)
  have "gB \<noteq> gC" by (simp add: group_eval)
  with subgroup_move [OF run_ok [OF l] g(1,3,2), of gA 3] g show ?thesis
    by (auto split: sum.splits)
qed

text \<open>
  Swapping two raid members of different subgroups exchanges their subgroups, leaves every
  other member and all subgroup counters as they were, and tells the database both moves.
\<close>

theorem subgroup_swap:
  assumes "registry_ok a" "hm_get (groups a) gid = Some g" "is_raid_group g"
    and "first \<in> set (group_members g)" "second \<in> set (group_members g)"
    and "leader_guid g = actor \<or> is_assistant_like_cpp g actor"
    and "member_group_like_cpp g first \<noteq> member_group_like_cpp g second"
  shows "\<exists>out. fst (swap_member_subgroups_like_cpp gid actor first second a) = Inr out \<and>
    (\<forall>x. member_group_like_cpp (outcome_group out) x =
       (if x = first then member_group_like_cpp g second
        else if x = second then member_group_like_cpp g first else member_group_like_cpp g x)) \<and>
    raid_subgroup_counts (outcome_group out) = raid_subgroup_counts g \<and>
    outcome_persistence out = [UpdateMemberSubgroup first (member_group_like_cpp g second),
                               UpdateMemberSubgroup second (member_group_like_cpp g first)]"
proof -
  have wf: "group_wf g" using registry_ok_get [OF assms(1,2)] by (simp add: group_ok_def)
  obtain i where i: "slot_position first g = Some i" using member_has_position [OF wf assms(4)] by blast
  obtain j where j: "slot_position second g = Some j" using member_has_position [OF wf assms(5)] by blast
  note gi = member_group_slot [OF i] and gj = member_group_slot [OF j]
  have ij: "i \<noteq> j" and ne: "first \<noteq> second" using assms(7) gi gj by auto
  define g1 where "g1 = set_slot_subgroup i (slot_subgroup (member_slots g ! j)) g"
  define g2 where "g2 = set_slot_subgroup j (slot_subgroup (member_slots g ! i)) g1"
  have j1: "slot_position second g1 = Some j"
  proof -
    have "map slot_guid (member_slots g1) = map slot_guid (member_slots g)"
      unfolding g1_def using slot_position_Some [OF i] by (intro set_slot_subgroup_maps(1)) blast
    then show ?thesis using j by (simp only: slot_position_guids)
  qed
  have m1: "member_group_like_cpp g1 x =
      (if x = first then slot_subgroup (member_slots g ! j) else member_group_like_cpp g x)" for x
    by (rule member_group_move [OF i]) (simp add: g1_def)
  have m2: "member_group_like_cpp g2 x =
      (if x = second then slot_subgroup (member_slots g ! i) else member_group_like_cpp g1 x)" for x
    by (rule member_group_move [OF j1]) (simp only: g2_def)
  have "swap_members_groups_like_cpp first second g =
      (Some [(first, slot_subgroup (member_slots g ! j)), (second, slot_subgroup (member_slots g ! i))],
       bump_sequence g2)"
    using assms(3,7) i j ij gi gj by (simp add: swap_members_groups_like_cpp_def Let_def g1_def g2_def)
  then have "fst (swap_member_subgroups_like_cpp gid actor first second a) =
      Inr \<lparr>outcome_group = bump_sequence g2,
           outcome_facts = [(first, slot_subgroup (member_slots g ! j)), (second, slot_subgroup (member_slots g ! i))],
           outcome_persistence = [UpdateMemberSubgroup first (slot_subgroup (member_slots g ! j)),
                                  UpdateMemberSubgroup second (slot_subgroup (member_slots g ! i))]\<rparr>"
    using assms(2,6)
    by (simp add: swap_member_subgroups_like_cpp_def with_group_def swap_member_subgroups_body_def
        may_manage_def is_leader_like_cpp_def)
  moreover have "member_group_like_cpp (bump_sequence g2) x = member_group_like_cpp g2 x" for x
    by (simp add: member_group_like_cpp_def member_slot_like_cpp_def)
  moreover have "raid_subgroup_counts g2 = raid_subgroup_counts g" by (simp add: g1_def g2_def)
  ultimately show ?thesis using m1 m2 gi gj ne by auto
qed

text \<open>Two raid members in different subgroups.\<close>

definition sample_split_raid :: "GroupOp list" where
  "sample_split_raid = sample_raid @ [OpChangeSubgroup 1 gA gC 3]"

lemmas subgroup_eval = change_member_subgroup_like_cpp_def change_member_subgroup_body_def
  change_member_group_like_cpp_def may_manage_def has_free_slot_sub_group_like_cpp_def
  slot_position_def set_slot_subgroup_def member_group_like_cpp_def

theorem subgroup_swap_witness:
  "\<exists>out. fst (swap_member_subgroups_like_cpp 1 gA gB gC (fst (run_group_ops sample_split_raid group_start))) = Inr out \<and>
     member_group_like_cpp (outcome_group out) gC = 0 \<and> member_group_like_cpp (outcome_group out) gB = 3"
proof -
  let ?a = "fst (run_group_ops sample_split_raid group_start)"
  have l: "length sample_split_raid < 2 ^ 32 - 1"
    by (simp add: sample_split_raid_def sample_raid_def sample_party_def)
  obtain g where g: "hm_get (groups ?a) 1 = Some g" "gB \<in> set (group_members g)" "gC \<in> set (group_members g)"
    "is_raid_group g" "leader_guid g = gA" "member_group_like_cpp g gC = 3" "member_group_like_cpp g gB = 0"
    by (simp add: sample_split_raid_def sample_raid_def sample_party_def group_eval subgroup_eval)
  have ne: "gB \<noteq> gC" by (simp add: group_eval)
  have act: "leader_guid g = gA \<or> is_assistant_like_cpp g gA" using g by simp
  have dg: "member_group_like_cpp g gB \<noteq> member_group_like_cpp g gC" using g by simp
  from subgroup_swap [OF run_ok [OF l] g(1,4,2,3) act dg] g ne show ?thesis by auto
qed

section \<open>Looter rotation\<close>

definition looter_guids :: "GroupInfo \<Rightarrow> ObjectGuid list" where
  "looter_guids g = map slot_guid (member_slots g)"

definition advance_looter :: "ObjectGuid list \<Rightarrow> GroupInfo \<Rightarrow> GroupInfo" where
  "advance_looter eligible g = snd (update_looter_guid_like_cpp eligible False g)"

lemma next_looter_guids:
  "next_looter n eligible (member_slots g) =
     find (\<lambda>x. x \<in> set eligible) (drop n (looter_guids g) @ take n (looter_guids g))"
proof -
  have "map_option slot_guid (find (\<lambda>s. slot_guid s \<in> set eligible) xs) =
        find (\<lambda>x. x \<in> set eligible) (map slot_guid xs)" for xs
    by (induction xs) auto
  from this [of "drop n (member_slots g) @ take n (member_slots g)"]
  show ?thesis by (simp add: next_looter_def looter_guids_def drop_map take_map)
qed

lemma advance_looter_sel [simp]:
  "looter_guids (advance_looter eligible g) = looter_guids g"
  "group_loot_method (advance_looter eligible g) = group_loot_method g"
  by (simp_all add: advance_looter_def update_looter_guid_like_cpp_def looter_guids_def Let_def)

lemma advance_looter_guid:
  assumes "group_loot_method g \<noteq> LOOT_METHOD_FREE_FOR_ALL_LIKE_CPP"
  defines "start \<equiv> (case position (\<lambda>x. x = looter_guid g) (looter_guids g) of None \<Rightarrow> 0 | Some i \<Rightarrow> i + 1)"
  shows "looter_guid (advance_looter eligible g) =
    (case find (\<lambda>x. x \<in> set eligible) (drop start (looter_guids g) @ take start (looter_guids g)) of
       None \<Rightarrow> ObjectGuid_EMPTY | Some l \<Rightarrow> l)"
  using assms(1)
  by (auto simp: advance_looter_def update_looter_guid_like_cpp_def Let_def looter_guid_like_cpp_def
      slot_position_guids next_looter_guids start_def looter_guids_def [symmetric] split: option.splits)

lemma find_first_eligible:
  assumes "r < length xs" "P (xs ! r)"
  shows "\<exists>k\<le>r. find P xs = Some (xs ! k)"
  using assms
proof (induction xs arbitrary: r)
  case (Cons x xs)
  show ?case
  proof (cases "P x")
    case True
    then show ?thesis by (intro exI [of _ 0]) simp
  next
    case False
    with Cons.prems obtain j where "r = Suc j" by (cases r) auto
    with Cons False obtain k where "k \<le> j" "find P xs = Some (xs ! k)" by auto
    with False \<open>r = Suc j\<close> show ?thesis by (intro exI [of _ "Suc k"]) simp
  qed
qed simp

text \<open>How many advances away from position \<open>p\<close> position \<open>q\<close> is at most.\<close>

definition cyclic_distance :: "nat \<Rightarrow> nat \<Rightarrow> nat \<Rightarrow> nat" where
  "cyclic_distance n p q = (if p < q then q - p else q + n - p)"

lemma position_nth_distinct: "distinct xs \<Longrightarrow> i < length xs \<Longrightarrow> position (\<lambda>x. x = xs ! i) xs = Some i"
proof -
  assume d: "distinct xs" and i: "i < length xs"
  then have "position (\<lambda>x. x = xs ! i) xs \<noteq> None" by (auto simp: position_None)
  then obtain j where j: "position (\<lambda>x. x = xs ! i) xs = Some j" by blast
  from position_Some [OF j] d i have "j = i" by (auto simp: nth_eq_iff_index_eq)
  with j show ?thesis by simp
qed

lemma advance_towards:
  assumes d: "distinct (looter_guids g)" and ffa: "group_loot_method g \<noteq> LOOT_METHOD_FREE_FOR_ALL_LIKE_CPP"
    and p: "p < length (looter_guids g)" "looter_guid g = looter_guids g ! p"
    and q: "q < length (looter_guids g)" "looter_guids g ! q \<in> set eligible"
  shows "looter_guid (advance_looter eligible g) = looter_guids g ! q \<or>
    (\<exists>p'<length (looter_guids g). looter_guid (advance_looter eligible g) = looter_guids g ! p' \<and>
       cyclic_distance (length (looter_guids g)) p' q < cyclic_distance (length (looter_guids g)) p q)"
proof -
  let ?L = "looter_guids g" and ?n = "length (looter_guids g)"
  let ?R = "drop (p + 1) ?L @ take (p + 1) ?L"
  let ?d = "cyclic_distance ?n p q"
  have rlen: "length ?R = ?n" using p by simp
  have nth: "?R ! r = ?L ! (if p + 1 + r < ?n then p + 1 + r else p + 1 + r - ?n)" if "r < ?n" for r
    using that p(1) by (auto simp: nth_append add.commute)
  have d1: "?d - 1 < ?n" "0 < ?d" using p(1) q(1) by (auto simp: cyclic_distance_def)
  have "?R ! (?d - 1) = ?L ! q"
    using nth [OF d1(1)] p(1) q(1) by (auto simp: cyclic_distance_def)
  then obtain k where k: "k \<le> ?d - 1" "find (\<lambda>x. x \<in> set eligible) ?R = Some (?R ! k)"
    using find_first_eligible [of "?d - 1" ?R "\<lambda>x. x \<in> set eligible"] d1(1) rlen q(2) by auto
  have pos: "position (\<lambda>x. x = looter_guid g) ?L = Some p"
    using position_nth_distinct [OF d p(1)] p(2) by simp
  have new: "looter_guid (advance_looter eligible g) = ?R ! k"
    using advance_looter_guid [OF ffa, of eligible] pos k(2) by simp
  show ?thesis
  proof (cases "k = ?d - 1")
    case True
    then show ?thesis using new \<open>?R ! (?d - 1) = ?L ! q\<close> by simp
  next
    case False
    with k(1) have kd: "k + 1 < ?d" by simp
    have kn: "k < ?n" using kd d1 by linarith
    let ?p' = "if p + 1 + k < ?n then p + 1 + k else p + 1 + k - ?n"
    have "?p' < ?n" using p(1) kn by auto
    moreover have "looter_guid (advance_looter eligible g) = ?L ! ?p'" using new nth [OF kn] by simp
    moreover have "cyclic_distance ?n ?p' q < ?d"
      using kd p(1) q(1) kn by (auto simp: cyclic_distance_def split: if_splits)
    ultimately show ?thesis by blast
  qed
qed

lemma advance_reaches:
  assumes "distinct (looter_guids g)" "group_loot_method g \<noteq> LOOT_METHOD_FREE_FOR_ALL_LIKE_CPP"
    and "p < length (looter_guids g)" "looter_guid g = looter_guids g ! p"
    and "q < length (looter_guids g)" "looter_guids g ! q \<in> set eligible"
  shows "\<exists>k\<le>cyclic_distance (length (looter_guids g)) p q.
           looter_guid ((advance_looter eligible ^^ k) g) = looter_guids g ! q"
  using assms
proof (induction "cyclic_distance (length (looter_guids g)) p q" arbitrary: g p rule: less_induct)
  case less
  have pos: "0 < cyclic_distance (length (looter_guids g)) p q"
    using less.prems(3,5) by (auto simp: cyclic_distance_def)
  from advance_towards [OF less.prems] show ?case
  proof (elim disjE exE conjE)
    assume "looter_guid (advance_looter eligible g) = looter_guids g ! q"
    then show ?thesis using pos by (intro exI [of _ 1]) simp
  next
    fix p' assume p': "p' < length (looter_guids g)"
      "looter_guid (advance_looter eligible g) = looter_guids g ! p'"
      "cyclic_distance (length (looter_guids g)) p' q < cyclic_distance (length (looter_guids g)) p q"
    from less.hyps [of "advance_looter eligible g" p'] p' less.prems
    obtain k where k: "k \<le> cyclic_distance (length (looter_guids g)) p' q"
      "looter_guid ((advance_looter eligible ^^ k) (advance_looter eligible g)) = looter_guids g ! q"
      by auto
    then show ?thesis using p'(3)
      by (intro exI [of _ "Suc k"]) (simp add: funpow_swap1)
  qed
qed

text \<open>
  C32: The looter rotation is fair: in a group that does not use free-for-all, advancing the
  looter over a fixed set of eligible members makes every eligible member the looter within
  as many advances as the group has members, plus one when the current looter is not a member.
\<close>

theorem looter_rotation_fair:
  assumes "group_wf g" "group_loot_method g \<noteq> LOOT_METHOD_FREE_FOR_ALL_LIKE_CPP"
    and "m \<in> set (group_members g)" "m \<in> set eligible"
  shows "\<exists>k\<le>length (group_members g) + 1.
    looter_guid (((\<lambda>h. snd (update_looter_guid_like_cpp eligible False h)) ^^ k) g) = m"
proof -
  let ?L = "looter_guids g" and ?n = "length (looter_guids g)"
  have adv: "(\<lambda>h. snd (update_looter_guid_like_cpp eligible False h)) = advance_looter eligible"
    by (simp add: fun_eq_iff advance_looter_def)
  have L: "?L = group_members g" and d: "distinct ?L" using assms(1) by (auto simp: looter_guids_def group_wf_def)
  obtain q where q: "q < ?n" "?L ! q = m" using assms(3) L by (metis in_set_conv_nth)
  have dist: "cyclic_distance ?n p q \<le> ?n" if "p < ?n" for p using that q(1) by (auto simp: cyclic_distance_def)
  show ?thesis
  proof (cases "looter_guid g \<in> set ?L")
    case True
    then obtain p where p: "p < ?n" "looter_guid g = ?L ! p" by (metis in_set_conv_nth)
    from advance_reaches [OF d assms(2) p q(1)] q(2) assms(4) dist [OF p(1)] L show ?thesis
      unfolding adv by (metis le_SucI le_trans Suc_eq_plus1)
  next
    case False
    let ?g1 = "advance_looter eligible g"
    have none: "position (\<lambda>x. x = looter_guid g) ?L = None" using False by (auto simp: position_None)
    obtain k where k: "k \<le> q" "find (\<lambda>x. x \<in> set eligible) ?L = Some (?L ! k)"
      using find_first_eligible [of q ?L "\<lambda>x. x \<in> set eligible"] q assms(4) by auto
    have l1: "looter_guid ?g1 = ?L ! k" "k < ?n"
      using advance_looter_guid [OF assms(2), of eligible] none k q(1) by auto
    from advance_reaches [of ?g1 k q eligible] d assms(2,4) l1 q
    obtain j where j: "j \<le> cyclic_distance ?n k q" "looter_guid ((advance_looter eligible ^^ j) ?g1) = m"
      by auto
    then show ?thesis
      unfolding adv using dist [OF l1(2)] L
      by (intro exI [of _ "Suc j"]) (simp add: funpow_swap1)
  qed
qed

theorem looter_rotation_fair_witness:
  "\<exists>g. hm_get (groups (fst (run_group_ops sample_raid group_start))) 1 = Some g \<and> looter_guid g = gA \<and>
     (\<exists>k\<le>4. looter_guid (((\<lambda>h. snd (update_looter_guid_like_cpp [gC, gB] False h)) ^^ k) g) = gC)"
proof -
  have l: "length sample_raid < 2 ^ 32 - 1" by (simp add: sample_raid_def sample_party_def)
  obtain g where g: "hm_get (groups (fst (run_group_ops sample_raid group_start))) 1 = Some g"
    "group_members g = [gA, gB, gC]" "looter_guid g = gA" "group_loot_method g \<noteq> LOOT_METHOD_FREE_FOR_ALL_LIKE_CPP"
    by (simp add: sample_raid_def sample_party_def group_eval)
  have wf: "group_wf g" using registry_ok_get [OF run_ok [OF l] g(1)] by (simp add: group_ok_def)
  from looter_rotation_fair [OF wf g(4), of gC "[gC, gB]"] g show ?thesis
    by (simp add: numeral_eq_Suc)
qed

section \<open>Target icons\<close>

lemma empty_icon_raw: "EMPTY_TARGET_ICON_RAW_LIKE_CPP = to_raw_bytes ObjectGuid_EMPTY"
proof -
  have "to_le_bytes n (0 :: u64) = replicate n 0" for n by (induction n) auto
  then show ?thesis
    by (simp add: EMPTY_TARGET_ICON_RAW_LIKE_CPP_def to_raw_bytes_def ObjectGuid_EMPTY_def
        flip: replicate_add)
qed

lemma raw_bytes_inject: "to_raw_bytes g = to_raw_bytes h \<longleftrightarrow> g = h"
proof
  have bytes: "from_le_bytes (to_le_bytes 8 w) = w" for w :: u64 by simp
  assume "to_raw_bytes g = to_raw_bytes h"
  then have "to_le_bytes 8 (low_value g) = to_le_bytes 8 (low_value h)"
    "to_le_bytes 8 (high_value g) = to_le_bytes 8 (high_value h)"
    by (simp_all add: to_raw_bytes_def)
  then have "low_value g = low_value h" "high_value g = high_value h"
    using bytes by metis+
  then show "g = h" by (cases g; cases h) simp
qed simp

lemma clear_target_icons_spec:
  "\<forall>k\<in>set ks. k < length icons \<Longrightarrow> raw \<noteq> EMPTY_TARGET_ICON_RAW_LIKE_CPP \<Longrightarrow>
     length (fst (clear_target_icons raw ks icons us)) = length icons \<and>
     (\<forall>i<length icons. fst (clear_target_icons raw ks icons us) ! i =
        (if i \<in> set ks \<and> icons ! i = raw then EMPTY_TARGET_ICON_RAW_LIKE_CPP else icons ! i))"
proof (induction ks arbitrary: icons us)
  case (Cons k ks)
  show ?case
  proof (cases "icons ! k = raw")
    case True
    have "\<forall>j\<in>set ks. j < length (icons[k := EMPTY_TARGET_ICON_RAW_LIKE_CPP])" using Cons.prems by simp
    note ih = Cons.IH [OF this Cons.prems(2), of "us @ [(of_nat k, ObjectGuid_EMPTY)]"]
    show ?thesis using ih True Cons.prems by (auto simp: nth_list_update)
  next
    case False
    note ih = Cons.IH [of icons us]
    show ?thesis using ih False Cons.prems by auto
  qed
qed simp

text \<open>
  Marking a target with an icon leaves the target with exactly that icon: afterwards the
  chosen symbol shows the target and no other symbol does, every symbol that showed
  something else still shows it, and the reported updates end with the new assignment.
\<close>

theorem target_icon_unique:
  assumes "length (target_icons g) = 8" "unat symbol < 8" "\<not> is_empty target"
  shows "\<exists>updates g'. set_target_icon_like_cpp symbol target g = (Some (updates @ [(symbol, target)]), g') \<and>
    (\<forall>i<8. target_icons g' ! i = to_raw_bytes target \<longleftrightarrow> i = unat symbol) \<and>
    (\<forall>i<8. i \<noteq> unat symbol \<and> target_icons g ! i \<noteq> to_raw_bytes target \<longrightarrow>
       target_icons g' ! i = target_icons g ! i)"
proof -
  let ?raw = "to_raw_bytes target"
  have ne: "?raw \<noteq> EMPTY_TARGET_ICON_RAW_LIKE_CPP"
    using assms(3) by (auto simp: empty_icon_raw raw_bytes_inject is_empty_def ObjectGuid_EMPTY_def)
  obtain icons us where c: "clear_target_icons ?raw [0..<8] (target_icons g) [] = (icons, us)" by fastforce
  have "\<forall>k\<in>set [0..<8]. k < length (target_icons g)" using assms(1) by simp
  note spec = clear_target_icons_spec [OF this ne, of "[]", unfolded c fst_conv]
  have len: "length icons = 8" and nth: "\<And>i. i < 8 \<Longrightarrow> icons ! i =
      (if target_icons g ! i = ?raw then EMPTY_TARGET_ICON_RAW_LIKE_CPP else target_icons g ! i)"
    using spec assms(1) by auto
  let ?g = "bump_sequence (g\<lparr>target_icons := icons[unat symbol := ?raw]\<rparr>)"
  have eq: "set_target_icon_like_cpp symbol target g = (Some (us @ [(symbol, target)]), ?g)"
    using assms(2,3) c by (simp add: set_target_icon_like_cpp_def TARGET_ICONS_COUNT_LIKE_CPP_def)
  have "target_icons ?g = icons[unat symbol := ?raw]" by (simp add: bump_sequence_def)
  then show ?thesis
    unfolding eq using nth len ne assms(2) by (auto simp: nth_list_update)
qed

theorem target_icon_unique_witness:
  "\<exists>updates g'. set_target_icon_like_cpp 2 gB (fst (GroupInfo_new gA GroupIds_initial)) = (updates, g') \<and>
     target_icons g' ! 2 = to_raw_bytes gB \<and> target_icons g' ! 3 \<noteq> to_raw_bytes gB"
proof -
  let ?g = "fst (GroupInfo_new gA GroupIds_initial)"
  have l: "length (target_icons ?g) = 8" by (simp add: group_eval)
  have n: "\<not> is_empty gB" by (simp add: group_eval is_empty_def)
  have u: "unat (2 :: u8) = 2" by simp
  then have s: "unat (2 :: u8) < 8" by simp
  obtain us g' where r: "set_target_icon_like_cpp 2 gB ?g = (Some (us @ [(2, gB)]), g')"
    "\<forall>i<8. target_icons g' ! i = to_raw_bytes gB \<longleftrightarrow> i = unat (2 :: u8)"
    using target_icon_unique [OF l s n] by blast
  have "target_icons g' ! 2 = to_raw_bytes gB" "target_icons g' ! 3 \<noteq> to_raw_bytes gB"
    using r(2) u by simp_all
  with r(1) show ?thesis by blast
qed

section \<open>Ready checks\<close>

text \<open>Ticks over one group, with all events in order.\<close>

fun ready_ticks :: "u32 list \<Rightarrow> GroupInfo \<Rightarrow> ReadyCheckEventLikeCpp list \<times> GroupInfo" where
  "ready_ticks [] g = ([], g)"
| "ready_ticks (d # ds) g =
     (case update_ready_check_like_cpp d g of (ev, g1) \<Rightarrow>
        (case ready_ticks ds g1 of (rest, g2) \<Rightarrow> (ev @ rest, g2)))"

lemma ready_ticks_idle: "\<not> ready_check_started g \<Longrightarrow> ready_ticks ds g = ([], g)"
  by (induction ds) (simp_all add: update_ready_check_like_cpp_def)

text \<open>
  C33: A ready check always ends: once it is started, any sequence of ticks that adds up to
  the 35 seconds completes it with exactly one \<open>Completed\<close> event, however the time is split,
  and leaves the flag down, the timer at zero and nobody marked ready.
\<close>

theorem ready_check_expires:
  assumes "ready_ok g" "ready_check_started g" "sum_list (map uint ds) \<ge> READYCHECK_DURATION_MS_LIKE_CPP"
  shows "fst (ready_ticks ds g) = [Completed 0 (group_guid g)] \<and>
    \<not> ready_check_started (snd (ready_ticks ds g)) \<and> ready_check_timer_ms (snd (ready_ticks ds g)) = 0 \<and>
    (\<forall>s\<in>set (member_slots (snd (ready_ticks ds g))). \<not> slot_ready_checked s)"
proof -
  have main: "ready_ok h \<Longrightarrow> ready_check_started h \<Longrightarrow> sum_list (map uint ds) \<ge> ready_check_timer_ms h \<Longrightarrow>
     fst (ready_ticks ds h) = [Completed 0 (group_guid h)] \<and>
     \<not> ready_check_started (snd (ready_ticks ds h)) \<and> ready_ok (snd (ready_ticks ds h))" for h
  proof (induction ds arbitrary: h)
    case Nil
    then show ?case by (simp add: ready_ok_def)
  next
    case (Cons d ds)
    let ?h = "h\<lparr>ready_check_timer_ms := ready_check_timer_ms h - uint d\<rparr>"
    show ?case
    proof (cases "ready_check_timer_ms h - uint d \<le> 0")
      case True
      then have u: "update_ready_check_like_cpp d h = end_ready_check_like_cpp ?h"
        using Cons.prems by (simp add: update_ready_check_like_cpp_def)
      have e: "fst (end_ready_check_like_cpp ?h) = [Completed 0 (group_guid h)]"
        "ready_ok (snd (end_ready_check_like_cpp ?h))"
        "\<not> ready_check_started (snd (end_ready_check_like_cpp ?h))"
        using end_ready [of ?h] Cons.prems by simp_all
      then show ?thesis by (simp add: u case_prod_beta ready_ticks_idle [OF e(3)])
    next
      case False
      then have u: "update_ready_check_like_cpp d h = ([], ?h)"
        using Cons.prems by (simp add: update_ready_check_like_cpp_def)
      have "ready_check_timer_ms h \<le> 35000" using Cons.prems by (simp add: ready_ok_def)
      moreover have "0 \<le> uint d" by simp
      ultimately have "ready_check_timer_ms h - uint d \<le> 35000" by linarith
      then have "ready_ok ?h" "ready_check_started ?h" "sum_list (map uint ds) \<ge> ready_check_timer_ms ?h"
        using Cons.prems False by (simp_all add: ready_ok_def)
      from Cons.IH [OF this] show ?thesis by (simp add: u case_prod_beta)
    qed
  qed
  have "ready_check_timer_ms g \<le> READYCHECK_DURATION_MS_LIKE_CPP"
    using assms(1,2) by (simp add: ready_ok_def READYCHECK_DURATION_MS_LIKE_CPP_def)
  with main [OF assms(1,2)] assms(3) show ?thesis by (simp add: ready_ok_def)
qed

lemma start_sample:
  "\<exists>g. ready_check_started g \<and> ready_ok g \<and> group_guid g = 1 \<and>
     g = snd (start_ready_check_like_cpp gA [gA, gB]
                (the (hm_get (groups (fst (run_group_ops sample_party group_start))) 1)))"
proof -
  let ?a = "fst (run_group_ops sample_party group_start)"
  have l: "length sample_party < 2 ^ 32 - 1" by (simp add: sample_party_def)
  obtain g where g: "hm_get (groups ?a) 1 = Some g" "group_guid g = 1"
    "ready_check_started (snd (start_ready_check_like_cpp gA [gA, gB] g))"
    by (simp add: sample_party_def group_eval start_ready_check_like_cpp_def slot_position_def
        offline_indices_def set_member_ready_checked_like_cpp_def mark_slot_ready_def
        is_ready_check_completed_like_cpp_def)
  have "ready_ok (snd (start_ready_check_like_cpp gA [gA, gB] g))"
    using start_ok [of g gA "[gA, gB]"] registry_ok_get [OF run_ok [OF l] g(1)] by (simp add: group_ok_def)
  moreover have "group_guid (snd (start_ready_check_like_cpp gA [gA, gB] g)) = 1"
    using ready_identity(1) [of g gA "[gA, gB]"] g(2) by (simp add: same_identity_def del: ready_identity)
  ultimately show ?thesis using g by simp
qed

theorem ready_check_expires_witness:
  "\<exists>g. ready_check_started g \<and> fst (ready_ticks [20000, 10000, 5000] g) = [Completed 0 1]"
proof -
  obtain g where g: "ready_check_started g" "ready_ok g" "group_guid g = 1" using start_sample by blast
  have "sum_list (map uint ([20000, 10000, 5000] :: u32 list)) \<ge> READYCHECK_DURATION_MS_LIKE_CPP"
    by (simp add: READYCHECK_DURATION_MS_LIKE_CPP_def)
  from ready_check_expires [OF g(2,1) this] g show ?thesis by auto
qed

section \<open>Two consequences of the code as it is\<close>

text \<open>
  After loading database rows with storage identifiers 1 and 3 the allocator hands out 2 and
  then 3, although a loaded group is registered under 3: unlike the scan over the store it
  mirrors, it skips no identifier in use.
\<close>

definition sample_row :: "u32 \<Rightarrow> GroupDbRowLikeCpp" where
  "sample_row sid =
     \<lparr>row_leader_guid_low = 1, row_loot_method = 5, row_looter_guid_low = 1, row_loot_threshold = 2,
      row_target_icons = replicate 8 (replicate 16 0), row_group_flags = 0, row_dungeon_difficulty_id = 1,
      row_raid_difficulty_id = 14, row_legacy_raid_difficulty_id = 3, row_master_looter_guid_low = 0,
      row_db_store_id = sid, row_lfg_dungeon_id = None, row_lfg_state = None\<rparr>"

definition sample_validator :: GroupDifficultyValidatorLikeCpp where
  "sample_validator = \<lparr>check_loaded_dungeon_difficulty_id_like_cpp = (\<lambda>d. d),
     check_loaded_raid_difficulty_id_like_cpp = (\<lambda>d. d),
     check_loaded_legacy_raid_difficulty_id_like_cpp = (\<lambda>d. d)\<rparr>"

definition sample_cache :: "(u64 \<times> GroupMemberCharacterLikeCpp) list" where
  "sample_cache = [(1, \<lparr>character_name = ''A'', character_race = 1, character_class = 1\<rparr>)]"

definition sample_loaded :: GroupAuthority where
  "sample_loaded = snd (load_groups_from_db_rows_like_cpp sample_validator sample_cache
     [sample_row 1, sample_row 3] [] registry_new)"

lemma allocator_returns_live_storage_id:
  "\<exists>g. get_group_by_db_store_id_like_cpp sample_loaded 3 = Some g \<and>
     (let (id1, ids1) = generate_group_db_store_id_like_cpp (group_ids sample_loaded);
          (id2, ids2) = generate_group_db_store_id_like_cpp ids1
      in id1 = 2 \<and> id2 = 3)"
  by (simp add: sample_loaded_def load_groups_from_db_rows_like_cpp_def load_group_row_def sample_row_def
      sample_validator_def sample_cache_def load_group_from_db_row_validated_like_cpp_def i64_try_from_def
      loaded_from_db_validated_like_cpp_def loaded_from_db_like_cpp_def register_group_like_cpp_def
      advance_next_group_db_store_id_after_load_like_cpp_def group_eval)

text \<open>
  A leader whose own pending entry is gone can join another group and still found one when a
  pending invitee accepts: accepting checks only that the leader is connected.  Afterwards the
  leader is a member of two groups.
\<close>

definition gM :: ObjectGuid where "gM = ObjectGuid 0x800000000000000 9"
definition gN :: ObjectGuid where "gN = ObjectGuid 0x800000000000000 10"

definition sample_double_membership :: "GroupOp list" where
  "sample_double_membership =
     [OpCreateInvite gA gB None 0 0, OpCreateInvite gA gC None 0 0, OpDeclineInvite gA None,
      OpCreateInvite gM gN None 0 0, OpAcceptInvite gN None (Some gM),
      OpCreateInvite gM gA (Some 1) 0 0, OpAcceptInvite gA None None,
      OpAcceptInvite gB None (Some gA)]"

lemma double_membership_run:
  "case run_group_ops sample_double_membership group_start of (a, p) \<Rightarrow>
     (case hm_get (groups a) 1 of None \<Rightarrow> False
      | Some g \<Rightarrow>
         (case hm_get (groups a) 2 of None \<Rightarrow> False
          | Some h \<Rightarrow> gA \<in> set (group_members g) \<and> gA \<in> set (group_members h)))"
  by code_simp

lemma leader_in_two_groups:
  "\<exists>g h. hm_get (groups (fst (run_group_ops sample_double_membership group_start))) 1 = Some g \<and>
         hm_get (groups (fst (run_group_ops sample_double_membership group_start))) 2 = Some h \<and>
         gA \<in> set (group_members g) \<and> gA \<in> set (group_members h)"
  using double_membership_run by (auto split: prod.splits option.splits)

end
