(* ===== verification/GroupSync.thy ===== *)
theory GroupSync
  imports GroupPersistence GroupBehaviour
begin

text \<open>
  Every transition of one group meets the contract \<open>persistent_operation\<close>; removal, joining
  and founding are treated one by one.  Together they give the refinement: in every run of the
  group system in which no character is in two groups, the tables always say what the registry
  says, and no statement fails.
\<close>

section \<open>Operations that write nothing of the durable part\<close>

named_theorems undisturbed_intros \<open>operations that leave roster and durable part alone\<close>

lemma undisturbed_refl [simp, undisturbed_intros]: "undisturbed g g"
  by (simp add: undisturbed_def)

lemma undisturbed_trans: "undisturbed g h \<Longrightarrow> undisturbed h k \<Longrightarrow> undisturbed g k"
  by (simp add: undisturbed_def)

lemma durable_bump [simp]:
  "group_durable (bump_sequence g) = group_durable g" "roster (bump_sequence g) = roster g"
  by (simp_all add: group_durable_def roster_def bump_sequence_def)

lemma undisturbed_bump [simp]: "undisturbed g (bump_sequence h) = undisturbed g h"
  by (simp add: undisturbed_def)

text \<open>Changes of slot fields other than owner and subgroup.\<close>

abbreviation slot_key :: "GroupMemberSlotLikeCpp \<Rightarrow> u64 \<times> u8" where
  "slot_key s \<equiv> (guid_counter (slot_guid s), slot_subgroup s)"

lemma roster_slot_update:
  assumes "\<And>s. slot_key (f s) = slot_key s"
  shows "roster (g\<lparr>member_slots := map f (member_slots g)\<rparr>) = roster g"
    and "roster (g\<lparr>member_slots := update_first p f (member_slots g)\<rparr>) = roster g"
    and "roster (g\<lparr>member_slots := (member_slots g)[i := f (member_slots g ! i)]\<rparr>) = roster g"
proof -
  have r: "roster h = map slot_key (member_slots h)" for h by (simp add: roster_def)
  show "roster (g\<lparr>member_slots := map f (member_slots g)\<rparr>) = roster g"
    using assms by (simp add: r)
  show "roster (g\<lparr>member_slots := update_first p f (member_slots g)\<rparr>) = roster g"
    unfolding r using map_update_first [of slot_key f p "member_slots g"] assms by simp
  have "map slot_key ((member_slots g)[i := f (member_slots g ! i)]) =
      (map slot_key (member_slots g))[i := slot_key (member_slots g ! i)]"
    by (simp only: map_update assms)
  also have "\<dots> = map slot_key (member_slots g)"
    by (cases "i < length (member_slots g)") (simp_all add: list_update_same_conv list_update_beyond)
  finally have "map slot_key ((member_slots g)[i := f (member_slots g ! i)]) = map slot_key (member_slots g)" .
  then show "roster (g\<lparr>member_slots := (member_slots g)[i := f (member_slots g ! i)]\<rparr>) = roster g"
    by (simp add: r)
qed

lemma undisturbed_slots:
  assumes "\<And>s. slot_key (f s) = slot_key s"
  shows "undisturbed g (g\<lparr>member_slots := map f (member_slots g)\<rparr>)"
    and "undisturbed g (g\<lparr>member_slots := update_first p f (member_slots g)\<rparr>)"
    and "undisturbed g (g\<lparr>member_slots := (member_slots g)[i := f (member_slots g ! i)]\<rparr>)"
  using roster_slot_update [OF assms] by (simp_all add: undisturbed_def group_durable_def)

lemma undisturbed_lfg_roles [undisturbed_intros]: "undisturbed g (snd (set_lfg_roles_like_cpp guid roles g))"
  by (auto simp: set_lfg_roles_like_cpp_def intro: undisturbed_slots split: option.split)

lemma undisturbed_remove_unique [undisturbed_intros]:
  "undisturbed g (snd (remove_unique_group_member_flag_like_cpp flag g))"
  by (auto simp: remove_unique_group_member_flag_like_cpp_def Let_def intro!: undisturbed_slots)

lemma undisturbed_flag_updates [undisturbed_intros]:
  "undisturbed g (snd (set_group_member_flag_updates_like_cpp guid b flag g))"
proof -
  define slots1 where "slots1 = (if unique_member_flag flag
     then map (clear_flag flag) (member_slots g) else member_slots g)"
  define f where "f = (if b then raise_flag flag else clear_flag flag)"
  have "undisturbed g (g\<lparr>member_slots := slots1\<rparr>)"
    by (auto simp: slots1_def intro: undisturbed_slots)
  moreover have "undisturbed (g\<lparr>member_slots := slots1\<rparr>) (g\<lparr>member_slots := slots1[i := f (slots1 ! i)]\<rparr>)" for i
    using undisturbed_slots(3) [of f "g\<lparr>member_slots := slots1\<rparr>" i] by (simp add: f_def)
  ultimately have "undisturbed g (g\<lparr>member_slots := slots1[i := f (slots1 ! i)]\<rparr>)" for i
    by (rule undisturbed_trans)
  then show ?thesis
    by (auto simp: set_group_member_flag_updates_like_cpp_def Let_def slots1_def f_def split: option.split)
qed

lemma undisturbed_member_flag [undisturbed_intros]:
  "undisturbed g (snd (set_group_member_flag_like_cpp guid b flag g))"
  using undisturbed_flag_updates [of g guid b flag]
  by (auto simp: set_group_member_flag_like_cpp_def split: prod.split option.split)

lemma undisturbed_settings [undisturbed_intros]:
  "undisturbed g (snd (set_target_icon_like_cpp symbol target g))"
  "undisturbed g (snd (add_raid_marker_like_cpp marker_id mapid pos transport g))"
  "undisturbed g (snd (delete_raid_marker_like_cpp marker_id g))"
  "undisturbed g (set_recent_instance_like_cpp mapid owner iid g)"
  "undisturbed g (snd (forget_recent_instance_like_cpp mapid g))"
  "undisturbed g (snd (link_owned_instance_like_cpp mapid iid g))"
  "undisturbed g (snd (unlink_owned_instance_like_cpp mapid iid g))"
  "undisturbed g (snd (update_looter_guid_like_cpp eligible ifneed g))"
  by (auto simp: undisturbed_def group_durable_def roster_def set_target_icon_like_cpp_def
      add_raid_marker_like_cpp_def delete_raid_marker_like_cpp_def set_recent_instance_like_cpp_def
      forget_recent_instance_like_cpp_def link_owned_instance_like_cpp_def bump_sequence_def
      unlink_owned_instance_like_cpp_def update_looter_guid_like_cpp_def Let_def split: prod.splits)

lemma undisturbed_reset [undisturbed_intros]:
  "undisturbed g (snd (apply_owned_instance_reset_result_like_cpp mapid result how g))"
  using undisturbed_settings(5) [of g mapid]
  by (simp add: apply_owned_instance_reset_result_like_cpp_def split: GroupInstanceResetResultLikeCpp.split)

lemma undisturbed_ready_fields [simp]:
  "undisturbed g (h\<lparr>ready_check_started := b\<rparr>) = undisturbed g h"
  "undisturbed g (h\<lparr>ready_check_timer_ms := t\<rparr>) = undisturbed g h"
  "undisturbed (h\<lparr>ready_check_started := b\<rparr>) k = undisturbed h k"
  "undisturbed (h\<lparr>ready_check_timer_ms := t\<rparr>) k = undisturbed h k"
  by (simp_all add: undisturbed_def group_durable_def roster_def)

lemma undisturbed_end_ready: "undisturbed g h \<Longrightarrow> undisturbed g (snd (end_ready_check_like_cpp h))"
  using undisturbed_slots(1) [of "\<lambda>slot. slot\<lparr>slot_ready_checked := False\<rparr>"
      "h\<lparr>ready_check_started := False, ready_check_timer_ms := 0\<rparr>"]
  by (auto simp: end_ready_check_like_cpp_def reset_member_ready_checked_like_cpp_def
      intro: undisturbed_trans)

lemma undisturbed_set_checked:
  "undisturbed g h \<Longrightarrow> undisturbed g (snd (set_member_ready_checked_like_cpp i h))"
  using undisturbed_slots(3) [of "\<lambda>slot. slot\<lparr>slot_ready_checked := True\<rparr>" h i]
    undisturbed_end_ready [of g "mark_slot_ready i h"]
  by (auto simp: set_member_ready_checked_like_cpp_def mark_slot_ready_def Let_def intro: undisturbed_trans)

lemma undisturbed_set_slot:
  "undisturbed g h \<Longrightarrow> undisturbed g (snd (set_member_ready_check_slot_like_cpp i b h))"
  using undisturbed_set_checked [of g h i]
  by (auto simp: set_member_ready_check_slot_like_cpp_def split: prod.split)

lemma undisturbed_mark_offline: "undisturbed g h \<Longrightarrow> undisturbed g (snd (mark_offline is h))"
proof (induction "is" arbitrary: h)
  case (Cons i "is")
  show ?case
    using Cons.IH [OF undisturbed_set_slot [OF Cons.prems, of i False]] Cons.IH [OF Cons.prems]
    by (simp add: case_prod_beta)
qed simp

lemma undisturbed_ready [undisturbed_intros]:
  "undisturbed g (snd (start_ready_check_like_cpp starter connected g))"
  "undisturbed g (snd (set_member_ready_check_like_cpp guid b g))"
  "undisturbed g (snd (update_ready_check_like_cpp d g))"
proof -
  let ?g1 = "g\<lparr>ready_check_started := True, ready_check_timer_ms := READYCHECK_DURATION_MS_LIKE_CPP\<rparr>"
  have "undisturbed g (snd (mark_offline is ?g1))" for "is"
    by (rule undisturbed_mark_offline) simp
  then show "undisturbed g (snd (start_ready_check_like_cpp starter connected g))"
    by (simp add: start_ready_check_like_cpp_def Let_def case_prod_beta undisturbed_set_checked
        split: option.split)
  show "undisturbed g (snd (set_member_ready_check_like_cpp guid b g))"
    by (simp add: set_member_ready_check_like_cpp_def undisturbed_set_slot split: option.split)
  show "undisturbed g (snd (update_ready_check_like_cpp d g))"
    by (simp add: update_ready_check_like_cpp_def Let_def undisturbed_end_ready)
qed

section \<open>The contract, by the kind of change\<close>

text \<open>
  A transition that changes at most the row of the group: its intents update that row as the
  durable part of the group changes.
\<close>

definition row_change :: "GroupInfo \<Rightarrow> GroupInfo \<Rightarrow> GroupPersistenceIntentLikeCpp list \<Rightarrow> bool" where
  "row_change g g' is \<longleftrightarrow>
     (\<exists>u. group_durable g' = u (group_durable g) \<and> roster g' = roster g \<and> list_all is_update is \<and>
       (\<forall>gv mv. fold intent_view is (gv, mv) =
          (gv(db_store_id g := map_option u (gv (db_store_id g))), mv)))"

lemma row_operation:
  assumes "group_operation body"
    and m: "\<And>g. group_members (snd (body g)) = group_members g"
    and f: "\<And>g e. fst (body g) = Inl e \<Longrightarrow> undisturbed g (snd (body g))"
    and r: "\<And>g facts is. fst (body g) = Inr (facts, is) \<Longrightarrow> list_all is_update is"
    and l: "\<And>g. leader_guid (snd (body g)) \<in> insert (leader_guid g) (set (group_members g))"
    and rs: "\<And>g. roster (snd (body g)) = roster g"
    and w: "\<And>g facts is. fst (body g) = Inr (facts, is) \<Longrightarrow> db_store_id g \<noteq> 0 \<Longrightarrow> row_change g (snd (body g)) is"
  shows "persistent_operation body"
proof (rule persistent_operation.intro [OF assms(1)], unfold_locales)
  fix g facts gv mv and "is" :: "GroupPersistenceIntentLikeCpp list"
  assume a: "fst (body g) = Inr (facts, is)" "db_store_id g \<noteq> 0" "gv (db_store_id g) = Some (group_durable g)"
    and mv: "\<And>c. c \<in> fst ` set (roster g) \<Longrightarrow> mv c = roster_map (db_store_id g) g c"
  from w [OF a(1,2)] obtain u where u: "group_durable (snd (body g)) = u (group_durable g)"
    "roster (snd (body g)) = roster g"
    "fold intent_view is (gv, mv) = (gv(db_store_id g := map_option u (gv (db_store_id g))), mv)"
    by (auto simp: row_change_def)
  moreover have "mv = (\<lambda>c. if c \<in> fst ` set (roster g) then roster_map (db_store_id g) (snd (body g)) c else mv c)"
    using mv u(2) by (auto simp: fun_eq_iff roster_map_def)
  ultimately show "fold intent_view is (gv, mv) =
      (gv(db_store_id g \<mapsto> group_durable (snd (body g))),
       \<lambda>c. if c \<in> fst ` set (roster g) then roster_map (db_store_id g) (snd (body g)) c else mv c)"
    using a(3) by simp
qed (use m f r l rs in \<open>auto simp: subgroups_small_def\<close>)

lemma row_change_flags:
  "undisturbed g g' \<Longrightarrow> row_change g g' (map (\<lambda>(m, flags). UpdateMemberFlags m flags) us)"
proof -
  assume "undisturbed g g'"
  moreover have "fold intent_view (map (\<lambda>(m, flags). UpdateMemberFlags m flags) us) v = v" for v
    by (induction us) (auto simp: case_prod_beta)
  moreover have "list_all is_update (map (\<lambda>(m, flags). UpdateMemberFlags m flags) us)"
    by (auto simp: list_all_iff is_update_def)
  ultimately show ?thesis
    unfolding row_change_def by (intro exI [of _ "\<lambda>r. r"]) (auto simp: undisturbed_def option.map_ident)
qed

lemma row_change_none: "undisturbed g g' \<Longrightarrow> row_change g g' []"
  using row_change_flags [of g g' "[]"] by simp

text \<open>Transitions that write at most member flags.\<close>

lemma quiet_operation:
  assumes "group_operation body" and u: "\<And>g. undisturbed g (snd (body g))"
    and i: "\<And>g facts is. fst (body g) = Inr (facts, is) \<Longrightarrow>
      \<exists>us. is = map (\<lambda>(m, flags). UpdateMemberFlags m flags) us"
  shows "persistent_operation body"
proof (rule row_operation [OF assms(1)])
  fix g facts and "is" :: "GroupPersistenceIntentLikeCpp list"
  assume a: "fst (body g) = Inr (facts, is)"
  from i [OF a] show "row_change g (snd (body g)) is" using row_change_flags [OF u [of g]] by auto
  then show "list_all is_update is" by (auto simp: row_change_def)
qed (use u in \<open>auto simp: undisturbed_def\<close>)

section \<open>The contract for each transition\<close>

lemma body_intents_simps [simp]: "is_update (UpdateLeader sid l)" "is_update (UpdateGroupType sid flags)"
  "is_update (UpdateMemberSubgroup m k)" "is_update (UpdateMemberFlags m f)" "is_update (UpdateDifficulty sid kind d)"
  by (simp_all add: is_update_def)

interpretation target_icon_db: persistent_operation "set_target_icon_body actor symbol target"
  for actor symbol target
  by (rule quiet_operation [OF target_icon_op.group_operation_axioms])
    (auto simp: set_target_icon_body_def case_option_snd intro!: undisturbed_intros
      split: prod.splits option.splits if_splits)

interpretation delete_marker_db: persistent_operation "delete_raid_marker_body actor marker_id"
  for actor marker_id
  by (rule quiet_operation [OF delete_marker_op.group_operation_axioms])
    (auto simp: delete_raid_marker_body_def case_pair_snd intro!: undisturbed_intros
      split: prod.splits if_splits)

interpretation add_marker_db: persistent_operation "add_raid_marker_body actor marker_id mapid pos transport"
  for actor marker_id mapid pos transport
  by (rule quiet_operation [OF add_marker_op.group_operation_axioms])
    (auto simp: add_raid_marker_body_def case_bool_snd intro!: undisturbed_intros
      split: prod.splits bool.splits if_splits)

interpretation recent_instance_db: persistent_operation "set_recent_instance_body mapid owner iid"
  for mapid owner iid
  by (rule quiet_operation [OF recent_instance_op.group_operation_axioms])
    (auto simp: set_recent_instance_body_def intro!: undisturbed_intros)

interpretation link_db: persistent_operation "link_owned_instance_body mapid iid" for mapid iid
  by (rule quiet_operation [OF link_op.group_operation_axioms])
    (auto simp: link_owned_instance_body_def case_pair_snd intro!: undisturbed_intros split: prod.splits)

interpretation unlink_db: persistent_operation "unlink_owned_instance_body mapid iid" for mapid iid
  by (rule quiet_operation [OF unlink_op.group_operation_axioms])
    (auto simp: unlink_owned_instance_body_def case_pair_snd intro!: undisturbed_intros split: prod.splits)

interpretation reset_db: persistent_operation "apply_instance_reset_body mapid result reset_method"
  for mapid result reset_method
  by (rule quiet_operation [OF reset_op.group_operation_axioms])
    (auto simp: apply_instance_reset_body_def case_pair_snd intro!: undisturbed_intros split: prod.splits)

interpretation looter_db: persistent_operation "advance_looter_body eligible" for eligible
  by (rule quiet_operation [OF looter_op.group_operation_axioms])
    (auto simp: advance_looter_body_def case_pair_snd intro!: undisturbed_intros split: prod.splits)

interpretation start_ready_db: persistent_operation "start_ready_check_body actor connected"
  for actor connected
  by (rule quiet_operation [OF start_ready_op.group_operation_axioms])
    (auto simp: start_ready_check_body_def case_prod_beta intro!: undisturbed_intros split: if_splits)

interpretation respond_ready_db: persistent_operation "respond_ready_check_body member ready"
  for member ready
  by (rule quiet_operation [OF respond_ready_op.group_operation_axioms])
    (auto simp: respond_ready_check_body_def case_prod_beta intro!: undisturbed_intros split: if_splits)

interpretation tick_db: persistent_operation "tick_body d" for d
  by (rule quiet_operation [OF tick_op.group_operation_axioms])
    (auto simp: tick_body_def case_prod_beta intro!: undisturbed_intros)

interpretation lfg_role_db: persistent_operation "set_lfg_role_body member role" for member role
  by (rule quiet_operation [OF lfg_role_op.group_operation_axioms])
    (auto simp: set_lfg_role_body_def Let_def case_prod_beta intro!: undisturbed_intros split: if_splits)

interpretation member_flag_db: persistent_operation "set_member_flag_body actor member apply_flag flag"
  for actor member apply_flag flag
proof (rule quiet_operation [OF member_flag_op.group_operation_axioms])
  show "undisturbed g (snd (set_member_flag_body actor member apply_flag flag g))" for g
    by (auto simp: set_member_flag_body_def case_option_snd intro!: undisturbed_intros)
  show "\<exists>us. is = map (\<lambda>(m, flags). UpdateMemberFlags m flags) us"
    if "fst (set_member_flag_body actor member apply_flag flag g) = Inr (facts, is)" for g facts "is"
  proof (intro exI)
    show "is = map (\<lambda>(m, flags). UpdateMemberFlags m flags) [(member, facts)]"
      using that by (auto simp: set_member_flag_body_def split: prod.splits option.splits if_splits)
  qed
qed

interpretation assignment_db: persistent_operation "set_party_assignment_body actor member assignment apply_flag"
  for actor member assignment apply_flag
proof (rule quiet_operation [OF assignment_op.group_operation_axioms])
  have u: "undisturbed g (snd (set_group_member_flag_updates_like_cpp member apply_flag flag
      (snd (remove_unique_group_member_flag_like_cpp flag g))))" for g flag
    by (rule undisturbed_trans [OF undisturbed_remove_unique undisturbed_flag_updates])
  show "undisturbed g (snd (set_party_assignment_body actor member assignment apply_flag g))" for g
    using u by (auto simp: set_party_assignment_body_def Let_def case_prod_beta split: option.split)
  show "\<exists>us. is = map (\<lambda>(m, flags). UpdateMemberFlags m flags) us"
    if "fst (set_party_assignment_body actor member assignment apply_flag g) = Inr (facts, is)" for g facts "is"
    using that by (auto simp: set_party_assignment_body_def Let_def case_prod_beta split: option.splits if_splits)
qed

text \<open>Transitions that write the row of the group.\<close>

lemma row_changeI:
  "group_durable g' = u (group_durable g) \<Longrightarrow> roster g' = roster g \<Longrightarrow> list_all is_update is \<Longrightarrow>
     (\<And>gv mv. fold intent_view is (gv, mv) = (gv(db_store_id g := map_option u (gv (db_store_id g))), mv)) \<Longrightarrow>
     row_change g g' is"
  unfolding row_change_def by blast

lemma convert_result:
  assumes "fst (convert_group_body actor raid g) = Inr (facts, is)"
  shows "is = [UpdateGroupType (db_store_id g) (group_flags (snd (convert_group_body actor raid g)))]"
    and "roster (snd (convert_group_body actor raid g)) = roster g"
    and "group_durable (snd (convert_group_body actor raid g)) =
      (group_durable g)\<lparr>d_flags := group_flags (snd (convert_group_body actor raid g))\<rparr>"
  using assms
  by (cases raid; auto simp: convert_group_body_def convert_to_raid_like_cpp_def convert_to_group_like_cpp_def
      init_raid_subgroups_counter_like_cpp_def group_durable_def roster_def bump_sequence_def split: if_splits)+

interpretation convert_db: persistent_operation "convert_group_body actor raid" for actor raid
proof (rule row_operation [OF convert_op.group_operation_axioms])
  show "group_members (snd (convert_group_body actor raid g)) = group_members g" for g
    by (cases raid) (auto simp: convert_group_body_def convert_to_raid_like_cpp_def convert_to_group_like_cpp_def
        init_raid_subgroups_counter_like_cpp_def)
  show "undisturbed g (snd (convert_group_body actor raid g))" if "fst (convert_group_body actor raid g) = Inl e" for g e
    using convert_body_error [OF that] by simp
  show "leader_guid (snd (convert_group_body actor raid g)) \<in> insert (leader_guid g) (set (group_members g))" for g
    by (cases raid) (auto simp: convert_group_body_def convert_to_raid_like_cpp_def convert_to_group_like_cpp_def
        init_raid_subgroups_counter_like_cpp_def)
  show "roster (snd (convert_group_body actor raid g)) = roster g" for g
    by (cases raid) (auto simp: convert_group_body_def convert_to_raid_like_cpp_def convert_to_group_like_cpp_def
        init_raid_subgroups_counter_like_cpp_def roster_def)
  fix g facts and "is" :: "GroupPersistenceIntentLikeCpp list"
  assume a: "fst (convert_group_body actor raid g) = Inr (facts, is)"
  show "row_change g (snd (convert_group_body actor raid g)) is"
    using convert_result [OF a] by (intro row_changeI) simp_all
  show "list_all is_update is" using convert_result(1) [OF a] by simp
qed

lemma everyone_result:
  assumes "fst (set_everyone_assistant_body actor b g) = Inr (facts, is)"
  shows "is = [UpdateGroupType (db_store_id g) (group_flags (snd (set_everyone_assistant_body actor b g)))]"
    and "roster (snd (set_everyone_assistant_body actor b g)) = roster g"
    and "group_durable (snd (set_everyone_assistant_body actor b g)) =
      (group_durable g)\<lparr>d_flags := group_flags (snd (set_everyone_assistant_body actor b g))\<rparr>"
  using assms
  by (auto simp: set_everyone_assistant_body_def set_everyone_is_assistant_like_cpp_def Let_def
      group_durable_def roster_def bump_sequence_def split: if_splits)

interpretation everyone_db: persistent_operation "set_everyone_assistant_body actor apply_flag"
  for actor apply_flag
proof (rule row_operation [OF everyone_op.group_operation_axioms])
  show "group_members (snd (set_everyone_assistant_body actor apply_flag g)) = group_members g" for g
    by (auto simp: set_everyone_assistant_body_def set_everyone_is_assistant_like_cpp_def Let_def)
  show "undisturbed g (snd (set_everyone_assistant_body actor apply_flag g))"
    if "fst (set_everyone_assistant_body actor apply_flag g) = Inl e" for g e
    using that by (auto simp: set_everyone_assistant_body_def split: if_splits prod.splits)
  show "leader_guid (snd (set_everyone_assistant_body actor apply_flag g)) \<in> insert (leader_guid g) (set (group_members g))" for g
    by (auto simp: set_everyone_assistant_body_def set_everyone_is_assistant_like_cpp_def Let_def)
  show "roster (snd (set_everyone_assistant_body actor apply_flag g)) = roster g" for g
    by (auto simp: set_everyone_assistant_body_def set_everyone_is_assistant_like_cpp_def Let_def roster_def)
  fix g facts and "is" :: "GroupPersistenceIntentLikeCpp list"
  assume a: "fst (set_everyone_assistant_body actor apply_flag g) = Inr (facts, is)"
  show "row_change g (snd (set_everyone_assistant_body actor apply_flag g)) is"
    using everyone_result [OF a] by (intro row_changeI) simp_all
  show "list_all is_update is" using everyone_result(1) [OF a] by simp
qed

lemma leader_roster: "roster (snd (change_leader_like_cpp l g)) = roster g"
  by (auto simp: change_leader_like_cpp_def Let_def split: option.split)
    (simp_all add: roster_def map_update_first)

lemma leader_durable:
  "fst (change_leader_like_cpp l g) = Some flags \<Longrightarrow>
     group_durable (snd (change_leader_like_cpp l g)) = (group_durable g)\<lparr>d_leader := guid_counter l\<rparr>"
  by (auto simp: change_leader_like_cpp_def Let_def group_durable_def bump_sequence_def split: option.splits if_splits)

lemma leader_among:
  "leader_guid (snd (change_leader_like_cpp l g)) \<in> {leader_guid g, l}"
  by (auto simp: change_leader_like_cpp_def Let_def split: option.split)

lemma leader_None: "fst (change_leader_like_cpp l g) = None \<Longrightarrow> snd (change_leader_like_cpp l g) = g"
  by (auto simp: change_leader_like_cpp_def Let_def split: option.splits)

interpretation leader_db: persistent_operation "change_leader_body actor new_leader" for actor new_leader
proof (rule row_operation [OF leader_op.group_operation_axioms])
  show "group_members (snd (change_leader_body actor new_leader g)) = group_members g" for g
    by (auto simp: change_leader_body_def case_option_snd)
  show "undisturbed g (snd (change_leader_body actor new_leader g))"
    if "fst (change_leader_body actor new_leader g) = Inl e" for g e
    using that leader_None [of new_leader g]
    by (auto simp: change_leader_body_def split: if_splits prod.splits option.splits)
  show "leader_guid (snd (change_leader_body actor new_leader g)) \<in> insert (leader_guid g) (set (group_members g))" for g
    using leader_among [of new_leader g] by (auto simp: change_leader_body_def case_option_snd)
  show "roster (snd (change_leader_body actor new_leader g)) = roster g" for g
    by (auto simp: change_leader_body_def case_option_snd leader_roster)
  fix g facts and "is" :: "GroupPersistenceIntentLikeCpp list"
  assume a: "fst (change_leader_body actor new_leader g) = Inr (facts, is)"
  then obtain flags where f: "fst (change_leader_like_cpp new_leader g) = Some flags"
    "is = (if db_store_id g \<noteq> 0 then [UpdateLeader (db_store_id g) new_leader] else []) @ [UpdateMemberFlags new_leader flags]"
    "snd (change_leader_body actor new_leader g) = snd (change_leader_like_cpp new_leader g)"
    by (auto simp: change_leader_body_def split: if_splits prod.splits option.splits)
  show "list_all is_update is" using f(2) by simp
  assume "db_store_id g \<noteq> 0"
  with f(2) show "row_change g (snd (change_leader_body actor new_leader g)) is"
    unfolding f(3) by (intro row_changeI) (simp_all add: leader_roster leader_durable [OF f(1)])
qed

interpretation difficulty_db: persistent_operation "set_difficulty_body actor difficulty kind"
  for actor difficulty kind
proof (rule row_operation [OF difficulty_op.group_operation_axioms])
  show "group_members (snd (set_difficulty_body actor difficulty kind g)) = group_members g" for g
    by (cases kind) (auto simp: set_difficulty_body_def set_dungeon_difficulty_id_like_cpp_def
        set_raid_difficulty_id_like_cpp_def set_legacy_raid_difficulty_id_like_cpp_def)
  show "undisturbed g (snd (set_difficulty_body actor difficulty kind g))"
    if "fst (set_difficulty_body actor difficulty kind g) = Inl e" for g e
    using set_difficulty_error [OF that] by simp
  show "leader_guid (snd (set_difficulty_body actor difficulty kind g)) \<in> insert (leader_guid g) (set (group_members g))" for g
    by (cases kind) (auto simp: set_difficulty_body_def set_dungeon_difficulty_id_like_cpp_def
        set_raid_difficulty_id_like_cpp_def set_legacy_raid_difficulty_id_like_cpp_def)
  show "roster (snd (set_difficulty_body actor difficulty kind g)) = roster g" for g
    by (cases kind) (auto simp: set_difficulty_body_def set_dungeon_difficulty_id_like_cpp_def
        set_raid_difficulty_id_like_cpp_def set_legacy_raid_difficulty_id_like_cpp_def roster_def)
  fix g facts and "is" :: "GroupPersistenceIntentLikeCpp list"
  assume a: "fst (set_difficulty_body actor difficulty kind g) = Inr (facts, is)"
  have r: "is = [UpdateDifficulty (db_store_id g) kind difficulty]"
    "roster (snd (set_difficulty_body actor difficulty kind g)) = roster g"
    "group_durable (snd (set_difficulty_body actor difficulty kind g)) =
       set_difficulty_durable kind difficulty (group_durable g)"
    using a by (cases kind; auto simp: set_difficulty_body_def set_dungeon_difficulty_id_like_cpp_def
        set_raid_difficulty_id_like_cpp_def set_legacy_raid_difficulty_id_like_cpp_def group_durable_def
        roster_def split: if_splits)+
  then show "row_change g (snd (set_difficulty_body actor difficulty kind g)) is"
    by (intro row_changeI) simp_all
  show "list_all is_update is" using r by simp
qed

text \<open>Transitions that write subgroups of members.\<close>

definition set_subgroups :: "(ObjectGuid \<times> u8) list \<Rightarrow> (u64 \<Rightarrow> u8 option) \<Rightarrow> u64 \<Rightarrow> u8 option" where
  "set_subgroups us f = fold (\<lambda>(m, k) f. f(guid_counter m \<mapsto> k)) us f"

lemma set_subgroups_simps [simp]:
  "set_subgroups [] f = f" "set_subgroups ((m, k) # us) f = set_subgroups us (f(guid_counter m \<mapsto> k))"
  by (simp_all add: set_subgroups_def)

lemma fold_member_subgroups:
  "(\<And>c. c \<in> C \<Longrightarrow> mv c = map_option (\<lambda>k. (sid, k)) (f c)) \<Longrightarrow> (\<And>c. c \<in> C \<Longrightarrow> f c \<noteq> None) \<Longrightarrow>
     guid_counter ` fst ` set us \<subseteq> C \<Longrightarrow>
     fold intent_view (map (\<lambda>(m, k). UpdateMemberSubgroup m k) us) (gv, mv) =
       (gv, \<lambda>c. if c \<in> C then map_option (\<lambda>k. (sid, k)) (set_subgroups us f c) else mv c)"
proof (induction us arbitrary: mv f)
  case Nil
  then show ?case by (auto simp: fun_eq_iff)
next
  case (Cons u us)
  obtain m k where u: "u = (m, k)" by (cases u)
  let ?c = "guid_counter m"
  let ?mv = "mv(?c := map_option (\<lambda>(s, _). (s, k)) (mv ?c))" and ?f = "f(?c \<mapsto> k)"
  have c: "?c \<in> C" using Cons.prems(3) by (simp add: u)
  then have "mv ?c = map_option (\<lambda>k. (sid, k)) (f ?c)" "f ?c \<noteq> None" using Cons.prems(1,2) by blast+
  then have mv: "?mv ?c = Some (sid, k)" by auto
  have "fold intent_view (map (\<lambda>(m, k). UpdateMemberSubgroup m k) us) (gv, ?mv) =
       (gv, \<lambda>c. if c \<in> C then map_option (\<lambda>k. (sid, k)) (set_subgroups us ?f c) else ?mv c)"
  proof (rule Cons.IH)
    show "?mv c = map_option (\<lambda>k. (sid, k)) (?f c)" if "c \<in> C" for c
      using Cons.prems(1) [OF that] mv by simp
    show "?f c \<noteq> None" if "c \<in> C" for c using Cons.prems(2) [OF that] by simp
    show "guid_counter ` fst ` set us \<subseteq> C" using Cons.prems(3) by simp
  qed
  moreover have "(\<lambda>d. if d \<in> C then x d else ?mv d) = (\<lambda>d. if d \<in> C then x d else mv d)" for x
    using c by (auto simp: fun_eq_iff)
  ultimately show ?case unfolding u by (simp cong: if_cong)
qed

lemma subgroup_operation:
  assumes "group_operation body"
    and m: "\<And>g. group_members (snd (body g)) = group_members g"
    and f: "\<And>g e. fst (body g) = Inl e \<Longrightarrow> undisturbed g (snd (body g))"
    and l: "\<And>g. leader_guid (snd (body g)) = leader_guid g"
    and sm: "\<And>g. group_wf g \<Longrightarrow> subgroups_small g \<Longrightarrow> subgroups_small (snd (body g))"
    and w: "\<And>g facts is. fst (body g) = Inr (facts, is) \<Longrightarrow> group_durable (snd (body g)) = group_durable g \<and>
      (\<exists>us. is = map (\<lambda>(m, k). UpdateMemberSubgroup m k) us \<and>
         (group_wf g \<longrightarrow> fst ` set us \<subseteq> set (group_members g)) \<and>
         (group_wf g \<longrightarrow> distinct (map fst (roster g)) \<longrightarrow>
            map_of (roster (snd (body g))) = set_subgroups us (map_of (roster g))))"
  shows "persistent_operation body"
proof (rule persistent_operation.intro [OF assms(1)], unfold_locales)
  fix g facts gv mv and "is" :: "GroupPersistenceIntentLikeCpp list"
  assume wf: "group_wf g" and inj: "inj_on guid_counter (set (group_members g))"
    and a: "fst (body g) = Inr (facts, is)" "gv (db_store_id g) = Some (group_durable g)"
    and mv: "\<And>c. c \<in> fst ` set (roster g) \<Longrightarrow> mv c = roster_map (db_store_id g) g c"
  from w [OF a(1)] wf roster_distinct [OF wf inj] obtain us where us:
    "is = map (\<lambda>(m, k). UpdateMemberSubgroup m k) us" "fst ` set us \<subseteq> set (group_members g)"
    "map_of (roster (snd (body g))) = set_subgroups us (map_of (roster g))"
    "group_durable (snd (body g)) = group_durable g" by auto
  have "fold intent_view is (gv, mv) = (gv, \<lambda>c. if c \<in> fst ` set (roster g)
      then map_option (\<lambda>k. (db_store_id g, k)) (set_subgroups us (map_of (roster g)) c) else mv c)"
    unfolding us(1)
  proof (rule fold_member_subgroups)
    show "mv c = map_option (\<lambda>k. (db_store_id g, k)) (map_of (roster g) c)" if "c \<in> fst ` set (roster g)" for c
      using mv [OF that] by (simp add: roster_map_def)
    show "map_of (roster g) c \<noteq> None" if "c \<in> fst ` set (roster g)" for c
      using that by (simp add: map_of_eq_None_iff)
    show "guid_counter ` fst ` set us \<subseteq> fst ` set (roster g)"
      using us(2) by (auto simp: roster_counters [OF wf])
  qed
  then show "fold intent_view is (gv, mv) =
      (gv(db_store_id g \<mapsto> group_durable (snd (body g))),
       \<lambda>c. if c \<in> fst ` set (roster g) then roster_map (db_store_id g) (snd (body g)) c else mv c)"
    using a(2) us(3,4) by (simp add: roster_map_def fun_upd_idem cong: if_cong)
next
  fix g facts and "is" :: "GroupPersistenceIntentLikeCpp list"
  assume "fst (body g) = Inr (facts, is)"
  from w [OF this] obtain us where "is = map (\<lambda>(m, k). UpdateMemberSubgroup m k) us" by blast
  then show "list_all is_update is" by (auto simp: list_all_iff)
qed (use m f l sm in auto)

lemma map_of_list_update:
  "distinct (map fst xs) \<Longrightarrow> i < length xs \<Longrightarrow> map_of (xs[i := (fst (xs ! i), v)]) = (map_of xs)(fst (xs ! i) \<mapsto> v)"
proof (induction xs arbitrary: i)
  case (Cons x xs)
  show ?case
  proof (cases i)
    case 0
    then show ?thesis by (cases x) (simp add: fun_eq_iff)
  next
    case (Suc j)
    with Cons.prems have "xs ! j \<in> set xs" "fst x \<notin> fst ` set xs" by simp_all
    then have "fst (xs ! j) \<noteq> fst x" by (metis image_eqI)
    with Cons Suc show ?thesis by (cases x) (auto simp: fun_eq_iff)
  qed
qed simp

lemma roster_set_slot:
  assumes "distinct (map fst (roster g))" "slot_position m g = Some i"
  shows "map_of (roster (set_slot_subgroup i k g)) = (map_of (roster g))(guid_counter m \<mapsto> k)"
    and "map fst (roster (set_slot_subgroup i k g)) = map fst (roster g)"
    and "slot_position n (set_slot_subgroup i k g) = slot_position n g"
proof -
  have i: "i < length (member_slots g)" "slot_guid (member_slots g ! i) = m"
    using assms(2) by (auto simp: slot_position_def dest: position_Some)
  have r: "roster (set_slot_subgroup i k g) = (roster g)[i := (fst (roster g ! i), k)]"
    using i(1) by (simp add: roster_def set_slot_subgroup_def map_update)
  have n: "fst (roster g ! i) = guid_counter m" "i < length (roster g)" using i by (simp_all add: roster_def)
  show "map_of (roster (set_slot_subgroup i k g)) = (map_of (roster g))(guid_counter m \<mapsto> k)"
    unfolding r using map_of_list_update [OF assms(1) n(2)] n(1) by simp
  show "map fst (roster (set_slot_subgroup i k g)) = map fst (roster g)"
    unfolding r using n by (simp add: map_update list_update_same_conv del: map_update) (simp add: map_update list_update_same_conv)
  show "slot_position n (set_slot_subgroup i k g) = slot_position n g"
    using i(1) by (simp add: slot_position_guids set_slot_subgroup_def map_list_update_same del: map_update)
qed

lemma counters_roster [simp]:
  "roster (subgroup_counter_decrease_like_cpp k g) = roster g"
  "roster (snd (subgroup_counter_increase_like_cpp k g)) = roster g"
  "group_durable (subgroup_counter_decrease_like_cpp k g) = group_durable g"
  "group_durable (snd (subgroup_counter_increase_like_cpp k g)) = group_durable g"
  "group_durable (set_slot_subgroup i k g) = group_durable g"
  "group_members (subgroup_counter_decrease_like_cpp k g) = group_members g"
  "group_members (snd (subgroup_counter_increase_like_cpp k g)) = group_members g"
  "group_members (set_slot_subgroup i k g) = group_members g"
  by (auto simp: roster_def group_durable_def subgroup_counter_decrease_like_cpp_def
      subgroup_counter_increase_like_cpp_def set_slot_subgroup_def Let_def split: option.splits)

lemma slot_position_member: "group_wf g \<Longrightarrow> slot_position m g = Some i \<Longrightarrow> m \<in> set (group_members g)"
proof -
  assume "group_wf g" and p: "slot_position m g = Some i"
  then have "map slot_guid (member_slots g) = group_members g" by (simp add: group_wf_def)
  moreover have "i < length (member_slots g)" "slot_guid (member_slots g ! i) = m"
    using p by (auto simp: slot_position_def dest: position_Some)
  ultimately show ?thesis by (metis length_map nth_map nth_mem)
qed

lemma small_slots: "subgroups_small g \<longleftrightarrow> (\<forall>s\<in>set (member_slots g). unat (slot_subgroup s) < 8)"
  by (simp add: subgroups_small_def roster_def)

lemma small_bump [simp]: "subgroups_small (bump_sequence g) = subgroups_small g"
  by (simp add: small_slots)

lemma small_counters [simp]:
  "subgroups_small (subgroup_counter_decrease_like_cpp k g) = subgroups_small g"
  "subgroups_small (snd (subgroup_counter_increase_like_cpp k g)) = subgroups_small g"
  by (simp_all add: subgroups_small_def)

lemma small_set_slot: "subgroups_small g \<Longrightarrow> unat k < 8 \<Longrightarrow> subgroups_small (set_slot_subgroup i k g)"
  by (auto simp: small_slots set_slot_subgroup_def dest!: set_update_subset_insert [THEN subsetD])

lemma small_nth: "subgroups_small g \<Longrightarrow> slot_position m g = Some i \<Longrightarrow> unat (slot_subgroup (member_slots g ! i)) < 8"
  by (auto simp: small_slots slot_position_def dest: position_Some)

lemma leader_slot_ops [simp]:
  "leader_guid (set_slot_subgroup i k g) = leader_guid g"
  "leader_guid (subgroup_counter_decrease_like_cpp k g) = leader_guid g"
  "leader_guid (snd (subgroup_counter_increase_like_cpp k g)) = leader_guid g"
  by (simp_all add: set_slot_subgroup_def subgroup_counter_decrease_like_cpp_def
      subgroup_counter_increase_like_cpp_def split: option.split)

interpretation change_subgroup_db: persistent_operation "change_member_subgroup_body actor member subgroup"
  for actor member subgroup
proof (rule subgroup_operation [OF change_subgroup_op.group_operation_axioms])
  show "group_members (snd (change_member_subgroup_body actor member subgroup g)) = group_members g" for g
    by (auto simp: change_member_subgroup_body_def change_member_group_like_cpp_def Let_def case_bool_snd
        split: option.split)
  show "undisturbed g (snd (change_member_subgroup_body actor member subgroup g))"
    if "fst (change_member_subgroup_body actor member subgroup g) = Inl e" for g e
    using change_subgroup_error [OF that] by simp
  show "leader_guid (snd (change_member_subgroup_body actor member subgroup g)) = leader_guid g" for g
    by (auto simp: change_member_subgroup_body_def change_member_group_like_cpp_def Let_def case_bool_snd
        split: option.split)
  show "subgroups_small (snd (change_member_subgroup_body actor member subgroup g))" if "subgroups_small g" for g
    using that by (auto simp: change_member_subgroup_body_def change_member_group_like_cpp_def Let_def case_bool_snd
        small_set_slot split: option.split)
  fix g facts and "is" :: "GroupPersistenceIntentLikeCpp list"
  assume a: "fst (change_member_subgroup_body actor member subgroup g) = Inr (facts, is)"
  then obtain i where i: "slot_position member g = Some i"
    "snd (change_member_subgroup_body actor member subgroup g) =
       bump_sequence (subgroup_counter_decrease_like_cpp (slot_subgroup (member_slots g ! i))
         (snd (subgroup_counter_increase_like_cpp subgroup (set_slot_subgroup i subgroup g))))"
    "is = [UpdateMemberSubgroup member subgroup]" and m: "member \<in> set (group_members g)"
    by (auto simp: change_member_subgroup_body_def change_member_group_like_cpp_def Let_def
        split: if_splits option.splits prod.splits bool.splits)
  show "group_durable (snd (change_member_subgroup_body actor member subgroup g)) = group_durable g \<and>
    (\<exists>us. is = map (\<lambda>(m, k). UpdateMemberSubgroup m k) us \<and>
       (group_wf g \<longrightarrow> fst ` set us \<subseteq> set (group_members g)) \<and>
       (group_wf g \<longrightarrow> distinct (map fst (roster g)) \<longrightarrow>
          map_of (roster (snd (change_member_subgroup_body actor member subgroup g))) =
            set_subgroups us (map_of (roster g))))"
    unfolding i(2,3) using m roster_set_slot(1) [OF _ i(1)]
    by (intro conjI exI [of _ "[(member, subgroup)]"]) simp_all
qed

interpretation swap_db: persistent_operation "swap_member_subgroups_body actor first second"
  for actor first second
proof (rule subgroup_operation [OF swap_op.group_operation_axioms])
  show "group_members (snd (swap_member_subgroups_body actor first second g)) = group_members g" for g
    by (auto simp: swap_member_subgroups_body_def swap_members_groups_like_cpp_def Let_def set_slot_subgroup_def
        case_option_snd split: option.split)
  show "undisturbed g (snd (swap_member_subgroups_body actor first second g))"
    if "fst (swap_member_subgroups_body actor first second g) = Inl e" for g e
    using swap_error [OF that] by simp
  show "leader_guid (snd (swap_member_subgroups_body actor first second g)) = leader_guid g" for g
    by (auto simp: swap_member_subgroups_body_def swap_members_groups_like_cpp_def Let_def
        case_option_snd split: option.split)
  show "subgroups_small (snd (swap_member_subgroups_body actor first second g))" if "subgroups_small g" for g
    using that by (auto simp: swap_member_subgroups_body_def swap_members_groups_like_cpp_def Let_def
        case_option_snd small_set_slot small_nth split: option.split)
  fix g facts and "is" :: "GroupPersistenceIntentLikeCpp list"
  assume a: "fst (swap_member_subgroups_body actor first second g) = Inr (facts, is)"
  then obtain i j where ij: "slot_position first g = Some i" "slot_position second g = Some j"
    "snd (swap_member_subgroups_body actor first second g) =
       bump_sequence (set_slot_subgroup j (slot_subgroup (member_slots g ! i))
         (set_slot_subgroup i (slot_subgroup (member_slots g ! j)) g))"
    "is = [UpdateMemberSubgroup first (slot_subgroup (member_slots g ! j)),
           UpdateMemberSubgroup second (slot_subgroup (member_slots g ! i))]"
    by (auto simp: swap_member_subgroups_body_def swap_members_groups_like_cpp_def Let_def
        split: if_splits option.splits prod.splits)
  let ?g1 = "set_slot_subgroup i (slot_subgroup (member_slots g ! j)) g"
  let ?us = "[(first, slot_subgroup (member_slots g ! j)), (second, slot_subgroup (member_slots g ! i))]"
  have "map_of (roster (set_slot_subgroup j (slot_subgroup (member_slots g ! i)) ?g1)) =
      set_subgroups ?us (map_of (roster g))" if d: "distinct (map fst (roster g))"
  proof -
    note s1 = roster_set_slot [OF d ij(1), where k = "slot_subgroup (member_slots g ! j)"]
    have "distinct (map fst (roster ?g1))" using s1(2) d by simp
    from roster_set_slot(1) [OF this, where m = second and i = j] s1 ij(2) show ?thesis by simp
  qed
  then show "group_durable (snd (swap_member_subgroups_body actor first second g)) = group_durable g \<and>
    (\<exists>us. is = map (\<lambda>(m, k). UpdateMemberSubgroup m k) us \<and>
       (group_wf g \<longrightarrow> fst ` set us \<subseteq> set (group_members g)) \<and>
       (group_wf g \<longrightarrow> distinct (map fst (roster g)) \<longrightarrow>
          map_of (roster (snd (swap_member_subgroups_body actor first second g))) =
            set_subgroups us (map_of (roster g))))"
    unfolding ij(3,4) using slot_position_member ij(1,2)
    by (intro conjI exI [of _ ?us]) auto
qed

end
