(* ===== verification/GroupSyncRuns.thy ===== *)
theory GroupSyncRuns
  imports GroupSync
begin

text \<open>
  Leaving, joining and founding keep registry and tables in agreement, and so does every run of
  the group system in which no character is a member of two groups: \<open>registry_database_agree\<close>.
\<close>

lemma persist_sync:
  assumes sync: "in_sync a db" and ok: "registry_ok a" "registry_ok a'" and one: "one_group_each a" "one_group_each a'"
    and upd: "hm_get (groups a') = (hm_get (groups a))(gid := go)"
    and old: "\<And>g. hm_get (groups a) gid = Some g \<Longrightarrow> db_store_id g = sid"
    and new: "\<And>g. go = Some g \<Longrightarrow> db_store_id g = sid"
    and fresh: "\<And>k g. k \<noteq> gid \<Longrightarrow> hm_get (groups a) k = Some g \<Longrightarrow> db_store_id g \<noteq> sid"
    and adm: "admissible is (table_views db)"
    and view: "fold intent_view is (table_views db) = ((group_view db)(sid := map_option group_durable go), mv)"
    and mv: "\<And>c. mv c =
      (case map_of (roster_of go) c of Some k \<Rightarrow> Some (sid, k)
       | None \<Rightarrow> if c \<in> fst ` set (roster_of (hm_get (groups a) gid)) then None else member_view db c)"
  shows "\<exists>db'. persist_group_intents_like_cpp execute_statement commit is db = Some (Applied (length is), db') \<and>
    in_sync a' db' \<and> tbl_characters db' = tbl_characters db"
proof -
  have "keys_ok db" using sync by (simp add: in_sync_def)
  then obtain db' where db': "persist_group_intents_like_cpp execute_statement commit is db =
      Some (Applied (length is), db')" "keys_ok db'"
    "table_views db' = fold intent_view is (table_views db)" "tbl_characters db' = tbl_characters db"
    using persist_intents [OF _ adm] by blast
  then have "group_view db' = (group_view db)(sid := map_option group_durable go)" "member_view db' = mv"
    using view by (simp_all add: table_views_def)
  with sync_update [OF sync ok one upd old new fresh db'(2)] mv have "in_sync a' db'" by simp
  with db' show ?thesis by blast
qed

lemma persist_nothing:
  "in_sync a db \<Longrightarrow> \<exists>db'. persist_group_intents_like_cpp execute_statement commit [] db = Some (Applied 0, db') \<and>
     in_sync a db' \<and> tbl_characters db' = tbl_characters db"
  by (simp add: persist_group_intents_like_cpp_def persist_group_commands_like_cpp_def)

lemma sync_member:
  assumes "in_sync a db" "registry_ok a" "one_group_each a" "hm_get (groups a) gid = Some g"
  shows "c \<in> fst ` set (roster g) \<Longrightarrow> member_view db c = roster_map (db_store_id g) g c"
proof -
  assume "c \<in> fst ` set (roster g)"
  then obtain k where k: "(c, k) \<in> set (roster g)" by auto
  have "distinct (map fst (roster g))"
    using roster_distinct one_group_inj [OF assms(3,4)] registry_ok_get [OF assms(2,4)] by (simp add: group_ok_def)
  moreover have "member_view db c = Some (db_store_id g, k)" using assms(1,4) k by (auto simp: in_sync_def)
  ultimately show ?thesis using k by (simp add: roster_map_def)
qed

lemma sync_member_Some:
  assumes "in_sync a db" "hm_get (groups a) gid = Some g" "map_of (roster g) c = Some k"
  shows "member_view db c = Some (db_store_id g, k)"
  using assms map_of_SomeD [OF assms(3)] by (auto simp: in_sync_def)

lemma sync_store_id:
  assumes "in_sync a db" "ids_ok a" "hm_get (groups a) gid = Some g" "member_view db c = Some (db_store_id g, k)"
  shows "(c, k) \<in> set (roster g)"
proof -
  obtain j h where h: "hm_get (groups a) j = Some h" "db_store_id h = db_store_id g" "(c, k) \<in> set (roster h)"
    using assms(1,4) by (auto simp: in_sync_def)
  then have "j = gid" using ids_unique [OF assms(2)] assms(3) unfolding unique_store_ids_def by blast
  with h assms(3) show ?thesis by simp
qed

section \<open>Leaving\<close>

lemma drop_roster:
  assumes "group_wf g" "inj_on guid_counter (set (group_members g))" "member \<in> set (group_members g)"
  shows "roster (drop_member_entries member g) = filter (\<lambda>(c, k). c \<noteq> guid_counter member) (roster g)"
proof -
  have "slot_guid ` set (member_slots g) = set (group_members g)"
    using assms(1) by (metis group_wf_def set_map)
  then have e: "s \<in> set (member_slots g) \<Longrightarrow> slot_guid s \<noteq> member \<longleftrightarrow> guid_counter (slot_guid s) \<noteq> guid_counter member" for s
    using assms(2,3) by (metis image_eqI inj_on_eq_iff)
  have "member_slots (drop_member_entries member g) = filter (\<lambda>s. slot_guid s \<noteq> member) (member_slots g)"
    by (simp add: drop_member_entries_def Let_def subgroup_counter_decrease_like_cpp_def split: option.split)
  also have "\<dots> = filter (\<lambda>s. guid_counter (slot_guid s) \<noteq> guid_counter member) (member_slots g)"
    by (rule filter_cong [OF refl]) (rule e)
  finally show ?thesis by (simp add: roster_def filter_map comp_def)
qed

lemma drop_durable: "group_durable (drop_member_entries member g) = group_durable g"
  by (auto simp: drop_member_entries_def group_durable_def Let_def subgroup_counter_decrease_like_cpp_def
      split: option.split)

lemma succession_roster:
  assumes "removal_succession member connected g = (s, g')"
  shows "roster g' = roster (drop_member_entries member g)"
    and "group_durable g' = (case s of None \<Rightarrow> group_durable g
           | Some l \<Rightarrow> (group_durable g)\<lparr>d_leader := guid_counter l\<rparr>)"
    and "group_members g' = group_members (drop_member_entries member g)"
proof -
  let ?g1 = "remove_member member g"
  have r1: "roster ?g1 = roster (drop_member_entries member g)" "group_durable ?g1 = group_durable g"
    "group_members ?g1 = group_members (drop_member_entries member g)"
    by (simp_all add: remove_member_def drop_durable)
  have "(s = None \<and> g' = ?g1) \<or> (s = None \<and> (\<exists>l. g' = snd (change_leader_like_cpp l ?g1) \<and>
           fst (change_leader_like_cpp l ?g1) = None)) \<or>
        (\<exists>l f. s = Some l \<and> fst (change_leader_like_cpp l ?g1) = Some f \<and> g' = snd (change_leader_like_cpp l ?g1))"
  proof (cases "length (group_members ?g1) \<ge> 2 \<and> leader_guid g = member")
    case False
    then have "removal_succession member connected g = (None, ?g1)"
      unfolding removal_succession_def Let_def by (rule if_not_P)
    with assms show ?thesis by simp
  next
    case lead: True
    show ?thesis
    proof (cases "find (\<lambda>c. c \<in> set (group_members ?g1)) connected")
      case None
      with lead assms show ?thesis by (simp add: removal_succession_def Let_def)
    next
      case (Some c)
      obtain r g2 where c: "change_leader_like_cpp c ?g1 = (r, g2)" by fastforce
      show ?thesis
      proof (cases r)
        case None
        with lead Some c assms have "s = None" "g' = g2" by (simp_all add: removal_succession_def Let_def)
        with c None show ?thesis by (metis fst_conv snd_conv)
      next
        case (Some f)
        with lead \<open>find (\<lambda>c. c \<in> set (group_members ?g1)) connected = Some c\<close> c assms
        have "s = Some c" "g' = g2" by (simp_all add: removal_succession_def Let_def)
        with c Some show ?thesis by (metis fst_conv snd_conv)
      qed
    qed
  qed
  then have "roster g' = roster ?g1 \<and> group_members g' = group_members ?g1 \<and>
      group_durable g' = (case s of None \<Rightarrow> group_durable ?g1
           | Some l \<Rightarrow> (group_durable ?g1)\<lparr>d_leader := guid_counter l\<rparr>)"
    by (auto simp: leader_roster leader_durable leader_None)
  then show "roster g' = roster (drop_member_entries member g)"
    "group_durable g' = (case s of None \<Rightarrow> group_durable g
       | Some l \<Rightarrow> (group_durable g)\<lparr>d_leader := guid_counter l\<rparr>)"
    "group_members g' = group_members (drop_member_entries member g)" using r1 by (simp_all cong: option.case_cong)
qed

lemma remove_member_sync:
  assumes sync: "in_sync a db" and ok: "registry_ok a" "ids_ok a" and one: "one_group_each a"
    and ok': "registry_ok (snd (remove_member_like_cpp gid member kind connected a))"
    and one': "one_group_each (snd (remove_member_like_cpp gid member kind connected a))"
  shows "\<exists>db'. persist_group_intents_like_cpp execute_statement commit
        (intents_of (fst (remove_member_like_cpp gid member kind connected a))) db =
      Some (Applied (length (intents_of (fst (remove_member_like_cpp gid member kind connected a)))), db') \<and>
    in_sync (snd (remove_member_like_cpp gid member kind connected a)) db' \<and>
    tbl_characters db' = tbl_characters db"
proof (cases "\<exists>g. hm_get (groups a) gid = Some g \<and> kick_guard kind member g = None \<and>
        member \<in> set (group_members g) \<and> \<not> (is_kick kind \<and> is_lfg_group_like_cpp g)")
  case False
  then have "snd (remove_member_like_cpp gid member kind connected a) = a \<and>
      intents_of (fst (remove_member_like_cpp gid member kind connected a)) = []"
    by (auto simp: remove_member_like_cpp_def intents_of_def split: option.split)
  then show ?thesis using persist_nothing [OF sync] by simp
next
  case True
  then obtain g where g: "hm_get (groups a) gid = Some g" and k: "kick_guard kind member g = None"
    "member \<in> set (group_members g)" "\<not> (is_kick kind \<and> is_lfg_group_like_cpp g)" by auto
  obtain s g' where sc: "removal_succession member connected g = (s, g')" by fastforce
  note sr = succession_roster [OF sc]
  have wf: "group_wf g" using registry_ok_get [OF ok(1) g] by (simp add: group_ok_def)
  have inj: "inj_on guid_counter (set (group_members g))" by (rule one_group_inj [OF one g])
  note dr = drop_roster [OF wf inj k(2)]
  let ?sid = "db_store_id g" and ?c = "guid_counter member"
  have sid: "db_store_id g' = ?sid"
    using succession_identity [of g member connected] sc by (simp add: same_identity_def)
  have gv: "group_view db ?sid = Some (group_durable g)" using sync g by (auto simp: in_sync_def)
  have fresh: "db_store_id h \<noteq> ?sid" if "j \<noteq> gid" "hm_get (groups a) j = Some h" for j h
    using ids_unique [OF ok(2)] g that by (auto simp: unique_store_ids_def)
  note mem = sync_member [OF sync ok(1) one g]
  show ?thesis
  proof (cases "length (group_members g') < 2")
    case gone: True
    have st: "remove_member_like_cpp gid member kind connected a =
        (Inr \<lparr>outcome_group = g',
          outcome_facts = \<lparr>removed_guid = member, removal_db_store_id = ?sid, disbanded = True,
                           new_leader_guid = s, remaining_members = group_members g'\<rparr>,
          outcome_persistence = [DeleteGroup ?sid, DeleteAllMembers ?sid, DeleteLfgData ?sid]\<rparr>,
         a\<lparr>groups := hm_remove gid (groups a),
           group_ids := free_group_db_store_id_like_cpp ?sid (group_ids a)\<rparr>)"
      using g k sc gone sid by (simp add: remove_member_like_cpp_def Let_def removal_persistence_def)
    show ?thesis
      unfolding st fst_conv snd_conv intents_of_def sum.case
    proof (rule persist_sync [OF sync ok(1) _ one, where go = None and gid = gid and sid = ?sid and
          mv = "\<lambda>c. case member_view db c of None \<Rightarrow> None | Some (s, k) \<Rightarrow> if s = ?sid then None else Some (s, k)"],
        goal_cases)
      case 1 then show ?case using ok' by (simp add: st)
    next
      case 2 then show ?case using one' by (simp add: st)
    next
      case (9 c)
      show ?case
      proof (cases "member_view db c")
        case None
        then show ?thesis by (simp add: roster_of_def)
      next
        case (Some sk)
        obtain s' k' where sk: "sk = (s', k')" by (cases sk)
        have "c \<in> fst ` set (roster g)" if "s' = ?sid"
          using sync_store_id [OF sync ok(2) g, of c k'] Some that by (force simp: sk)
        moreover have "s' = ?sid" if "c \<in> fst ` set (roster g)"
          using mem [OF that] Some sk by (cases "map_of (roster g) c") (simp_all add: roster_map_def)
        ultimately show ?thesis using Some g by (auto simp: roster_of_def sk)
      qed
    qed (use g fresh registry_ok_hm [OF ok(1)] in \<open>auto simp: table_views_def\<close>)
  next
    case stay: False
    let ?is = "DeleteMember member # (case s of None \<Rightarrow> [] | Some l \<Rightarrow> [UpdateLeader ?sid l])"
    have st: "snd (remove_member_like_cpp gid member kind connected a) = a\<lparr>groups := hm_insert gid g' (groups a)\<rparr>"
      "intents_of (fst (remove_member_like_cpp gid member kind connected a)) = ?is"
      using g k sc stay sid by (auto simp: remove_member_like_cpp_def Let_def removal_persistence_def intents_of_def
          cong: option.case_cong)
    have dist: "distinct (map fst (roster g))" by (rule roster_distinct [OF wf inj])
    have r': "map_of (roster g') c = (if c = ?c then None else map_of (roster g) c)" for c
      unfolding sr(1) dr by (subst map_of_filter_distinct [OF dist]) (auto split: option.split)
    have c: "?c \<in> fst ` set (roster g)" using k(2) by (simp add: roster_counters [OF wf])
    show ?thesis
      unfolding st
    proof (rule persist_sync [OF sync ok(1) _ one, where go = "Some g'" and gid = gid and sid = ?sid and
          mv = "(member_view db)(?c := None)"], goal_cases)
      case 1 then show ?case using ok' by (simp add: st)
    next
      case 2 then show ?case using one' by (simp add: st)
    next
      case 7 then show ?case by (cases s) (simp_all add: table_views_def)
    next
      case 8 then show ?case using gv sr(2) by (cases s) (simp_all add: table_views_def fun_upd_idem)
    next
      case (9 d)
      show ?case
      proof (cases "map_of (roster g) d")
        case None
        then have "d \<notin> fst ` set (roster g)" by (simp add: map_of_eq_None_iff)
        moreover from this have "d \<noteq> ?c" using c by blast
        ultimately show ?thesis using None g r' [of d] by (simp add: roster_of_def)
      next
        case (Some k)
        then have "d \<in> fst ` set (roster g)" by (force dest: map_of_SomeD)
        then show ?thesis
          using Some g c r' [of d] sync_member_Some [OF sync g Some] by (auto simp: roster_of_def)
      qed
    qed (use g sid fresh in auto)
  qed
qed

section \<open>Joining and founding\<close>

fun accept_intents :: "AcceptGroupInviteResultLikeCpp \<Rightarrow> GroupPersistenceIntentLikeCpp list" where
  "accept_intents (JoinedExisting g subgroup intents) = intents"
| "accept_intents (GroupCreated g subgroup intents) = intents"
| "accept_intents _ = []"

lemma find_fresh_slot:
  assumes "group_wf g" "guid \<notin> set (group_members g)" "member_slots h = member_slots g @ [fresh_slot guid k]"
  shows "slot_subgroup_or_default h guid = k"
proof -
  have "slot_guid ` set (member_slots g) = set (group_members g)" using assms(1) by (metis group_wf_def set_map)
  then have "find (\<lambda>slot. slot_guid slot = guid) (member_slots g) = None"
    using assms(2) by (auto simp: find_None_iff_all)
  then show ?thesis
    by (simp add: slot_subgroup_or_default_def member_slot_like_cpp_def assms(3) find_snoc fresh_slot_def)
qed

lemma add_member_roster:
  assumes wf: "group_wf g" and room: "\<not> is_full_like_cpp g" and new: "guid \<notin> set (group_members g)"
  defines "g' \<equiv> snd (add_member guid g)"
  shows "add_member guid g = (True, g')"
    and "roster g' = roster g @ [(guid_counter guid, slot_subgroup_or_default g' guid)]"
    and "group_durable g' = group_durable g" and "group_members g' = group_members g @ [guid]"
proof -
  have "fst (add_member guid g)" by (rule add_member_succeeds [OF wf room new])
  then show eq: "add_member guid g = (True, g')" by (simp add: g'_def prod_eq_iff)
  obtain k where k: "member_slots g' = member_slots g @ [fresh_slot guid k]" "group_durable g' = group_durable g"
    "group_members g' = group_members g @ [guid]"
  proof (cases "raid_subgroup_counts g")
    case None
    then show ?thesis using that [of 0] add_member_party [OF None new] eq by (simp add: group_durable_def bump_sequence_def)
  next
    case (Some cs)
    then have len: "length cs = 8" using wf by (simp add: group_wf_def counts_ok_def)
    obtain i where i: "position (\<lambda>c. unat c < 5) cs = Some i"
      using eq Some new by (cases "position (\<lambda>c. unat c < 5) cs") (simp_all add: add_member_raid_full [OF Some])
    show ?thesis
      using that [of "of_nat i"] add_member_raid [OF Some len new i] eq by (simp add: group_durable_def bump_sequence_def)
  qed
  then show "group_durable g' = group_durable g" "group_members g' = group_members g @ [guid]" by simp_all
  show "roster g' = roster g @ [(guid_counter guid, slot_subgroup_or_default g' guid)]"
    using find_fresh_slot [OF wf new k(1)] k(1) by (simp add: roster_def fresh_slot_def)
qed

text \<open>Somebody who is in no other group has no row.\<close>

lemma no_row:
  assumes sync: "in_sync a db" and ok: "registry_ok a'" and one: "one_group_each a'"
    and get: "hm_get (groups a') = (hm_get (groups a))(gid \<mapsto> g')" and m: "m \<in> set (group_members g')"
    and old: "\<And>g. hm_get (groups a) gid = Some g \<Longrightarrow> guid_counter m \<notin> fst ` set (roster g)"
  shows "member_view db (guid_counter m) = None"
proof (rule ccontr)
  assume "member_view db (guid_counter m) \<noteq> None"
  then obtain sid k where "member_view db (guid_counter m) = Some (sid, k)" by auto
  then obtain j h where h: "hm_get (groups a) j = Some h" "(guid_counter m, k) \<in> set (roster h)"
    using sync by (auto simp: in_sync_def)
  then have j: "j \<noteq> gid" using old by force
  then have "hm_get (groups a') j = Some h" "hm_get (groups a') gid = Some g'" using h get by simp_all
  moreover have "guid_counter m \<in> fst ` set (roster g')"
  proof -
    have "group_wf g'" using registry_ok_get [OF ok, of gid g'] get by (simp add: group_ok_def)
    with m show ?thesis by (simp add: roster_counters)
  qed
  ultimately have "j = gid" using one_group_counter [OF one ok] h(2) by force
  with j show False by simp
qed

lemma accept_existing_sync:
  assumes sync: "in_sync a db" and ok: "registry_ok a" "ids_ok a" and one: "one_group_each a"
    and ok': "registry_ok (fst (snd (accept_existing invitee invite gid (a, p))))"
    and one': "one_group_each (fst (snd (accept_existing invitee invite gid (a, p))))"
  shows "\<exists>db'. persist_group_intents_like_cpp execute_statement commit
        (accept_intents (fst (accept_existing invitee invite gid (a, p)))) db =
      Some (Applied (length (accept_intents (fst (accept_existing invitee invite gid (a, p))))), db') \<and>
    in_sync (fst (snd (accept_existing invitee invite gid (a, p)))) db' \<and>
    tbl_characters db' = tbl_characters db"
proof (cases "\<exists>g. hm_get (groups a) gid = Some g \<and> group_category_like_cpp g = invite_group_category invite \<and>
      \<not> is_full_like_cpp g \<and> invitee \<notin> set (group_members g)")
  case False
  then have "fst (snd (accept_existing invitee invite gid (a, p))) = a"
    "accept_intents (fst (accept_existing invitee invite gid (a, p))) = []"
    by (auto simp: accept_existing_def Let_def split: option.split)
  then show ?thesis using persist_nothing [OF sync] by simp
next
  case True
  then obtain g where g: "hm_get (groups a) gid = Some g" "group_category_like_cpp g = invite_group_category invite"
    "\<not> is_full_like_cpp g" "invitee \<notin> set (group_members g)" by auto
  have wf: "group_wf g" using registry_ok_get [OF ok(1) g(1)] by (simp add: group_ok_def)
  define g' where "g' = snd (add_member invitee g)"
  note ad = add_member_roster [OF wf g(3,4), folded g'_def]
  have sid: "db_store_id g' = db_store_id g"
    using add_member_identity [of g invitee] by (simp add: same_identity_def g'_def)
  let ?k = "slot_subgroup_or_default g' invitee" and ?sid = "db_store_id g" and ?c = "guid_counter invitee"
  let ?a = "a\<lparr>groups := hm_insert gid g' (groups a)\<rparr>"
  have st: "fst (snd (accept_existing invitee invite gid (a, p))) = ?a"
    "accept_intents (fst (accept_existing invitee invite gid (a, p))) = [InsertMember ?sid invitee 0 ?k 0]"
    using g ad(1) sid by (simp_all add: accept_existing_def Let_def)
  have get: "hm_get (groups ?a) = (hm_get (groups a))(gid \<mapsto> g')" by auto
  have inj': "inj_on guid_counter (set (group_members g'))"
    using one_group_inj [OF one', of gid g'] st by simp
  have c: "?c \<notin> fst ` set (roster g)"
    using g(4) inj' ad(4) by (auto simp: roster_counters [OF wf])
  have row: "member_view db ?c = None"
    by (rule no_row [OF sync _ _ get]) (use ok' one' st ad(4) c g in auto)
  show ?thesis
    unfolding st
  proof (rule persist_sync [OF sync ok(1) _ one, where go = "Some g'" and gid = gid and sid = ?sid and
        mv = "(member_view db)(?c \<mapsto> (?sid, ?k))"], goal_cases)
    case 1 then show ?case using ok' by (simp add: st)
  next
    case 2 then show ?case using one' by (simp add: st)
  next
    case (6 k h) then show ?case using ids_unique [OF ok(2)] g by (auto simp: unique_store_ids_def)
  next
    case 7 then show ?case using row by (simp add: table_views_def)
  next
    case 8
    have "group_view db ?sid = Some (group_durable g)" using sync g by (auto simp: in_sync_def)
    then show ?case using ad(3) by (simp add: table_views_def fun_upd_idem)
  next
    case (9 d)
    show ?case
    proof (cases "d = ?c")
      case True
      then show ?thesis using c by (simp add: roster_of_def ad(2) map_of_eq_None_iff [THEN iffD2] map_add_def)
    next
      case False
      have eq: "map_of (roster g') d = map_of (roster g) d" using False by (simp add: ad(2) map_add_def split: option.split)
      show ?thesis
      proof (cases "map_of (roster g) d")
        case None
        then have "d \<notin> fst ` set (roster g)" by (simp add: map_of_eq_None_iff)
        with eq None False g(1) show ?thesis by (simp add: roster_of_def)
      next
        case (Some k)
        then have "d \<in> fst ` set (roster g)" by (force dest: map_of_SomeD)
        with sync_member [OF sync ok(1) one g(1) this] eq Some False g(1) show ?thesis
          by (simp add: roster_of_def roster_map_def)
      qed
    qed
  qed (use g sid in auto)
qed

lemma new_group_durable:
  assumes "GroupInfo_new leader ids = (g0, ids')"
  shows "roster g0 = [(guid_counter leader, 0)]"
    and "slot_subgroup_or_default g0 leader = 0"
  using assms by (auto simp: GroupInfo_new_def Let_def case_prod_beta roster_def fresh_slot_def
      slot_subgroup_or_default_def member_slot_like_cpp_def)

lemma created_persistence_views:
  "fold intent_view (created_persistence g invitee k) (gv, mv) =
     (gv(db_store_id g \<mapsto> group_durable g),
      mv(guid_counter (leader_guid g) \<mapsto> (db_store_id g, 0), guid_counter invitee \<mapsto> (db_store_id g, k)))"
  by (simp add: created_persistence_def group_durable_def)

lemma accept_pending_sync:
  assumes sync: "in_sync a db" and ok: "registry_ok a" "ids_ok a" "ids_below n a" "n < 2 ^ 32 - 1"
    and one: "one_group_each a" and ne: "invite_leader_guid invite \<noteq> invitee"
    and ok': "registry_ok (fst (snd (accept_pending invitee invite available (a, p))))"
    and one': "one_group_each (fst (snd (accept_pending invitee invite available (a, p))))"
  shows "\<exists>db'. persist_group_intents_like_cpp execute_statement commit
        (accept_intents (fst (accept_pending invitee invite available (a, p)))) db =
      Some (Applied (length (accept_intents (fst (accept_pending invitee invite available (a, p))))), db') \<and>
    in_sync (fst (snd (accept_pending invitee invite available (a, p)))) db' \<and>
    tbl_characters db' = tbl_characters db"
proof (cases "available = Some (invite_leader_guid invite)")
  case False
  then have "fst (snd (accept_pending invitee invite available (a, p))) = a"
    "accept_intents (fst (accept_pending invitee invite available (a, p))) = []"
    by (auto simp: accept_pending_def Let_def)
  then show ?thesis using persist_nothing [OF sync] by simp
next
  case True
  let ?leader = "invite_leader_guid invite"
  obtain g0 ids where new: "GroupInfo_new ?leader (group_ids a) = (g0, ids)" by fastforce
  note n0 = GroupInfo_new_ok [of ?leader "group_ids a", unfolded new fst_conv]
  note d0 = new_group_durable [OF new]
  define g where "g = snd (add_member invitee g0)"
  have wf0: "group_wf g0" and fresh0: "invitee \<notin> set (group_members g0)" using n0 ne by (auto simp: group_ok_def)
  note ad = add_member_roster [OF wf0 n0(4) fresh0, folded g_def]
  have id: "same_identity g0 g" unfolding g_def by (rule add_member_identity)
  have counts: "raid_subgroup_counts g0 = None" using new by (auto simp: GroupInfo_new_def Let_def case_prod_beta)
  have lead: "leader_guid g = ?leader"
    using add_member_party [OF counts fresh0] n0(3) by (simp add: g_def)
  have mem: "group_members g = [?leader, invitee]" using ad(4) n0(2) by simp
  let ?k = "slot_subgroup_or_default g invitee" and ?sid = "db_store_id g" and ?gid = "group_guid g"
  let ?b = "a\<lparr>group_ids := register_group_db_store_id_like_cpp ?sid ?gid ids, groups := hm_insert ?gid g (groups a)\<rparr>"
  have st: "fst (snd (accept_pending invitee invite available (a, p))) = ?b"
    "accept_intents (fst (accept_pending invitee invite available (a, p))) = created_persistence g invitee ?k"
    using True new ad(1) by (simp_all add: accept_pending_def Let_def registry_update_commute)
  note cr = ids_ok_create [OF ok(2-4) new id registry_ok_hm [OF ok(1)]]
  have get: "hm_get (groups ?b) = (hm_get (groups a))(?gid \<mapsto> g)" by auto
  have new_sid: "db_store_id h \<noteq> ?sid" if "hm_get (groups a) j = Some h" for j h
  proof -
    have "j \<noteq> ?gid" using that cr(3) by auto
    then have "hm_get (groups ?b) j = Some h" "hm_get (groups ?b) ?gid = Some g" using that by simp_all
    with \<open>j \<noteq> ?gid\<close> ids_unique [OF cr(1)] show ?thesis unfolding unique_store_ids_def by blast
  qed
  have inj: "inj_on guid_counter (set (group_members g))"
    using one_group_inj [OF one', of ?gid g] st by simp
  then have ce: "guid_counter ?leader \<noteq> guid_counter invitee" using mem ne by (auto simp: inj_on_def)
  have row: "member_view db (guid_counter m) = None" if "m = ?leader \<or> m = invitee" for m
    by (rule no_row [OF sync _ _ get]) (use ok' one' st mem that cr(3) in auto)
  have gv: "group_view db ?sid = None"
  proof (rule ccontr)
    assume "group_view db ?sid \<noteq> None"
    then obtain j h where "hm_get (groups a) j = Some h" "db_store_id h = ?sid" using sync by (auto simp: in_sync_def)
    with new_sid show False by blast
  qed
  show ?thesis
    unfolding st
  proof (rule persist_sync [OF sync ok(1) _ one, where go = "Some g" and gid = ?gid and sid = ?sid and
        mv = "(member_view db)(guid_counter ?leader \<mapsto> (?sid, 0), guid_counter invitee \<mapsto> (?sid, ?k))"], goal_cases)
    case 1 then show ?case using ok' by (simp add: st)
  next
    case 2 then show ?case using one' by (simp add: st)
  next
    case 7
    have "admissible (created_persistence g invitee ?k) (group_view db, member_view db)"
      using gv row ce lead by (simp add: created_persistence_def)
    then show ?case by (simp add: table_views_def)
  next
    case 8 then show ?case by (simp add: table_views_def created_persistence_views lead)
  next
    case (9 d)
    have "roster g = [(guid_counter ?leader, 0), (guid_counter invitee, ?k)]" using ad(2) d0(1) by simp
    then show ?case using cr(3) ce by (simp add: roster_of_def)
  qed (use cr(3) new_sid in auto)
qed

section \<open>Runs\<close>

text \<open>
  The intents an operation hands to \<open>persist_group_intents_like_cpp\<close>: those of its outcome.
  Difficulty changes go through a transaction of one command instead, with the same effect.
\<close>

fun op_intents :: "GroupOp \<Rightarrow> group_state \<Rightarrow> GroupPersistenceIntentLikeCpp list" where
  "op_intents (OpRemoveMember gid member kind connected) (a, p) =
     intents_of (fst (remove_member_like_cpp gid member kind connected a))"
| "op_intents (OpConvert gid actor raid) (a, p) = intents_of (fst (convert_group_like_cpp gid actor raid a))"
| "op_intents (OpChangeSubgroup gid actor member k) (a, p) =
     intents_of (fst (change_member_subgroup_like_cpp gid actor member k a))"
| "op_intents (OpSwapSubgroups gid actor first second) (a, p) =
     intents_of (fst (swap_member_subgroups_like_cpp gid actor first second a))"
| "op_intents (OpChangeLeader gid actor leader) (a, p) =
     intents_of (fst (change_leader_transition_like_cpp gid actor leader a))"
| "op_intents (OpSetMemberFlag gid actor member b flag) (a, p) =
     intents_of (fst (set_member_flag_transition_like_cpp gid actor member b flag a))"
| "op_intents (OpSetEveryoneAssistant gid actor b) (a, p) =
     intents_of (fst (set_everyone_assistant_transition_like_cpp gid actor b a))"
| "op_intents (OpSetPartyAssignment gid actor member assignment b) (a, p) =
     intents_of (fst (set_party_assignment_transition_like_cpp gid actor member assignment b a))"
| "op_intents (OpSetLfgRole gid member role) (a, p) =
     intents_of (fst (set_lfg_role_transition_like_cpp gid member role a))"
| "op_intents (OpSetTargetIcon gid actor symbol target) (a, p) =
     intents_of (fst (set_target_icon_transition_like_cpp gid actor symbol target a))"
| "op_intents (OpDeleteRaidMarker gid actor marker) (a, p) =
     intents_of (fst (delete_raid_marker_transition_like_cpp gid actor marker a))"
| "op_intents (OpAddRaidMarker gid actor marker mapid pos transport) (a, p) =
     intents_of (fst (add_raid_marker_transition_like_cpp gid actor marker mapid pos transport a))"
| "op_intents (OpSetRecentInstance gid mapid owner iid) (a, p) =
     intents_of (fst (set_recent_instance_transition_like_cpp gid mapid owner iid a))"
| "op_intents (OpLinkInstance gid mapid iid) (a, p) =
     intents_of (fst (link_owned_instance_transition_like_cpp gid mapid iid a))"
| "op_intents (OpUnlinkInstance gid mapid iid) (a, p) =
     intents_of (fst (unlink_owned_instance_transition_like_cpp gid mapid iid a))"
| "op_intents (OpApplyInstanceReset gid mapid result how) (a, p) =
     intents_of (fst (apply_instance_reset_transition_like_cpp gid mapid result how a))"
| "op_intents (OpSetDifficulty gid actor d kind) (a, p) =
     intents_of (fst (set_difficulty_transition_like_cpp gid actor d kind a))"
| "op_intents (OpAdvanceLooter gid eligible) (a, p) =
     intents_of (fst (advance_looter_transition_like_cpp gid eligible a))"
| "op_intents (OpStartReadyCheck gid actor connected) (a, p) =
     intents_of (fst (start_ready_check_transition_like_cpp gid actor connected a))"
| "op_intents (OpRespondReadyCheck gid member b) (a, p) =
     intents_of (fst (respond_ready_check_transition_like_cpp gid member b a))"
| "op_intents (OpAcceptInvite invitee index leader) (a, p) =
     accept_intents (fst (accept_invite_like_cpp invitee index leader (a, p)))"
| "op_intents _ s = []"

definition persisted_op ::
  "(CharStatements PreparedStatement list \<Rightarrow> CharacterTables \<Rightarrow> SqlTransactionCommitResult \<times> CharacterTables) \<Rightarrow> GroupOp
     \<Rightarrow> group_state \<times> CharacterTables \<Rightarrow> group_state \<times> CharacterTables" where
  "persisted_op commit op sdb =
     (case sdb of (s, db) \<Rightarrow>
        (run_group_op op s,
         case persist_group_intents_like_cpp execute_statement commit (op_intents op s) db of
           None \<Rightarrow> db | Some (_, db') \<Rightarrow> db'))"

definition persisted_ops ::
  "(CharStatements PreparedStatement list \<Rightarrow> CharacterTables \<Rightarrow> SqlTransactionCommitResult \<times> CharacterTables) \<Rightarrow> GroupOp list
     \<Rightarrow> group_state \<times> CharacterTables \<Rightarrow> group_state \<times> CharacterTables" where
  "persisted_ops commit ops sdb = fold (persisted_op commit) ops sdb"

fun unregisters :: "GroupOp \<Rightarrow> bool" where
  "unregisters (OpUnregister gid) = True"
| "unregisters _ = False"

lemma tick_groups_sync:
  "in_sync a db \<Longrightarrow> registry_ok a \<Longrightarrow> ids_ok a \<Longrightarrow> ids_below n a \<Longrightarrow> one_group_each a \<Longrightarrow>
     in_sync (snd (tick_groups d keys a)) db"
proof (induction keys arbitrary: a)
  case (Cons gid keys)
  show ?case
  proof (cases "hm_get (groups a) gid")
    case None
    with Cons show ?thesis by simp
  next
    case (Some g)
    let ?a = "snd (with_group gid (tick_body d) a)"
    have "intents_of (fst (with_group gid (tick_body d) a)) = []"
      using Some by (simp add: with_group_def tick_body_def intents_of_def case_prod_beta)
    then have "in_sync ?a db"
      using tick_db.transition_sync [OF Cons.prems(1,2,3,5), where gid = gid and d = d]
      by (simp add: persist_group_intents_like_cpp_def persist_group_commands_like_cpp_def)
    moreover have "registry_ok ?a \<and> ids_ok ?a \<and> ids_below n ?a"
      using tick_op.transition_sys [of a n gid d] Cons.prems by blast
    moreover have "one_group_each ?a" by (rule tick_db.transition_one_group [OF Cons.prems(5)])
    ultimately show ?thesis using Cons.IH [of ?a] Some by (simp add: case_prod_beta tick_groups_step [OF Some])
  qed
qed simp

lemma accept_invite_cases:
  obtains (stay) "fst (snd (accept_invite_like_cpp i idx l (a, p))) = a"
      "accept_intents (fst (accept_invite_like_cpp i idx l (a, p))) = []"
  | (existing) invite gid where "accept_invite_like_cpp i idx l (a, p) = accept_existing i invite gid (a, p)"
  | (pending) invite where "accept_invite_like_cpp i idx l (a, p) = accept_pending i invite l (a, p)"
      "invite_leader_guid invite \<noteq> i"
proof (cases "hm_get p i")
  case None
  then show ?thesis by (intro stay) (simp_all add: accept_invite_like_cpp_def)
next
  case (Some invite)
  show ?thesis
  proof (cases "(case idx of None \<Rightarrow> False | Some index \<Rightarrow> invite_group_category invite \<noteq> index) \<or>
        invite_leader_guid invite = i")
    case True
    with Some show ?thesis by (intro stay) (auto simp: accept_invite_like_cpp_def)
  next
    case False
    with Some show ?thesis
      by (cases "invite_group_guid invite")
        (simp_all add: accept_invite_like_cpp_def existing pending)
  qed
qed

lemma persisted_op_sync:
  assumes sys: "group_sys_ok n s" "n < 2 ^ 32 - 1" and sync: "in_sync (fst s) db"
    and one: "one_group_each (fst s)" "one_group_each (fst (run_group_op op s))" and op: "\<not> unregisters op"
  shows "\<exists>db'. persist_group_intents_like_cpp execute_statement commit (op_intents op s) db =
      Some (Applied (length (op_intents op s)), db') \<and> in_sync (fst (run_group_op op s)) db' \<and>
      tbl_characters db' = tbl_characters db"
proof -
  obtain a p where s: "s = (a, p)" by (cases s)
  have ok: "registry_ok a" "ids_ok a" "ids_below n a" using sys(1) by (auto simp: group_sys_ok_def s)
  have sync': "in_sync a db" and one': "one_group_each a" using sync one by (simp_all add: s)
  have sys': "registry_ok (fst (run_group_op op s))"
    using run_group_op_sys [OF sys, of op] by (simp add: group_sys_ok_def)
  have idle: "\<exists>db'. persist_group_intents_like_cpp execute_statement commit [] db = Some (Applied 0, db') \<and>
      in_sync a db' \<and> tbl_characters db' = tbl_characters db"
    by (rule persist_nothing [OF sync'])
  show ?thesis
  proof (cases op)
    case (OpAcceptInvite i idx l)
    show ?thesis
    proof (cases rule: accept_invite_cases [of i idx l a p])
      case stay
      with OpAcceptInvite have "op_intents op s = []" "fst (run_group_op op s) = a" by (simp_all add: s)
      then show ?thesis by (simp only: list.size) (rule idle)
    next
      case (existing invite gid)
      with accept_existing_sync [OF sync' ok(1,2) one', of i invite gid p commit] sys' one(2) OpAcceptInvite
      show ?thesis by (simp add: s)
    next
      case (pending invite)
      with accept_pending_sync [OF sync' ok sys(2) one' pending(2), of l p commit] sys' one(2) OpAcceptInvite
      show ?thesis by (simp add: s)
    qed
  next
    case (OpRemoveMember gid m k c)
    with remove_member_sync [OF sync' ok(1,2) one', of gid m k c commit] sys' one(2)
    show ?thesis by (simp add: s)
  next
    case (OpTickReadyChecks d)
    with tick_groups_sync [OF sync' ok one'] idle show ?thesis
      by (simp add: s tick_ready_checks_like_cpp_def persist_group_intents_like_cpp_def
          persist_group_commands_like_cpp_def)
  next
    case (OpUnregister gid)
    with op show ?thesis by simp
  qed (simp_all only: s op_intents.simps run_group_op.simps fst_conv idle list.size
      convert_group_like_cpp_def convert_db.transition_sync [OF sync' ok(1,2) one']
      change_member_subgroup_like_cpp_def change_subgroup_db.transition_sync [OF sync' ok(1,2) one']
      swap_member_subgroups_like_cpp_def swap_db.transition_sync [OF sync' ok(1,2) one']
      change_leader_transition_like_cpp_def leader_db.transition_sync [OF sync' ok(1,2) one']
      set_member_flag_transition_like_cpp_def member_flag_db.transition_sync [OF sync' ok(1,2) one']
      set_everyone_assistant_transition_like_cpp_def everyone_db.transition_sync [OF sync' ok(1,2) one']
      set_party_assignment_transition_like_cpp_def assignment_db.transition_sync [OF sync' ok(1,2) one']
      set_lfg_role_transition_like_cpp_def lfg_role_db.transition_sync [OF sync' ok(1,2) one']
      set_target_icon_transition_like_cpp_def target_icon_db.transition_sync [OF sync' ok(1,2) one']
      delete_raid_marker_transition_like_cpp_def delete_marker_db.transition_sync [OF sync' ok(1,2) one']
      add_raid_marker_transition_like_cpp_def add_marker_db.transition_sync [OF sync' ok(1,2) one']
      set_recent_instance_transition_like_cpp_def recent_instance_db.transition_sync [OF sync' ok(1,2) one']
      link_owned_instance_transition_like_cpp_def link_db.transition_sync [OF sync' ok(1,2) one']
      unlink_owned_instance_transition_like_cpp_def unlink_db.transition_sync [OF sync' ok(1,2) one']
      apply_instance_reset_transition_like_cpp_def reset_db.transition_sync [OF sync' ok(1,2) one']
      set_difficulty_transition_like_cpp_def difficulty_db.transition_sync [OF sync' ok(1,2) one']
      advance_looter_transition_like_cpp_def looter_db.transition_sync [OF sync' ok(1,2) one']
      start_ready_check_transition_like_cpp_def start_ready_db.transition_sync [OF sync' ok(1,2) one']
      respond_ready_check_transition_like_cpp_def respond_ready_db.transition_sync [OF sync' ok(1,2) one'])
qed

lemma run_group_ops_snoc: "run_group_ops (ops @ [op]) s = run_group_op op (run_group_ops ops s)"
  by (simp add: run_group_ops_def)

lemma persisted_ops_snoc: "persisted_ops commit (ops @ [op]) sdb = persisted_op commit op (persisted_ops commit ops sdb)"
  by (simp add: persisted_ops_def)

lemma persisted_ops_state: "fst (persisted_ops commit ops (s, db)) = run_group_ops ops s"
  by (induction ops rule: rev_induct)
    (simp_all add: persisted_ops_snoc run_group_ops_snoc persisted_op_def case_prod_beta persisted_ops_def run_group_ops_def)

lemma empty_sync:
  assumes "tbl_groups db = []" "tbl_members db = []"
  shows "in_sync (fst group_start) db"
  using assms by (simp add: in_sync_def keys_ok_def group_view_def member_view_def group_start_def registry_new_def)

lemma one_group_start: "one_group_each (fst group_start)"
  by (simp add: one_group_each_def group_start_def registry_new_def)

text \<open>Every operation of a run finds the tables in agreement and succeeds.\<close>

lemma prefix_sync:
  assumes "length ops < 2 ^ 32 - 1" "\<forall>op\<in>set ops. \<not> unregisters op"
    and "\<forall>n\<le>length ops. one_group_each (fst (run_group_ops (take n ops) group_start))"
    and "tbl_groups db = []" "tbl_members db = []"
  shows "n \<le> length ops \<Longrightarrow>
    in_sync (fst (run_group_ops (take n ops) group_start)) (snd (persisted_ops commit (take n ops) (group_start, db))) \<and>
    tbl_characters (snd (persisted_ops commit (take n ops) (group_start, db))) = tbl_characters db \<and>
    (n < length ops \<longrightarrow> map_option fst (persist_group_intents_like_cpp execute_statement commit
        (op_intents (ops ! n) (run_group_ops (take n ops) group_start))
        (snd (persisted_ops commit (take n ops) (group_start, db)))) =
      Some (Applied (length (op_intents (ops ! n) (run_group_ops (take n ops) group_start)))))"
proof -
  have step: "\<exists>db'. persist_group_intents_like_cpp execute_statement commit
          (op_intents (ops ! n) (run_group_ops (take n ops) group_start)) d =
        Some (Applied (length (op_intents (ops ! n) (run_group_ops (take n ops) group_start))), db') \<and>
      in_sync (fst (run_group_ops (take (Suc n) ops) group_start)) db' \<and> tbl_characters db' = tbl_characters d"
    if n: "n < length ops" and d: "in_sync (fst (run_group_ops (take n ops) group_start)) d" for n d
  proof -
    have len: "length (take n ops) < 2 ^ 32 - 1" using n assms(1) by simp
    have sys: "group_sys_ok (Suc n) (run_group_ops (take n ops) group_start)"
      using run_group_ops_inv [OF len] n by simp
    have take: "take (Suc n) ops = take n ops @ [ops ! n]" using n by (rule take_Suc_conv_app_nth)
    have ones: "one_group_each (fst (run_group_ops (take n ops) group_start))"
      "one_group_each (fst (run_group_op (ops ! n) (run_group_ops (take n ops) group_start)))"
      using assms(3) n take by (auto simp flip: run_group_ops_snoc intro: Suc_leI)
    have nu: "\<not> unregisters (ops ! n)" using assms(2) n by simp
    show ?thesis
    proof (cases "Suc n < 2 ^ 32 - 1")
      case True
      from persisted_op_sync [OF sys True d ones nu, of commit] show ?thesis
        by (simp add: take run_group_ops_snoc)
    next
      case False
      with n assms(1) show ?thesis by simp
    qed
  qed
  show "n \<le> length ops \<Longrightarrow> ?thesis"
  proof (induction n)
    case 0
    have "in_sync (fst (run_group_ops (take 0 ops) group_start)) (snd (persisted_ops commit (take 0 ops) (group_start, db)))"
      using empty_sync [OF assms(4,5)] by (simp add: run_group_ops_def persisted_ops_def)
    then show ?case using step [of 0] by (auto simp: persisted_ops_def)
  next
    case (Suc n)
    let ?d = "snd (persisted_ops commit (take n ops) (group_start, db))"
    have n: "n < length ops" and d: "in_sync (fst (run_group_ops (take n ops) group_start)) ?d"
      using Suc by simp_all
    obtain db' where db': "persist_group_intents_like_cpp execute_statement commit
          (op_intents (ops ! n) (run_group_ops (take n ops) group_start)) ?d =
        Some (Applied (length (op_intents (ops ! n) (run_group_ops (take n ops) group_start))), db')"
      "in_sync (fst (run_group_ops (take (Suc n) ops) group_start)) db'" "tbl_characters db' = tbl_characters ?d"
      using step [OF n d] by blast
    have take: "take (Suc n) ops = take n ops @ [ops ! n]" using n by (rule take_Suc_conv_app_nth)
    have "snd (persisted_ops commit (take (Suc n) ops) (group_start, db)) = db'"
      using db'(1) persisted_ops_state [of commit "take n ops" group_start db]
      by (simp add: take persisted_ops_snoc persisted_op_def case_prod_beta)
    with db' Suc step [of "Suc n" db'] show ?case by auto
  qed
qed


text \<open>A run of characters of realm 1 over empty tables.\<close>

definition one_group_check :: "GroupAuthority \<Rightarrow> bool" where
  "one_group_check a =
     list_all (\<lambda>(gid, g). list_all (\<lambda>m. player_guid m \<and>
       list_all (\<lambda>(gid', g'). m \<in> set (group_members g') \<longrightarrow> gid' = gid) (groups a)) (group_members g)) (groups a)"

lemma one_group_check: "one_group_check a \<Longrightarrow> one_group_each a"
  unfolding one_group_check_def one_group_each_def list_all_iff by (auto dest!: hm_get_mem) fastforce+

definition sample_players :: "GroupOp list" where
  "sample_players =
     [OpCreateInvite (create_player 1 1) (create_player 1 2) None 0 0,
      OpAcceptInvite (create_player 1 2) None (Some (create_player 1 1)),
      OpConvert 1 (create_player 1 1) True]"

definition sample_tables :: CharacterTables where
  "sample_tables =
     \<lparr>tbl_groups = [], tbl_members = [], tbl_lfg = [],
      tbl_characters = [(1, \<lparr>character_name = ''A'', character_race = 1, character_class = 1\<rparr>),
                        (2, \<lparr>character_name = ''B'', character_race = 2, character_class = 3\<rparr>)]\<rparr>"

lemma sample_players_one_group:
  "list_all (\<lambda>n. one_group_check (fst (run_group_ops (take n sample_players) group_start))) [0..<4]"
  by code_simp


end
