(* ===== verification/GroupRestart.thy ===== *)
theory GroupRestart
  imports GroupSyncRuns
begin

text \<open>
  A restart: the start-up load (\<open>load_groups_from_character_database_like_cpp\<close>) run on the
  tables that a run of the group system has written rebuilds every group.  The first part
  shows that every run keeps groups fit for that (\<open>restorable\<close>), the second follows the load:
  cleanup, character cache, group rows, member rows.
\<close>

section \<open>What a restart relies on\<close>

lemma restorable_groups:
  "restorable a \<Longrightarrow> 2 \<le> length (group_members g) \<Longrightarrow> subgroups_small g \<Longrightarrow> player_guid (leader_guid g) \<Longrightarrow>
     restorable (a\<lparr>groups := hm_insert gid g (groups a)\<rparr>)"
  "restorable a \<Longrightarrow> hm_ok (groups a) \<Longrightarrow> restorable (a\<lparr>groups := hm_remove gid (groups a)\<rparr>)"
  "restorable (a\<lparr>group_ids := ids\<rparr>) = restorable a"
  by (auto simp: restorable_def split: if_splits)

lemma remove_member_restorable:
  assumes res: "restorable a" and one: "one_group_each a" and ok: "registry_ok a"
  shows "restorable (snd (remove_member_like_cpp gid member kind connected a))"
proof (cases "\<exists>g. hm_get (groups a) gid = Some g \<and> kick_guard kind member g = None \<and>
        member \<in> set (group_members g) \<and> \<not> (is_kick kind \<and> is_lfg_group_like_cpp g)")
  case False
  then have "snd (remove_member_like_cpp gid member kind connected a) = a"
    by (auto simp: remove_member_like_cpp_def split: option.split)
  then show ?thesis using res by simp
next
  case True
  then obtain g where g: "hm_get (groups a) gid = Some g" and k: "kick_guard kind member g = None"
    "member \<in> set (group_members g)" "\<not> (is_kick kind \<and> is_lfg_group_like_cpp g)" by auto
  obtain s g' where sc: "removal_succession member connected g = (s, g')" by fastforce
  have wf: "group_wf g" using registry_ok_get [OF ok g] by (simp add: group_ok_def)
  note sf = succession_functional [OF wf, of member connected, unfolded sc fst_conv snd_conv]
  have players: "\<forall>m\<in>set (group_members g). player_guid m" using one g by (auto simp: one_group_each_def)
  have lead: "player_guid (leader_guid g')"
    using sf(2,3) players res g by (auto simp: restorable_def split: if_splits option.splits dest!: find_Some_mem)
  have "set (roster g') \<subseteq> set (roster g)"
    using succession_roster(1) [OF sc] drop_roster [OF wf one_group_inj [OF one g] k(2)] by auto
  then have "subgroups_small g'" using res g by (auto simp: restorable_def subgroups_small_def)
  moreover have "snd (remove_member_like_cpp gid member kind connected a) =
      (if length (group_members g') < 2
       then a\<lparr>group_ids := free_group_db_store_id_like_cpp (db_store_id g') (group_ids a)\<rparr>
              \<lparr>groups := hm_remove gid (groups a)\<rparr>
       else a\<lparr>groups := hm_insert gid g' (groups a)\<rparr>)"
    using g k sc by (auto simp: remove_member_like_cpp_def Let_def registry_update_commute)
  ultimately show ?thesis
    using restorable_groups(1) [OF res, of g' gid] lead registry_ok_hm [OF ok] res
      restorable_groups(2) [of "a\<lparr>group_ids := free_group_db_store_id_like_cpp (db_store_id g') (group_ids a)\<rparr>" gid]
    by (simp add: restorable_groups(3))
qed

lemma add_member_small:
  assumes "group_wf g" "\<not> is_full_like_cpp g" "guid \<notin> set (group_members g)" "subgroups_small g"
  shows "subgroups_small (snd (add_member guid g))" and "leader_guid (snd (add_member guid g)) = leader_guid g"
proof -
  have "subgroups_small (snd (add_member guid g)) \<and> leader_guid (snd (add_member guid g)) = leader_guid g"
  proof (cases "raid_subgroup_counts g")
    case None
    with assms show ?thesis by (simp add: add_member_party small_slots fresh_slot_def)
  next
    case (Some cs)
    then have len: "length cs = 8" using assms(1) by (simp add: group_wf_def counts_ok_def)
    obtain i where i: "position (\<lambda>c. unat c < 5) cs = Some i"
      using add_member_succeeds [OF assms(1-3)]
      by (cases "position (\<lambda>c. unat c < 5) cs") (simp_all add: add_member_raid_full [OF Some])
    then have "i < 8" using position_Some [OF i] len by simp
    with assms show ?thesis by (simp add: add_member_raid [OF Some len assms(3) i] small_slots fresh_slot_def unat_of_nat)
  qed
  then show "subgroups_small (snd (add_member guid g))" "leader_guid (snd (add_member guid g)) = leader_guid g" by simp_all
qed

lemma accept_existing_restorable:
  assumes res: "restorable a" and ok: "registry_ok a"
  shows "restorable (fst (snd (accept_existing invitee invite gid (a, p))))"
proof (cases "\<exists>g. hm_get (groups a) gid = Some g \<and> group_category_like_cpp g = invite_group_category invite \<and>
      \<not> is_full_like_cpp g \<and> invitee \<notin> set (group_members g)")
  case False
  then have "fst (snd (accept_existing invitee invite gid (a, p))) = a"
    by (auto simp: accept_existing_def Let_def split: option.split)
  then show ?thesis using res by simp
next
  case True
  then obtain g where g: "hm_get (groups a) gid = Some g" "group_category_like_cpp g = invite_group_category invite"
    "\<not> is_full_like_cpp g" "invitee \<notin> set (group_members g)" by auto
  have wf: "group_wf g" using registry_ok_get [OF ok g(1)] by (simp add: group_ok_def)
  define g' where "g' = snd (add_member invitee g)"
  note ad = add_member_roster [OF wf g(3,4), folded g'_def]
  have res_g: "2 \<le> length (group_members g)" "subgroups_small g" "player_guid (leader_guid g)"
    using res g(1) by (simp_all add: restorable_def)
  note sm = add_member_small [OF wf g(3,4) res_g(2), folded g'_def]
  have "fst (snd (accept_existing invitee invite gid (a, p))) = a\<lparr>groups := hm_insert gid g' (groups a)\<rparr>"
    using g ad(1) by (simp add: accept_existing_def Let_def)
  then show ?thesis
    using restorable_groups(1) [OF res, of g' gid] res_g sm ad(4) by simp
qed

lemma accept_pending_restorable:
  assumes res: "restorable a" and ne: "invite_leader_guid invite \<noteq> invitee"
    and one: "one_group_each (fst (snd (accept_pending invitee invite available (a, p))))"
  shows "restorable (fst (snd (accept_pending invitee invite available (a, p))))"
proof (cases "available = Some (invite_leader_guid invite)")
  case False
  then have "fst (snd (accept_pending invitee invite available (a, p))) = a"
    by (auto simp: accept_pending_def Let_def)
  then show ?thesis using res by simp
next
  case True
  let ?leader = "invite_leader_guid invite"
  obtain g0 ids where new: "GroupInfo_new ?leader (group_ids a) = (g0, ids)" by fastforce
  note n0 = GroupInfo_new_ok [of ?leader "group_ids a", unfolded new fst_conv]
  define g where "g = snd (add_member invitee g0)"
  have wf0: "group_wf g0" and fresh0: "invitee \<notin> set (group_members g0)" using n0 ne by (auto simp: group_ok_def)
  note ad = add_member_roster [OF wf0 n0(4) fresh0, folded g_def]
  have "subgroups_small g0" using new_group_durable(1) [OF new] by (simp add: subgroups_small_def)
  note sm = add_member_small [OF wf0 n0(4) fresh0 this, folded g_def]
  have st: "fst (snd (accept_pending invitee invite available (a, p))) =
      a\<lparr>group_ids := register_group_db_store_id_like_cpp (db_store_id g) (group_guid g) ids,
        groups := hm_insert (group_guid g) g (groups a)\<rparr>"
    using True new ad(1) by (simp add: accept_pending_def Let_def registry_update_commute)
  have "hm_get (groups (fst (snd (accept_pending invitee invite available (a, p))))) (group_guid g) = Some g"
    by (simp add: st)
  moreover have "?leader \<in> set (group_members g)" using ad(4) n0(2) by simp
  ultimately have "player_guid ?leader" using one unfolding one_group_each_def by blast
  then show ?thesis
    using restorable_groups(1) [of "a\<lparr>group_ids := register_group_db_store_id_like_cpp (db_store_id g)
        (group_guid g) ids\<rparr>" g "group_guid g"] res sm ad(4) n0(2,3)
    by (simp add: st restorable_groups(3))
qed

lemma tick_groups_restorable:
  "restorable a \<Longrightarrow> one_group_each a \<Longrightarrow> registry_ok a \<Longrightarrow> restorable (snd (tick_groups d keys a))"
proof (induction keys arbitrary: a)
  case (Cons gid keys)
  show ?case
  proof (cases "hm_get (groups a) gid")
    case None
    with Cons show ?thesis by simp
  next
    case (Some g)
    have "restorable (snd (tick_groups d keys (snd (with_group gid (tick_body d) a))))"
      by (rule Cons.IH [OF tick_db.transition_restorable [OF Cons.prems]
            tick_db.transition_one_group [OF Cons.prems(2)] tick_op.transition_ok [OF Cons.prems(3)]])
    then show ?thesis using Some by (simp add: case_prod_beta tick_groups_step [OF Some])
  qed
qed simp

lemma run_op_restorable:
  assumes sys: "group_sys_ok n s" and res: "restorable (fst s)"
    and one: "one_group_each (fst s)" "one_group_each (fst (run_group_op op s))" and op: "\<not> unregisters op"
  shows "restorable (fst (run_group_op op s))"
proof -
  obtain a p where s: "s = (a, p)" by (cases s)
  have ok: "registry_ok a" using sys(1) by (auto simp: group_sys_ok_def s)
  have res': "restorable a" and one': "one_group_each a" using res one by (simp_all add: s)
  show ?thesis
  proof (cases op)
    case (OpAcceptInvite i idx l)
    show ?thesis
    proof (cases rule: accept_invite_cases [of i idx l a p])
      case stay
      with OpAcceptInvite res' show ?thesis by (simp add: s)
    next
      case (existing invite gid)
      with accept_existing_restorable [OF res' ok, of i invite gid p] OpAcceptInvite show ?thesis by (simp add: s)
    next
      case (pending invite)
      with accept_pending_restorable [OF res' pending(2), of l p] one(2) OpAcceptInvite show ?thesis by (simp add: s)
    qed
  next
    case (OpRemoveMember gid m k c)
    with remove_member_restorable [OF res' one' ok] show ?thesis by (simp add: s)
  next
    case (OpTickReadyChecks d)
    with tick_groups_restorable [OF res' one' ok] show ?thesis by (simp add: s tick_ready_checks_like_cpp_def)
  next
    case (OpUnregister gid)
    with op show ?thesis by simp
  qed (simp_all only: s run_group_op.simps fst_conv res'
      convert_group_like_cpp_def convert_db.transition_restorable [OF res' one' ok]
      change_member_subgroup_like_cpp_def change_subgroup_db.transition_restorable [OF res' one' ok]
      swap_member_subgroups_like_cpp_def swap_db.transition_restorable [OF res' one' ok]
      change_leader_transition_like_cpp_def leader_db.transition_restorable [OF res' one' ok]
      set_member_flag_transition_like_cpp_def member_flag_db.transition_restorable [OF res' one' ok]
      set_everyone_assistant_transition_like_cpp_def everyone_db.transition_restorable [OF res' one' ok]
      set_party_assignment_transition_like_cpp_def assignment_db.transition_restorable [OF res' one' ok]
      set_lfg_role_transition_like_cpp_def lfg_role_db.transition_restorable [OF res' one' ok]
      set_target_icon_transition_like_cpp_def target_icon_db.transition_restorable [OF res' one' ok]
      delete_raid_marker_transition_like_cpp_def delete_marker_db.transition_restorable [OF res' one' ok]
      add_raid_marker_transition_like_cpp_def add_marker_db.transition_restorable [OF res' one' ok]
      set_recent_instance_transition_like_cpp_def recent_instance_db.transition_restorable [OF res' one' ok]
      link_owned_instance_transition_like_cpp_def link_db.transition_restorable [OF res' one' ok]
      unlink_owned_instance_transition_like_cpp_def unlink_db.transition_restorable [OF res' one' ok]
      apply_instance_reset_transition_like_cpp_def reset_db.transition_restorable [OF res' one' ok]
      set_difficulty_transition_like_cpp_def difficulty_db.transition_restorable [OF res' one' ok]
      advance_looter_transition_like_cpp_def looter_db.transition_restorable [OF res' one' ok]
      start_ready_check_transition_like_cpp_def start_ready_db.transition_restorable [OF res' one' ok]
      respond_ready_check_transition_like_cpp_def respond_ready_db.transition_restorable [OF res' one' ok])
qed

lemma run_restorable:
  assumes "length ops < 2 ^ 32 - 1" "\<forall>op\<in>set ops. \<not> unregisters op"
    and "\<forall>n\<le>length ops. one_group_each (fst (run_group_ops (take n ops) group_start))"
  shows "n \<le> length ops \<Longrightarrow> restorable (fst (run_group_ops (take n ops) group_start))"
proof (induction n)
  case 0
  then show ?case by (simp add: run_group_ops_def restorable_def group_start_def registry_new_def)
next
  case (Suc n)
  then have n: "n < length ops" and res: "restorable (fst (run_group_ops (take n ops) group_start))" by simp_all
  have take: "take (Suc n) ops = take n ops @ [ops ! n]" using n by (rule take_Suc_conv_app_nth)
  have "length (take n ops) < 2 ^ 32 - 1" using n assms(1) by simp
  note sys = run_group_ops_inv [OF this]
  have "one_group_each (fst (run_group_ops (take n ops) group_start))"
    "one_group_each (fst (run_group_op (ops ! n) (run_group_ops (take n ops) group_start)))"
    using assms(3) n take by (auto simp flip: run_group_ops_snoc intro: Suc_leI)
  moreover have "\<not> unregisters (ops ! n)" using assms(2) n by simp
  ultimately show ?case using run_op_restorable [OF sys res] by (simp add: take run_group_ops_snoc)
qed

section \<open>Cleanup deletes nothing\<close>

definition characters_known :: "GroupAuthority \<Rightarrow> CharacterTables \<Rightarrow> bool" where
  "characters_known a db =
     (\<forall>gid g. hm_get (groups a) gid = Some g \<longrightarrow>
        (\<forall>m\<in>insert (leader_guid g) (set (group_members g)).
           guid_counter m \<noteq> 0 \<and> guid_counter m \<in> fst ` set (tbl_characters db)))"

lemma find_distinct_key: "distinct (map key rs) \<Longrightarrow> r \<in> set rs \<Longrightarrow> find (\<lambda>x. key x = key r) rs = Some r"
  by (induction rs) auto

lemma row_views:
  "keys_ok db \<Longrightarrow> r \<in> set (tbl_members db) \<Longrightarrow> member_view db (t_memberGuid r) = Some (t_group r, t_subgroup r)"
  "keys_ok db \<Longrightarrow> q \<in> set (tbl_groups db) \<Longrightarrow> group_view db (t_guid q) = Some (row_durable q)"
  by (simp_all add: member_view_def group_view_def keys_ok_def find_distinct_key)

lemma view_rows:
  "member_view db c = Some (sid, k) \<Longrightarrow> \<exists>r\<in>set (tbl_members db). t_memberGuid r = c \<and> t_group r = sid \<and> t_subgroup r = k"
  "group_view db sid = Some d \<Longrightarrow> \<exists>q\<in>set (tbl_groups db). t_guid q = sid \<and> row_durable q = d"
  by (auto simp: member_view_def group_view_def dest!: find_Some_mem)

text \<open>What the registry says of the rows of its tables.\<close>

lemma table_group:
  assumes "in_sync a db" "q \<in> set (tbl_groups db)"
  obtains gid g where "hm_get (groups a) gid = Some g" "db_store_id g = t_guid q" "group_durable g = row_durable q"
proof -
  have "group_view db (t_guid q) = Some (row_durable q)"
    using row_views(2) [OF _ assms(2)] assms(1) by (simp add: in_sync_def)
  then show thesis using assms(1) that by (auto simp: in_sync_def)
qed

lemma table_member:
  assumes "in_sync a db" "registry_ok a" "r \<in> set (tbl_members db)"
  obtains gid g m where "hm_get (groups a) gid = Some g" "db_store_id g = t_group r"
    "m \<in> set (group_members g)" "guid_counter m = t_memberGuid r" "(t_memberGuid r, t_subgroup r) \<in> set (roster g)"
proof -
  have "member_view db (t_memberGuid r) = Some (t_group r, t_subgroup r)"
    using row_views(1) [OF _ assms(3)] assms(1) by (simp add: in_sync_def)
  then obtain gid g where g: "hm_get (groups a) gid = Some g" "db_store_id g = t_group r"
    "(t_memberGuid r, t_subgroup r) \<in> set (roster g)" using assms(1) by (auto simp: in_sync_def)
  have "group_wf g" using registry_ok_get [OF assms(2) g(1)] by (simp add: group_ok_def)
  from roster_counters [OF this] g(3) have "t_memberGuid r \<in> guid_counter ` set (group_members g)" by force
  then obtain m where m: "m \<in> set (group_members g)" "guid_counter m = t_memberGuid r" by auto
  show thesis by (rule that [OF g(1,2) m g(3)])
qed

lemma table_row:
  assumes "in_sync a db" "hm_get (groups a) gid = Some g"
  obtains q where "q \<in> set (tbl_groups db)" "t_guid q = db_store_id g" "row_durable q = group_durable g"
proof -
  have "group_view db (db_store_id g) = Some (group_durable g)" using assms by (auto simp: in_sync_def)
  from view_rows(2) [OF this] that show thesis by blast
qed

lemma durable_fields:
  assumes "group_durable g = row_durable q"
  shows "t_leaderGuid q = guid_counter (leader_guid g)" "t_groupType q = group_flags g"
    "t_lootMethod q = group_loot_method g" "t_lootThreshold q = loot_threshold g"
    "t_difficulty q = dungeon_difficulty_id g" "t_raidDifficulty q = raid_difficulty_id g"
    "t_legacyRaidDifficulty q = legacy_raid_difficulty_id g" "t_masterLooterGuid q = guid_counter (master_looter_guid g)"
  using assms by (simp_all add: group_durable_def row_durable_def)

text \<open>The rows of a group are its roster.\<close>

lemma group_rows:
  assumes sync: "in_sync a db" and ids: "ids_ok a" and g: "hm_get (groups a) gid = Some g"
  shows "(\<lambda>r. (t_memberGuid r, t_subgroup r)) ` set (members_in_group (db_store_id g) db) = set (roster g)"
proof -
  have keys: "keys_ok db" using sync by (simp add: in_sync_def)
  show ?thesis
  proof (intro equalityI subsetI)
    fix ck assume "ck \<in> (\<lambda>r. (t_memberGuid r, t_subgroup r)) ` set (members_in_group (db_store_id g) db)"
    then obtain r where r: "r \<in> set (tbl_members db)" "t_group r = db_store_id g" "ck = (t_memberGuid r, t_subgroup r)"
      by (auto simp: members_in_group_def)
    from row_views(1) [OF keys r(1)] r(2)
    have "member_view db (t_memberGuid r) = Some (db_store_id g, t_subgroup r)" by simp
    from sync_store_id [OF sync ids g this] r(3) show "ck \<in> set (roster g)" by simp
  next
    fix ck assume ck: "ck \<in> set (roster g)"
    obtain c k where "ck = (c, k)" by (cases ck)
    with ck have "member_view db c = Some (db_store_id g, k)" using sync g by (auto simp: in_sync_def)
    from view_rows(1) [OF this] \<open>ck = (c, k)\<close>
    show "ck \<in> (\<lambda>r. (t_memberGuid r, t_subgroup r)) ` set (members_in_group (db_store_id g) db)"
      by (force simp: members_in_group_def)
  qed
qed

lemma group_rows_distinct: "keys_ok db \<Longrightarrow> distinct (map t_memberGuid (members_in_group sid db))"
  by (simp add: keys_ok_def members_in_group_def distinct_map_filter)

lemma group_rows_length:
  assumes sync: "in_sync a db" and ok: "registry_ok a" "ids_ok a" and one: "one_group_each a"
    and g: "hm_get (groups a) gid = Some g"
  shows "length (members_in_group (db_store_id g) db) = length (group_members g)"
proof -
  have keys: "keys_ok db" using sync by (simp add: in_sync_def)
  have wf: "group_wf g" using registry_ok_get [OF ok(1) g] by (simp add: group_ok_def)
  have inj: "inj_on guid_counter (set (group_members g))" by (rule one_group_inj [OF one g])
  let ?rows = "members_in_group (db_store_id g) db"
  have "t_memberGuid ` set ?rows = fst ` (\<lambda>r. (t_memberGuid r, t_subgroup r)) ` set ?rows" by (simp add: image_image)
  also have "\<dots> = guid_counter ` set (group_members g)" by (simp add: group_rows [OF sync ok(2) g] roster_counters [OF wf])
  finally have set: "set (map t_memberGuid ?rows) = set (map guid_counter (group_members g))" by simp
  have "distinct (map t_memberGuid ?rows)" "distinct (map guid_counter (group_members g))"
    using group_rows_distinct [OF keys] wf inj by (simp_all add: distinct_map group_wf_def)
  with set show ?thesis by (metis distinct_card length_map)
qed

lemma cleanup_idle:
  assumes sync: "in_sync a db" and ok: "registry_ok a" "ids_ok a" and one: "one_group_each a"
    and res: "restorable a" and known: "characters_known a db"
  shows "startup_cleanup [DeleteMembersWithoutCharacter, DeleteGroupsWithoutLeader,
      DeleteGroupsWithFewerThanTwoMembers, DeleteMembersWithoutGroup] db = Some (None, db)"
proof -
  have grp: "\<exists>gid g. hm_get (groups a) gid = Some g \<and> db_store_id g = t_guid q \<and> guid_counter (leader_guid g) = t_leaderGuid q"
    if "q \<in> set (tbl_groups db)" for q
    using table_group [OF sync that] durable_fields(1) by metis
  have mem: "\<exists>gid g. hm_get (groups a) gid = Some g \<and> db_store_id g = t_group r \<and> t_memberGuid r \<in> guid_counter ` set (group_members g)"
    if "r \<in> set (tbl_members db)" for r
    using table_member [OF sync ok(1) that] by (metis imageI)
  have 1: "filter (\<lambda>r. t_memberGuid r \<in> fst ` set (tbl_characters db)) (tbl_members db) = tbl_members db"
    using mem known by (intro filter_True) (fastforce simp: characters_known_def)
  have 2: "filter (\<lambda>q. t_leaderGuid q \<in> fst ` set (tbl_characters db)) (tbl_groups db) = tbl_groups db"
    using grp known by (intro filter_True) (metis characters_known_def insertI1)
  have 3: "filter (\<lambda>q. Suc 0 < length (members_in_group (t_guid q) db)) (tbl_groups db) = tbl_groups db"
  proof (rule filter_True, rule ballI)
    fix q assume "q \<in> set (tbl_groups db)"
    from grp [OF this] obtain gid g where g: "hm_get (groups a) gid = Some g" "db_store_id g = t_guid q" by blast
    from group_rows_length [OF sync ok one g(1)] g res show "Suc 0 < length (members_in_group (t_guid q) db)"
      by (fastforce simp: restorable_def)
  qed
  have 4: "filter (\<lambda>r. t_group r \<in> t_guid ` set (tbl_groups db)) (tbl_members db) = tbl_members db"
  proof (rule filter_True, rule ballI)
    fix r assume "r \<in> set (tbl_members db)"
    from mem [OF this] obtain gid g where "hm_get (groups a) gid = Some g" "db_store_id g = t_group r" by blast
    then have "group_view db (t_group r) = Some (group_durable g)" using sync by (auto simp: in_sync_def)
    from view_rows(2) [OF this] show "t_group r \<in> t_guid ` set (tbl_groups db)" by force
  qed
  have s: "ps_statement (for_statement sql st) = st" for st
    by (simp add: for_statement_def with_capacity_like_cpp_def)
  show ?thesis by (simp add: execute_statement_def s 1 2 3 4)
qed

section \<open>The character cache\<close>

lemma cache_fold:
  "bt_ok m \<Longrightarrow> bt_ok (fold (\<lambda>c. bt_insert (k c) (v c)) cs m) \<and>
     (map_of (fold (\<lambda>c. bt_insert (k c) (v c)) cs m) x \<noteq> None \<longleftrightarrow> x \<in> k ` set cs \<or> map_of m x \<noteq> None)"
  by (induction cs arbitrary: m) (auto simp: bt_get_insert bt_ok_insert)

lemma cache_known:
  assumes "c \<noteq> 0" "c \<in> fst ` set (tbl_characters db)"
    and "c \<in> t_leaderGuid ` set (tbl_groups db) \<union> t_memberGuid ` set (tbl_members db)"
  shows "map_of (startup_character_cache (select_character_cache db)) c \<noteq> None"
proof -
  obtain ch where "(c, ch) \<in> set (tbl_characters db)" using assms(2) by auto
  then have "c \<in> startup_guid ` set (filter (\<lambda>c. startup_guid c \<noteq> 0) (select_character_cache db))"
    using assms by (force simp: select_character_cache_def)
  then show ?thesis
    using cache_fold [of "[]" startup_guid "\<lambda>c. \<lparr>character_name = startup_name c,
        character_race = startup_race c, character_class = startup_class c\<rparr>"
        "filter (\<lambda>c. startup_guid c \<noteq> 0) (select_character_cache db)" c]
    by (simp add: startup_character_cache_def)
qed

section \<open>Group rows\<close>

definition realm_counter :: "u64 \<Rightarrow> bool" where
  "realm_counter low \<longleftrightarrow> guid_counter (create_player 1 low) = low"

lemma realm_counter_small: "realm_counter low \<Longrightarrow> i64_try_from low = Some low"
proof -
  assume "realm_counter low"
  then have "low = low_value (create_player 1 low) AND 0xFFFFFFFFFF"
    by (simp add: realm_counter_def guid_counter_low)
  also have "\<dots> \<le> 0xFFFFFFFFFF" by (rule word_and_le1)
  finally show ?thesis by (simp add: i64_try_from_def word_le_nat_alt)
qed

lemma player_counter: "player_guid m \<Longrightarrow> realm_counter (guid_counter m)"
  by (simp add: player_guid_def realm_counter_def)

definition loadable_row :: "(u64 \<times> GroupMemberCharacterLikeCpp) list \<Rightarrow> GroupDbRowLikeCpp \<Rightarrow> bool" where
  "loadable_row cache r \<longleftrightarrow>
     map_of cache (row_leader_guid_low r) \<noteq> None \<and> i64_try_from (row_leader_guid_low r) \<noteq> None \<and>
     i64_try_from (row_looter_guid_low r) \<noteq> None \<and> i64_try_from (row_master_looter_guid_low r) \<noteq> None"

definition row_group :: "GroupDifficultyValidatorLikeCpp \<Rightarrow> u64 \<Rightarrow> GroupDbRowLikeCpp \<Rightarrow> GroupInfo" where
  "row_group v gid r =
     (loaded_from_db_validated_like_cpp gid (row_db_store_id r) (create_player 1 (row_leader_guid_low r))
        (row_loot_method r) (create_player 1 (row_looter_guid_low r)) (row_loot_threshold r)
        (row_group_flags r) (row_dungeon_difficulty_id r) (row_raid_difficulty_id r)
        (row_legacy_raid_difficulty_id r) (create_player 1 (row_master_looter_guid_low r)) v)
     \<lparr>target_icons := row_target_icons r,
      lfg_db_state := represented_lfg_db_state_like_cpp (row_group_flags r) (row_lfg_dungeon_id r) (row_lfg_state r)\<rparr>"

lemma row_group_facts [simp]:
  "group_guid (row_group v gid r) = gid" "db_store_id (row_group v gid r) = row_db_store_id r"
  "leader_guid (row_group v gid r) = create_player 1 (row_leader_guid_low r)"
  "group_flags (row_group v gid r) = row_group_flags r" "group_loot_method (row_group v gid r) = row_loot_method r"
  "loot_threshold (row_group v gid r) = row_loot_threshold r"
  "group_members (row_group v gid r) = []" "member_slots (row_group v gid r) = []"
  by (simp_all add: row_group_def loaded_from_db_validated_like_cpp_def loaded_from_db_like_cpp_def)

lemma load_row:
  "loadable_row cache r \<Longrightarrow>
     load_group_from_db_row_validated_like_cpp gid r (map_of cache (row_leader_guid_low r)) v = Some (row_group v gid r)"
  by (auto simp: load_group_from_db_row_validated_like_cpp_def loadable_row_def row_group_def i64_try_from_def
      split: if_splits)

text \<open>Each row loaded so far is a group, found under its storage id.\<close>

definition rows_loaded :: "GroupDifficultyValidatorLikeCpp \<Rightarrow> GroupDbRowLikeCpp list \<Rightarrow> GroupAuthority \<Rightarrow> bool" where
  "rows_loaded v rs a \<longleftrightarrow>
     hm_ok (groups a) \<and> unat (next_group_id (group_ids a)) = Suc (length rs) \<and>
     (\<forall>r\<in>set rs. \<exists>gid. store_lookup (group_ids a) (row_db_store_id r) = Some gid \<and>
        hm_get (groups a) gid = Some (row_group v gid r)) \<and>
     (\<forall>sid gid. store_lookup (group_ids a) sid = Some gid \<longrightarrow> sid \<in> row_db_store_id ` set rs) \<and>
     (\<forall>gid g. hm_get (groups a) gid = Some g \<longrightarrow>
        store_lookup (group_ids a) (db_store_id g) = Some gid \<and> unat gid < unat (next_group_id (group_ids a)))"

lemma load_group_row_step:
  assumes rows: "rows_loaded v rs a" and r: "loadable_row cache r" "row_db_store_id r \<notin> row_db_store_id ` set rs"
    and len: "Suc (Suc (length rs)) < 2 ^ 64"
  shows "\<exists>a'. load_group_row v cache (summary, a) r =
      (summary\<lparr>loaded_groups := loaded_groups summary + 1\<rparr>, a') \<and> rows_loaded v (rs @ [r]) a'"
proof -
  let ?gid = "next_group_id (group_ids a)" and ?sid = "row_db_store_id r"
  let ?g = "row_group v ?gid r" and ?ids = "(group_ids a)\<lparr>next_group_id := next_group_id (group_ids a) + 1\<rparr>"
  have none: "hm_get (groups a) ?gid = None"
    using rows unfolding rows_loaded_def by (metis less_irrefl option.exhaust)
  define ids' where "ids' = advance_next_group_db_store_id_after_load_like_cpp ?sid
     (register_group_db_store_id_like_cpp ?sid ?gid (register_group_db_store_id_like_cpp ?sid ?gid ?ids))"
  have lookup: "store_lookup ids' k = (if k = ?sid then Some ?gid else store_lookup (group_ids a) k)" for k
  proof -
    have "store_lookup ids' k = store_lookup (register_group_db_store_id_like_cpp ?sid ?gid
        (register_group_db_store_id_like_cpp ?sid ?gid ?ids)) k"
      by (simp add: ids'_def advance_next_group_db_store_id_after_load_like_cpp_def store_lookup_def
          group_guid_by_db_store_id_like_cpp_def)
    moreover have "store_lookup ?ids k = store_lookup (group_ids a) k"
      by (simp add: store_lookup_def group_guid_by_db_store_id_like_cpp_def)
    ultimately show ?thesis by (simp add: store_lookup_register)
  qed
  have next_id: "next_group_id ids' = ?gid + 1"
    by (simp add: ids'_def advance_next_group_db_store_id_after_load_like_cpp_def
        register_group_db_store_id_like_cpp_def Let_def)
  have un: "unat (?gid + 1) = Suc (unat ?gid)"
    using rows len by (simp add: rows_loaded_def unat_word_ariths)
  have st: "load_group_row v cache (summary, a) r = (summary\<lparr>loaded_groups := loaded_groups summary + 1\<rparr>,
      a\<lparr>group_ids := ids', groups := hm_insert ?gid ?g (groups a)\<rparr>)"
    using none by (simp add: load_group_row_def Let_def generate_group_id_like_cpp_def load_row [OF r(1)]
        register_group_like_cpp_def ids'_def registry_update_commute)
  let ?a = "a\<lparr>group_ids := ids', groups := hm_insert ?gid ?g (groups a)\<rparr>"
  have "rows_loaded v (rs @ [r]) ?a"
    unfolding rows_loaded_def
  proof (intro conjI allI ballI impI)
    fix q assume q: "q \<in> set (rs @ [r])"
    show "\<exists>gid. store_lookup (group_ids ?a) (row_db_store_id q) = Some gid \<and>
        hm_get (groups ?a) gid = Some (row_group v gid q)"
    proof (cases "q = r")
      case True
      then show ?thesis by (simp add: lookup)
    next
      case False
      with q obtain gid where gid: "store_lookup (group_ids a) (row_db_store_id q) = Some gid"
        "hm_get (groups a) gid = Some (row_group v gid q)" using rows by (auto simp: rows_loaded_def)
      moreover have "row_db_store_id q \<in> row_db_store_id ` set rs" using q False by simp
      then have "row_db_store_id q \<noteq> ?sid" using r(2) by metis
      moreover have "gid \<noteq> ?gid" using gid(2) none by auto
      ultimately show ?thesis by (simp add: lookup)
    qed
  next
    fix sid gid assume "store_lookup (group_ids ?a) sid = Some gid"
    then show "sid \<in> row_db_store_id ` set (rs @ [r])" using rows by (auto simp: lookup rows_loaded_def split: if_splits)
  next
    fix gid g assume g: "hm_get (groups ?a) gid = Some g"
    show "store_lookup (group_ids ?a) (db_store_id g) = Some gid"
    proof (cases "gid = ?gid")
      case True
      with g show ?thesis by (auto simp: lookup)
    next
      case False
      with g have old: "hm_get (groups a) gid = Some g" by simp
      then have "store_lookup (group_ids a) (db_store_id g) = Some gid" using rows by (simp add: rows_loaded_def)
      moreover from this have "db_store_id g \<noteq> ?sid" using rows r(2) by (auto simp: rows_loaded_def)
      ultimately show ?thesis by (simp add: lookup)
    qed
    show "unat gid < unat (next_group_id (group_ids ?a))"
      using g rows un by (auto simp: next_id rows_loaded_def less_Suc_eq split: if_splits)
  qed (use rows un in \<open>auto simp: rows_loaded_def next_id\<close>)
  with st show ?thesis by blast
qed

lemma load_group_rows:
  assumes "\<forall>r\<in>set rs. loadable_row cache r" "distinct (map row_db_store_id rs)"
  shows "\<exists>summary' a'. foldl (load_group_row v cache) (summary, registry_new) rs = (summary', a') \<and>
      skipped_group_rows summary' = skipped_group_rows summary \<and>
      skipped_member_rows summary' = skipped_member_rows summary \<and> rows_loaded v rs a'"
  using assms
proof (induction rs rule: rev_induct)
  case Nil
  show ?case
    by (simp add: rows_loaded_def registry_new_def GroupIds_initial_def store_lookup_def
        group_guid_by_db_store_id_like_cpp_def)
next
  case (snoc r rs)
  then obtain s1 a1 where a1: "foldl (load_group_row v cache) (summary, registry_new) rs = (s1, a1)"
    "skipped_group_rows s1 = skipped_group_rows summary" "skipped_member_rows s1 = skipped_member_rows summary"
    "rows_loaded v rs a1" by auto
  have "card (row_db_store_id ` set rs) \<le> card (UNIV :: u32 set)" by (rule card_mono) auto
  moreover have "card (row_db_store_id ` set rs) = length rs"
    using snoc.prems(2) distinct_card [of "map row_db_store_id rs"] by simp
  ultimately have "Suc (Suc (length rs)) < 2 ^ 64" by (simp add: card_word)
  moreover have "row_db_store_id r \<notin> row_db_store_id ` set rs" "loadable_row cache r" using snoc.prems by auto
  ultimately obtain a' where "load_group_row v cache (s1, a1) r = (s1\<lparr>loaded_groups := loaded_groups s1 + 1\<rparr>, a')"
    "rows_loaded v (rs @ [r]) a'" using load_group_row_step [OF a1(4)] by blast
  with a1 show ?case by simp
qed

section \<open>Member rows\<close>

definition row_member :: "GroupMemberDbRowLikeCpp \<Rightarrow> ObjectGuid" where
  "row_member x = create_player 1 (mrow_member_guid_low x)"

text \<open>Everything but the members; a group grown by member rows differs from its row in these.\<close>

definition emptied :: "GroupInfo \<Rightarrow> GroupInfo" where
  "emptied g = g\<lparr>group_members := [], member_slots := [], raid_subgroup_counts := None\<rparr>"

definition grown :: "GroupInfo \<Rightarrow> GroupMemberDbRowLikeCpp list \<Rightarrow> GroupInfo \<Rightarrow> bool" where
  "grown g0 xs g \<longleftrightarrow>
     emptied g = emptied g0 \<and> group_wf g \<and>
     map (\<lambda>s. (slot_guid s, slot_subgroup s)) (member_slots g) = map (\<lambda>x. (row_member x, mrow_subgroup x)) xs"

lemma grown_members: "grown g0 xs g \<Longrightarrow> group_members g = map row_member xs"
proof -
  assume "grown g0 xs g"
  then have "map fst (map (\<lambda>s. (slot_guid s, slot_subgroup s)) (member_slots g)) =
      map fst (map (\<lambda>x. (row_member x, mrow_subgroup x)) xs)" and "group_wf g" unfolding grown_def by simp_all
  then show ?thesis by (simp add: comp_def group_wf_def)
qed

lemma row_group_wf: "group_wf (row_group v gid r)"
  by (simp add: group_wf_def row_group_def loaded_from_db_validated_like_cpp_def loaded_from_db_like_cpp_def
      is_raid_group_def counts_ok_def)

lemma row_group_grown: "grown (row_group v gid r) [] (row_group v gid r)"
  by (simp add: grown_def row_group_wf)

lemma drop_absent:
  assumes "group_wf g" "guid \<notin> set (group_members g)"
  shows "drop_member_entries guid g = g"
proof -
  have s: "slot_guid ` set (member_slots g) = set (group_members g)" using assms(1) by (metis group_wf_def set_map)
  then have "member_slot_like_cpp g guid = None"
    using assms(2) by (auto simp: member_slot_like_cpp_def find_None_iff_all)
  moreover have "filter (\<lambda>m. m \<noteq> guid) (group_members g) = group_members g"
    "filter (\<lambda>slot. slot_guid slot \<noteq> guid) (member_slots g) = member_slots g"
    using assms(2) s by (auto intro!: filter_True)
  ultimately show ?thesis by (simp add: drop_member_entries_def)
qed

definition loadable_member :: "(u64 \<times> GroupMemberCharacterLikeCpp) list \<Rightarrow> GroupMemberDbRowLikeCpp \<Rightarrow> bool" where
  "loadable_member cache x \<longleftrightarrow>
     map_of cache (mrow_member_guid_low x) \<noteq> None \<and> i64_try_from (mrow_member_guid_low x) \<noteq> None \<and>
     unat (mrow_subgroup x) < 8"

lemma load_member_grown:
  assumes g: "grown g0 xs g" and x: "loadable_member cache x" "row_member x \<notin> row_member ` set xs"
    and len: "length xs < 255"
  shows "\<exists>g'. load_member_from_db_like_cpp (mrow_member_guid_low x) (mrow_member_flags x) (mrow_subgroup x)
      (mrow_roles x) (map_of cache (mrow_member_guid_low x)) g = (True, g') \<and> grown g0 (xs @ [x]) g'"
proof -
  have wf: "group_wf g" and mem: "group_members g = map row_member xs"
    using g grown_members [OF g] by (simp_all add: grown_def)
  obtain ch where ch: "map_of cache (mrow_member_guid_low x) = Some ch" using x(1) by (auto simp: loadable_member_def)
  have low: "i64_try_from (mrow_member_guid_low x) = Some (mrow_member_guid_low x)"
    using x(1) by (auto simp: loadable_member_def i64_try_from_def split: if_splits)
  have drop: "drop_member_entries (row_member x) g = g" using x(2) by (intro drop_absent [OF wf]) (simp add: mem)
  have small: "unat (mrow_subgroup x) < 8" using x(1) by (simp add: loadable_member_def)
  obtain g1 where g1: "subgroup_counter_increase_like_cpp (mrow_subgroup x) g = (True, g1)"
    "emptied g1 = emptied g" "group_members g1 = group_members g" "member_slots g1 = member_slots g"
  proof (cases "raid_subgroup_counts g")
    case None
    then show ?thesis by (intro that [of g]) (simp_all add: subgroup_counter_increase_like_cpp_def)
  next
    case (Some cs)
    then have "length cs = 8" using wf by (simp add: group_wf_def counts_ok_def)
    with Some small show ?thesis
      by (intro that [of "snd (subgroup_counter_increase_like_cpp (mrow_subgroup x) g)"])
        (simp_all add: subgroup_counter_increase_like_cpp_def emptied_def)
  qed
  define flags where "flags = (if group_flags g AND GROUP_FLAG_EVERYONE_ASSISTANT_LIKE_CPP \<noteq> 0
                     then mrow_member_flags x OR MEMBER_FLAG_ASSISTANT_LIKE_CPP else mrow_member_flags x)"
  define g' where "g' = g1\<lparr>group_members := group_members g1 @ [row_member x],
      member_slots := member_slots g1 @ [\<lparr>slot_guid = row_member x, slot_name = character_name ch,
         slot_race = character_race ch, slot_class = character_class ch, slot_subgroup = mrow_subgroup x,
         slot_flags = flags, slot_roles = mrow_roles x, slot_ready_checked = False\<rparr>]\<rparr>"
  have st: "load_member_from_db_like_cpp (mrow_member_guid_low x) (mrow_member_flags x) (mrow_subgroup x)
      (mrow_roles x) (map_of cache (mrow_member_guid_low x)) g = (True, g')"
    using small drop g1(1)
    by (simp add: load_member_from_db_like_cpp_def ch low Let_def row_member_def g'_def flags_def)
  have "length (group_members g) < 255" using len by (simp add: mem)
  from load_member_wf [OF wf this, of "mrow_member_guid_low x" "mrow_member_flags x" "mrow_subgroup x"
      "mrow_roles x" "map_of cache (mrow_member_guid_low x)"] have "group_wf g'" by (simp add: st)
  moreover have "emptied g' = emptied g1" by (simp add: emptied_def g'_def)
  ultimately have "grown g0 (xs @ [x]) g'" using g g1 by (simp add: grown_def g'_def)
  with st show ?thesis by blast
qed

definition rows_of :: "u32 \<Rightarrow> GroupMemberDbRowLikeCpp list \<Rightarrow> GroupMemberDbRowLikeCpp list" where
  "rows_of sid xs = filter (\<lambda>x. mrow_db_store_id x = sid) xs"

definition members_loaded ::
  "GroupDifficultyValidatorLikeCpp \<Rightarrow> GroupDbRowLikeCpp list \<Rightarrow> GroupMemberDbRowLikeCpp list \<Rightarrow> GroupAuthority \<Rightarrow> bool" where
  "members_loaded v rs xs a \<longleftrightarrow>
     (\<forall>r\<in>set rs. \<exists>gid g. store_lookup (group_ids a) (row_db_store_id r) = Some gid \<and>
        hm_get (groups a) gid = Some g \<and> grown (row_group v gid r) (rows_of (row_db_store_id r) xs) g) \<and>
     (\<forall>sid gid. store_lookup (group_ids a) sid = Some gid \<longrightarrow> sid \<in> row_db_store_id ` set rs) \<and>
     (\<forall>gid g. hm_get (groups a) gid = Some g \<longrightarrow> store_lookup (group_ids a) (db_store_id g) = Some gid)"

lemma rows_loaded_members: "rows_loaded v rs a \<Longrightarrow> members_loaded v rs [] a"
  unfolding rows_loaded_def members_loaded_def rows_of_def using row_group_grown by fastforce

lemma grown_store_id: "grown g0 xs g \<Longrightarrow> db_store_id g = db_store_id g0"
proof -
  assume "grown g0 xs g"
  then have "db_store_id (emptied g) = db_store_id (emptied g0)" by (simp add: grown_def)
  then show ?thesis by (simp add: emptied_def)
qed

lemma load_member_row_step:
  assumes st: "members_loaded v rs xs a" and x: "loadable_member cache x" "row_member x \<notin> row_member ` set xs"
    "mrow_db_store_id x \<in> row_db_store_id ` set rs" and len: "length (rows_of (mrow_db_store_id x) xs) < 255"
  shows "\<exists>summary' a'. load_member_row cache (summary, a) x = (summary', a') \<and>
      skipped_group_rows summary' = skipped_group_rows summary \<and>
      skipped_member_rows summary' = skipped_member_rows summary \<and> members_loaded v rs (xs @ [x]) a'"
proof -
  obtain r where r: "r \<in> set rs" "row_db_store_id r = mrow_db_store_id x" using x(3) by auto
  then obtain gid g where g: "store_lookup (group_ids a) (mrow_db_store_id x) = Some gid"
    "hm_get (groups a) gid = Some g" "grown (row_group v gid r) (rows_of (mrow_db_store_id x) xs) g"
    using st by (auto simp: members_loaded_def)
  have new: "row_member x \<notin> row_member ` set (rows_of (mrow_db_store_id x) xs)" using x(2) by (auto simp: rows_of_def)
  obtain g' where g': "load_member_from_db_like_cpp (mrow_member_guid_low x) (mrow_member_flags x) (mrow_subgroup x)
      (mrow_roles x) (map_of cache (mrow_member_guid_low x)) g = (True, g')"
    "grown (row_group v gid r) (rows_of (mrow_db_store_id x) xs @ [x]) g'"
    using load_member_grown [OF g(3) x(1) new len] by blast
  have sid: "db_store_id g' = mrow_db_store_id x" using grown_store_id [OF g'(2)] r(2) by simp
  let ?a = "a\<lparr>groups := hm_insert gid g' (groups a)\<rparr>"
  have row: "load_member_row cache (summary, a) x = (summary\<lparr>loaded_member_rows := loaded_member_rows summary + 1,
      loaded_members := loaded_members summary + 1\<rparr>, ?a)"
    using g(1,2) g'(1) by (simp add: load_member_row_def Let_def store_lookup_def)
  have "members_loaded v rs (xs @ [x]) ?a"
    unfolding members_loaded_def
  proof (intro conjI ballI allI impI)
    fix q assume q: "q \<in> set rs"
    then obtain j h where h: "store_lookup (group_ids a) (row_db_store_id q) = Some j" "hm_get (groups a) j = Some h"
      "grown (row_group v j q) (rows_of (row_db_store_id q) xs) h" using st by (auto simp: members_loaded_def)
    show "\<exists>gid g. store_lookup (group_ids ?a) (row_db_store_id q) = Some gid \<and> hm_get (groups ?a) gid = Some g \<and>
        grown (row_group v gid q) (rows_of (row_db_store_id q) (xs @ [x])) g"
    proof (cases "row_db_store_id q = mrow_db_store_id x")
      case True
      then have "j = gid" "h = g" using h g by simp_all
      have "emptied (row_group v gid q) = emptied (row_group v gid r)"
        using h(3) g(3) \<open>j = gid\<close> \<open>h = g\<close> by (simp add: grown_def)
      with g'(2) have "grown (row_group v gid q) (rows_of (mrow_db_store_id x) xs @ [x]) g'" by (simp add: grown_def)
      with True g(1) show ?thesis by (simp add: rows_of_def)
    next
      case False
      have "db_store_id h = row_db_store_id q" "db_store_id g = mrow_db_store_id x"
        using grown_store_id [OF h(3)] grown_store_id [OF g(3)] r(2) by simp_all
      then have "j \<noteq> gid" using h(2) g(2) False by auto
      with h False show ?thesis by (auto simp: rows_of_def)
    qed
  next
    fix k h assume "hm_get (groups ?a) k = Some h"
    then show "store_lookup (group_ids ?a) (db_store_id h) = Some k"
      using st g(1) sid by (cases "k = gid") (auto simp: members_loaded_def)
  qed (use st in \<open>auto simp: members_loaded_def\<close>)
  with row show ?thesis by simp
qed

lemma load_member_rows:
  assumes "members_loaded v rs [] a" "\<forall>x\<in>set xs. loadable_member cache x \<and> mrow_db_store_id x \<in> row_db_store_id ` set rs"
    and "distinct (map row_member xs)" "\<forall>sid. length (rows_of sid xs) < 255"
  shows "\<exists>summary' a'. foldl (load_member_row cache) (summary, a) xs = (summary', a') \<and>
      skipped_group_rows summary' = skipped_group_rows summary \<and>
      skipped_member_rows summary' = skipped_member_rows summary \<and> members_loaded v rs xs a'"
  using assms
proof (induction xs rule: rev_induct)
  case Nil
  then show ?case by simp
next
  case (snoc x xs)
  have "length (rows_of sid xs) \<le> length (rows_of sid (xs @ [x]))" for sid by (simp add: rows_of_def)
  then have len: "\<forall>sid. length (rows_of sid xs) < 255" using snoc.prems(4) le_less_trans by blast
  then obtain s1 a1 where a1: "foldl (load_member_row cache) (summary, a) xs = (s1, a1)"
    "skipped_group_rows s1 = skipped_group_rows summary" "skipped_member_rows s1 = skipped_member_rows summary"
    "members_loaded v rs xs a1" using snoc by auto
  have "loadable_member cache x" "row_member x \<notin> row_member ` set xs" "mrow_db_store_id x \<in> row_db_store_id ` set rs"
    using snoc.prems by auto
  with load_member_row_step [OF a1(4)] len obtain s2 a2 where "load_member_row cache (s1, a1) x = (s2, a2)"
    "skipped_group_rows s2 = skipped_group_rows s1" "skipped_member_rows s2 = skipped_member_rows s1"
    "members_loaded v rs (xs @ [x]) a2" by blast
  with a1 show ?case by simp
qed

section \<open>The start-up load\<close>

definition stored_difficulty :: "(u32 \<Rightarrow> u8 option) \<Rightarrow> u32 \<Rightarrow> u32" where
  "stored_difficulty read_u8 d = (case read_u8 d of None \<Rightarrow> 0 | Some b \<Rightarrow> ucast b)"

text \<open>What a group is after a restart, compared with what it was.\<close>

definition restored :: "(u32 \<Rightarrow> u8 option) \<Rightarrow> GroupDifficultyValidatorLikeCpp \<Rightarrow> GroupInfo \<Rightarrow> GroupInfo \<Rightarrow> bool" where
  "restored read_u8 v g g' \<longleftrightarrow>
     db_store_id g' = db_store_id g \<and> leader_guid g' = leader_guid g \<and> group_flags g' = group_flags g \<and>
     group_loot_method g' = group_loot_method g \<and> loot_threshold g' = loot_threshold g \<and>
     set (group_members g') = set (group_members g) \<and> set (roster g') = set (roster g) \<and>
     dungeon_difficulty_id g' =
       check_loaded_dungeon_difficulty_id_like_cpp v (stored_difficulty read_u8 (dungeon_difficulty_id g)) \<and>
     raid_difficulty_id g' =
       check_loaded_raid_difficulty_id_like_cpp v (stored_difficulty read_u8 (raid_difficulty_id g)) \<and>
     legacy_raid_difficulty_id g' =
       check_loaded_legacy_raid_difficulty_id_like_cpp v (stored_difficulty read_u8 (legacy_raid_difficulty_id g)) \<and>
     group_wf g'"

definition looters_fit :: "CharacterTables \<Rightarrow> bool" where
  "looters_fit db = (\<forall>q\<in>set (tbl_groups db). i64_try_from (t_looterGuid q) \<noteq> None)"

lemma counter_fits: "i64_try_from (guid_counter m) = Some (guid_counter m)"
proof -
  have "guid_counter m \<le> 0xFFFFFFFFFF"
  proof (cases "high_type m = HgTransport")
    case True
    then have "guid_counter m \<le> 0xFFFFF" by (simp add: guid_counter_def word_and_le1)
    then show ?thesis by (rule order_trans) simp
  next
    case False
    then show ?thesis by (simp add: guid_counter_def word_and_le1)
  qed
  then show ?thesis by (simp add: i64_try_from_def word_le_nat_alt)
qed

definition group_startup_row :: "(u32 \<Rightarrow> u8 option) \<Rightarrow> CharacterTables \<Rightarrow> GroupsTableRow \<Rightarrow> GroupDbRowLikeCpp" where
  "group_startup_row read_u8 db q =
     db_row_from_startup (startup_group_row read_u8 q (map_of (tbl_lfg db) (t_guid q)))"

definition member_startup_row :: "GroupMemberTableRow \<Rightarrow> GroupMemberDbRowLikeCpp" where
  "member_startup_row x =
     \<lparr>mrow_db_store_id = t_group x, mrow_member_guid_low = t_memberGuid x, mrow_member_flags = t_memberFlags x,
      mrow_subgroup = t_subgroup x, mrow_roles = t_roles x\<rparr>"

lemma startup_rows:
  "map db_row_from_startup (select_groups read_u8 db) = map (group_startup_row read_u8 db) (sort_key t_guid (tbl_groups db))"
  "map db_member_from_startup (select_group_members order db) = map member_startup_row (order (tbl_members db))"
  by (simp_all add: select_groups_def select_group_members_def group_startup_row_def member_startup_row_def
      db_member_from_startup_def)

lemma startup_row_facts [simp]:
  "row_db_store_id (group_startup_row read_u8 db q) = t_guid q"
  "row_leader_guid_low (group_startup_row read_u8 db q) = t_leaderGuid q"
  "row_looter_guid_low (group_startup_row read_u8 db q) = t_looterGuid q"
  "row_master_looter_guid_low (group_startup_row read_u8 db q) = t_masterLooterGuid q"
  "mrow_db_store_id (member_startup_row x) = t_group x" "mrow_member_guid_low (member_startup_row x) = t_memberGuid x"
  "mrow_subgroup (member_startup_row x) = t_subgroup x"
  "row_member (member_startup_row x) = create_player 1 (t_memberGuid x)"
  by (simp_all add: group_startup_row_def db_row_from_startup_def startup_group_row_def member_startup_row_def
      row_member_def)

text \<open>Every row loads.\<close>

lemma rows_load:
  assumes sync: "in_sync a db" and ok: "registry_ok a" and res: "restorable a" and known: "characters_known a db"
    and fit: "looters_fit db" and cache: "cache = startup_character_cache (select_character_cache db)"
  shows "q \<in> set (tbl_groups db) \<Longrightarrow> loadable_row cache (group_startup_row read_u8 db q)"
    and "one_group_each a \<Longrightarrow> r \<in> set (tbl_members db) \<Longrightarrow> loadable_member cache (member_startup_row r)"
proof -
  assume q: "q \<in> set (tbl_groups db)"
  then obtain gid g where g: "hm_get (groups a) gid = Some g" "group_durable g = row_durable q"
    using table_group [OF sync] by metis
  have "guid_counter (leader_guid g) \<noteq> 0" "guid_counter (leader_guid g) \<in> fst ` set (tbl_characters db)"
    using known g(1) by (auto simp: characters_known_def)
  then have "map_of cache (t_leaderGuid q) \<noteq> None"
    unfolding cache using q durable_fields(1) [OF g(2)] by (intro cache_known) auto
  then show "loadable_row cache (group_startup_row read_u8 db q)"
    using fit q durable_fields(1,8) [OF g(2)] by (simp add: loadable_row_def looters_fit_def counter_fits)
next
  assume r: "r \<in> set (tbl_members db)"
  then obtain gid g m where g: "hm_get (groups a) gid = Some g" "m \<in> set (group_members g)"
    "guid_counter m = t_memberGuid r" "(t_memberGuid r, t_subgroup r) \<in> set (roster g)"
    using table_member [OF sync ok] by metis
  have "guid_counter m \<noteq> 0" "guid_counter m \<in> fst ` set (tbl_characters db)"
    using known g(1,2) by (auto simp: characters_known_def)
  then have "map_of cache (t_memberGuid r) \<noteq> None"
    unfolding cache using r g(3) by (intro cache_known) auto
  moreover have "unat (t_subgroup r) < 8" using res g(1,4) by (force simp: restorable_def subgroups_small_def)
  ultimately show "loadable_member cache (member_startup_row r)"
    using counter_fits [of m] by (simp add: loadable_member_def g(3))
qed

lemma member_rows_distinct:
  assumes sync: "in_sync a db" and ok: "registry_ok a" and one: "one_group_each a"
  shows "distinct (map (\<lambda>r. create_player 1 (t_memberGuid r)) (tbl_members db))"
proof -
  have "realm_counter (t_memberGuid r)" if "r \<in> set (tbl_members db)" for r
  proof -
    from that obtain gid g m where "hm_get (groups a) gid = Some g" "m \<in> set (group_members g)"
      "guid_counter m = t_memberGuid r" using table_member [OF sync ok] by metis
    then show ?thesis using player_counter [of m] one by (auto simp: one_group_each_def)
  qed
  then have "inj_on (create_player 1) (set (map t_memberGuid (tbl_members db)))"
    by (intro inj_onI) (auto simp: realm_counter_def, metis)
  moreover have "distinct (map t_memberGuid (tbl_members db))" using sync by (simp add: in_sync_def keys_ok_def)
  ultimately have "distinct (map (create_player 1) (map t_memberGuid (tbl_members db)))" by (simp only: distinct_map)
  then show ?thesis by (simp add: comp_def)
qed

lemma rows_bounded:
  assumes sync: "in_sync a db" and ok: "registry_ok a" "ids_ok a" and one: "one_group_each a"
  shows "length (members_in_group sid db) < 255"
proof (cases "members_in_group sid db")
  case Nil
  then show ?thesis by simp
next
  case (Cons r rs)
  then have "r \<in> set (members_in_group sid db)" by simp
  then have r: "r \<in> set (tbl_members db)" "t_group r = sid" by (simp_all add: members_in_group_def)
  then obtain gid g where g: "hm_get (groups a) gid = Some g" "db_store_id g = sid"
    using table_member [OF sync ok(1)] by metis
  have "length (group_members g) \<le> 40"
    using registry_ok_get [OF ok(1) g(1)] by (auto simp: group_ok_def group_cap_def split: if_splits)
  then show ?thesis using group_rows_length [OF sync ok one g(1)] g(2) by simp
qed

lemma grown_fields:
  assumes "grown (row_group v gid r) xs g"
  shows "db_store_id g = row_db_store_id r" "leader_guid g = create_player 1 (row_leader_guid_low r)"
    "group_flags g = row_group_flags r" "group_loot_method g = row_loot_method r"
    "loot_threshold g = row_loot_threshold r"
    "dungeon_difficulty_id g = check_loaded_dungeon_difficulty_id_like_cpp v (row_dungeon_difficulty_id r)"
    "raid_difficulty_id g = check_loaded_raid_difficulty_id_like_cpp v (row_raid_difficulty_id r)"
    "legacy_raid_difficulty_id g = check_loaded_legacy_raid_difficulty_id_like_cpp v (row_legacy_raid_difficulty_id r)"
    "roster g = map (\<lambda>x. (guid_counter (row_member x), mrow_subgroup x)) xs" "group_wf g"
proof -
  have e: "emptied g = emptied (row_group v gid r)" using assms by (simp add: grown_def)
  have f: "f g = f (row_group v gid r)" if "\<And>h. f (emptied h) = f h" for f :: "GroupInfo \<Rightarrow> 'a"
    using e that by metis
  show "db_store_id g = row_db_store_id r" "leader_guid g = create_player 1 (row_leader_guid_low r)"
    "group_flags g = row_group_flags r" "group_loot_method g = row_loot_method r"
    "loot_threshold g = row_loot_threshold r"
    "dungeon_difficulty_id g = check_loaded_dungeon_difficulty_id_like_cpp v (row_dungeon_difficulty_id r)"
    "raid_difficulty_id g = check_loaded_raid_difficulty_id_like_cpp v (row_raid_difficulty_id r)"
    "legacy_raid_difficulty_id g = check_loaded_legacy_raid_difficulty_id_like_cpp v (row_legacy_raid_difficulty_id r)"
    by (subst f; simp add: emptied_def row_group_def loaded_from_db_validated_like_cpp_def loaded_from_db_like_cpp_def)+
  show "group_wf g" using assms by (simp add: grown_def)
  have "roster g = map (\<lambda>(m, k). (guid_counter m, k)) (map (\<lambda>s. (slot_guid s, slot_subgroup s)) (member_slots g))"
    by (simp add: roster_def)
  also have "map (\<lambda>s. (slot_guid s, slot_subgroup s)) (member_slots g) = map (\<lambda>x. (row_member x, mrow_subgroup x)) xs"
    using assms by (simp add: grown_def)
  finally show "roster g = map (\<lambda>x. (guid_counter (row_member x), mrow_subgroup x)) xs" by (simp add: comp_def)
qed

lemma grown_restored:
  assumes sync: "in_sync a db" and ok: "registry_ok a" "ids_ok a" and one: "one_group_each a" and res: "restorable a"
    and g: "hm_get (groups a) gid = Some g" and q: "t_guid q = db_store_id g" "row_durable q = group_durable g"
    and order: "\<forall>rows. mset (order rows) = mset rows"
    and g': "grown (row_group v gid' (group_startup_row read_u8 db q))
      (rows_of (db_store_id g) (map member_startup_row (order (tbl_members db)))) g'"
  shows "restored read_u8 v g g'"
proof -
  let ?xs = "rows_of (db_store_id g) (map member_startup_row (order (tbl_members db)))"
  note gf = grown_fields [OF g'] and df = durable_fields [OF q(2) [symmetric]]
  have set_order: "set (order (tbl_members db)) = set (tbl_members db)" using order by (metis mset_eq_setD)
  have players: "\<forall>m\<in>set (group_members g). create_player 1 (guid_counter m) = m"
    using one g by (auto simp: one_group_each_def player_guid_def)
  have wf: "group_wf g" using registry_ok_get [OF ok(1) g] by (simp add: group_ok_def)
  have rows: "set ?xs = member_startup_row ` set (members_in_group (db_store_id g) db)"
    by (auto simp: rows_of_def members_in_group_def set_order)
  have pairs: "(\<lambda>x. (mrow_member_guid_low x, mrow_subgroup x)) ` set ?xs = set (roster g)"
    unfolding rows group_rows [OF sync ok(2) g, symmetric] image_image by simp
  have "set (group_members g') = create_player 1 ` fst ` (\<lambda>x. (mrow_member_guid_low x, mrow_subgroup x)) ` set ?xs"
    by (simp add: grown_members [OF g'] row_member_def image_image)
  also have "\<dots> = (\<lambda>m. create_player 1 (guid_counter m)) ` set (group_members g)"
    unfolding pairs roster_counters [OF wf] by (simp add: image_image)
  also have "\<dots> = set (group_members g)" using players by simp
  finally have members: "set (group_members g') = set (group_members g)" .
  have "guid_counter (row_member x) = mrow_member_guid_low x" if "x \<in> set ?xs" for x
  proof -
    have "mrow_member_guid_low x \<in> fst ` set (roster g)" using that pairs by force
    then obtain m where "m \<in> set (group_members g)" "guid_counter m = mrow_member_guid_low x"
      by (auto simp: roster_counters [OF wf])
    with players show ?thesis by (metis row_member_def)
  qed
  then have "set (roster g') = (\<lambda>x. (mrow_member_guid_low x, mrow_subgroup x)) ` set ?xs"
    by (simp add: gf(9))
  then have roster: "set (roster g') = set (roster g)" using pairs by simp
  have lead: "create_player 1 (t_leaderGuid q) = leader_guid g"
    using res g df(1) by (auto simp: restorable_def player_guid_def)
  show ?thesis
    unfolding restored_def
    using members roster gf(10) q(1) lead df
    by (simp add: gf(1-8)) (simp add: group_startup_row_def db_row_from_startup_def startup_group_row_def
        stored_difficulty_def)
qed

lemma startup_restores:
  assumes sync: "in_sync a db" and ok: "registry_ok a" "ids_ok a" and one: "one_group_each a" and res: "restorable a"
    and known: "characters_known a db" and fit: "looters_fit db" and order: "\<forall>rows. mset (order rows) = mset rows"
  shows "\<exists>summary a'. load_groups_from_character_database_like_cpp read_u8 order v db registry_new =
      Some (Inr summary, db, a') \<and> skipped_group_rows summary = 0 \<and> skipped_member_rows summary = 0 \<and>
    (\<forall>gid g. hm_get (groups a) gid = Some g \<longrightarrow>
       (\<exists>g'. get_group_by_db_store_id_like_cpp a' (db_store_id g) = Some g' \<and> restored read_u8 v g g')) \<and>
    (\<forall>gid' g'. hm_get (groups a') gid' = Some g' \<longrightarrow>
       (\<exists>gid g. hm_get (groups a) gid = Some g \<and> restored read_u8 v g g'))"
proof -
  define cache where "cache = startup_character_cache (select_character_cache db)"
  define rs where "rs = map (group_startup_row read_u8 db) (sort_key t_guid (tbl_groups db))"
  define xs where "xs = map member_startup_row (order (tbl_members db))"
  have set_order: "set (order (tbl_members db)) = set (tbl_members db)" using order by (metis mset_eq_setD)
  have rs_set: "set rs = group_startup_row read_u8 db ` set (tbl_groups db)" by (simp add: rs_def)
  note load = rows_load [OF sync ok(1) res known fit cache_def]
  have "distinct (map t_guid (sort_key t_guid (tbl_groups db)))"
    using sync by (simp add: in_sync_def keys_ok_def distinct_map)
  then have "distinct (map row_db_store_id rs)" by (simp add: rs_def comp_def)
  moreover have "\<forall>r\<in>set rs. loadable_row cache r" using load(1) by (auto simp: rs_set)
  ultimately obtain s1 a1 where g1: "foldl (load_group_row v cache) (\<lparr>loaded_groups = 0, loaded_member_rows = 0,
        loaded_members = 0, skipped_group_rows = 0, skipped_member_rows = 0\<rparr>, registry_new) rs = (s1, a1)"
    "skipped_group_rows s1 = 0" "skipped_member_rows s1 = 0" "rows_loaded v rs a1"
    using load_group_rows by (metis GroupLoadSummaryLikeCpp.select_convs(4,5))
  have "\<forall>x\<in>set xs. loadable_member cache x \<and> mrow_db_store_id x \<in> row_db_store_id ` set rs"
  proof
    fix x assume "x \<in> set xs"
    then obtain r where r: "r \<in> set (tbl_members db)" "x = member_startup_row r" by (auto simp: xs_def set_order)
    obtain gid g where g: "hm_get (groups a) gid = Some g" "db_store_id g = t_group r"
      using table_member [OF sync ok(1) r(1)] by metis
    obtain q where q: "q \<in> set (tbl_groups db)" "t_guid q = db_store_id g" using table_row [OF sync g(1)] by metis
    have "t_group r \<in> row_db_store_id ` set rs" using q g(2) by (force simp: rs_set image_image)
    with load(2) [OF one r(1)] r(2) show "loadable_member cache x \<and> mrow_db_store_id x \<in> row_db_store_id ` set rs" by simp
  qed
  moreover have "distinct (map row_member xs)"
  proof -
    have "distinct (map f (order (tbl_members db))) \<longleftrightarrow> distinct (map f (tbl_members db))" for f :: "GroupMemberTableRow \<Rightarrow> ObjectGuid"
      using order by (intro mset_eq_imp_distinct_iff) simp
    with member_rows_distinct [OF sync ok(1) one] show ?thesis by (simp add: xs_def comp_def)
  qed
  moreover have "\<forall>sid. length (rows_of sid xs) < 255"
  proof
    fix sid
    have "length (rows_of sid xs) = size (filter_mset (\<lambda>r. t_group r = sid) (mset (order (tbl_members db))))"
      by (simp add: rows_of_def xs_def filter_map comp_def flip: mset_filter)
    also have "\<dots> = length (members_in_group sid db)" using order by (simp add: members_in_group_def flip: mset_filter)
    finally show "length (rows_of sid xs) < 255" using rows_bounded [OF sync ok one] by simp
  qed
  ultimately obtain s2 a2 where g2: "foldl (load_member_row cache) (s1, a1) xs = (s2, a2)"
    "skipped_group_rows s2 = 0" "skipped_member_rows s2 = 0" "members_loaded v rs xs a2"
    using load_member_rows [OF rows_loaded_members [OF g1(4)]] g1(2,3) by metis
  have start: "load_groups_from_character_database_like_cpp read_u8 order v db registry_new = Some (Inr s2, db, a2)"
    using g1(1) g2(1) cleanup_idle [OF sync ok one res known]
    by (simp del: startup_cleanup.simps add: load_groups_from_character_database_like_cpp_def
        load_represented_groups_like_cpp_def load_groups_from_db_rows_like_cpp_def startup_rows
        flip: cache_def rs_def xs_def)
  have there: "\<exists>gid' g'. store_lookup (group_ids a2) (db_store_id g) = Some gid' \<and> hm_get (groups a2) gid' = Some g' \<and>
      restored read_u8 v g g'" if g: "hm_get (groups a) gid = Some g" for gid g
  proof -
    obtain q where q: "q \<in> set (tbl_groups db)" "t_guid q = db_store_id g" "row_durable q = group_durable g"
      using table_row [OF sync g] by metis
    then obtain gid' g' where g': "store_lookup (group_ids a2) (db_store_id g) = Some gid'" "hm_get (groups a2) gid' = Some g'"
      "grown (row_group v gid' (group_startup_row read_u8 db q)) (rows_of (db_store_id g) xs) g'"
      using g2(4) by (auto simp: members_loaded_def rs_set)
    from grown_restored [OF sync ok one res g q(2,3) order g'(3) [unfolded xs_def]] g' show ?thesis by blast
  qed
  have from_old: "\<exists>gid g. hm_get (groups a) gid = Some g \<and> restored read_u8 v g g'"
    if g': "hm_get (groups a2) gid' = Some g'" for gid' g'
  proof -
    have lk: "store_lookup (group_ids a2) (db_store_id g') = Some gid'" using g2(4) g' by (simp add: members_loaded_def)
    then have "db_store_id g' \<in> row_db_store_id ` set rs" using g2(4) by (auto simp: members_loaded_def)
    then obtain q where q: "q \<in> set (tbl_groups db)" "t_guid q = db_store_id g'" by (auto simp: rs_set)
    obtain gid g where g: "hm_get (groups a) gid = Some g" "db_store_id g = t_guid q" using table_group [OF sync q(1)] by metis
    from there [OF g(1)] lk g' g q(2) show ?thesis by auto
  qed
  show ?thesis using start g2(2,3) there from_old
    by (intro exI [of _ s2] exI [of _ a2]) (fastforce simp: get_group_by_db_store_id_like_cpp_def store_lookup_def)
qed

section \<open>A restart after a run\<close>

lemma command_looters:
  assumes "command_effect (group_persistence_command_like_cpp i) db = Some db'" "looters_fit db"
  shows "looters_fit db'"
proof (cases i)
  case (UpdateDifficulty sid kind d)
  with assms show ?thesis
    by (cases kind) (auto simp: looters_fit_def update_groups_def)
qed (use assms in \<open>auto simp: looters_fit_def update_groups_def update_members_def insert_group_row_def
       insert_member_row_def counter_fits split: if_splits\<close>)

lemma persist_looters:
  "persist_sequential execute_statement n (map group_persistence_command_like_cpp is) db = Some (out, db') \<Longrightarrow>
     looters_fit db \<Longrightarrow> looters_fit db'"
proof (induction "is" arbitrary: n db)
  case Nil
  then show ?case by simp
next
  case (Cons i "is")
  obtain s where s: "represented_group_statement_like_cpp (group_persistence_command_like_cpp i) = Some s"
    "execute_statement s db = command_effect (group_persistence_command_like_cpp i) db"
    using prepared_effect [of "group_persistence_command_like_cpp i" db] by blast
  show ?case
  proof (cases "command_effect (group_persistence_command_like_cpp i) db")
    case None
    with Cons.prems s show ?thesis by simp
  next
    case (Some db1)
    with Cons.prems s have "persist_sequential execute_statement (n + 1) (map group_persistence_command_like_cpp is) db1 =
        Some (out, db')" by simp
    from Cons.IH [OF this command_looters [OF Some Cons.prems(2)]] show ?thesis .
  qed
qed

lemma persisted_ops_looters: "looters_fit db \<Longrightarrow> looters_fit (snd (persisted_ops commit ops (s, db)))"
proof (induction ops rule: rev_induct)
  case Nil
  then show ?case by (simp add: persisted_ops_def)
next
  case (snoc op ops)
  obtain s' db1 where st: "persisted_ops commit ops (s, db) = (s', db1)" by fastforce
  with snoc have fit: "looters_fit db1" by simp
  show ?case
    unfolding persisted_ops_snoc st
    using persist_looters [OF _ fit] fit
    by (auto simp: persisted_op_def persist_group_intents_like_cpp_def persist_group_commands_like_cpp_def
        split: option.split)
qed


definition counters_of :: "GroupAuthority \<Rightarrow> u64 list" where
  "counters_of a = concat (map (\<lambda>(gid, g). map guid_counter (leader_guid g # group_members g)) (groups a))"

lemma counters_known:
  "\<forall>c\<in>set (counters_of a). c \<noteq> 0 \<and> c \<in> fst ` set (tbl_characters db) \<Longrightarrow> characters_known a db"
  unfolding counters_of_def characters_known_def by (auto dest!: hm_get_mem)

lemma sample_players_counters: "counters_of (fst (run_group_ops sample_players group_start)) = [1, 1, 2]"
  by code_simp


end
