(* ===== verification/EventMap.thy ===== *)
theory EventMap
  imports Prelude "HOL-Library.Multiset"
begin

text \<open>
  The event schedule of creature and instance scripts
  (\<open>crates/wow-core/src/event_map.rs\<close>): events wait in queues under their deadlines, carry
  their group and phase in the upper bits of one word, and may repeat along a series of
  delays.  Times are \<open>i64\<close> read as integers; their sums wrap (\<open>i64_add\<close>).  The delay drawn by
  \<open>urand_like_cpp\<close> is the parameter \<open>urand\<close>.

  A flat list of pairs of deadline and event in firing order is the abstraction
  (\<open>schedule_list\<close>); every operation on the queues is one on this list.
\<close>

section \<open>The schedule\<close>

definition i64_add :: "int \<Rightarrow> int \<Rightarrow> int" where
  "i64_add a b = signed_take_bit 63 (a + b)"

definition i64_MAX :: int where
  "i64_MAX = 2 ^ 63 - 1"

definition EVENT_ID_MASK_LIKE_CPP :: u32 where "EVENT_ID_MASK_LIKE_CPP = 0x0000FFFF"
definition EVENT_PHASE_MASK_LIKE_CPP :: u32 where "EVENT_PHASE_MASK_LIKE_CPP = 0xFF000000"
definition MAX_EVENT_GROUP_OR_PHASE_LIKE_CPP :: u32 where "MAX_EVENT_GROUP_OR_PHASE_LIKE_CPP = 8"

record EventMap =
  time_ms :: int
  event_phase_mask :: u8
  last_event_data :: u32
  event_queues :: "(int \<times> u32 list) list"
  timer_series :: "(u32 \<times> int list) list"

definition event_map_new :: EventMap where
  "event_map_new = \<lparr>time_ms = 0, event_phase_mask = 0, last_event_data = 0, event_queues = [], timer_series = []\<rparr>"

definition event_reset_like_cpp :: "EventMap \<Rightarrow> EventMap" where
  "event_reset_like_cpp e =
     e\<lparr>event_queues := [], timer_series := [], time_ms := 0, event_phase_mask := 0, last_event_data := 0\<rparr>"

definition event_update_like_cpp :: "u32 \<Rightarrow> EventMap \<Rightarrow> EventMap" where
  "event_update_like_cpp diff e = e\<lparr>time_ms := i64_add (time_ms e) (uint diff)\<rparr>"

definition phase_mask_like_cpp :: "EventMap \<Rightarrow> u8" where
  "phase_mask_like_cpp e = event_phase_mask e"

definition is_empty_like_cpp :: "EventMap \<Rightarrow> bool" where
  "is_empty_like_cpp e = (event_queues e = [])"

definition set_phase_like_cpp :: "u8 \<Rightarrow> EventMap \<Rightarrow> EventMap" where
  "set_phase_like_cpp phase e =
     (if phase = 0 then e\<lparr>event_phase_mask := 0\<rparr>
      else if phase \<le> ucast MAX_EVENT_GROUP_OR_PHASE_LIKE_CPP
      then e\<lparr>event_phase_mask := push_bit (unat (phase - 1)) 1\<rparr> else e)"

definition add_phase_like_cpp :: "u8 \<Rightarrow> EventMap \<Rightarrow> EventMap" where
  "add_phase_like_cpp phase e =
     (if phase \<noteq> 0 \<and> phase \<le> ucast MAX_EVENT_GROUP_OR_PHASE_LIKE_CPP
      then e\<lparr>event_phase_mask := event_phase_mask e OR push_bit (unat (phase - 1)) 1\<rparr> else e)"

definition remove_phase_like_cpp :: "u8 \<Rightarrow> EventMap \<Rightarrow> EventMap" where
  "remove_phase_like_cpp phase e =
     (if phase \<noteq> 0 \<and> phase \<le> ucast MAX_EVENT_GROUP_OR_PHASE_LIKE_CPP
      then e\<lparr>event_phase_mask := event_phase_mask e AND NOT (push_bit (unat (phase - 1)) 1)\<rparr> else e)"

definition is_in_phase_like_cpp :: "EventMap \<Rightarrow> u8 \<Rightarrow> bool" where
  "is_in_phase_like_cpp e phase =
     (phase \<le> ucast MAX_EVENT_GROUP_OR_PHASE_LIKE_CPP \<and>
      (phase = 0 \<or> event_phase_mask e AND push_bit (unat (phase - 1)) 1 \<noteq> 0))"

section \<open>Event data\<close>

definition valid_group_like_cpp :: "u32 \<Rightarrow> bool" where
  "valid_group_like_cpp grp = (grp \<noteq> 0 \<and> grp \<le> MAX_EVENT_GROUP_OR_PHASE_LIKE_CPP)"

definition event_has_group_like_cpp :: "u32 \<Rightarrow> u32 \<Rightarrow> bool" where
  "event_has_group_like_cpp event_data grp =
     (valid_group_like_cpp grp \<and> event_data AND push_bit (unat (grp + 15)) 1 \<noteq> 0)"

definition encode_event_data_like_cpp :: "u32 \<Rightarrow> u32 \<Rightarrow> u8 \<Rightarrow> u32" where
  "encode_event_data_like_cpp event_id grp phase =
     (let event_id1 = (if valid_group_like_cpp grp
                       then event_id OR push_bit (unat (grp + 15)) 1 else event_id)
      in if phase \<noteq> 0 \<and> phase \<le> ucast MAX_EVENT_GROUP_OR_PHASE_LIKE_CPP
         then event_id1 OR push_bit (unat (ucast phase + 23 :: u32)) 1 else event_id1)"

definition phase_blocked :: "u8 \<Rightarrow> u32 \<Rightarrow> bool" where
  "phase_blocked pmask event_data =
     (pmask \<noteq> 0 \<and> event_data AND EVENT_PHASE_MASK_LIKE_CPP \<noteq> 0 \<and>
      ucast (drop_bit 24 event_data) AND pmask = 0)"

section \<open>Scheduling\<close>

text \<open>\<open>entry(deadline).or_default().push_back(data)\<close>\<close>

definition push_event :: "int \<Rightarrow> u32 \<Rightarrow> (int \<times> u32 list) list \<Rightarrow> (int \<times> u32 list) list" where
  "push_event deadline event_data qs =
     bt_insert deadline ((case map_of qs deadline of None \<Rightarrow> [] | Some q \<Rightarrow> q) @ [event_data]) qs"

definition schedule_event_with_group_phase_like_cpp ::
  "u32 \<Rightarrow> int \<Rightarrow> u32 \<Rightarrow> u8 \<Rightarrow> EventMap \<Rightarrow> EventMap" where
  "schedule_event_with_group_phase_like_cpp event_id delay grp phase e =
     e\<lparr>event_queues := push_event (i64_add (time_ms e) delay) (encode_event_data_like_cpp event_id grp phase)
         (event_queues e)\<rparr>"

definition schedule_event_like_cpp :: "u32 \<Rightarrow> int \<Rightarrow> EventMap \<Rightarrow> EventMap" where
  "schedule_event_like_cpp event_id delay e = schedule_event_with_group_phase_like_cpp event_id delay 0 0 e"

text \<open>\<open>None\<close> is a failed assertion.\<close>

definition randtime_delay_like_cpp :: "(u32 \<Rightarrow> u32 \<Rightarrow> u32) \<Rightarrow> int \<Rightarrow> int \<Rightarrow> int option" where
  "randtime_delay_like_cpp urand min_delay max_delay =
     (let diff = i64_add max_delay (- min_delay)
      in if diff < 0 \<or> diff > 2 ^ 32 - 1 then None
         else Some (i64_add min_delay (uint (urand 0 (of_int diff)))))"

definition schedule_event_range_like_cpp ::
  "(u32 \<Rightarrow> u32 \<Rightarrow> u32) \<Rightarrow> u32 \<Rightarrow> int \<Rightarrow> int \<Rightarrow> u32 \<Rightarrow> u8 \<Rightarrow> EventMap \<Rightarrow> EventMap option" where
  "schedule_event_range_like_cpp urand event_id min_delay max_delay grp phase e =
     (case randtime_delay_like_cpp urand min_delay max_delay of None \<Rightarrow> None
      | Some delay \<Rightarrow> Some (schedule_event_with_group_phase_like_cpp event_id delay grp phase e))"

text \<open>The queues that keep an event, emptied ones dropped.\<close>

definition retain_events_like_cpp :: "(u32 \<Rightarrow> bool) \<Rightarrow> (int \<times> u32 list) list \<Rightarrow> (int \<times> u32 list) list" where
  "retain_events_like_cpp keep qs =
     fold (\<lambda>(deadline, q) retained.
        (let q1 = filter keep q in if q1 = [] then retained else bt_insert deadline q1 retained)) qs []"

definition cancel_event_like_cpp :: "u32 \<Rightarrow> EventMap \<Rightarrow> EventMap" where
  "cancel_event_like_cpp event_id e =
     (if event_queues e = [] then e
      else e\<lparr>event_queues := retain_events_like_cpp (\<lambda>d. d AND EVENT_ID_MASK_LIKE_CPP \<noteq> event_id) (event_queues e),
             timer_series := filter (\<lambda>(d, _). d AND EVENT_ID_MASK_LIKE_CPP \<noteq> event_id) (timer_series e)\<rparr>)"

definition cancel_event_group_like_cpp :: "u32 \<Rightarrow> EventMap \<Rightarrow> EventMap" where
  "cancel_event_group_like_cpp grp e =
     (if \<not> valid_group_like_cpp grp \<or> event_queues e = [] then e
      else e\<lparr>event_queues := retain_events_like_cpp (\<lambda>d. \<not> event_has_group_like_cpp d grp) (event_queues e),
             timer_series := filter (\<lambda>(d, _). \<not> event_has_group_like_cpp d grp) (timer_series e)\<rparr>)"

definition reschedule_event_with_group_phase_like_cpp ::
  "u32 \<Rightarrow> int \<Rightarrow> u32 \<Rightarrow> u8 \<Rightarrow> EventMap \<Rightarrow> EventMap" where
  "reschedule_event_with_group_phase_like_cpp event_id delay grp phase e =
     schedule_event_with_group_phase_like_cpp event_id delay grp phase (cancel_event_like_cpp event_id e)"

definition reschedule_event_like_cpp :: "u32 \<Rightarrow> int \<Rightarrow> EventMap \<Rightarrow> EventMap" where
  "reschedule_event_like_cpp event_id delay e =
     reschedule_event_with_group_phase_like_cpp event_id delay 0 0 e"

definition repeat_like_cpp :: "int \<Rightarrow> EventMap \<Rightarrow> EventMap" where
  "repeat_like_cpp delay e =
     e\<lparr>event_queues := push_event (i64_add (time_ms e) delay) (last_event_data e) (event_queues e)\<rparr>"

definition repeat_range_like_cpp :: "(u32 \<Rightarrow> u32 \<Rightarrow> u32) \<Rightarrow> int \<Rightarrow> int \<Rightarrow> EventMap \<Rightarrow> EventMap option" where
  "repeat_range_like_cpp urand min_delay max_delay e =
     (case randtime_delay_like_cpp urand min_delay max_delay of None \<Rightarrow> None
      | Some delay \<Rightarrow> Some (repeat_like_cpp delay e))"

definition delay_events_like_cpp :: "int \<Rightarrow> EventMap \<Rightarrow> EventMap" where
  "delay_events_like_cpp delay e =
     (if event_queues e = [] then e
      else e\<lparr>event_queues := fold (\<lambda>(deadline, q). bt_insert (i64_add deadline delay) q) (event_queues e) []\<rparr>)"

definition delay_events_group_like_cpp :: "int \<Rightarrow> u32 \<Rightarrow> EventMap \<Rightarrow> EventMap" where
  "delay_events_group_like_cpp delay grp e =
     (if \<not> valid_group_like_cpp grp \<or> event_queues e = [] then e
      else e\<lparr>event_queues :=
         fold (\<lambda>(deadline, q) delayed.
            fold (\<lambda>d. push_event (if event_has_group_like_cpp d grp then i64_add deadline delay else deadline) d)
              q delayed) (event_queues e) []\<rparr>)"

fun first_with_id :: "u32 \<Rightarrow> (int \<times> u32 list) list \<Rightarrow> int option" where
  "first_with_id event_id [] = None"
| "first_with_id event_id ((deadline, q) # qs) =
     (if \<exists>d\<in>set q. d AND EVENT_ID_MASK_LIKE_CPP = event_id then Some deadline else first_with_id event_id qs)"

definition time_until_event_like_cpp :: "u32 \<Rightarrow> EventMap \<Rightarrow> int" where
  "time_until_event_like_cpp event_id e =
     (case first_with_id event_id (event_queues e) of None \<Rightarrow> i64_MAX
      | Some deadline \<Rightarrow> i64_add deadline (- time_ms e))"

section \<open>Series and execution\<close>

text \<open>A series that has run out stays in the map, empty.\<close>

definition schedule_next_from_series_like_cpp :: "u32 \<Rightarrow> EventMap \<Rightarrow> EventMap" where
  "schedule_next_from_series_like_cpp event_data e =
     (case map_of (timer_series e) event_data of None \<Rightarrow> e
      | Some [] \<Rightarrow> e
      | Some (delay # series) \<Rightarrow>
          schedule_event_like_cpp event_data delay
            (e\<lparr>timer_series := bt_insert event_data series (timer_series e)\<rparr>))"

definition schedule_event_series_like_cpp :: "u32 \<Rightarrow> u8 \<Rightarrow> u8 \<Rightarrow> int list \<Rightarrow> EventMap \<Rightarrow> EventMap" where
  "schedule_event_series_like_cpp event_id grp phase delays e =
     (let event_data = encode_event_data_like_cpp event_id (ucast grp) phase;
          series = (case map_of (timer_series e) event_data of None \<Rightarrow> [] | Some s \<Rightarrow> s)
      in schedule_next_from_series_like_cpp event_data
           (e\<lparr>timer_series := bt_insert event_data (series @ delays) (timer_series e)\<rparr>))"

text \<open>\<open>None\<close> is a failed \<open>expect\<close>: no queue under the deadline, or an empty one.\<close>

definition pop_first_event_like_cpp ::
  "int \<Rightarrow> (int \<times> u32 list) list \<Rightarrow> (u32 \<times> (int \<times> u32 list) list) option" where
  "pop_first_event_like_cpp deadline qs =
     (case map_of qs deadline of None \<Rightarrow> None
      | Some [] \<Rightarrow> None
      | Some (d # q) \<Rightarrow> Some (d, if q = [] then AList.delete deadline qs else bt_insert deadline q qs))"

definition waiting :: "(int \<times> u32 list) list \<Rightarrow> nat" where
  "waiting qs = sum_list (map (length \<circ> snd) qs)"

lemma waiting_delete: "waiting (AList.delete k qs) \<le> waiting qs"
  by (induction qs) (auto simp: waiting_def)

lemma pop_first_decreases:
  assumes "pop_first_event_like_cpp deadline ((deadline, q0) # qs) = Some (d, qs')"
  shows "waiting qs' < waiting ((deadline, q0) # qs)"
proof -
  obtain q where q: "q0 = d # q" "qs' = (if q = [] then AList.delete deadline qs else (deadline, q) # qs)"
    using assms by (cases q0) (auto simp: pop_first_event_like_cpp_def)
  then show ?thesis using waiting_delete [of deadline qs] by (auto simp: waiting_def)
qed

text \<open>
  The loop drops due events of other phases until it finds one of this phase, an event that
  is not yet due, or nothing; 0 is the answer that there is no event.
\<close>

function execute_event_like_cpp :: "EventMap \<Rightarrow> (u32 \<times> EventMap) option" where
  "execute_event_like_cpp e =
     (case event_queues e of [] \<Rightarrow> Some (0, e)
      | (deadline, _) # _ \<Rightarrow>
         (if time_ms e < deadline then Some (0, e)
          else
           (case pop_first_event_like_cpp deadline (event_queues e) of None \<Rightarrow> None
            | Some (d, qs) \<Rightarrow>
               (let e1 = e\<lparr>event_queues := qs\<rparr>
                in if phase_blocked (event_phase_mask e1) d then execute_event_like_cpp e1
                   else Some (d AND EVENT_ID_MASK_LIKE_CPP,
                              schedule_next_from_series_like_cpp d (e1\<lparr>last_event_data := d\<rparr>))))))"
  by pat_completeness auto
termination
  by (relation "measure (\<lambda>e. waiting (event_queues e))") (auto dest: pop_first_decreases)

declare execute_event_like_cpp.simps [simp del]

section \<open>The schedule as one list\<close>

definition schedule_list :: "(int \<times> u32 list) list \<Rightarrow> (int \<times> u32) list" where
  "schedule_list qs = concat (map (\<lambda>(t, q). map (Pair t) q) qs)"

definition queues_ok :: "(int \<times> u32 list) list \<Rightarrow> bool" where
  "queues_ok qs \<longleftrightarrow> bt_ok qs \<and> (\<forall>(t, q)\<in>set qs. q \<noteq> [])"

text \<open>Insertion behind everything that is due no later.\<close>

definition enqueue :: "int \<Rightarrow> u32 \<Rightarrow> (int \<times> u32) list \<Rightarrow> (int \<times> u32) list" where
  "enqueue t d es = takeWhile (\<lambda>e. fst e \<le> t) es @ (t, d) # dropWhile (\<lambda>e. fst e \<le> t) es"

lemma schedule_list_simps [simp]:
  "schedule_list [] = []" "schedule_list ((t, q) # qs) = map (Pair t) q @ schedule_list qs"
  by (simp_all add: schedule_list_def)

lemma queues_ok_Nil [simp]: "queues_ok []"
  by (simp add: queues_ok_def)

lemma queues_ok_Cons:
  "queues_ok ((t, q) # qs) \<longleftrightarrow> q \<noteq> [] \<and> queues_ok qs \<and> (\<forall>t'\<in>fst ` set qs. t < t')"
  by (auto simp: queues_ok_def)

lemma schedule_list_times: "fst ` set (schedule_list qs) \<subseteq> fst ` set qs"
  by (induction qs) (force split: prod.split)+

lemma schedule_list_empty: "queues_ok qs \<Longrightarrow> schedule_list qs = [] \<longleftrightarrow> qs = []"
  by (cases qs) (auto simp: queues_ok_Cons)

lemma schedule_list_sorted: "queues_ok qs \<Longrightarrow> sorted (map fst (schedule_list qs))"
proof (induction qs)
  case (Cons x qs)
  obtain t q where x: "x = (t, q)" by (cases x)
  have "\<forall>u\<in>fst ` set (schedule_list qs). t \<le> u"
    using Cons.prems schedule_list_times [of qs] by (force simp: x queues_ok_Cons)
  then show ?case using Cons by (auto simp: x queues_ok_Cons sorted_append comp_def map_replicate_const)
qed simp

lemma dropWhile_all: "\<forall>x\<in>set xs. \<not> P x \<Longrightarrow> dropWhile P xs = xs \<and> takeWhile P xs = []"
  by (cases xs) auto

lemma push_event_list:
  "queues_ok qs \<Longrightarrow> queues_ok (push_event t d qs) \<and> schedule_list (push_event t d qs) = enqueue t d (schedule_list qs)"
proof (induction qs)
  case Nil
  then show ?case by (simp add: push_event_def enqueue_def queues_ok_def)
next
  case (Cons x qs)
  obtain t' q where x: "x = (t', q)" by (cases x)
  have later: "\<forall>e\<in>set (schedule_list qs). t' < fst e"
    using Cons.prems schedule_list_times [of qs] by (force simp: x queues_ok_Cons)
  consider (new) "t < t'" | (same) "t = t'" | (after) "t' < t" by fastforce
  then show ?case
  proof cases
    case new
    then have "map_of qs t = None" "t \<noteq> t'"
      using Cons.prems by (auto simp: x queues_ok_Cons map_of_eq_None_iff)
    moreover have "\<forall>e\<in>set (schedule_list (x # qs)). \<not> fst e \<le> t" using later new by (auto simp: x)
    ultimately show ?thesis
      using new Cons.prems dropWhile_all [of "schedule_list (x # qs)" "\<lambda>e. fst e \<le> t"]
      by (auto simp: push_event_def x enqueue_def queues_ok_Cons)
  next
    case same
    have "\<forall>e\<in>set (schedule_list qs). \<not> fst e \<le> t" using later same by auto
    then show ?thesis
      using same Cons.prems dropWhile_all [of "schedule_list qs" "\<lambda>e. fst e \<le> t"]
      by (auto simp: push_event_def x enqueue_def queues_ok_Cons takeWhile_append dropWhile_append)
  next
    case after
    have "push_event t d (x # qs) = x # push_event t d qs" using after by (simp add: push_event_def x)
    moreover have "fst ` set (push_event t d qs) = insert t (fst ` set qs)"
      using bt_insert_keys by (simp add: push_event_def)
    ultimately show ?thesis
      using Cons after by (auto simp: x enqueue_def queues_ok_Cons takeWhile_append dropWhile_append)
  qed
qed

lemma pop_first_list:
  assumes "queues_ok ((t, q) # qs)"
  obtains d es qs' where "pop_first_event_like_cpp t ((t, q) # qs) = Some (d, qs')" "queues_ok qs'"
    "schedule_list ((t, q) # qs) = (t, d) # schedule_list qs'"
proof -
  obtain d q1 where q: "q = d # q1" using assms by (cases q) (auto simp: queues_ok_Cons)
  have "map_of qs t = None" using assms by (auto simp: queues_ok_Cons map_of_eq_None_iff)
  then have "AList.delete t qs = qs" by (rule hm_remove_absent)
  with assms q show thesis
    by (intro that [of d "if q1 = [] then qs else (t, q1) # qs"])
      (auto simp: pop_first_event_like_cpp_def queues_ok_Cons)
qed

lemma bt_insert_last: "\<forall>l\<in>fst ` set m. l < k \<Longrightarrow> bt_insert k v m = m @ [(k, v)]"
  by (induction k v m rule: bt_insert.induct) auto

lemma queues_ok_append:
  "queues_ok (ps @ qs) \<longleftrightarrow> queues_ok ps \<and> queues_ok qs \<and> (\<forall>p\<in>fst ` set ps. \<forall>t\<in>fst ` set qs. p < t)"
  by (auto simp: queues_ok_def sorted_wrt_append)

lemma retain_fold:
  "queues_ok qs \<Longrightarrow> queues_ok ps \<Longrightarrow> \<forall>p\<in>fst ` set ps. \<forall>t\<in>fst ` set qs. p < t \<Longrightarrow>
     fold (\<lambda>(deadline, q) retained.
        (let q1 = filter keep q in if q1 = [] then retained else bt_insert deadline q1 retained)) qs ps =
     ps @ filter (\<lambda>(t, q). q \<noteq> []) (map (\<lambda>(t, q). (t, filter keep q)) qs)"
proof (induction qs arbitrary: ps)
  case (Cons x qs)
  obtain t q where x: "x = (t, q)" by (cases x)
  show ?case
  proof (cases "filter keep q = []")
    case True
    with Cons show ?thesis by (simp add: x queues_ok_Cons)
  next
    case False
    have ins: "bt_insert t (filter keep q) ps = ps @ [(t, filter keep q)]"
      using Cons.prems by (intro bt_insert_last) (auto simp: x)
    have "queues_ok (ps @ [(t, filter keep q)])"
      using Cons.prems False by (auto simp: x queues_ok_append queues_ok_Cons queues_ok_def sorted_wrt_append)
    moreover have "\<forall>p\<in>fst ` set (ps @ [(t, filter keep q)]). \<forall>t\<in>fst ` set qs. p < t"
      using Cons.prems by (auto simp: x queues_ok_Cons)
    ultimately show ?thesis
      using Cons.IH [of "ps @ [(t, filter keep q)]"] Cons.prems(1) False ins
      by (simp add: x queues_ok_Cons Let_def)
  qed
qed simp

lemma retain_list:
  assumes "queues_ok qs"
  shows "queues_ok (retain_events_like_cpp keep qs)"
    and "schedule_list (retain_events_like_cpp keep qs) = filter (\<lambda>e. keep (snd e)) (schedule_list qs)"
proof -
  have r: "retain_events_like_cpp keep qs = filter (\<lambda>(t, q). q \<noteq> []) (map (\<lambda>(t, q). (t, filter keep q)) qs)"
    using retain_fold [OF assms, of "[]" keep] by (simp add: retain_events_like_cpp_def queues_ok_def)
  show "queues_ok (retain_events_like_cpp keep qs)"
    unfolding r using assms by (induction qs) (auto simp: queues_ok_Cons queues_ok_def)
  show "schedule_list (retain_events_like_cpp keep qs) = filter (\<lambda>e. keep (snd e)) (schedule_list qs)"
    unfolding r by (induction qs) (auto simp: filter_map comp_def)
qed

text \<open>Enqueuing one after the other is a stable sort.\<close>

lemma drop_due_later: "sorted (map fst es) \<Longrightarrow> \<forall>e\<in>set (dropWhile (\<lambda>e. fst e \<le> t) es). t < fst e"
  by (induction es) auto

lemma enqueue_sorted:
  assumes "sorted (map fst es)"
  shows "sorted (map fst (enqueue t d es))"
proof -
  have "sorted (map fst (takeWhile (\<lambda>e. fst e \<le> t) es @ dropWhile (\<lambda>e. fst e \<le> t) es))" using assms by simp
  then have "sorted (map fst (takeWhile (\<lambda>e. fst e \<le> t) es))" "sorted (map fst (dropWhile (\<lambda>e. fst e \<le> t) es))"
    unfolding map_append sorted_append by simp_all
  moreover have "\<forall>e\<in>set (takeWhile (\<lambda>e. fst e \<le> t) es). fst e \<le> t" by (auto dest: set_takeWhileD)
  ultimately show ?thesis
    using drop_due_later [OF assms, of t] by (fastforce simp: enqueue_def sorted_append)
qed

lemma enqueue_sort_key: "enqueue t d (sort_key fst es) = sort_key fst (es @ [(t, d)])"
proof (rule sym, rule properties_for_sort_key)
  let ?l = "sort_key fst es"
  have split: "takeWhile (\<lambda>e. fst e \<le> t) ?l @ dropWhile (\<lambda>e. fst e \<le> t) ?l = ?l" by simp
  have "mset (enqueue t d ?l) =
      mset (takeWhile (\<lambda>e. fst e \<le> t) ?l @ dropWhile (\<lambda>e. fst e \<le> t) ?l) + {#(t, d)#}"
    by (simp add: enqueue_def del: takeWhile_dropWhile_id)
  then show "mset (enqueue t d ?l) = mset (es @ [(t, d)])" unfolding split by simp
  show "sorted (map fst (enqueue t d ?l))" by (rule enqueue_sorted) simp
  fix k assume "k \<in> set (enqueue t d ?l)"
  have later: "\<forall>e\<in>set (dropWhile (\<lambda>e. fst e \<le> t) ?l). t < fst e" by (rule drop_due_later) simp
  have "filter (\<lambda>x. fst k = fst x) (enqueue t d ?l) =
      filter (\<lambda>x. fst k = fst x) ?l @ (if fst k = t then [(t, d)] else [])"
  proof (cases "fst k = t")
    case True
    then have "filter (\<lambda>x. fst k = fst x) (dropWhile (\<lambda>e. fst e \<le> t) ?l) = []"
      using later by (auto simp: filter_empty_conv)
    moreover have "filter (\<lambda>x. fst k = fst x) ?l = filter (\<lambda>x. fst k = fst x) (takeWhile (\<lambda>e. fst e \<le> t) ?l) @
        filter (\<lambda>x. fst k = fst x) (dropWhile (\<lambda>e. fst e \<le> t) ?l)" by (simp flip: filter_append)
    ultimately show ?thesis using True by (simp add: enqueue_def)
  next
    case False
    then have "filter (\<lambda>x. fst k = fst x) (enqueue t d ?l) =
        filter (\<lambda>x. fst k = fst x) (takeWhile (\<lambda>e. fst e \<le> t) ?l @ dropWhile (\<lambda>e. fst e \<le> t) ?l)"
      by (simp add: enqueue_def del: takeWhile_dropWhile_id)
    with False show ?thesis by (simp only: split) simp
  qed
  also have "filter (\<lambda>x. fst k = fst x) ?l = filter (\<lambda>x. fst k = fst x) es"
    using sort_key_stable [of fst "fst k" es] by (simp add: eq_commute [of "fst k"])
  finally show "filter (\<lambda>x. fst k = fst x) (enqueue t d ?l) = filter (\<lambda>x. fst k = fst x) (es @ [(t, d)])" by simp
qed

lemma fold_enqueue: "fold (\<lambda>(t, d). enqueue t d) es [] = sort_key fst es"
  by (induction es rule: rev_induct) (simp_all add: enqueue_sort_key split: prod.split)

lemma push_fold:
  "queues_ok qs \<Longrightarrow> queues_ok (fold (\<lambda>(t, d). push_event t d) es qs) \<and>
     schedule_list (fold (\<lambda>(t, d). push_event t d) es qs) = fold (\<lambda>(t, d). enqueue t d) es (schedule_list qs)"
  by (induction es arbitrary: qs) (auto simp: push_event_list split: prod.split)

lemma delay_group_fold:
  "fold (\<lambda>(deadline, q) delayed. fold (\<lambda>d. push_event (f deadline d) d) q delayed) qs ps =
   fold (\<lambda>(t, d). push_event t d) (map (\<lambda>(t, d). (f t d, d)) (schedule_list qs)) ps"
proof (induction qs arbitrary: ps)
  case (Cons x qs)
  obtain t q where x: "x = (t, q)" by (cases x)
  have "fold (\<lambda>d. push_event (f t d) d) q ps =
      fold (\<lambda>(t, d). push_event t d) (map (\<lambda>(t, d). (f t d, d)) (map (Pair t) q)) ps"
    by (induction q arbitrary: ps) simp_all
  with Cons show ?case by (simp add: x)
qed simp

lemma delay_fold:
  assumes "\<And>t t'. t \<in> fst ` set qs \<Longrightarrow> t' \<in> fst ` set qs \<Longrightarrow> t < t' \<Longrightarrow> f t < f t'"
  shows "queues_ok qs \<Longrightarrow> queues_ok ps \<Longrightarrow> \<forall>p\<in>fst ` set ps. \<forall>t\<in>fst ` set qs. p < f t \<Longrightarrow>
    fold (\<lambda>(t, q). bt_insert (f t) q) qs ps = ps @ map (\<lambda>(t, q). (f t, q)) qs"
  using assms
proof (induction qs arbitrary: ps)
  case (Cons x qs)
  obtain t q where x: "x = (t, q)" by (cases x)
  have ins: "bt_insert (f t) q ps = ps @ [(f t, q)]"
    using Cons.prems(3) by (intro bt_insert_last) (auto simp: x)
  have "queues_ok (ps @ [(f t, q)])"
    using Cons.prems by (auto simp: x queues_ok_append queues_ok_Cons queues_ok_def sorted_wrt_append)
  moreover have "\<forall>p\<in>fst ` set (ps @ [(f t, q)]). \<forall>t\<in>fst ` set qs. p < f t"
    using Cons.prems(1,3) Cons.prems(4) [of t] by (auto simp: x queues_ok_Cons)
  ultimately show ?case
    using Cons.IH [of "ps @ [(f t, q)]"] Cons.prems(1,4) ins by (simp add: x queues_ok_Cons)
qed simp

text \<open>The schedule as the list of what is to come, and the well-formedness that goes with it.\<close>

definition agenda :: "EventMap \<Rightarrow> (int \<times> u32) list" where
  "agenda e = schedule_list (event_queues e)"

definition event_map_ok :: "EventMap \<Rightarrow> bool" where
  "event_map_ok e = queues_ok (event_queues e)"

text \<open>\<open>x\<close> and every deadline moved by \<open>delay\<close> are still \<open>i64\<close> values.\<close>

definition shift_fits :: "int \<Rightarrow> EventMap \<Rightarrow> bool" where
  "shift_fits delay e = (\<forall>(t, d)\<in>set (agenda e). - (2 ^ 63) \<le> t + delay \<and> t + delay < 2 ^ 63)"

lemma i64_add_fits: "- (2 ^ 63) \<le> a + b \<Longrightarrow> a + b < 2 ^ 63 \<Longrightarrow> i64_add a b = a + b"
  by (simp add: i64_add_def signed_take_bit_int_eq_self_iff)

lemma agenda_queue_times: "queues_ok qs \<Longrightarrow> fst ` set qs = fst ` set (schedule_list qs)"
  by (induction qs) (force simp: queues_ok_Cons neq_Nil_conv split: prod.split)+

text \<open>
  C29: The event schedule is a stable priority queue: on a well-formed schedule, scheduling and
  repeating insert behind all events due no later, cancelling by id or group removes exactly those
  events, delaying a group shifts its events and sorts the list again without swapping events of
  equal deadline, delaying everything (without overflow) shifts all deadlines, and all of them keep
  the schedule well-formed.
\<close>

theorem schedule_refines_list:
  assumes ok: "event_map_ok e"
  shows "(event_map_ok (schedule_event_with_group_phase_like_cpp i delay g p e) \<and>
    agenda (schedule_event_with_group_phase_like_cpp i delay g p e) =
      enqueue (i64_add (time_ms e) delay) (encode_event_data_like_cpp i g p) (agenda e)) \<and>
    (event_map_ok (repeat_like_cpp delay e) \<and>
      agenda (repeat_like_cpp delay e) = enqueue (i64_add (time_ms e) delay) (last_event_data e) (agenda e)) \<and>
    (event_map_ok (cancel_event_like_cpp i e) \<and>
      agenda (cancel_event_like_cpp i e) = filter (\<lambda>(t, d). d AND EVENT_ID_MASK_LIKE_CPP \<noteq> i) (agenda e)) \<and>
    (event_map_ok (cancel_event_group_like_cpp g e) \<and>
      agenda (cancel_event_group_like_cpp g e) = filter (\<lambda>(t, d). \<not> event_has_group_like_cpp d g) (agenda e)) \<and>
    (event_map_ok (delay_events_group_like_cpp delay g e) \<and>
      agenda (delay_events_group_like_cpp delay g e) =
        sort_key fst (map (\<lambda>(t, d). (if event_has_group_like_cpp d g then i64_add t delay else t, d)) (agenda e))) \<and>
    (shift_fits delay e \<longrightarrow> event_map_ok (delay_events_like_cpp delay e) \<and>
      agenda (delay_events_like_cpp delay e) = map (\<lambda>(t, d). (t + delay, d)) (agenda e))"
proof -
  have q: "queues_ok (event_queues e)" using ok by (simp add: event_map_ok_def)
  have c1: "event_map_ok (schedule_event_with_group_phase_like_cpp i delay g p e) \<and>
    agenda (schedule_event_with_group_phase_like_cpp i delay g p e) =
      enqueue (i64_add (time_ms e) delay) (encode_event_data_like_cpp i g p) (agenda e)"
    using push_event_list [OF q] by (simp add: schedule_event_with_group_phase_like_cpp_def event_map_ok_def agenda_def)
  have c2: "event_map_ok (repeat_like_cpp delay e) \<and>
      agenda (repeat_like_cpp delay e) = enqueue (i64_add (time_ms e) delay) (last_event_data e) (agenda e)"
    using push_event_list [OF q] by (simp add: repeat_like_cpp_def event_map_ok_def agenda_def)
  have c3: "event_map_ok (cancel_event_like_cpp i e) \<and>
      agenda (cancel_event_like_cpp i e) = filter (\<lambda>(t, d). d AND EVENT_ID_MASK_LIKE_CPP \<noteq> i) (agenda e)"
    using retain_list [OF q] q by (simp add: cancel_event_like_cpp_def event_map_ok_def agenda_def case_prod_unfold)
  have c4: "event_map_ok (cancel_event_group_like_cpp g e) \<and>
      agenda (cancel_event_group_like_cpp g e) = filter (\<lambda>(t, d). \<not> event_has_group_like_cpp d g) (agenda e)"
    using retain_list [OF q] q
    by (auto simp: cancel_event_group_like_cpp_def event_map_ok_def agenda_def case_prod_unfold event_has_group_like_cpp_def)
  have c5: "event_map_ok (delay_events_group_like_cpp delay g e) \<and>
      agenda (delay_events_group_like_cpp delay g e) =
        sort_key fst (map (\<lambda>(t, d). (if event_has_group_like_cpp d g then i64_add t delay else t, d)) (agenda e))"
  proof (cases "valid_group_like_cpp g \<and> event_queues e \<noteq> []")
    case True
    have "queues_ok []" by (simp add: queues_ok_def)
    from push_fold [OF this] True show ?thesis
      by (simp add: delay_events_group_like_cpp_def event_map_ok_def agenda_def delay_group_fold fold_enqueue)
  next
    case False
    then have "(\<lambda>(t, d). (if event_has_group_like_cpp d g then i64_add t delay else t, d)) = id \<or> agenda e = []"
      by (auto simp: event_has_group_like_cpp_def agenda_def)
    moreover have "sort_key fst (agenda e) = agenda e"
      using schedule_list_sorted [OF q] by (simp add: agenda_def sort_key_id_if_sorted)
    ultimately show ?thesis using False q
      by (auto simp: delay_events_group_like_cpp_def event_map_ok_def)
  qed
  have c6: "shift_fits delay e \<longrightarrow> event_map_ok (delay_events_like_cpp delay e) \<and>
      agenda (delay_events_like_cpp delay e) = map (\<lambda>(t, d). (t + delay, d)) (agenda e)"
  proof
    assume fits: "shift_fits delay e"
    have add: "i64_add t delay = t + delay" if "t \<in> fst ` set (event_queues e)" for t
    proof -
      from that obtain d where "(t, d) \<in> set (agenda e)"
        unfolding agenda_queue_times [OF q] agenda_def by auto
      then have "- (2 ^ 63) \<le> t + delay" "t + delay < 2 ^ 63" using fits unfolding shift_fits_def by blast+
      then show ?thesis by (rule i64_add_fits)
    qed
    have "fold (\<lambda>(t, q). bt_insert (i64_add t delay) q) (event_queues e) [] =
        map (\<lambda>(t, q). (i64_add t delay, q)) (event_queues e)"
      using delay_fold [of "event_queues e" "\<lambda>t. i64_add t delay" "[]"] q add by (simp add: queues_ok_def)
    also have "\<dots> = map (\<lambda>(t, q). (t + delay, q)) (event_queues e)" using add by force
    finally have d: "event_queues (delay_events_like_cpp delay e) = map (\<lambda>(t, q). (t + delay, q)) (event_queues e)"
      by (simp add: delay_events_like_cpp_def)
    have "queues_ok (map (\<lambda>(t, q). (t + delay, q)) (event_queues e))"
      using q by (induction "event_queues e") (auto simp: queues_ok_Cons queues_ok_def sorted_wrt_map case_prod_beta comp_def)
    moreover have "schedule_list (map (\<lambda>(t, q). (t + delay, q)) qs) = map (\<lambda>(t, d). (t + delay, d)) (schedule_list qs)" for qs
      by (induction qs) auto
    ultimately show "event_map_ok (delay_events_like_cpp delay e) \<and>
      agenda (delay_events_like_cpp delay e) = map (\<lambda>(t, d). (t + delay, d)) (agenda e)"
      by (simp add: event_map_ok_def agenda_def d)
  qed
  show ?thesis by (rule conjI [OF c1 conjI [OF c2 conjI [OF c3 conjI [OF c4 conjI [OF c5 c6]]]]])
qed

section \<open>Execution\<close>

text \<open>
  Executing answers with the earliest event that is not blocked by the phase, provided it is
  due: due events of other phases in front of it are discarded, it becomes the last event, and
  the next delay of its series, if any, is scheduled; without such an event the answer is 0 and only
  blocked due events are gone.  The operation always returns.
\<close>

lemma execute_earliest_due:
  assumes "event_map_ok e"
  shows "\<exists>e'. (case dropWhile (\<lambda>(t, d). t \<le> time_ms e \<and> phase_blocked (event_phase_mask e) d) (agenda e) of
      [] \<Rightarrow> execute_event_like_cpp e = Some (0, e') \<and> e' = e\<lparr>event_queues := []\<rparr>
    | (t, d) # es \<Rightarrow>
        if time_ms e < t
        then execute_event_like_cpp e = Some (0, e') \<and> event_map_ok e' \<and> agenda e' = (t, d) # es \<and>
             e' = e\<lparr>event_queues := event_queues e'\<rparr>
        else \<exists>qs. execute_event_like_cpp e = Some (d AND EVENT_ID_MASK_LIKE_CPP, e') \<and>
             queues_ok qs \<and> schedule_list qs = es \<and>
             e' = schedule_next_from_series_like_cpp d (e\<lparr>event_queues := qs, last_event_data := d\<rparr>))"
  using assms
proof (induction e rule: execute_event_like_cpp.induct)
  case (1 e)
  show ?case
  proof (cases "event_queues e")
    case Nil
    then show ?thesis by (subst execute_event_like_cpp.simps) (simp add: agenda_def)
  next
    case (Cons x qs)
    obtain t q where x: "x = (t, q)" by (cases x)
    have q: "queues_ok ((t, q) # qs)" using 1(2) by (simp add: event_map_ok_def Cons x)
    obtain d qs' where p: "pop_first_event_like_cpp t ((t, q) # qs) = Some (d, qs')" "queues_ok qs'"
      "schedule_list ((t, q) # qs) = (t, d) # schedule_list qs'" using pop_first_list [OF q] by metis
    have ag: "agenda e = (t, d) # schedule_list qs'" using p(3) by (simp add: agenda_def Cons x)
    show ?thesis
    proof (cases "time_ms e < t")
      case True
      then have "execute_event_like_cpp e = Some (0, e)"
        by (subst execute_event_like_cpp.simps) (simp add: Cons x)
      with True 1(2) show ?thesis by (simp add: ag)
    next
      case due: False
      let ?e1 = "e\<lparr>event_queues := qs'\<rparr>"
      show ?thesis
      proof (cases "phase_blocked (event_phase_mask e) d")
        case True
        have "execute_event_like_cpp e = execute_event_like_cpp ?e1"
          by (subst execute_event_like_cpp.simps) (simp add: Cons x due p(1) True)
        moreover have "agenda ?e1 = schedule_list qs'" "event_map_ok ?e1"
          using p(2) by (simp_all add: agenda_def event_map_ok_def)
        moreover have "pop_first_event_like_cpp t (event_queues e) = Some (d, qs')"
          using p(1) by (simp add: Cons x)
        note 1(1) [OF Cons x [symmetric] due this refl refl]
        ultimately show ?thesis
          using due True by (simp add: ag cong: list.case_cong prod.case_cong if_cong)
      next
        case False
        have "execute_event_like_cpp e = Some (d AND EVENT_ID_MASK_LIKE_CPP,
            schedule_next_from_series_like_cpp d (?e1\<lparr>last_event_data := d\<rparr>))"
          by (subst execute_event_like_cpp.simps) (simp add: Cons x due p(1) False)
        with due False p(2) show ?thesis by (auto simp: ag)
      qed
    qed
  qed
qed

text \<open>A script's loop: execute until there is no event, at most \<open>n\<close> times.\<close>

fun drain_events :: "nat \<Rightarrow> EventMap \<Rightarrow> u32 list \<times> EventMap" where
  "drain_events 0 e = ([], e)"
| "drain_events (Suc n) e =
     (case execute_event_like_cpp e of None \<Rightarrow> ([], e)
      | Some (i, e') \<Rightarrow> if i = 0 then ([], e')
                        else (case drain_events n e' of (is, e'') \<Rightarrow> (i # is, e'')))"

abbreviation due :: "EventMap \<Rightarrow> int \<times> u32 \<Rightarrow> bool" where
  "due e \<equiv> \<lambda>(t, d). t \<le> time_ms e"

lemma drain_spec:
  "event_map_ok e \<Longrightarrow> timer_series e = [] \<Longrightarrow> \<forall>(t, d)\<in>set (agenda e). d AND EVENT_ID_MASK_LIKE_CPP \<noteq> 0 \<Longrightarrow>
     length (agenda e) < n \<Longrightarrow>
     fst (drain_events n e) = map (\<lambda>(t, d). d AND EVENT_ID_MASK_LIKE_CPP)
       (filter (\<lambda>(t, d). \<not> phase_blocked (event_phase_mask e) d) (takeWhile (due e) (agenda e))) \<and>
     agenda (snd (drain_events n e)) = dropWhile (due e) (agenda e) \<and> event_map_ok (snd (drain_events n e))"
proof (induction n arbitrary: e)
  case (Suc n)
  let ?skip = "\<lambda>(t, d). t \<le> time_ms e \<and> phase_blocked (event_phase_mask e) d"
  let ?free = "\<lambda>(t, d). \<not> phase_blocked (event_phase_mask e) d"
  have skipped: "takeWhile (due e) es = takeWhile ?skip es @ takeWhile (due e) (dropWhile ?skip es) \<and>
      filter ?free (takeWhile ?skip es) = [] \<and> dropWhile (due e) es = dropWhile (due e) (dropWhile ?skip es)" for es
    by (induction es) auto
  note ex = execute_earliest_due [OF Suc.prems(1)]
  show ?case
  proof (cases "dropWhile ?skip (agenda e)")
    case Nil
    with ex have "execute_event_like_cpp e = Some (0, e\<lparr>event_queues := []\<rparr>)" by simp
    moreover have "agenda (e\<lparr>event_queues := []\<rparr>) = []" "event_map_ok (e\<lparr>event_queues := []\<rparr>)"
      by (simp_all add: agenda_def event_map_ok_def)
    moreover have "dropWhile (due e) (agenda e) = []"
      using skipped [of "agenda e"] unfolding Nil by (metis dropWhile.simps(1))
    ultimately show ?thesis
      using skipped [of "agenda e", unfolded Nil] by (simp add: eq_commute [of "[]"])
  next
    case (Cons x es)
    obtain t d where x: "x = (t, d)" by (cases x)
    show ?thesis
    proof (cases "time_ms e < t")
      case True
      with ex Cons x obtain e' where "execute_event_like_cpp e = Some (0, e')" "event_map_ok e'"
        "agenda e' = (t, d) # es" by auto
      with Cons x True skipped [of "agenda e"] show ?thesis by simp
    next
      case False
      with ex Cons x obtain e' qs where e': "execute_event_like_cpp e = Some (d AND EVENT_ID_MASK_LIKE_CPP, e')"
        "queues_ok qs" "schedule_list qs = es"
        "e' = schedule_next_from_series_like_cpp d (e\<lparr>event_queues := qs, last_event_data := d\<rparr>)" by auto
      have st: "e' = e\<lparr>event_queues := qs, last_event_data := d\<rparr>"
        using e'(4) Suc.prems(2) by (simp add: schedule_next_from_series_like_cpp_def)
      have sub: "set (x # es) \<subseteq> set (agenda e)" "length (x # es) \<le> length (agenda e)"
        using set_dropWhileD [of _ ?skip "agenda e"] length_dropWhile_le [of ?skip "agenda e"] unfolding Cons by blast+
      have ids: "d AND EVENT_ID_MASK_LIKE_CPP \<noteq> 0" "\<forall>(t, d)\<in>set es. d AND EVENT_ID_MASK_LIKE_CPP \<noteq> 0"
        using Suc.prems(3) sub(1) x by auto
      have ag: "agenda e' = es" "event_map_ok e'" "timer_series e' = []" "time_ms e' = time_ms e"
        "event_phase_mask e' = event_phase_mask e"
        using e'(2,3) Suc.prems(2) by (simp_all add: st agenda_def event_map_ok_def)
      have free: "?free x" using Cons False x by (auto dest: dropWhile_eq_Cons_conv [THEN iffD1])
      show ?thesis
        using Suc.IH [OF ag(2,3)] ids sub(2) Suc.prems(4) False free skipped [of "agenda e"] e'(1) ag
        unfolding Cons x by (simp add: case_prod_unfold)
    qed
  qed
qed simp


definition sample_events :: EventMap where
  "sample_events = event_update_like_cpp 20
     (schedule_event_like_cpp 3 30 (schedule_event_like_cpp 2 10 (schedule_event_like_cpp 1 20
       (schedule_event_like_cpp 4 10 event_map_new))))"

lemma sample_events_state: "event_queues sample_events = [(10, [4, 2]), (20, [1]), (30, [3])]"
  "time_ms sample_events = 20" "timer_series sample_events = []" "event_phase_mask sample_events = 0"
  by (simp_all add: sample_events_def event_update_like_cpp_def schedule_event_like_cpp_def event_map_new_def
      schedule_event_with_group_phase_like_cpp_def push_event_def i64_add_def encode_event_data_like_cpp_def
      valid_group_like_cpp_def signed_take_bit_int_eq_self)


theorem schedule_refines_list_witness:
  "agenda (cancel_event_like_cpp 2 sample_events) = [(10, 4), (20, 1), (30, 3)] \<and>
   agenda (delay_events_like_cpp 5 sample_events) = [(15, 4), (15, 2), (25, 1), (35, 3)]"
proof -
  have ag: "agenda sample_events = [(10, 4), (10, 2), (20, 1), (30, 3)]"
    by (simp add: agenda_def sample_events_state)
  have "event_map_ok sample_events" by (simp add: event_map_ok_def queues_ok_def sample_events_state)
  moreover have "shift_fits 5 sample_events" by (simp add: shift_fits_def ag)
  ultimately show ?thesis
    using schedule_refines_list [where e = sample_events and delay = 5 and i = 2 and g = 0 and p = 0]
    by (simp add: ag EVENT_ID_MASK_LIKE_CPP_def)
qed

section \<open>Event data fields\<close>

lemma and_push_bit: "(w :: 'a::len word) AND push_bit n 1 = 0 \<longleftrightarrow> \<not> bit w n"
  by (simp add: push_bit_eq_mult and_exp_eq_0_iff_not_bit)

lemma event_id_mask: "EVENT_ID_MASK_LIKE_CPP = mask 16"
  by (simp add: EVENT_ID_MASK_LIKE_CPP_def mask_eq_exp_minus_1)

lemma bit_or_push: "k < 32 \<Longrightarrow> bit ((w :: u32) OR push_bit n 1) k \<longleftrightarrow> bit w k \<or> k = n"
  by (auto simp: bit_or_iff bit_push_bit_iff bit_1_iff simp del: push_bit_of_1)

lemma small_group: "(g :: u32) \<le> 8 \<Longrightarrow> unat g \<le> 8 \<and> unat (g + 15) = unat g + 15"
  by (simp add: word_le_nat_alt unat_word_ariths)

lemma small_phase:
  assumes "(p :: u8) \<le> 8"
  shows "unat p \<le> 8 \<and> unat (ucast p + 23 :: u32) = unat p + 23"
proof -
  have p: "unat p \<le> 8" using assms by (simp add: word_le_nat_alt)
  then have "unat (ucast p :: u32) = unat p" by (simp add: unsigned_ucast_eq take_bit_nat_eq_self)
  then show ?thesis using p by (simp add: unat_word_ariths)
qed

lemma bit_encode:
  assumes "g \<le> 8" "p \<le> 8" "k < 32"
  shows "bit (encode_event_data_like_cpp i g p) k \<longleftrightarrow>
     bit i k \<or> (g \<noteq> 0 \<and> k = unat g + 15) \<or> (p \<noteq> 0 \<and> k = unat p + 23)"
proof -
  have g: "unat (g + 15) = unat g + 15" and pp: "unat (ucast p + 23 :: u32) = unat p + 23"
    using small_group [OF assms(1)] small_phase [OF assms(2)] by simp_all
  have "valid_group_like_cpp g \<longleftrightarrow> g \<noteq> 0" "p \<le> ucast MAX_EVENT_GROUP_OR_PHASE_LIKE_CPP"
    using assms(1,2) by (simp_all add: valid_group_like_cpp_def MAX_EVENT_GROUP_OR_PHASE_LIKE_CPP_def)
  then show ?thesis
    unfolding encode_event_data_like_cpp_def Let_def g(1) pp
    by (cases "g = 0"; cases "p = 0") (simp_all add: bit_or_push [OF assms(3)] disj_ac del: push_bit_of_1)
qed

text \<open>
  The fields of an event do not overlap: for an id of 16 bits, a group and a phase up to 8,
  the encoded event has that id, belongs to exactly that group, and with one phase set is
  blocked exactly when it has another phase.
\<close>

theorem event_fields_roundtrip:
  assumes "i AND EVENT_ID_MASK_LIKE_CPP = i" "g \<le> 8" "p \<le> 8" "q \<le> 8"
  shows "encode_event_data_like_cpp i g p AND EVENT_ID_MASK_LIKE_CPP = i \<and>
    (event_has_group_like_cpp (encode_event_data_like_cpp i g p) h \<longleftrightarrow> h = g \<and> g \<noteq> 0) \<and>
    (phase_blocked (event_phase_mask (set_phase_like_cpp q e)) (encode_event_data_like_cpp i g p) \<longleftrightarrow>
       q \<noteq> 0 \<and> p \<noteq> 0 \<and> p \<noteq> q)"
proof -
  have small: "\<not> bit i k" if "16 \<le> k" for k
  proof
    assume "bit i k"
    then have "bit (i AND EVENT_ID_MASK_LIKE_CPP) k" using assms(1) by simp
    then have "bit EVENT_ID_MASK_LIKE_CPP k" by (simp add: bit_and_iff)
    then show False using that unfolding event_id_mask bit_mask_iff by simp
  qed
  note enc = bit_encode [OF assms(2,3), of _ i]
  have g: "unat g \<le> 8" "unat p \<le> 8" "unat q \<le> 8" using assms(2-4) by (simp_all add: word_le_nat_alt)
  have "encode_event_data_like_cpp i g p AND EVENT_ID_MASK_LIKE_CPP = i"
  proof (rule bit_word_eqI)
    fix k assume k: "k < LENGTH(32)"
    then have e: "bit (encode_event_data_like_cpp i g p) k \<longleftrightarrow>
        bit i k \<or> (g \<noteq> 0 \<and> k = unat g + 15) \<or> (p \<noteq> 0 \<and> k = unat p + 23)" by (intro enc) simp
    have "bit i k \<Longrightarrow> k < 16" using small [of k] by (metis not_less)
    moreover have "\<not> (g \<noteq> 0 \<and> k = unat g + 15 \<and> k < 16)" using unat_gt_0 [of g] by linarith
    moreover have "\<not> (p \<noteq> 0 \<and> k = unat p + 23 \<and> k < 16)" by simp
    ultimately show "bit (encode_event_data_like_cpp i g p AND EVENT_ID_MASK_LIKE_CPP) k \<longleftrightarrow> bit i k"
      unfolding event_id_mask bit_and_iff bit_mask_iff e using k by auto
  qed
  moreover have "event_has_group_like_cpp (encode_event_data_like_cpp i g p) h \<longleftrightarrow> h = g \<and> g \<noteq> 0"
  proof (cases "valid_group_like_cpp h")
    case True
    then have h: "unat (h + 15) = unat h + 15" "0 < unat h" "unat h \<le> 8"
      using small_group [of h] by (simp_all add: valid_group_like_cpp_def MAX_EVENT_GROUP_OR_PHASE_LIKE_CPP_def unat_gt_0)
    then show ?thesis
      using True enc [of "unat h + 15"] small [of "unat h + 15"] g
      by (auto simp: event_has_group_like_cpp_def and_push_bit h(1) simp del: push_bit_of_1)
        (simp_all add: word_unat_eq_iff)
  next
    case False
    then show ?thesis
      using assms(2) by (auto simp: event_has_group_like_cpp_def valid_group_like_cpp_def MAX_EVENT_GROUP_OR_PHASE_LIKE_CPP_def)
  qed
  moreover have "phase_blocked (event_phase_mask (set_phase_like_cpp q e)) (encode_event_data_like_cpp i g p) \<longleftrightarrow>
       q \<noteq> 0 \<and> p \<noteq> 0 \<and> p \<noteq> q"
  proof (cases "q = 0")
    case True
    then show ?thesis by (simp add: set_phase_like_cpp_def phase_blocked_def)
  next
    case False
    let ?d = "encode_event_data_like_cpp i g p"
    have q: "unat (q - 1) = unat q - 1" "0 < unat q" using False by (auto simp: unat_gt_0 unat_minus_one)
    have m: "event_phase_mask (set_phase_like_cpp q e) = push_bit (unat q - 1) 1"
      using False assms(4) by (simp add: set_phase_like_cpp_def MAX_EVENT_GROUP_OR_PHASE_LIKE_CPP_def q(1))
    have "?d AND EVENT_PHASE_MASK_LIKE_CPP \<noteq> 0 \<longleftrightarrow> p \<noteq> 0"
    proof -
      have e: "EVENT_PHASE_MASK_LIKE_CPP = push_bit 24 (mask 8)"
        by (simp add: EVENT_PHASE_MASK_LIKE_CPP_def mask_eq_exp_minus_1 push_bit_eq_mult)
      have "?d AND EVENT_PHASE_MASK_LIKE_CPP \<noteq> 0 \<longleftrightarrow> (\<exists>k<32. 24 \<le> k \<and> bit ?d k)"
        by (auto simp: bit_eq_iff bit_and_iff e bit_push_bit_iff bit_mask_iff simp del: mask_numeral)
      also have "\<dots> \<longleftrightarrow> (\<exists>k<32. 24 \<le> k \<and> (bit i k \<or> (g \<noteq> 0 \<and> k = unat g + 15) \<or> (p \<noteq> 0 \<and> k = unat p + 23)))"
        using enc by metis
      also have "\<dots> \<longleftrightarrow> p \<noteq> 0"
        using small g unat_gt_0 [of p] by (auto intro!: exI [of _ "unat p + 23"])
      finally show ?thesis .
    qed
    moreover have "(ucast (drop_bit 24 ?d) :: u8) AND push_bit (unat q - 1) 1 = 0 \<longleftrightarrow> \<not> (p \<noteq> 0 \<and> p = q)"
    proof -
      have "(ucast (drop_bit 24 ?d) :: u8) AND push_bit (unat q - 1) 1 = 0 \<longleftrightarrow> \<not> bit ?d (unat q + 23)"
        unfolding and_push_bit using q g(3) by (auto simp: bit_ucast_iff bit_drop_bit_eq add.commute)
      also have "bit ?d (unat q + 23) \<longleftrightarrow> p \<noteq> 0 \<and> unat p = unat q"
        using enc [of "unat q + 23"] small [of "unat q + 23"] g q(2) by auto
      finally show ?thesis by (simp add: word_unat_eq_iff)
    qed
    moreover have "(push_bit (unat q - 1) 1 :: u8) \<noteq> 0" using g(3) q(2) by (simp add: push_bit_eq_mult)
    ultimately show ?thesis using False by (auto simp: phase_blocked_def m)
  qed
  ultimately show ?thesis by blast
qed

theorem event_fields_roundtrip_witness:
  "encode_event_data_like_cpp 5 3 2 AND EVENT_ID_MASK_LIKE_CPP = 5"
  using event_fields_roundtrip [where i = 5 and g = 3 and p = 2 and q = 1]
  by (simp add: EVENT_ID_MASK_LIKE_CPP_def)

end
