(* ===== verification/InstanceLocks.thy ===== *)
theory InstanceLocks
  imports Guid "HOL-Library.Product_Lexorder"
begin

text \<open>
  The instance locks of players (\<open>crates/wow-instances/src/instances/state_1.rs\<close> and
  \<open>ops_1.rs\<close>) and the persistence mutations they emit
  (\<open>crates/wow-persistence/src/instance_lock.rs\<close>).

  A shared lock is an \<open>Arc\<close>: locks carry its address, the data lie in \<open>shared_heap\<close>, and the
  manager's index holds weak references.  A weak reference upgrades as long as a lock of the
  manager or a clone kept by a caller refers to the address; those clones are the
  parameter \<open>held\<close>.  Reset times are seconds since 1970 as \<open>u64\<close>, and the current time is a
  parameter as in the code.
\<close>

section \<open>Data\<close>

definition MAX_DUNGEON_ENCOUNTERS_PER_BOSS :: nat where "MAX_DUNGEON_ENCOUNTERS_PER_BOSS = 4"

type_synonym InstanceLockKey = "u32 \<times> u32"
type_synonym InstanceResetTime = u64

datatype MapDifficultyResetInterval = Anytime | Daily | Weekly

fun raid_duration_secs :: "MapDifficultyResetInterval \<Rightarrow> u64" where
  "raid_duration_secs Daily = 86400"
| "raid_duration_secs Weekly = 604800"
| "raid_duration_secs Anytime = 0"

datatype TransferAbortReason = AbortNone | LockedToDifferentInstance | AlreadyCompletedEncounter

record InstanceLockData =
  lock_data :: string
  completed_encounters_mask :: u32
  entrance_world_safe_loc_id :: u32

definition InstanceLockData_default :: InstanceLockData where
  "InstanceLockData_default = \<lparr>lock_data = [], completed_encounters_mask = 0, entrance_world_safe_loc_id = 0\<rparr>"

record SharedInstanceLockData =
  shared_instance_id :: u32
  shared_lock_data :: InstanceLockData

record InstanceLock =
  il_map_id :: u32
  il_difficulty_id :: u8
  il_instance_id :: u32
  il_expiry_time :: InstanceResetTime
  il_extended :: bool
  il_data :: InstanceLockData
  il_is_in_use :: bool
  il_is_new :: bool
  il_shared_data :: "nat option"

definition InstanceLock_new :: "u32 \<Rightarrow> u8 \<Rightarrow> InstanceResetTime \<Rightarrow> u32 \<Rightarrow> InstanceLock" where
  "InstanceLock_new mapid difficulty expiry iid =
     \<lparr>il_map_id = mapid, il_difficulty_id = difficulty, il_instance_id = iid, il_expiry_time = expiry,
      il_extended = False, il_data = InstanceLockData_default, il_is_in_use = False, il_is_new = False,
      il_shared_data = None\<rparr>"

definition InstanceLock_new_shared ::
  "u32 \<Rightarrow> u8 \<Rightarrow> InstanceResetTime \<Rightarrow> u32 \<Rightarrow> nat \<Rightarrow> InstanceLock" where
  "InstanceLock_new_shared mapid difficulty expiry iid shared =
     (InstanceLock_new mapid difficulty expiry iid)\<lparr>il_shared_data := Some shared\<rparr>"

definition is_expired_at :: "InstanceLock \<Rightarrow> InstanceResetTime \<Rightarrow> bool" where
  "is_expired_at lock now = (il_expiry_time lock < now)"

record MapDb2Entries =
  db2_map_id :: u32
  db2_difficulty_id :: u8
  db2_lock_id :: u32
  db2_reset_interval :: MapDifficultyResetInterval
  db2_max_players :: u32
  db2_is_flex_locking :: bool
  db2_is_using_encounter_locks :: bool

definition lock_key :: "MapDb2Entries \<Rightarrow> InstanceLockKey" where
  "lock_key entries = (db2_map_id entries, db2_lock_id entries)"

definition is_instance_id_bound :: "MapDb2Entries \<Rightarrow> bool" where
  "is_instance_id_bound entries = (\<not> db2_is_flex_locking entries \<and> \<not> db2_is_using_encounter_locks entries)"

definition has_reset_schedule :: "MapDb2Entries \<Rightarrow> bool" where
  "has_reset_schedule entries = (db2_reset_interval entries \<noteq> Anytime)"

record ResetSchedule =
  reset_hour :: u8
  reset_week_day :: u8

definition ResetSchedule_default :: ResetSchedule where
  "ResetSchedule_default = \<lparr>reset_hour = 8, reset_week_day = 2\<rparr>"

record InstanceLockUpdateEvent =
  event_instance_id :: u32
  event_new_data :: string
  instance_completed_encounters_mask :: u32
  completed_encounter_bit :: "u8 option"
  event_entrance_world_safe_loc_id :: "u32 option"

datatype InstanceLockLoadIssue = MissingSharedInstanceData u64 u32

record InstanceLocksStatistics =
  instance_count :: u32
  player_count :: u32

record InstanceLockResetResult =
  reset_locks :: "InstanceLock list"
  failed_to_reset :: "InstanceLock list"

record InstanceRaidInfoLock =
  raid_instance_id :: u64
  raid_map_id :: u32
  raid_difficulty_id :: u32
  time_remaining :: i32
  raid_completed_mask :: u32
  raid_locked :: bool
  raid_extended :: bool

type_synonym player_locks = "(InstanceLockKey, InstanceLock) hash_map"

record InstanceLockMgr =
  temporary_instance_locks_by_player :: "(ObjectGuid, player_locks) hash_map"
  instance_locks_by_player :: "(ObjectGuid, player_locks) hash_map"
  instance_lock_data_by_id :: "(u32, nat) hash_map"
  loaded_character_instance_ids_like_cpp :: "u32 list"
  shared_heap :: "(nat, SharedInstanceLockData) hash_map"
  next_shared :: nat

definition InstanceLockMgr_default :: InstanceLockMgr where
  "InstanceLockMgr_default =
     \<lparr>temporary_instance_locks_by_player = [], instance_locks_by_player = [], instance_lock_data_by_id = [],
      loaded_character_instance_ids_like_cpp = [], shared_heap = [], next_shared = 0\<rparr>"

section \<open>Reset times\<close>

definition reset_stamp :: "int \<Rightarrow> int \<Rightarrow> InstanceResetTime" where
  "reset_stamp days hour = of_int days * 86400 + of_int hour * 3600"

definition next_reset_time_at :: "MapDb2Entries \<Rightarrow> ResetSchedule \<Rightarrow> InstanceResetTime \<Rightarrow> InstanceResetTime" where
  "next_reset_time_at entries schedule now =
     (if \<not> has_reset_schedule entries then now
      else
       (let days = uint (now div 86400);
            hour = uint (now mod 86400 div 3600);
            rhour = uint (reset_hour schedule)
        in case db2_reset_interval entries of
             Daily \<Rightarrow> reset_stamp (if hour \<ge> rhour then days + 1 else days) rhour
           | Weekly \<Rightarrow>
               (let reset_day = uint (reset_week_day schedule);
                    week_day = (days + 4) mod 7;
                    days_adjust = reset_day - week_day;
                    days_adjust1 = (if week_day > reset_day \<or> (week_day = reset_day \<and> hour \<ge> rhour)
                                    then days_adjust + 7 else days_adjust)
                in reset_stamp (days + days_adjust1) rhour)
           | Anytime \<Rightarrow> reset_stamp days hour))"

definition effective_expiry_time_at ::
  "InstanceLock \<Rightarrow> MapDb2Entries \<Rightarrow> ResetSchedule \<Rightarrow> InstanceResetTime \<Rightarrow> InstanceResetTime" where
  "effective_expiry_time_at lock entries schedule now =
     (if \<not> il_extended lock then il_expiry_time lock
      else if is_expired_at lock now then next_reset_time_at entries schedule now
      else il_expiry_time lock + raid_duration_secs (db2_reset_interval entries))"

section \<open>Shared data\<close>

definition lock_refs :: "(ObjectGuid, player_locks) hash_map \<Rightarrow> nat list" where
  "lock_refs m = concat (map (\<lambda>(_, locks). concat (map (\<lambda>(_, lock).
     (case il_shared_data lock of None \<Rightarrow> [] | Some a \<Rightarrow> [a])) locks)) m)"

text \<open>\<open>Weak::upgrade\<close>\<close>

definition upgrade :: "nat list \<Rightarrow> InstanceLockMgr \<Rightarrow> nat \<Rightarrow> nat option" where
  "upgrade held m a =
     (if a \<in> set (lock_refs (temporary_instance_locks_by_player m)) \<or>
         a \<in> set (lock_refs (instance_locks_by_player m)) \<or> a \<in> set held then Some a else None)"

text \<open>\<open>Arc::new(RwLock::new(data))\<close> with its weak reference entered in the index.\<close>

definition alloc_shared :: "u32 \<Rightarrow> SharedInstanceLockData \<Rightarrow> InstanceLockMgr \<Rightarrow> nat \<times> InstanceLockMgr" where
  "alloc_shared iid data m =
     (next_shared m,
      m\<lparr>shared_heap := hm_insert (next_shared m) data (shared_heap m), next_shared := next_shared m + 1,
        instance_lock_data_by_id := hm_insert iid (next_shared m) (instance_lock_data_by_id m)\<rparr>)"

definition SharedInstanceLockData_default :: SharedInstanceLockData where
  "SharedInstanceLockData_default = \<lparr>shared_instance_id = 0, shared_lock_data = InstanceLockData_default\<rparr>"

definition instance_initialization_data :: "InstanceLockMgr \<Rightarrow> InstanceLock \<Rightarrow> InstanceLockData" where
  "instance_initialization_data m lock =
     (case il_shared_data lock of None \<Rightarrow> il_data lock
      | Some a \<Rightarrow> (case hm_get (shared_heap m) a of None \<Rightarrow> il_data lock | Some s \<Rightarrow> shared_lock_data s))"

section \<open>Persistence mutations\<close>

datatype InstanceLockPersistenceMutationLikeCpp =
    DeleteCharacterLock u64 u32 u32
  | InsertCharacterLock u64 u32 u32 u32 u8 string u32 u32 u64 bool
  | DeleteSharedInstance u32
  | InsertSharedInstance u32 string u32 u32
  | UpdateCharacterLockExtension bool u64 u32 u32
  | ForceExpireCharacterLock u64 u64 u32 u32

record SharedInstanceLockRow =
  srow_instance_id :: u32
  srow_data :: string
  srow_completed_encounters_mask :: u32
  srow_entrance_world_safe_loc_id :: u32

record CharacterInstanceLockRow =
  crow_player_guid_counter :: u64
  crow_map_id :: u32
  crow_lock_id :: u32
  crow_instance_id :: u32
  crow_difficulty_id :: u8
  crow_data :: string
  crow_completed_encounters_mask :: u32
  crow_entrance_world_safe_loc_id :: u32
  crow_expiry_time :: u64
  crow_extended :: bool

definition delete_character_instance_lock_mutation ::
  "ObjectGuid \<Rightarrow> MapDb2Entries \<Rightarrow> InstanceLockPersistenceMutationLikeCpp" where
  "delete_character_instance_lock_mutation player entries =
     DeleteCharacterLock (guid_counter player) (db2_map_id entries) (db2_lock_id entries)"

definition insert_character_instance_lock_mutation ::
  "ObjectGuid \<Rightarrow> MapDb2Entries \<Rightarrow> InstanceLock \<Rightarrow> InstanceLockPersistenceMutationLikeCpp" where
  "insert_character_instance_lock_mutation player entries lock =
     InsertCharacterLock (guid_counter player) (db2_map_id entries) (db2_lock_id entries) (il_instance_id lock)
       (db2_difficulty_id entries) (lock_data (il_data lock)) (completed_encounters_mask (il_data lock))
       (entrance_world_safe_loc_id (il_data lock)) (il_expiry_time lock) (il_extended lock)"

definition update_character_instance_lock_extension_mutation ::
  "ObjectGuid \<Rightarrow> MapDb2Entries \<Rightarrow> bool \<Rightarrow> InstanceLockPersistenceMutationLikeCpp" where
  "update_character_instance_lock_extension_mutation player entries extended =
     UpdateCharacterLockExtension extended (guid_counter player) (db2_map_id entries) (db2_lock_id entries)"

definition force_expire_character_instance_lock_mutation ::
  "ObjectGuid \<Rightarrow> MapDb2Entries \<Rightarrow> InstanceResetTime \<Rightarrow> InstanceLockPersistenceMutationLikeCpp" where
  "force_expire_character_instance_lock_mutation player entries expiry =
     ForceExpireCharacterLock expiry (guid_counter player) (db2_map_id entries) (db2_lock_id entries)"

definition delete_instance_mutation :: "u32 \<Rightarrow> InstanceLockPersistenceMutationLikeCpp" where
  "delete_instance_mutation iid = DeleteSharedInstance iid"

definition insert_instance_mutation :: "SharedInstanceLockData \<Rightarrow> InstanceLockPersistenceMutationLikeCpp" where
  "insert_instance_mutation s =
     InsertSharedInstance (shared_instance_id s) (lock_data (shared_lock_data s))
       (completed_encounters_mask (shared_lock_data s)) (entrance_world_safe_loc_id (shared_lock_data s))"

end
