(* ===== verification/InstanceLockOps.thy ===== *)
theory InstanceLockOps
  imports InstanceLocks
begin

text \<open>
  The operations of \<open>InstanceLockMgr\<close> (\<open>crates/wow-instances/src/instances/ops_1.rs\<close>).  A
  mutating operation returns the manager; references into it are returned by value.  A
  transaction plan is the list of mutations appended to it.
\<close>

section \<open>Access\<close>

definition player_lock :: "(ObjectGuid, player_locks) hash_map \<Rightarrow> ObjectGuid \<Rightarrow> InstanceLockKey \<Rightarrow> InstanceLock option" where
  "player_lock locks player key = (case hm_get locks player of None \<Rightarrow> None | Some ls \<Rightarrow> hm_get ls key)"

text \<open>\<open>entry(player).or_default().insert(key, lock)\<close>\<close>

definition put_lock ::
  "ObjectGuid \<Rightarrow> InstanceLockKey \<Rightarrow> InstanceLock \<Rightarrow> (ObjectGuid, player_locks) hash_map
     \<Rightarrow> (ObjectGuid, player_locks) hash_map" where
  "put_lock player key lock locks =
     hm_insert player (hm_insert key lock (case hm_get locks player of None \<Rightarrow> [] | Some ls \<Rightarrow> ls)) locks"

definition lock_active_at :: "InstanceLock \<Rightarrow> InstanceResetTime \<Rightarrow> bool" where
  "lock_active_at lock now = (\<not> is_expired_at lock now \<or> il_extended lock)"

definition player_lock_map_difficulties :: "InstanceLockMgr \<Rightarrow> ObjectGuid \<Rightarrow> (u32 \<times> u8) list" where
  "player_lock_map_difficulties m player =
     (case hm_get (instance_locks_by_player m) player of None \<Rightarrow> []
      | Some ls \<Rightarrow> remdups_adj (sort (map (\<lambda>lock. (il_map_id lock, il_difficulty_id lock)) (hm_values ls))))"

definition get_instance_locks_for_player :: "InstanceLockMgr \<Rightarrow> ObjectGuid \<Rightarrow> InstanceLock list" where
  "get_instance_locks_for_player m player =
     (case hm_get (instance_locks_by_player m) player of None \<Rightarrow> [] | Some ls \<Rightarrow> hm_values ls)"

definition raid_info_lock ::
  "(u32 \<Rightarrow> u8 \<Rightarrow> MapDb2Entries option) \<Rightarrow> ResetSchedule \<Rightarrow> InstanceResetTime \<Rightarrow> InstanceLock \<Rightarrow> InstanceRaidInfoLock" where
  "raid_info_lock entries_for schedule now lock =
     (let effective_expiry_time =
            (if il_extended lock
             then (case entries_for (il_map_id lock) (il_difficulty_id lock) of None \<Rightarrow> il_expiry_time lock
                   | Some entries \<Rightarrow> effective_expiry_time_at lock entries schedule now)
             else il_expiry_time lock);
          seconds_remaining = min (saturating_sub effective_expiry_time now) 0x7FFFFFFF
      in \<lparr>raid_instance_id = ucast (il_instance_id lock), raid_map_id = il_map_id lock,
          raid_difficulty_id = ucast (il_difficulty_id lock), time_remaining = ucast seconds_remaining,
          raid_completed_mask = completed_encounters_mask (il_data lock),
          raid_locked = (\<not> is_expired_at lock now), raid_extended = il_extended lock\<rparr>)"

definition get_raid_info_locks_for_player_at ::
  "InstanceLockMgr \<Rightarrow> ObjectGuid \<Rightarrow> InstanceResetTime \<Rightarrow> ResetSchedule \<Rightarrow> (u32 \<Rightarrow> u8 \<Rightarrow> MapDb2Entries option)
     \<Rightarrow> InstanceRaidInfoLock list" where
  "get_raid_info_locks_for_player_at m player now schedule entries_for =
     map (raid_info_lock entries_for schedule now) (get_instance_locks_for_player m player)"

definition find_active_instance_lock_inner ::
  "InstanceLockMgr \<Rightarrow> ObjectGuid \<Rightarrow> MapDb2Entries \<Rightarrow> InstanceResetTime \<Rightarrow> bool \<Rightarrow> bool \<Rightarrow> InstanceLock option" where
  "find_active_instance_lock_inner m player entries now ignore_temporary ignore_expired =
     (if \<not> has_reset_schedule entries then None
      else
       (let temporary = (if ignore_temporary then None
                         else player_lock (temporary_instance_locks_by_player m) player (lock_key entries))
        in case player_lock (instance_locks_by_player m) player (lock_key entries) of
             None \<Rightarrow> temporary
           | Some lock \<Rightarrow>
               (if \<not> ignore_expired \<or> \<not> is_expired_at lock now \<or> il_extended lock then Some lock
                else temporary)))"

definition find_active_instance_lock_at ::
  "InstanceLockMgr \<Rightarrow> ObjectGuid \<Rightarrow> MapDb2Entries \<Rightarrow> InstanceResetTime \<Rightarrow> InstanceLock option" where
  "find_active_instance_lock_at m player entries now =
     find_active_instance_lock_inner m player entries now False True"

definition can_join_instance_lock_at ::
  "InstanceLockMgr \<Rightarrow> ObjectGuid \<Rightarrow> MapDb2Entries \<Rightarrow> InstanceLock \<Rightarrow> InstanceResetTime \<Rightarrow> TransferAbortReason" where
  "can_join_instance_lock_at m player entries lock now =
     (case find_active_instance_lock_at m player entries now of None \<Rightarrow> AbortNone
      | Some pl \<Rightarrow>
         (if db2_is_flex_locking entries
          then (if completed_encounters_mask (il_data pl) AND NOT (completed_encounters_mask (il_data lock)) \<noteq> 0
                then AlreadyCompletedEncounter else AbortNone)
          else if \<not> db2_is_using_encounter_locks entries \<and> \<not> il_is_new pl \<and>
                  il_instance_id pl \<noteq> il_instance_id lock
          then LockedToDifferentInstance else AbortNone))"

section \<open>Loading\<close>

definition load_shared_row ::
  "SharedInstanceLockRow \<Rightarrow> (u32, nat) hash_map \<times> InstanceLockMgr \<Rightarrow> (u32, nat) hash_map \<times> InstanceLockMgr" where
  "load_shared_row row acc =
     (case acc of (shared_by_id, m) \<Rightarrow>
       (case alloc_shared (srow_instance_id row)
              \<lparr>shared_instance_id = srow_instance_id row,
               shared_lock_data = \<lparr>lock_data = srow_data row,
                 completed_encounters_mask = srow_completed_encounters_mask row,
                 entrance_world_safe_loc_id = srow_entrance_world_safe_loc_id row\<rparr>\<rparr> m of
          (a, m1) \<Rightarrow> (hm_insert (srow_instance_id row) a shared_by_id, m1)))"

definition row_entries :: "(u32 \<Rightarrow> u8 \<Rightarrow> MapDb2Entries option) \<Rightarrow> CharacterInstanceLockRow \<Rightarrow> MapDb2Entries" where
  "row_entries entries_for row =
     (case entries_for (crow_map_id row) (crow_difficulty_id row) of
        Some entries \<Rightarrow> entries
      | None \<Rightarrow> \<lparr>db2_map_id = crow_map_id row, db2_difficulty_id = crow_difficulty_id row,
                db2_lock_id = crow_lock_id row, db2_reset_interval = Anytime, db2_max_players = 0,
                db2_is_flex_locking = True, db2_is_using_encounter_locks = True\<rparr>)"

definition row_player :: "CharacterInstanceLockRow \<Rightarrow> ObjectGuid" where
  "row_player row = create_global HgPlayer 0 (crow_player_guid_counter row)"

definition load_character_row ::
  "(u32 \<Rightarrow> u8 \<Rightarrow> MapDb2Entries option) \<Rightarrow> (u32, nat) hash_map \<Rightarrow> CharacterInstanceLockRow
     \<Rightarrow> InstanceLockLoadIssue list \<times> InstanceLockMgr \<Rightarrow> InstanceLockLoadIssue list \<times> InstanceLockMgr" where
  "load_character_row entries_for shared_by_id row acc =
     (case acc of (issues, m) \<Rightarrow>
       (let m1 = m\<lparr>loaded_character_instance_ids_like_cpp :=
                     loaded_character_instance_ids_like_cpp m @ [crow_instance_id row]\<rparr>;
            entries = row_entries entries_for row;
            data = \<lparr>lock_data = crow_data row, completed_encounters_mask = crow_completed_encounters_mask row,
                    entrance_world_safe_loc_id = crow_entrance_world_safe_loc_id row\<rparr>;
            finish = (\<lambda>lock. (issues,
              m1\<lparr>instance_locks_by_player :=
                   put_lock (row_player row) (crow_map_id row, crow_lock_id row)
                     (lock\<lparr>il_data := data, il_extended := crow_extended row\<rparr>) (instance_locks_by_player m1)\<rparr>))
        in if is_instance_id_bound entries
           then (case hm_get shared_by_id (crow_instance_id row) of
                   None \<Rightarrow> (issues @ [MissingSharedInstanceData (crow_player_guid_counter row) (crow_instance_id row)], m1)
                 | Some a \<Rightarrow> finish (InstanceLock_new_shared (crow_map_id row) (crow_difficulty_id row)
                               (crow_expiry_time row) (crow_instance_id row) a))
           else finish (InstanceLock_new (crow_map_id row) (crow_difficulty_id row) (crow_expiry_time row)
                          (crow_instance_id row))))"

definition load_from_rows_like_cpp ::
  "SharedInstanceLockRow list \<Rightarrow> CharacterInstanceLockRow list \<Rightarrow> (u32 \<Rightarrow> u8 \<Rightarrow> MapDb2Entries option)
     \<Rightarrow> InstanceLockMgr \<Rightarrow> InstanceLockLoadIssue list \<times> InstanceLockMgr" where
  "load_from_rows_like_cpp shared_rows character_rows entries_for m =
     (let m0 = m\<lparr>temporary_instance_locks_by_player := [], instance_locks_by_player := [],
                 instance_lock_data_by_id := [], loaded_character_instance_ids_like_cpp := []\<rparr>
      in case fold load_shared_row shared_rows ([], m0) of
           (shared_by_id, m1) \<Rightarrow> fold (load_character_row entries_for shared_by_id) character_rows ([], m1))"

section \<open>Creating and updating\<close>

definition set_active_instance_lock_instance_id_at ::
  "ObjectGuid \<Rightarrow> MapDb2Entries \<Rightarrow> InstanceResetTime \<Rightarrow> u32 \<Rightarrow> InstanceLockMgr \<Rightarrow> bool \<times> InstanceLockMgr" where
  "set_active_instance_lock_instance_id_at player entries now iid m =
     (if \<not> has_reset_schedule entries then (False, m)
      else
       (let key = lock_key entries;
            temporary = (case player_lock (temporary_instance_locks_by_player m) player key of
                None \<Rightarrow> (False, m)
              | Some lock \<Rightarrow> (True, m\<lparr>temporary_instance_locks_by_player :=
                   put_lock player key (lock\<lparr>il_instance_id := iid\<rparr>) (temporary_instance_locks_by_player m)\<rparr>))
        in case player_lock (instance_locks_by_player m) player key of
             None \<Rightarrow> temporary
           | Some lock \<Rightarrow>
               (if lock_active_at lock now
                then (True, m\<lparr>instance_locks_by_player :=
                        put_lock player key (lock\<lparr>il_instance_id := iid\<rparr>) (instance_locks_by_player m)\<rparr>)
                else temporary)))"

definition create_instance_lock_for_new_instance_at ::
  "ObjectGuid \<Rightarrow> MapDb2Entries \<Rightarrow> u32 \<Rightarrow> ResetSchedule \<Rightarrow> InstanceResetTime \<Rightarrow> InstanceLockMgr
     \<Rightarrow> InstanceLock option \<times> InstanceLockMgr" where
  "create_instance_lock_for_new_instance_at player entries iid schedule now m =
     (if \<not> has_reset_schedule entries then (None, m)
      else
       (let expiry_time = next_reset_time_at entries schedule now;
            (lock, m1) =
              (if is_instance_id_bound entries
               then (case alloc_shared iid SharedInstanceLockData_default m of
                       (a, m1) \<Rightarrow> (InstanceLock_new_shared (db2_map_id entries) (db2_difficulty_id entries)
                                    expiry_time iid a, m1))
               else (InstanceLock_new (db2_map_id entries) (db2_difficulty_id entries) expiry_time iid, m));
            lock1 = lock\<lparr>il_is_new := True\<rparr>
        in (Some lock1,
            m1\<lparr>temporary_instance_locks_by_player :=
                 put_lock player (lock_key entries) lock1 (temporary_instance_locks_by_player m1)\<rparr>)))"

text \<open>The first half of an update: an inactive lock gives way to the temporary one, if any.\<close>

definition promote_temporary ::
  "ObjectGuid \<Rightarrow> InstanceLockKey \<Rightarrow> InstanceLockMgr \<Rightarrow> InstanceLockMgr" where
  "promote_temporary player key m =
     (let (promoted, m1) =
            (case player_lock (temporary_instance_locks_by_player m) player key of
               None \<Rightarrow> (False, m)
             | Some temp \<Rightarrow>
                 (True,
                  m\<lparr>temporary_instance_locks_by_player :=
                      hm_modify player (hm_remove key) (temporary_instance_locks_by_player m),
                    instance_locks_by_player := put_lock player key temp (instance_locks_by_player m)\<rparr>));
          m2 = (if hm_get (temporary_instance_locks_by_player m1) player = Some []
                then m1\<lparr>temporary_instance_locks_by_player :=
                          hm_remove player (temporary_instance_locks_by_player m1)\<rparr> else m1)
      in if promoted then m2
         else m2\<lparr>instance_locks_by_player := hm_modify player (hm_remove key) (instance_locks_by_player m2)\<rparr>)"

text \<open>The second half, if there is still no lock: a new one, sharing the data of its instance if those live.\<close>

definition create_missing_lock ::
  "nat list \<Rightarrow> ObjectGuid \<Rightarrow> MapDb2Entries \<Rightarrow> u32 \<Rightarrow> ResetSchedule \<Rightarrow> InstanceResetTime \<Rightarrow> InstanceLockMgr
     \<Rightarrow> InstanceLockMgr" where
  "create_missing_lock held player entries iid schedule now m =
     (if player_lock (instance_locks_by_player m) player (lock_key entries) \<noteq> None then m
      else
       (let expiry_time = next_reset_time_at entries schedule now;
            (lock, m1) =
              (if is_instance_id_bound entries
               then (case (case hm_get (instance_lock_data_by_id m) iid of None \<Rightarrow> None
                           | Some a \<Rightarrow> upgrade held m a) of
                       Some a \<Rightarrow> (InstanceLock_new_shared (db2_map_id entries) (db2_difficulty_id entries)
                                   expiry_time iid a, m)
                     | None \<Rightarrow>
                        (case alloc_shared iid \<lparr>shared_instance_id = iid, shared_lock_data = InstanceLockData_default\<rparr> m of
                           (a, m1) \<Rightarrow> (InstanceLock_new_shared (db2_map_id entries) (db2_difficulty_id entries)
                                        expiry_time iid a, m1)))
               else (InstanceLock_new (db2_map_id entries) (db2_difficulty_id entries) expiry_time iid, m))
        in m1\<lparr>instance_locks_by_player :=
                put_lock player (lock_key entries) lock (instance_locks_by_player m1)\<rparr>))"

text \<open>\<open>1_u32 << bit\<close>: the release profile shifts by the bit number modulo 32.\<close>

definition encounter_bit :: "u8 \<Rightarrow> u32" where
  "encounter_bit b = push_bit (unat b mod 32) 1"

definition apply_update_event ::
  "MapDb2Entries \<Rightarrow> InstanceLockUpdateEvent \<Rightarrow> ResetSchedule \<Rightarrow> InstanceResetTime \<Rightarrow> InstanceLock \<Rightarrow> InstanceLock" where
  "apply_update_event entries event schedule now lock =
     (let d = il_data lock;
          mask1 = (case completed_encounter_bit event of None \<Rightarrow> completed_encounters_mask d
                   | Some b \<Rightarrow> completed_encounters_mask d OR encounter_bit b);
          mask2 = (if db2_is_using_encounter_locks entries then mask1
                   else mask1 OR instance_completed_encounters_mask event);
          entrance = (case event_entrance_world_safe_loc_id event of None \<Rightarrow> entrance_world_safe_loc_id d
                      | Some e \<Rightarrow> e);
          lock1 = lock\<lparr>il_instance_id := event_instance_id event, il_is_new := False,
                       il_data := \<lparr>lock_data = event_new_data event, completed_encounters_mask = mask2,
                                   entrance_world_safe_loc_id = entrance\<rparr>\<rparr>
      in if is_expired_at lock1 now
         then lock1\<lparr>il_expiry_time := next_reset_time_at entries schedule now, il_extended := False\<rparr>
         else lock1)"

definition update_instance_lock_for_player_at ::
  "nat list \<Rightarrow> ObjectGuid \<Rightarrow> MapDb2Entries \<Rightarrow> InstanceLockUpdateEvent \<Rightarrow> ResetSchedule \<Rightarrow> InstanceResetTime
     \<Rightarrow> InstanceLockMgr \<Rightarrow> InstanceLock option \<times> InstanceLockMgr" where
  "update_instance_lock_for_player_at held player entries event schedule now m =
     (if \<not> has_reset_schedule entries then (None, m)
      else
       (let key = lock_key entries;
            active = (case player_lock (instance_locks_by_player m) player key of None \<Rightarrow> False
                      | Some lock \<Rightarrow> lock_active_at lock now);
            m1 = (if active then m else promote_temporary player key m);
            m2 = create_missing_lock held player entries (event_instance_id event) schedule now m1
        in case player_lock (instance_locks_by_player m2) player key of
             None \<Rightarrow> (None, m2)
           | Some lock \<Rightarrow>
               (let lock1 = apply_update_event entries event schedule now lock
                in (Some lock1,
                    m2\<lparr>instance_locks_by_player := put_lock player key lock1 (instance_locks_by_player m2)\<rparr>))))"

definition update_instance_lock_for_player_with_persistence_at ::
  "nat list \<Rightarrow> InstanceLockPersistenceMutationLikeCpp list \<Rightarrow> ObjectGuid \<Rightarrow> MapDb2Entries \<Rightarrow> InstanceLockUpdateEvent
     \<Rightarrow> ResetSchedule \<Rightarrow> InstanceResetTime \<Rightarrow> InstanceLockMgr
     \<Rightarrow> InstanceLock option \<times> InstanceLockPersistenceMutationLikeCpp list \<times> InstanceLockMgr" where
  "update_instance_lock_for_player_with_persistence_at held plan player entries event schedule now m =
     (case update_instance_lock_for_player_at held player entries event schedule now m of
        (None, m1) \<Rightarrow> (None, plan, m1)
      | (Some lock, m1) \<Rightarrow>
          (Some lock, plan @ [delete_character_instance_lock_mutation player entries,
                              insert_character_instance_lock_mutation player entries lock], m1))"

section \<open>Shared data, extension, reset\<close>

definition update_shared_instance_lock ::
  "nat list \<Rightarrow> InstanceLockUpdateEvent \<Rightarrow> InstanceLockMgr \<Rightarrow> SharedInstanceLockData option \<times> InstanceLockMgr" where
  "update_shared_instance_lock held event m =
     (case (case hm_get (instance_lock_data_by_id m) (event_instance_id event) of None \<Rightarrow> None
            | Some a \<Rightarrow> upgrade held m a) of
        None \<Rightarrow> (None, m)
      | Some a \<Rightarrow>
          (case hm_get (shared_heap m) a of None \<Rightarrow> (None, m)
           | Some s \<Rightarrow>
              (let d = shared_lock_data s;
                   s1 = \<lparr>shared_instance_id = event_instance_id event,
                         shared_lock_data = \<lparr>lock_data = event_new_data event,
                           completed_encounters_mask =
                             (case completed_encounter_bit event of None \<Rightarrow> completed_encounters_mask d
                              | Some b \<Rightarrow> completed_encounters_mask d OR encounter_bit b),
                           entrance_world_safe_loc_id =
                             (case event_entrance_world_safe_loc_id event of None \<Rightarrow> entrance_world_safe_loc_id d
                              | Some e \<Rightarrow> e)\<rparr>\<rparr>
               in (Some s1, m\<lparr>shared_heap := hm_insert a s1 (shared_heap m)\<rparr>))))"

definition update_shared_instance_lock_with_persistence ::
  "nat list \<Rightarrow> InstanceLockPersistenceMutationLikeCpp list \<Rightarrow> InstanceLockUpdateEvent \<Rightarrow> InstanceLockMgr
     \<Rightarrow> SharedInstanceLockData option \<times> InstanceLockPersistenceMutationLikeCpp list \<times> InstanceLockMgr" where
  "update_shared_instance_lock_with_persistence held plan event m =
     (case update_shared_instance_lock held event m of
        (None, m1) \<Rightarrow> (None, plan, m1)
      | (Some s, m1) \<Rightarrow>
          (Some s, plan @ [delete_instance_mutation (shared_instance_id s), insert_instance_mutation s], m1))"

definition cleanup_unreferenced_shared_instance_lock_data_like_cpp ::
  "nat list \<Rightarrow> u32 \<Rightarrow> InstanceLockMgr \<Rightarrow> InstanceLockPersistenceMutationLikeCpp option \<times> InstanceLockMgr" where
  "cleanup_unreferenced_shared_instance_lock_data_like_cpp held iid m =
     (case hm_get (instance_lock_data_by_id m) iid of None \<Rightarrow> (None, m)
      | Some a \<Rightarrow>
          (if upgrade held m a \<noteq> None then (None, m)
           else (Some (delete_instance_mutation iid),
                 m\<lparr>instance_lock_data_by_id := hm_remove iid (instance_lock_data_by_id m)\<rparr>)))"

definition update_instance_lock_extension_for_player_at ::
  "ObjectGuid \<Rightarrow> MapDb2Entries \<Rightarrow> bool \<Rightarrow> ResetSchedule \<Rightarrow> InstanceResetTime \<Rightarrow> InstanceLockMgr
     \<Rightarrow> (InstanceResetTime \<times> InstanceResetTime) option \<times> InstanceLockMgr" where
  "update_instance_lock_extension_for_player_at player entries extended schedule now m =
     (case player_lock (instance_locks_by_player m) player (lock_key entries) of None \<Rightarrow> (None, m)
      | Some lock \<Rightarrow>
          (if \<not> lock_active_at lock now then (None, m)
           else
            (let old_expiry = effective_expiry_time_at lock entries schedule now;
                 lock1 = lock\<lparr>il_extended := extended\<rparr>;
                 new_expiry = effective_expiry_time_at lock1 entries schedule now
             in (Some (old_expiry, new_expiry),
                 m\<lparr>instance_locks_by_player :=
                     put_lock player (lock_key entries) lock1 (instance_locks_by_player m)\<rparr>))))"

definition update_instance_lock_extension_for_player_with_persistence_at ::
  "InstanceLockPersistenceMutationLikeCpp list \<Rightarrow> ObjectGuid \<Rightarrow> MapDb2Entries \<Rightarrow> bool \<Rightarrow> ResetSchedule
     \<Rightarrow> InstanceResetTime \<Rightarrow> InstanceLockMgr
     \<Rightarrow> (InstanceResetTime \<times> InstanceResetTime) option \<times> InstanceLockPersistenceMutationLikeCpp list \<times> InstanceLockMgr" where
  "update_instance_lock_extension_for_player_with_persistence_at plan player entries extended schedule now m =
     (case update_instance_lock_extension_for_player_at player entries extended schedule now m of
        (None, m1) \<Rightarrow> (None, plan, m1)
      | (Some expiries, m1) \<Rightarrow>
          (Some expiries, plan @ [update_character_instance_lock_extension_mutation player entries extended], m1))"

text \<open>The loop over the locks of a player, in the iteration order of the map.\<close>

definition resettable :: "u32 option \<Rightarrow> u8 option \<Rightarrow> InstanceResetTime \<Rightarrow> InstanceLock \<Rightarrow> bool" where
  "resettable map_filter difficulty_filter now lock =
     ((case map_filter of None \<Rightarrow> True | Some expected \<Rightarrow> expected = il_map_id lock) \<and>
      (case difficulty_filter of None \<Rightarrow> True | Some expected \<Rightarrow> expected = il_difficulty_id lock) \<and>
      \<not> is_expired_at lock now)"

definition force_expired :: "MapDb2Entries \<Rightarrow> ResetSchedule \<Rightarrow> InstanceResetTime \<Rightarrow> InstanceLock \<Rightarrow> InstanceLock" where
  "force_expired entries schedule now lock =
     lock\<lparr>il_expiry_time := next_reset_time_at entries schedule now - raid_duration_secs (db2_reset_interval entries),
          il_extended := False\<rparr>"

fun reset_locks_loop ::
  "u32 option \<Rightarrow> u8 option \<Rightarrow> (InstanceLockKey, MapDb2Entries) hash_map \<Rightarrow> ResetSchedule \<Rightarrow> InstanceResetTime
     \<Rightarrow> player_locks \<Rightarrow> InstanceLockResetResult \<times> player_locks" where
  "reset_locks_loop mf df entries_by_key schedule now [] = (\<lparr>reset_locks = [], failed_to_reset = []\<rparr>, [])"
| "reset_locks_loop mf df entries_by_key schedule now ((key, lock) # rest) =
     (case reset_locks_loop mf df entries_by_key schedule now rest of
        (result, rest1) \<Rightarrow>
          (if \<not> resettable mf df now lock then (result, (key, lock) # rest1)
           else if il_is_in_use lock
           then (result\<lparr>failed_to_reset := lock # failed_to_reset result\<rparr>, (key, lock) # rest1)
           else (case hm_get entries_by_key key of None \<Rightarrow> (result, (key, lock) # rest1)
                 | Some entries \<Rightarrow>
                    (let lock1 = force_expired entries schedule now lock
                     in (result\<lparr>reset_locks := lock1 # reset_locks result\<rparr>, (key, lock1) # rest1)))))"

definition reset_instance_locks_for_player_at ::
  "ObjectGuid \<Rightarrow> u32 option \<Rightarrow> u8 option \<Rightarrow> (InstanceLockKey, MapDb2Entries) hash_map \<Rightarrow> ResetSchedule
     \<Rightarrow> InstanceResetTime \<Rightarrow> InstanceLockMgr \<Rightarrow> InstanceLockResetResult \<times> InstanceLockMgr" where
  "reset_instance_locks_for_player_at player mf df entries_by_key schedule now m =
     (case hm_get (instance_locks_by_player m) player of
        None \<Rightarrow> (\<lparr>reset_locks = [], failed_to_reset = []\<rparr>, m)
      | Some ls \<Rightarrow>
          (case reset_locks_loop mf df entries_by_key schedule now ls of
             (result, ls1) \<Rightarrow>
               (result, m\<lparr>instance_locks_by_player := hm_insert player ls1 (instance_locks_by_player m)\<rparr>)))"

definition force_expire_mutations ::
  "ObjectGuid \<Rightarrow> (InstanceLockKey, MapDb2Entries) hash_map \<Rightarrow> InstanceLock list
     \<Rightarrow> InstanceLockPersistenceMutationLikeCpp list" where
  "force_expire_mutations player entries_by_key locks =
     concat (map (\<lambda>lock.
       (case find (\<lambda>entries. db2_map_id entries = il_map_id lock \<and> db2_difficulty_id entries = il_difficulty_id lock)
               (hm_values entries_by_key) of
          None \<Rightarrow> []
        | Some entries \<Rightarrow> [force_expire_character_instance_lock_mutation player entries (il_expiry_time lock)])) locks)"

definition reset_instance_locks_for_player_with_persistence_at ::
  "InstanceLockPersistenceMutationLikeCpp list \<Rightarrow> ObjectGuid \<Rightarrow> u32 option \<Rightarrow> u8 option
     \<Rightarrow> (InstanceLockKey, MapDb2Entries) hash_map \<Rightarrow> ResetSchedule \<Rightarrow> InstanceResetTime \<Rightarrow> InstanceLockMgr
     \<Rightarrow> InstanceLockResetResult \<times> InstanceLockPersistenceMutationLikeCpp list \<times> InstanceLockMgr" where
  "reset_instance_locks_for_player_with_persistence_at plan player mf df entries_by_key schedule now m =
     (case reset_instance_locks_for_player_at player mf df entries_by_key schedule now m of
        (result, m1) \<Rightarrow> (result, plan @ force_expire_mutations player entries_by_key (reset_locks result), m1))"

definition lock_statistics :: "InstanceLockMgr \<Rightarrow> InstanceLocksStatistics" where
  "lock_statistics m =
     \<lparr>instance_count = of_nat (length (instance_lock_data_by_id m)),
      player_count = of_nat (length (instance_locks_by_player m))\<rparr>"

definition registered_instance_ids_like_cpp_order :: "InstanceLockMgr \<Rightarrow> u32 list" where
  "registered_instance_ids_like_cpp_order m =
     (if loaded_character_instance_ids_like_cpp m \<noteq> []
      then remdups_adj (sort (loaded_character_instance_ids_like_cpp m))
      else remdups_adj (sort (concat (map (\<lambda>locks. map il_instance_id (hm_values locks))
             (hm_values (instance_locks_by_player m))))))"

end
