(* ===== verification/InstanceLockLaws.thy ===== *)
theory InstanceLockLaws
  imports InstanceLockOps
begin

text \<open>
  What the instance-lock manager guarantees: reset times are the next ones of the schedule, and an
  update leaves the player with a running lock that remembers every completed encounter.  Loaded
  locks, however, are filed under identifiers no player has.
\<close>

section \<open>Reset times\<close>

lemma stamp_after:
  fixes now h d :: nat
  assumes "h < 24"
  shows "now < d * 86400 + h * 3600 \<longleftrightarrow>
         (if h \<le> now mod 86400 div 3600 then now div 86400 + 1 else now div 86400) \<le> d"
proof -
  define q r s where "q = now div 86400" and "r = now mod 86400" and "s = h * 3600"
  have n: "now = q * 86400 + r" and r: "r < 86400" unfolding q_def r_def by simp_all
  have s: "s < 86400" using assms unfolding s_def by simp
  have hour: "h \<le> r div 3600 \<longleftrightarrow> s \<le> r"
    unfolding s_def by (simp add: less_eq_div_iff_mult_less_eq)
  have "now < d * 86400 + s \<longleftrightarrow> (if s \<le> r then q + 1 else q) \<le> d"
    unfolding n using r s by auto
  then show ?thesis unfolding hour [symmetric, unfolded r_def] q_def [symmetric] s_def [symmetric]
    using hour unfolding r_def s_def by simp
qed

text \<open>The instants of a schedule: the full hour on every day, or on the week day; 1970 began on a Thursday.\<close>

definition reset_instant :: "MapDb2Entries \<Rightarrow> ResetSchedule \<Rightarrow> nat \<Rightarrow> bool" where
  "reset_instant entries schedule t \<longleftrightarrow>
     t mod 86400 = unat (reset_hour schedule) * 3600 \<and>
     (db2_reset_interval entries = Weekly \<longrightarrow> (t div 86400 + 4) mod 7 = unat (reset_week_day schedule))"

definition schedule_ok :: "ResetSchedule \<Rightarrow> bool" where
  "schedule_ok schedule \<longleftrightarrow> reset_hour schedule < 24 \<and> reset_week_day schedule < 7"

lemma reset_stamp_unat:
  assumes "d < 2 ^ 40" "h < 24"
  shows "unat (reset_stamp (int d) (int h)) = d * 86400 + h * 3600"
proof -
  have "reset_stamp (int d) (int h) = of_nat (d * 86400 + h * 3600)" by (simp add: reset_stamp_def)
  moreover have "d * 86400 + h * 3600 < 2 ^ 64" using assms by simp
  ultimately show ?thesis by (simp add: unat_of_nat take_bit_eq_mod del: of_nat_add of_nat_mult)
qed

lemma least_instant:
  fixes K N :: nat
  assumes h: "h < 24" and K: "\<And>d. now < d * 86400 + h * 3600 \<longleftrightarrow> K \<le> d"
    and N: "K \<le> N" "P N" and least: "\<And>d. K \<le> d \<Longrightarrow> P d \<Longrightarrow> N \<le> d"
  shows "(LEAST t. now < t \<and> t mod 86400 = h * 3600 \<and> P (t div 86400)) = N * 86400 + h * 3600"
    and "now < N * 86400 + h * 3600"
proof -
  show "now < N * 86400 + h * 3600" using K [of N] N by simp
  show "(LEAST t. now < t \<and> t mod 86400 = h * 3600 \<and> P (t div 86400)) = N * 86400 + h * 3600"
  proof (rule Least_equality)
    have s: "h * 3600 < 86400" using h by simp
    then show "now < N * 86400 + h * 3600 \<and> (N * 86400 + h * 3600) mod 86400 = h * 3600 \<and>
        P ((N * 86400 + h * 3600) div 86400)" using K [of N] N by simp
    fix t assume t: "now < t \<and> t mod 86400 = h * 3600 \<and> P (t div 86400)"
    have e: "t = t div 86400 * 86400 + h * 3600" using t by (metis div_mult_mod_eq)
    then have "K \<le> t div 86400" using K [of "t div 86400"] t by simp
    then have "N \<le> t div 86400" using least t by simp
    with e show "N * 86400 + h * 3600 \<le> t" by linarith
  qed
qed

lemma weekly_day:
  fixes q w K N :: nat
  assumes w: "w < 7" and K: "K = (if past then q + 1 else q)"
    and N: "int N = int q + (let adjust = int w - (int q + 4) mod 7
              in if (int q + 4) mod 7 > int w \<or> ((int q + 4) mod 7 = int w \<and> past) then adjust + 7 else adjust)"
  shows "K \<le> N" and "(N + 4) mod 7 = w" and "\<And>d. K \<le> d \<Longrightarrow> (d + 4) mod 7 = w \<Longrightarrow> N \<le> d"
    and "N < q + 14"
proof -
  define x where "x = (q + 4) mod 7"
  have x: "(int q + 4) mod 7 = int x" "x < 7" unfolding x_def by (simp_all add: zmod_int)
  have q: "q + 4 = (q + 4) div 7 * 7 + x" unfolding x_def by simp
  have n: "N + x = q + w + (if x > w \<or> (x = w \<and> past) then 7 else 0)"
    using N unfolding x(1) Let_def by (auto split: if_splits)
  show "K \<le> N" "N < q + 14" using n x(2) w unfolding K by (auto split: if_splits)
  have "N + 4 = ((q + 4) div 7 + (if x > w \<or> (x = w \<and> past) then 1 else 0)) * 7 + w"
    using n q by (auto split: if_splits)
  then show "(N + 4) mod 7 = w" using mod_less [OF w] by (simp only: mod_mult_self3)
  fix d assume d: "K \<le> d" "(d + 4) mod 7 = w"
  have e: "d + 4 = (d + 4) div 7 * 7 + w" using d(2) by (metis div_mult_mod_eq)
  show "N \<le> d"
  proof (cases "x > w \<or> (x = w \<and> past)")
    case True
    have "q + 4 \<le> d + 4" using d(1) K by (auto split: if_splits)
    then have "(q + 4) div 7 \<le> (d + 4) div 7" by (rule div_le_mono)
    moreover have "(q + 4) div 7 \<noteq> (d + 4) div 7" using True e q d(1) K by (auto split: if_splits)
    ultimately have "((q + 4) div 7 + 1) * 7 \<le> (d + 4) div 7 * 7" by (intro mult_le_mono1) simp
    then show ?thesis using True n e q by (auto split: if_splits)
  next
    case False
    have "q + 4 \<le> d + 4" using d(1) K by (auto split: if_splits)
    then have "(q + 4) div 7 * 7 \<le> (d + 4) div 7 * 7" by (intro mult_le_mono1 div_le_mono)
    then show ?thesis using False n e q by (auto split: if_splits)
  qed
qed

lemma reset_fields:
  fixes now :: u64
  shows "uint (now div 86400) = int (unat now div 86400)"
    and "uint (now mod 86400 div 3600) = int (unat now mod 86400 div 3600)"
  by (simp_all only: uint_nat unat_div unat_mod) simp_all

lemma next_reset_least:
  assumes sched: "has_reset_schedule entries" and ok: "schedule_ok schedule" and bound: "unat now < 2 ^ 56"
  shows "unat (next_reset_time_at entries schedule now) =
         (LEAST t. unat now < t \<and> reset_instant entries schedule t)"
    and "now < next_reset_time_at entries schedule now"
proof -
  define h q where "h = unat (reset_hour schedule)" and "q = unat now div 86400"
  define past where "past \<longleftrightarrow> h \<le> unat now mod 86400 div 3600"
  define K where "K = (if past then q + 1 else q)"
  have h: "h < 24" using ok by (simp add: schedule_ok_def h_def word_less_nat_alt)
  have q: "q < 2 ^ 40 - 14" using bound unfolding q_def by simp
  have K: "unat now < d * 86400 + h * 3600 \<longleftrightarrow> K \<le> d" for d
    using stamp_after [OF h, of "unat now" d] by (simp add: K_def past_def q_def)
  have hour: "uint (reset_hour schedule) = int h" unfolding h_def by (rule uint_nat)
  have day_of: "uint (now div 86400) = int q" unfolding q_def by (rule reset_fields)
  have past_iff: "uint (now mod 86400 div 3600) \<ge> uint (reset_hour schedule) \<longleftrightarrow> past"
    unfolding past_def reset_fields hour by simp
  consider "db2_reset_interval entries = Daily" | "db2_reset_interval entries = Weekly"
    using sched by (cases "db2_reset_interval entries") (simp_all add: has_reset_schedule_def)
  then have "unat (next_reset_time_at entries schedule now) =
         (LEAST t. unat now < t \<and> reset_instant entries schedule t) \<and>
         unat now < unat (next_reset_time_at entries schedule now)"
  proof cases
    case 1
    have "next_reset_time_at entries schedule now = reset_stamp (int K) (int h)"
      using 1 sched past_iff by (simp add: next_reset_time_at_def Let_def K_def hour day_of add.commute)
    then have "unat (next_reset_time_at entries schedule now) = K * 86400 + h * 3600"
      using reset_stamp_unat [of K h] q h by (simp add: K_def split: if_splits)
    then show ?thesis using 1 least_instant [OF h K, where N = K and P = "\<lambda>_. True"]
      by (simp add: reset_instant_def h_def)
  next
    case 2
    define w where "w = unat (reset_week_day schedule)"
    have week: "uint (reset_week_day schedule) = int w" unfolding w_def by (rule uint_nat)
    have w: "w < 7" using ok by (simp add: schedule_ok_def w_def word_less_nat_alt)
    define z where "z = int q + (let adjust = int w - (int q + 4) mod 7
              in if (int q + 4) mod 7 > int w \<or> ((int q + 4) mod 7 = int w \<and> past) then adjust + 7 else adjust)"
    define N where "N = nat z"
    have z: "0 \<le> z" unfolding z_def Let_def using w by (auto split: if_splits)
    then have N: "int N = z" by (simp add: N_def)
    note day = weekly_day [OF w K_def N [unfolded z_def]]
    have "next_reset_time_at entries schedule now = reset_stamp z (int h)"
      using 2 sched past_iff
      by (simp add: next_reset_time_at_def Let_def z_def hour day_of week)
    then have "unat (next_reset_time_at entries schedule now) = N * 86400 + h * 3600"
      using reset_stamp_unat [of N h] q h day(4) by (simp add: N [symmetric])
    then show ?thesis using 2 least_instant [OF h K day(1), where P = "\<lambda>d. (d + 4) mod 7 = w"] day(2,3)
      by (simp add: reset_instant_def h_def w_def)
  qed
  then show "unat (next_reset_time_at entries schedule now) =
         (LEAST t. unat now < t \<and> reset_instant entries schedule t)"
    and "now < next_reset_time_at entries schedule now"
    by (simp_all add: word_less_nat_alt)
qed

text \<open>
  C12: The next reset time, computed from the day and the hour with separate cases for the
  weekly schedule, is the first instant of the schedule after the current time: never now or
  earlier, and no reset is skipped.
\<close>

theorem next_reset_is_first_instant:
  assumes "has_reset_schedule entries" "schedule_ok schedule" "unat now < 2 ^ 56"
  shows "unat (next_reset_time_at entries schedule now) =
         (LEAST t. unat now < t \<and> reset_instant entries schedule t)"
  using assms by (rule next_reset_least)

definition weekly_raid :: MapDb2Entries where
  "weekly_raid = \<lparr>db2_map_id = 631, db2_difficulty_id = 4, db2_lock_id = 7, db2_reset_interval = Weekly,
     db2_max_players = 25, db2_is_flex_locking = False, db2_is_using_encounter_locks = False\<rparr>"

theorem next_reset_is_first_instant_witness:
  "unat (next_reset_time_at weekly_raid ResetSchedule_default 1700000000) =
   (LEAST t. unat (1700000000 :: u64) < t \<and> reset_instant weekly_raid ResetSchedule_default t)"
  by (rule next_reset_is_first_instant)
    (simp_all add: has_reset_schedule_def weekly_raid_def schedule_ok_def ResetSchedule_default_def)

section \<open>Looking locks up\<close>

lemma player_lock_put [simp]:
  "player_lock (put_lock p k lock locks) p' k' = (if p' = p \<and> k' = k then Some lock else player_lock locks p' k')"
  by (simp add: player_lock_def put_lock_def update_conv' split: option.split)

lemma player_lock_remove [simp]:
  "player_lock (hm_modify p (hm_remove k) locks) p' k' =
     (if p' = p \<and> k' = k then None else player_lock locks p' k')"
  by (auto simp: player_lock_def delete_conv' split: option.split)

lemma player_lock_drop [simp]:
  "hm_get locks p = Some [] \<Longrightarrow> player_lock (hm_remove p locks) p' k' = player_lock locks p' k'"
  by (simp add: player_lock_def delete_conv')

text \<open>What the two halves of an update leave in the maps.\<close>

lemma promote_temporary_locks:
  "player_lock (instance_locks_by_player (promote_temporary player key m)) p k =
     (if p = player \<and> k = key then player_lock (temporary_instance_locks_by_player m) player key
      else player_lock (instance_locks_by_player m) p k)"
  "player_lock (temporary_instance_locks_by_player (promote_temporary player key m)) p k =
     (if p = player \<and> k = key then None else player_lock (temporary_instance_locks_by_player m) p k)"
  by (auto simp: promote_temporary_def Let_def split: option.split)

definition fresh_lock :: "MapDb2Entries \<Rightarrow> u32 \<Rightarrow> ResetSchedule \<Rightarrow> InstanceResetTime \<Rightarrow> nat option \<Rightarrow> InstanceLock" where
  "fresh_lock entries iid schedule now shared =
     (InstanceLock_new (db2_map_id entries) (db2_difficulty_id entries) (next_reset_time_at entries schedule now) iid)
       \<lparr>il_shared_data := shared\<rparr>"

lemma create_missing_locks:
  "temporary_instance_locks_by_player (create_missing_lock held player entries iid schedule now m) =
     temporary_instance_locks_by_player m"
  "\<exists>shared. \<forall>p k. player_lock (instance_locks_by_player (create_missing_lock held player entries iid schedule now m)) p k =
     (if p = player \<and> k = lock_key entries \<and> player_lock (instance_locks_by_player m) p k = None
      then Some (fresh_lock entries iid schedule now shared)
      else player_lock (instance_locks_by_player m) p k)"
  by (auto simp: create_missing_lock_def Let_def alloc_shared_def fresh_lock_def InstanceLock_new_shared_def
      InstanceLock_new_def split: option.split)

text \<open>The lock an update starts from: the running one, else the temporary one, else a new one.\<close>

definition update_base ::
  "MapDb2Entries \<Rightarrow> u32 \<Rightarrow> ResetSchedule \<Rightarrow> InstanceResetTime \<Rightarrow> ObjectGuid \<Rightarrow> InstanceLockMgr \<Rightarrow> nat option \<Rightarrow> InstanceLock"
where
  "update_base entries iid schedule now player m shared =
     (case player_lock (instance_locks_by_player m) player (lock_key entries) of
        Some lock \<Rightarrow> if lock_active_at lock now then lock
          else (case player_lock (temporary_instance_locks_by_player m) player (lock_key entries) of
                  Some temp \<Rightarrow> temp | None \<Rightarrow> fresh_lock entries iid schedule now shared)
      | None \<Rightarrow> (case player_lock (temporary_instance_locks_by_player m) player (lock_key entries) of
                  Some temp \<Rightarrow> temp | None \<Rightarrow> fresh_lock entries iid schedule now shared))"

lemma update_locks:
  fixes event :: InstanceLockUpdateEvent
  assumes "has_reset_schedule entries"
  obtains shared lock m' where
    "update_instance_lock_for_player_at held player entries event schedule now m = (Some lock, m')"
    "lock = apply_update_event entries event schedule now
       (update_base entries (event_instance_id event) schedule now player m shared)"
    "\<And>p k. player_lock (instance_locks_by_player m') p k =
       (if p = player \<and> k = lock_key entries then Some lock else player_lock (instance_locks_by_player m) p k)"
    "\<And>p k. player_lock (temporary_instance_locks_by_player m') p k =
       (if p = player \<and> k = lock_key entries \<and>
           \<not> (\<exists>l. player_lock (instance_locks_by_player m) p k = Some l \<and> lock_active_at l now)
        then None else player_lock (temporary_instance_locks_by_player m) p k)"
proof -
  define key where "key = lock_key entries"
  define active where "active = (case player_lock (instance_locks_by_player m) player key of None \<Rightarrow> False
                      | Some lock \<Rightarrow> lock_active_at lock now)"
  define m1 where "m1 = (if active then m else promote_temporary player key m)"
  define m2 where "m2 = create_missing_lock held player entries (event_instance_id event) schedule now m1"
  obtain shared where m2: "player_lock (instance_locks_by_player m2) p k =
     (if p = player \<and> k = key \<and> player_lock (instance_locks_by_player m1) p k = None
      then Some (fresh_lock entries (event_instance_id event) schedule now shared)
      else player_lock (instance_locks_by_player m1) p k)" for p k
    using create_missing_locks(2) unfolding m2_def key_def by metis
  let ?base = "update_base entries (event_instance_id event) schedule now player m shared"
  have base: "player_lock (instance_locks_by_player m2) player key = Some ?base"
    by (auto simp: m2 m1_def promote_temporary_locks active_def update_base_def key_def split: option.splits)
  have frame: "player_lock (instance_locks_by_player m2) p k = player_lock (instance_locks_by_player m) p k"
    if "p \<noteq> player \<or> k \<noteq> key" for p k
    using that by (auto simp: m2 m1_def promote_temporary_locks)
  have temp: "player_lock (temporary_instance_locks_by_player m2) p k =
       (if p = player \<and> k = key \<and> \<not> (\<exists>l. player_lock (instance_locks_by_player m) p k = Some l \<and> lock_active_at l now)
        then None else player_lock (temporary_instance_locks_by_player m) p k)" for p k
    by (auto simp: m2_def m1_def create_missing_locks promote_temporary_locks active_def split: option.splits)
  let ?lock = "apply_update_event entries event schedule now ?base"
  have "update_instance_lock_for_player_at held player entries event schedule now m =
      (Some ?lock, m2\<lparr>instance_locks_by_player := put_lock player key ?lock (instance_locks_by_player m2)\<rparr>)"
    using assms base unfolding update_instance_lock_for_player_at_def Let_def m2_def m1_def active_def key_def by simp
  then show thesis
    by (rule that) (auto simp: frame temp key_def [symmetric])
qed

lemma update_base_active:
  "find_active_instance_lock_at m player entries now = Some old \<Longrightarrow>
   update_base entries iid schedule now player m shared = old"
  by (auto simp: find_active_instance_lock_at_def find_active_instance_lock_inner_def update_base_def
      lock_active_at_def split: option.splits if_splits)

lemma update_base_none:
  "has_reset_schedule entries \<Longrightarrow> find_active_instance_lock_at m player entries now = None \<Longrightarrow>
   update_base entries iid schedule now player m shared = fresh_lock entries iid schedule now shared"
  by (auto simp: find_active_instance_lock_at_def find_active_instance_lock_inner_def update_base_def
      lock_active_at_def split: option.splits if_splits)

lemma mask_or_keeps:
  fixes a b c :: u32
  shows "a AND NOT a AND b = 0" "a AND (NOT a AND b) AND c = 0" "b AND (a OR b) = b" "b AND ((a OR b) OR c) = b"
  by (auto simp: bit_eq_iff bit_simps)

lemma apply_update_event_sel:
  "il_instance_id (apply_update_event entries event schedule now base) = event_instance_id event"
  "lock_data (il_data (apply_update_event entries event schedule now base)) = event_new_data event"
  "\<not> il_is_new (apply_update_event entries event schedule now base)"
  "il_expiry_time (apply_update_event entries event schedule now base) =
     (if is_expired_at base now then next_reset_time_at entries schedule now else il_expiry_time base)"
  "il_extended (apply_update_event entries event schedule now base) = (\<not> is_expired_at base now \<and> il_extended base)"
  "il_map_id (apply_update_event entries event schedule now base) = il_map_id base"
  "il_difficulty_id (apply_update_event entries event schedule now base) = il_difficulty_id base"
  "completed_encounters_mask (il_data (apply_update_event entries event schedule now base)) =
     (case completed_encounter_bit event of None \<Rightarrow> completed_encounters_mask (il_data base)
      | Some b \<Rightarrow> completed_encounters_mask (il_data base) OR encounter_bit b) OR
     (if db2_is_using_encounter_locks entries then 0 else instance_completed_encounters_mask event)"
  by (simp_all add: apply_update_event_def Let_def is_expired_at_def split: option.split)

text \<open>
  C11: An update of a player's instance lock returns the lock the player has from then on: it
  is running and no longer new, is bound to the event's instance and carries its data, its
  encounter is marked, and no encounter completed in the lock the player had is forgotten.
  A lock that had not expired keeps its expiry time and its extension, any other runs until
  the next reset.  No lock of another player, map or lock group changes.
\<close>

theorem update_keeps_progress:
  assumes "has_reset_schedule entries" "schedule_ok schedule" "unat now < 2 ^ 56"
  shows "\<exists>lock m'.
     update_instance_lock_for_player_at held player entries event schedule now m = (Some lock, m') \<and>
     find_active_instance_lock_at m' player entries now = Some lock \<and>
     \<not> is_expired_at lock now \<and> \<not> il_is_new lock \<and>
     il_instance_id lock = event_instance_id event \<and> lock_data (il_data lock) = event_new_data event \<and>
     (\<forall>b. completed_encounter_bit event = Some b \<longrightarrow>
        encounter_bit b AND completed_encounters_mask (il_data lock) = encounter_bit b) \<and>
     (\<forall>old. find_active_instance_lock_at m player entries now = Some old \<longrightarrow>
        completed_encounters_mask (il_data old) AND NOT (completed_encounters_mask (il_data lock)) = 0) \<and>
     (case find_active_instance_lock_at m player entries now of
        Some old \<Rightarrow> if is_expired_at old now
          then il_expiry_time lock = next_reset_time_at entries schedule now \<and> \<not> il_extended lock
          else il_expiry_time lock = il_expiry_time old \<and> il_extended lock = il_extended old
      | None \<Rightarrow> il_expiry_time lock = next_reset_time_at entries schedule now \<and> \<not> il_extended lock) \<and>
     (\<forall>p k. p \<noteq> player \<or> k \<noteq> lock_key entries \<longrightarrow>
        player_lock (instance_locks_by_player m') p k = player_lock (instance_locks_by_player m) p k \<and>
        player_lock (temporary_instance_locks_by_player m') p k = player_lock (temporary_instance_locks_by_player m) p k)"
proof -
  obtain shared lock m' where u:
    "update_instance_lock_for_player_at held player entries event schedule now m = (Some lock, m')"
    and lock: "lock = apply_update_event entries event schedule now
       (update_base entries (event_instance_id event) schedule now player m shared)" (is "_ = apply_update_event _ _ _ _ ?base")
    and perm: "\<And>p k. player_lock (instance_locks_by_player m') p k =
       (if p = player \<and> k = lock_key entries then Some lock else player_lock (instance_locks_by_player m) p k)"
    and temp: "\<And>p k. player_lock (temporary_instance_locks_by_player m') p k =
       (if p = player \<and> k = lock_key entries \<and>
           \<not> (\<exists>l. player_lock (instance_locks_by_player m) p k = Some l \<and> lock_active_at l now)
        then None else player_lock (temporary_instance_locks_by_player m) p k)"
    by (rule update_locks [OF assms(1), of held player event schedule now m]) (rule that; assumption)
  note later = next_reset_least(2) [OF assms]
  have fields: "il_instance_id lock = event_instance_id event" "lock_data (il_data lock) = event_new_data event"
      "\<not> il_is_new lock" "\<not> is_expired_at lock now"
      "il_expiry_time lock = (if is_expired_at ?base now then next_reset_time_at entries schedule now else il_expiry_time ?base)"
      "il_extended lock = (\<not> is_expired_at ?base now \<and> il_extended ?base)"
    using later unfolding lock is_expired_at_def apply_update_event_sel by (auto simp: apply_update_event_sel)
  have bits: "encounter_bit b AND completed_encounters_mask (il_data lock) = encounter_bit b"
    if "completed_encounter_bit event = Some b" for b
    using that unfolding lock by (simp add: apply_update_event_sel mask_or_keeps)
  have kept: "completed_encounters_mask (il_data ?base) AND NOT (completed_encounters_mask (il_data lock)) = 0"
    unfolding lock by (simp add: apply_update_event_sel mask_or_keeps split: option.split)
  have find: "find_active_instance_lock_at m' player entries now = Some lock"
    using assms(1) fields(4) by (simp add: find_active_instance_lock_at_def find_active_instance_lock_inner_def perm)
  show ?thesis
  proof (cases "find_active_instance_lock_at m player entries now")
    case None
    then have "?base = fresh_lock entries (event_instance_id event) schedule now shared"
      using assms(1) by (simp add: update_base_none)
    then have "il_expiry_time ?base = next_reset_time_at entries schedule now" "\<not> il_extended ?base"
      by (simp_all add: fresh_lock_def InstanceLock_new_def)
    with None u find fields bits perm temp show ?thesis by auto
  next
    case (Some old)
    then have "?base = old" by (rule update_base_active)
    with Some u find fields bits kept perm temp show ?thesis by auto
  qed
qed

definition saved_lock :: InstanceLock where
  "saved_lock = (InstanceLock_new 631 4 1700100000 77)
     \<lparr>il_data := \<lparr>lock_data = ''saved'', completed_encounters_mask = 5, entrance_world_safe_loc_id = 0\<rparr>\<rparr>"

definition saved_manager :: InstanceLockMgr where
  "saved_manager = InstanceLockMgr_default
     \<lparr>instance_locks_by_player := put_lock (create_player 1 42) (631, 7) saved_lock []\<rparr>"

definition second_boss :: InstanceLockUpdateEvent where
  "second_boss = \<lparr>event_instance_id = 77, event_new_data = ''second'', instance_completed_encounters_mask = 2,
     completed_encounter_bit = Some 1, event_entrance_world_safe_loc_id = None\<rparr>"

lemma saved_lock_active:
  "find_active_instance_lock_at saved_manager (create_player 1 42) weekly_raid 1700000000 = Some saved_lock"
  by (simp add: find_active_instance_lock_at_def find_active_instance_lock_inner_def saved_manager_def
      InstanceLockMgr_default_def weekly_raid_def has_reset_schedule_def lock_key_def saved_lock_def
      InstanceLock_new_def is_expired_at_def)

theorem update_keeps_progress_witness:
  "\<exists>lock m'.
     update_instance_lock_for_player_at [] (create_player 1 42) weekly_raid second_boss ResetSchedule_default 1700000000
       saved_manager = (Some lock, m') \<and>
     il_expiry_time lock = 1700100000 \<and> lock_data (il_data lock) = ''second'' \<and>
     5 AND NOT (completed_encounters_mask (il_data lock)) = 0"
proof -
  have h: "has_reset_schedule weekly_raid" "schedule_ok ResetSchedule_default" "unat (1700000000 :: u64) < 2 ^ 56"
    by (simp_all add: has_reset_schedule_def weekly_raid_def schedule_ok_def ResetSchedule_default_def)
  have e: "\<not> is_expired_at saved_lock 1700000000" "il_expiry_time saved_lock = 1700100000"
    "completed_encounters_mask (il_data saved_lock) = 5" "event_new_data second_boss = ''second''"
    by (simp_all add: saved_lock_def InstanceLock_new_def is_expired_at_def second_boss_def)
  show ?thesis
    using update_keeps_progress [OF h, of "[]" "create_player 1 42" second_boss saved_manager]
    unfolding saved_lock_active by (fastforce simp: e)
qed

section \<open>Loaded locks\<close>

lemma realm_field: "realm_id (ObjectGuid (high_bits t OR push_bit 42 (ucast r AND 0x1FFF)) c) = r AND 0x1FFF"
  unfolding realm_id_def
  by (rule bit_word_eqI) (auto simp: bit_field_simps dest: bit_imp_le_length)

lemma realm_id_create_player: "realm_id (create_player r c) = r AND 0x1FFF"
  unfolding create_player_def by (rule realm_field)

lemma realm_id_create_global: "realm_id (create_global HgPlayer 0 c) = 0"
  using realm_field [of HgPlayer 0 c] by (simp add: create_global_def)

lemma loaded_players:
  "hm_get (instance_locks_by_player (snd (fold (load_character_row entries_for shared) rows acc))) p =
     hm_get (instance_locks_by_player (snd acc)) p" if "realm_id p \<noteq> 0"
proof -
  have "row_player row \<noteq> p" for row
    using that realm_id_create_global [of "crow_player_guid_counter row"] unfolding row_player_def by auto
  then have "hm_get (instance_locks_by_player (snd (load_character_row entries_for shared row acc))) p =
      hm_get (instance_locks_by_player (snd acc)) p" for row acc
    by (auto simp: load_character_row_def Let_def put_lock_def update_conv' split: prod.split option.split)
  then show ?thesis by (induction rows arbitrary: acc) simp_all
qed

lemma loaded_shared:
  "instance_locks_by_player (snd (fold load_shared_row rows acc)) = instance_locks_by_player (snd acc)"
  "temporary_instance_locks_by_player (snd (fold load_shared_row rows acc)) = temporary_instance_locks_by_player (snd acc)"
  by (induction rows arbitrary: acc)
    (simp_all add: load_shared_row_def alloc_shared_def case_prod_unfold)

lemma loaded_temporary:
  "temporary_instance_locks_by_player (snd (fold (load_character_row entries_for shared) rows acc)) =
     temporary_instance_locks_by_player (snd acc)"
  by (induction rows arbitrary: acc)
    (auto simp: load_character_row_def Let_def split: prod.split option.split)

text \<open>
  C13: The locks loaded at start-up are filed under player identifiers with realm 0, while
  sessions identify players with the realm's number.  On any realm whose number is not a
  multiple of 8192, a player therefore has no lock after a restart, whatever the database
  holds: none is found for any map, and the list for the client is empty.
\<close>

theorem loaded_locks_unreachable:
  assumes "realm AND 0x1FFF \<noteq> 0"
  shows "(\<forall>entries now.
       find_active_instance_lock_at (snd (load_from_rows_like_cpp shared_rows rows entries_for m)) (create_player realm c)
         entries now = None) \<and>
     get_instance_locks_for_player (snd (load_from_rows_like_cpp shared_rows rows entries_for m)) (create_player realm c) = []"
proof -
  have r: "realm_id (create_player realm c) \<noteq> 0" using assms by (simp add: realm_id_create_player)
  let ?m = "snd (load_from_rows_like_cpp shared_rows rows entries_for m)"
  have "hm_get (instance_locks_by_player ?m) (create_player realm c) = None"
    and "temporary_instance_locks_by_player ?m = []"
    by (simp_all add: load_from_rows_like_cpp_def Let_def case_prod_unfold loaded_players [OF r] loaded_shared
        loaded_temporary)
  then show ?thesis
    by (simp add: find_active_instance_lock_at_def find_active_instance_lock_inner_def
        get_instance_locks_for_player_def player_lock_def)
qed

definition saved_row :: CharacterInstanceLockRow where
  "saved_row = \<lparr>crow_player_guid_counter = 42, crow_map_id = 631, crow_lock_id = 7, crow_instance_id = 77,
     crow_difficulty_id = 4, crow_data = ''saved'', crow_completed_encounters_mask = 5,
     crow_entrance_world_safe_loc_id = 0, crow_expiry_time = 1700100000, crow_extended = False\<rparr>"

theorem loaded_locks_unreachable_witness:
  "find_active_instance_lock_at
     (snd (load_from_rows_like_cpp [] [saved_row] (\<lambda>_ _. Some (weekly_raid\<lparr>db2_is_flex_locking := True\<rparr>))
        InstanceLockMgr_default))
     (create_player 1 42) weekly_raid 1700000000 = None \<and>
   get_instance_locks_for_player
     (snd (load_from_rows_like_cpp [] [saved_row] (\<lambda>_ _. Some (weekly_raid\<lparr>db2_is_flex_locking := True\<rparr>))
        InstanceLockMgr_default))
     (create_global HgPlayer 0 42) \<noteq> []"
proof
  show "find_active_instance_lock_at
     (snd (load_from_rows_like_cpp [] [saved_row] (\<lambda>_ _. Some (weekly_raid\<lparr>db2_is_flex_locking := True\<rparr>))
        InstanceLockMgr_default))
     (create_player 1 42) weekly_raid 1700000000 = None"
    using loaded_locks_unreachable [where realm = 1 and c = 42] by simp
qed (simp add: load_from_rows_like_cpp_def load_character_row_def Let_def row_entries_def is_instance_id_bound_def
      put_lock_def get_instance_locks_for_player_def row_player_def saved_row_def hm_values_def)

end
