(* ===== verification/MapDifficulty.thy ===== *)
theory MapDifficulty
  imports InstanceLocks
begin

text \<open>
  The difficulties of maps (\<open>crates/wow-data/src/map.rs\<close> and \<open>difficulty.rs\<close>) and the entries
  the instance locks are computed from (\<open>crates/wow-instances/src/instances/state_1.rs\<close>).

  A store is built from the rows of its file.  The loop that follows the fallback difficulties
  may not end, so it is an \<open>option\<close>: \<open>None\<close> is no return.
\<close>

section \<open>Stores\<close>

definition MAP_FLAG_FLEXIBLE_RAID_LOCKING :: u32 where "MAP_FLAG_FLEXIBLE_RAID_LOCKING = 0x8000"
definition MAP_DIFFICULTY_FLAG_USE_LOOT_BASED_LOCK :: u8 where "MAP_DIFFICULTY_FLAG_USE_LOOT_BASED_LOCK = 2"

record MapEntry =
  me_id :: u32
  me_instance_type :: i8
  me_expansion_id :: u8
  me_parent_map_id :: i16
  me_cosmetic_parent_map_id :: i16
  me_flags1 :: u32
  me_flags2 :: u32

definition is_flex_locking :: "MapEntry \<Rightarrow> bool" where
  "is_flex_locking m = (me_flags1 m AND MAP_FLAG_FLEXIBLE_RAID_LOCKING \<noteq> 0)"

type_synonym MapStore = "(u32, MapEntry) hash_map"

definition map_store_from_entries :: "MapEntry list \<Rightarrow> MapStore" where
  "map_store_from_entries rows = fold (\<lambda>row. hm_insert (me_id row) row) rows []"

record MapDifficultyEntry =
  md_id :: u32
  md_message :: string
  md_map_id :: u32
  md_difficulty_id :: u8
  md_lock_id :: u8
  md_reset_interval :: u8
  md_max_players :: u32
  md_flags :: u8

definition is_using_encounter_locks :: "MapDifficultyEntry \<Rightarrow> bool" where
  "is_using_encounter_locks d = (md_flags d AND MAP_DIFFICULTY_FLAG_USE_LOOT_BASED_LOCK \<noteq> 0)"

record MapDifficultyStore =
  md_by_id :: "(u32, MapDifficultyEntry) hash_map"
  by_map_difficulty :: "(u32 \<times> u8, u32) hash_map"

definition map_difficulties_from_entries :: "MapDifficultyEntry list \<Rightarrow> MapDifficultyStore" where
  "map_difficulties_from_entries rows =
     fold (\<lambda>row s. s\<lparr>by_map_difficulty := hm_insert (md_map_id row, md_difficulty_id row) (md_id row) (by_map_difficulty s),
                    md_by_id := hm_insert (md_id row) row (md_by_id s)\<rparr>)
       rows \<lparr>md_by_id = [], by_map_difficulty = []\<rparr>"

definition md_get :: "MapDifficultyStore \<Rightarrow> u32 \<Rightarrow> u8 \<Rightarrow> MapDifficultyEntry option" where
  "md_get s mapid d =
     (case hm_get (by_map_difficulty s) (mapid, d) of None \<Rightarrow> None | Some i \<Rightarrow> hm_get (md_by_id s) i)"

record DifficultyEntry =
  de_id :: u32
  de_instance_type :: u8
  de_flags :: u8
  fallback_difficulty_id :: u8
  toggle_difficulty_id :: u8

type_synonym DifficultyStore = "(u32, DifficultyEntry) hash_map"

definition difficulties_from_entries :: "DifficultyEntry list \<Rightarrow> DifficultyStore" where
  "difficulties_from_entries rows = fold (\<lambda>row. hm_insert (de_id row) row) rows []"

definition difficulties_from_ids :: "u32 list \<Rightarrow> DifficultyStore" where
  "difficulties_from_ids ids =
     difficulties_from_entries (map (\<lambda>i. \<lparr>de_id = i, de_instance_type = 0, de_flags = 0,
       fallback_difficulty_id = 0, toggle_difficulty_id = 0\<rparr>) ids)"

definition fallback_difficulty_id_like_cpp :: "DifficultyStore \<Rightarrow> u8 \<Rightarrow> u8 option" where
  "fallback_difficulty_id_like_cpp ds d = map_option fallback_difficulty_id (hm_get ds (ucast d))"

definition DIFFICULTY_FLAG_DEFAULT :: u8 where "DIFFICULTY_FLAG_DEFAULT = 2"

section \<open>Resolving a difficulty\<close>

text \<open>The loop over the rows of a map, in the iteration order of the index.\<close>

fun default_loop ::
  "(u32 \<Rightarrow> MapDifficultyEntry option) \<Rightarrow> DifficultyStore \<Rightarrow> u32 \<Rightarrow> MapDifficultyEntry option
     \<Rightarrow> ((u32 \<times> u8) \<times> u32) list \<Rightarrow> MapDifficultyEntry option" where
  "default_loop by_id ds mapid fallback [] = fallback"
| "default_loop by_id ds mapid fallback (((entry_map, d), i) # rest) =
     (if entry_map \<noteq> mapid then default_loop by_id ds mapid fallback rest
      else case by_id i of
        None \<Rightarrow> default_loop by_id ds mapid fallback rest
      | Some row \<Rightarrow>
          (let fallback1 = (case fallback of None \<Rightarrow> Some row | Some f \<Rightarrow> Some f)
           in case hm_get ds (ucast d) of
                None \<Rightarrow> default_loop by_id ds mapid fallback1 rest
              | Some difficulty \<Rightarrow>
                  (if de_flags difficulty AND DIFFICULTY_FLAG_DEFAULT = DIFFICULTY_FLAG_DEFAULT then Some row
                   else default_loop by_id ds mapid fallback1 rest)))"

definition default_for_map_like_cpp :: "MapDifficultyStore \<Rightarrow> u32 \<Rightarrow> DifficultyStore \<Rightarrow> MapDifficultyEntry option" where
  "default_for_map_like_cpp s mapid ds = default_loop (hm_get (md_by_id s)) ds mapid None (by_map_difficulty s)"

definition default_result :: "MapDifficultyStore \<Rightarrow> u32 \<Rightarrow> DifficultyStore \<Rightarrow> (MapDifficultyEntry \<times> u8) option" where
  "default_result s mapid ds =
     (case default_for_map_like_cpp s mapid ds of None \<Rightarrow> None | Some row \<Rightarrow> Some (row, md_difficulty_id row))"

partial_function (option) downscale_loop ::
  "MapDifficultyStore \<Rightarrow> u32 \<Rightarrow> DifficultyStore \<Rightarrow> DifficultyEntry \<Rightarrow> u8 \<Rightarrow> (MapDifficultyEntry \<times> u8) option option" where
  "downscale_loop s mapid ds difficulty effective =
     (case md_get s mapid effective of
        Some row \<Rightarrow> Some (Some (row, effective))
      | None \<Rightarrow>
          (case hm_get ds (ucast (fallback_difficulty_id difficulty)) of
             None \<Rightarrow> Some (default_result s mapid ds)
           | Some next_difficulty \<Rightarrow>
               downscale_loop s mapid ds next_difficulty (fallback_difficulty_id difficulty)))"

definition downscaled_for_map_like_cpp ::
  "MapDifficultyStore \<Rightarrow> u32 \<Rightarrow> u8 \<Rightarrow> DifficultyStore \<Rightarrow> (MapDifficultyEntry \<times> u8) option option" where
  "downscaled_for_map_like_cpp s mapid d ds =
     (case hm_get ds (ucast d) of
        None \<Rightarrow> Some (default_result s mapid ds)
      | Some difficulty \<Rightarrow> downscale_loop s mapid ds difficulty d)"

section \<open>Entries\<close>

definition reset_interval_of :: "u8 \<Rightarrow> MapDifficultyResetInterval" where
  "reset_interval_of i = (if i = 1 then Daily else if i = 2 then Weekly else Anytime)"

definition db2_entries :: "MapEntry \<Rightarrow> MapDifficultyEntry \<Rightarrow> u32 \<Rightarrow> u8 \<Rightarrow> MapDb2Entries" where
  "db2_entries m row mapid d =
     \<lparr>db2_map_id = mapid, db2_difficulty_id = d, db2_lock_id = ucast (md_lock_id row),
      db2_reset_interval = reset_interval_of (md_reset_interval row), db2_max_players = md_max_players row,
      db2_is_flex_locking = is_flex_locking m, db2_is_using_encounter_locks = is_using_encounter_locks row\<rparr>"

definition from_stores_like_cpp :: "MapStore \<Rightarrow> MapDifficultyStore \<Rightarrow> u32 \<Rightarrow> u8 \<Rightarrow> MapDb2Entries option" where
  "from_stores_like_cpp ms s mapid d =
     (case hm_get ms mapid of None \<Rightarrow> None
      | Some m \<Rightarrow> (case md_get s mapid d of None \<Rightarrow> None | Some row \<Rightarrow> Some (db2_entries m row mapid d)))"

definition from_downscaled_stores_like_cpp ::
  "MapStore \<Rightarrow> MapDifficultyStore \<Rightarrow> DifficultyStore \<Rightarrow> u32 \<Rightarrow> u8 \<Rightarrow> MapDb2Entries option option" where
  "from_downscaled_stores_like_cpp ms s ds mapid d =
     (case hm_get ms mapid of None \<Rightarrow> Some None
      | Some m \<Rightarrow>
          (case downscaled_for_map_like_cpp s mapid d ds of
             None \<Rightarrow> None
           | Some None \<Rightarrow> Some None
           | Some (Some (row, effective)) \<Rightarrow> Some (Some (db2_entries m row mapid effective))))"

section \<open>What resolving returns\<close>

definition next_fallback :: "DifficultyStore \<Rightarrow> u8 \<Rightarrow> u8" where
  "next_fallback ds d = (case hm_get ds (ucast d) of None \<Rightarrow> d | Some e \<Rightarrow> fallback_difficulty_id e)"

definition chain_stops :: "MapDifficultyStore \<Rightarrow> u32 \<Rightarrow> DifficultyStore \<Rightarrow> u8 \<Rightarrow> bool" where
  "chain_stops s mapid ds d \<longleftrightarrow> hm_get ds (ucast d) = None \<or> md_get s mapid d \<noteq> None"

definition resolved_at :: "MapDifficultyStore \<Rightarrow> u32 \<Rightarrow> DifficultyStore \<Rightarrow> u8 \<Rightarrow> (MapDifficultyEntry \<times> u8) option" where
  "resolved_at s mapid ds d =
     (if hm_get ds (ucast d) = None then default_result s mapid ds
      else map_option (\<lambda>row. (row, d)) (md_get s mapid d))"

lemma downscaled_step:
  "downscaled_for_map_like_cpp s mapid d ds =
     (if chain_stops s mapid ds d then Some (resolved_at s mapid ds d)
      else downscaled_for_map_like_cpp s mapid (next_fallback ds d) ds)"
  by (subst (1) downscaled_for_map_like_cpp_def)
    (auto simp: downscale_loop.simps [of s mapid ds _ d] chain_stops_def resolved_at_def next_fallback_def
      downscaled_for_map_like_cpp_def split: option.split)

lemma downscaled_stops:
  "chain_stops s mapid ds ((next_fallback ds ^^ n) d) \<Longrightarrow>
   downscaled_for_map_like_cpp s mapid d ds =
     Some (resolved_at s mapid ds ((next_fallback ds ^^ (LEAST n. chain_stops s mapid ds ((next_fallback ds ^^ n) d))) d))"
proof (induction n arbitrary: d)
  case 0
  then have "(LEAST n. chain_stops s mapid ds ((next_fallback ds ^^ n) d)) = 0" by (intro Least_eq_0) simp
  with 0 show ?case by (simp add: downscaled_step [of s mapid d])
next
  case (Suc n)
  show ?case
  proof (cases "chain_stops s mapid ds d")
    case True
    then have "(LEAST n. chain_stops s mapid ds ((next_fallback ds ^^ n) d)) = 0" by (intro Least_eq_0) simp
    with True show ?thesis by (simp add: downscaled_step [of s mapid d])
  next
    case False
    let ?P = "\<lambda>n. chain_stops s mapid ds ((next_fallback ds ^^ n) d)"
    have "(LEAST n. ?P n) = Suc (LEAST n. ?P (Suc n))"
      by (rule Least_Suc [where P = ?P, OF Suc.prems]) (use False in simp)
    with False Suc.IH [of "next_fallback ds d"] Suc.prems show ?thesis
      by (simp add: downscaled_step [of s mapid d] funpow_swap1)
  qed
qed

lemma downscale_loop_returns:
  assumes "downscale_loop s mapid ds difficulty d = Some r" "hm_get ds (ucast d) = Some difficulty"
  shows "\<exists>n. chain_stops s mapid ds ((next_fallback ds ^^ n) d)"
proof (rule downscale_loop.raw_induct
    [where P = "\<lambda>s mapid ds difficulty d r. hm_get ds (ucast d) = Some difficulty \<longrightarrow>
       (\<exists>n. chain_stops s mapid ds ((next_fallback ds ^^ n) d))", OF _ assms(1), rule_format, OF _ assms(2)])
  fix loop s mapid ds difficulty d r
  assume IH: "\<And>s mapid ds difficulty d r. loop s mapid ds difficulty d = Some r \<Longrightarrow>
       hm_get ds (ucast d) = Some difficulty \<Longrightarrow> \<exists>n. chain_stops s mapid ds ((next_fallback ds ^^ n) d)"
    and eq: "(case md_get s mapid d of
        Some row \<Rightarrow> Some (Some (row, d))
      | None \<Rightarrow>
          (case hm_get ds (ucast (fallback_difficulty_id difficulty)) of
             None \<Rightarrow> Some (default_result s mapid ds)
           | Some next_difficulty \<Rightarrow> loop s mapid ds next_difficulty (fallback_difficulty_id difficulty))) = Some r"
    and d: "hm_get ds (ucast d) = Some difficulty"
  have f: "next_fallback ds d = fallback_difficulty_id difficulty" using d by (simp add: next_fallback_def)
  show "\<exists>n. chain_stops s mapid ds ((next_fallback ds ^^ n) d)"
  proof (cases "md_get s mapid d = None \<and> hm_get ds (ucast (fallback_difficulty_id difficulty)) \<noteq> None")
    case True
    then obtain e where e: "hm_get ds (ucast (fallback_difficulty_id difficulty)) = Some e" by auto
    with True eq have "loop s mapid ds e (fallback_difficulty_id difficulty) = Some r" by simp
    from IH [OF this e] obtain n where "chain_stops s mapid ds ((next_fallback ds ^^ n) (next_fallback ds d))"
      unfolding f by blast
    then show ?thesis by (intro exI [of _ "Suc n"]) (simp add: funpow_swap1)
  next
    case False
    then have "chain_stops s mapid ds d \<or> chain_stops s mapid ds (next_fallback ds d)"
      by (auto simp: chain_stops_def f)
    then have "chain_stops s mapid ds ((next_fallback ds ^^ 0) d) \<or> chain_stops s mapid ds ((next_fallback ds ^^ 1) d)"
      by simp
    then show ?thesis by blast
  qed
qed

lemma downscaled_spec:
  "downscaled_for_map_like_cpp s mapid d ds =
     (if \<exists>n. chain_stops s mapid ds ((next_fallback ds ^^ n) d)
      then Some (resolved_at s mapid ds
             ((next_fallback ds ^^ (LEAST n. chain_stops s mapid ds ((next_fallback ds ^^ n) d))) d))
      else None)"
proof (cases "downscaled_for_map_like_cpp s mapid d ds")
  case None
  then show ?thesis using downscaled_stops [of s mapid ds _ d] by auto
next
  case (Some r)
  have "\<exists>n. chain_stops s mapid ds ((next_fallback ds ^^ n) d)"
  proof (cases "hm_get ds (ucast d)")
    case None
    then have "chain_stops s mapid ds ((next_fallback ds ^^ 0) d)" by (simp add: chain_stops_def)
    then show ?thesis by blast
  next
    case difficulty: (Some difficulty)
    with Some have "downscale_loop s mapid ds difficulty d = Some r"
      by (simp add: downscaled_for_map_like_cpp_def)
    then show ?thesis using difficulty by (rule downscale_loop_returns)
  qed
  then show ?thesis using downscaled_stops by auto
qed

text \<open>
  C14: Resolving the difficulty of a map follows the fallback difficulties up to the first one
  that is unknown or that the map has a row for, and answers with the default row of the map
  or with that row; it fails to return exactly when there is no such difficulty, that is,
  when the fallbacks run in a circle of known difficulties the map has no rows for.
\<close>

theorem downscaling_follows_fallbacks:
  "downscaled_for_map_like_cpp s mapid d ds =
     (if \<exists>n. chain_stops s mapid ds ((next_fallback ds ^^ n) d)
      then Some (resolved_at s mapid ds
             ((next_fallback ds ^^ (LEAST n. chain_stops s mapid ds ((next_fallback ds ^^ n) d))) d))
      else None)"
  by (rule downscaled_spec)

text \<open>A difficulty that falls back to itself is such a circle, as in the stores built from bare identifiers.\<close>

lemma self_fallback_never_returns:
  assumes "hm_get ds (ucast d) = Some e" "fallback_difficulty_id e = d" "md_get s mapid d = None"
  shows "downscaled_for_map_like_cpp s mapid d ds = None"
proof -
  have "(next_fallback ds ^^ n) d = d" for n
    by (induction n) (simp_all add: next_fallback_def assms(1,2))
  then show ?thesis using assms(1,3)
    by (cases "downscaled_for_map_like_cpp s mapid d ds")
      (auto simp: downscaled_for_map_like_cpp_def chain_stops_def dest!: downscale_loop_returns)
qed

lemma zero_difficulty_never_returns:
  "downscaled_for_map_like_cpp (map_difficulties_from_entries []) mapid 0 (difficulties_from_ids [0]) = None"
  by (rule self_fallback_never_returns [where e = "\<lparr>de_id = 0, de_instance_type = 0, de_flags = 0,
       fallback_difficulty_id = 0, toggle_difficulty_id = 0\<rparr>"])
    (simp_all add: difficulties_from_ids_def difficulties_from_entries_def map_difficulties_from_entries_def md_get_def)

section \<open>Entries name the row they come from\<close>

definition difficulty_store_ok :: "MapDifficultyStore \<Rightarrow> bool" where
  "difficulty_store_ok s \<longleftrightarrow>
     hm_ok (by_map_difficulty s) \<and>
     (\<forall>mapid d i row. hm_get (by_map_difficulty s) (mapid, d) = Some i \<longrightarrow> hm_get (md_by_id s) i = Some row \<longrightarrow>
        md_map_id row = mapid \<and> md_difficulty_id row = d)"

lemma default_loop_row:
  assumes "default_loop by_id ds mapid fallback rows = Some row"
    and "\<And>r. fallback = Some r \<Longrightarrow> \<exists>d i. ((mapid, d), i) \<in> rows0 \<and> by_id i = Some r"
    and "set rows \<subseteq> rows0"
  shows "\<exists>d i. ((mapid, d), i) \<in> rows0 \<and> by_id i = Some row"
  using assms
proof (induction rows arbitrary: fallback)
  case (Cons x rows)
  obtain m d i where x: "x = ((m, d), i)" by (metis prod.exhaust)
  have mem: "((m, d), i) \<in> rows0" "set rows \<subseteq> rows0" using Cons.prems(3) x by auto
  show ?case
  proof (cases "m = mapid \<and> by_id i \<noteq> None")
    case False
    then have "default_loop by_id ds mapid fallback rows = Some row" using Cons.prems(1) by (auto simp: x split: if_splits)
    then show ?thesis using Cons.IH Cons.prems(2) mem(2) by blast
  next
    case True
    then obtain r where r: "by_id i = Some r" by auto
    let ?f = "case fallback of None \<Rightarrow> Some r | Some f \<Rightarrow> Some f"
    have "row = r \<or> default_loop by_id ds mapid ?f rows = Some row"
      using Cons.prems(1) True r by (auto simp: x Let_def split: option.splits if_splits)
    moreover have "\<exists>d i. ((mapid, d), i) \<in> rows0 \<and> by_id i = Some r'" if "?f = Some r'" for r'
      using that True r mem(1) Cons.prems(2) by (auto split: option.splits)
    ultimately show ?thesis using Cons.IH [of ?f] True r mem by blast
  qed
qed simp

lemma default_row:
  assumes "difficulty_store_ok s" "default_for_map_like_cpp s mapid ds = Some row"
  shows "md_get s mapid (md_difficulty_id row) = Some row"
proof -
  obtain d i where di: "((mapid, d), i) \<in> set (by_map_difficulty s)" "hm_get (md_by_id s) i = Some row"
    using default_loop_row [of "hm_get (md_by_id s)" ds mapid None "by_map_difficulty s" row "set (by_map_difficulty s)"] assms(2)
    by (auto simp: default_for_map_like_cpp_def)
  then have "hm_get (by_map_difficulty s) (mapid, d) = Some i"
    using assms(1) by (intro hm_mem_get) (simp_all add: difficulty_store_ok_def)
  moreover from this di(2) assms(1) have "md_difficulty_id row = d" unfolding difficulty_store_ok_def by blast
  ultimately show ?thesis using di(2) by (simp add: md_get_def)
qed

lemma downscaled_entries:
  assumes ok: "difficulty_store_ok s" and e: "from_downscaled_stores_like_cpp ms s ds mapid d = Some (Some entries)"
  shows "from_stores_like_cpp ms s (db2_map_id entries) (db2_difficulty_id entries) = Some entries"
proof -
  obtain m row effective where m: "hm_get ms mapid = Some m" and entries: "entries = db2_entries m row mapid effective"
    and row: "downscaled_for_map_like_cpp s mapid d ds = Some (Some (row, effective))"
    using e by (auto simp: from_downscaled_stores_like_cpp_def split: option.splits)
  obtain d' where "resolved_at s mapid ds d' = Some (row, effective)"
    using row unfolding downscaled_spec by (auto split: if_splits)
  then have "md_get s mapid effective = Some row"
    using default_row [OF ok] by (auto simp: resolved_at_def default_result_def split: if_splits option.splits)
  then show ?thesis using m by (simp add: entries db2_entries_def from_stores_like_cpp_def)
qed

lemma from_entries_ok:
  assumes "distinct (map md_id rows)"
  shows "difficulty_store_ok (map_difficulties_from_entries rows)"
proof -
  have "difficulty_store_ok (map_difficulties_from_entries rows) \<and>
      (\<forall>k i. hm_get (by_map_difficulty (map_difficulties_from_entries rows)) k = Some i \<longrightarrow> i \<in> md_id ` set rows)"
    using assms
  proof (induction rows rule: rev_induct)
    case Nil
    then show ?case by (simp add: map_difficulties_from_entries_def difficulty_store_ok_def)
  next
    case (snoc row rows)
    define s where "s = map_difficulties_from_entries rows"
    have step: "map_difficulties_from_entries (rows @ [row]) =
        s\<lparr>by_map_difficulty := hm_insert (md_map_id row, md_difficulty_id row) (md_id row) (by_map_difficulty s),
          md_by_id := hm_insert (md_id row) row (md_by_id s)\<rparr>"
      by (simp add: s_def map_difficulties_from_entries_def)
    have new: "md_id row \<notin> md_id ` set rows" using snoc.prems by auto
    have ih: "difficulty_store_ok s" "\<And>k i. hm_get (by_map_difficulty s) k = Some i \<Longrightarrow> i \<in> md_id ` set rows"
      using snoc unfolding s_def by auto
    then show ?case using new unfolding step difficulty_store_ok_def by (auto simp: update_conv' distinct_update)
  qed
  then show ?thesis by simp
qed

end
