(* ===== verification/InstanceLockDatabase.thy ===== *)
theory InstanceLockDatabase
  imports InstanceLockLaws MapDifficulty GroupDatabase
begin

text \<open>
  How instance locks reach the characters database: the prepared statements of the mutations and
  the transaction of a plan (\<open>crates/wow-database/src/instance_lock_persistence_adapter.rs\<close>,
  \<open>statements/character/statement_def.rs\<close>), and the places of the session that change locks
  (\<open>crates/wow-world/src/handlers/misc/instance.rs\<close> and \<open>session/instances/binding.rs\<close>).

  The tables are maps from their primary keys.  Executing a statement is what its text says of
  the tables, \<open>None\<close> a duplicate key or a parameter of the wrong kind.
\<close>

section \<open>Statements\<close>

text \<open>The lock statements among \<open>CharStatements\<close>.\<close>

datatype InstanceLockStatements =
    DEL_CHARACTER_INSTANCE_LOCK | INS_CHARACTER_INSTANCE_LOCK | UPD_CHARACTER_INSTANCE_LOCK_EXTENSION |
    UPD_CHARACTER_INSTANCE_LOCK_FORCE_EXPIRE | DEL_INSTANCE | INS_INSTANCE

fun lock_sql :: "InstanceLockStatements \<Rightarrow> string" where
  "lock_sql DEL_CHARACTER_INSTANCE_LOCK =
     ''DELETE FROM character_instance_lock WHERE guid = ? AND mapId = ? AND lockId = ?''"
| "lock_sql INS_CHARACTER_INSTANCE_LOCK =
     ''INSERT INTO character_instance_lock (guid, mapId, lockId, instanceId, difficulty, data, completedEncountersMask, entranceWorldSafeLocId, expiryTime, extended) VALUES (?, ?, ?, ?, ?, ?, ?, ?, ?, ?)''"
| "lock_sql UPD_CHARACTER_INSTANCE_LOCK_EXTENSION =
     ''UPDATE character_instance_lock SET extended = ? WHERE guid = ? AND mapId = ? AND lockId = ?''"
| "lock_sql UPD_CHARACTER_INSTANCE_LOCK_FORCE_EXPIRE =
     ''UPDATE character_instance_lock SET expiryTime = ?, extended = 0 WHERE guid = ? AND mapId = ? AND lockId = ?''"
| "lock_sql DEL_INSTANCE = ''DELETE FROM instance WHERE instanceId = ?''"
| "lock_sql INS_INSTANCE =
     ''INSERT INTO instance (instanceId, data, completedEncountersMask, entranceWorldSafeLocId) VALUES (?, ?, ?, ?)''"

definition u8_of_bool :: "bool \<Rightarrow> u8" where "u8_of_bool b = (if b then 1 else 0)"

fun statement_for_mutation_like_cpp ::
  "InstanceLockPersistenceMutationLikeCpp \<Rightarrow> InstanceLockStatements PreparedStatement option" where
  "statement_for_mutation_like_cpp (DeleteCharacterLock player mapid lockid) =
     do { s \<leftarrow> set_u64 0 player (for_statement lock_sql DEL_CHARACTER_INSTANCE_LOCK); s \<leftarrow> set_u32 1 mapid s;
          set_u32 2 lockid s }"
| "statement_for_mutation_like_cpp
     (InsertCharacterLock player mapid lockid iid difficulty data cmask entrance expiry extended) =
     do { s \<leftarrow> set_u64 0 player (for_statement lock_sql INS_CHARACTER_INSTANCE_LOCK); s \<leftarrow> set_u32 1 mapid s;
          s \<leftarrow> set_u32 2 lockid s; s \<leftarrow> set_u32 3 iid s; s \<leftarrow> set_u8 4 difficulty s; s \<leftarrow> set_string 5 data s;
          s \<leftarrow> set_u32 6 cmask s; s \<leftarrow> set_u32 7 entrance s; s \<leftarrow> set_u64 8 expiry s;
          set_u8 9 (u8_of_bool extended) s }"
| "statement_for_mutation_like_cpp (DeleteSharedInstance iid) = set_u32 0 iid (for_statement lock_sql DEL_INSTANCE)"
| "statement_for_mutation_like_cpp (InsertSharedInstance iid data cmask entrance) =
     do { s \<leftarrow> set_u32 0 iid (for_statement lock_sql INS_INSTANCE); s \<leftarrow> set_string 1 data s;
          s \<leftarrow> set_u32 2 cmask s; set_u32 3 entrance s }"
| "statement_for_mutation_like_cpp (UpdateCharacterLockExtension extended player mapid lockid) =
     do { s \<leftarrow> set_u8 0 (u8_of_bool extended) (for_statement lock_sql UPD_CHARACTER_INSTANCE_LOCK_EXTENSION);
          s \<leftarrow> set_u64 1 player s; s \<leftarrow> set_u32 2 mapid s; set_u32 3 lockid s }"
| "statement_for_mutation_like_cpp (ForceExpireCharacterLock expiry player mapid lockid) =
     do { s \<leftarrow> set_u64 0 expiry (for_statement lock_sql UPD_CHARACTER_INSTANCE_LOCK_FORCE_EXPIRE);
          s \<leftarrow> set_u64 1 player s; s \<leftarrow> set_u32 2 mapid s; set_u32 3 lockid s }"

section \<open>Tables\<close>

record InstanceLockTableRow =
  l_instanceId :: u32
  l_difficulty :: u8
  l_data :: string
  l_completedEncountersMask :: u32
  l_entranceWorldSafeLocId :: u32
  l_expiryTime :: u64
  l_extended :: u8

record InstanceTableRow =
  i_data :: string
  i_completedEncountersMask :: u32
  i_entranceWorldSafeLocId :: u32

record InstanceLockTables =
  tbl_locks :: "(u64 \<times> u32 \<times> u32, InstanceLockTableRow) hash_map"
  tbl_instances :: "(u32, InstanceTableRow) hash_map"

fun as_string :: "SqlParam \<Rightarrow> string option" where "as_string (SqlString v) = Some v" | "as_string _ = None"

definition lock_key_params :: "SqlParam list \<Rightarrow> (u64 \<times> u32 \<times> u32) option" where
  "lock_key_params ps = do { player \<leftarrow> as_u64 (ps ! 0); mapid \<leftarrow> as_u32 (ps ! 1); lockid \<leftarrow> as_u32 (ps ! 2);
     Some (player, mapid, lockid) }"

fun execute_lock :: "InstanceLockStatements \<Rightarrow> SqlParam list \<Rightarrow> InstanceLockTables \<Rightarrow> InstanceLockTables option" where
  "execute_lock DEL_CHARACTER_INSTANCE_LOCK ps db =
     do { key \<leftarrow> lock_key_params ps; Some (db\<lparr>tbl_locks := hm_remove key (tbl_locks db)\<rparr>) }"
| "execute_lock INS_CHARACTER_INSTANCE_LOCK ps db =
     do { key \<leftarrow> lock_key_params ps; iid \<leftarrow> as_u32 (ps ! 3); difficulty \<leftarrow> as_u8 (ps ! 4);
          data \<leftarrow> as_string (ps ! 5); cmask \<leftarrow> as_u32 (ps ! 6); entrance \<leftarrow> as_u32 (ps ! 7);
          expiry \<leftarrow> as_u64 (ps ! 8); extended \<leftarrow> as_u8 (ps ! 9);
          (if hm_get (tbl_locks db) key \<noteq> None then None
           else Some (db\<lparr>tbl_locks := hm_insert key \<lparr>l_instanceId = iid, l_difficulty = difficulty, l_data = data,
                  l_completedEncountersMask = cmask, l_entranceWorldSafeLocId = entrance, l_expiryTime = expiry,
                  l_extended = extended\<rparr> (tbl_locks db)\<rparr>)) }"
| "execute_lock UPD_CHARACTER_INSTANCE_LOCK_EXTENSION ps db =
     do { extended \<leftarrow> as_u8 (ps ! 0); key \<leftarrow> lock_key_params (drop 1 ps);
          Some (db\<lparr>tbl_locks := hm_modify key (\<lambda>row. row\<lparr>l_extended := extended\<rparr>) (tbl_locks db)\<rparr>) }"
| "execute_lock UPD_CHARACTER_INSTANCE_LOCK_FORCE_EXPIRE ps db =
     do { expiry \<leftarrow> as_u64 (ps ! 0); key \<leftarrow> lock_key_params (drop 1 ps);
          Some (db\<lparr>tbl_locks := hm_modify key (\<lambda>row. row\<lparr>l_expiryTime := expiry, l_extended := 0\<rparr>) (tbl_locks db)\<rparr>) }"
| "execute_lock DEL_INSTANCE ps db =
     do { iid \<leftarrow> as_u32 (ps ! 0); Some (db\<lparr>tbl_instances := hm_remove iid (tbl_instances db)\<rparr>) }"
| "execute_lock INS_INSTANCE ps db =
     do { iid \<leftarrow> as_u32 (ps ! 0); data \<leftarrow> as_string (ps ! 1); cmask \<leftarrow> as_u32 (ps ! 2); entrance \<leftarrow> as_u32 (ps ! 3);
          (if hm_get (tbl_instances db) iid \<noteq> None then None
           else Some (db\<lparr>tbl_instances := hm_insert iid \<lparr>i_data = data, i_completedEncountersMask = cmask,
                  i_entranceWorldSafeLocId = entrance\<rparr> (tbl_instances db)\<rparr>)) }"

section \<open>Committing a plan\<close>

datatype InstanceLockPersistenceOutcomeLikeCpp = LocksCommitted | LocksFailed

fun append_mutations ::
  "InstanceLockPersistenceMutationLikeCpp list \<Rightarrow> InstanceLockStatements PreparedStatement list option" where
  "append_mutations [] = Some []"
| "append_mutations (mutation # mutations) =
     do { s \<leftarrow> statement_for_mutation_like_cpp mutation; ss \<leftarrow> append_mutations mutations; Some (s # ss) }"

text \<open>
  \<open>commit\<close> is the database's transaction: whether it succeeded, and the data afterwards.  \<open>None\<close>
  is a panic while the statements are built.
\<close>

definition commit_plan_like_cpp ::
  "(InstanceLockStatements PreparedStatement list \<Rightarrow> 'db \<Rightarrow> bool \<times> 'db) \<Rightarrow>
   InstanceLockPersistenceMutationLikeCpp list \<Rightarrow> 'db \<Rightarrow> (InstanceLockPersistenceOutcomeLikeCpp \<times> 'db) option" where
  "commit_plan_like_cpp commit plan db =
     (if plan = [] then Some (LocksCommitted, db)
      else do { ss \<leftarrow> append_mutations plan;
                (case commit ss db of
                   (True, db') \<Rightarrow> Some (LocksCommitted, db')
                 | (False, db') \<Rightarrow> Some (LocksFailed, db')) })"

text \<open>A server that executes the statements in order, all or none.\<close>

fun execute_locks :: "InstanceLockStatements PreparedStatement list \<Rightarrow> InstanceLockTables \<Rightarrow> InstanceLockTables option" where
  "execute_locks [] db = Some db"
| "execute_locks (s # ss) db =
     (case execute_lock (ps_statement s) (ps_params s) db of None \<Rightarrow> None | Some db' \<Rightarrow> execute_locks ss db')"

definition lock_transaction :: "InstanceLockStatements PreparedStatement list \<Rightarrow> InstanceLockTables \<Rightarrow> bool \<times> InstanceLockTables" where
  "lock_transaction ss db = (case execute_locks ss db of None \<Rightarrow> (False, db) | Some db' \<Rightarrow> (True, db'))"

section \<open>The operations of a session\<close>

text \<open>
  The lock part of the handlers: what they do between resolving their arguments and sending
  packets.  The entries come from the stores of the data files; \<open>None\<close> stands for both a map
  without entries and a difficulty whose fallbacks never end, for which nothing is changed.
\<close>

record LockStores =
  lock_maps :: MapStore
  lock_map_difficulties :: MapDifficultyStore
  lock_difficulties :: DifficultyStore

definition session_entries :: "LockStores \<Rightarrow> u32 \<Rightarrow> u8 \<Rightarrow> MapDb2Entries option" where
  "session_entries st mapid d =
     (case from_downscaled_stores_like_cpp (lock_maps st) (lock_map_difficulties st) (lock_difficulties st) mapid d of
        None \<Rightarrow> None | Some entries \<Rightarrow> entries)"

text \<open>\<open>handle_reset_instances\<close>: the entries of the locks the player has, by key.\<close>

definition reset_entries_by_key :: "LockStores \<Rightarrow> (u32 \<times> u8) list \<Rightarrow> (InstanceLockKey, MapDb2Entries) hash_map" where
  "reset_entries_by_key st difficulties =
     fold (\<lambda>(mapid, d) acc.
         (case from_stores_like_cpp (lock_maps st) (lock_map_difficulties st) mapid d of
            None \<Rightarrow> acc | Some entries \<Rightarrow> hm_insert (lock_key entries) entries acc))
       difficulties []"

definition reset_represented_instances_like_cpp ::
  "LockStores \<Rightarrow> InstanceResetTime \<Rightarrow> ObjectGuid \<Rightarrow> InstanceLockMgr
     \<Rightarrow> InstanceLockResetResult \<times> InstanceLockPersistenceMutationLikeCpp list \<times> InstanceLockMgr" where
  "reset_represented_instances_like_cpp st now player m =
     reset_instance_locks_for_player_with_persistence_at [] player None None
       (reset_entries_by_key st (player_lock_map_difficulties m player)) ResetSchedule_default now m"

definition create_instance_lock_for_new_instance_side_effect_like_cpp ::
  "LockStores \<Rightarrow> ResetSchedule \<Rightarrow> InstanceResetTime \<Rightarrow> u32 \<Rightarrow> u8 \<Rightarrow> ObjectGuid \<Rightarrow> u32 \<Rightarrow> InstanceLockMgr
     \<Rightarrow> bool \<times> InstanceLockMgr" where
  "create_instance_lock_for_new_instance_side_effect_like_cpp st schedule now mapid d player iid m =
     (case session_entries st mapid d of None \<Rightarrow> (False, m)
      | Some entries \<Rightarrow>
          (case create_instance_lock_for_new_instance_at player entries iid schedule now m of
             (lock, m') \<Rightarrow> (lock \<noteq> None, m')))"

definition set_active_instance_lock_instance_id_side_effect_like_cpp ::
  "LockStores \<Rightarrow> InstanceResetTime \<Rightarrow> u32 \<Rightarrow> u8 \<Rightarrow> ObjectGuid \<Rightarrow> u32 \<Rightarrow> InstanceLockMgr \<Rightarrow> bool \<times> InstanceLockMgr" where
  "set_active_instance_lock_instance_id_side_effect_like_cpp st now mapid d player iid m =
     (case session_entries st mapid d of None \<Rightarrow> (False, m)
      | Some entries \<Rightarrow> set_active_instance_lock_instance_id_at player entries now iid m)"

text \<open>\<open>confirm_pending_bind_like_cpp\<close>: whether the lock is new, the plan and the manager.\<close>

definition confirm_pending_bind_like_cpp ::
  "LockStores \<Rightarrow> nat list \<Rightarrow> ResetSchedule \<Rightarrow> InstanceResetTime \<Rightarrow> ObjectGuid \<Rightarrow> u32 \<Rightarrow> u8 \<Rightarrow> u32 \<Rightarrow> u32 \<Rightarrow> InstanceLockMgr
     \<Rightarrow> (bool \<times> InstanceLock) option \<times> InstanceLockPersistenceMutationLikeCpp list \<times> InstanceLockMgr" where
  "confirm_pending_bind_like_cpp st held schedule now player mapid d iid completed m =
     (case session_entries st mapid d of None \<Rightarrow> (None, [], m)
      | Some entries \<Rightarrow>
          (let is_new_lock = (case find_active_instance_lock_at m player entries now of
                                None \<Rightarrow> True | Some lock \<Rightarrow> il_is_new lock \<or> is_expired_at lock now);
               event = \<lparr>event_instance_id = iid, event_new_data = [], instance_completed_encounters_mask = completed,
                        completed_encounter_bit = None, event_entrance_world_safe_loc_id = None\<rparr>
           in case update_instance_lock_for_player_with_persistence_at held [] player entries event schedule now m of
                (None, plan, m') \<Rightarrow> (None, plan, m')
              | (Some lock, plan, m') \<Rightarrow> (Some (is_new_lock, lock), plan, m')))"

definition set_saved_instance_extend ::
  "LockStores \<Rightarrow> ResetSchedule \<Rightarrow> InstanceResetTime \<Rightarrow> ObjectGuid \<Rightarrow> u32 \<Rightarrow> u8 \<Rightarrow> bool \<Rightarrow> InstanceLockMgr
     \<Rightarrow> (InstanceResetTime \<times> InstanceResetTime) option \<times> InstanceLockPersistenceMutationLikeCpp list \<times> InstanceLockMgr" where
  "set_saved_instance_extend st schedule now player mapid d extended m =
     (case session_entries st mapid d of None \<Rightarrow> (None, [], m)
      | Some entries \<Rightarrow>
          update_instance_lock_extension_for_player_with_persistence_at [] player entries extended schedule now m)"

text \<open>What the sessions do to the manager, and an update with any event, as the manager offers it.\<close>

datatype LockOp =
    CreateLock ObjectGuid u32 u8 u32
  | SetLockInstance ObjectGuid u32 u8 u32
  | ConfirmBind ObjectGuid u32 u8 u32 u32
  | UpdateLock ObjectGuid u32 u8 InstanceLockUpdateEvent
  | ExtendLock ObjectGuid u32 u8 bool
  | ResetLocks ObjectGuid

definition run_lock_op ::
  "LockStores \<Rightarrow> nat list \<Rightarrow> ResetSchedule \<Rightarrow> InstanceResetTime \<Rightarrow> LockOp \<Rightarrow> InstanceLockMgr
     \<Rightarrow> InstanceLockPersistenceMutationLikeCpp list \<times> InstanceLockMgr" where
  "run_lock_op st held schedule now op m =
     (case op of
        CreateLock player mapid d iid \<Rightarrow>
          ([], snd (create_instance_lock_for_new_instance_side_effect_like_cpp st schedule now mapid d player iid m))
      | SetLockInstance player mapid d iid \<Rightarrow>
          ([], snd (set_active_instance_lock_instance_id_side_effect_like_cpp st now mapid d player iid m))
      | ConfirmBind player mapid d iid completed \<Rightarrow>
          snd (confirm_pending_bind_like_cpp st held schedule now player mapid d iid completed m)
      | UpdateLock player mapid d event \<Rightarrow>
          (case session_entries st mapid d of None \<Rightarrow> ([], m)
           | Some entries \<Rightarrow>
               snd (update_instance_lock_for_player_with_persistence_at held [] player entries event schedule now m))
      | ExtendLock player mapid d extended \<Rightarrow>
          snd (set_saved_instance_extend st schedule now player mapid d extended m)
      | ResetLocks player \<Rightarrow> snd (reset_represented_instances_like_cpp st now player m))"

end
