(* ===== verification/InstanceLockSync.thy ===== *)
theory InstanceLockSync
  imports InstanceLockDatabase
begin

text \<open>
  The permanent instance locks and the table \<open>character_instance_lock\<close> agree: every plan an
  operation emits commits, and afterwards the rows of the players of the realm are their locks.
  The instance identifier and the difficulty are left out of the comparison: the instance of a
  running lock is also set without a write, and an update writes the difficulty of its entries
  while the lock keeps the one it was created with.
\<close>

section \<open>What the mutations do\<close>

fun mutation_effect :: "InstanceLockPersistenceMutationLikeCpp \<Rightarrow> InstanceLockTables \<Rightarrow> InstanceLockTables option" where
  "mutation_effect (DeleteCharacterLock player mapid lockid) db =
     Some (db\<lparr>tbl_locks := hm_remove (player, mapid, lockid) (tbl_locks db)\<rparr>)"
| "mutation_effect (InsertCharacterLock player mapid lockid iid difficulty data cmask entrance expiry extended) db =
     (if hm_get (tbl_locks db) (player, mapid, lockid) \<noteq> None then None
      else Some (db\<lparr>tbl_locks := hm_insert (player, mapid, lockid)
             \<lparr>l_instanceId = iid, l_difficulty = difficulty, l_data = data, l_completedEncountersMask = cmask,
              l_entranceWorldSafeLocId = entrance, l_expiryTime = expiry, l_extended = u8_of_bool extended\<rparr>
             (tbl_locks db)\<rparr>))"
| "mutation_effect (DeleteSharedInstance iid) db =
     Some (db\<lparr>tbl_instances := hm_remove iid (tbl_instances db)\<rparr>)"
| "mutation_effect (InsertSharedInstance iid data cmask entrance) db =
     (if hm_get (tbl_instances db) iid \<noteq> None then None
      else Some (db\<lparr>tbl_instances := hm_insert iid \<lparr>i_data = data, i_completedEncountersMask = cmask,
             i_entranceWorldSafeLocId = entrance\<rparr> (tbl_instances db)\<rparr>))"
| "mutation_effect (UpdateCharacterLockExtension extended player mapid lockid) db =
     Some (db\<lparr>tbl_locks := hm_modify (player, mapid, lockid) (\<lambda>row. row\<lparr>l_extended := u8_of_bool extended\<rparr>)
            (tbl_locks db)\<rparr>)"
| "mutation_effect (ForceExpireCharacterLock expiry player mapid lockid) db =
     Some (db\<lparr>tbl_locks := hm_modify (player, mapid, lockid) (\<lambda>row. row\<lparr>l_expiryTime := expiry, l_extended := 0\<rparr>)
            (tbl_locks db)\<rparr>)"

lemma mutation_prepared:
  "\<exists>s. statement_for_mutation_like_cpp c = Some s \<and>
     length (ps_params s) = length (filter (\<lambda>c. c = CHR ''?'') (lock_sql (ps_statement s))) \<and>
     (\<forall>b. SqlBool b \<notin> set (ps_params s)) \<and>
     execute_lock (ps_statement s) (ps_params s) db = mutation_effect c db"
  by (cases c) (simp_all add: for_statement_def with_capacity_like_cpp_def setter_defs bind_param_Some
      lock_key_params_def numeral_eq_Suc)

fun plan_effect :: "InstanceLockPersistenceMutationLikeCpp list \<Rightarrow> InstanceLockTables \<Rightarrow> InstanceLockTables option" where
  "plan_effect [] db = Some db"
| "plan_effect (c # cs) db = (case mutation_effect c db of None \<Rightarrow> None | Some db' \<Rightarrow> plan_effect cs db')"

lemma plan_statements:
  "\<exists>ss. append_mutations plan = Some ss \<and> execute_locks ss db = plan_effect plan db"
proof (induction plan arbitrary: db)
  case (Cons c plan)
  obtain s where s: "statement_for_mutation_like_cpp c = Some s"
    and e: "execute_lock (ps_statement s) (ps_params s) db = mutation_effect c db"
    using mutation_prepared by blast
  show ?case
  proof (cases "mutation_effect c db")
    case None
    obtain ss where "append_mutations plan = Some ss" using Cons.IH by blast
    then show ?thesis using s e None by (simp del: statement_for_mutation_like_cpp.simps)
  next
    case (Some db')
    obtain ss where "append_mutations plan = Some ss" "execute_locks ss db' = plan_effect plan db'" using Cons.IH by blast
    then show ?thesis using s e Some by (simp del: statement_for_mutation_like_cpp.simps)
  qed
qed simp

lemma commit_effect:
  assumes "plan_effect plan db = Some db'"
  shows "commit_plan_like_cpp lock_transaction plan db = Some (LocksCommitted, db')"
proof (cases "plan = []")
  case False
  obtain ss where "append_mutations plan = Some ss" "execute_locks ss db = Some db'"
    using plan_statements [of plan db] assms by auto
  then show ?thesis using False by (simp add: commit_plan_like_cpp_def lock_transaction_def)
qed (use assms in \<open>simp add: commit_plan_like_cpp_def\<close>)

section \<open>Agreement\<close>

definition lock_values :: "InstanceLock \<Rightarrow> string \<times> u32 \<times> u32 \<times> u64 \<times> bool" where
  "lock_values lock = (lock_data (il_data lock), completed_encounters_mask (il_data lock),
     entrance_world_safe_loc_id (il_data lock), il_expiry_time lock, il_extended lock)"

definition row_values :: "InstanceLockTableRow \<Rightarrow> string \<times> u32 \<times> u32 \<times> u64 \<times> bool" where
  "row_values row = (l_data row, l_completedEncountersMask row, l_entranceWorldSafeLocId row, l_expiryTime row,
     l_extended row \<noteq> 0)"

definition realm_player :: "u16 \<Rightarrow> ObjectGuid \<Rightarrow> bool" where
  "realm_player realm p = (p = create_player realm (guid_counter p))"

lemma realm_player_inj: "realm_player r p \<Longrightarrow> realm_player r q \<Longrightarrow> guid_counter p = guid_counter q \<Longrightarrow> p = q"
  by (metis realm_player_def)

definition locks_agree :: "u16 \<Rightarrow> InstanceLockMgr \<Rightarrow> InstanceLockTables \<Rightarrow> bool" where
  "locks_agree realm m db \<longleftrightarrow>
     (\<forall>p mapid lockid. realm_player realm p \<longrightarrow>
        map_option row_values (hm_get (tbl_locks db) (guid_counter p, mapid, lockid)) =
        map_option lock_values (player_lock (instance_locks_by_player m) p (mapid, lockid)))"

text \<open>The locks of a player are filed under the keys of their own map and difficulty.\<close>

definition lock_filed :: "LockStores \<Rightarrow> InstanceLockKey \<Rightarrow> InstanceLock \<Rightarrow> bool" where
  "lock_filed st key lock \<longleftrightarrow>
     (\<exists>entries. from_stores_like_cpp (lock_maps st) (lock_map_difficulties st) (il_map_id lock) (il_difficulty_id lock)
          = Some entries \<and> lock_key entries = key)"

definition manager_ok :: "LockStores \<Rightarrow> InstanceLockMgr \<Rightarrow> bool" where
  "manager_ok st m \<longleftrightarrow>
     (\<forall>p ls. hm_get (instance_locks_by_player m) p = Some ls \<longrightarrow> hm_ok ls) \<and>
     (\<forall>p key lock. player_lock (instance_locks_by_player m) p key = Some lock \<longrightarrow> lock_filed st key lock) \<and>
     (\<forall>p key lock. player_lock (temporary_instance_locks_by_player m) p key = Some lock \<longrightarrow> lock_filed st key lock)"

lemma manager_okD:
  assumes "manager_ok st m"
  shows "hm_get (instance_locks_by_player m) p = Some ls \<Longrightarrow> hm_ok ls"
    and "player_lock (instance_locks_by_player m) p key = Some lock \<Longrightarrow> lock_filed st key lock"
    and "player_lock (temporary_instance_locks_by_player m) p key = Some lock \<Longrightarrow> lock_filed st key lock"
  using assms unfolding manager_ok_def by blast+

lemma lock_filed_sel:
  "il_map_id lock' = il_map_id lock \<Longrightarrow> il_difficulty_id lock' = il_difficulty_id lock \<Longrightarrow>
   lock_filed st key lock' = lock_filed st key lock"
  by (simp add: lock_filed_def)

lemma put_lock_ok:
  assumes "\<And>p ls. hm_get locks p = Some ls \<Longrightarrow> hm_ok ls" "hm_get (put_lock player key lock locks) p = Some ls"
  shows "hm_ok ls"
  using assms by (auto simp: put_lock_def update_conv' distinct_update split: if_splits option.splits)

lemma session_entries_key:
  assumes "difficulty_store_ok (lock_map_difficulties st)" "session_entries st mapid d = Some entries"
  shows "from_stores_like_cpp (lock_maps st) (lock_map_difficulties st) (db2_map_id entries) (db2_difficulty_id entries)
    = Some entries"
  using assms by (intro downscaled_entries) (auto simp: session_entries_def split: option.splits)
definition inner_ok :: "(ObjectGuid, player_locks) hash_map \<Rightarrow> bool" where
  "inner_ok locks \<longleftrightarrow> (\<forall>p ls. hm_get locks p = Some ls \<longrightarrow> hm_ok ls)"

lemma inner_ok_put: "inner_ok locks \<Longrightarrow> inner_ok (put_lock player key lock locks)"
  by (auto simp: inner_ok_def put_lock_def update_conv' distinct_update split: option.splits)

lemma inner_ok_remove: "inner_ok locks \<Longrightarrow> inner_ok (hm_modify player (hm_remove key) locks)"
  by (auto simp: inner_ok_def distinct_delete)

lemma update_inner_ok:
  assumes "inner_ok (instance_locks_by_player m)"
  shows "inner_ok (instance_locks_by_player (snd (update_instance_lock_for_player_at held player entries event schedule now m)))"
proof -
  have promote: "inner_ok (instance_locks_by_player (promote_temporary player key m))" for key
    using assms by (auto simp: promote_temporary_def Let_def inner_ok_put inner_ok_remove split: option.split)
  have create: "inner_ok (instance_locks_by_player (create_missing_lock held player entries iid schedule now m'))"
    if "inner_ok (instance_locks_by_player m')" for m' iid
    using that by (auto simp: create_missing_lock_def Let_def alloc_shared_def inner_ok_put split: option.split)
  show ?thesis
    using assms promote create
    by (auto simp: update_instance_lock_for_player_at_def Let_def inner_ok_put split: option.split)
qed

section \<open>Each operation\<close>

lemma update_base_filed:
  assumes ok: "manager_ok st m" and e: "from_stores_like_cpp (lock_maps st) (lock_map_difficulties st)
      (db2_map_id entries) (db2_difficulty_id entries) = Some entries"
  shows "lock_filed st (lock_key entries) (update_base entries iid schedule now player m shared)"
proof -
  have "lock_filed st (lock_key entries) (fresh_lock entries iid schedule now shared)"
    using e by (simp add: lock_filed_def fresh_lock_def InstanceLock_new_def)
  then show ?thesis
    using manager_okD(2,3) [OF ok] by (simp add: update_base_def split: option.split)
qed

lemma update_agrees:
  assumes ok: "manager_ok st m" and agree: "locks_agree realm m db" and player: "realm_player realm player"
    and e: "from_stores_like_cpp (lock_maps st) (lock_map_difficulties st)
      (db2_map_id entries) (db2_difficulty_id entries) = Some entries"
    and u: "update_instance_lock_for_player_with_persistence_at held [] player entries event schedule now m = (r, plan, m')"
  shows "\<exists>db'. plan_effect plan db = Some db' \<and> locks_agree realm m' db' \<and> manager_ok st m'"
proof (cases "has_reset_schedule entries")
  case False
  then have "plan = []" "m' = m"
    using u by (simp_all add: update_instance_lock_for_player_with_persistence_at_def update_instance_lock_for_player_at_def)
  then show ?thesis using ok agree by simp
next
  case True
  obtain lock m1 shared where
    u1: "update_instance_lock_for_player_at held player entries event schedule now m = (Some lock, m1)"
    and lock: "lock = apply_update_event entries event schedule now
       (update_base entries (event_instance_id event) schedule now player m shared)"
    and perm: "\<And>p k. player_lock (instance_locks_by_player m1) p k =
       (if p = player \<and> k = lock_key entries then Some lock else player_lock (instance_locks_by_player m) p k)"
    and temp: "\<And>p k. player_lock (temporary_instance_locks_by_player m1) p k =
       (if p = player \<and> k = lock_key entries \<and>
           \<not> (\<exists>l. player_lock (instance_locks_by_player m) p k = Some l \<and> lock_active_at l now)
        then None else player_lock (temporary_instance_locks_by_player m) p k)"
    by (rule update_locks [OF True, of held player event schedule now m]) (rule that; assumption)
  have plan: "plan = [delete_character_instance_lock_mutation player entries,
      insert_character_instance_lock_mutation player entries lock]" and m': "m' = m1"
    using u u1 by (simp_all add: update_instance_lock_for_player_with_persistence_at_def)
  have filed: "lock_filed st (lock_key entries) lock"
    using update_base_filed [OF ok e] unfolding lock by (simp add: lock_filed_def apply_update_event_sel)
  have inner: "inner_ok (instance_locks_by_player m1)"
    using update_inner_ok [of m held player entries event schedule now] ok u1
    by (simp add: inner_ok_def manager_ok_def)
  have ok': "manager_ok st m1"
    using ok filed inner unfolding manager_ok_def inner_ok_def perm temp by auto
  let ?key = "(guid_counter player, db2_map_id entries, db2_lock_id entries)"
  let ?row = "\<lparr>l_instanceId = il_instance_id lock, l_difficulty = db2_difficulty_id entries,
      l_data = lock_data (il_data lock), l_completedEncountersMask = completed_encounters_mask (il_data lock),
      l_entranceWorldSafeLocId = entrance_world_safe_loc_id (il_data lock), l_expiryTime = il_expiry_time lock,
      l_extended = u8_of_bool (il_extended lock)\<rparr>"
  let ?db = "db\<lparr>tbl_locks := hm_insert ?key ?row (hm_remove ?key (tbl_locks db))\<rparr>"
  have "plan_effect plan db = Some ?db"
    by (simp add: plan delete_character_instance_lock_mutation_def insert_character_instance_lock_mutation_def
        delete_conv')
  moreover have "locks_agree realm m1 ?db"
    using agree realm_player_inj [OF _ player]
    by (auto simp: locks_agree_def perm lock_key_def update_conv' delete_conv' row_values_def lock_values_def
        u8_of_bool_def)
  ultimately show ?thesis using ok' m' by blast
qed
text \<open>An operation that keeps the map and the difficulty of a lock keeps the invariant.\<close>

lemma put_lock_manager_ok:
  assumes "manager_ok st m" "lock_filed st key lock"
  shows "manager_ok st (m\<lparr>instance_locks_by_player := put_lock player key lock (instance_locks_by_player m)\<rparr>)"
    and "manager_ok st (m\<lparr>temporary_instance_locks_by_player := put_lock player key lock (temporary_instance_locks_by_player m)\<rparr>)"
proof -
  have "inner_ok (instance_locks_by_player m)" using assms(1) unfolding inner_ok_def manager_ok_def by blast
  then have "inner_ok (put_lock player key lock (instance_locks_by_player m))" by (rule inner_ok_put)
  then show "manager_ok st (m\<lparr>instance_locks_by_player := put_lock player key lock (instance_locks_by_player m)\<rparr>)"
    using assms unfolding manager_ok_def inner_ok_def by auto
  show "manager_ok st (m\<lparr>temporary_instance_locks_by_player := put_lock player key lock (temporary_instance_locks_by_player m)\<rparr>)"
    using assms unfolding manager_ok_def by auto
qed

lemma modify_agrees:
  assumes agree: "locks_agree realm m db" and player: "realm_player realm player"
    and lock: "player_lock (instance_locks_by_player m) player (mapid, lockid) = Some lock"
    and f: "\<And>row. row_values row = lock_values lock \<Longrightarrow> row_values (f row) = lock_values lock'"
  shows "locks_agree realm
     (m\<lparr>instance_locks_by_player := put_lock player (mapid, lockid) lock' (instance_locks_by_player m)\<rparr>)
     (db\<lparr>tbl_locks := hm_modify (guid_counter player, mapid, lockid) f (tbl_locks db)\<rparr>)"
proof -
  obtain row where row: "hm_get (tbl_locks db) (guid_counter player, mapid, lockid) = Some row"
    "row_values row = lock_values lock"
  proof -
    have "map_option row_values (hm_get (tbl_locks db) (guid_counter player, mapid, lockid)) =
        map_option lock_values (player_lock (instance_locks_by_player m) player (mapid, lockid))"
      using agree player unfolding locks_agree_def by blast
    then show thesis using lock that by auto
  qed
  show ?thesis
    unfolding locks_agree_def
  proof (intro allI impI)
    fix p a b assume p: "realm_player realm p"
    show "map_option row_values (hm_get (tbl_locks (db\<lparr>tbl_locks := hm_modify (guid_counter player, mapid, lockid) f
           (tbl_locks db)\<rparr>)) (guid_counter p, a, b)) =
        map_option lock_values (player_lock (instance_locks_by_player (m\<lparr>instance_locks_by_player :=
           put_lock player (mapid, lockid) lock' (instance_locks_by_player m)\<rparr>)) p (a, b))"
      using agree p row f realm_player_inj [OF p player]
      by (cases "guid_counter p = guid_counter player \<and> a = mapid \<and> b = lockid") (auto simp: locks_agree_def)
  qed
qed

lemma extension_agrees:
  assumes ok: "manager_ok st m" and agree: "locks_agree realm m db" and player: "realm_player realm player"
    and u: "update_instance_lock_extension_for_player_with_persistence_at [] player entries extended schedule now m
      = (r, plan, m')"
  shows "\<exists>db'. plan_effect plan db = Some db' \<and> locks_agree realm m' db' \<and> manager_ok st m'"
proof (cases "\<exists>lock. player_lock (instance_locks_by_player m) player (lock_key entries) = Some lock \<and> lock_active_at lock now")
  case False
  then have "plan = []" "m' = m" using u
    by (auto simp: update_instance_lock_extension_for_player_with_persistence_at_def
        update_instance_lock_extension_for_player_at_def split: option.splits if_splits)
  then show ?thesis using ok agree by simp
next
  case True
  then obtain lock where l: "player_lock (instance_locks_by_player m) player (lock_key entries) = Some lock"
    "lock_active_at lock now" by blast
  let ?lock = "lock\<lparr>il_extended := extended\<rparr>"
  have plan: "plan = [update_character_instance_lock_extension_mutation player entries extended]"
    and m': "m' = m\<lparr>instance_locks_by_player := put_lock player (lock_key entries) ?lock (instance_locks_by_player m)\<rparr>"
    using u l by (auto simp: update_instance_lock_extension_for_player_with_persistence_at_def
        update_instance_lock_extension_for_player_at_def Let_def)
  have "manager_ok st m'"
    unfolding m' using manager_okD(2) [OF ok l(1)] by (intro put_lock_manager_ok ok) (simp add: lock_filed_def)
  moreover have "locks_agree realm m' (db\<lparr>tbl_locks := hm_modify
      (guid_counter player, db2_map_id entries, db2_lock_id entries) (\<lambda>row. row\<lparr>l_extended := u8_of_bool extended\<rparr>)
      (tbl_locks db)\<rparr>)"
    unfolding m' lock_key_def
    by (rule modify_agrees [OF agree player l(1) [unfolded lock_key_def]])
      (auto simp: row_values_def lock_values_def u8_of_bool_def)
  ultimately show ?thesis by (simp add: plan update_character_instance_lock_extension_mutation_def)
qed

lemma create_agrees:
  assumes ok: "manager_ok st m" and agree: "locks_agree realm m db"
    and e: "from_stores_like_cpp (lock_maps st) (lock_map_difficulties st)
      (db2_map_id entries) (db2_difficulty_id entries) = Some entries"
    and u: "m' = snd (create_instance_lock_for_new_instance_at player entries iid schedule now m)"
  shows "locks_agree realm m' db \<and> manager_ok st m'"
proof -
  have "instance_locks_by_player m' = instance_locks_by_player m"
    by (auto simp: u create_instance_lock_for_new_instance_at_def Let_def alloc_shared_def split: option.split)
  moreover have "temporary_instance_locks_by_player m' = temporary_instance_locks_by_player m \<or>
      (\<exists>lock. temporary_instance_locks_by_player m' =
         put_lock player (lock_key entries) lock (temporary_instance_locks_by_player m) \<and>
         lock_filed st (lock_key entries) lock)"
    using e by (cases "is_instance_id_bound entries")
      (auto simp: u create_instance_lock_for_new_instance_at_def Let_def alloc_shared_def
        InstanceLock_new_shared_def InstanceLock_new_def lock_filed_def)
  ultimately show ?thesis
    using ok agree manager_okD(3) [OF ok] unfolding manager_ok_def locks_agree_def
    by (auto split: if_splits)
qed

lemma set_instance_agrees:
  assumes ok: "manager_ok st m" and agree: "locks_agree realm m db"
    and u: "m' = snd (set_active_instance_lock_instance_id_at player entries now iid m)"
  shows "locks_agree realm m' db \<and> manager_ok st m'"
proof -
  have "m' = m \<or>
    (\<exists>lock. player_lock (temporary_instance_locks_by_player m) player (lock_key entries) = Some lock \<and>
      m' = m\<lparr>temporary_instance_locks_by_player := put_lock player (lock_key entries) (lock\<lparr>il_instance_id := iid\<rparr>)
         (temporary_instance_locks_by_player m)\<rparr>) \<or>
    (\<exists>lock. player_lock (instance_locks_by_player m) player (lock_key entries) = Some lock \<and>
      m' = m\<lparr>instance_locks_by_player := put_lock player (lock_key entries) (lock\<lparr>il_instance_id := iid\<rparr>)
         (instance_locks_by_player m)\<rparr>)"
    unfolding u set_active_instance_lock_instance_id_at_def Let_def by (auto split: option.split)
  then consider "m' = m"
    | lock where "player_lock (temporary_instance_locks_by_player m) player (lock_key entries) = Some lock"
      "m' = m\<lparr>temporary_instance_locks_by_player := put_lock player (lock_key entries) (lock\<lparr>il_instance_id := iid\<rparr>)
         (temporary_instance_locks_by_player m)\<rparr>"
    | lock where "player_lock (instance_locks_by_player m) player (lock_key entries) = Some lock"
      "m' = m\<lparr>instance_locks_by_player := put_lock player (lock_key entries) (lock\<lparr>il_instance_id := iid\<rparr>)
         (instance_locks_by_player m)\<rparr>"
    by blast
  then show ?thesis
  proof cases
    case 1
    then show ?thesis using ok agree by simp
  next
    case (2 lock)
    then have "lock_filed st (lock_key entries) (lock\<lparr>il_instance_id := iid\<rparr>)"
      using manager_okD(3) [OF ok 2(1)] by (simp add: lock_filed_def)
    then show ?thesis using put_lock_manager_ok(2) [OF ok] agree by (simp add: 2(2) locks_agree_def)
  next
    case (3 lock)
    then have "lock_filed st (lock_key entries) (lock\<lparr>il_instance_id := iid\<rparr>)"
      using manager_okD(2) [OF ok 3(1)] by (simp add: lock_filed_def)
    then show ?thesis using put_lock_manager_ok(1) [OF ok] agree 3(1)
      by (auto simp: 3(2) locks_agree_def lock_values_def)
  qed
qed
section \<open>Reset\<close>

definition reset_hit :: "(InstanceLockKey, MapDb2Entries) hash_map \<Rightarrow> InstanceResetTime \<Rightarrow> InstanceLockKey \<Rightarrow> InstanceLock \<Rightarrow> bool" where
  "reset_hit entries_by_key now key lock \<longleftrightarrow>
     resettable None None now lock \<and> \<not> il_is_in_use lock \<and> hm_get entries_by_key key \<noteq> None"

definition reset_lock ::
  "(InstanceLockKey, MapDb2Entries) hash_map \<Rightarrow> ResetSchedule \<Rightarrow> InstanceResetTime \<Rightarrow> InstanceLockKey \<Rightarrow> InstanceLock \<Rightarrow> InstanceLock" where
  "reset_lock entries_by_key schedule now key lock =
     (if reset_hit entries_by_key now key lock
      then force_expired (the (hm_get entries_by_key key)) schedule now lock else lock)"

lemma reset_locks_loop_spec:
  "snd (reset_locks_loop None None ebk schedule now ls) = map (\<lambda>(k, l). (k, reset_lock ebk schedule now k l)) ls \<and>
   reset_locks (fst (reset_locks_loop None None ebk schedule now ls)) =
     map (\<lambda>(k, l). reset_lock ebk schedule now k l) (filter (\<lambda>(k, l). reset_hit ebk now k l) ls)"
proof (induction ls)
  case (Cons x ls)
  obtain k l where "x = (k, l)" by (cases x)
  with Cons show ?case
    by (auto simp: case_prod_unfold reset_lock_def reset_hit_def Let_def split: option.splits)
qed simp

lemma map_of_map_keyed: "map_of (map (\<lambda>(k, l). (k, f k l)) ls) k = map_option (f k) (map_of ls k)"
  by (induction ls) auto

lemma expire_effect:
  assumes "distinct (map fst xs)"
  shows "\<exists>db'. plan_effect (map (\<lambda>(k, v). ForceExpireCharacterLock v c (fst k) (snd k)) xs) db = Some db' \<and>
     (\<forall>c' a b. hm_get (tbl_locks db') (c', a, b) =
        (case (if c' = c then map_of xs (a, b) else None) of None \<Rightarrow> hm_get (tbl_locks db) (c', a, b)
         | Some v \<Rightarrow> map_option (\<lambda>row. row\<lparr>l_expiryTime := v, l_extended := 0\<rparr>) (hm_get (tbl_locks db) (c', a, b))))"
  using assms
proof (induction xs arbitrary: db)
  case (Cons x xs)
  obtain a b v where x: "x = ((a, b), v)" by (metis prod.exhaust)
  have new: "map_of xs (a, b) = None" using Cons.prems by (simp add: x map_of_eq_None_iff)
  let ?db = "db\<lparr>tbl_locks := hm_modify (c, a, b) (\<lambda>row. row\<lparr>l_expiryTime := v, l_extended := 0\<rparr>) (tbl_locks db)\<rparr>"
  have "distinct (map fst xs)" using Cons.prems by simp
  from Cons.IH [OF this, of ?db] obtain db' where "plan_effect (map (\<lambda>(k, v). ForceExpireCharacterLock v c (fst k) (snd k)) xs) ?db = Some db'"
    and db': "\<And>c' a b. hm_get (tbl_locks db') (c', a, b) =
        (case (if c' = c then map_of xs (a, b) else None) of None \<Rightarrow> hm_get (tbl_locks ?db) (c', a, b)
         | Some v \<Rightarrow> map_option (\<lambda>row. row\<lparr>l_expiryTime := v, l_extended := 0\<rparr>) (hm_get (tbl_locks ?db) (c', a, b)))"
    by blast
  then show ?case using new by (auto simp: x split: option.split)
qed simp

lemma reset_entries_snoc:
  "reset_entries_by_key st (ds @ [x]) =
     (case from_stores_like_cpp (lock_maps st) (lock_map_difficulties st) (fst x) (snd x) of
        None \<Rightarrow> reset_entries_by_key st ds
      | Some entries \<Rightarrow> hm_insert (lock_key entries) entries (reset_entries_by_key st ds))"
  by (cases x) (simp add: reset_entries_by_key_def split: option.split)

lemma reset_entries_get:
  assumes "hm_get (reset_entries_by_key st ds) k = Some e"
  shows "\<exists>mapid d. (mapid, d) \<in> set ds \<and>
     from_stores_like_cpp (lock_maps st) (lock_map_difficulties st) mapid d = Some e \<and> lock_key e = k"
  using assms
proof (induction ds arbitrary: e rule: rev_induct)
  case (snoc x ds)
  show ?case
  proof (cases "hm_get (reset_entries_by_key st ds) k = Some e")
    case True
    from snoc.IH [OF this] show ?thesis by fastforce
  next
    case False
    with snoc.prems show ?thesis
      by (cases x) (auto simp: reset_entries_snoc split: option.splits if_splits)
  qed
qed (simp add: reset_entries_by_key_def)

lemma reset_entries_ok: "hm_ok (reset_entries_by_key st ds)"
  by (induction ds rule: rev_induct)
    (auto simp: reset_entries_snoc distinct_update split: option.split, simp add: reset_entries_by_key_def)

lemma from_stores_names:
  "from_stores_like_cpp ms s mapid d = Some e \<Longrightarrow> db2_map_id e = mapid \<and> db2_difficulty_id e = d"
  by (auto simp: from_stores_like_cpp_def db2_entries_def split: option.splits)

lemma player_lock_difficulties:
  "hm_get (instance_locks_by_player m) player = Some ls \<Longrightarrow>
   set (player_lock_map_difficulties m player) = (\<lambda>(_, l). (il_map_id l, il_difficulty_id l)) ` set ls"
  by (force simp: player_lock_map_difficulties_def hm_values_def)

text \<open>The entries of a key are those of the lock filed under it.\<close>

lemma reset_entries_lock:
  assumes ls: "hm_get (instance_locks_by_player m) player = Some ls" and ok: "manager_ok st m"
    and l: "(k, l) \<in> set ls"
    and e: "hm_get (reset_entries_by_key st (player_lock_map_difficulties m player)) k = Some e"
  shows "find (\<lambda>entries. db2_map_id entries = il_map_id l \<and> db2_difficulty_id entries = il_difficulty_id l)
     (hm_values (reset_entries_by_key st (player_lock_map_difficulties m player))) = Some e \<and> lock_key e = k"
proof -
  let ?ebk = "reset_entries_by_key st (player_lock_map_difficulties m player)"
  let ?find = "find (\<lambda>entries. db2_map_id entries = il_map_id l \<and> db2_difficulty_id entries = il_difficulty_id l) (hm_values ?ebk)"
  have distinct: "hm_ok ls" using manager_okD(1) [OF ok ls] .
  have filed: "lock_filed st k' l'" if "(k', l') \<in> set ls" for k' l'
    using that ls distinct by (intro manager_okD(2) [OF ok, of player]) (simp add: player_lock_def hm_mem_get)
  have entry: "\<exists>k' l'. (k', l') \<in> set ls \<and> lock_key e' = k' \<and>
      from_stores_like_cpp (lock_maps st) (lock_map_difficulties st) (il_map_id l') (il_difficulty_id l') = Some e'"
    if get: "hm_get ?ebk k'' = Some e'" for k'' e'
  proof -
    obtain l' k' where "(k', l') \<in> set ls"
      "from_stores_like_cpp (lock_maps st) (lock_map_difficulties st) (il_map_id l') (il_difficulty_id l') = Some e'"
      using reset_entries_get [OF get] unfolding player_lock_difficulties [OF ls] by auto
    then show ?thesis using filed by (fastforce simp: lock_filed_def)
  qed
  have own: "from_stores_like_cpp (lock_maps st) (lock_map_difficulties st) (il_map_id l) (il_difficulty_id l) = Some e
      \<and> lock_key e = k"
  proof -
    have key: "lock_key e = k" using reset_entries_get [OF e] by blast
    obtain l' where l': "(k, l') \<in> set ls"
      "from_stores_like_cpp (lock_maps st) (lock_map_difficulties st) (il_map_id l') (il_difficulty_id l') = Some e"
      using entry [OF e] key by auto
    have "l' = l" using l l'(1) distinct by (meson eq_key_imp_eq_value)
    then show ?thesis using l' key by simp
  qed
  have mem: "e \<in> set (hm_values ?ebk)" using e by (force simp: hm_values_def dest: hm_get_mem)
  then obtain e1 where e1: "?find = Some e1"
    using from_stores_names [OF conjunct1 [OF own]] by (cases ?find) (auto simp: find_None_iff)
  then have m1: "e1 \<in> set (hm_values ?ebk)" "db2_map_id e1 = il_map_id l" "db2_difficulty_id e1 = il_difficulty_id l"
    by (auto simp: find_Some_iff)
  then obtain k1 where "hm_get ?ebk k1 = Some e1"
    using hm_mem_get [OF reset_entries_ok] by (force simp: hm_values_def)
  from entry [OF this] have "from_stores_like_cpp (lock_maps st) (lock_map_difficulties st) (il_map_id l) (il_difficulty_id l) = Some e1"
    using m1 from_stores_names by fastforce
  then show ?thesis using e1 own by simp
qed
lemma reset_mutations:
  assumes ls: "hm_get (instance_locks_by_player m) player = Some ls" and ok: "manager_ok st m"
    and ebk: "ebk = reset_entries_by_key st (player_lock_map_difficulties m player)"
  shows "force_expire_mutations player ebk (reset_locks (fst (reset_locks_loop None None ebk schedule now ls))) =
     map (\<lambda>(k, v). ForceExpireCharacterLock v (guid_counter player) (fst k) (snd k))
       (map (\<lambda>(k, l). (k, il_expiry_time (reset_lock ebk schedule now k l))) (filter (\<lambda>(k, l). reset_hit ebk now k l) ls))"
proof -
  have one: "(case find (\<lambda>entries. db2_map_id entries = il_map_id (reset_lock ebk schedule now k l) \<and>
          db2_difficulty_id entries = il_difficulty_id (reset_lock ebk schedule now k l)) (hm_values ebk) of
        None \<Rightarrow> []
      | Some entries \<Rightarrow> [force_expire_character_instance_lock_mutation player entries
          (il_expiry_time (reset_lock ebk schedule now k l))]) =
      [ForceExpireCharacterLock (il_expiry_time (reset_lock ebk schedule now k l)) (guid_counter player) (fst k) (snd k)]"
    if kl: "(k, l) \<in> set ls" "reset_hit ebk now k l" for k l
  proof -
    obtain e where e: "hm_get ebk k = Some e" using kl(2) by (auto simp: reset_hit_def)
    have "il_map_id (reset_lock ebk schedule now k l) = il_map_id l"
      "il_difficulty_id (reset_lock ebk schedule now k l) = il_difficulty_id l"
      by (simp_all add: reset_lock_def force_expired_def)
    then show ?thesis
      using reset_entries_lock [OF ls ok kl(1) e [unfolded ebk], folded ebk]
      by (auto simp: force_expire_character_instance_lock_mutation_def lock_key_def)
  qed
  have "concat (map (\<lambda>lock. (case find (\<lambda>entries. db2_map_id entries = il_map_id lock \<and>
          db2_difficulty_id entries = il_difficulty_id lock) (hm_values ebk) of
        None \<Rightarrow> []
      | Some entries \<Rightarrow> [force_expire_character_instance_lock_mutation player entries (il_expiry_time lock)]))
        (map (\<lambda>(k, l). reset_lock ebk schedule now k l) (filter (\<lambda>(k, l). reset_hit ebk now k l) xs))) =
     map (\<lambda>(k, v). ForceExpireCharacterLock v (guid_counter player) (fst k) (snd k))
       (map (\<lambda>(k, l). (k, il_expiry_time (reset_lock ebk schedule now k l))) (filter (\<lambda>(k, l). reset_hit ebk now k l) xs))"
    if "set xs \<subseteq> set ls" for xs
    using that
  proof (induction xs)
    case (Cons x xs)
    obtain k l where x: "x = (k, l)" by (cases x)
    show ?case
    proof (cases "reset_hit ebk now k l")
      case True
      have "(k, l) \<in> set ls" using Cons.prems x by simp
      from one [OF this True] show ?thesis using Cons True by (simp add: x)
    next
      case False
      then show ?thesis using Cons by (simp add: x)
    qed
  qed simp
  then show ?thesis by (simp add: force_expire_mutations_def conjunct2 [OF reset_locks_loop_spec])
qed

lemma reset_agrees:
  assumes ok: "manager_ok st m" and agree: "locks_agree realm m db" and player: "realm_player realm player"
    and ebk: "ebk = reset_entries_by_key st (player_lock_map_difficulties m player)"
    and u: "reset_instance_locks_for_player_with_persistence_at [] player None None ebk schedule now m = (r, plan, m')"
  shows "\<exists>db'. plan_effect plan db = Some db' \<and> locks_agree realm m' db' \<and> manager_ok st m'"
proof (cases "hm_get (instance_locks_by_player m) player")
  case None
  then have "plan = []" "m' = m" using u
    by (simp_all add: reset_instance_locks_for_player_with_persistence_at_def reset_instance_locks_for_player_at_def
        force_expire_mutations_def)
  then show ?thesis using ok agree by simp
next
  case (Some ls)
  let ?new = "\<lambda>k l. reset_lock ebk schedule now k l"
  let ?ls = "map (\<lambda>(k, l). (k, ?new k l)) ls"
  let ?hits = "map (\<lambda>(k, l). (k, il_expiry_time (?new k l))) (filter (\<lambda>(k, l). reset_hit ebk now k l) ls)"
  have distinct: "hm_ok ls" using manager_okD(1) [OF ok Some] .
  have m': "m' = m\<lparr>instance_locks_by_player := hm_insert player ?ls (instance_locks_by_player m)\<rparr>"
    and plan: "plan = map (\<lambda>(k, v). ForceExpireCharacterLock v (guid_counter player) (fst k) (snd k)) ?hits"
    using u Some reset_mutations [OF Some ok ebk, of schedule now] reset_locks_loop_spec [of ebk schedule now ls]
    by (auto simp: reset_instance_locks_for_player_with_persistence_at_def reset_instance_locks_for_player_at_def
        split: prod.splits)
  have perm: "player_lock (instance_locks_by_player m') p k =
      (if p = player then map_option (?new k) (hm_get ls k) else player_lock (instance_locks_by_player m) p k)" for p k
    by (simp add: m' player_lock_def update_conv' map_of_map_keyed)
  have own: "player_lock (instance_locks_by_player m) player k = hm_get ls k" for k
    by (simp add: player_lock_def Some)
  have filed: "lock_filed st k (?new k l) = lock_filed st k l" for k l
    by (simp add: lock_filed_def reset_lock_def force_expired_def)
  have "map fst ?ls = map fst ls" by (simp add: case_prod_unfold comp_def)
  then have "hm_ok ?ls" using distinct by (simp only:)
  then have "manager_ok st m'"
    using manager_okD [OF ok] unfolding manager_ok_def perm
    by (auto simp: m' filed update_conv' simp flip: own split: if_splits)
  moreover have hits: "map_of ?hits k = (case hm_get ls k of None \<Rightarrow> None
      | Some l \<Rightarrow> if reset_hit ebk now k l then Some (il_expiry_time (?new k l)) else None)" for k
    using distinct by (simp add: map_of_map_keyed map_of_filter_distinct split: option.split)
  moreover have "distinct (map fst ?hits)"
    using distinct by (simp add: case_prod_unfold comp_def distinct_map_filter)
  from expire_effect [OF this, of "guid_counter player" db] obtain db' where
    db': "plan_effect plan db = Some db'"
    and rows: "\<And>c' a b. hm_get (tbl_locks db') (c', a, b) =
        (case (if c' = guid_counter player then map_of ?hits (a, b) else None) of
           None \<Rightarrow> hm_get (tbl_locks db) (c', a, b)
         | Some v \<Rightarrow> map_option (\<lambda>row. row\<lparr>l_expiryTime := v, l_extended := 0\<rparr>) (hm_get (tbl_locks db) (c', a, b)))"
    unfolding plan by blast
  have "locks_agree realm m' db'"
    unfolding locks_agree_def
  proof (intro allI impI)
    fix p a b assume p: "realm_player realm p"
    have old: "map_option row_values (hm_get (tbl_locks db) (guid_counter p, a, b)) =
        map_option lock_values (player_lock (instance_locks_by_player m) p (a, b))"
      using agree p unfolding locks_agree_def by blast
    show "map_option row_values (hm_get (tbl_locks db') (guid_counter p, a, b)) =
        map_option lock_values (player_lock (instance_locks_by_player m') p (a, b))"
    proof (cases "p = player")
      case False
      then have "guid_counter p \<noteq> guid_counter player" using realm_player_inj [OF p player] by blast
      then show ?thesis using old False by (simp add: rows perm)
    next
      case True
      show ?thesis
      proof (cases "hm_get ls (a, b)")
        case None
        then show ?thesis using old by (simp add: True rows perm hits own)
      next
        case (Some l)
        then have "map_option row_values (hm_get (tbl_locks db) (guid_counter player, a, b)) = Some (lock_values l)"
          using old by (simp add: True own)
        moreover have "hm_get (tbl_locks db') (guid_counter player, a, b) =
            (if reset_hit ebk now (a, b) l
             then map_option (\<lambda>row. row\<lparr>l_expiryTime := il_expiry_time (?new (a, b) l), l_extended := 0\<rparr>)
               (hm_get (tbl_locks db) (guid_counter player, a, b))
             else hm_get (tbl_locks db) (guid_counter player, a, b))"
          using Some by (simp add: rows hits)
        ultimately show ?thesis using Some
          by (auto simp: True perm reset_lock_def row_values_def lock_values_def force_expired_def)
      qed
    qed
  qed
  ultimately show ?thesis using db' by blast
qed
section \<open>Runs\<close>

fun lock_op_player :: "LockOp \<Rightarrow> ObjectGuid" where
  "lock_op_player (CreateLock player mapid d iid) = player"
| "lock_op_player (SetLockInstance player mapid d iid) = player"
| "lock_op_player (ConfirmBind player mapid d iid completed) = player"
| "lock_op_player (UpdateLock player mapid d event) = player"
| "lock_op_player (ExtendLock player mapid d extended) = player"
| "lock_op_player (ResetLocks player) = player"

fun run_lock_session ::
  "LockStores \<Rightarrow> (nat list \<times> ResetSchedule \<times> InstanceResetTime \<times> LockOp) list \<Rightarrow> InstanceLockMgr \<Rightarrow> InstanceLockTables
     \<Rightarrow> (InstanceLockPersistenceOutcomeLikeCpp list \<times> InstanceLockMgr \<times> InstanceLockTables) option" where
  "run_lock_session st [] m db = Some ([], m, db)"
| "run_lock_session st ((held, schedule, now, op) # ops) m db =
     (case run_lock_op st held schedule now op m of (plan, m') \<Rightarrow>
       (case commit_plan_like_cpp lock_transaction plan db of
          None \<Rightarrow> None
        | Some (outcome, db') \<Rightarrow>
            (case run_lock_session st ops m' db' of
               None \<Rightarrow> None | Some (outcomes, m'', db'') \<Rightarrow> Some (outcome # outcomes, m'', db''))))"

lemma run_lock_op_agrees:
  assumes ok: "manager_ok st m" and agree: "locks_agree realm m db" and stores: "difficulty_store_ok (lock_map_difficulties st)"
    and player: "realm_player realm (lock_op_player op)" and run: "run_lock_op st held schedule now op m = (plan, m')"
  shows "\<exists>db'. plan_effect plan db = Some db' \<and> locks_agree realm m' db' \<and> manager_ok st m'"
proof -
  have update_op: "\<exists>db'. plan_effect plan db = Some db' \<and> locks_agree realm m' db' \<and> manager_ok st m'"
    if op: "run_lock_op st held schedule now (UpdateLock player mapid d event) m = (plan, m')"
      and p: "realm_player realm player"
    for player mapid d event
  proof (cases "session_entries st mapid d")
    case None
    then show ?thesis using op ok agree by (auto simp: run_lock_op_def)
  next
    case (Some entries)
    then obtain r where
      "update_instance_lock_for_player_with_persistence_at held [] player entries event schedule now m = (r, plan, m')"
      using op
      by (cases "update_instance_lock_for_player_with_persistence_at held [] player entries event schedule now m")
        (auto simp: run_lock_op_def)
    then show ?thesis
      using update_agrees [OF ok agree p session_entries_key [OF stores Some]] by blast
  qed
  show ?thesis
  proof (cases op)
    case (CreateLock player mapid d iid)
    show ?thesis
    proof (cases "session_entries st mapid d")
      case None
      then show ?thesis using run ok agree
        by (auto simp: CreateLock run_lock_op_def create_instance_lock_for_new_instance_side_effect_like_cpp_def)
    next
      case (Some entries)
      then have r: "plan = []" "m' = snd (create_instance_lock_for_new_instance_at player entries iid schedule now m)"
        using run by (auto simp: CreateLock run_lock_op_def create_instance_lock_for_new_instance_side_effect_like_cpp_def
            split: prod.splits)
      from create_agrees [OF ok agree session_entries_key [OF stores Some] r(2)] show ?thesis by (simp add: r(1))
    qed
  next
    case (SetLockInstance player mapid d iid)
    show ?thesis
    proof (cases "session_entries st mapid d")
      case None
      then show ?thesis using run ok agree
        by (auto simp: SetLockInstance run_lock_op_def set_active_instance_lock_instance_id_side_effect_like_cpp_def)
    next
      case (Some entries)
      then have r: "plan = []" "m' = snd (set_active_instance_lock_instance_id_at player entries now iid m)"
        using run by (auto simp: SetLockInstance run_lock_op_def
            set_active_instance_lock_instance_id_side_effect_like_cpp_def)
      from set_instance_agrees [OF ok agree r(2)] show ?thesis by (simp add: r(1))
    qed
  next
    case (ConfirmBind player mapid d iid completed)
    let ?event = "\<lparr>event_instance_id = iid, event_new_data = [], instance_completed_encounters_mask = completed,
        completed_encounter_bit = None, event_entrance_world_safe_loc_id = None\<rparr>"
    have "run_lock_op st held schedule now (UpdateLock player mapid d ?event) m = (plan, m')"
      using run by (auto simp: ConfirmBind run_lock_op_def confirm_pending_bind_like_cpp_def Let_def
          split: option.splits prod.splits)
    then show ?thesis using update_op player by (simp add: ConfirmBind)
  next
    case (UpdateLock player mapid d event)
    then show ?thesis using update_op run player by simp
  next
    case (ExtendLock player mapid d extended)
    show ?thesis
    proof (cases "session_entries st mapid d")
      case None
      then show ?thesis using run ok agree by (auto simp: ExtendLock run_lock_op_def set_saved_instance_extend_def)
    next
      case (Some entries)
      then obtain r where "update_instance_lock_extension_for_player_with_persistence_at [] player entries extended
          schedule now m = (r, plan, m')"
        using run
        by (cases "update_instance_lock_extension_for_player_with_persistence_at [] player entries extended schedule now m")
          (auto simp: ExtendLock run_lock_op_def set_saved_instance_extend_def)
      then show ?thesis using extension_agrees [OF ok agree] player by (auto simp: ExtendLock)
    qed
  next
    case (ResetLocks player)
    let ?ebk = "reset_entries_by_key st (player_lock_map_difficulties m player)"
    obtain r where "reset_instance_locks_for_player_with_persistence_at [] player None None ?ebk
        ResetSchedule_default now m = (r, plan, m')"
      using run
      by (cases "reset_instance_locks_for_player_with_persistence_at [] player None None ?ebk ResetSchedule_default now m")
        (auto simp: ResetLocks run_lock_op_def reset_represented_instances_like_cpp_def)
    then show ?thesis using reset_agrees [OF ok agree] player by (auto simp: ResetLocks)
  qed
qed

lemma run_lock_session_agrees:
  assumes "manager_ok st m" "locks_agree realm m db" "difficulty_store_ok (lock_map_difficulties st)"
    and "\<forall>x \<in> set ops. realm_player realm (lock_op_player (snd (snd (snd x))))"
  shows "\<exists>m' db'. run_lock_session st ops m db = Some (replicate (length ops) LocksCommitted, m', db') \<and>
     locks_agree realm m' db'"
  using assms
proof (induction ops arbitrary: m db)
  case (Cons x ops)
  obtain held schedule now op where x: "x = (held, schedule, now, op)" by (metis prod.exhaust)
  obtain plan m1 where run: "run_lock_op st held schedule now op m = (plan, m1)" by fastforce
  obtain db1 where e: "plan_effect plan db = Some db1" and i: "locks_agree realm m1 db1" "manager_ok st m1"
    using run_lock_op_agrees [OF Cons.prems(1,2,3) _ run] Cons.prems(4) by (auto simp: x)
  obtain m' db' where "run_lock_session st ops m1 db1 = Some (replicate (length ops) LocksCommitted, m', db')"
    "locks_agree realm m' db'"
    using Cons.IH [OF i(2,1) Cons.prems(3)] Cons.prems(4) by auto
  then show ?case by (simp add: x run commit_effect [OF e])
qed simp

lemma default_agrees:
  "manager_ok st InstanceLockMgr_default" "locks_agree realm InstanceLockMgr_default \<lparr>tbl_locks = [], tbl_instances = []\<rparr>"
  by (simp_all add: manager_ok_def locks_agree_def InstanceLockMgr_default_def player_lock_def)


definition weekly_row :: MapDifficultyEntry where
  "weekly_row = \<lparr>md_id = 1, md_message = [], md_map_id = 631, md_difficulty_id = 4, md_lock_id = 7,
     md_reset_interval = 2, md_max_players = 25, md_flags = 0\<rparr>"

definition raid_map :: MapEntry where
  "raid_map = \<lparr>me_id = 631, me_instance_type = 2, me_expansion_id = 2, me_parent_map_id = 0,
     me_cosmetic_parent_map_id = 0, me_flags1 = 0, me_flags2 = 0\<rparr>"

definition raid_stores :: LockStores where
  "raid_stores = \<lparr>lock_maps = map_store_from_entries [raid_map],
     lock_map_difficulties = map_difficulties_from_entries [weekly_row],
     lock_difficulties = difficulties_from_entries []\<rparr>"

definition raid_evening :: "(nat list \<times> ResetSchedule \<times> InstanceResetTime \<times> LockOp) list" where
  "raid_evening =
     [([], ResetSchedule_default, 1700000000, CreateLock (create_player 1 42) 631 4 77),
      ([], ResetSchedule_default, 1700000050, ConfirmBind (create_player 1 42) 631 4 77 1),
      ([], ResetSchedule_default, 1700000100, UpdateLock (create_player 1 42) 631 4 second_boss),
      ([], ResetSchedule_default, 1700000200, ExtendLock (create_player 1 42) 631 4 True),
      ([], ResetSchedule_default, 1700000300, ResetLocks (create_player 1 42))]"


end
