(* ===== verification/InstanceScript.thy ===== *)
theory InstanceScript
  imports InstanceLocks
begin

text \<open>
  The base of instance scripts (\<open>crates/wow-instances/src/instances/state_1.rs\<close>, \<open>state_2.rs\<close>):
  encounter states, combat resurrections, entrances, area triggers, and the save data.

  \<open>serde_json\<close> is a parameter: \<open>quote\<close> writes a string, \<open>show_f64\<close> a finite number, \<open>parse\<close> reads a
  text, and \<open>as_f64\<close> converts an integer outside the range of \<open>i64\<close>.  Values are as that
  library's \<open>Value\<close> has them, an \<open>f64\<close> as its bits.
\<close>

section \<open>Encounter states\<close>

datatype EncounterState = NotStarted | InProgress | EncounterFail | EncounterDone | Special | ToBeDecided

fun EncounterState_as_u8 :: "EncounterState \<Rightarrow> u8" where
  "EncounterState_as_u8 NotStarted = 0"
| "EncounterState_as_u8 InProgress = 1"
| "EncounterState_as_u8 EncounterFail = 2"
| "EncounterState_as_u8 EncounterDone = 3"
| "EncounterState_as_u8 Special = 4"
| "EncounterState_as_u8 ToBeDecided = 5"

definition from_i64_like_cpp :: "int \<Rightarrow> EncounterState option" where
  "from_i64_like_cpp v =
     (if v = 0 then Some NotStarted else if v = 1 then Some InProgress else if v = 2 then Some EncounterFail
      else if v = 3 then Some EncounterDone else if v = 4 then Some Special else if v = 5 then Some ToBeDecided
      else None)"

fun save_load_normalized_like_cpp :: "EncounterState \<Rightarrow> EncounterState" where
  "save_load_normalized_like_cpp InProgress = NotStarted"
| "save_load_normalized_like_cpp EncounterFail = NotStarted"
| "save_load_normalized_like_cpp Special = NotStarted"
| "save_load_normalized_like_cpp other = other"

section \<open>Combat resurrections\<close>

datatype CombatResurrectionEvent = GainCharge u8 u32 | InCombatResurrection

record CombatResurrectionTracker =
  charges :: u8
  timer_ms :: u32
  timer_started :: bool

definition CombatResurrectionTracker_default :: CombatResurrectionTracker where
  "CombatResurrectionTracker_default = \<lparr>charges = 0, timer_ms = 0, timer_started = False\<rparr>"

definition combat_resurrection_charge_interval_like_cpp :: "u32 \<Rightarrow> u32" where
  "combat_resurrection_charge_interval_like_cpp players =
     (if players = 0 then 0 else (90 * 60 * 1000) div players)"

definition tracker_initialize_like_cpp ::
  "u8 \<Rightarrow> u32 \<Rightarrow> CombatResurrectionTracker \<Rightarrow> CombatResurrectionTracker" where
  "tracker_initialize_like_cpp n interval_ms t =
     (if interval_ms = 0 then t\<lparr>charges := n\<rparr>
      else t\<lparr>charges := n, timer_ms := interval_ms, timer_started := True\<rparr>)"

definition tracker_reset_like_cpp :: "CombatResurrectionTracker \<Rightarrow> CombatResurrectionTracker" where
  "tracker_reset_like_cpp t = t\<lparr>charges := 0, timer_ms := 0, timer_started := False\<rparr>"

definition add_charge_like_cpp ::
  "u32 \<Rightarrow> CombatResurrectionTracker \<Rightarrow> CombatResurrectionEvent \<times> CombatResurrectionTracker" where
  "add_charge_like_cpp players t =
     (let t1 = t\<lparr>charges := charges t + 1,
                 timer_ms := combat_resurrection_charge_interval_like_cpp players\<rparr>
      in (GainCharge (charges t1) (timer_ms t1), t1))"

definition use_charge_like_cpp :: "CombatResurrectionTracker \<Rightarrow> CombatResurrectionEvent \<times> CombatResurrectionTracker" where
  "use_charge_like_cpp t = (InCombatResurrection, t\<lparr>charges := charges t - 1\<rparr>)"

definition tracker_update_like_cpp ::
  "u32 \<Rightarrow> u32 \<Rightarrow> CombatResurrectionTracker \<Rightarrow> CombatResurrectionEvent option \<times> CombatResurrectionTracker" where
  "tracker_update_like_cpp diff_ms players t =
     (if \<not> timer_started t then (None, t)
      else if timer_ms t \<le> diff_ms
      then (case add_charge_like_cpp players t of (e, t1) \<Rightarrow> (Some e, t1))
      else (None, t\<lparr>timer_ms := timer_ms t - diff_ms\<rparr>))"

section \<open>Bosses\<close>

record DungeonEncounterEntry =
  enc_id :: u32
  enc_map_id :: i16
  enc_difficulty_id :: i32
  enc_order_index :: i32
  enc_bit :: i8
  enc_flags :: i32
  enc_faction :: i32

type_synonym DungeonEncounterStore = "(u32, DungeonEncounterEntry) hash_map"

definition dungeon_encounters_from_entries :: "DungeonEncounterEntry list \<Rightarrow> DungeonEncounterStore" where
  "dungeon_encounters_from_entries rows = fold (\<lambda>row. hm_insert (enc_id row) row) rows []"

record DungeonEncounterData =
  row_boss_id :: u32
  dungeon_encounter_ids :: "u32 list"

record BossInfo =
  boss_encounter_state :: EncounterState
  dungeon_encounters :: "u32 option list"

definition BossInfo_default :: BossInfo where
  "BossInfo_default =
     \<lparr>boss_encounter_state = ToBeDecided, dungeon_encounters = replicate MAX_DUNGEON_ENCOUNTERS_PER_BOSS None\<rparr>"

text \<open>\<open>flatten\<close> and the lookup of each identifier.\<close>

definition boss_encounters :: "DungeonEncounterStore \<Rightarrow> BossInfo \<Rightarrow> DungeonEncounterEntry list" where
  "boss_encounters store b =
     List.map_filter (\<lambda>slot. case slot of None \<Rightarrow> None | Some i \<Rightarrow> hm_get store i) (dungeon_encounters b)"

definition dungeon_encounter_for_difficulty ::
  "DungeonEncounterStore \<Rightarrow> u32 \<Rightarrow> BossInfo \<Rightarrow> DungeonEncounterEntry option" where
  "dungeon_encounter_for_difficulty store d b =
     find (\<lambda>e. enc_difficulty_id e = 0 \<or> (0 \<le> sint (enc_difficulty_id e) \<and> sint (enc_difficulty_id e) = uint d))
       (boss_encounters store b)"

datatype PersistentInstanceScriptValue = I64 i64 | F64 u64

record InstanceScriptBase =
  script_difficulty_id :: u32
  script_header :: string
  bosses :: "BossInfo list"
  persistent_values :: "(string \<times> PersistentInstanceScriptValue) list"
  combat_resurrections :: CombatResurrectionTracker
  entrance_id :: u32
  temporary_entrance_id :: u32
  activated_area_triggers :: "u32 list"

definition script_new :: "u32 \<Rightarrow> nat \<Rightarrow> InstanceScriptBase" where
  "script_new d boss_count =
     \<lparr>script_difficulty_id = d, script_header = [], bosses = replicate boss_count BossInfo_default,
      persistent_values = [], combat_resurrections = CombatResurrectionTracker_default, entrance_id = 0,
      temporary_entrance_id = 0, activated_area_triggers = []\<rparr>"

definition set_header :: "string \<Rightarrow> InstanceScriptBase \<Rightarrow> InstanceScriptBase" where
  "set_header h s = s\<lparr>script_header := h\<rparr>"

definition boss_count :: "InstanceScriptBase \<Rightarrow> nat" where "boss_count s = length (bosses s)"

definition boss :: "InstanceScriptBase \<Rightarrow> u32 \<Rightarrow> BossInfo option" where
  "boss s i = (if unat i < length (bosses s) then Some (bosses s ! unat i) else None)"

definition is_encounter_in_progress_like_cpp :: "InstanceScriptBase \<Rightarrow> bool" where
  "is_encounter_in_progress_like_cpp s = list_ex (\<lambda>b. boss_encounter_state b = InProgress) (bosses s)"

definition boss_state :: "InstanceScriptBase \<Rightarrow> u32 \<Rightarrow> EncounterState" where
  "boss_state s i = (case boss s i of None \<Rightarrow> ToBeDecided | Some b \<Rightarrow> boss_encounter_state b)"

text \<open>\<open>bosses.get_mut\<close> at an index in range.\<close>

definition put_boss_state :: "nat \<Rightarrow> EncounterState \<Rightarrow> InstanceScriptBase \<Rightarrow> InstanceScriptBase" where
  "put_boss_state i st s = s\<lparr>bosses := (bosses s)[i := (bosses s ! i)\<lparr>boss_encounter_state := st\<rparr>]\<rparr>"

definition set_boss_state_like_cpp :: "u32 \<Rightarrow> EncounterState \<Rightarrow> InstanceScriptBase \<Rightarrow> bool \<times> InstanceScriptBase" where
  "set_boss_state_like_cpp i st s =
     (if unat i < length (bosses s) then (True, put_boss_state (unat i) st s) else (False, s))"

record BossStateTransitionPlan =
  plan_boss_id :: u32
  previous_state :: EncounterState
  new_state :: EncounterState
  initialize_combat_resurrections :: bool
  reset_combat_resurrections :: bool
  send_encounter_start :: bool
  send_encounter_end :: bool
  notify_players_start :: bool
  notify_players_end :: bool
  plan_dungeon_encounter_id :: "u32 option"
  update_lock :: bool
  update_criteria :: bool
  send_boss_kill_credit :: bool
  update_lfg :: bool
  update_doors_minions_and_spawn_groups :: bool

definition set_boss_state_planned_like_cpp ::
  "DungeonEncounterStore \<Rightarrow> u32 \<Rightarrow> EncounterState \<Rightarrow> bool \<Rightarrow> InstanceScriptBase
     \<Rightarrow> BossStateTransitionPlan option \<times> InstanceScriptBase" where
  "set_boss_state_planned_like_cpp store i st has_alive_world_boss_minion s =
     (case boss s i of
        None \<Rightarrow> (None, s)
      | Some b \<Rightarrow>
          (let previous = boss_encounter_state b
           in if previous = ToBeDecided then (None, put_boss_state (unat i) st s)
              else if previous = st \<or> previous = EncounterDone then (None, s)
              else if st = EncounterDone \<and> has_alive_world_boss_minion then (None, s)
              else
               (let encounter =
                      (if st = EncounterDone
                       then map_option enc_id (dungeon_encounter_for_difficulty store (script_difficulty_id s) b)
                       else None);
                    ends = (st = EncounterFail \<or> st = EncounterDone)
                in (Some \<lparr>plan_boss_id = i, previous_state = previous, new_state = st,
                      initialize_combat_resurrections = (st = InProgress), reset_combat_resurrections = ends,
                      send_encounter_start = (st = InProgress), send_encounter_end = ends,
                      notify_players_start = (st = InProgress), notify_players_end = ends,
                      plan_dungeon_encounter_id = encounter, update_lock = (encounter \<noteq> None),
                      update_criteria = (encounter \<noteq> None), send_boss_kill_credit = (encounter \<noteq> None),
                      update_lfg = (encounter \<noteq> None), update_doors_minions_and_spawn_groups = True\<rparr>,
                    put_boss_state (unat i) st s))))"

text \<open>The loop passes \<open>boss_id as u32\<close>; a script never has \<open>2 ^ 32\<close> bosses, but the cast is kept.\<close>

definition create_like_cpp :: "InstanceScriptBase \<Rightarrow> InstanceScriptBase" where
  "create_like_cpp s =
     fold (\<lambda>i s. snd (set_boss_state_like_cpp (of_nat i) NotStarted s)) [0..<length (bosses s)] s"

section \<open>Values, resurrections, entrances, triggers\<close>

definition register_persistent_value_like_cpp ::
  "string \<Rightarrow> PersistentInstanceScriptValue \<Rightarrow> InstanceScriptBase \<Rightarrow> InstanceScriptBase" where
  "register_persistent_value_like_cpp name v s = s\<lparr>persistent_values := persistent_values s @ [(name, v)]\<rparr>"

definition persistent_value :: "InstanceScriptBase \<Rightarrow> string \<Rightarrow> PersistentInstanceScriptValue option" where
  "persistent_value s name = map_of (persistent_values s) name"

definition initialize_combat_resurrections_like_cpp :: "u8 \<Rightarrow> u32 \<Rightarrow> InstanceScriptBase \<Rightarrow> InstanceScriptBase" where
  "initialize_combat_resurrections_like_cpp n interval_ms s =
     s\<lparr>combat_resurrections := tracker_initialize_like_cpp n interval_ms (combat_resurrections s)\<rparr>"

definition reset_combat_resurrections_like_cpp :: "InstanceScriptBase \<Rightarrow> InstanceScriptBase" where
  "reset_combat_resurrections_like_cpp s =
     s\<lparr>combat_resurrections := tracker_reset_like_cpp (combat_resurrections s)\<rparr>"

definition update_combat_resurrection_like_cpp ::
  "u32 \<Rightarrow> u32 \<Rightarrow> InstanceScriptBase \<Rightarrow> CombatResurrectionEvent option \<times> InstanceScriptBase" where
  "update_combat_resurrection_like_cpp diff_ms players s =
     (case tracker_update_like_cpp diff_ms players (combat_resurrections s) of
        (e, t) \<Rightarrow> (e, s\<lparr>combat_resurrections := t\<rparr>))"

definition use_combat_resurrection_like_cpp :: "InstanceScriptBase \<Rightarrow> CombatResurrectionEvent \<times> InstanceScriptBase" where
  "use_combat_resurrection_like_cpp s =
     (case use_charge_like_cpp (combat_resurrections s) of (e, t) \<Rightarrow> (e, s\<lparr>combat_resurrections := t\<rparr>))"

definition set_entrance_location_like_cpp :: "u32 \<Rightarrow> InstanceScriptBase \<Rightarrow> InstanceScriptBase" where
  "set_entrance_location_like_cpp loc s = s\<lparr>entrance_id := loc, temporary_entrance_id := 0\<rparr>"

definition set_temporary_entrance_location_like_cpp :: "u32 \<Rightarrow> InstanceScriptBase \<Rightarrow> InstanceScriptBase" where
  "set_temporary_entrance_location_like_cpp loc s = s\<lparr>temporary_entrance_id := loc\<rparr>"

definition entrance_location_like_cpp :: "InstanceScriptBase \<Rightarrow> u32" where
  "entrance_location_like_cpp s =
     (if temporary_entrance_id s \<noteq> 0 then temporary_entrance_id s else entrance_id s)"

definition compute_entrance_location_for_completed_encounters_like_cpp ::
  "u32 \<Rightarrow> InstanceScriptBase \<Rightarrow> u32 option" where
  "compute_entrance_location_for_completed_encounters_like_cpp completed s = None"

definition entrance_location_for_completed_encounters_like_cpp ::
  "bool \<Rightarrow> u32 \<Rightarrow> InstanceScriptBase \<Rightarrow> u32 option" where
  "entrance_location_for_completed_encounters_like_cpp is_using_encounter_locks completed s =
     (if \<not> is_using_encounter_locks then Some (entrance_id s)
      else compute_entrance_location_for_completed_encounters_like_cpp completed s)"

definition mark_area_trigger_done_like_cpp :: "u32 \<Rightarrow> InstanceScriptBase \<Rightarrow> InstanceScriptBase" where
  "mark_area_trigger_done_like_cpp i s = s\<lparr>activated_area_triggers := List.insert i (activated_area_triggers s)\<rparr>"

definition reset_area_trigger_done_like_cpp :: "u32 \<Rightarrow> InstanceScriptBase \<Rightarrow> InstanceScriptBase" where
  "reset_area_trigger_done_like_cpp i s = s\<lparr>activated_area_triggers := removeAll i (activated_area_triggers s)\<rparr>"

definition is_area_trigger_done_like_cpp :: "u32 \<Rightarrow> InstanceScriptBase \<Rightarrow> bool" where
  "is_area_trigger_done_like_cpp i s = (i \<in> set (activated_area_triggers s))"
section \<open>Encounter metadata\<close>

definition load_dungeon_encounter_data ::
  "DungeonEncounterStore \<Rightarrow> u32 \<Rightarrow> u32 list \<Rightarrow> InstanceScriptBase \<Rightarrow> InstanceScriptBase" where
  "load_dungeon_encounter_data store i ids s =
     (case boss s i of
        None \<Rightarrow> s
      | Some b \<Rightarrow> s\<lparr>bosses := (bosses s)[unat i :=
          b\<lparr>dungeon_encounters := map (\<lambda>e. map_option enc_id (hm_get store e)) ids\<rparr>]\<rparr>)"

definition load_dungeon_encounter_data_rows ::
  "DungeonEncounterStore \<Rightarrow> DungeonEncounterData list \<Rightarrow> InstanceScriptBase \<Rightarrow> InstanceScriptBase" where
  "load_dungeon_encounter_data_rows store rows s =
     fold (\<lambda>row. load_dungeon_encounter_data store (row_boss_id row) (dungeon_encounter_ids row)) rows s"

definition boss_dungeon_encounter ::
  "DungeonEncounterStore \<Rightarrow> InstanceScriptBase \<Rightarrow> u32 \<Rightarrow> DungeonEncounterEntry option" where
  "boss_dungeon_encounter store s i =
     (case boss s i of None \<Rightarrow> None
      | Some b \<Rightarrow> dungeon_encounter_for_difficulty store (script_difficulty_id s) b)"

definition boss_dungeon_encounter_for_boss_ai ::
  "DungeonEncounterStore \<Rightarrow> InstanceScriptBase \<Rightarrow> u32 option \<Rightarrow> DungeonEncounterEntry option" where
  "boss_dungeon_encounter_for_boss_ai store s boss_ai =
     (case boss_ai of None \<Rightarrow> None | Some i \<Rightarrow> boss_dungeon_encounter store s i)"

definition is_encounter_completed_like_cpp :: "DungeonEncounterStore \<Rightarrow> InstanceScriptBase \<Rightarrow> u32 \<Rightarrow> bool" where
  "is_encounter_completed_like_cpp store s e =
     list_ex (\<lambda>b. list_ex (\<lambda>encounter. enc_id encounter = e) (boss_encounters store b) \<and>
                  boss_encounter_state b = EncounterDone) (bosses s)"

text \<open>\<open>u32::try_from(encounter.bit)\<close>, and a shift by its value modulo 32.\<close>

definition is_encounter_completed_in_mask_by_boss_id_like_cpp ::
  "DungeonEncounterStore \<Rightarrow> InstanceScriptBase \<Rightarrow> u32 \<Rightarrow> u32 \<Rightarrow> bool" where
  "is_encounter_completed_in_mask_by_boss_id_like_cpp store s completed i =
     (case boss_dungeon_encounter store s i of None \<Rightarrow> False
      | Some encounter \<Rightarrow>
          (if sint (enc_bit encounter) < 0 then False
           else completed AND push_bit (nat (sint (enc_bit encounter)) mod 32) 1 \<noteq> 0 \<and>
                boss_state s i = EncounterDone))"

section \<open>Save data\<close>

datatype json =
    JNull | JBool bool | JInt int | JFloat u64 | JString string | JArray "json list" | JObject "(string \<times> json) list"

definition INSTANCE_SCRIPT_HEADER_KEY :: string where "INSTANCE_SCRIPT_HEADER_KEY = ''Header''"
definition INSTANCE_SCRIPT_BOSS_STATES_KEY :: string where "INSTANCE_SCRIPT_BOSS_STATES_KEY = ''BossStates''"
definition INSTANCE_SCRIPT_ADDITIONAL_DATA_KEY :: string where "INSTANCE_SCRIPT_ADDITIONAL_DATA_KEY = ''AdditionalData''"

definition f64_is_finite :: "u64 \<Rightarrow> bool" where
  "f64_is_finite b = (drop_bit 52 b AND 0x7FF \<noteq> 0x7FF)"

fun to_json_value :: "PersistentInstanceScriptValue \<Rightarrow> json" where
  "to_json_value (I64 v) = JInt (sint v)"
| "to_json_value (F64 v) = (if f64_is_finite v then JFloat v else JNull)"

text \<open>\<open>as_i64\<close> and \<open>as_f64\<close> of a number.\<close>

fun json_as_i64 :: "json \<Rightarrow> i64 option" where
  "json_as_i64 (JInt n) = (if - (2 ^ 63) \<le> n \<and> n < 2 ^ 63 then Some (of_int n) else None)"
| "json_as_i64 _ = None"

fun json_as_f64 :: "(int \<Rightarrow> u64) \<Rightarrow> json \<Rightarrow> u64 option" where
  "json_as_f64 as_f64 (JInt n) = Some (as_f64 n)"
| "json_as_f64 as_f64 (JFloat v) = Some v"
| "json_as_f64 as_f64 _ = None"

definition from_json_number_like_cpp :: "(int \<Rightarrow> u64) \<Rightarrow> json \<Rightarrow> PersistentInstanceScriptValue option" where
  "from_json_number_like_cpp as_f64 j =
     (case json_as_i64 j of Some v \<Rightarrow> Some (I64 v) | None \<Rightarrow> map_option F64 (json_as_f64 as_f64 j))"

text \<open>\<open>Display\<close> of an integer.\<close>

fun show_nat :: "nat \<Rightarrow> string" where
  "show_nat n = (if n < 10 then [char_of (48 + n)] else show_nat (n div 10) @ [char_of (48 + n mod 10)])"

definition show_int :: "int \<Rightarrow> string" where
  "show_int i = (if i < 0 then CHR ''-'' # show_nat (nat (- i)) else show_nat (nat i))"

fun join_commas :: "string list \<Rightarrow> string" where
  "join_commas [] = []"
| "join_commas [x] = x"
| "join_commas (x # xs) = x @ CHR '','' # join_commas xs"

text \<open>\<open>Display\<close> of the numbers and nulls \<open>to_json_value\<close> answers.\<close>

definition show_value :: "(u64 \<Rightarrow> string) \<Rightarrow> PersistentInstanceScriptValue \<Rightarrow> string" where
  "show_value show_f64 v =
     (case to_json_value v of JInt n \<Rightarrow> show_int n | JFloat b \<Rightarrow> show_f64 b | _ \<Rightarrow> ''null'')"

abbreviation dquote :: char where "dquote \<equiv> CHR 0x22"

definition get_save_data_like_cpp :: "(string \<Rightarrow> string) \<Rightarrow> (u64 \<Rightarrow> string) \<Rightarrow> InstanceScriptBase \<Rightarrow> string" where
  "get_save_data_like_cpp quote show_f64 s =
     (let header = quote (script_header s);
          boss_states = join_commas (map (\<lambda>b. show_nat (unat (EncounterState_as_u8 (boss_encounter_state b)))) (bosses s));
          data = CHR ''{'' # dquote # INSTANCE_SCRIPT_HEADER_KEY @ [dquote, CHR '':''] @ header @ [CHR '','', dquote] @
                 INSTANCE_SCRIPT_BOSS_STATES_KEY @ [dquote, CHR '':'', CHR ''[''] @ boss_states @ [CHR '']''];
          additional = join_commas (map (\<lambda>(name, v). quote name @ CHR '':'' # show_value show_f64 v) (persistent_values s))
      in (if persistent_values s \<noteq> []
          then data @ [CHR '','', dquote] @ INSTANCE_SCRIPT_ADDITIONAL_DATA_KEY @ [dquote, CHR '':'', CHR ''{''] @
               additional @ [CHR ''}'']
          else data) @ [CHR ''}''])"

datatype InstanceScriptDataLoadError =
    MalformedJson | RootIsNotAnObject | MissingHeader | UnexpectedHeader | MissingBossStates
  | BossStatesIsNotAnArray | UnknownBoss | BossStateIsNotANumber | AdditionalDataIsNotAnObject
  | AdditionalDataUnexpectedValueType

fun load_boss_states ::
  "nat \<Rightarrow> json list \<Rightarrow> InstanceScriptBase \<Rightarrow> InstanceScriptDataLoadError option \<times> InstanceScriptBase" where
  "load_boss_states i [] s = (None, s)"
| "load_boss_states i (j # js) s =
     (if i \<ge> length (bosses s) then (Some UnknownBoss, s)
      else case json_as_i64 j of
        None \<Rightarrow> (Some BossStateIsNotANumber, s)
      | Some v \<Rightarrow>
          (case from_i64_like_cpp (sint v) of
             None \<Rightarrow> load_boss_states (i + 1) js s
           | Some st \<Rightarrow>
               (let st1 = save_load_normalized_like_cpp st
                in load_boss_states (i + 1) js
                     (if st1 \<noteq> ToBeDecided then snd (set_boss_state_like_cpp (of_nat i) st1 s) else s))))"

text \<open>The loop over the registered values; an error keeps what was read before it.\<close>

fun load_values ::
  "(int \<Rightarrow> u64) \<Rightarrow> (string \<times> json) list \<Rightarrow> (string \<times> PersistentInstanceScriptValue) list
     \<Rightarrow> InstanceScriptDataLoadError option \<times> (string \<times> PersistentInstanceScriptValue) list" where
  "load_values as_f64 members [] = (None, [])"
| "load_values as_f64 members ((name, v) # rest) =
     (let continue = (\<lambda>v1. case load_values as_f64 members rest of (e, rest1) \<Rightarrow> (e, (name, v1) # rest1))
      in case map_of members name of
           None \<Rightarrow> continue v
         | Some saved \<Rightarrow>
             (if saved = JNull then continue v
              else case from_json_number_like_cpp as_f64 saved of
                     None \<Rightarrow> (Some AdditionalDataUnexpectedValueType, (name, v) # rest)
                   | Some v1 \<Rightarrow> continue v1))"

definition load_save_data_like_cpp ::
  "(string \<Rightarrow> json option) \<Rightarrow> (int \<Rightarrow> u64) \<Rightarrow> string \<Rightarrow> InstanceScriptBase
     \<Rightarrow> InstanceScriptDataLoadError option \<times> InstanceScriptBase" where
  "load_save_data_like_cpp parse as_f64 data s =
     (case parse data of
        None \<Rightarrow> (Some MalformedJson, s)
      | Some (JObject root) \<Rightarrow>
          (case map_of root INSTANCE_SCRIPT_HEADER_KEY of
             None \<Rightarrow> (Some MissingHeader, s)
           | Some header \<Rightarrow>
               (if header \<noteq> JString (script_header s) then (Some UnexpectedHeader, s)
                else case map_of root INSTANCE_SCRIPT_BOSS_STATES_KEY of
                  None \<Rightarrow> (Some MissingBossStates, s)
                | Some (JArray states) \<Rightarrow>
                    (case load_boss_states 0 states s of
                       (Some e, s1) \<Rightarrow> (Some e, s1)
                     | (None, s1) \<Rightarrow>
                         (case map_of root INSTANCE_SCRIPT_ADDITIONAL_DATA_KEY of
                            None \<Rightarrow> (None, s1)
                          | Some (JObject members) \<Rightarrow>
                              (case load_values as_f64 members (persistent_values s1) of
                                 (e, values) \<Rightarrow> (e, s1\<lparr>persistent_values := values\<rparr>))
                          | Some _ \<Rightarrow> (Some AdditionalDataIsNotAnObject, s1)))
                | Some _ \<Rightarrow> (Some BossStatesIsNotAnArray, s)))
      | Some _ \<Rightarrow> (Some RootIsNotAnObject, s))"

end
