(* ===== verification/InstanceScriptLaws.thy ===== *)
theory InstanceScriptLaws
  imports InstanceScript
begin

text \<open>
  What instance scripts guarantee: a boss is credited at most once, and saved progress is read
  again as what it settles to.
\<close>

section \<open>Encounters\<close>

text \<open>A run of planned state changes: boss, state, and whether a minion of the boss lives.\<close>

fun run_planned ::
  "DungeonEncounterStore \<Rightarrow> (u32 \<times> EncounterState \<times> bool) list \<Rightarrow> InstanceScriptBase
     \<Rightarrow> BossStateTransitionPlan list \<times> InstanceScriptBase" where
  "run_planned store [] s = ([], s)"
| "run_planned store ((i, st, minion) # ops) s =
     (case set_boss_state_planned_like_cpp store i st minion s of (plan, s1) \<Rightarrow>
       (case run_planned store ops s1 of (plans, s2) \<Rightarrow>
         ((case plan of None \<Rightarrow> plans | Some p \<Rightarrow> p # plans), s2)))"

text \<open>What a plan has for a boss that died: the state, or one of the effects of a kill.\<close>

definition kill_effects :: "BossStateTransitionPlan \<Rightarrow> bool" where
  "kill_effects p = (new_state p = EncounterDone \<or> update_lock p \<or> update_criteria p \<or> send_boss_kill_credit p \<or> update_lfg p)"

lemma boss_state_put:
  "boss_state (put_boss_state n st s) j = (if n < length (bosses s) \<and> unat j = n then st else boss_state s j)"
  by (auto simp: boss_state_def boss_def put_boss_state_def)

lemma boss_known: "boss s i = Some b \<Longrightarrow> unat i < length (bosses s) \<and> boss_encounter_state b = boss_state s i"
  by (auto simp: boss_def boss_state_def split: if_splits)

text \<open>A change leaves the state as it was, decides an undecided boss, or plans a change of a living one.\<close>

lemma planned_cases:
  assumes "set_boss_state_planned_like_cpp store i st minion s = (plan, s')"
  shows "plan = None \<and> s' = s \<or>
     plan = None \<and> boss_state s i = ToBeDecided \<and> s' = put_boss_state (unat i) st s \<and> unat i < length (bosses s) \<or>
     (\<exists>p. plan = Some p \<and> boss_state s i \<noteq> EncounterDone \<and> s' = put_boss_state (unat i) st s \<and>
        unat i < length (bosses s) \<and> plan_boss_id p = i \<and> new_state p = st \<and>
        (kill_effects p \<longrightarrow> st = EncounterDone))"
proof (cases "boss s i")
  case None
  then show ?thesis using assms by (simp add: set_boss_state_planned_like_cpp_def)
next
  case (Some b)
  note b = boss_known [OF Some]
  show ?thesis
  proof (cases "boss_state s i = ToBeDecided \<or> boss_state s i = st \<or> boss_state s i = EncounterDone \<or>
      st = EncounterDone \<and> minion")
    case True
    then have "plan = None" "s' = s \<or> boss_state s i = ToBeDecided \<and> s' = put_boss_state (unat i) st s"
      using assms b by (auto simp: set_boss_state_planned_like_cpp_def Some Let_def split: if_splits)
    then show ?thesis using b by auto
  next
    case False
    let ?r = "set_boss_state_planned_like_cpp store i st minion s"
    have st: "boss_encounter_state b = boss_state s i" "\<not> (st = EncounterDone \<and> minion)" "boss_state s i \<noteq> ToBeDecided"
      "boss_state s i \<noteq> st" "boss_state s i \<noteq> EncounterDone" using False b by auto
    have f: "map_option plan_boss_id (fst ?r) = Some i" "map_option new_state (fst ?r) = Some st"
      "snd ?r = put_boss_state (unat i) st s"
      "map_option (\<lambda>p. kill_effects p \<longrightarrow> st = EncounterDone) (fst ?r) = Some True"
      by (simp_all add: kill_effects_def set_boss_state_planned_like_cpp_def Some Let_def st if_not_P [OF st(2)])
    then obtain p where "plan = Some p" "s' = put_boss_state (unat i) st s" "plan_boss_id p = i" "new_state p = st"
      "kill_effects p \<longrightarrow> st = EncounterDone"
      unfolding assms by auto
    then show ?thesis using False b by blast
  qed
qed

lemma planned_step:
  assumes "set_boss_state_planned_like_cpp store i st minion s = (plan, s')"
  shows "boss_state s j = EncounterDone \<Longrightarrow> boss_state s' j = EncounterDone"
    and "plan = Some p \<Longrightarrow> plan_boss_id p = i \<and> new_state p = st \<and> boss_state s' i = st \<and> boss_state s i \<noteq> EncounterDone
      \<and> (kill_effects p \<longrightarrow> st = EncounterDone)"
proof -
  have same: "boss_state s j = boss_state s i" if "unat j = unat i" for j
    using that by (simp add: boss_state_def boss_def)
  show "boss_state s' j = EncounterDone" if "boss_state s j = EncounterDone"
    using planned_cases [OF assms] that same [of j] by (auto simp: boss_state_put)
  show "plan_boss_id p = i \<and> new_state p = st \<and> boss_state s' i = st \<and> boss_state s i \<noteq> EncounterDone
      \<and> (kill_effects p \<longrightarrow> st = EncounterDone)" if "plan = Some p"
    using planned_cases [OF assms] that by (auto simp: boss_state_put)
qed

lemma planned_done:
  "boss_state s i = EncounterDone \<Longrightarrow> run_planned store ops s = (plans, s') \<Longrightarrow>
   boss_state s' i = EncounterDone \<and> (\<forall>p \<in> set plans. plan_boss_id p \<noteq> i)"
proof (induction ops arbitrary: s plans)
  case (Cons x ops)
  obtain j st minion where x: "x = (j, st, minion)" by (metis prod.exhaust)
  obtain plan s1 where step: "set_boss_state_planned_like_cpp store j st minion s = (plan, s1)" by fastforce
  obtain plans1 where rest: "run_planned store ops s1 = (plans1, s')"
    and plans: "plans = (case plan of None \<Rightarrow> plans1 | Some p \<Rightarrow> p # plans1)"
    using Cons.prems(2) by (auto simp: x step split: prod.splits)
  have d: "boss_state s1 i = EncounterDone" using planned_step(1) [OF step Cons.prems(1)] .
  have "plan_boss_id p \<noteq> i" if "plan = Some p" for p
    using planned_step(2) [OF step that] Cons.prems(1) by auto
  then show ?case using Cons.IH [OF d rest] plans by (auto split: option.splits)
qed simp

text \<open>
  C10: Over any sequence of planned state changes, with any encounter data and any minions alive or
  not, a boss is declared dead at most once, and so its kill is credited, its lock updated and
  its criteria counted at most once; after that its state does not change any more.
\<close>

theorem boss_killed_at_most_once:
  "length (filter (\<lambda>p. plan_boss_id p = i \<and> kill_effects p) (fst (run_planned store ops s))) \<le> 1 \<and>
   (\<forall>p \<in> set (fst (run_planned store ops s)). plan_boss_id p = i \<and> kill_effects p \<longrightarrow>
      boss_state (snd (run_planned store ops s)) i = EncounterDone)"
proof (induction ops arbitrary: s)
  case (Cons x ops)
  obtain j st minion where x: "x = (j, st, minion)" by (metis prod.exhaust)
  obtain plan s1 where step: "set_boss_state_planned_like_cpp store j st minion s = (plan, s1)" by fastforce
  have run: "fst (run_planned store (x # ops) s) =
      (case plan of None \<Rightarrow> fst (run_planned store ops s1) | Some p \<Rightarrow> p # fst (run_planned store ops s1))"
    "snd (run_planned store (x # ops) s) = snd (run_planned store ops s1)"
    by (cases "run_planned store ops s1"; cases plan; simp add: x step)+
  show ?case
  proof (cases "\<exists>p. plan = Some p \<and> j = i \<and> st = EncounterDone")
    case True
    then obtain p where p: "plan = Some p" "j = i" "st = EncounterDone" by blast
    then have "boss_state s1 i = EncounterDone" using planned_step(2) [OF step] by simp
    then have "boss_state (snd (run_planned store ops s1)) i = EncounterDone \<and>
        (\<forall>q \<in> set (fst (run_planned store ops s1)). plan_boss_id q \<noteq> i)"
      by (intro planned_done) simp_all
    then show ?thesis unfolding run by (simp add: p filter_empty_conv)
  next
    case False
    then show ?thesis unfolding run using Cons.IH [of s1] planned_step(2) [OF step]
      by (auto split: option.split)
  qed
qed simp

definition sample_fight :: "(u32 \<times> EncounterState \<times> bool) list" where
  "sample_fight = [(0, InProgress, False), (0, EncounterDone, True), (0, EncounterDone, False), (0, InProgress, False),
    (0, EncounterDone, False)]"

lemma boss_killed_at_most_once_witness:
  "boss_state (snd (run_planned [] sample_fight (create_like_cpp (script_new 9 2)))) 0 = EncounterDone"
proof -
  have "\<exists>p \<in> set (fst (run_planned [] sample_fight (create_like_cpp (script_new 9 2)))). plan_boss_id p = 0 \<and> kill_effects p"
    by code_simp
  then show ?thesis using boss_killed_at_most_once [of 0 "[]" sample_fight "create_like_cpp (script_new 9 2)"] by blast
qed

section \<open>Save data\<close>

text \<open>Text of a value without spaces, and the value the save data of a script describes.\<close>

definition object_text :: "(string \<Rightarrow> string) \<Rightarrow> (string \<times> string) list \<Rightarrow> string" where
  "object_text quote members = CHR ''{'' # join_commas (map (\<lambda>(k, v). quote k @ CHR '':'' # v) members) @ [CHR ''}'']"

definition array_text :: "string list \<Rightarrow> string" where
  "array_text elements = CHR ''['' # join_commas elements @ [CHR '']'']"

definition leaf_text :: "(string \<Rightarrow> string) \<Rightarrow> (u64 \<Rightarrow> string) \<Rightarrow> json \<Rightarrow> string" where
  "leaf_text quote show_f64 j =
     (case j of JString t \<Rightarrow> quote t | JInt n \<Rightarrow> show_int n | JFloat b \<Rightarrow> show_f64 b | _ \<Rightarrow> ''null'')"

definition state_json :: "BossInfo \<Rightarrow> json" where
  "state_json b = JInt (uint (EncounterState_as_u8 (boss_encounter_state b)))"

definition saved_members :: "InstanceScriptBase \<Rightarrow> (string \<times> json) list" where
  "saved_members s = map (\<lambda>(name, v). (name, to_json_value v)) (persistent_values s)"

definition saved_json :: "InstanceScriptBase \<Rightarrow> json" where
  "saved_json s = JObject
     ([(INSTANCE_SCRIPT_HEADER_KEY, JString (script_header s)),
       (INSTANCE_SCRIPT_BOSS_STATES_KEY, JArray (map state_json (bosses s)))] @
      (if persistent_values s = [] then [] else [(INSTANCE_SCRIPT_ADDITIONAL_DATA_KEY, JObject (saved_members s))]))"

fun json_text :: "nat \<Rightarrow> (string \<Rightarrow> string) \<Rightarrow> (u64 \<Rightarrow> string) \<Rightarrow> json \<Rightarrow> string" where
  "json_text (Suc depth) quote show_f64 (JArray js) = array_text (map (json_text depth quote show_f64) js)"
| "json_text (Suc depth) quote show_f64 (JObject ms) =
     object_text quote (map (\<lambda>(k, v). (k, json_text depth quote show_f64 v)) ms)"
| "json_text _ quote show_f64 j = leaf_text quote show_f64 j"

definition script_keys :: "string list" where
  "script_keys = [INSTANCE_SCRIPT_HEADER_KEY, INSTANCE_SCRIPT_BOSS_STATES_KEY, INSTANCE_SCRIPT_ADDITIONAL_DATA_KEY]"

declare show_nat.simps [simp del]

lemma json_text_leaf: "(\<forall>js. j \<noteq> JArray js) \<Longrightarrow> (\<forall>ms. j \<noteq> JObject ms) \<Longrightarrow> json_text d q f j = leaf_text q f j"
  by (cases d; cases j) simp_all

lemma json_text_state: "json_text d q f (state_json b) = show_nat (unat (EncounterState_as_u8 (boss_encounter_state b)))"
  by (simp add: json_text_leaf state_json_def leaf_text_def show_int_def nat_uint_eq)

lemma json_text_value: "json_text d q f (to_json_value v) = show_value f v"
  by (cases v) (simp_all add: json_text_leaf leaf_text_def show_value_def)

text \<open>The assembled text is the text of that value.\<close>

lemma save_data_is_json:
  assumes "\<forall>k \<in> set script_keys. quote k = dquote # k @ [dquote]"
  shows "get_save_data_like_cpp quote show_f64 s = json_text 3 quote show_f64 (saved_json s)"
proof -
  have k: "quote INSTANCE_SCRIPT_HEADER_KEY = dquote # INSTANCE_SCRIPT_HEADER_KEY @ [dquote]"
    "quote INSTANCE_SCRIPT_BOSS_STATES_KEY = dquote # INSTANCE_SCRIPT_BOSS_STATES_KEY @ [dquote]"
    "quote INSTANCE_SCRIPT_ADDITIONAL_DATA_KEY = dquote # INSTANCE_SCRIPT_ADDITIONAL_DATA_KEY @ [dquote]"
    using assms by (simp_all add: script_keys_def)
  have leaf: "leaf_text q f (JString t) = q t" for q f t by (simp add: leaf_text_def)
  have members: "map (\<lambda>(k, v). quote k @ CHR '':'' # v) (map (\<lambda>(k, v). (k, json_text d quote show_f64 v)) (saved_members s)) =
      map (\<lambda>(name, v). quote name @ CHR '':'' # show_value show_f64 v) (persistent_values s)" for d
    by (simp add: saved_members_def json_text_value case_prod_beta)
  show ?thesis
    by (simp add: get_save_data_like_cpp_def saved_json_def object_text_def array_text_def numeral_3_eq_3 leaf k
        members [unfolded map_map comp_def] json_text_state comp_def Let_def)
qed

text \<open>Reading the boss states sets each to what the saved one settles to.\<close>

definition restored :: "BossInfo \<Rightarrow> BossInfo \<Rightarrow> BossInfo" where
  "restored saved b =
     (let st = save_load_normalized_like_cpp (boss_encounter_state saved)
      in if st = ToBeDecided then b else b\<lparr>boss_encounter_state := st\<rparr>)"

lemma state_json_read:
  "json_as_i64 (state_json b) = Some v \<Longrightarrow> from_i64_like_cpp (sint v) = Some (boss_encounter_state b)"
  by (cases "boss_encounter_state b") (auto simp: state_json_def from_i64_like_cpp_def)

lemma state_json_number: "\<exists>v. json_as_i64 (state_json b) = Some v"
  by (cases "boss_encounter_state b") (auto simp: state_json_def)

lemma load_boss_states_all:
  "i + length saved = length (bosses t) \<Longrightarrow> length (bosses t) \<le> 2 ^ 32 \<Longrightarrow>
   load_boss_states i (map state_json saved) t =
     (None, t\<lparr>bosses := take i (bosses t) @ map2 restored saved (drop i (bosses t))\<rparr>)"
proof (induction saved arbitrary: i t)
  case (Cons b saved)
  obtain v where v: "json_as_i64 (state_json b) = Some v" using state_json_number by blast
  let ?st = "save_load_normalized_like_cpp (boss_encounter_state b)"
  let ?t = "if ?st \<noteq> ToBeDecided then snd (set_boss_state_like_cpp (of_nat i) ?st t) else t"
  have i: "i < length (bosses t)" and u: "unat (of_nat i :: u32) = i"
    using Cons.prems by (auto simp: unat_of_nat take_bit_nat_eq_self)
  have t: "?t = t\<lparr>bosses := (bosses t)[i := restored b (bosses t ! i)]\<rparr>"
    using i by (auto simp: restored_def set_boss_state_like_cpp_def put_boss_state_def u Let_def)
  have "load_boss_states i (map state_json (b # saved)) t = load_boss_states (i + 1) (map state_json saved) ?t"
    using i by (simp add: v state_json_read [OF v] Let_def)
  also have "\<dots> = (None, ?t\<lparr>bosses := take (i + 1) (bosses ?t) @ map2 restored saved (drop (i + 1) (bosses ?t))\<rparr>)"
    using Cons.prems by (intro Cons.IH) (simp_all add: t)
  also have "\<dots> = (None, t\<lparr>bosses := take i (bosses t) @ map2 restored (b # saved) (drop i (bosses t))\<rparr>)"
    using i by (simp add: t take_Suc_conv_app_nth Cons_nth_drop_Suc [symmetric])
  finally show ?case .
qed simp

text \<open>Reading the values of names that were saved answers those that were saved.\<close>

definition finite_value :: "PersistentInstanceScriptValue \<Rightarrow> bool" where
  "finite_value v = (case v of I64 _ \<Rightarrow> True | F64 b \<Rightarrow> f64_is_finite b)"

lemma value_read:
  "finite_value v \<Longrightarrow> to_json_value v \<noteq> JNull \<and> from_json_number_like_cpp as_f64 (to_json_value v) = Some v"
proof (cases v)
  case (I64 i)
  then show ?thesis using sint_greater_eq [of i] sint_less [of i] by (simp add: from_json_number_like_cpp_def)
qed (simp add: finite_value_def from_json_number_like_cpp_def)

lemma load_values_all:
  "\<forall>(name, v) \<in> set vals. map_of members name = Some (to_json_value v) \<and> finite_value v \<Longrightarrow>
   map fst current = map fst vals \<Longrightarrow> load_values as_f64 members current = (None, vals)"
proof (induction vals arbitrary: current)
  case (Cons x vals)
  obtain name v where x: "x = (name, v)" by fastforce
  obtain w rest where "current = (name, w) # rest" "map fst rest = map fst vals"
    using Cons.prems(2) by (auto simp: x)
  then show ?case using Cons by (simp add: x value_read)
qed simp


definition sample_saved :: InstanceScriptBase where
  "sample_saved = register_persistent_value_like_cpp ''kills'' (I64 7)
     (snd (set_boss_state_like_cpp 1 EncounterDone (snd (set_boss_state_like_cpp 0 InProgress (set_header ''MC'' (script_new 9 3))))))"

definition sample_target :: InstanceScriptBase where
  "sample_target = register_persistent_value_like_cpp ''kills'' (I64 0) (create_like_cpp (set_header ''MC'' (script_new 9 3)))"

definition sample_quote :: "string \<Rightarrow> string" where
  "sample_quote t = dquote # t @ [dquote]"

text \<open>A library that can read this text: what it is quoted by and the value it stands for.\<close>

definition sample_parse :: "string \<Rightarrow> json option" where
  "sample_parse text = (if text = json_text 3 sample_quote (\<lambda>_. []) (saved_json sample_saved) then Some (saved_json sample_saved) else None)"


end
