(* ===== verification/Float32.thy ===== *)
theory Float32
  imports Prelude
begin

text \<open>
  The arithmetic of \<open>f32\<close> the code computes with: addition, subtraction and comparison of IEEE-754
  binary32 values, given as their bit patterns.  A finite value is an integer number of units of
  \<open>2 ^ -149\<close>, the smallest positive value; a sum is computed exactly in units and rounded to the
  nearest value, ties to even.
\<close>

section \<open>Values as units\<close>

definition f32_exponent :: "f32 \<Rightarrow> nat" where
  "f32_exponent x = unat (drop_bit 23 x AND 0xFF)"

definition f32_fraction :: "f32 \<Rightarrow> int" where
  "f32_fraction x = uint (x AND 0x7FFFFF)"

definition f32_negative :: "f32 \<Rightarrow> bool" where
  "f32_negative x = (x AND 0x80000000 \<noteq> 0)"

definition f32_is_nan :: "f32 \<Rightarrow> bool" where
  "f32_is_nan x = (f32_exponent x = 255 \<and> f32_fraction x \<noteq> 0)"

definition f32_is_infinite :: "f32 \<Rightarrow> bool" where
  "f32_is_infinite x = (f32_exponent x = 255 \<and> f32_fraction x = 0)"

definition f32_magnitude :: "f32 \<Rightarrow> int" where
  "f32_magnitude x =
     (if f32_exponent x = 0 then f32_fraction x
      else (2 ^ 23 + f32_fraction x) * 2 ^ (f32_exponent x - 1))"

definition f32_units :: "f32 \<Rightarrow> int" where
  "f32_units x = (if f32_negative x then - f32_magnitude x else f32_magnitude x)"

section \<open>Rounding\<close>

text \<open>By how many bits a magnitude exceeds the 24 bits of a significand.\<close>

function excess_bits :: "int \<Rightarrow> nat" where
  "excess_bits n = (if n < 2 ^ 24 then 0 else Suc (excess_bits (n div 2)))"
  by auto

termination excess_bits
  by (relation "measure nat") auto

declare excess_bits.simps [simp del]

definition round_half_even :: "int \<Rightarrow> nat \<Rightarrow> int" where
  "round_half_even n k =
     (let q = n div 2 ^ k; r = n mod 2 ^ k
      in if 2 * r > 2 ^ k \<or> 2 * r = 2 ^ k \<and> odd q then q + 1 else q)"

text \<open>
  The pattern of a magnitude: the exponent field counts the bits dropped, and a carry out of the
  significand moves into it.
\<close>

definition f32_of_magnitude :: "bool \<Rightarrow> int \<Rightarrow> f32" where
  "f32_of_magnitude negative n =
     (let k = excess_bits n;
          bits = round_half_even n k + int k * 2 ^ 23;
          magnitude = (if bits < 0x7F800000 then of_int bits else 0x7F800000)
      in if negative then magnitude + 0x80000000 else magnitude)"

definition f32_of_units :: "int \<Rightarrow> f32" where
  "f32_of_units i = f32_of_magnitude (i < 0) \<bar>i\<bar>"

section \<open>Operations\<close>

abbreviation f32_nan :: f32 where "f32_nan \<equiv> 0x7FC00000"

definition f32_add :: "f32 \<Rightarrow> f32 \<Rightarrow> f32" where
  "f32_add x y =
     (if f32_is_nan x \<or> f32_is_nan y then f32_nan
      else if f32_is_infinite x
      then (if f32_is_infinite y \<and> f32_negative x \<noteq> f32_negative y then f32_nan else x)
      else if f32_is_infinite y then y
      else if f32_units x + f32_units y = 0
      then (if f32_negative x \<and> f32_negative y then 0x80000000 else 0)
      else f32_of_units (f32_units x + f32_units y))"

definition f32_neg :: "f32 \<Rightarrow> f32" where
  "f32_neg x = x XOR 0x80000000"

definition f32_sub :: "f32 \<Rightarrow> f32 \<Rightarrow> f32" where
  "f32_sub x y = f32_add x (f32_neg y)"

text \<open>Comparisons are false on a NaN; zeros of both signs are equal.\<close>

definition f32_order_key :: "f32 \<Rightarrow> int" where
  "f32_order_key x =
     (if f32_is_infinite x then (if f32_negative x then - (2 ^ 300) else 2 ^ 300) else f32_units x)"

definition f32_lt :: "f32 \<Rightarrow> f32 \<Rightarrow> bool" where
  "f32_lt x y = (\<not> f32_is_nan x \<and> \<not> f32_is_nan y \<and> f32_order_key x < f32_order_key y)"

definition f32_le :: "f32 \<Rightarrow> f32 \<Rightarrow> bool" where
  "f32_le x y = (\<not> f32_is_nan x \<and> \<not> f32_is_nan y \<and> f32_order_key x \<le> f32_order_key y)"

definition f32_eq :: "f32 \<Rightarrow> f32 \<Rightarrow> bool" where
  "f32_eq x y = (\<not> f32_is_nan x \<and> \<not> f32_is_nan y \<and> f32_order_key x = f32_order_key y)"

text \<open>\<open>Iterator::sum\<close>, from minus zero, which is neutral.\<close>

definition f32_sum :: "f32 list \<Rightarrow> f32" where
  "f32_sum xs = fold (\<lambda>x s. f32_add s x) xs 0x80000000"

section \<open>Exactness\<close>

lemma excess_bits_shifted: "0 \<le> n \<Longrightarrow> n < 2 ^ 23 \<Longrightarrow> excess_bits ((2 ^ 23 + n) * 2 ^ k) = k"
proof (induction k)
  case (Suc k)
  have "\<not> (2 ^ 23 + n) * 2 ^ Suc k < 2 ^ 24"
    using mult_mono [of "2 ^ 23" "2 ^ 23 + n" "2" "2 ^ Suc k"] Suc.prems by simp
  moreover have "(2 ^ 23 + n) * 2 ^ Suc k div 2 = (2 ^ 23 + n) * 2 ^ k" by simp
  ultimately have "excess_bits ((2 ^ 23 + n) * 2 ^ Suc k) = Suc (excess_bits ((2 ^ 23 + n) * 2 ^ k))"
    by (subst excess_bits.simps) (simp only: if_False)
  then show ?case using Suc by (simp only:)
qed (simp add: excess_bits.simps)

lemma round_exact: "round_half_even (m * 2 ^ k) k = m"
  by (simp add: round_half_even_def Let_def)

lemma numerals23: "(2 :: int) ^ 23 = 8388608" "(2 :: int) ^ 8 = 256" "(2 :: int) ^ 31 = 2147483648"
  by simp_all

lemma f32_fields:
  "f32_fraction x = uint x mod 2 ^ 23" "int (f32_exponent x) = uint x div 2 ^ 23 mod 2 ^ 8"
  "f32_negative x \<longleftrightarrow> 2 ^ 31 \<le> uint x"
proof -
  have low: "uint (y AND mask n) = uint y mod 2 ^ n" for y :: f32 and n
    by (simp add: unsigned_take_bit_eq flip: take_bit_eq_mask take_bit_eq_mod)
  have shift: "uint (drop_bit n y) = uint y div 2 ^ n" for y :: f32 and n
    using take_bit_int_eq_self [of "uint y" 32] unsigned_less [of y, where ?'a = int]
    by (simp only: unsigned_drop_bit_eq) (simp add: drop_bit_eq_div)
  show "f32_fraction x = uint x mod 2 ^ 23"
    using low [of x 23] by (simp add: f32_fraction_def mask_eq_exp_minus_1)
  show "int (f32_exponent x) = uint x div 2 ^ 23 mod 2 ^ 8"
    using low [of "drop_bit 23 x" 8] by (simp add: f32_exponent_def mask_eq_exp_minus_1 shift)
  have "x AND 0x80000000 \<noteq> 0 \<longleftrightarrow> bit x 31"
    using and_exp_eq_0_iff_not_bit [of x 31] by simp
  also have "\<dots> \<longleftrightarrow> bit (uint x) 31" by (simp add: bit_uint_iff)
  also have "\<dots> \<longleftrightarrow> odd (uint x div 2 ^ 31)" by (simp only: bit_iff_odd)
  also have "\<dots> \<longleftrightarrow> 2 ^ 31 \<le> uint x"
  proof -
    have "uint x < 2 ^ 32" "0 \<le> uint x" using unsigned_less [of x, where ?'a = int] by simp_all
    then have "uint x div 2 ^ 31 = (if 2 ^ 31 \<le> uint x then 1 else 0)"
      by (auto simp: div_pos_pos_trivial intro!: int_div_pos_eq [where r = "uint x - 2 ^ 31"])
    then show ?thesis by simp
  qed
  finally show "f32_negative x \<longleftrightarrow> 2 ^ 31 \<le> uint x" by (simp only: f32_negative_def)
qed

lemma f32_pattern:
  "uint x = (if f32_negative x then 2 ^ 31 else 0) + int (f32_exponent x) * 2 ^ 23 + f32_fraction x"
proof -
  have s: "uint x < 2 ^ 32" "0 \<le> uint x" using unsigned_less [of x, where ?'a = int] by simp_all
  have "uint x div 2 ^ 31 = (if 2 ^ 31 \<le> uint x then 1 else 0)"
    using s by (auto simp: div_pos_pos_trivial intro!: int_div_pos_eq [where r = "uint x - 2 ^ 31"])
  moreover have "uint x div 2 ^ 31 = uint x div 2 ^ 23 div 2 ^ 8"
    using zdiv_zmult2_eq [of "2 ^ 8" "uint x" "2 ^ 23"] by simp
  ultimately have top: "(if 2 ^ 31 \<le> uint x then 2 ^ 31 else 0) = uint x div 2 ^ 23 div 2 ^ 8 * 2 ^ 31"
    by (auto split: if_splits)
  have "u = u div 8388608 div 256 * 2147483648 + u div 8388608 mod 256 * 8388608 + u mod 8388608" for u :: int
    using div_mult_mod_eq [of u 8388608] div_mult_mod_eq [of "u div 8388608" 256] by linarith
  from this [of "uint x"] have "uint x = uint x div 2 ^ 23 div 2 ^ 8 * 2 ^ 31 + uint x div 2 ^ 23 mod 2 ^ 8 * 2 ^ 23 + uint x mod 2 ^ 23"
    by (simp only: numerals23)
  then show ?thesis unfolding f32_fields top .
qed

text \<open>Rounding a value that is representable changes nothing.\<close>

lemma f32_of_units_exact:
  assumes "f32_exponent x < 255" and "f32_units x \<noteq> 0"
  shows "f32_of_units (f32_units x) = x"
proof -
  have less: "f32_fraction x < 2 ^ 23" "0 \<le> f32_fraction x" by (simp_all add: f32_fields)
  let ?k = "f32_exponent x - 1"
  have k: "excess_bits (f32_magnitude x) = ?k"
    using less excess_bits_shifted [OF less(2,1), of ?k] excess_bits.simps [of "f32_fraction x"]
    by (auto simp: f32_magnitude_def)
  have bits: "round_half_even (f32_magnitude x) ?k + int ?k * 2 ^ 23 = int (f32_exponent x) * 2 ^ 23 + f32_fraction x"
    using round_exact [of "2 ^ 23 + f32_fraction x" ?k] round_exact [of "f32_fraction x" 0]
    by (auto simp: f32_magnitude_def algebra_simps of_nat_diff)
  have "int (f32_exponent x) * 2 ^ 23 + f32_fraction x < 0x7F800000"
    using assms(1) less by simp
  moreover have "f32_magnitude x \<ge> 0" using less by (simp add: f32_magnitude_def)
  then have "f32_units x < 0 \<longleftrightarrow> f32_negative x" "\<bar>f32_units x\<bar> = f32_magnitude x"
    using assms(2) by (auto simp: f32_units_def split: if_splits)
  ultimately have "f32_of_units (f32_units x) =
      (if f32_negative x then of_int (int (f32_exponent x) * 2 ^ 23 + f32_fraction x) + 0x80000000
       else of_int (int (f32_exponent x) * 2 ^ 23 + f32_fraction x))"
    by (simp only: f32_of_units_def f32_of_magnitude_def k bits Let_def if_True)
  also have "\<dots> = of_int ((if f32_negative x then 2 ^ 31 else 0) + int (f32_exponent x) * 2 ^ 23 + f32_fraction x)"
    by simp
  also have "\<dots> = x" by (simp only: f32_pattern [symmetric] word_of_int_uint)
  finally show ?thesis .
qed

lemma f32_examples:
  "f32_add 0x3F800000 0x3F800000 = 0x40000000" "f32_add 0x4B800000 0x3F800000 = 0x4B800000"
  "f32_sub 0x42C80000 0x42480000 = 0x42480000" "f32_add 0x7F7FFFFF 0x7F7FFFFF = 0x7F800000"
  "f32_sum [0x42480000, 0x41F00000, 0x41A00000] = 0x42C80000" "\<not> f32_lt 0 0x80000000" "f32_eq 0 0x80000000"
  by code_simp+

end
