(* ===== verification/PoolModel.thy ===== *)
theory PoolModel
  imports Float32
begin

text \<open>
  Pools of spawns (\<open>crates/wow-map/src/pool/state_1.rs\<close>, \<open>state_2.rs\<close>): templates, groups of
  creatures, game objects or child pools with their chances, the spawned objects of a map
  (\<open>crates/wow-map/src/map/mod.rs\<close>), and the plans a group makes for spawning and despawning.

  A plan is made by closures that change the spawned objects, draw from a random source and mark
  the pools being visited, and may fail: a step takes that world to a result and a new world, or
  to nothing if it never returns.
\<close>

section \<open>Data\<close>

type_synonym SpawnId = u64

datatype SpawnObjectType = SpawnCreature | SpawnGameObject | SpawnAreaTrigger

fun SpawnObjectType_as_u8 :: "SpawnObjectType \<Rightarrow> u8" where
  "SpawnObjectType_as_u8 SpawnCreature = 0"
| "SpawnObjectType_as_u8 SpawnGameObject = 1"
| "SpawnObjectType_as_u8 SpawnAreaTrigger = 2"

record PoolTemplateDataLikeCpp =
  max_limit :: u32
  template_map_id :: i32

record PoolObjectLikeCpp =
  pool_guid :: u64
  pool_chance :: f32

datatype PoolMemberKindLikeCpp = PoolCreature | PoolGameObject | PoolPool

record PoolRelationRemovalLikeCpp =
  removed_explicit :: bool
  removed_equal :: bool

datatype PoolSpawnObjectActionLikeCpp =
    SpawnOne PoolMemberKindLikeCpp u64 | RespawnOne PoolMemberKindLikeCpp u64
  | DespawnOne PoolMemberKindLikeCpp u64 | RemoveRespawnTime PoolMemberKindLikeCpp u64

datatype PoolMgrPlanSkipReasonLikeCpp = MissingGroup | EmptyGroup

datatype PoolMgrPlanErrorLikeCpp =
    MissingTemplate u32 | WrongGroupKind PoolMemberKindLikeCpp PoolMemberKindLikeCpp
  | UnsupportedSpawnType SpawnObjectType | ChildPoolIdOverflow u64 | ChildPoolCycle u32

datatype PoolDespawnObjectPlanLikeCpp =
    PoolDespawnObjectPlan (despawn_actions: "PoolSpawnObjectActionLikeCpp list") (plan_requested_guid: u64)
      (plan_always_delete: bool) (despawned: "u64 list")
      (removed_respawn_times: "(PoolMemberKindLikeCpp \<times> u64) list")
      (child_pool_plans: "PoolDespawnPoolPlanLikeCpp list")
and PoolTypedDespawnPlanLikeCpp =
    PoolTypedDespawnPlan PoolMemberKindLikeCpp u32 u64 bool "PoolDespawnObjectPlanLikeCpp option"
      "PoolMgrPlanSkipReasonLikeCpp option"
and PoolDespawnPoolPlanLikeCpp =
    PoolDespawnPoolPlan u32 bool "PoolTypedDespawnPlanLikeCpp list"

datatype PoolSpawnObjectPlanLikeCpp =
    PoolSpawnObjectPlan (spawn_actions: "PoolSpawnObjectActionLikeCpp list") (selected: "PoolObjectLikeCpp list")
      (despawned_trigger: "u64 option") (respawned_trigger: bool)
      (child_pool_spawn_plans: "PoolSpawnPoolPlanLikeCpp list")
      (child_pool_despawn_plans: "PoolDespawnPoolPlanLikeCpp list")
and PoolTypedSpawnPlanLikeCpp =
    PoolTypedSpawnPlan (typed_kind: PoolMemberKindLikeCpp) u32 u64 "u32 option"
      (typed_object_plan: "PoolSpawnObjectPlanLikeCpp option") "PoolMgrPlanSkipReasonLikeCpp option"
and PoolSpawnPoolPlanLikeCpp =
    PoolSpawnPoolPlan u32 (spawn_subplans: "PoolTypedSpawnPlanLikeCpp list")

text \<open>\<open>push\<close> and assignment to the fields of a plan.\<close>

fun push_despawn_action :: "PoolSpawnObjectActionLikeCpp \<Rightarrow> PoolDespawnObjectPlanLikeCpp \<Rightarrow> PoolDespawnObjectPlanLikeCpp" where
  "push_despawn_action a (PoolDespawnObjectPlan acts r al d t ch) = PoolDespawnObjectPlan (acts @ [a]) r al d t ch"

fun push_despawned :: "u64 \<Rightarrow> PoolDespawnObjectPlanLikeCpp \<Rightarrow> PoolDespawnObjectPlanLikeCpp" where
  "push_despawned g (PoolDespawnObjectPlan acts r al d t ch) = PoolDespawnObjectPlan acts r al (d @ [g]) t ch"

fun push_removed_time ::
  "PoolMemberKindLikeCpp \<times> u64 \<Rightarrow> PoolDespawnObjectPlanLikeCpp \<Rightarrow> PoolDespawnObjectPlanLikeCpp" where
  "push_removed_time x (PoolDespawnObjectPlan acts r al d t ch) = PoolDespawnObjectPlan acts r al d (t @ [x]) ch"

fun push_child_plan ::
  "PoolDespawnPoolPlanLikeCpp \<Rightarrow> PoolDespawnObjectPlanLikeCpp \<Rightarrow> PoolDespawnObjectPlanLikeCpp" where
  "push_child_plan p (PoolDespawnObjectPlan acts r al d t ch) = PoolDespawnObjectPlan acts r al d t (ch @ [p])"

fun push_spawn_action :: "PoolSpawnObjectActionLikeCpp \<Rightarrow> PoolSpawnObjectPlanLikeCpp \<Rightarrow> PoolSpawnObjectPlanLikeCpp" where
  "push_spawn_action a (PoolSpawnObjectPlan acts sel d r sp dp) = PoolSpawnObjectPlan (acts @ [a]) sel d r sp dp"

fun push_selected :: "PoolObjectLikeCpp \<Rightarrow> PoolSpawnObjectPlanLikeCpp \<Rightarrow> PoolSpawnObjectPlanLikeCpp" where
  "push_selected x (PoolSpawnObjectPlan acts sel d r sp dp) = PoolSpawnObjectPlan acts (sel @ [x]) d r sp dp"

fun set_despawned_trigger :: "u64 \<Rightarrow> PoolSpawnObjectPlanLikeCpp \<Rightarrow> PoolSpawnObjectPlanLikeCpp" where
  "set_despawned_trigger g (PoolSpawnObjectPlan acts sel d r sp dp) = PoolSpawnObjectPlan acts sel (Some g) r sp dp"

fun set_respawned_trigger :: "PoolSpawnObjectPlanLikeCpp \<Rightarrow> PoolSpawnObjectPlanLikeCpp" where
  "set_respawned_trigger (PoolSpawnObjectPlan acts sel d r sp dp) = PoolSpawnObjectPlan acts sel d True sp dp"

fun push_child_spawn :: "PoolSpawnPoolPlanLikeCpp \<Rightarrow> PoolSpawnObjectPlanLikeCpp \<Rightarrow> PoolSpawnObjectPlanLikeCpp" where
  "push_child_spawn p (PoolSpawnObjectPlan acts sel d r sp dp) = PoolSpawnObjectPlan acts sel d r (sp @ [p]) dp"

fun push_child_despawn :: "PoolDespawnPoolPlanLikeCpp \<Rightarrow> PoolSpawnObjectPlanLikeCpp \<Rightarrow> PoolSpawnObjectPlanLikeCpp" where
  "push_child_despawn p (PoolSpawnObjectPlan acts sel d r sp dp) = PoolSpawnObjectPlan acts sel d r sp (dp @ [p])"

definition empty_spawn_plan :: PoolSpawnObjectPlanLikeCpp where
  "empty_spawn_plan = PoolSpawnObjectPlan [] [] None False [] []"

section \<open>Spawned objects of a map\<close>

record SpawnedPoolDataLikeCpp =
  spawned_creatures :: "SpawnId list"
  spawned_gameobjects :: "SpawnId list"
  spawned_pools :: "(u32, u32) hash_map"

datatype SpawnedPoolDataErrorLikeCpp = UnsupportedSpawnObjectType SpawnObjectType

definition spawned_pool_data_new :: SpawnedPoolDataLikeCpp where
  "spawned_pool_data_new = \<lparr>spawned_creatures = [], spawned_gameobjects = [], spawned_pools = []\<rparr>"

definition get_spawned_objects_like_cpp :: "SpawnedPoolDataLikeCpp \<Rightarrow> u32 \<Rightarrow> u32" where
  "get_spawned_objects_like_cpp s p = (case hm_get (spawned_pools s) p of None \<Rightarrow> 0 | Some n \<Rightarrow> n)"

definition is_spawned_creature_like_cpp :: "SpawnedPoolDataLikeCpp \<Rightarrow> SpawnId \<Rightarrow> bool" where
  "is_spawned_creature_like_cpp s i = (i \<in> set (spawned_creatures s))"

definition is_spawned_gameobject_like_cpp :: "SpawnedPoolDataLikeCpp \<Rightarrow> SpawnId \<Rightarrow> bool" where
  "is_spawned_gameobject_like_cpp s i = (i \<in> set (spawned_gameobjects s))"

definition is_spawned_pool_like_cpp :: "SpawnedPoolDataLikeCpp \<Rightarrow> u32 \<Rightarrow> bool" where
  "is_spawned_pool_like_cpp s p = hm_contains_key (spawned_pools s) p"

definition is_spawned_object_like_cpp ::
  "SpawnedPoolDataLikeCpp \<Rightarrow> SpawnObjectType \<Rightarrow> SpawnId \<Rightarrow> SpawnedPoolDataErrorLikeCpp + bool" where
  "is_spawned_object_like_cpp s t i =
     (case t of SpawnCreature \<Rightarrow> Inr (is_spawned_creature_like_cpp s i)
      | SpawnGameObject \<Rightarrow> Inr (is_spawned_gameobject_like_cpp s i)
      | SpawnAreaTrigger \<Rightarrow> Inl (UnsupportedSpawnObjectType t))"

text \<open>\<open>*entry(pool_id).or_insert(0) += 1\<close>.\<close>

definition increment_pool_counter :: "(u32, u32) hash_map \<Rightarrow> u32 \<Rightarrow> (u32, u32) hash_map" where
  "increment_pool_counter m p = hm_insert p ((case hm_get m p of None \<Rightarrow> 0 | Some n \<Rightarrow> n) + 1) m"

definition decrement_pool_counter_like_cpp :: "(u32, u32) hash_map \<Rightarrow> u32 \<Rightarrow> (u32, u32) hash_map" where
  "decrement_pool_counter_like_cpp m p =
     (let n = (case hm_get m p of None \<Rightarrow> 0 | Some n \<Rightarrow> n) in hm_insert p (if n > 0 then n - 1 else n) m)"

definition add_spawn_like_cpp ::
  "SpawnObjectType \<Rightarrow> SpawnId \<Rightarrow> u32 \<Rightarrow> SpawnedPoolDataLikeCpp
     \<Rightarrow> (SpawnedPoolDataErrorLikeCpp + unit) \<times> SpawnedPoolDataLikeCpp" where
  "add_spawn_like_cpp t i p s =
     (case t of
        SpawnCreature \<Rightarrow> (Inr (), s\<lparr>spawned_creatures := List.insert i (spawned_creatures s),
          spawned_pools := increment_pool_counter (spawned_pools s) p\<rparr>)
      | SpawnGameObject \<Rightarrow> (Inr (), s\<lparr>spawned_gameobjects := List.insert i (spawned_gameobjects s),
          spawned_pools := increment_pool_counter (spawned_pools s) p\<rparr>)
      | SpawnAreaTrigger \<Rightarrow> (Inl (UnsupportedSpawnObjectType t), s))"

definition remove_spawn_like_cpp ::
  "SpawnObjectType \<Rightarrow> SpawnId \<Rightarrow> u32 \<Rightarrow> SpawnedPoolDataLikeCpp
     \<Rightarrow> (SpawnedPoolDataErrorLikeCpp + unit) \<times> SpawnedPoolDataLikeCpp" where
  "remove_spawn_like_cpp t i p s =
     (case t of
        SpawnCreature \<Rightarrow> (Inr (), s\<lparr>spawned_creatures := removeAll i (spawned_creatures s),
          spawned_pools := decrement_pool_counter_like_cpp (spawned_pools s) p\<rparr>)
      | SpawnGameObject \<Rightarrow> (Inr (), s\<lparr>spawned_gameobjects := removeAll i (spawned_gameobjects s),
          spawned_pools := decrement_pool_counter_like_cpp (spawned_pools s) p\<rparr>)
      | SpawnAreaTrigger \<Rightarrow> (Inl (UnsupportedSpawnObjectType t), s))"

definition add_pool_spawn_like_cpp :: "u32 \<Rightarrow> u32 \<Rightarrow> SpawnedPoolDataLikeCpp \<Rightarrow> SpawnedPoolDataLikeCpp" where
  "add_pool_spawn_like_cpp sub p s =
     s\<lparr>spawned_pools := increment_pool_counter (hm_insert sub 0 (spawned_pools s)) p\<rparr>"

definition remove_pool_spawn_like_cpp :: "u32 \<Rightarrow> u32 \<Rightarrow> SpawnedPoolDataLikeCpp \<Rightarrow> SpawnedPoolDataLikeCpp" where
  "remove_pool_spawn_like_cpp sub p s =
     s\<lparr>spawned_pools := decrement_pool_counter_like_cpp (hm_remove sub (spawned_pools s)) p\<rparr>"

text \<open>Pairs sort by the discriminant of their type, then by identifier.\<close>

definition spawned_objects_like_cpp :: "SpawnedPoolDataLikeCpp \<Rightarrow> (SpawnObjectType \<times> SpawnId) list" where
  "spawned_objects_like_cpp s =
     sort_key (\<lambda>(t, i). SpawnObjectType_as_u8 t) (sort_key snd
       (map (Pair SpawnCreature) (spawned_creatures s) @ map (Pair SpawnGameObject) (spawned_gameobjects s)))"

section \<open>Groups\<close>

record PoolGroupLikeCpp =
  group_pool_id :: u32
  member_kind :: PoolMemberKindLikeCpp
  explicitly_chanced :: "PoolObjectLikeCpp list"
  equal_chanced :: "PoolObjectLikeCpp list"

definition pool_group_new :: "PoolMemberKindLikeCpp \<Rightarrow> PoolGroupLikeCpp" where
  "pool_group_new kind = \<lparr>group_pool_id = 0, member_kind = kind, explicitly_chanced = [], equal_chanced = []\<rparr>"

definition with_pool_id :: "PoolMemberKindLikeCpp \<Rightarrow> u32 \<Rightarrow> PoolGroupLikeCpp" where
  "with_pool_id kind p = \<lparr>group_pool_id = p, member_kind = kind, explicitly_chanced = [], equal_chanced = []\<rparr>"

definition set_pool_id_like_cpp :: "u32 \<Rightarrow> PoolGroupLikeCpp \<Rightarrow> PoolGroupLikeCpp" where
  "set_pool_id_like_cpp p g = g\<lparr>group_pool_id := p\<rparr>"

definition group_is_empty_like_cpp :: "PoolGroupLikeCpp \<Rightarrow> bool" where
  "group_is_empty_like_cpp g = (explicitly_chanced g = [] \<and> equal_chanced g = [])"

text \<open>\<open>u32::try_from\<close> of a member identifier.\<close>

definition try_u32 :: "u64 \<Rightarrow> u32 option" where
  "try_u32 x = (if uint x < 2 ^ 32 then Some (ucast x) else None)"

lemma try_u32_unat: "try_u32 x = (if unat x < 2 ^ 32 then Some (ucast x) else None)"
proof -
  have "uint x < 2 ^ 32 \<longleftrightarrow> unat x < 2 ^ 32" unfolding uint_nat by (metis of_nat_less_iff of_nat_numeral of_nat_power)
  then show ?thesis by (simp add: try_u32_def)
qed

definition add_entry_like_cpp :: "PoolObjectLikeCpp \<Rightarrow> u32 \<Rightarrow> PoolGroupLikeCpp \<Rightarrow> PoolGroupLikeCpp" where
  "add_entry_like_cpp x maxentries g =
     (if \<not> f32_eq (pool_chance x) 0 \<and> maxentries = 1
      then g\<lparr>explicitly_chanced := explicitly_chanced g @ [x]\<rparr>
      else g\<lparr>equal_chanced := equal_chanced g @ [x]\<rparr>)"

abbreviation f32_hundred :: f32 where "f32_hundred \<equiv> 0x42C80000"

definition group_check_pool_like_cpp :: "PoolGroupLikeCpp \<Rightarrow> bool" where
  "group_check_pool_like_cpp g =
     (if equal_chanced g = []
      then (let total = f32_sum (map pool_chance (explicitly_chanced g))
            in f32_eq total f32_hundred \<or> f32_eq total 0)
      else True)"

fun remove_first_relation :: "u64 \<Rightarrow> PoolObjectLikeCpp list \<Rightarrow> PoolObjectLikeCpp list" where
  "remove_first_relation i [] = []"
| "remove_first_relation i (x # xs) = (if pool_guid x = i then xs else x # remove_first_relation i xs)"

definition remove_one_relation_like_cpp ::
  "u32 \<Rightarrow> PoolGroupLikeCpp \<Rightarrow> PoolRelationRemovalLikeCpp \<times> PoolGroupLikeCpp" where
  "remove_one_relation_like_cpp child g =
     (if member_kind g \<noteq> PoolPool then (\<lparr>removed_explicit = False, removed_equal = False\<rparr>, g)
      else (let i = ucast child :: u64;
                ex = list_ex (\<lambda>x. pool_guid x = i) (explicitly_chanced g);
                eq = list_ex (\<lambda>x. pool_guid x = i) (equal_chanced g)
            in (\<lparr>removed_explicit = ex, removed_equal = eq\<rparr>,
                g\<lparr>explicitly_chanced := remove_first_relation i (explicitly_chanced g),
                  equal_chanced := remove_first_relation i (equal_chanced g)\<rparr>)))"

definition contains_guid_like_cpp :: "PoolGroupLikeCpp \<Rightarrow> u64 \<Rightarrow> bool" where
  "contains_guid_like_cpp g i = list_ex (\<lambda>x. pool_guid x = i) (explicitly_chanced g @ equal_chanced g)"

definition is_spawned_in_map_like_cpp :: "PoolGroupLikeCpp \<Rightarrow> SpawnedPoolDataLikeCpp \<Rightarrow> u64 \<Rightarrow> bool" where
  "is_spawned_in_map_like_cpp g s i =
     (case member_kind g of
        PoolCreature \<Rightarrow> is_spawned_creature_like_cpp s i
      | PoolGameObject \<Rightarrow> is_spawned_gameobject_like_cpp s i
      | PoolPool \<Rightarrow> (case try_u32 i of None \<Rightarrow> False | Some sub \<Rightarrow> is_spawned_pool_like_cpp s sub))"

definition add_spawn_to_map_like_cpp :: "PoolGroupLikeCpp \<Rightarrow> u64 \<Rightarrow> SpawnedPoolDataLikeCpp \<Rightarrow> bool \<times> SpawnedPoolDataLikeCpp" where
  "add_spawn_to_map_like_cpp g i s =
     (case member_kind g of
        PoolCreature \<Rightarrow> (case add_spawn_like_cpp SpawnCreature i (group_pool_id g) s of (r, s1) \<Rightarrow> (\<not> isl r, s1))
      | PoolGameObject \<Rightarrow> (case add_spawn_like_cpp SpawnGameObject i (group_pool_id g) s of (r, s1) \<Rightarrow> (\<not> isl r, s1))
      | PoolPool \<Rightarrow> (case try_u32 i of None \<Rightarrow> (False, s)
          | Some sub \<Rightarrow> (True, add_pool_spawn_like_cpp sub (group_pool_id g) s)))"

definition remove_spawn_from_map_like_cpp :: "PoolGroupLikeCpp \<Rightarrow> u64 \<Rightarrow> SpawnedPoolDataLikeCpp \<Rightarrow> bool \<times> SpawnedPoolDataLikeCpp" where
  "remove_spawn_from_map_like_cpp g i s =
     (case member_kind g of
        PoolCreature \<Rightarrow> (case remove_spawn_like_cpp SpawnCreature i (group_pool_id g) s of (r, s1) \<Rightarrow> (\<not> isl r, s1))
      | PoolGameObject \<Rightarrow> (case remove_spawn_like_cpp SpawnGameObject i (group_pool_id g) s of (r, s1) \<Rightarrow> (\<not> isl r, s1))
      | PoolPool \<Rightarrow> (case try_u32 i of None \<Rightarrow> (False, s)
          | Some sub \<Rightarrow> (True, remove_pool_spawn_like_cpp sub (group_pool_id g) s)))"

section \<open>Steps\<close>

record 'r PlanWorld =
  spawns :: SpawnedPoolDataLikeCpp
  rng :: 'r
  visiting :: "u32 list"

type_synonym ('r, 'a) pool_step =
  "'r PlanWorld \<Rightarrow> ((PoolMgrPlanErrorLikeCpp + 'a) \<times> 'r PlanWorld) option"

definition and_then ::
  "('r, 'a) pool_step \<Rightarrow> ('a \<Rightarrow> ('r, 'b) pool_step) \<Rightarrow> ('r, 'b) pool_step" where
  "and_then m f w = Option.bind (m w) (\<lambda>(r, w1). case r of Inl e \<Rightarrow> Some (Inl e, w1) | Inr a \<Rightarrow> f a w1)"

text \<open>Random sources: a roll for the explicit chances, and the choice of indices of candidates.\<close>

type_synonym 'r explicit_roll = "'r \<Rightarrow> f32 \<times> 'r"
type_synonym 'r choose_equal = "PoolObjectLikeCpp list \<Rightarrow> nat \<Rightarrow> 'r \<Rightarrow> nat list \<times> 'r"

section \<open>Spawning\<close>

definition spawnable :: "PoolGroupLikeCpp \<Rightarrow> SpawnedPoolDataLikeCpp \<Rightarrow> u64 \<Rightarrow> PoolObjectLikeCpp \<Rightarrow> bool" where
  "spawnable g s trigger x = (pool_guid x = trigger \<or> \<not> is_spawned_in_map_like_cpp g s (pool_guid x))"

fun roll_explicit ::
  "PoolGroupLikeCpp \<Rightarrow> SpawnedPoolDataLikeCpp \<Rightarrow> u64 \<Rightarrow> f32 \<Rightarrow> PoolObjectLikeCpp list \<Rightarrow> PoolObjectLikeCpp list" where
  "roll_explicit g s trigger roll [] = []"
| "roll_explicit g s trigger roll (x # xs) =
     (let roll1 = f32_sub roll (pool_chance x)
      in if f32_lt roll1 0 \<and> spawnable g s trigger x then [x] else roll_explicit g s trigger roll1 xs)"

text \<open>The chosen indices, up to the requested number, each candidate once.\<close>

fun take_chosen :: "PoolObjectLikeCpp list \<Rightarrow> nat \<Rightarrow> nat list \<Rightarrow> bool list \<Rightarrow> PoolObjectLikeCpp list \<Rightarrow> PoolObjectLikeCpp list" where
  "take_chosen candidates requested [] used rolled = rolled"
| "take_chosen candidates requested (i # is) used rolled =
     (if length rolled \<ge> requested then rolled
      else if i < length candidates \<and> \<not> used ! i
      then take_chosen candidates requested is (used[i := True]) (rolled @ [candidates ! i])
      else take_chosen candidates requested is used rolled)"

definition roll_objects ::
  "PoolGroupLikeCpp \<Rightarrow> u64 \<Rightarrow> int \<Rightarrow> 'r explicit_roll \<Rightarrow> 'r choose_equal \<Rightarrow> SpawnedPoolDataLikeCpp \<Rightarrow> 'r
     \<Rightarrow> PoolObjectLikeCpp list \<times> 'r" where
  "roll_objects g trigger count explicit_roll choice s r =
     (case (if explicitly_chanced g = [] then ([], r)
            else case explicit_roll r of (roll, r1) \<Rightarrow>
              (roll_explicit g s trigger roll (explicitly_chanced g), r1)) of
        (rolled, r1) \<Rightarrow>
          (if equal_chanced g \<noteq> [] \<and> rolled = []
           then (let candidates = filter (spawnable g s trigger) (equal_chanced g);
                     requested = min (nat count) (length candidates)
                 in case choice candidates requested r1 of (is, r2) \<Rightarrow>
                      (take_chosen candidates requested is (replicate (length candidates) False) [], r2))
           else (rolled, r1)))"

text \<open>The loop over the rolled objects: the plan so far, and the trigger, which is cleared when it is rolled.\<close>

fun spawn_rolled ::
  "PoolGroupLikeCpp \<Rightarrow> (u32 \<Rightarrow> ('r, PoolSpawnPoolPlanLikeCpp) pool_step) \<Rightarrow> PoolObjectLikeCpp list
     \<Rightarrow> PoolSpawnObjectPlanLikeCpp \<Rightarrow> u64 \<Rightarrow> ('r, PoolSpawnObjectPlanLikeCpp \<times> u64) pool_step" where
  "spawn_rolled g spawn_child [] plan trigger w = Some (Inr (plan, trigger), w)"
| "spawn_rolled g spawn_child (x # xs) plan trigger w =
     (let plan1 = push_selected x plan in
      if pool_guid x = trigger
      then (let plan2 = set_respawned_trigger plan1;
                plan3 = (if member_kind g \<noteq> PoolPool
                         then push_spawn_action (RespawnOne (member_kind g) (pool_guid x)) plan2 else plan2)
            in spawn_rolled g spawn_child xs plan3 0 w)
      else case add_spawn_to_map_like_cpp g (pool_guid x) (spawns w) of
        (added, s1) \<Rightarrow>
          (let w1 = w\<lparr>spawns := s1\<rparr> in
           if \<not> added then spawn_rolled g spawn_child xs plan1 trigger w1
           else (let plan2 = push_spawn_action (SpawnOne (member_kind g) (pool_guid x)) plan1 in
                 if member_kind g = PoolPool
                 then (case try_u32 (pool_guid x) of
                         None \<Rightarrow> Some (Inl (ChildPoolIdOverflow (pool_guid x)), w1)
                       | Some child \<Rightarrow> and_then (spawn_child child)
                           (\<lambda>p. spawn_rolled g spawn_child xs (push_child_spawn p plan2) trigger) w1)
                 else spawn_rolled g spawn_child xs plan2 trigger w1)))"

definition despawn_trigger ::
  "PoolGroupLikeCpp \<Rightarrow> (u32 \<Rightarrow> bool \<Rightarrow> ('r, PoolDespawnPoolPlanLikeCpp) pool_step)
     \<Rightarrow> PoolSpawnObjectPlanLikeCpp \<Rightarrow> u64 \<Rightarrow> ('r, PoolSpawnObjectPlanLikeCpp) pool_step" where
  "despawn_trigger g despawn_child plan trigger w =
     (if trigger \<noteq> 0 \<and> contains_guid_like_cpp g trigger \<and> is_spawned_in_map_like_cpp g (spawns w) trigger
      then (let plan1 = push_spawn_action (DespawnOne (member_kind g) trigger) plan;
                finish = (\<lambda>plan2 w2. case remove_spawn_from_map_like_cpp g trigger (spawns w2) of
                  (removed, s3) \<Rightarrow> Some (Inr (if removed then set_despawned_trigger trigger plan2 else plan2),
                                         w2\<lparr>spawns := s3\<rparr>))
            in if member_kind g = PoolPool
               then (case try_u32 trigger of
                       None \<Rightarrow> Some (Inl (ChildPoolIdOverflow trigger), w)
                     | Some child \<Rightarrow> and_then (despawn_child child False)
                         (\<lambda>p. finish (push_child_despawn p plan1)) w)
               else finish plan1 w)
      else Some (Inr plan, w))"

definition spawn_object_plan_with_child_pools_like_cpp ::
  "PoolGroupLikeCpp \<Rightarrow> u32 \<Rightarrow> u64 \<Rightarrow> 'r explicit_roll \<Rightarrow> 'r choose_equal
     \<Rightarrow> (u32 \<Rightarrow> ('r, PoolSpawnPoolPlanLikeCpp) pool_step)
     \<Rightarrow> (u32 \<Rightarrow> bool \<Rightarrow> ('r, PoolDespawnPoolPlanLikeCpp) pool_step)
     \<Rightarrow> ('r, PoolSpawnObjectPlanLikeCpp) pool_step" where
  "spawn_object_plan_with_child_pools_like_cpp g limit trigger explicit_roll choice spawn_child despawn_child w =
     (let spawned = uint (get_spawned_objects_like_cpp (spawns w) (group_pool_id g));
          count = uint limit - spawned + (if trigger \<noteq> 0 then 1 else 0)
      in case (if count > 0 then roll_objects g trigger count explicit_roll choice (spawns w) (rng w)
               else ([], rng w)) of
           (rolled, r1) \<Rightarrow>
             and_then (spawn_rolled g spawn_child rolled empty_spawn_plan trigger)
               (\<lambda>(plan, trigger1). despawn_trigger g despawn_child plan trigger1) (w\<lparr>rng := r1\<rparr>))"

text \<open>\<open>unwrap_or_default\<close>: the closures do nothing and the group has no child pools to fail on.\<close>

definition spawn_object_plan_like_cpp ::
  "PoolGroupLikeCpp \<Rightarrow> u32 \<Rightarrow> u64 \<Rightarrow> 'r explicit_roll \<Rightarrow> 'r choose_equal
     \<Rightarrow> 'r PlanWorld \<Rightarrow> (PoolSpawnObjectPlanLikeCpp \<times> 'r PlanWorld) option" where
  "spawn_object_plan_like_cpp g limit trigger explicit_roll choice w =
     map_option (\<lambda>(r, w1). (case r of Inl e \<Rightarrow> empty_spawn_plan | Inr plan \<Rightarrow> plan, w1))
       (spawn_object_plan_with_child_pools_like_cpp g limit trigger explicit_roll choice
          (\<lambda>child w. Some (Inr (PoolSpawnPoolPlan 0 []), w))
          (\<lambda>child always w. Some (Inr (PoolDespawnPoolPlan 0 False []), w)) w)"

section \<open>Despawning\<close>

fun despawn_objects ::
  "PoolGroupLikeCpp \<Rightarrow> u64 \<Rightarrow> bool \<Rightarrow> (u32 \<Rightarrow> bool \<Rightarrow> ('r, PoolDespawnPoolPlanLikeCpp) pool_step)
     \<Rightarrow> PoolObjectLikeCpp list \<Rightarrow> PoolDespawnObjectPlanLikeCpp \<Rightarrow> ('r, PoolDespawnObjectPlanLikeCpp) pool_step" where
  "despawn_objects g requested always despawn_child [] plan w = Some (Inr plan, w)"
| "despawn_objects g requested always despawn_child (x # xs) plan w =
     (let i = pool_guid x in
      if member_kind g = PoolPool \<and> try_u32 i = None then Some (Inl (ChildPoolIdOverflow i), w)
      else if is_spawned_in_map_like_cpp g (spawns w) i
      then (if requested = 0 \<or> i = requested
            then (let plan1 = push_despawn_action (DespawnOne (member_kind g) i) plan;
                      finish = (\<lambda>plan2 w2. case remove_spawn_from_map_like_cpp g i (spawns w2) of
                        (removed, s3) \<Rightarrow> despawn_objects g requested always despawn_child xs
                           (if removed then push_despawned i plan2 else plan2) (w2\<lparr>spawns := s3\<rparr>))
                  in if member_kind g = PoolPool
                     then (case try_u32 i of
                             None \<Rightarrow> Some (Inl (ChildPoolIdOverflow i), w)
                           | Some child \<Rightarrow> and_then (despawn_child child always)
                               (\<lambda>p. finish (push_child_plan p plan1)) w)
                     else finish plan1 w)
            else despawn_objects g requested always despawn_child xs plan w)
      else if always \<and> member_kind g \<noteq> PoolPool
      then despawn_objects g requested always despawn_child xs
             (push_removed_time (member_kind g, i) (push_despawn_action (RemoveRespawnTime (member_kind g) i) plan)) w
      else despawn_objects g requested always despawn_child xs plan w)"

definition despawn_object_plan_like_cpp ::
  "PoolGroupLikeCpp \<Rightarrow> u64 \<Rightarrow> bool \<Rightarrow> (u32 \<Rightarrow> bool \<Rightarrow> ('r, PoolDespawnPoolPlanLikeCpp) pool_step)
     \<Rightarrow> ('r, PoolDespawnObjectPlanLikeCpp) pool_step" where
  "despawn_object_plan_like_cpp g requested always despawn_child w =
     despawn_objects g requested always despawn_child (equal_chanced g @ explicitly_chanced g)
       (PoolDespawnObjectPlan [] requested always [] [] []) w"

section \<open>Steps as monotone functions of their closures\<close>

lemmas mono_rules = if_mono option.const_mono

lemma and_then_mono [partial_function_mono]:
  fixes m :: "('x \<Rightarrow> 'y option) \<Rightarrow> ('r, 'a) pool_step"
    and f :: "('x \<Rightarrow> 'y option) \<Rightarrow> 'a \<Rightarrow> ('r, 'b) pool_step"
  assumes "mono_option (\<lambda>F. m F w)" and "\<And>a w1. mono_option (\<lambda>F. f F a w1)"
  shows "mono_option (\<lambda>F. and_then (m F) (f F) w)"
proof -
  have "mono_option (\<lambda>F. case r of Inl e \<Rightarrow> Some (Inl e, w1) | Inr a \<Rightarrow> f F a w1)"
    for r :: "PoolMgrPlanErrorLikeCpp + 'a" and w1
    by (cases r) (simp_all add: assms option.const_mono)
  then have "mono_option (\<lambda>F. case y of (r, w1) \<Rightarrow> case r of Inl e \<Rightarrow> Some (Inl e, w1) | Inr a \<Rightarrow> f F a w1)"
    for y :: "(PoolMgrPlanErrorLikeCpp + 'a) \<times> 'r PlanWorld"
    by (cases y) simp
  then show ?thesis unfolding and_then_def by (intro bind_mono assms(1))
qed

lemma spawn_rolled_mono [partial_function_mono]:
  assumes "\<And>child w. mono_option (\<lambda>F. sc F child w)"
  shows "mono_option (\<lambda>F. spawn_rolled g (sc F) xs plan trigger w)"
proof (induction xs arbitrary: plan trigger w)
  case (Cons x xs)
  obtain added s1 where a: "add_spawn_to_map_like_cpp g (pool_guid x) (spawns w) = (added, s1)" by fastforce
  show ?case unfolding spawn_rolled.simps Let_def a prod.case
    by (cases "try_u32 (pool_guid x)"; simp only: option.case; intro mono_rules and_then_mono assms Cons.IH)
qed (simp add: option.const_mono)

lemma despawn_trigger_mono [partial_function_mono]:
  assumes "\<And>child always w. mono_option (\<lambda>F. dc F child always w)"
  shows "mono_option (\<lambda>F. despawn_trigger g (dc F) plan trigger w)"
  unfolding despawn_trigger_def Let_def
  by (cases "try_u32 trigger"; simp only: option.case; intro mono_rules and_then_mono assms)

lemma spawn_object_plan_mono [partial_function_mono]:
  assumes "\<And>child w. mono_option (\<lambda>F. sc F child w)"
    and "\<And>child always w. mono_option (\<lambda>F. dc F child always w)"
  shows "mono_option (\<lambda>F. spawn_object_plan_with_child_pools_like_cpp g limit trigger roll choice (sc F) (dc F) w)"
proof -
  have "mono_option (\<lambda>F. case p of (plan, trigger1) \<Rightarrow> despawn_trigger g (dc F) plan trigger1 w)" for p w
    by (cases p) (simp add: despawn_trigger_mono assms)
  then have "mono_option (\<lambda>F. case p of (rolled, r1) \<Rightarrow>
      and_then (spawn_rolled g (sc F) rolled empty_spawn_plan trigger)
        (\<lambda>(plan, trigger1). despawn_trigger g (dc F) plan trigger1) (w\<lparr>rng := r1\<rparr>))" for p
    by (cases p) (simp add: and_then_mono spawn_rolled_mono assms split_def)
  then show ?thesis unfolding spawn_object_plan_with_child_pools_like_cpp_def Let_def .
qed

lemma despawn_objects_mono [partial_function_mono]:
  assumes "\<And>child always w. mono_option (\<lambda>F. dc F child always w)"
  shows "mono_option (\<lambda>F. despawn_objects g requested always (dc F) xs plan w)"
proof (induction xs arbitrary: plan w)
  case (Cons x xs)
  have finish: "mono_option (\<lambda>F. case p of (removed, s3) \<Rightarrow>
      despawn_objects g requested always (dc F) xs (f removed) (h s3))" for p f h
    by (cases p) (simp add: Cons.IH)
  show ?case unfolding despawn_objects.simps Let_def
    by (cases "try_u32 (pool_guid x)"; simp only: option.case;
        intro mono_rules and_then_mono assms finish Cons.IH)
qed (simp add: option.const_mono)

lemma despawn_object_plan_mono [partial_function_mono]:
  assumes "\<And>child always w. mono_option (\<lambda>F. dc F child always w)"
  shows "mono_option (\<lambda>F. despawn_object_plan_like_cpp g requested always (dc F) w)"
  unfolding despawn_object_plan_like_cpp_def by (intro despawn_objects_mono assms)

end
