(* ===== verification/PoolPlans.thy ===== *)
theory PoolPlans
  imports PoolModel
begin

text \<open>
  The pool manager (\<open>crates/wow-map/src/pool/state_1.rs\<close>): its registrations, and the plans for
  spawning, updating and despawning a pool with the child pools below it.  The set \<open>visiting\<close>
  guards against cycles of pools; planning is a partial function whose value \<open>None\<close> would be a
  run that never returns.
\<close>

section \<open>The manager\<close>

record PoolMgrLikeCpp =
  templates :: "(u32, PoolTemplateDataLikeCpp) hash_map"
  creature_groups :: "(u32, PoolGroupLikeCpp) hash_map"
  gameobject_groups :: "(u32, PoolGroupLikeCpp) hash_map"
  pool_groups :: "(u32, PoolGroupLikeCpp) hash_map"
  creature_spawn_to_pool :: "(SpawnId, u32) hash_map"
  gameobject_spawn_to_pool :: "(SpawnId, u32) hash_map"
  child_pool_to_parent :: "(u32, u32) hash_map"
  auto_spawn_pools_per_map :: "(i32, u32 list) hash_map"

definition pool_mgr_new :: PoolMgrLikeCpp where
  "pool_mgr_new = \<lparr>templates = [], creature_groups = [], gameobject_groups = [], pool_groups = [],
     creature_spawn_to_pool = [], gameobject_spawn_to_pool = [], child_pool_to_parent = [],
     auto_spawn_pools_per_map = []\<rparr>"

definition insert_template_like_cpp :: "u32 \<Rightarrow> PoolTemplateDataLikeCpp \<Rightarrow> PoolMgrLikeCpp \<Rightarrow> PoolMgrLikeCpp" where
  "insert_template_like_cpp p t m = m\<lparr>templates := hm_insert p t (templates m)\<rparr>"

definition pool_template_like_cpp :: "PoolMgrLikeCpp \<Rightarrow> u32 \<Rightarrow> PoolTemplateDataLikeCpp option" where
  "pool_template_like_cpp m p = hm_get (templates m) p"

definition group_like_cpp :: "PoolMgrLikeCpp \<Rightarrow> PoolMemberKindLikeCpp \<Rightarrow> u32 \<Rightarrow> PoolGroupLikeCpp option" where
  "group_like_cpp m kind p =
     (case kind of PoolCreature \<Rightarrow> hm_get (creature_groups m) p
      | PoolGameObject \<Rightarrow> hm_get (gameobject_groups m) p
      | PoolPool \<Rightarrow> hm_get (pool_groups m) p)"

definition insert_or_replace_group_like_cpp ::
  "PoolMemberKindLikeCpp \<Rightarrow> u32 \<Rightarrow> PoolGroupLikeCpp \<Rightarrow> PoolMgrLikeCpp
     \<Rightarrow> (PoolMgrPlanErrorLikeCpp + PoolGroupLikeCpp option) \<times> PoolMgrLikeCpp" where
  "insert_or_replace_group_like_cpp kind p g m =
     (if member_kind g \<noteq> kind then (Inl (WrongGroupKind kind (member_kind g)), m)
      else (let g1 = set_pool_id_like_cpp p g in
        (Inr (group_like_cpp m kind p),
         case kind of PoolCreature \<Rightarrow> m\<lparr>creature_groups := hm_insert p g1 (creature_groups m)\<rparr>
         | PoolGameObject \<Rightarrow> m\<lparr>gameobject_groups := hm_insert p g1 (gameobject_groups m)\<rparr>
         | PoolPool \<Rightarrow> m\<lparr>pool_groups := hm_insert p g1 (pool_groups m)\<rparr>)))"

definition register_child_pool_relation_like_cpp ::
  "u64 \<Rightarrow> u32 \<Rightarrow> PoolMgrLikeCpp \<Rightarrow> (PoolMgrPlanErrorLikeCpp + u32 option) \<times> PoolMgrLikeCpp" where
  "register_child_pool_relation_like_cpp i parent m =
     (case try_u32 i of None \<Rightarrow> (Inl (ChildPoolIdOverflow i), m)
      | Some child \<Rightarrow> (Inr (hm_get (child_pool_to_parent m) child),
          m\<lparr>child_pool_to_parent := hm_insert child parent (child_pool_to_parent m)\<rparr>))"

definition register_spawn_pool_relation_like_cpp ::
  "PoolMemberKindLikeCpp \<Rightarrow> SpawnId \<Rightarrow> u32 \<Rightarrow> PoolMgrLikeCpp
     \<Rightarrow> (PoolMgrPlanErrorLikeCpp + u32 option) \<times> PoolMgrLikeCpp" where
  "register_spawn_pool_relation_like_cpp kind i p m =
     (case kind of
        PoolCreature \<Rightarrow> (Inr (hm_get (creature_spawn_to_pool m) i),
          m\<lparr>creature_spawn_to_pool := hm_insert i p (creature_spawn_to_pool m)\<rparr>)
      | PoolGameObject \<Rightarrow> (Inr (hm_get (gameobject_spawn_to_pool m) i),
          m\<lparr>gameobject_spawn_to_pool := hm_insert i p (gameobject_spawn_to_pool m)\<rparr>)
      | PoolPool \<Rightarrow> register_child_pool_relation_like_cpp i p m)"

definition auto_spawn_pools_for_map_like_cpp :: "PoolMgrLikeCpp \<Rightarrow> i32 \<Rightarrow> u32 list" where
  "auto_spawn_pools_for_map_like_cpp m i =
     (case hm_get (auto_spawn_pools_per_map m) i of None \<Rightarrow> [] | Some ps \<Rightarrow> ps)"

definition add_auto_spawn_pool_like_cpp :: "i32 \<Rightarrow> u32 \<Rightarrow> PoolMgrLikeCpp \<Rightarrow> PoolMgrLikeCpp" where
  "add_auto_spawn_pool_like_cpp i p m =
     m\<lparr>auto_spawn_pools_per_map := hm_insert i (auto_spawn_pools_for_map_like_cpp m i @ [p]) (auto_spawn_pools_per_map m)\<rparr>"

definition remove_child_pool_relation_like_cpp ::
  "u32 \<Rightarrow> u32 \<Rightarrow> PoolMgrLikeCpp \<Rightarrow> PoolRelationRemovalLikeCpp \<times> PoolMgrLikeCpp" where
  "remove_child_pool_relation_like_cpp child parent m =
     (case (case hm_get (pool_groups m) parent of
              None \<Rightarrow> (\<lparr>removed_explicit = False, removed_equal = False\<rparr>, m)
            | Some g \<Rightarrow> (case remove_one_relation_like_cpp child g of
                (removal, g1) \<Rightarrow> (removal, m\<lparr>pool_groups := hm_insert parent g1 (pool_groups m)\<rparr>))) of
        (removal, m1) \<Rightarrow> (removal, m1\<lparr>child_pool_to_parent := hm_remove child (child_pool_to_parent m1)\<rparr>))"

definition is_part_of_a_pool_like_cpp ::
  "PoolMgrLikeCpp \<Rightarrow> SpawnObjectType \<Rightarrow> SpawnId \<Rightarrow> PoolMgrPlanErrorLikeCpp + u32" where
  "is_part_of_a_pool_like_cpp m t i =
     (case t of
        SpawnCreature \<Rightarrow> Inr (case hm_get (creature_spawn_to_pool m) i of None \<Rightarrow> 0 | Some p \<Rightarrow> p)
      | SpawnGameObject \<Rightarrow> Inr (case hm_get (gameobject_spawn_to_pool m) i of None \<Rightarrow> 0 | Some p \<Rightarrow> p)
      | SpawnAreaTrigger \<Rightarrow> Inr 0)"

text \<open>The error names the first child whose identifier does not fit.\<close>

definition ensure_no_child_pool_overflow_like_cpp :: "PoolGroupLikeCpp \<Rightarrow> PoolMgrPlanErrorLikeCpp option" where
  "ensure_no_child_pool_overflow_like_cpp g =
     (if member_kind g \<noteq> PoolPool then None
      else map_option (\<lambda>x. ChildPoolIdOverflow (pool_guid x))
             (find (\<lambda>x. try_u32 (pool_guid x) = None) (explicitly_chanced g @ equal_chanced g)))"

definition check_pool_like_cpp :: "PoolMgrLikeCpp \<Rightarrow> u32 \<Rightarrow> bool" where
  "check_pool_like_cpp m p =
     list_all (\<lambda>kind. case group_like_cpp m kind p of None \<Rightarrow> True | Some g \<Rightarrow> group_check_pool_like_cpp g)
       [PoolGameObject, PoolCreature, PoolPool]"

section \<open>Deep emptiness\<close>

text \<open>The set of pools being visited is threaded through; it is left as it was found.\<close>

type_synonym empty_check = "u32 list \<Rightarrow> (bool \<times> u32 list) option"

fun children_empty :: "(u32 \<Rightarrow> empty_check) \<Rightarrow> PoolObjectLikeCpp list \<Rightarrow> empty_check" where
  "children_empty check [] vs = Some (True, vs)"
| "children_empty check (x # xs) vs =
     (case try_u32 (pool_guid x) of None \<Rightarrow> Some (False, vs)
      | Some child \<Rightarrow> Option.bind (check child vs)
          (\<lambda>(vacant, vs1). if vacant then children_empty check xs vs1 else Some (False, vs1)))"

definition is_empty_deep_check_like_cpp :: "PoolGroupLikeCpp \<Rightarrow> (u32 \<Rightarrow> empty_check) \<Rightarrow> empty_check" where
  "is_empty_deep_check_like_cpp g check vs =
     (if member_kind g \<noteq> PoolPool then Some (group_is_empty_like_cpp g, vs)
      else children_empty check (explicitly_chanced g @ equal_chanced g) vs)"

fun kinds_empty ::
  "PoolMgrLikeCpp \<Rightarrow> u32 \<Rightarrow> (u32 \<Rightarrow> empty_check) \<Rightarrow> PoolMemberKindLikeCpp list \<Rightarrow> empty_check" where
  "kinds_empty m p check [] vs = Some (True, vs)"
| "kinds_empty m p check (kind # kinds) vs =
     (case group_like_cpp m kind p of None \<Rightarrow> kinds_empty m p check kinds vs
      | Some g \<Rightarrow> Option.bind (is_empty_deep_check_like_cpp g (if kind = PoolPool then check else (\<lambda>_ vs. Some (True, vs))) vs)
          (\<lambda>(vacant, vs1). if vacant then kinds_empty m p check kinds vs1 else Some (False, vs1)))"

lemma children_empty_mono [partial_function_mono]:
  assumes "\<And>child vs. mono_option (\<lambda>F. check F child vs)"
  shows "mono_option (\<lambda>F. children_empty (check F) xs vs)"
proof (induction xs arbitrary: vs)
  case (Cons x xs)
  have "mono_option (\<lambda>F. case y of (vacant, vs1) \<Rightarrow>
      if vacant then children_empty (check F) xs vs1 else Some (False, vs1))" for y
    by (cases y; simp only: prod.case; intro mono_rules Cons.IH)
  then show ?case unfolding children_empty.simps
    by (cases "try_u32 (pool_guid x)"; simp only: option.case; intro option.const_mono bind_mono assms)
qed (simp add: option.const_mono)

lemma kinds_empty_mono [partial_function_mono]:
  assumes "\<And>child vs. mono_option (\<lambda>F. check F child vs)"
  shows "mono_option (\<lambda>F. kinds_empty m p (check F) kinds vs)"
proof (induction kinds arbitrary: vs)
  case (Cons kind kinds)
  have k: "mono_option (\<lambda>F. (if kind = PoolPool then check F else (\<lambda>_ vs. Some (True, vs))) child vs)" for child vs
    by (cases "kind = PoolPool") (simp_all add: assms option.const_mono)
  have deep: "mono_option (\<lambda>F. is_empty_deep_check_like_cpp g
      (if kind = PoolPool then check F else (\<lambda>_ vs. Some (True, vs))) vs)" for g
    unfolding is_empty_deep_check_like_cpp_def by (intro if_mono option.const_mono children_empty_mono k)
  have "mono_option (\<lambda>F. case y of (vacant, vs1) \<Rightarrow>
      if vacant then kinds_empty m p (check F) kinds vs1 else Some (False, vs1))" for y
    by (cases y; simp only: prod.case; intro mono_rules Cons.IH)
  then show ?case unfolding kinds_empty.simps
    by (cases "group_like_cpp m kind p"; simp only: option.case; intro Cons.IH bind_mono deep)
qed (simp add: option.const_mono)

partial_function (option) is_empty_with_visited_like_cpp ::
  "PoolMgrLikeCpp \<Rightarrow> u32 \<Rightarrow> u32 list \<Rightarrow> (bool \<times> u32 list) option" where
  "is_empty_with_visited_like_cpp m p vs =
     (if p \<in> set vs then Some (False, vs)
      else Option.bind (kinds_empty m p (\<lambda>child vs1. is_empty_with_visited_like_cpp m child vs1)
             [PoolGameObject, PoolCreature, PoolPool] (List.insert p vs))
             (\<lambda>r. Some (fst r, removeAll p (snd r))))"

declare is_empty_with_visited_like_cpp.simps [code]

definition is_empty_like_cpp :: "PoolMgrLikeCpp \<Rightarrow> u32 \<Rightarrow> bool option" where
  "is_empty_like_cpp m p = map_option fst (is_empty_with_visited_like_cpp m p [])"

definition top_level_auto_spawn_candidate_like_cpp :: "PoolMgrLikeCpp \<Rightarrow> u32 \<Rightarrow> i32 option option" where
  "top_level_auto_spawn_candidate_like_cpp m p =
     map_option (\<lambda>vacant. if vacant \<or> \<not> check_pool_like_cpp m p \<or> hm_contains_key (child_pool_to_parent m) p then None
       else map_option template_map_id (hm_get (templates m) p)) (is_empty_like_cpp m p)"

section \<open>Despawning\<close>

definition despawn_typed_step ::
  "(u32 \<Rightarrow> bool \<Rightarrow> ('r, PoolDespawnPoolPlanLikeCpp) pool_step) \<Rightarrow> PoolMgrLikeCpp \<Rightarrow> PoolMemberKindLikeCpp
     \<Rightarrow> u32 \<Rightarrow> u64 \<Rightarrow> bool \<Rightarrow> ('r, PoolTypedDespawnPlanLikeCpp) pool_step" where
  "despawn_typed_step despawn_child m kind p requested always w =
     (case group_like_cpp m kind p of
        None \<Rightarrow> Some (Inr (PoolTypedDespawnPlan kind p requested always None (Some MissingGroup)), w)
      | Some g \<Rightarrow>
          (if group_is_empty_like_cpp g
           then Some (Inr (PoolTypedDespawnPlan kind p requested always None (Some EmptyGroup)), w)
           else and_then (despawn_object_plan_like_cpp g requested always despawn_child)
                  (\<lambda>plan w1. Some (Inr (PoolTypedDespawnPlan kind p requested always (Some plan) None), w1)) w))"

text \<open>The loop over the kinds, collecting the typed plans.\<close>

fun for_kinds :: "(PoolMemberKindLikeCpp \<Rightarrow> ('r, 'p) pool_step) \<Rightarrow> PoolMemberKindLikeCpp list \<Rightarrow> 'p list \<Rightarrow> ('r, 'p list) pool_step" where
  "for_kinds step [] subplans w = Some (Inr subplans, w)"
| "for_kinds step (kind # kinds) subplans w =
     and_then (step kind) (\<lambda>p. for_kinds step kinds (subplans @ [p])) w"

lemma despawn_typed_mono [partial_function_mono]:
  assumes "\<And>child always w. mono_option (\<lambda>F. dc F child always w)"
  shows "mono_option (\<lambda>F. despawn_typed_step (dc F) m kind p requested always w)"
  unfolding despawn_typed_step_def
  by (cases "group_like_cpp m kind p"; simp only: option.case;
      intro mono_rules and_then_mono despawn_object_plan_mono assms)

lemma for_kinds_mono [partial_function_mono]:
  assumes "\<And>kind w. mono_option (\<lambda>F. step F kind w)"
  shows "mono_option (\<lambda>F. for_kinds (step F) kinds subplans w)"
proof (induction kinds arbitrary: subplans w)
  case (Cons kind kinds)
  show ?case unfolding for_kinds.simps by (intro and_then_mono assms Cons.IH)
qed (simp add: option.const_mono)

definition visit :: "u32 \<Rightarrow> 'r PlanWorld \<Rightarrow> 'r PlanWorld" where
  "visit p w = w\<lparr>visiting := List.insert p (visiting w)\<rparr>"

definition leave :: "u32 \<Rightarrow> 'r PlanWorld \<Rightarrow> 'r PlanWorld" where
  "leave p w = w\<lparr>visiting := removeAll p (visiting w)\<rparr>"

partial_function (option) despawn_pool_plan_with_visited_like_cpp ::
  "PoolMgrLikeCpp \<Rightarrow> u32 \<Rightarrow> bool \<Rightarrow> 'r PlanWorld
     \<Rightarrow> ((PoolMgrPlanErrorLikeCpp + PoolDespawnPoolPlanLikeCpp) \<times> 'r PlanWorld) option" where
  "despawn_pool_plan_with_visited_like_cpp m p always w =
     (if p \<in> set (visiting w) then Some (Inl (ChildPoolCycle p), w)
      else and_then (for_kinds (\<lambda>kind w1. despawn_typed_step
                (\<lambda>child always w2. despawn_pool_plan_with_visited_like_cpp m child always w2) m kind p 0 always w1)
             [PoolCreature, PoolGameObject, PoolPool] [])
             (\<lambda>subplans w1. Some (Inr (PoolDespawnPoolPlan p always subplans), leave p w1)) (visit p w))"

declare despawn_pool_plan_with_visited_like_cpp.simps [code]

definition despawn_typed_pool_plan_with_visited_like_cpp ::
  "PoolMgrLikeCpp \<Rightarrow> PoolMemberKindLikeCpp \<Rightarrow> u32 \<Rightarrow> u64 \<Rightarrow> bool \<Rightarrow> ('r, PoolTypedDespawnPlanLikeCpp) pool_step" where
  "despawn_typed_pool_plan_with_visited_like_cpp m =
     despawn_typed_step (despawn_pool_plan_with_visited_like_cpp m) m"

text \<open>A public operation starts with no pool visited and answers the spawned objects.\<close>

definition despawn_pool_plan_like_cpp ::
  "PoolMgrLikeCpp \<Rightarrow> u32 \<Rightarrow> bool \<Rightarrow> SpawnedPoolDataLikeCpp
     \<Rightarrow> ((PoolMgrPlanErrorLikeCpp + PoolDespawnPoolPlanLikeCpp) \<times> SpawnedPoolDataLikeCpp) option" where
  "despawn_pool_plan_like_cpp m p always s =
     map_option (\<lambda>(r, w). (r, spawns w))
       (despawn_pool_plan_with_visited_like_cpp m p always \<lparr>spawns = s, rng = (), visiting = []\<rparr>)"

definition despawn_typed_pool_plan_like_cpp ::
  "PoolMgrLikeCpp \<Rightarrow> PoolMemberKindLikeCpp \<Rightarrow> u32 \<Rightarrow> u64 \<Rightarrow> bool \<Rightarrow> SpawnedPoolDataLikeCpp
     \<Rightarrow> ((PoolMgrPlanErrorLikeCpp + PoolTypedDespawnPlanLikeCpp) \<times> SpawnedPoolDataLikeCpp) option" where
  "despawn_typed_pool_plan_like_cpp m kind p requested always s =
     map_option (\<lambda>(r, w). (r, spawns w))
       (despawn_typed_pool_plan_with_visited_like_cpp m kind p requested always \<lparr>spawns = s, rng = (), visiting = [p]\<rparr>)"

section \<open>Spawning\<close>

type_synonym 'r explicit_roll_for = "PoolMemberKindLikeCpp \<Rightarrow> u32 \<Rightarrow> 'r explicit_roll"

definition spawn_typed_step ::
  "(u32 \<Rightarrow> ('r, PoolSpawnPoolPlanLikeCpp) pool_step) \<Rightarrow> PoolMgrLikeCpp \<Rightarrow> 'r explicit_roll_for \<Rightarrow> 'r choose_equal
     \<Rightarrow> PoolMemberKindLikeCpp \<Rightarrow> u32 \<Rightarrow> u64 \<Rightarrow> ('r, PoolTypedSpawnPlanLikeCpp) pool_step" where
  "spawn_typed_step spawn_child m roll_for choice kind p trigger w =
     (case group_like_cpp m kind p of
        None \<Rightarrow> Some (Inr (PoolTypedSpawnPlan kind p trigger None None (Some MissingGroup)), w)
      | Some g \<Rightarrow>
          (if group_is_empty_like_cpp g
           then Some (Inr (PoolTypedSpawnPlan kind p trigger None None (Some EmptyGroup)), w)
           else (case ensure_no_child_pool_overflow_like_cpp g of
              Some e \<Rightarrow> Some (Inl e, w)
            | None \<Rightarrow>
              (case hm_get (templates m) p of
                 None \<Rightarrow> Some (Inl (MissingTemplate p), w)
               | Some t \<Rightarrow>
                   and_then
                     (if kind = PoolPool
                      then spawn_object_plan_with_child_pools_like_cpp g (max_limit t) trigger (roll_for kind p) choice
                             spawn_child (\<lambda>child _. despawn_pool_plan_with_visited_like_cpp m child False)
                      else (\<lambda>w1. map_option (\<lambda>(plan, w2). (Inr plan, w2))
                             (spawn_object_plan_like_cpp g (max_limit t) trigger (roll_for kind p) choice w1)))
                     (\<lambda>plan w1. Some (Inr (PoolTypedSpawnPlan kind p trigger (Some (max_limit t)) (Some plan) None), w1))
                     w))))"

lemma spawn_typed_mono [partial_function_mono]:
  assumes sc: "\<And>child w. mono_option (\<lambda>F. sc F child w)"
  shows "mono_option (\<lambda>F. spawn_typed_step (sc F) m roll_for choice kind p trigger w)"
proof -
  have body: "mono_option (\<lambda>F. (if kind = PoolPool
      then spawn_object_plan_with_child_pools_like_cpp g limit trigger (roll_for kind p) choice (sc F)
             (\<lambda>child _. despawn_pool_plan_with_visited_like_cpp m child False)
      else (\<lambda>w1. map_option (\<lambda>(plan, w2). (Inr plan, w2))
             (spawn_object_plan_like_cpp g limit trigger (roll_for kind p) choice w1))) w)" for g limit w
    by (cases "kind = PoolPool") (simp_all add: spawn_object_plan_mono sc option.const_mono)
  show ?thesis unfolding spawn_typed_step_def
    by (cases "group_like_cpp m kind p"; simp only: option.case; (intro option.const_mono if_mono)?;
        cases "ensure_no_child_pool_overflow_like_cpp (the (group_like_cpp m kind p))"; simp only: option.case option.sel;
        (intro option.const_mono)?; cases "hm_get (templates m) p"; simp only: option.case;
        intro option.const_mono and_then_mono body)
qed

partial_function (option) spawn_pool_plan_with_visited_like_cpp ::
  "PoolMgrLikeCpp \<Rightarrow> 'r explicit_roll_for \<Rightarrow> 'r choose_equal \<Rightarrow> u32 \<Rightarrow> 'r PlanWorld
     \<Rightarrow> ((PoolMgrPlanErrorLikeCpp + PoolSpawnPoolPlanLikeCpp) \<times> 'r PlanWorld) option" where
  "spawn_pool_plan_with_visited_like_cpp m roll_for choice p w =
     (if p \<in> set (visiting w) then Some (Inl (ChildPoolCycle p), w)
      else and_then (for_kinds (\<lambda>kind w1. spawn_typed_step
                (\<lambda>child w2. spawn_pool_plan_with_visited_like_cpp m roll_for choice child w2)
                m roll_for choice kind p 0 w1)
             [PoolPool, PoolGameObject, PoolCreature] [])
             (\<lambda>subplans w1. Some (Inr (PoolSpawnPoolPlan p subplans), leave p w1)) (visit p w))"

declare spawn_pool_plan_with_visited_like_cpp.simps [code]

definition spawn_typed_pool_plan_with_visited_like_cpp ::
  "PoolMgrLikeCpp \<Rightarrow> 'r explicit_roll_for \<Rightarrow> 'r choose_equal \<Rightarrow> PoolMemberKindLikeCpp \<Rightarrow> u32 \<Rightarrow> u64
     \<Rightarrow> ('r, PoolTypedSpawnPlanLikeCpp) pool_step" where
  "spawn_typed_pool_plan_with_visited_like_cpp m roll_for choice =
     spawn_typed_step (spawn_pool_plan_with_visited_like_cpp m roll_for choice) m roll_for choice"

definition unvisited :: "SpawnedPoolDataLikeCpp \<Rightarrow> 'r \<Rightarrow> 'r PlanWorld" where
  "unvisited s r = \<lparr>spawns = s, rng = r, visiting = []\<rparr>"

type_synonym ('r, 'a) planned =
  "((PoolMgrPlanErrorLikeCpp + 'a) \<times> SpawnedPoolDataLikeCpp \<times> 'r) option"

definition planned :: "((PoolMgrPlanErrorLikeCpp + 'a) \<times> 'r PlanWorld) option \<Rightarrow> ('r, 'a) planned" where
  "planned x = map_option (\<lambda>(r, w). (r, spawns w, rng w)) x"

definition spawn_pool_plan_like_cpp ::
  "PoolMgrLikeCpp \<Rightarrow> 'r explicit_roll_for \<Rightarrow> 'r choose_equal \<Rightarrow> u32 \<Rightarrow> SpawnedPoolDataLikeCpp \<Rightarrow> 'r
     \<Rightarrow> ('r, PoolSpawnPoolPlanLikeCpp) planned" where
  "spawn_pool_plan_like_cpp m roll_for choice p s r =
     planned (spawn_pool_plan_with_visited_like_cpp m roll_for choice p (unvisited s r))"

definition spawn_typed_pool_plan_like_cpp ::
  "PoolMgrLikeCpp \<Rightarrow> 'r explicit_roll_for \<Rightarrow> 'r choose_equal \<Rightarrow> PoolMemberKindLikeCpp \<Rightarrow> u32 \<Rightarrow> u64
     \<Rightarrow> SpawnedPoolDataLikeCpp \<Rightarrow> 'r \<Rightarrow> ('r, PoolTypedSpawnPlanLikeCpp) planned" where
  "spawn_typed_pool_plan_like_cpp m roll_for choice kind p trigger s r =
     planned (spawn_typed_pool_plan_with_visited_like_cpp m roll_for choice kind p trigger (unvisited s r))"

definition update_pool_plan_like_cpp ::
  "PoolMgrLikeCpp \<Rightarrow> 'r explicit_roll_for \<Rightarrow> 'r choose_equal \<Rightarrow> u32 \<Rightarrow> SpawnObjectType \<Rightarrow> SpawnId
     \<Rightarrow> SpawnedPoolDataLikeCpp \<Rightarrow> 'r \<Rightarrow> ('r, PoolTypedSpawnPlanLikeCpp) planned" where
  "update_pool_plan_like_cpp m roll_for choice p t i s r =
     (if t = SpawnAreaTrigger then Some (Inl (UnsupportedSpawnType t), s, r)
      else case hm_get (child_pool_to_parent m) p of
        Some mother \<Rightarrow> spawn_typed_pool_plan_like_cpp m roll_for choice PoolPool mother (ucast p) s r
      | None \<Rightarrow>
          planned (spawn_typed_pool_plan_with_visited_like_cpp m roll_for choice
            (if t = SpawnCreature then PoolCreature else PoolGameObject) p i (unvisited s r)))"

section \<open>Initialising a map\<close>

datatype PoolInitForMapErrorKindLikeCpp = MapIdOutOfI32Range | PoolPlan PoolMgrPlanErrorLikeCpp

record PoolInitForMapErrorLikeCpp =
  init_error_map_id :: u32
  init_error_pool_id :: "u32 option"
  init_error :: PoolInitForMapErrorKindLikeCpp

record PoolInitForMapPlanLikeCpp =
  init_map_id :: u32
  init_pools :: "PoolSpawnPoolPlanLikeCpp list"
  init_errors :: "PoolInitForMapErrorLikeCpp list"

fun init_pools_loop ::
  "PoolMgrLikeCpp \<Rightarrow> 'r explicit_roll_for \<Rightarrow> 'r choose_equal \<Rightarrow> u32 list \<Rightarrow> PoolInitForMapPlanLikeCpp
     \<Rightarrow> SpawnedPoolDataLikeCpp \<Rightarrow> 'r \<Rightarrow> (PoolInitForMapPlanLikeCpp \<times> SpawnedPoolDataLikeCpp \<times> 'r) option" where
  "init_pools_loop m roll_for choice [] plan s r = Some (plan, s, r)"
| "init_pools_loop m roll_for choice (p # ps) plan s r =
     Option.bind (spawn_pool_plan_like_cpp m roll_for choice p s r) (\<lambda>(x, s1, r1).
       init_pools_loop m roll_for choice ps
         (case x of Inr pool_plan \<Rightarrow> plan\<lparr>init_pools := init_pools plan @ [pool_plan]\<rparr>
          | Inl e \<Rightarrow> plan\<lparr>init_errors := init_errors plan @
              [\<lparr>init_error_map_id = init_map_id plan, init_error_pool_id = Some p, init_error = PoolPlan e\<rparr>]\<rparr>) s1 r1)"

definition init_pools_for_map_plan_like_cpp ::
  "PoolMgrLikeCpp \<Rightarrow> 'r explicit_roll_for \<Rightarrow> 'r choose_equal \<Rightarrow> u32 \<Rightarrow> SpawnedPoolDataLikeCpp \<Rightarrow> 'r
     \<Rightarrow> (PoolInitForMapPlanLikeCpp \<times> SpawnedPoolDataLikeCpp \<times> 'r) option" where
  "init_pools_for_map_plan_like_cpp m roll_for choice map_id s r =
     (let plan = \<lparr>init_map_id = map_id, init_pools = [], init_errors = []\<rparr>
      in if uint map_id \<ge> 2 ^ 31
         then Some (plan\<lparr>init_errors := [\<lparr>init_error_map_id = map_id, init_error_pool_id = None,
                init_error = MapIdOutOfI32Range\<rparr>]\<rparr>, s, r)
         else init_pools_loop m roll_for choice (auto_spawn_pools_for_map_like_cpp m map_id) plan s r)"

definition plan_attempted :: "PoolInitForMapPlanLikeCpp \<Rightarrow> nat" where
  "plan_attempted plan = length (init_pools plan) + length (filter (\<lambda>e. init_error_pool_id e \<noteq> None) (init_errors plan))"

definition plan_count_actions_like_cpp :: "(PoolSpawnObjectActionLikeCpp \<Rightarrow> bool) \<Rightarrow> PoolInitForMapPlanLikeCpp \<Rightarrow> nat" where
  "plan_count_actions_like_cpp matches_action plan =
     length (filter matches_action (concat (map spawn_actions
       (List.map_filter typed_object_plan (concat (map spawn_subplans (init_pools plan)))))))"

fun is_spawn_one :: "PoolSpawnObjectActionLikeCpp \<Rightarrow> bool" where
  "is_spawn_one (SpawnOne kind i) = True"
| "is_spawn_one _ = False"

fun is_respawn_one :: "PoolSpawnObjectActionLikeCpp \<Rightarrow> bool" where
  "is_respawn_one (RespawnOne kind i) = True"
| "is_respawn_one _ = False"

fun is_despawn_one :: "PoolSpawnObjectActionLikeCpp \<Rightarrow> bool" where
  "is_despawn_one (DespawnOne kind i) = True"
| "is_despawn_one _ = False"

definition spawn_one_actions :: "PoolInitForMapPlanLikeCpp \<Rightarrow> nat" where
  "spawn_one_actions = plan_count_actions_like_cpp is_spawn_one"

definition respawn_one_actions :: "PoolInitForMapPlanLikeCpp \<Rightarrow> nat" where
  "respawn_one_actions = plan_count_actions_like_cpp is_respawn_one"

definition despawn_one_actions :: "PoolInitForMapPlanLikeCpp \<Rightarrow> nat" where
  "despawn_one_actions = plan_count_actions_like_cpp is_despawn_one"

end
