(* ===== verification/PoolTermination.thy ===== *)
theory PoolTermination
  imports PoolPlans
begin

text \<open>
  Planning always returns: on any manager, also one whose child relation has cycles, the set of
  pools being visited grows with every nested call and stops the recursion.  The rules for the
  outcome of a step are shared with the laws of well-formed managers.
\<close>

section \<open>Outcomes of steps\<close>

text \<open>The step returned; a result comes with \<open>Q\<close>, and an error leaves a world with \<open>E\<close>.\<close>

definition outcome :: "('w \<Rightarrow> bool) \<Rightarrow> ('a \<Rightarrow> 'w \<Rightarrow> bool) \<Rightarrow> (('e + 'a) \<times> 'w) option \<Rightarrow> bool" where
  "outcome E Q out \<longleftrightarrow> (\<exists>x w. out = Some (x, w) \<and> (case x of Inl e \<Rightarrow> E w | Inr a \<Rightarrow> Q a w))"

named_theorems outcome_rules \<open>one rule per form of a step\<close>

lemma outcome_simps [simp]:
  "outcome E Q (Some (Inr a, w)) \<longleftrightarrow> Q a w" "outcome E Q (Some (Inl e, w)) \<longleftrightarrow> E w"
  "\<not> outcome E Q None"
  by (simp_all add: outcome_def)

lemma outcome_Inr [outcome_rules]: "Q a w \<Longrightarrow> outcome E Q (Some (Inr a, w))"
  by simp

lemma outcome_Inl [outcome_rules]: "E w \<Longrightarrow> outcome E Q (Some (Inl e, w))"
  by simp

lemma outcome_if [outcome_rules]:
  "(c \<Longrightarrow> outcome E Q x) \<Longrightarrow> (\<not> c \<Longrightarrow> outcome E Q y) \<Longrightarrow> outcome E Q (if c then x else y)"
  by simp

lemma outcome_prod [outcome_rules]:
  "(\<And>a b. p = (a, b) \<Longrightarrow> outcome E Q (f a b)) \<Longrightarrow> outcome E Q (case p of (a, b) \<Rightarrow> f a b)"
  by (cases p) simp

lemma outcome_option [outcome_rules]:
  "(x = None \<Longrightarrow> outcome E Q y) \<Longrightarrow> (\<And>a. x = Some a \<Longrightarrow> outcome E Q (f a)) \<Longrightarrow>
   outcome E Q (case x of None \<Rightarrow> y | Some a \<Rightarrow> f a)"
  by (cases x) simp_all

lemma outcome_and_then:
  assumes "outcome E Q (m w)" and "\<And>a w'. Q a w' \<Longrightarrow> outcome E R (f a w')"
  shows "outcome E R (and_then m f w)"
proof -
  obtain x w' where m: "m w = Some (x, w')" using assms(1) by (auto simp: outcome_def)
  then show ?thesis using assms by (cases x) (simp_all add: and_then_def)
qed

lemma outcome_weaken: "outcome E Q out \<Longrightarrow> (\<And>a w. Q a w \<Longrightarrow> R a w) \<Longrightarrow> outcome E R out"
  unfolding outcome_def by (fastforce split: sum.splits)

lemma outcome_for_kinds:
  assumes "\<And>kind w. kind \<in> set kinds \<Longrightarrow> I w \<Longrightarrow> outcome E (\<lambda>_. I) (step kind w)" and "I w"
  shows "outcome E (\<lambda>_. I) (for_kinds step kinds subplans w)"
  using assms
proof (induction kinds arbitrary: subplans w)
  case (Cons kind kinds)
  show ?case unfolding for_kinds.simps
    by (rule outcome_and_then [where Q = "\<lambda>_. I"]) (use Cons in auto)
qed simp

section \<open>The visited pools\<close>

abbreviation anything :: "'w \<Rightarrow> bool" where
  "anything \<equiv> (\<lambda>_. True)"

abbreviation visits :: "u32 list \<Rightarrow> 'a \<Rightarrow> 'r PlanWorld \<Rightarrow> bool" where
  "visits vs \<equiv> (\<lambda>_ w. visiting w = vs)"

lemma visits_despawn_objects:
  assumes dc: "\<And>child always w. visiting w = vs \<Longrightarrow> outcome anything (visits vs) (dc child always w)"
    and w: "visiting w = vs"
  shows "outcome anything (visits vs) (despawn_objects g requested always dc xs plan w)"
  using w
proof (induction xs arbitrary: plan w)
  case (Cons x xs)
  show ?case unfolding despawn_objects.simps Let_def
    by (intro outcome_rules outcome_and_then [OF dc] Cons.IH TrueI) (use Cons.prems in simp_all)
qed simp

lemma visits_spawn_rolled:
  assumes sc: "\<And>child w. visiting w = vs \<Longrightarrow> outcome E (visits vs) (sc child w)"
    and E: "\<And>w. visiting w = vs \<Longrightarrow> E w" and w: "visiting w = vs"
  shows "outcome E (visits vs) (spawn_rolled g sc xs plan trigger w)"
  using w
proof (induction xs arbitrary: plan trigger w)
  case (Cons x xs)
  show ?case unfolding spawn_rolled.simps Let_def
    by (intro outcome_rules outcome_and_then [OF sc] Cons.IH E) (use Cons.prems in simp_all)
qed simp

lemma visits_despawn_trigger:
  assumes dc: "\<And>child always w. visiting w = vs \<Longrightarrow> outcome E (visits vs) (dc child always w)"
    and E: "\<And>w. visiting w = vs \<Longrightarrow> E w" and w: "visiting w = vs"
  shows "outcome E (visits vs) (despawn_trigger g dc plan trigger w)"
  unfolding despawn_trigger_def Let_def
  by (intro outcome_rules outcome_and_then [OF dc] E) (use w in simp_all)

lemma visits_spawn_object_plan:
  assumes sc: "\<And>child w. visiting w = vs \<Longrightarrow> outcome E (visits vs) (sc child w)"
    and dc: "\<And>child always w. visiting w = vs \<Longrightarrow> outcome E (visits vs) (dc child always w)"
    and E: "\<And>w. visiting w = vs \<Longrightarrow> E w" and w: "visiting w = vs"
  shows "outcome E (visits vs) (spawn_object_plan_with_child_pools_like_cpp g limit trigger roll choice sc dc w)"
  unfolding spawn_object_plan_with_child_pools_like_cpp_def Let_def
proof (rule outcome_prod, rule outcome_and_then)
  fix rolled and r1 :: 'a
  show "outcome E (visits vs) (spawn_rolled g sc rolled empty_spawn_plan trigger (w\<lparr>rng := r1\<rparr>))"
    by (rule visits_spawn_rolled [OF sc E]) (use w in simp_all)
next
  fix p and w' :: "'a PlanWorld" assume "visiting w' = vs"
  then show "outcome E (visits vs) ((case p of (plan, trigger1) \<Rightarrow> despawn_trigger g dc plan trigger1) w')"
    by (cases p) (simp add: visits_despawn_trigger [OF dc E])
qed

lemma outcome_leaf:
  assumes "outcome (\<lambda>w. Q empty_spawn_plan w) Q
     (spawn_object_plan_with_child_pools_like_cpp g limit trigger roll choice
        (\<lambda>child w. Some (Inr (PoolSpawnPoolPlan 0 []), w))
        (\<lambda>child always w. Some (Inr (PoolDespawnPoolPlan 0 False []), w)) w)" (is "outcome _ _ ?out")
  shows "outcome E Q (map_option (\<lambda>(plan, w2). (Inr plan, w2)) (spawn_object_plan_like_cpp g limit trigger roll choice w))"
proof -
  obtain x w' where m: "?out = Some (x, w')" using assms by (auto simp: outcome_def)
  then show ?thesis using assms by (cases x) (simp_all add: spawn_object_plan_like_cpp_def)
qed

text \<open>The pools whose groups can have children.\<close>

definition grouped_pools :: "PoolMgrLikeCpp \<Rightarrow> u32 set" where
  "grouped_pools m = fst ` set (creature_groups m @ gameobject_groups m @ pool_groups m)"

lemma grouped: "group_like_cpp m kind p = Some g \<Longrightarrow> p \<in> grouped_pools m"
  by (cases kind) (force simp: group_like_cpp_def grouped_pools_def dest: map_of_SomeD)+

lemma unvisited_decreases:
  assumes "group_like_cpp m kind p = Some g" and "p \<notin> set vs"
  shows "card (grouped_pools m - set (p # vs)) < card (grouped_pools m - set vs)"
  using grouped [OF assms(1)] assms(2)
  by (intro psubset_card_mono) (auto simp: grouped_pools_def)

lemma visit_list: "p \<notin> set (visiting w) \<Longrightarrow> visiting (visit p w) = p # visiting w"
  by (simp add: visit_def)

lemma leave_list [simp]: "p \<notin> set vs \<Longrightarrow> visiting w = p # vs \<Longrightarrow> visiting (leave p w) = vs"
  by (simp add: leave_def)

lemma despawn_returns:
  fixes w :: "'r PlanWorld"
  shows "outcome anything (visits (visiting w)) (despawn_pool_plan_with_visited_like_cpp m p always w)"
proof (induction "card (grouped_pools m - set (visiting w))" arbitrary: p always w rule: less_induct)
  case less
  show ?case
  proof (cases "p \<in> set (visiting w)")
    case False
    let ?vs = "p # visiting w"
    have body: "outcome anything (visits ?vs)
        (despawn_objects g 0 always (despawn_pool_plan_with_visited_like_cpp m) xs plan w1)"
      if g: "group_like_cpp m kind p = Some g" and w1: "visiting w1 = ?vs" for kind g xs plan and w1 :: "'r PlanWorld"
    proof (rule visits_despawn_objects [OF _ w1])
      fix child always and w2 :: "'r PlanWorld" assume w2: "visiting w2 = ?vs"
      show "outcome anything (visits ?vs) (despawn_pool_plan_with_visited_like_cpp m child always w2)"
        using less [of w2 child always] unvisited_decreases [OF g False] by (simp add: w2)
    qed
    have "outcome anything (visits ?vs) (despawn_typed_step (despawn_pool_plan_with_visited_like_cpp m) m kind p 0 always w1)"
      if w1: "visiting w1 = ?vs" for kind and w1 :: "'r PlanWorld"
      unfolding despawn_typed_step_def despawn_object_plan_like_cpp_def
      by (intro outcome_rules outcome_and_then [OF body]) (assumption | simp add: w1)+
    then have "outcome anything (visits ?vs) (for_kinds (\<lambda>kind w1. despawn_typed_step (despawn_pool_plan_with_visited_like_cpp m)
        m kind p 0 always w1) [PoolCreature, PoolGameObject, PoolPool] [] (visit p w))"
      by (intro outcome_for_kinds) (use False in \<open>simp_all add: visit_list\<close>)
    then have "outcome anything (visits (visiting w)) (and_then (for_kinds (\<lambda>kind w1. despawn_typed_step
        (despawn_pool_plan_with_visited_like_cpp m) m kind p 0 always w1) [PoolCreature, PoolGameObject, PoolPool] [])
        (\<lambda>subplans w1. Some (Inr (PoolDespawnPoolPlan p always subplans), leave p w1)) (visit p w))"
      by (rule outcome_and_then) (use False in simp)
    then show ?thesis using False by (subst despawn_pool_plan_with_visited_like_cpp.simps) simp
  qed (subst despawn_pool_plan_with_visited_like_cpp.simps, simp)
qed

lemma spawn_typed_returns:
  assumes sc: "\<And>g child w. group_like_cpp m kind p = Some g \<Longrightarrow> visiting w = vs \<Longrightarrow>
      outcome anything (visits vs) (sc child w)"
    and w: "visiting w = vs"
  shows "outcome anything (visits vs) (spawn_typed_step sc m roll_for choice kind p trigger w)"
proof -
  have dc: "outcome anything (visits vs) (despawn_pool_plan_with_visited_like_cpp m child False w1)"
    if "visiting w1 = vs" for child and w1 :: "'a PlanWorld"
    using despawn_returns [of w1 m child False] that by simp
  have "outcome anything (visits vs) ((if kind = PoolPool
      then spawn_object_plan_with_child_pools_like_cpp g limit trigger (roll_for kind p) choice sc
             (\<lambda>child _. despawn_pool_plan_with_visited_like_cpp m child False)
      else (\<lambda>w1. map_option (\<lambda>(plan, w2). (Inr plan, w2))
             (spawn_object_plan_like_cpp g limit trigger (roll_for kind p) choice w1))) w)"
    if g: "group_like_cpp m kind p = Some g" for g limit
    by (cases "kind = PoolPool")
      (use sc [OF g] dc w in \<open>auto intro!: visits_spawn_object_plan outcome_leaf\<close>)
  then show ?thesis unfolding spawn_typed_step_def
    by (intro outcome_rules outcome_and_then TrueI) (assumption | simp add: w)+
qed

lemma spawn_returns:
  fixes w :: "'r PlanWorld"
  shows "outcome anything (visits (visiting w)) (spawn_pool_plan_with_visited_like_cpp m roll_for choice p w)"
proof (induction "card (grouped_pools m - set (visiting w))" arbitrary: p w rule: less_induct)
  case less
  show ?case
  proof (cases "p \<in> set (visiting w)")
    case False
    let ?vs = "p # visiting w" and ?spawn = "spawn_pool_plan_with_visited_like_cpp m roll_for choice"
    have "outcome anything (visits ?vs) (spawn_typed_step ?spawn m roll_for choice kind p 0 w1)"
      if w1: "visiting w1 = ?vs" for kind w1
    proof (rule spawn_typed_returns [OF _ w1])
      fix g child and w2 :: "'r PlanWorld" assume g: "group_like_cpp m kind p = Some g" and w2: "visiting w2 = ?vs"
      show "outcome anything (visits ?vs) (?spawn child w2)"
        using less [of w2 child] unvisited_decreases [OF g False] by (simp add: w2)
    qed
    then have "outcome anything (visits ?vs) (for_kinds (\<lambda>kind w1. spawn_typed_step ?spawn m roll_for choice kind p 0 w1)
        [PoolPool, PoolGameObject, PoolCreature] [] (visit p w))"
      by (intro outcome_for_kinds) (use False in \<open>simp_all add: visit_list\<close>)
    then have "outcome anything (visits (visiting w)) (and_then (for_kinds (\<lambda>kind w1.
        spawn_typed_step ?spawn m roll_for choice kind p 0 w1) [PoolPool, PoolGameObject, PoolCreature] [])
        (\<lambda>subplans w1. Some (Inr (PoolSpawnPoolPlan p subplans), leave p w1)) (visit p w))"
      by (rule outcome_and_then) (use False in simp)
    then show ?thesis using False by (subst spawn_pool_plan_with_visited_like_cpp.simps) simp
  qed (subst spawn_pool_plan_with_visited_like_cpp.simps, simp)
qed

lemma returned: "outcome E Q out \<Longrightarrow> \<exists>x. out = Some x"
  by (auto simp: outcome_def)

definition checks :: "u32 list \<Rightarrow> (bool \<times> u32 list) option \<Rightarrow> bool" where
  "checks vs x \<longleftrightarrow> (\<exists>r. x = Some r \<and> snd r = vs)"

lemma checks_simps [simp]: "checks vs (Some (e, vs))" "checks vs (Some r) \<longleftrightarrow> snd r = vs" "\<not> checks vs None"
  by (simp_all add: checks_def)

lemma children_empty_returns:
  assumes "\<And>child. checks vs (check child vs)"
  shows "checks vs (children_empty check xs vs)"
proof (induction xs)
  case (Cons x xs)
  then show ?case
  proof (cases "try_u32 (pool_guid x)")
    case (Some child)
    obtain r where "check child vs = Some r" "snd r = vs" using assms [of child] by (auto simp: checks_def)
    then show ?thesis using Cons Some by (cases r) simp
  qed simp
qed simp

lemma kinds_empty_returns:
  assumes "\<And>kind g child. group_like_cpp m kind p = Some g \<Longrightarrow> checks vs (check child vs)"
  shows "checks vs (kinds_empty m p check kinds vs)"
proof (induction kinds)
  case (Cons kind kinds)
  then show ?case
  proof (cases "group_like_cpp m kind p")
    case (Some g)
    let ?c = "if kind = PoolPool then check else (\<lambda>_ vs. Some (True, vs))"
    have "checks vs (children_empty ?c xs vs)" for xs
      by (rule children_empty_returns) (use assms [OF Some] in \<open>cases "kind = PoolPool"; simp\<close>)
    then have "checks vs (is_empty_deep_check_like_cpp g ?c vs)"
      by (simp add: is_empty_deep_check_like_cpp_def)
    then obtain r where "is_empty_deep_check_like_cpp g ?c vs = Some r" "snd r = vs" by (auto simp: checks_def)
    then show ?thesis using Cons Some by (cases r) simp
  qed simp
qed simp

lemma empty_returns: "checks vs (is_empty_with_visited_like_cpp m p vs)"
proof (induction "card (grouped_pools m - set vs)" arbitrary: p vs rule: less_induct)
  case less
  show ?case
  proof (cases "p \<in> set vs")
    case False
    have "checks (p # vs) (is_empty_with_visited_like_cpp m child (p # vs))"
      if "group_like_cpp m kind p = Some g" for kind g child
      using less [of "p # vs" child] unvisited_decreases [OF that False] by simp
    then have "checks (p # vs) (kinds_empty m p (is_empty_with_visited_like_cpp m) [PoolGameObject, PoolCreature, PoolPool] (p # vs))"
      by (rule kinds_empty_returns)
    then obtain r where "kinds_empty m p (is_empty_with_visited_like_cpp m) [PoolGameObject, PoolCreature, PoolPool] (p # vs)
        = Some r" "snd r = p # vs" by (auto simp: checks_def)
    then show ?thesis using False by (subst is_empty_with_visited_like_cpp.simps) simp
  qed (subst is_empty_with_visited_like_cpp.simps, simp)
qed

text \<open>
  C20: Planning always returns an answer: on any manager, whatever its groups and however their
  child relation is tangled, with any spawned objects and any random source, spawning, updating,
  despawning and emptiness of a pool and the initialisation of a map end, with a plan or with an
  error, never in an endless descent.
\<close>

theorem pool_planning_returns:
  "(\<exists>x. spawn_pool_plan_like_cpp m roll_for choice p s r = Some x) \<and>
   (\<exists>x. update_pool_plan_like_cpp m roll_for choice p t i s r = Some x) \<and>
   (\<exists>x. despawn_pool_plan_like_cpp m p always s = Some x) \<and>
   (\<exists>e. is_empty_like_cpp m p = Some e) \<and>
   (\<exists>x. init_pools_for_map_plan_like_cpp m roll_for choice map_id s r = Some x)"
proof (intro conjI)
  have spawn: "\<exists>x. spawn_pool_plan_like_cpp m roll_for choice p s r = Some x" for p s r
    using returned [OF spawn_returns [of "unvisited s r" m roll_for choice p]]
    by (auto simp: spawn_pool_plan_like_cpp_def planned_def)
  show "\<exists>x. spawn_pool_plan_like_cpp m roll_for choice p s r = Some x" by (rule spawn)
  have typed: "\<exists>x. spawn_typed_pool_plan_with_visited_like_cpp m roll_for choice kind p trigger (unvisited s r) = Some x"
    for kind p trigger s r
    unfolding spawn_typed_pool_plan_with_visited_like_cpp_def
  proof (rule returned, rule spawn_typed_returns [where vs = "[]"])
    show "outcome anything (visits []) (spawn_pool_plan_with_visited_like_cpp m roll_for choice child w)"
      if "visiting w = []" for child w using spawn_returns [of w m roll_for choice child] that by simp
  qed (simp add: unvisited_def)
  show "\<exists>x. update_pool_plan_like_cpp m roll_for choice p t i s r = Some x"
    using typed by (auto simp: update_pool_plan_like_cpp_def spawn_typed_pool_plan_like_cpp_def planned_def split: option.split)
  show "\<exists>x. despawn_pool_plan_like_cpp m p always s = Some x"
    using returned [OF despawn_returns] by (force simp: despawn_pool_plan_like_cpp_def)
  show "\<exists>e. is_empty_like_cpp m p = Some e"
    using empty_returns [of "[]" m p] by (auto simp: is_empty_like_cpp_def checks_def)
  have "\<exists>x. init_pools_loop m roll_for choice ps plan s r = Some x" for ps plan s r
  proof (induction ps arbitrary: plan s r)
    case (Cons p ps)
    obtain y where "spawn_pool_plan_like_cpp m roll_for choice p s r = Some y" using spawn by blast
    then show ?case using Cons by (cases y) simp
  qed simp
  then show "\<exists>x. init_pools_for_map_plan_like_cpp m roll_for choice map_id s r = Some x"
    by (simp add: init_pools_for_map_plan_like_cpp_def Let_def)
qed

end
