(* ===== verification/PoolCounts.thy ===== *)
theory PoolCounts
  imports PoolTermination
begin

text \<open>
  Well-formed managers, the count of spawned members behind each counter, and how adding or
  removing one spawned object changes both.
\<close>

section \<open>Members and their state\<close>

definition pool_members :: "PoolMgrLikeCpp \<Rightarrow> PoolMemberKindLikeCpp \<Rightarrow> u32 \<Rightarrow> u64 list" where
  "pool_members m kind p =
     (case group_like_cpp m kind p of None \<Rightarrow> []
      | Some g \<Rightarrow> map pool_guid (equal_chanced g @ explicitly_chanced g))"

definition member_live :: "SpawnedPoolDataLikeCpp \<Rightarrow> PoolMemberKindLikeCpp \<Rightarrow> u64 \<Rightarrow> bool" where
  "member_live s kind i =
     (case kind of PoolCreature \<Rightarrow> is_spawned_creature_like_cpp s i
      | PoolGameObject \<Rightarrow> is_spawned_gameobject_like_cpp s i
      | PoolPool \<Rightarrow> (case try_u32 i of None \<Rightarrow> False | Some sub \<Rightarrow> is_spawned_pool_like_cpp s sub))"

definition live_members :: "PoolMgrLikeCpp \<Rightarrow> SpawnedPoolDataLikeCpp \<Rightarrow> u32 \<Rightarrow> PoolMemberKindLikeCpp \<Rightarrow> nat" where
  "live_members m s p kind = length (filter (member_live s kind) (pool_members m kind p))"

definition live_count :: "PoolMgrLikeCpp \<Rightarrow> SpawnedPoolDataLikeCpp \<Rightarrow> u32 \<Rightarrow> nat" where
  "live_count m s p = live_members m s p PoolCreature + live_members m s p PoolGameObject + live_members m s p PoolPool"

definition member_count :: "PoolMgrLikeCpp \<Rightarrow> u32 \<Rightarrow> nat" where
  "member_count m p = length (pool_members m PoolCreature p) + length (pool_members m PoolGameObject p) +
     length (pool_members m PoolPool p)"

definition counter :: "SpawnedPoolDataLikeCpp \<Rightarrow> u32 \<Rightarrow> nat" where
  "counter s p = unat (get_spawned_objects_like_cpp s p)"

definition pool_limit :: "PoolMgrLikeCpp \<Rightarrow> u32 \<Rightarrow> nat" where
  "pool_limit m p = (case hm_get (templates m) p of None \<Rightarrow> 0 | Some t \<Rightarrow> unat (max_limit t))"

text \<open>A child and the pool it is a member of.\<close>

definition child_rel :: "PoolMgrLikeCpp \<Rightarrow> (u32 \<times> u32) set" where
  "child_rel m = {(c, p). \<exists>i \<in> set (pool_members m PoolPool p). try_u32 i = Some c}"

definition below :: "PoolMgrLikeCpp \<Rightarrow> u32 \<Rightarrow> u32 set" where
  "below m p = {q. (q, p) \<in> (child_rel m)\<^sup>*}"

text \<open>
  Groups are filed under their pool and kind; a member belongs to one pool; child identifiers fit
  and form no cycle; a pool with members has a template and fewer than \<open>2 ^ 32\<close> of them.
\<close>

definition pools_ok :: "PoolMgrLikeCpp \<Rightarrow> bool" where
  "pools_ok m \<longleftrightarrow>
     (\<forall>kind p g. group_like_cpp m kind p = Some g \<longrightarrow> group_pool_id g = p \<and> member_kind g = kind) \<and>
     (\<forall>kind p. distinct (pool_members m kind p)) \<and>
     (\<forall>kind p q i. i \<in> set (pool_members m kind p) \<longrightarrow> i \<in> set (pool_members m kind q) \<longrightarrow> p = q) \<and>
     (\<forall>p. \<forall>i \<in> set (pool_members m PoolPool p). try_u32 i \<noteq> None) \<and>
     wf (child_rel m) \<and>
     (\<forall>kind p. pool_members m kind p \<noteq> [] \<longrightarrow> hm_get (templates m) p \<noteq> None) \<and>
     (\<forall>p. member_count m p < 2 ^ 32)"

definition parentless :: "PoolMgrLikeCpp \<Rightarrow> u32 \<Rightarrow> bool" where
  "parentless m c \<longleftrightarrow> (\<forall>p. (c, p) \<notin> child_rel m)"

text \<open>Every counter is the number of spawned members of its pool.\<close>

definition counts_ok :: "PoolMgrLikeCpp \<Rightarrow> SpawnedPoolDataLikeCpp \<Rightarrow> bool" where
  "counts_ok m s \<longleftrightarrow> (\<forall>p. counter s p = live_count m s p)"

section \<open>Facts about well-formed managers\<close>

lemma ok_group: "pools_ok m \<Longrightarrow> group_like_cpp m kind p = Some g \<Longrightarrow> group_pool_id g = p \<and> member_kind g = kind"
  by (simp add: pools_ok_def)

lemma ok_distinct: "pools_ok m \<Longrightarrow> distinct (pool_members m kind p)"
  by (simp add: pools_ok_def)

lemma ok_unique:
  "pools_ok m \<Longrightarrow> i \<in> set (pool_members m kind p) \<Longrightarrow> i \<in> set (pool_members m kind q) \<Longrightarrow> p = q"
  by (simp add: pools_ok_def)

lemma ok_child: "pools_ok m \<Longrightarrow> i \<in> set (pool_members m PoolPool p) \<Longrightarrow> \<exists>c. try_u32 i = Some c \<and> (c, p) \<in> child_rel m"
  unfolding pools_ok_def child_rel_def by blast

lemma ok_wf: "pools_ok m \<Longrightarrow> wf (child_rel m)"
  by (simp add: pools_ok_def)

lemma try_u32_inj: "try_u32 i = Some c \<Longrightarrow> try_u32 j = Some c \<Longrightarrow> i = j"
proof -
  have "unat i = unat c" if "try_u32 i = Some c" for i
    using that by (auto simp: try_u32_unat unsigned_ucast_eq take_bit_nat_eq_self split: if_splits)
  moreover assume "try_u32 i = Some c" "try_u32 j = Some c"
  ultimately show "i = j" by (metis word_unat_eq_iff)
qed

lemma ok_parent: "pools_ok m \<Longrightarrow> (c, p) \<in> child_rel m \<Longrightarrow> (c, q) \<in> child_rel m \<Longrightarrow> p = q"
  by (auto simp: child_rel_def dest: try_u32_inj ok_unique)

lemma ok_irrefl: "pools_ok m \<Longrightarrow> (c, c) \<notin> (child_rel m)\<^sup>+"
  using wf_acyclic by (auto simp: pools_ok_def acyclic_def)

lemma below_refl [simp]: "p \<in> below m p"
  by (simp add: below_def)

lemma below_child: "(c, p) \<in> child_rel m \<Longrightarrow> below m c \<subseteq> below m p"
  by (auto simp: below_def intro: rtrancl_trans)

lemma below_not_up: "pools_ok m \<Longrightarrow> (c, p) \<in> child_rel m \<Longrightarrow> p \<notin> below m c"
  using ok_irrefl by (force simp: below_def dest: rtrancl_into_trancl1)

lemma below_parent:
  assumes "pools_ok m" "(d, p) \<in> child_rel m" "d \<in> below m c" "d \<noteq> c"
  shows "p \<in> below m c"
proof -
  have "(d, c) \<in> (child_rel m)\<^sup>+" using assms(3,4) by (auto simp: below_def dest: rtranclD)
  then obtain q where q: "(d, q) \<in> child_rel m" "(q, c) \<in> (child_rel m)\<^sup>*" by (blast dest: tranclD)
  have "q = p" using ok_parent [OF assms(1) q(1) assms(2)] .
  then show ?thesis using q(2) by (simp add: below_def)
qed

text \<open>Siblings lie outside each other.\<close>

lemma below_sibling:
  "pools_ok m \<Longrightarrow> (c, p) \<in> child_rel m \<Longrightarrow> (d, p) \<in> child_rel m \<Longrightarrow> d \<noteq> c \<Longrightarrow> d \<notin> below m c"
  using below_parent below_not_up by blast

section \<open>Counting\<close>

lemma filter_insert_length:
  "distinct xs \<Longrightarrow> \<not> P i \<Longrightarrow> length (filter (\<lambda>j. P j \<or> j = i) xs) = length (filter P xs) + (if i \<in> set xs then 1 else 0)"
  by (induction xs) auto

lemma live_members_cong:
  "(\<And>i. i \<in> set (pool_members m kind p) \<Longrightarrow> member_live s' kind i = member_live s kind i) \<Longrightarrow>
   live_members m s' p kind = live_members m s p kind"
  unfolding live_members_def by (rule arg_cong [where f = length], rule filter_cong) simp_all

lemma live_count_add:
  assumes ok: "pools_ok m" and i: "\<not> member_live s kind i"
    and live: "\<And>k j q. j \<in> set (pool_members m k q) \<Longrightarrow> member_live s' k j \<longleftrightarrow> member_live s k j \<or> k = kind \<and> j = i"
  shows "live_count m s' q = live_count m s q + (if i \<in> set (pool_members m kind q) then 1 else 0)"
proof -
  have "live_members m s' q k = live_members m s q k + (if k = kind \<and> i \<in> set (pool_members m kind q) then 1 else 0)" for k
  proof (cases "k = kind")
    case True
    have "live_members m s' q kind = length (filter (\<lambda>j. member_live s kind j \<or> j = i) (pool_members m kind q))"
      unfolding live_members_def by (rule arg_cong [where f = length], rule filter_cong) (simp_all add: live)
    then show ?thesis using filter_insert_length [OF ok_distinct [OF ok], of "member_live s kind" i kind q] i True
      by (simp add: live_members_def)
  next
    case False
    then show ?thesis using live_members_cong [of m k q s' s] live [of _ k q] by simp
  qed
  then show ?thesis by (cases kind) (simp_all add: live_count_def)
qed

lemma live_count_le: "live_count m s p \<le> member_count m p"
  by (simp add: live_count_def member_count_def live_members_def add_mono)

lemma live_count_pos:
  "i \<in> set (pool_members m kind p) \<Longrightarrow> member_live s kind i \<Longrightarrow> 0 < live_count m s p"
proof -
  assume "i \<in> set (pool_members m kind p)" "member_live s kind i"
  then have "filter (member_live s kind) (pool_members m kind p) \<noteq> []" by (auto simp: filter_empty_conv)
  then have "0 < live_members m s p kind" by (simp add: live_members_def)
  then show ?thesis by (cases kind) (simp_all add: live_count_def)
qed

lemma live_count_less:
  "pools_ok m \<Longrightarrow> i \<in> set (pool_members m kind p) \<Longrightarrow> \<not> member_live s kind i \<Longrightarrow> live_count m s p < member_count m p"
proof -
  assume a: "pools_ok m" "i \<in> set (pool_members m kind p)" "\<not> member_live s kind i"
  have "live_members m s p k \<le> length (pool_members m k p)" for k by (simp add: live_members_def)
  moreover have "live_members m s p kind < length (pool_members m kind p)"
    unfolding live_members_def by (rule length_filter_less) (use a in simp_all)
  ultimately show ?thesis
    by (cases kind) (simp_all add: live_count_def member_count_def add_less_le_mono add_le_less_mono add_mono)
qed

section \<open>One object more, one object less\<close>

lemma counter_key: "0 < counter s p \<Longrightarrow> hm_get (spawned_pools s) p \<noteq> None"
  by (cases "hm_get (spawned_pools s) p") (auto simp: counter_def get_spawned_objects_like_cpp_def)

lemma counter_cong: "hm_get (spawned_pools s') p = hm_get (spawned_pools s) p \<Longrightarrow> counter s' p = counter s p"
  by (simp add: counter_def get_spawned_objects_like_cpp_def)

lemma is_spawned_member: "is_spawned_in_map_like_cpp g s i = member_live s (member_kind g) i"
  by (simp add: is_spawned_in_map_like_cpp_def member_live_def)

text \<open>The spawned pools under a member of each kind: only a child pool has an entry of its own.\<close>

definition own_entry :: "PoolMemberKindLikeCpp \<Rightarrow> u64 \<Rightarrow> u32 \<Rightarrow> bool" where
  "own_entry kind i c \<longleftrightarrow> kind = PoolPool \<and> try_u32 i = Some c"

lemma own_entry_child: "pools_ok m \<Longrightarrow> i \<in> set (pool_members m kind p) \<Longrightarrow> own_entry kind i c \<Longrightarrow> (c, p) \<in> child_rel m \<and> c \<noteq> p"
  using ok_irrefl by (fastforce simp: own_entry_def child_rel_def)

definition changes_entries :: "u32 \<Rightarrow> PoolMemberKindLikeCpp \<Rightarrow> u64 \<Rightarrow> SpawnedPoolDataLikeCpp \<Rightarrow> SpawnedPoolDataLikeCpp \<Rightarrow> bool" where
  "changes_entries p kind i s s' \<longleftrightarrow>
     (\<forall>q. q \<noteq> p \<longrightarrow> \<not> own_entry kind i q \<longrightarrow> hm_get (spawned_pools s') q = hm_get (spawned_pools s) q) \<and>
     hm_get (spawned_pools s') p \<noteq> None"

lemma add_state:
  assumes g: "group_pool_id g = p" "member_kind g = kind" and fits: "kind = PoolPool \<Longrightarrow> try_u32 i \<noteq> None"
  obtains s' where "add_spawn_to_map_like_cpp g i s = (True, s')"
    "\<And>k j. k \<noteq> PoolPool \<Longrightarrow> member_live s' k j \<longleftrightarrow> member_live s k j \<or> k = kind \<and> j = i"
    "\<And>c. own_entry kind i c \<Longrightarrow> c \<noteq> p \<Longrightarrow> hm_get (spawned_pools s') c = Some 0"
    "get_spawned_objects_like_cpp s' p =
       (if own_entry kind i p then 0 else get_spawned_objects_like_cpp s p) + 1"
    "changes_entries p kind i s s'"
proof (cases kind)
  case PoolPool
  then obtain c where c: "try_u32 i = Some c" using fits by blast
  show ?thesis
    by (rule that [of "add_pool_spawn_like_cpp c p s"])
      (auto simp: add_spawn_to_map_like_cpp_def g PoolPool c add_pool_spawn_like_cpp_def increment_pool_counter_def
        member_live_def is_spawned_creature_like_cpp_def is_spawned_gameobject_like_cpp_def own_entry_def
        get_spawned_objects_like_cpp_def changes_entries_def split: PoolMemberKindLikeCpp.split)
qed (rule that [of "snd (add_spawn_to_map_like_cpp g i s)"],
    auto simp: add_spawn_to_map_like_cpp_def g add_spawn_like_cpp_def increment_pool_counter_def
      member_live_def is_spawned_creature_like_cpp_def is_spawned_gameobject_like_cpp_def own_entry_def
      get_spawned_objects_like_cpp_def changes_entries_def split: PoolMemberKindLikeCpp.split)+

lemma live_pool_member:
  "try_u32 j = Some c \<Longrightarrow> member_live s PoolPool j \<longleftrightarrow> hm_get (spawned_pools s) c \<noteq> None"
  by (auto simp: member_live_def is_spawned_pool_like_cpp_def)

lemma add_effect:
  assumes ok: "pools_ok m" and counts: "counts_ok m s" and g: "group_like_cpp m kind p = Some g"
    and i: "i \<in> set (pool_members m kind p)" and dead: "\<not> member_live s kind i"
    and key: "parentless m p \<or> hm_get (spawned_pools s) p \<noteq> None"
  obtains s' where "add_spawn_to_map_like_cpp g i s = (True, s')" "counts_ok m s'"
    "counter s' p = counter s p + 1" "changes_entries p kind i s s'"
    "\<And>c. own_entry kind i c \<Longrightarrow> hm_get (spawned_pools s') c = Some 0"
    "\<And>k j q. j \<in> set (pool_members m k q) \<Longrightarrow> member_live s' k j \<longleftrightarrow> member_live s k j \<or> k = kind \<and> j = i"
proof -
  have gp: "group_pool_id g = p" "member_kind g = kind" using ok_group [OF ok g] by auto
  have fits: "kind = PoolPool \<Longrightarrow> try_u32 i \<noteq> None" using ok_child [OF ok] i by fastforce
  obtain s' where s': "add_spawn_to_map_like_cpp g i s = (True, s')"
    and live: "\<And>k j. k \<noteq> PoolPool \<Longrightarrow> member_live s' k j \<longleftrightarrow> member_live s k j \<or> k = kind \<and> j = i"
    and own: "\<And>c. own_entry kind i c \<Longrightarrow> c \<noteq> p \<Longrightarrow> hm_get (spawned_pools s') c = Some 0"
    and count: "get_spawned_objects_like_cpp s' p = (if own_entry kind i p then 0 else get_spawned_objects_like_cpp s p) + 1"
    and entries: "changes_entries p kind i s s'"
    by (rule add_state [OF gp fits, of s]) (assumption | rule that; assumption)+
  have child: "(c, p) \<in> child_rel m \<and> c \<noteq> p" if "own_entry kind i c" for c by (rule own_entry_child [OF ok i that])
  have less: "counter s p < member_count m p"
    using counts live_count_less [OF ok i dead] by (simp add: counts_ok_def)
  have cp: "counter s' p = counter s p + 1"
  proof -
    have "counter s p + 1 < 2 ^ 32" using less ok by (auto simp: pools_ok_def dest: spec [of _ p])
    then show ?thesis using count child by (auto simp: counter_def unat_word_ariths)
  qed
  have all: "member_live s' k j \<longleftrightarrow> member_live s k j \<or> k = kind \<and> j = i" if j: "j \<in> set (pool_members m k q)" for k j q
  proof (cases "k = PoolPool")
    case True
    obtain c where c: "try_u32 j = Some c" "(c, q) \<in> child_rel m" using ok_child [OF ok] j True by blast
    have "c = p \<Longrightarrow> hm_get (spawned_pools s) p \<noteq> None" using key c(2) by (auto simp: parentless_def)
    moreover have "own_entry kind i c \<longleftrightarrow> k = kind \<and> j = i"
      using c(1) True by (auto simp: own_entry_def dest: try_u32_inj)
    ultimately show ?thesis using entries own [of c] child [of c] True c(1)
      by (cases "own_entry kind i c"; cases "c = p") (auto simp: live_pool_member changes_entries_def)
  qed (use live in simp)
  have "counter s' q = live_count m s' q" for q
  proof -
    have lc: "live_count m s' q = live_count m s q + (if i \<in> set (pool_members m kind q) then 1 else 0)"
      by (rule live_count_add [OF ok dead all])
    have q: "i \<in> set (pool_members m kind q) \<longleftrightarrow> q = p" using ok_unique [OF ok _ i] i by blast
    consider "q = p" | "q \<noteq> p" "own_entry kind i q" | "q \<noteq> p" "\<not> own_entry kind i q" by blast
    then show ?thesis
    proof cases
      case 1
      then show ?thesis using lc q cp counts by (simp add: counts_ok_def)
    next
      case 2
      then have "hm_get (spawned_pools s) q = None"
        using dead by (auto simp: own_entry_def live_pool_member)
      then have "counter s q = 0" by (simp add: counter_def get_spawned_objects_like_cpp_def)
      moreover have "counter s' q = 0" using own [OF 2(2,1)] by (simp add: counter_def get_spawned_objects_like_cpp_def)
      ultimately show ?thesis using lc q 2 counts by (simp add: counts_ok_def)
    next
      case 3
      then have "counter s' q = counter s q" using entries by (intro counter_cong) (simp add: changes_entries_def)
      then show ?thesis using lc q 3 counts by (simp add: counts_ok_def)
    qed
  qed
  then show ?thesis using that [OF s' _ cp entries _ all] own child by (simp add: counts_ok_def)
qed

lemma remove_state:
  assumes g: "group_pool_id g = p" "member_kind g = kind" and fits: "kind = PoolPool \<Longrightarrow> try_u32 i \<noteq> None"
    and pos: "get_spawned_objects_like_cpp s p > 0"
  obtains s' where "remove_spawn_from_map_like_cpp g i s = (True, s')"
    "\<And>k j. k \<noteq> PoolPool \<Longrightarrow> member_live s' k j \<longleftrightarrow> member_live s k j \<and> \<not> (k = kind \<and> j = i)"
    "\<And>c. own_entry kind i c \<Longrightarrow> c \<noteq> p \<Longrightarrow> hm_get (spawned_pools s') c = None"
    "\<not> own_entry kind i p \<Longrightarrow> get_spawned_objects_like_cpp s' p = get_spawned_objects_like_cpp s p - 1"
    "changes_entries p kind i s s'"
proof (cases kind)
  case PoolPool
  then obtain c where c: "try_u32 i = Some c" using fits by blast
  show ?thesis
    by (rule that [of "remove_pool_spawn_like_cpp c p s"])
      (use pos in \<open>auto simp: remove_spawn_from_map_like_cpp_def g PoolPool c remove_pool_spawn_like_cpp_def
        decrement_pool_counter_like_cpp_def member_live_def is_spawned_creature_like_cpp_def
        is_spawned_gameobject_like_cpp_def own_entry_def get_spawned_objects_like_cpp_def changes_entries_def
        Let_def split: PoolMemberKindLikeCpp.split if_splits\<close>)
qed (rule that [of "snd (remove_spawn_from_map_like_cpp g i s)"],
    use pos in \<open>auto simp: remove_spawn_from_map_like_cpp_def g remove_spawn_like_cpp_def decrement_pool_counter_like_cpp_def
      member_live_def is_spawned_creature_like_cpp_def is_spawned_gameobject_like_cpp_def own_entry_def
      get_spawned_objects_like_cpp_def changes_entries_def Let_def split: PoolMemberKindLikeCpp.split\<close>)+

lemma remove_effect:
  assumes ok: "pools_ok m" and counts: "counts_ok m s" and g: "group_like_cpp m kind p = Some g"
    and i: "i \<in> set (pool_members m kind p)" and alive: "member_live s kind i"
    and vacant: "\<And>c. own_entry kind i c \<Longrightarrow> counter s c = 0"
  obtains s' where "remove_spawn_from_map_like_cpp g i s = (True, s')" "counts_ok m s'"
    "counter s p = counter s' p + 1" "changes_entries p kind i s s'"
    "\<And>c. own_entry kind i c \<Longrightarrow> hm_get (spawned_pools s') c = None"
    "\<And>k j q. j \<in> set (pool_members m k q) \<Longrightarrow> member_live s' k j \<longleftrightarrow> member_live s k j \<and> \<not> (k = kind \<and> j = i)"
proof -
  have gp: "group_pool_id g = p" "member_kind g = kind" using ok_group [OF ok g] by auto
  have fits: "kind = PoolPool \<Longrightarrow> try_u32 i \<noteq> None" using ok_child [OF ok] i by fastforce
  have cpos: "0 < counter s p" using counts live_count_pos [OF i alive] by (simp add: counts_ok_def)
  then have pos: "get_spawned_objects_like_cpp s p > 0" by (simp add: counter_def word_less_nat_alt)
  obtain s' where s': "remove_spawn_from_map_like_cpp g i s = (True, s')"
    and live: "\<And>k j. k \<noteq> PoolPool \<Longrightarrow> member_live s' k j \<longleftrightarrow> member_live s k j \<and> \<not> (k = kind \<and> j = i)"
    and own: "\<And>c. own_entry kind i c \<Longrightarrow> c \<noteq> p \<Longrightarrow> hm_get (spawned_pools s') c = None"
    and count: "\<not> own_entry kind i p \<Longrightarrow> get_spawned_objects_like_cpp s' p = get_spawned_objects_like_cpp s p - 1"
    and entries: "changes_entries p kind i s s'"
    by (rule remove_state [OF gp fits pos]) (assumption | rule that; assumption)+
  have child: "(c, p) \<in> child_rel m \<and> c \<noteq> p" if "own_entry kind i c" for c by (rule own_entry_child [OF ok i that])
  have cp: "counter s p = counter s' p + 1"
  proof -
    have "\<not> own_entry kind i p" using child by blast
    moreover have "get_spawned_objects_like_cpp s p \<noteq> 0" using pos by auto
    ultimately show ?thesis using count cpos by (simp add: counter_def unat_minus_one)
  qed
  have all: "member_live s' k j \<longleftrightarrow> member_live s k j \<and> \<not> (k = kind \<and> j = i)" if j: "j \<in> set (pool_members m k q)" for k j q
  proof (cases "k = PoolPool")
    case True
    obtain c where c: "try_u32 j = Some c" "(c, q) \<in> child_rel m" using ok_child [OF ok] j True by blast
    have "own_entry kind i c \<longleftrightarrow> k = kind \<and> j = i"
      using c(1) True by (auto simp: own_entry_def dest: try_u32_inj)
    then show ?thesis using entries own [of c] child [of c] True c(1) counter_key [OF cpos]
      by (cases "own_entry kind i c"; cases "c = p") (auto simp: live_pool_member changes_entries_def)
  qed (use live in simp)
  have "\<not> member_live s' kind i" using all [OF i] by simp
  then have grown: "live_count m s q = live_count m s' q + (if i \<in> set (pool_members m kind q) then 1 else 0)" for q
    by (rule live_count_add [OF ok]) (use all alive in blast)
  have "counter s' q = live_count m s' q" for q
  proof -
    have q: "i \<in> set (pool_members m kind q) \<longleftrightarrow> q = p" using ok_unique [OF ok _ i] i by blast
    consider "q = p" | "q \<noteq> p" "own_entry kind i q" | "q \<noteq> p" "\<not> own_entry kind i q" by blast
    then show ?thesis
    proof cases
      case 1
      then show ?thesis using grown [of q] q cp counts by (simp add: counts_ok_def)
    next
      case 2
      then have "counter s' q = 0" using own by (simp add: counter_def get_spawned_objects_like_cpp_def)
      then show ?thesis using grown [of q] q 2 vacant [OF 2(2)] counts by (simp add: counts_ok_def)
    next
      case 3
      then have "counter s' q = counter s q" using entries by (intro counter_cong) (simp add: changes_entries_def)
      then show ?thesis using grown [of q] q 3 counts by (simp add: counts_ok_def)
    qed
  qed
  then show ?thesis using that [OF s' _ cp entries _ all] own child by (simp add: counts_ok_def)
qed

end
