(* ===== verification/PoolLaws.thy ===== *)
theory PoolLaws
  imports PoolCounts
begin

text \<open>
  What planning does on a well-formed manager: it never fails, keeps every counter equal to the
  number of spawned members, never lets a pool exceed its limit, and touches nothing outside the
  pool and the pools below it.
\<close>

section \<open>Despawning\<close>

text \<open>How a despawn below \<open>p\<close> relates the spawned objects before and after.\<close>

definition shrinks :: "PoolMgrLikeCpp \<Rightarrow> u32 \<Rightarrow> SpawnedPoolDataLikeCpp \<Rightarrow> SpawnedPoolDataLikeCpp \<Rightarrow> bool" where
  "shrinks m p s s' \<longleftrightarrow>
     counts_ok m s' \<and> (\<forall>q. counter s' q \<le> counter s q) \<and>
     (\<forall>q. q \<notin> below m p \<longrightarrow> hm_get (spawned_pools s') q = hm_get (spawned_pools s) q) \<and>
     (hm_get (spawned_pools s') p = None \<longleftrightarrow> hm_get (spawned_pools s) p = None) \<and>
     (\<forall>k j q. j \<in> set (pool_members m k q) \<longrightarrow> member_live s' k j \<longrightarrow> member_live s k j)"

lemma shrinksI:
  assumes "counts_ok m s'" "\<And>q. counter s' q \<le> counter s q"
    and "\<And>q. q \<notin> below m p \<Longrightarrow> hm_get (spawned_pools s') q = hm_get (spawned_pools s) q"
    and "hm_get (spawned_pools s') p = None \<longleftrightarrow> hm_get (spawned_pools s) p = None"
    and "\<And>k j q. j \<in> set (pool_members m k q) \<Longrightarrow> member_live s' k j \<Longrightarrow> member_live s k j"
  shows "shrinks m p s s'"
  using assms unfolding shrinks_def by blast

lemma shrinksD:
  assumes "shrinks m p s s'"
  shows "counts_ok m s'" "counter s' q \<le> counter s q"
    "q \<notin> below m p \<Longrightarrow> hm_get (spawned_pools s') q = hm_get (spawned_pools s) q"
    "hm_get (spawned_pools s') p = None \<longleftrightarrow> hm_get (spawned_pools s) p = None"
    "j \<in> set (pool_members m k q) \<Longrightarrow> member_live s' k j \<Longrightarrow> member_live s k j"
  using assms unfolding shrinks_def by blast+

lemma shrinks_refl: "counts_ok m s \<Longrightarrow> shrinks m p s s"
  by (rule shrinksI) simp_all

lemma shrinks_trans: "shrinks m p s s' \<Longrightarrow> shrinks m p s' s'' \<Longrightarrow> shrinks m p s s''"
  by (rule shrinksI) (auto simp: shrinksD(3,4) intro: shrinksD(1) order_trans [OF shrinksD(2) shrinksD(2)] dest: shrinksD(5))

lemma shrinks_child:
  assumes ok: "pools_ok m" and c: "(c, p) \<in> child_rel m" and s: "shrinks m c s s'"
  shows "shrinks m p s s'"
proof (rule shrinksI)
  show "hm_get (spawned_pools s') q = hm_get (spawned_pools s) q" if "q \<notin> below m p" for q
    using shrinksD(3) [OF s] below_child [OF c] that by blast
  show "hm_get (spawned_pools s') p = None \<longleftrightarrow> hm_get (spawned_pools s) p = None"
    using shrinksD(3) [OF s below_not_up [OF ok c]] by simp
qed (use shrinksD [OF s] in auto)

text \<open>The contract of despawning a child.\<close>

definition despawns :: "PoolMgrLikeCpp \<Rightarrow> (u32 \<Rightarrow> bool \<Rightarrow> ('r, PoolDespawnPoolPlanLikeCpp) pool_step) \<Rightarrow> u32 \<Rightarrow> bool" where
  "despawns m dc c \<longleftrightarrow> (\<forall>always w. counts_ok m (spawns w) \<longrightarrow> below m c \<inter> set (visiting w) = {} \<longrightarrow>
     outcome (\<lambda>_. False) (\<lambda>_ w'. shrinks m c (spawns w) (spawns w') \<and> counter (spawns w') c = 0 \<and>
       visiting w' = visiting w) (dc c always w))"

abbreviation never :: "'w \<Rightarrow> bool" where "never \<equiv> (\<lambda>_. False)"

lemma despawn_one:
  assumes ok: "pools_ok m" and counts: "counts_ok m s" and g: "group_like_cpp m kind p = Some g"
    and i: "i \<in> set (pool_members m kind p)" and alive: "member_live s kind i"
    and vacant: "\<And>c. own_entry kind i c \<Longrightarrow> counter s c = 0"
  obtains s' where "remove_spawn_from_map_like_cpp g i s = (True, s')" "shrinks m p s s'"
    "\<not> member_live s' kind i" "counter s p = counter s' p + 1"
proof -
  obtain s' where s': "remove_spawn_from_map_like_cpp g i s = (True, s')" "counts_ok m s'"
    "counter s p = counter s' p + 1" "changes_entries p kind i s s'"
    and own: "\<And>c. own_entry kind i c \<Longrightarrow> hm_get (spawned_pools s') c = None"
    and live: "\<And>k j q. j \<in> set (pool_members m k q) \<Longrightarrow> member_live s' k j \<longleftrightarrow> member_live s k j \<and> \<not> (k = kind \<and> j = i)"
    by (rule remove_effect [OF ok counts g i alive]) (rule vacant, assumption, blast)
  have "counter s' q \<le> counter s q" for q
  proof (cases "q = p \<or> own_entry kind i q")
    case True
    then show ?thesis using s'(3) own by (auto simp: counter_def get_spawned_objects_like_cpp_def)
  next
    case False
    then have "counter s' q = counter s q" using s'(4) by (intro counter_cong) (simp add: changes_entries_def)
    then show ?thesis by simp
  qed
  moreover have "hm_get (spawned_pools s') q = hm_get (spawned_pools s) q" if q: "q \<notin> below m p" for q
  proof -
    have "q \<noteq> p" using q by auto
    moreover have "\<not> own_entry kind i q"
      using own_entry_child [OF ok i, of q] below_child [of q p m] q below_refl [of q m] by blast
    ultimately show ?thesis using s'(4) by (simp add: changes_entries_def)
  qed
  moreover have "hm_get (spawned_pools s) p \<noteq> None" using s'(3) by (intro counter_key) simp
  moreover have "hm_get (spawned_pools s') p \<noteq> None" using s'(4) by (simp add: changes_entries_def)
  moreover have "member_live s k j" if "j \<in> set (pool_members m k q)" "member_live s' k j" for k j q
    using live [OF that(1)] that(2) by simp
  ultimately have "shrinks m p s s'" by (intro shrinksI [OF s'(2)]) blast+
  moreover have "\<not> member_live s' kind i" using live [OF i] by simp
  ultimately show ?thesis by (rule that [OF s'(1) _ _ s'(3)])
qed

lemma despawn_objects_shrink:
  assumes ok: "pools_ok m" and g: "group_like_cpp m kind p = Some g"
    and dc: "\<And>c. (c, p) \<in> child_rel m \<Longrightarrow> despawns m dc c"
    and vs: "(\<Union>c \<in> {c. (c, p) \<in> child_rel m}. below m c) \<inter> set vs = {}"
  shows "set (map pool_guid xs) \<subseteq> set (pool_members m kind p) \<Longrightarrow> visiting w = vs \<Longrightarrow> counts_ok m (spawns w) \<Longrightarrow>
    outcome never (\<lambda>_ w'. shrinks m p (spawns w) (spawns w') \<and> visiting w' = vs \<and>
        (requested = 0 \<longrightarrow> (\<forall>x \<in> set xs. \<not> member_live (spawns w') kind (pool_guid x))))
      (despawn_objects g requested always dc xs plan w)"
proof (induction xs arbitrary: plan w)
  case Nil
  then show ?case by (simp add: shrinks_refl)
next
  case (Cons x xs)
  let ?i = "pool_guid x"
  have i: "?i \<in> set (pool_members m kind p)" using Cons.prems(1) by simp
  have kind: "member_kind g = kind" using ok_group [OF ok g] by simp
  have fits: "kind = PoolPool \<Longrightarrow> try_u32 ?i \<noteq> None" using ok_child [OF ok] i by fastforce
  let ?Q = "\<lambda>xs w w'. shrinks m p (spawns w) (spawns w') \<and> visiting w' = vs \<and>
      (requested = 0 \<longrightarrow> (\<forall>x \<in> set xs. \<not> member_live (spawns w') kind (pool_guid x)))"
  have rest: "outcome never (\<lambda>_. ?Q (x # xs) w) (despawn_objects g requested always dc xs plan' w1)"
    if w1: "visiting w1 = vs" "shrinks m p (spawns w) (spawns w1)" "requested = 0 \<longrightarrow> \<not> member_live (spawns w1) kind ?i"
    for plan' and w1 :: "'a PlanWorld"
  proof (rule outcome_weaken [OF Cons.IH])
    show "set (map pool_guid xs) \<subseteq> set (pool_members m kind p)" using Cons.prems(1) by simp
    show "counts_ok m (spawns w1)" using w1(2) by (simp add: shrinks_def)
    show "visiting w1 = vs" by (rule w1(1))
    fix a w' assume a: "?Q xs w1 w'"
    then have "member_live (spawns w') kind ?i \<Longrightarrow> member_live (spawns w1) kind ?i"
      using shrinksD(5) [OF _ i] by blast
    then show "?Q (x # xs) w w'" using a w1(3) shrinks_trans [OF w1(2)] by auto
  qed
  have finish: "outcome never (\<lambda>_. ?Q (x # xs) w) (case remove_spawn_from_map_like_cpp g ?i (spawns w2) of
      (removed, s3) \<Rightarrow> despawn_objects g requested always dc xs (f removed) (w2\<lparr>spawns := s3\<rparr>))"
    if w2: "visiting w2 = vs" "shrinks m p (spawns w) (spawns w2)" and alive: "member_live (spawns w2) kind ?i"
      and vacant: "\<And>c. own_entry kind ?i c \<Longrightarrow> counter (spawns w2) c = 0" for w2 :: "'a PlanWorld" and f
  proof -
    obtain s' where s': "remove_spawn_from_map_like_cpp g ?i (spawns w2) = (True, s')" "shrinks m p (spawns w2) s'"
      "\<not> member_live s' kind ?i"
      by (rule despawn_one [OF ok shrinksD(1) [OF w2(2)] g i alive]) (rule vacant, assumption, blast)
    show ?thesis unfolding s'(1) prod.case
      by (rule rest) (use w2(1) s'(3) shrinks_trans [OF w2(2) s'(2)] in simp_all)
  qed
  show ?case
  proof (cases "member_live (spawns w) kind ?i \<and> (requested = 0 \<or> ?i = requested)")
    case True
    show ?thesis
    proof (cases "kind = PoolPool")
      case False
      then have "\<not> own_entry kind ?i c" for c by (simp add: own_entry_def)
      then show ?thesis using finish [of w] True False Cons.prems shrinks_refl fits
        by (simp add: Let_def is_spawned_member kind)
    next
      case pool: True
      then obtain c where c: "try_u32 ?i = Some c" "(c, p) \<in> child_rel m" using ok_child [OF ok] i by blast
      have own: "own_entry kind ?i d \<longleftrightarrow> d = c" for d using c(1) pool by (auto simp: own_entry_def)
      have "below m c \<inter> set (visiting w) = {}" using vs c(2) Cons.prems(2) by blast
      then have d: "outcome never (\<lambda>_ w'. shrinks m c (spawns w) (spawns w') \<and> counter (spawns w') c = 0 \<and> visiting w' = visiting w)
          (dc c always w)"
        using dc [OF c(2)] Cons.prems(3) by (simp add: despawns_def)
      have "outcome never (\<lambda>_. ?Q (x # xs) w) (and_then (dc c always) (\<lambda>q w2. case remove_spawn_from_map_like_cpp g ?i (spawns w2) of
          (removed, s3) \<Rightarrow> despawn_objects g requested always dc xs (f q removed) (w2\<lparr>spawns := s3\<rparr>)) w)" for f
      proof (rule outcome_and_then, rule d, rule finish)
        fix w' assume w': "shrinks m c (spawns w) (spawns w') \<and> counter (spawns w') c = 0 \<and> visiting w' = visiting w"
        show "visiting w' = vs" using w' Cons.prems(2) by simp
        show "shrinks m p (spawns w) (spawns w')" using w' shrinks_child [OF ok c(2)] by blast
        show "member_live (spawns w') kind ?i"
          using w' True pool c(1) shrinksD(4) [of m c "spawns w" "spawns w'"] by (simp add: live_pool_member)
        show "counter (spawns w') d = 0" if "own_entry kind ?i d" for d using w' that own by simp
      qed
      then show ?thesis using True pool c by (simp add: Let_def is_spawned_member kind)
    qed
  next
    case False
    then show ?thesis using rest [of w] Cons.prems shrinks_refl fits
      by (auto simp: Let_def is_spawned_member kind)
  qed
qed

text \<open>Every member of the pool of one kind is gone.\<close>

definition all_gone :: "PoolMgrLikeCpp \<Rightarrow> u32 \<Rightarrow> SpawnedPoolDataLikeCpp \<Rightarrow> PoolMemberKindLikeCpp \<Rightarrow> bool" where
  "all_gone m p s kind \<longleftrightarrow> (\<forall>i \<in> set (pool_members m kind p). \<not> member_live s kind i)"

lemma all_gone_shrinks: "shrinks m q s s' \<Longrightarrow> all_gone m p s kind \<Longrightarrow> all_gone m p s' kind"
  unfolding all_gone_def using shrinksD(5) by blast

lemma all_gone_counter:
  assumes "counts_ok m s" "\<And>kind. all_gone m p s kind"
  shows "counter s p = 0"
proof -
  have "live_members m s p kind = 0" for kind
    using assms(2) by (simp add: live_members_def all_gone_def)
  then show ?thesis using assms(1) by (simp add: counts_ok_def live_count_def)
qed

definition children_below :: "PoolMgrLikeCpp \<Rightarrow> u32 \<Rightarrow> u32 set" where
  "children_below m p = (\<Union>c \<in> {c. (c, p) \<in> child_rel m}. below m c)"

lemma children_below_subset: "children_below m p \<subseteq> below m p"
  unfolding children_below_def using below_child by blast

lemma children_below_irrefl: "pools_ok m \<Longrightarrow> p \<notin> children_below m p"
  unfolding children_below_def using below_not_up by blast

lemma despawn_typed_shrinks:
  assumes ok: "pools_ok m"
    and dc: "\<And>c. (c, p) \<in> child_rel m \<Longrightarrow> despawns m dc c"
    and vs: "children_below m p \<inter> set (visiting w) = {}" and counts: "counts_ok m (spawns w)"
  shows "outcome never (\<lambda>_ w'. shrinks m p (spawns w) (spawns w') \<and> visiting w' = visiting w \<and>
        (requested = 0 \<longrightarrow> all_gone m p (spawns w') kind))
      (despawn_typed_step dc m kind p requested always w)"
proof (cases "group_like_cpp m kind p")
  case None
  then show ?thesis
    by (simp add: despawn_typed_step_def shrinks_refl counts all_gone_def pool_members_def)
next
  case (Some g)
  show ?thesis
  proof (cases "group_is_empty_like_cpp g")
    case True
    then show ?thesis using Some
      by (simp add: despawn_typed_step_def shrinks_refl counts all_gone_def pool_members_def group_is_empty_like_cpp_def)
  next
    case False
    have "outcome never (\<lambda>_ w'. shrinks m p (spawns w) (spawns w') \<and> visiting w' = visiting w \<and>
        (requested = 0 \<longrightarrow> (\<forall>x \<in> set (equal_chanced g @ explicitly_chanced g). \<not> member_live (spawns w') kind (pool_guid x))))
      (despawn_objects g requested always dc (equal_chanced g @ explicitly_chanced g)
        (PoolDespawnObjectPlan [] requested always [] [] []) w)"
      by (rule despawn_objects_shrink [OF ok Some dc]) (use vs counts Some in \<open>auto simp: children_below_def pool_members_def\<close>)
    then have "outcome never (\<lambda>_ w'. shrinks m p (spawns w) (spawns w') \<and> visiting w' = visiting w \<and>
        (requested = 0 \<longrightarrow> all_gone m p (spawns w') kind)) (despawn_object_plan_like_cpp g requested always dc w)"
      unfolding despawn_object_plan_like_cpp_def
      by (rule outcome_weaken) (auto simp: all_gone_def pool_members_def Some)
    then have "outcome never (\<lambda>_ w'. shrinks m p (spawns w) (spawns w') \<and> visiting w' = visiting w \<and>
        (requested = 0 \<longrightarrow> all_gone m p (spawns w') kind)) (and_then (despawn_object_plan_like_cpp g requested always dc)
          (\<lambda>plan w1. Some (Inr (PoolTypedDespawnPlan kind p requested always (Some plan) None), w1)) w)"
      by (rule outcome_and_then) simp
    then show ?thesis using Some False by (simp add: despawn_typed_step_def)
  qed
qed

lemma outcome_for_kinds_done:
  assumes step: "\<And>ks kind w. J ks w \<Longrightarrow> outcome E (\<lambda>_. J (ks @ [kind])) (step kind w)" and "J ks w"
  shows "outcome E (\<lambda>_. J (ks @ kinds)) (for_kinds step kinds subplans w)"
  using assms(2)
proof (induction kinds arbitrary: ks subplans w)
  case (Cons kind kinds)
  have "outcome E (\<lambda>_. J ((ks @ [kind]) @ kinds)) (for_kinds step (kind # kinds) subplans w)"
    unfolding for_kinds.simps by (rule outcome_and_then, rule step [OF Cons.prems], rule Cons.IH)
  then show ?case by simp
qed simp

lemma visited_children:
  assumes ok: "pools_ok m" and w: "below m p \<inter> set (visiting w) = {}"
  shows "children_below m p \<inter> set (visiting (visit p w)) = {}"
  using w children_below_subset [of m p] children_below_irrefl [OF ok, of p] by (auto simp: visit_def)

lemma unvisited_pool: "below m p \<inter> set (visiting w) = {} \<Longrightarrow> p \<notin> set (visiting w)"
  using below_refl [of p m] by blast

lemma despawn_despawns:
  assumes ok: "pools_ok m"
  shows "despawns m (despawn_pool_plan_with_visited_like_cpp m :: _ \<Rightarrow> _ \<Rightarrow> ('r, _) pool_step) p"
proof (induction p rule: wf_induct_rule [OF ok_wf [OF ok]])
  case (1 p)
  let ?dc = "despawn_pool_plan_with_visited_like_cpp m :: _ \<Rightarrow> _ \<Rightarrow> ('r, _) pool_step"
  show ?case unfolding despawns_def
  proof (intro allI impI)
    fix always and w :: "'r PlanWorld"
    assume counts: "counts_ok m (spawns w)" and vs: "below m p \<inter> set (visiting w) = {}"
    let ?J = "\<lambda>ks w'. shrinks m p (spawns w) (spawns w') \<and> visiting w' = p # visiting w \<and> (\<forall>k \<in> set ks. all_gone m p (spawns w') k)"
    have w0: "?J [] (visit p w)"
      using unvisited_pool [OF vs] by (simp add: visit_def shrinks_refl counts)
    have step: "outcome never (\<lambda>_. ?J (ks @ [kind])) (despawn_typed_step ?dc m kind p 0 always w1)"
      if w1: "?J ks w1" for ks kind w1
    proof (rule outcome_weaken [OF despawn_typed_shrinks [OF ok 1]])
      show "children_below m p \<inter> set (visiting w1) = {}"
        using visited_children [OF ok vs] w1 visit_list [OF unvisited_pool [OF vs]] by simp
      show "counts_ok m (spawns w1)" using w1 shrinksD(1) by blast
      fix a w' assume w': "shrinks m p (spawns w1) (spawns w') \<and> visiting w' = visiting w1 \<and>
        ((0::u64) = 0 \<longrightarrow> all_gone m p (spawns w') kind)"
      have "shrinks m p (spawns w) (spawns w')" using w1 w' by (blast intro: shrinks_trans)
      moreover have "\<forall>k \<in> set ks. all_gone m p (spawns w') k" using w1 w' by (blast intro: all_gone_shrinks)
      ultimately show "?J (ks @ [kind]) w'" using w1 w' by simp
    qed
    have "outcome never (\<lambda>_. ?J ([] @ [PoolCreature, PoolGameObject, PoolPool]))
       (for_kinds (\<lambda>kind w1. despawn_typed_step ?dc m kind p 0 always w1) [PoolCreature, PoolGameObject, PoolPool] [] (visit p w))"
      by (rule outcome_for_kinds_done [OF step w0])
    then have "outcome never (\<lambda>_ w'. shrinks m p (spawns w) (spawns w') \<and> counter (spawns w') p = 0 \<and> visiting w' = visiting w)
      (and_then (for_kinds (\<lambda>kind w1. despawn_typed_step ?dc m kind p 0 always w1) [PoolCreature, PoolGameObject, PoolPool] [])
        (\<lambda>subplans w1. Some (Inr (PoolDespawnPoolPlan p always subplans), leave p w1)) (visit p w))"
    proof (rule outcome_and_then)
      fix a and w' :: "'r PlanWorld" assume w': "?J ([] @ [PoolCreature, PoolGameObject, PoolPool]) w'"
      then have "all_gone m p (spawns w') kind" for kind by (cases kind) simp_all
      then have "counter (spawns w') p = 0" using all_gone_counter shrinksD(1) w' by blast
      then show "outcome never (\<lambda>_ w'. shrinks m p (spawns w) (spawns w') \<and> counter (spawns w') p = 0 \<and> visiting w' = visiting w)
          (Some (Inr (PoolDespawnPoolPlan p always a), leave p w'))"
        using w' unvisited_pool [OF vs] by (simp add: leave_def)
    qed
    then show "outcome never (\<lambda>_ w'. shrinks m p (spawns w) (spawns w') \<and> counter (spawns w') p = 0 \<and> visiting w' = visiting w)
        (?dc p always w)"
      using unvisited_pool [OF vs] by (subst despawn_pool_plan_with_visited_like_cpp.simps) simp
  qed
qed

end
