(* ===== verification/PoolSpawning.thy ===== *)
theory PoolSpawning
  imports PoolLaws
begin

text \<open>
  Spawning on a well-formed manager: the rolled objects are different members that are not
  spawned or are the trigger, there are no more of them than the limit leaves room for, and adding
  them keeps every counter exact and every pool within its limit.
\<close>

section \<open>The rolled objects\<close>

lemma roll_explicit_sound:
  "set (roll_explicit g s trigger roll xs) \<subseteq> {x \<in> set xs. spawnable g s trigger x} \<and>
   length (roll_explicit g s trigger roll xs) \<le> 1"
  by (induction xs arbitrary: roll) (auto simp: Let_def)

lemma take_chosen_sound:
  assumes "length used = length candidates" "distinct (map pool_guid candidates)"
    and "distinct (map pool_guid rolled)" "set rolled \<subseteq> set candidates"
    and "\<And>j. j < length candidates \<Longrightarrow> \<not> used ! j \<Longrightarrow> pool_guid (candidates ! j) \<notin> pool_guid ` set rolled"
    and "length rolled \<le> requested"
  shows "distinct (map pool_guid (take_chosen candidates requested is used rolled)) \<and>
    set (take_chosen candidates requested is used rolled) \<subseteq> set candidates \<and>
    length (take_chosen candidates requested is used rolled) \<le> requested"
  using assms
proof (induction "is" arbitrary: used rolled)
  case (Cons i "is")
  show ?case
  proof (cases "length rolled < requested \<and> i < length candidates \<and> \<not> used ! i")
    case True
    let ?x = "candidates ! i"
    have x: "?x \<in> set candidates" using True by simp
    have "pool_guid (candidates ! j) \<notin> pool_guid ` set (rolled @ [?x])"
      if "j < length candidates" "\<not> used[i := True] ! j" for j
    proof -
      have j: "j \<noteq> i" "\<not> used ! j" using that Cons.prems(1) True by (auto simp: nth_list_update split: if_splits)
      then have "pool_guid (candidates ! j) \<noteq> pool_guid ?x"
        using nth_eq_iff_index_eq [OF Cons.prems(2), of j i] True that(1) by simp
      then show ?thesis using Cons.prems(5) [OF that(1) j(2)] by simp
    qed
    then show ?thesis using Cons.IH [of "used[i := True]" "rolled @ [?x]"] Cons.prems True x by simp
  qed (use Cons in auto)
qed simp

text \<open>What spawning needs of the objects it is about to add.\<close>

definition rolled_ok ::
  "PoolMgrLikeCpp \<Rightarrow> PoolMemberKindLikeCpp \<Rightarrow> u32 \<Rightarrow> u64 \<Rightarrow> SpawnedPoolDataLikeCpp \<Rightarrow> PoolObjectLikeCpp list \<Rightarrow> bool" where
  "rolled_ok m kind p trigger s xs \<longleftrightarrow>
     distinct (map pool_guid xs) \<and> pool_guid ` set xs \<subseteq> set (pool_members m kind p) \<and>
     (\<forall>x \<in> set xs. pool_guid x = trigger \<or> \<not> member_live s kind (pool_guid x))"

lemma roll_objects_sound:
  assumes ok: "pools_ok m" and g: "group_like_cpp m kind p = Some g" and count: "count > 0"
    and roll: "roll_objects g trigger count explicit_roll choice s r = (xs, r1)"
  shows "rolled_ok m kind p trigger s xs \<and> int (length xs) \<le> count"
proof -
  have members: "pool_members m kind p = map pool_guid (equal_chanced g @ explicitly_chanced g)"
    by (simp add: pool_members_def g)
  have kind: "member_kind g = kind" using ok_group [OF ok g] by simp
  have dist: "distinct (map pool_guid (equal_chanced g @ explicitly_chanced g))"
    using ok_distinct [OF ok, of kind p] members by simp
  obtain ex r0 where ex: "(if explicitly_chanced g = [] then ([], r)
      else case explicit_roll r of (roll, r1) \<Rightarrow> (roll_explicit g s trigger roll (explicitly_chanced g), r1)) = (ex, r0)"
    by fastforce
  then have ex_sound: "set ex \<subseteq> {x \<in> set (explicitly_chanced g). spawnable g s trigger x} \<and> length ex \<le> 1"
    using roll_explicit_sound [of g s trigger _ "explicitly_chanced g"] by (auto split: if_splits prod.splits)
  then have exd: "distinct (map pool_guid ex)" by (cases ex) auto
  show ?thesis
  proof (cases "equal_chanced g \<noteq> [] \<and> ex = []")
    case True
    let ?cs = "filter (spawnable g s trigger) (equal_chanced g)"
    let ?n = "min (nat count) (length ?cs)"
    obtain "is" r2 where c: "choice ?cs ?n r0 = (is, r2)" by fastforce
    have xs: "xs = take_chosen ?cs ?n is (replicate (length ?cs) False) []"
      using roll ex True c by (simp add: roll_objects_def Let_def)
    have "distinct (map pool_guid ?cs)" using dist by (simp add: distinct_map_filter)
    then have "distinct (map pool_guid xs) \<and> set xs \<subseteq> set ?cs \<and> length xs \<le> ?n"
      unfolding xs by (intro take_chosen_sound) simp_all
    then show ?thesis using count
      by (auto simp: rolled_ok_def members spawnable_def is_spawned_member kind)
  next
    case False
    then have "xs = ex" using roll ex by (auto simp: roll_objects_def)
    then show ?thesis using ex_sound exd count
      by (auto simp: rolled_ok_def members spawnable_def is_spawned_member kind)
  qed
qed

section \<open>Adding them\<close>

definition limited :: "PoolMgrLikeCpp \<Rightarrow> u32 set \<Rightarrow> SpawnedPoolDataLikeCpp \<Rightarrow> bool" where
  "limited m A s \<longleftrightarrow> (\<forall>q \<in> A. counter s q \<le> pool_limit m q)"

lemma limitedD: "limited m A s \<Longrightarrow> q \<in> A \<Longrightarrow> counter s q \<le> pool_limit m q"
  by (simp add: limited_def)

lemma limited_shrinks: "limited m A s \<Longrightarrow> shrinks m p s s' \<Longrightarrow> limited m A s'"
  unfolding limited_def using shrinksD(2) order_trans by blast

text \<open>Nothing changes outside the pools below \<open>p\<close>, and the counters stay exact.\<close>

definition evolves :: "PoolMgrLikeCpp \<Rightarrow> u32 \<Rightarrow> SpawnedPoolDataLikeCpp \<Rightarrow> SpawnedPoolDataLikeCpp \<Rightarrow> bool" where
  "evolves m p s s' \<longleftrightarrow> counts_ok m s' \<and>
     (\<forall>q. q \<notin> below m p \<longrightarrow> hm_get (spawned_pools s') q = hm_get (spawned_pools s) q) \<and>
     (hm_get (spawned_pools s) p \<noteq> None \<longrightarrow> hm_get (spawned_pools s') p \<noteq> None)"

lemma evolvesD:
  assumes "evolves m p s s'"
  shows "counts_ok m s'" "q \<notin> below m p \<Longrightarrow> hm_get (spawned_pools s') q = hm_get (spawned_pools s) q"
    "hm_get (spawned_pools s) p \<noteq> None \<Longrightarrow> hm_get (spawned_pools s') p \<noteq> None"
  using assms unfolding evolves_def by blast+

lemma evolves_refl: "counts_ok m s \<Longrightarrow> evolves m p s s"
  by (simp add: evolves_def)

lemma evolves_trans: "evolves m p s s' \<Longrightarrow> evolves m p s' s'' \<Longrightarrow> evolves m p s s''"
  unfolding evolves_def by metis

lemma evolves_shrinks: "shrinks m p s s' \<Longrightarrow> evolves m p s s'"
  unfolding evolves_def using shrinksD by metis

lemma evolves_child:
  assumes ok: "pools_ok m" and c: "(c, p) \<in> child_rel m" and s: "evolves m c s s'"
  shows "evolves m p s s'"
  unfolding evolves_def
proof (intro conjI allI impI)
  show "counts_ok m s'" by (rule evolvesD(1) [OF s])
  show "hm_get (spawned_pools s') q = hm_get (spawned_pools s) q" if "q \<notin> below m p" for q
    using evolvesD(2) [OF s] below_child [OF c] that by blast
  show "hm_get (spawned_pools s') p \<noteq> None" if "hm_get (spawned_pools s) p \<noteq> None"
    using evolvesD(2) [OF s below_not_up [OF ok c]] that by simp
qed

lemma limited_evolves:
  assumes "evolves m c s s'" "limited m (below m c) s'" "limited m A s"
  shows "limited m A s'"
  unfolding limited_def
proof
  fix q assume q: "q \<in> A"
  show "counter s' q \<le> pool_limit m q"
  proof (cases "q \<in> below m c")
    case False
    then have "counter s' q = counter s q" by (intro counter_cong evolvesD(2) [OF assms(1)])
    then show ?thesis using limitedD [OF assms(3) q] by simp
  qed (rule limitedD [OF assms(2)])
qed

text \<open>A pool can be spawned: the children of other pools once their parent has added them.\<close>

definition entered :: "PoolMgrLikeCpp \<Rightarrow> u32 \<Rightarrow> SpawnedPoolDataLikeCpp \<Rightarrow> bool" where
  "entered m p s \<longleftrightarrow> parentless m p \<or> hm_get (spawned_pools s) p \<noteq> None"

lemma entered_evolves: "entered m p s \<Longrightarrow> evolves m p s s' \<Longrightarrow> entered m p s'"
  unfolding entered_def using evolvesD(3) by blast

text \<open>The contract of spawning a child.\<close>

definition spawns_within :: "PoolMgrLikeCpp \<Rightarrow> (u32 \<Rightarrow> ('r, PoolSpawnPoolPlanLikeCpp) pool_step) \<Rightarrow> u32 \<Rightarrow> bool" where
  "spawns_within m sc c \<longleftrightarrow> (\<forall>w. counts_ok m (spawns w) \<longrightarrow> limited m (below m c) (spawns w) \<longrightarrow>
     entered m c (spawns w) \<longrightarrow> below m c \<inter> set (visiting w) = {} \<longrightarrow>
     outcome never (\<lambda>_ w'. evolves m c (spawns w) (spawns w') \<and> limited m (below m c) (spawns w') \<and>
       visiting w' = visiting w) (sc c w))"

text \<open>One member added; a child pool starts with no objects of its own.\<close>

lemma spawn_one:
  assumes ok: "pools_ok m" and counts: "counts_ok m s" and g: "group_like_cpp m kind p = Some g"
    and i: "i \<in> set (pool_members m kind p)" and dead: "\<not> member_live s kind i" and p: "entered m p s"
    and lim: "limited m (below m p - {p}) s"
  obtains s' where "add_spawn_to_map_like_cpp g i s = (True, s')" "evolves m p s s'"
    "limited m (below m p - {p}) s'" "counter s' p = counter s p + 1"
    "\<And>c. own_entry kind i c \<Longrightarrow> hm_get (spawned_pools s') c = Some 0"
    "\<And>j q. j \<in> set (pool_members m kind q) \<Longrightarrow> member_live s' kind j \<longleftrightarrow> member_live s kind j \<or> j = i"
proof -
  obtain s' where s': "add_spawn_to_map_like_cpp g i s = (True, s')" "counts_ok m s'"
    "counter s' p = counter s p + 1" "changes_entries p kind i s s'"
    and own: "\<And>c. own_entry kind i c \<Longrightarrow> hm_get (spawned_pools s') c = Some 0"
    and live: "\<And>k j q. j \<in> set (pool_members m k q) \<Longrightarrow> member_live s' k j \<longleftrightarrow> member_live s k j \<or> k = kind \<and> j = i"
    by (rule add_effect [OF ok counts g i dead p [unfolded entered_def]]) blast
  have below: "c \<in> below m p" if "own_entry kind i c" for c
    using own_entry_child [OF ok i that] below_child below_refl by blast
  have "evolves m p s s'"
    unfolding evolves_def
  proof (intro conjI allI impI)
    show "hm_get (spawned_pools s') q = hm_get (spawned_pools s) q" if q: "q \<notin> below m p" for q
    proof -
      have "q \<noteq> p" using q by auto
      moreover have "\<not> own_entry kind i q" using q below by blast
      ultimately show ?thesis using s'(4) by (simp add: changes_entries_def)
    qed
    show "hm_get (spawned_pools s') p \<noteq> None" using s'(4) by (simp add: changes_entries_def)
  qed (rule s'(2))
  moreover have "limited m (below m p - {p}) s'"
    unfolding limited_def
  proof
    fix q assume q: "q \<in> below m p - {p}"
    show "counter s' q \<le> pool_limit m q"
    proof (cases "own_entry kind i q")
      case True
      then show ?thesis using own by (simp add: counter_def get_spawned_objects_like_cpp_def)
    next
      case False
      then have "counter s' q = counter s q" using s'(4) q by (intro counter_cong) (simp add: changes_entries_def)
      then show ?thesis using limitedD [OF lim q] by simp
    qed
  qed
  ultimately show ?thesis using that [OF s'(1) _ _ s'(3) own] live by blast
qed

text \<open>The bound on the counter leaves one place more while the trigger is still to be taken away.\<close>

definition room :: "PoolMgrLikeCpp \<Rightarrow> u32 \<Rightarrow> u64 \<Rightarrow> SpawnedPoolDataLikeCpp \<Rightarrow> nat \<Rightarrow> bool" where
  "room m p trigger s n \<longleftrightarrow> counter s p + n \<le> pool_limit m p + (if trigger \<noteq> 0 then 1 else 0)"

definition live_trigger :: "PoolMgrLikeCpp \<Rightarrow> PoolMemberKindLikeCpp \<Rightarrow> u32 \<Rightarrow> u64 \<Rightarrow> SpawnedPoolDataLikeCpp \<Rightarrow> bool" where
  "live_trigger m kind p trigger s \<longleftrightarrow>
     (trigger \<noteq> 0 \<longrightarrow> trigger \<in> set (pool_members m kind p) \<and> member_live s kind trigger)"

text \<open>What holds once the rolled objects are added, of the plan with its trigger and the new world.\<close>

definition after_rolled ::
  "PoolMgrLikeCpp \<Rightarrow> PoolMemberKindLikeCpp \<Rightarrow> u32 \<Rightarrow> u64 \<Rightarrow> 'r PlanWorld \<Rightarrow> PoolObjectLikeCpp list
     \<Rightarrow> PoolSpawnObjectPlanLikeCpp \<times> u64 \<Rightarrow> 'r PlanWorld \<Rightarrow> bool" where
  "after_rolled m kind p trigger w xs plan w' \<longleftrightarrow>
     evolves m p (spawns w) (spawns w') \<and> limited m (below m p - {p}) (spawns w') \<and> visiting w' = visiting w \<and>
     room m p (snd plan) (spawns w') 0 \<and> live_trigger m kind p (snd plan) (spawns w') \<and>
     (trigger = 0 \<longrightarrow> snd plan = 0) \<and>
     (0 \<notin> pool_guid ` set xs \<longrightarrow>
        counter (spawns w') p = counter (spawns w) p + length (filter (\<lambda>x. pool_guid x \<noteq> trigger) xs))"

lemma spawn_rolled_within:
  fixes w :: "'r PlanWorld"
  assumes ok: "pools_ok m" and g: "group_like_cpp m kind p = Some g"
    and sc: "\<And>c. kind = PoolPool \<Longrightarrow> (c, p) \<in> child_rel m \<Longrightarrow> spawns_within m sc c"
    and vs: "children_below m p \<inter> set vs = {}"
  shows "visiting w = vs \<Longrightarrow> counts_ok m (spawns w) \<Longrightarrow> entered m p (spawns w) \<Longrightarrow>
    limited m (below m p - {p}) (spawns w) \<Longrightarrow> rolled_ok m kind p trigger (spawns w) xs \<Longrightarrow>
    room m p trigger (spawns w) (length xs) \<Longrightarrow> live_trigger m kind p trigger (spawns w) \<Longrightarrow>
    outcome never (after_rolled m kind p trigger w xs)
      (spawn_rolled g sc xs plan trigger w)"
proof (induction xs arbitrary: plan trigger w)
  case Nil
  then show ?case by (simp add: evolves_refl after_rolled_def)
next
  case (Cons x xs)
  let ?i = "pool_guid x"
  let ?Q = "\<lambda>w xs. after_rolled m kind p trigger w xs"
  have kind: "member_kind g = kind" using ok_group [OF ok g] by simp
  have i: "?i \<in> set (pool_members m kind p)" using Cons.prems(5) by (simp add: rolled_ok_def)
  have "?i \<notin> pool_guid ` set xs" using Cons.prems(5) by (simp add: rolled_ok_def)
  then have differs: "pool_guid y \<noteq> ?i" if "y \<in> set xs" for y using that by (metis imageI)
  show ?case
  proof (cases "?i = trigger")
    case True
    have others: "filter (\<lambda>y. pool_guid y \<noteq> trigger) xs = xs" "0 \<notin> pool_guid ` set xs \<Longrightarrow> filter (\<lambda>y. pool_guid y \<noteq> 0) xs = xs"
      using differs True by (auto simp: filter_id_conv image_iff)
    have "rolled_ok m kind p 0 (spawns w) xs"
      using Cons.prems(5) differs True by (auto simp: rolled_ok_def)
    moreover have "room m p 0 (spawns w) (length xs)"
      using Cons.prems(6) by (simp add: room_def split: if_splits)
    ultimately have "outcome never (after_rolled m kind p 0 w xs)
        (spawn_rolled g sc xs plan' 0 w)" for plan'
      by (intro Cons.IH) (use Cons.prems(1-4) in \<open>simp_all add: live_trigger_def\<close>)
    then have "outcome never (?Q w (x # xs)) (spawn_rolled g sc xs plan' 0 w)" for plan'
      by (rule outcome_weaken) (use others True in \<open>auto simp: after_rolled_def\<close>)
    then show ?thesis using True by (simp add: Let_def)
  next
    case False
    then have dead: "\<not> member_live (spawns w) kind ?i" using Cons.prems(5) by (auto simp: rolled_ok_def)
    obtain s' where s': "add_spawn_to_map_like_cpp g ?i (spawns w) = (True, s')" "evolves m p (spawns w) s'"
      "limited m (below m p - {p}) s'" "counter s' p = counter (spawns w) p + 1"
      and own: "\<And>c. own_entry kind ?i c \<Longrightarrow> hm_get (spawned_pools s') c = Some 0"
      and live: "\<And>j q. j \<in> set (pool_members m kind q) \<Longrightarrow> member_live s' kind j \<longleftrightarrow> member_live (spawns w) kind j \<or> j = ?i"
      by (rule spawn_one [OF ok Cons.prems(2) g i dead Cons.prems(3,4)]) blast
    have rest: "outcome never (?Q w (x # xs)) (spawn_rolled g sc xs plan' trigger w1)"
      if ev: "evolves m p (spawns w) (spawns w1)" and lim: "limited m (below m p - {p}) (spawns w1)"
        and w1: "visiting w1 = vs" "counter (spawns w1) p = counter s' p"
        and same: "\<And>j. j \<in> set (pool_members m kind p) \<Longrightarrow> j \<noteq> ?i \<Longrightarrow>
          member_live (spawns w1) kind j = member_live (spawns w) kind j"
      for plan' and w1 :: "'r PlanWorld"
    proof (rule outcome_weaken [OF Cons.IH])
      show "rolled_ok m kind p trigger (spawns w1) xs"
        unfolding rolled_ok_def
      proof (intro conjI ballI)
        fix y assume y: "y \<in> set xs"
        have "pool_guid y \<in> set (pool_members m kind p)" "pool_guid y \<noteq> ?i"
          using Cons.prems(5) y differs by (auto simp: rolled_ok_def)
        then show "pool_guid y = trigger \<or> \<not> member_live (spawns w1) kind (pool_guid y)"
          using same Cons.prems(5) y by (auto simp: rolled_ok_def)
      qed (use Cons.prems(5) in \<open>auto simp: rolled_ok_def\<close>)
      show "room m p trigger (spawns w1) (length xs)"
        using Cons.prems(6) w1(2) s'(4) by (simp add: room_def)
      show "live_trigger m kind p trigger (spawns w1)"
        using Cons.prems(7) same [of trigger] False by (auto simp: live_trigger_def)
      show "entered m p (spawns w1)" by (rule entered_evolves [OF Cons.prems(3) ev])
      show "counts_ok m (spawns w1)" by (rule evolvesD(1) [OF ev])
      fix a w' assume "?Q w1 xs a w'"
      then show "?Q w (x # xs) a w'" using evolves_trans [OF ev] w1 Cons.prems(1) s'(4) False by (auto simp: after_rolled_def)
    qed (rule w1(1) lim)+
    show ?thesis
    proof (cases "kind = PoolPool")
      case notpool: False
      have "outcome never (?Q w (x # xs)) (spawn_rolled g sc xs plan' trigger (w\<lparr>spawns := s'\<rparr>))" for plan'
        by (rule rest) (use s' Cons.prems(1) live in auto)
      then show ?thesis using notpool False by (simp add: Let_def s'(1) kind)
    next
      case pool: True
      obtain c where c: "try_u32 ?i = Some c" "(c, p) \<in> child_rel m" using ok_child [OF ok] i pool by blast
      have own_c: "own_entry kind ?i c" using c(1) pool by (simp add: own_entry_def)
      let ?w1 = "w\<lparr>spawns := s'\<rparr>"
      have below_c: "below m c \<subseteq> below m p - {p}" using below_child [OF c(2)] below_not_up [OF ok c(2)] by blast
      have "outcome never (\<lambda>_ w'. evolves m c (spawns ?w1) (spawns w') \<and> limited m (below m c) (spawns w') \<and>
          visiting w' = visiting ?w1) (sc c ?w1)"
      proof (rule sc [OF pool c(2), unfolded spawns_within_def, rule_format])
        show "counts_ok m (spawns ?w1)" using evolvesD(1) [OF s'(2)] by simp
        show "limited m (below m c) (spawns ?w1)" using s'(3) below_c by (auto simp: limited_def)
        show "entered m c (spawns ?w1)" using own [OF own_c] by (simp add: entered_def)
        show "below m c \<inter> set (visiting ?w1) = {}" using vs c(2) Cons.prems(1) by (auto simp: children_below_def)
      qed
      then have "outcome never (?Q w (x # xs)) (and_then (sc c) (\<lambda>q. spawn_rolled g sc xs (f q) trigger) ?w1)" for f
      proof (rule outcome_and_then)
        fix a and w' :: "'r PlanWorld"
        assume "evolves m c (spawns ?w1) (spawns w') \<and> limited m (below m c) (spawns w') \<and> visiting w' = visiting ?w1"
        then have w': "evolves m c s' (spawns w')" "limited m (below m c) (spawns w')" "visiting w' = vs"
          using Cons.prems(1) by simp_all
        show "outcome never (?Q w (x # xs)) (spawn_rolled g sc xs (f a) trigger w')"
        proof (rule rest)
          show "evolves m p (spawns w) (spawns w')"
            by (rule evolves_trans [OF s'(2) evolves_child [OF ok c(2) w'(1)]])
          show "limited m (below m p - {p}) (spawns w')" by (rule limited_evolves [OF w'(1,2) s'(3)])
          show "counter (spawns w') p = counter s' p"
            by (rule counter_cong [OF evolvesD(2) [OF w'(1) below_not_up [OF ok c(2)]]])
          fix j assume j: "j \<in> set (pool_members m kind p)" "j \<noteq> ?i"
          obtain d where d: "try_u32 j = Some d" "(d, p) \<in> child_rel m" using ok_child [OF ok] j(1) pool by blast
          have "d \<noteq> c" using d(1) c(1) j(2) try_u32_inj by blast
          then have "hm_get (spawned_pools (spawns w')) d = hm_get (spawned_pools s') d"
            by (intro evolvesD(2) [OF w'(1)] below_sibling [OF ok c(2) d(2)])
          then have "member_live (spawns w') kind j = member_live s' kind j"
            by (simp add: pool live_pool_member [OF d(1)])
          then show "member_live (spawns w') kind j = member_live (spawns w) kind j" using live [OF j(1)] j(2) by simp
        qed (rule w'(3))
      qed
      then show ?thesis using pool False c(1) by (simp add: Let_def s'(1) kind)
    qed
  qed
qed

section \<open>Taking the trigger away\<close>

lemma despawn_trigger_within:
  fixes w :: "'r PlanWorld"
  assumes ok: "pools_ok m" and g: "group_like_cpp m kind p = Some g"
    and dc: "\<And>c. kind = PoolPool \<Longrightarrow> (c, p) \<in> child_rel m \<Longrightarrow> despawns m dc c"
    and vs: "children_below m p \<inter> set (visiting w) = {}" and counts: "counts_ok m (spawns w)"
    and lim: "limited m (below m p - {p}) (spawns w)" and room: "room m p trigger (spawns w) 0"
    and trigger: "live_trigger m kind p trigger (spawns w)"
  shows "outcome never (\<lambda>_ w'. evolves m p (spawns w) (spawns w') \<and> limited m (below m p) (spawns w') \<and>
      visiting w' = visiting w) (despawn_trigger g dc plan trigger w)"
    (is "outcome never ?Q _")
proof (cases "trigger = 0")
  case True
  then show ?thesis using lim room
    by (auto simp: despawn_trigger_def evolves_refl counts limited_def room_def)
next
  case False
  have kind: "member_kind g = kind" using ok_group [OF ok g] by simp
  have i: "trigger \<in> set (pool_members m kind p)" and alive: "member_live (spawns w) kind trigger"
    using trigger False by (simp_all add: live_trigger_def)
  have "contains_guid_like_cpp g trigger"
    using i by (auto simp: contains_guid_like_cpp_def pool_members_def g list_ex_iff)
  note here = this
  have finish: "outcome never ?Q (case remove_spawn_from_map_like_cpp g trigger (spawns w2) of
      (removed, s3) \<Rightarrow> Some (Inr (f removed), w2\<lparr>spawns := s3\<rparr>))"
    if sh: "shrinks m p (spawns w) (spawns w2)" and v: "visiting w2 = visiting w"
      and alive: "member_live (spawns w2) kind trigger"
      and vacant: "\<And>c. own_entry kind trigger c \<Longrightarrow> counter (spawns w2) c = 0" for f and w2 :: "'r PlanWorld"
  proof -
    obtain s' where s': "remove_spawn_from_map_like_cpp g trigger (spawns w2) = (True, s')"
      "shrinks m p (spawns w2) s'" "counter (spawns w2) p = counter s' p + 1"
      by (rule despawn_one [OF ok shrinksD(1) [OF sh] g i alive]) (rule vacant, assumption, blast)
    have all: "shrinks m p (spawns w) s'" by (rule shrinks_trans [OF sh s'(2)])
    have "counter s' p \<le> pool_limit m p"
      using room False s'(3) shrinksD(2) [OF sh, of p] by (simp add: room_def)
    then have "limited m (below m p) s'" using limited_shrinks [OF lim all] by (auto simp: limited_def)
    then show ?thesis using evolves_shrinks [OF all] v by (simp add: s'(1))
  qed
  show ?thesis
  proof (cases "kind = PoolPool")
    case notpool: False
    then have "\<not> own_entry kind trigger c" for c by (simp add: own_entry_def)
    then have "outcome never ?Q (case remove_spawn_from_map_like_cpp g trigger (spawns w) of
        (removed, s3) \<Rightarrow> Some (Inr (f removed), w\<lparr>spawns := s3\<rparr>))" for f
      by (intro finish) (simp_all add: alive shrinks_refl counts)
    then show ?thesis using False notpool here alive
      by (simp add: despawn_trigger_def is_spawned_member kind Let_def)
  next
    case pool: True
    obtain c where c: "try_u32 trigger = Some c" "(c, p) \<in> child_rel m" using ok_child [OF ok] i pool by blast
    have own: "own_entry kind trigger d \<longleftrightarrow> d = c" for d using c(1) pool by (auto simp: own_entry_def)
    have "below m c \<inter> set (visiting w) = {}" using vs c(2) by (auto simp: children_below_def)
    then have d: "outcome never (\<lambda>_ w'. shrinks m c (spawns w) (spawns w') \<and> counter (spawns w') c = 0 \<and> visiting w' = visiting w)
        (dc c False w)"
      using dc [OF pool c(2)] counts by (simp add: despawns_def)
    have "outcome never ?Q (and_then (dc c False) (\<lambda>q w2. case remove_spawn_from_map_like_cpp g trigger (spawns w2) of
        (removed, s3) \<Rightarrow> Some (Inr (f q removed), w2\<lparr>spawns := s3\<rparr>)) w)" for f
    proof (rule outcome_and_then, rule d, rule finish)
      fix w' :: "'r PlanWorld"
      assume w': "shrinks m c (spawns w) (spawns w') \<and> counter (spawns w') c = 0 \<and> visiting w' = visiting w"
      show "shrinks m p (spawns w) (spawns w')" using w' shrinks_child [OF ok c(2)] by blast
      show "visiting w' = visiting w" using w' by simp
      show "member_live (spawns w') kind trigger"
        using w' alive pool c(1) shrinksD(4) [of m c "spawns w" "spawns w'"] by (simp add: live_pool_member)
      show "counter (spawns w') d = 0" if "own_entry kind trigger d" for d using w' that own by simp
    qed
    then show ?thesis using False pool here alive c(1)
      by (simp add: despawn_trigger_def is_spawned_member kind Let_def)
  qed
qed

section \<open>Plans of one group and of a pool\<close>

text \<open>What spawning a pool asks of the world it starts in.\<close>

definition spawnable_world :: "PoolMgrLikeCpp \<Rightarrow> u32 \<Rightarrow> 'r PlanWorld \<Rightarrow> bool" where
  "spawnable_world m p w \<longleftrightarrow> counts_ok m (spawns w) \<and> limited m (below m p) (spawns w) \<and>
     entered m p (spawns w) \<and> children_below m p \<inter> set (visiting w) = {}"

abbreviation spawned_within :: "PoolMgrLikeCpp \<Rightarrow> u32 \<Rightarrow> 'r PlanWorld \<Rightarrow> 'a \<Rightarrow> 'r PlanWorld \<Rightarrow> bool" where
  "spawned_within m p w \<equiv> (\<lambda>_ w'. evolves m p (spawns w) (spawns w') \<and> limited m (below m p) (spawns w') \<and>
     visiting w' = visiting w)"

lemma spawnable_world_after:
  "spawnable_world m p w \<Longrightarrow> spawned_within m p w a w' \<Longrightarrow> spawnable_world m p w'"
  unfolding spawnable_world_def using evolvesD(1) entered_evolves by metis

definition places :: "u32 \<Rightarrow> u32 \<Rightarrow> u64 \<Rightarrow> 'r PlanWorld \<Rightarrow> int" where
  "places limit p trigger w =
     uint limit - uint (get_spawned_objects_like_cpp (spawns w) p) + (if trigger \<noteq> 0 then 1 else 0)"

text \<open>The rolled objects are added.\<close>

lemma rolled_within:
  fixes w :: "'r PlanWorld"
  assumes ok: "pools_ok m" and g: "group_like_cpp m kind p = Some g"
    and limit: "unat limit = pool_limit m p"
    and sc: "\<And>c. kind = PoolPool \<Longrightarrow> (c, p) \<in> child_rel m \<Longrightarrow> spawns_within m sc c"
    and w: "spawnable_world m p w" and trigger: "live_trigger m kind p trigger (spawns w)"
    and rolled: "(if places limit p trigger w > 0
        then roll_objects g trigger (places limit p trigger w) roll choice (spawns w) (rng w) else ([], rng w)) = (rolled, r1)"
  shows "outcome never (after_rolled m kind p trigger w rolled)
      (spawn_rolled g sc rolled empty_spawn_plan trigger (w\<lparr>rng := r1\<rparr>))"
proof -
  let ?count = "places limit p trigger w"
  have count: "?count = int (pool_limit m p) - int (counter (spawns w) p) + (if trigger \<noteq> 0 then 1 else 0)"
    by (simp add: places_def counter_def flip: limit)
  have counts: "counts_ok m (spawns w)" and lim: "limited m (below m p) (spawns w)" and en: "entered m p (spawns w)"
    and vs: "children_below m p \<inter> set (visiting w) = {}" using w by (simp_all add: spawnable_world_def)
  have "rolled_ok m kind p trigger (spawns w) rolled \<and> room m p trigger (spawns w) (length rolled)"
  proof (cases "?count > 0")
    case True
    have "rolled_ok m kind p trigger (spawns w) rolled \<and> int (length rolled) \<le> ?count"
      by (rule roll_objects_sound [OF ok g True]) (use rolled in \<open>unfold if_P [OF True]\<close>)
    then show ?thesis unfolding count room_def by (simp split: if_splits)
  next
    case False
    then have "rolled = []" using rolled by simp
    moreover have "counter (spawns w) p \<le> pool_limit m p" using limitedD [OF lim below_refl] .
    ultimately show ?thesis by (simp add: rolled_ok_def room_def)
  qed
  moreover have same: "after_rolled m kind p trigger (w\<lparr>rng := r1\<rparr>) rolled = after_rolled m kind p trigger w rolled"
    by (simp add: fun_eq_iff after_rolled_def)
  ultimately show ?thesis
    using spawn_rolled_within [OF ok g sc vs, of "w\<lparr>rng := r1\<rparr>" trigger rolled empty_spawn_plan] counts lim en trigger
    by (simp add: same limited_def)
qed

lemma spawn_object_plan_within:
  fixes w :: "'r PlanWorld"
  assumes ok: "pools_ok m" and g: "group_like_cpp m kind p = Some g"
    and limit: "unat limit = pool_limit m p"
    and sc: "\<And>c. kind = PoolPool \<Longrightarrow> (c, p) \<in> child_rel m \<Longrightarrow> spawns_within m sc c"
    and dc: "\<And>c. kind = PoolPool \<Longrightarrow> (c, p) \<in> child_rel m \<Longrightarrow> despawns m dc c"
    and w: "spawnable_world m p w" and trigger: "live_trigger m kind p trigger (spawns w)"
  shows "outcome never (spawned_within m p w)
    (spawn_object_plan_with_child_pools_like_cpp g limit trigger roll choice sc dc w)"
proof -
  have gp: "group_pool_id g = p" using ok_group [OF ok g] by simp
  have vs: "children_below m p \<inter> set (visiting w) = {}" using w by (simp add: spawnable_world_def)
  obtain rolled r1 where rolled: "(if places limit p trigger w > 0
      then roll_objects g trigger (places limit p trigger w) roll choice (spawns w) (rng w) else ([], rng w)) = (rolled, r1)"
    by fastforce
  have "outcome never (spawned_within m p w) (and_then (spawn_rolled g sc rolled empty_spawn_plan trigger)
      (\<lambda>(plan, trigger1). despawn_trigger g dc plan trigger1) (w\<lparr>rng := r1\<rparr>))"
  proof (rule outcome_and_then, rule rolled_within [OF ok g limit sc w trigger rolled])
    fix a :: "PoolSpawnObjectPlanLikeCpp \<times> u64" and w' :: "'r PlanWorld"
    assume a: "after_rolled m kind p trigger w rolled a w'"
    show "outcome never (spawned_within m p w) ((case a of (plan, trigger1) \<Rightarrow> despawn_trigger g dc plan trigger1) w')"
    proof (cases a)
      case (Pair plan trigger')
      then have w': "evolves m p (spawns w) (spawns w')" "limited m (below m p - {p}) (spawns w')" "visiting w' = visiting w"
        "room m p trigger' (spawns w') 0" "live_trigger m kind p trigger' (spawns w')" using a by (simp_all add: after_rolled_def)
      have "outcome never (spawned_within m p w') (despawn_trigger g dc plan trigger' w')"
        by (rule despawn_trigger_within [OF ok g dc]) (use w' vs evolvesD(1) [OF w'(1)] in simp_all)
      then have "outcome never (spawned_within m p w) (despawn_trigger g dc plan trigger' w')"
        by (rule outcome_weaken) (use w'(3) evolves_trans [OF w'(1)] in auto)
      then show ?thesis using Pair by simp
    qed
  qed
  then show ?thesis using rolled
    unfolding spawn_object_plan_with_child_pools_like_cpp_def Let_def places_def gp by simp
qed

lemma outcome_never: "outcome never Q out \<Longrightarrow> outcome E Q out"
  unfolding outcome_def by (fastforce split: sum.splits)

lemma spawn_typed_within:
  fixes w :: "'r PlanWorld"
  assumes ok: "pools_ok m" and sc: "\<And>c. (c, p) \<in> child_rel m \<Longrightarrow> spawns_within m sc c"
    and w: "spawnable_world m p w" and trigger: "live_trigger m kind p trigger (spawns w)"
  shows "outcome never (spawned_within m p w) (spawn_typed_step sc m roll_for choice kind p trigger w)"
proof (cases "group_like_cpp m kind p")
  case None
  then show ?thesis using w by (simp add: spawn_typed_step_def evolves_refl spawnable_world_def)
next
  case (Some g)
  show ?thesis
  proof (cases "group_is_empty_like_cpp g")
    case True
    then show ?thesis using w Some by (simp add: spawn_typed_step_def evolves_refl spawnable_world_def)
  next
    case False
    then have members: "pool_members m kind p \<noteq> []" by (auto simp: pool_members_def Some group_is_empty_like_cpp_def)
    then obtain t where t: "hm_get (templates m) p = Some t" using ok by (fastforce simp: pools_ok_def)
    have overflow: "ensure_no_child_pool_overflow_like_cpp g = None"
    proof (cases "kind = PoolPool")
      case True
      have "try_u32 (pool_guid x) \<noteq> None" if "x \<in> set (explicitly_chanced g @ equal_chanced g)" for x
      proof -
        have "pool_guid x \<in> set (pool_members m PoolPool p)" using that Some True by (auto simp: pool_members_def)
        then show ?thesis using ok_child [OF ok] by fastforce
      qed
      then show ?thesis unfolding ensure_no_child_pool_overflow_like_cpp_def by (simp add: find_None_iff) blast
    qed (use ok_group [OF ok Some] in \<open>simp add: ensure_no_child_pool_overflow_like_cpp_def\<close>)
    have limit: "unat (max_limit t) = pool_limit m p" by (simp add: pool_limit_def t)
    let ?step = "if kind = PoolPool
      then spawn_object_plan_with_child_pools_like_cpp g (max_limit t) trigger (roll_for kind p) choice sc
             (\<lambda>child _. despawn_pool_plan_with_visited_like_cpp m child False)
      else (\<lambda>w1. map_option (\<lambda>(plan, w2). (Inr plan, w2))
             (spawn_object_plan_like_cpp g (max_limit t) trigger (roll_for kind p) choice w1))"
    have "outcome never (spawned_within m p w) (?step w)"
    proof (cases "kind = PoolPool")
      case True
      have "despawns m (\<lambda>child _. despawn_pool_plan_with_visited_like_cpp m child False :: ('r, _) pool_step) c" for c
        using despawn_despawns [OF ok, of c] unfolding despawns_def by blast
      then have "outcome never (spawned_within m p w) (spawn_object_plan_with_child_pools_like_cpp g (max_limit t) trigger
          (roll_for kind p) choice sc (\<lambda>child _. despawn_pool_plan_with_visited_like_cpp m child False) w)"
        by (intro spawn_object_plan_within [OF ok Some limit sc _ w trigger]) blast+
      then show ?thesis using True by simp
    next
      case False
      have "outcome never (spawned_within m p w) (spawn_object_plan_with_child_pools_like_cpp g (max_limit t) trigger
          (roll_for kind p) choice (\<lambda>child w. Some (Inr (PoolSpawnPoolPlan 0 []), w))
          (\<lambda>child always w. Some (Inr (PoolDespawnPoolPlan 0 False []), w)) w)"
        by (rule spawn_object_plan_within [OF ok Some limit _ _ w trigger]) (simp_all add: False)
      then have "outcome never (spawned_within m p w) (map_option (\<lambda>(plan, w2). (Inr plan, w2))
          (spawn_object_plan_like_cpp g (max_limit t) trigger (roll_for kind p) choice w))"
        by (rule outcome_leaf [OF outcome_never])
      then show ?thesis using False by simp
    qed
    then have "outcome never (spawned_within m p w)
        (and_then ?step (\<lambda>plan w1. Some (Inr (PoolTypedSpawnPlan kind p trigger (Some (max_limit t)) (Some plan) None), w1)) w)"
      by (rule outcome_and_then) simp
    then show ?thesis using Some False overflow t by (simp add: spawn_typed_step_def)
  qed
qed

lemma spawn_spawns_within:
  assumes ok: "pools_ok m"
  shows "spawns_within m (spawn_pool_plan_with_visited_like_cpp m roll_for choice) p"
proof (induction p rule: wf_induct_rule [OF ok_wf [OF ok]])
  case (1 p)
  let ?sc = "spawn_pool_plan_with_visited_like_cpp m roll_for choice"
  show ?case unfolding spawns_within_def
  proof (intro allI impI)
    fix w :: "'a PlanWorld"
    assume pre: "counts_ok m (spawns w)" "limited m (below m p) (spawns w)" "entered m p (spawns w)"
      and vs: "below m p \<inter> set (visiting w) = {}"
    let ?I = "\<lambda>w'. spawned_within m p (visit p w) () w' \<and> spawnable_world m p w'"
    have "spawnable_world m p (visit p w)"
      using pre visited_children [OF ok vs] by (simp add: spawnable_world_def visit_def)
    then have w0: "?I (visit p w)"
      using pre by (simp add: visit_def evolves_refl)
    have "outcome never (\<lambda>_. ?I) (spawn_typed_step ?sc m roll_for choice kind p 0 w1)" if w1: "?I w1" for kind w1
    proof (rule outcome_weaken [OF spawn_typed_within [OF ok 1]])
      show "spawnable_world m p w1" using w1 by simp
      show "live_trigger m kind p 0 (spawns w1)" by (simp add: live_trigger_def)
      fix a w' assume w': "spawned_within m p w1 a w'"
      have "spawnable_world m p w'" by (rule spawnable_world_after [OF _ w']) (use w1 in simp)
      then show "?I w'"
        using w1 w' evolves_trans [of m p "spawns (visit p w)" "spawns w1" "spawns w'"] by simp
    qed
    then have "outcome never (\<lambda>_. ?I) (for_kinds (\<lambda>kind w1. spawn_typed_step ?sc m roll_for choice kind p 0 w1)
        [PoolPool, PoolGameObject, PoolCreature] [] (visit p w))"
      by (rule outcome_for_kinds) (assumption | rule w0)+
    then have "outcome never (spawned_within m p w) (and_then (for_kinds (\<lambda>kind w1.
        spawn_typed_step ?sc m roll_for choice kind p 0 w1) [PoolPool, PoolGameObject, PoolCreature] [])
        (\<lambda>subplans w1. Some (Inr (PoolSpawnPoolPlan p subplans), leave p w1)) (visit p w))"
      by (rule outcome_and_then) (use unvisited_pool [OF vs] in \<open>simp add: leave_def visit_def\<close>)
    then show "outcome never (\<lambda>_ w'. evolves m p (spawns w) (spawns w') \<and> limited m (below m p) (spawns w') \<and>
        visiting w' = visiting w) (?sc p w)"
      using unvisited_pool [OF vs] by (subst spawn_pool_plan_with_visited_like_cpp.simps) simp
  qed
qed

end
