(* ===== verification/PoolRuns.thy ===== *)
theory PoolRuns
  imports PoolSpawning
begin

text \<open>
  The public operations of the pool manager on the spawned objects of a map, as requests of a
  running map, and the invariant of its runs: counters are exact and no pool exceeds its limit.
\<close>

section \<open>Requests\<close>

datatype PoolRequest =
    SpawnPoolRequest u32 | UpdatePoolRequest u32 SpawnObjectType SpawnId
  | DespawnPoolRequest u32 bool | InitPoolsRequest u32

text \<open>The answer says whether the plan was made without an error.\<close>

fun pool_request ::
  "PoolMgrLikeCpp \<Rightarrow> 'r explicit_roll_for \<Rightarrow> 'r choose_equal \<Rightarrow> PoolRequest \<Rightarrow> SpawnedPoolDataLikeCpp \<Rightarrow> 'r
     \<Rightarrow> (bool \<times> SpawnedPoolDataLikeCpp \<times> 'r) option" where
  "pool_request m roll_for choice (SpawnPoolRequest p) s r =
     map_option (\<lambda>(x, s1, r1). (\<not> isl x, s1, r1)) (spawn_pool_plan_like_cpp m roll_for choice p s r)"
| "pool_request m roll_for choice (UpdatePoolRequest p t i) s r =
     map_option (\<lambda>(x, s1, r1). (\<not> isl x, s1, r1)) (update_pool_plan_like_cpp m roll_for choice p t i s r)"
| "pool_request m roll_for choice (DespawnPoolRequest p always) s r =
     map_option (\<lambda>(x, s1). (\<not> isl x, s1, r)) (despawn_pool_plan_like_cpp m p always s)"
| "pool_request m roll_for choice (InitPoolsRequest map_id) s r =
     map_option (\<lambda>(plan, s1, r1). (init_errors plan = [], s1, r1))
       (init_pools_for_map_plan_like_cpp m roll_for choice map_id s r)"

text \<open>
  A child pool is spawned by its parent only; an update names a spawned object of a pool, whose
  timer has run out, and reaches its group or, for a child pool, the group of the parent.
\<close>

definition update_target ::
  "PoolMgrLikeCpp \<Rightarrow> u32 \<Rightarrow> SpawnObjectType \<Rightarrow> SpawnId \<Rightarrow> PoolMemberKindLikeCpp \<times> u32 \<times> u64" where
  "update_target m p t i =
     (case hm_get (child_pool_to_parent m) p of
        Some mother \<Rightarrow> (PoolPool, mother, ucast p)
      | None \<Rightarrow> (if t = SpawnCreature then PoolCreature else PoolGameObject, p, i))"

fun request_ok :: "PoolMgrLikeCpp \<Rightarrow> SpawnedPoolDataLikeCpp \<Rightarrow> PoolRequest \<Rightarrow> bool" where
  "request_ok m s (SpawnPoolRequest p) \<longleftrightarrow> entered m p s"
| "request_ok m s (UpdatePoolRequest p t i) \<longleftrightarrow> t \<noteq> SpawnAreaTrigger \<and>
     (case update_target m p t i of (kind, q, trigger) \<Rightarrow>
        trigger \<in> set (pool_members m kind q) \<and> member_live s kind trigger)"
| "request_ok m s (DespawnPoolRequest p always) \<longleftrightarrow> True"
| "request_ok m s (InitPoolsRequest map_id) \<longleftrightarrow>
     uint map_id < 2 ^ 31 \<and> list_all (parentless m) (auto_spawn_pools_for_map_like_cpp m map_id)"

inductive pools_run ::
  "PoolMgrLikeCpp \<Rightarrow> 'r explicit_roll_for \<Rightarrow> 'r choose_equal \<Rightarrow> SpawnedPoolDataLikeCpp \<Rightarrow> 'r \<Rightarrow> bool"
  for m roll_for choice where
  start: "pools_run m roll_for choice spawned_pool_data_new r"
| request: "pools_run m roll_for choice s r \<Longrightarrow> request_ok m s req \<Longrightarrow>
     pool_request m roll_for choice req s r = Some (fine, s', r') \<Longrightarrow> pools_run m roll_for choice s' r'"

section \<open>Every request keeps the invariant\<close>

definition pools_bounded :: "PoolMgrLikeCpp \<Rightarrow> SpawnedPoolDataLikeCpp \<Rightarrow> bool" where
  "pools_bounded m s \<longleftrightarrow> counts_ok m s \<and> limited m UNIV s"

lemma bounded_below: "pools_bounded m s \<Longrightarrow> limited m (below m p) s"
  by (simp add: pools_bounded_def limited_def)

lemma bounded_evolves:
  "pools_bounded m s \<Longrightarrow> evolves m p s s' \<Longrightarrow> limited m (below m p) s' \<Longrightarrow> pools_bounded m s'"
  unfolding pools_bounded_def using evolvesD(1) limited_evolves by blast

lemma bounded_shrinks: "pools_bounded m s \<Longrightarrow> shrinks m p s s' \<Longrightarrow> pools_bounded m s'"
  unfolding pools_bounded_def using shrinksD(1) limited_shrinks by blast

lemma outcome_plan: "outcome never Q out \<Longrightarrow> \<exists>a w. out = Some (Inr a, w) \<and> Q a w"
proof -
  assume "outcome never Q out"
  then obtain x w where "out = Some (x, w)" "case x of Inl e \<Rightarrow> False | Inr a \<Rightarrow> Q a w" by (auto simp: outcome_def)
  then show ?thesis by (cases x) auto
qed

lemma planned_outcome:
  assumes "outcome never Q out"
  obtains plan w where "planned out = Some (Inr plan, spawns w, rng w)" "Q plan w"
  using outcome_plan [OF assms] by (auto simp: planned_def)

lemma spawn_request:
  assumes ok: "pools_ok m" and s: "pools_bounded m s" and p: "entered m p s"
  shows "\<exists>plan s' r'. spawn_pool_plan_like_cpp m roll_for choice p s r = Some (Inr plan, s', r') \<and>
    pools_bounded m s' \<and> evolves m p s s'"
proof -
  have "outcome never (\<lambda>_ w'. evolves m p s (spawns w') \<and> limited m (below m p) (spawns w') \<and> visiting w' = [])
      (spawn_pool_plan_with_visited_like_cpp m roll_for choice p (unvisited s r))"
    using spawn_spawns_within [OF ok, of roll_for choice p] s p bounded_below [OF s, of p]
    by (auto simp: spawns_within_def unvisited_def pools_bounded_def
        dest!: spec [of _ "\<lparr>spawns = s, rng = r, visiting = []\<rparr>"])
  then show ?thesis
    unfolding spawn_pool_plan_like_cpp_def
    by (elim planned_outcome) (use bounded_evolves [OF s] in blast)
qed

lemma typed_request:
  assumes ok: "pools_ok m" and s: "pools_bounded m s"
    and i: "trigger \<in> set (pool_members m kind p)" "member_live s kind trigger"
  shows "\<exists>plan s' r'. planned (spawn_typed_pool_plan_with_visited_like_cpp m roll_for choice kind p trigger (unvisited s r)) =
    Some (Inr plan, s', r') \<and> pools_bounded m s' \<and> evolves m p s s'"
proof -
  have "0 < counter s p" using s live_count_pos [OF i] by (simp add: pools_bounded_def counts_ok_def)
  then have "entered m p s" using counter_key by (auto simp: entered_def)
  then have w: "spawnable_world m p (unvisited s r)"
    using s bounded_below [OF s, of p] by (simp add: spawnable_world_def unvisited_def pools_bounded_def)
  have "outcome never (spawned_within m p (unvisited s r))
      (spawn_typed_pool_plan_with_visited_like_cpp m roll_for choice kind p trigger (unvisited s r))"
    unfolding spawn_typed_pool_plan_with_visited_like_cpp_def
    by (rule spawn_typed_within [OF ok spawn_spawns_within [OF ok] w]) (use i in \<open>simp add: live_trigger_def unvisited_def\<close>)
  then show ?thesis
    by (elim planned_outcome) (use bounded_evolves [OF s] in \<open>simp add: unvisited_def, blast\<close>)
qed

lemma despawn_request:
  assumes ok: "pools_ok m" and s: "pools_bounded m s"
  shows "\<exists>plan s'. despawn_pool_plan_like_cpp m p always s = Some (Inr plan, s') \<and>
    pools_bounded m s' \<and> shrinks m p s s' \<and> counter s' p = 0"
proof -
  have "outcome never (\<lambda>_ w'. shrinks m p s (spawns w') \<and> counter (spawns w') p = 0 \<and> visiting w' = [])
      (despawn_pool_plan_with_visited_like_cpp m p always \<lparr>spawns = s, rng = (), visiting = []\<rparr>)"
    using despawn_despawns [OF ok, of p] s
    by (auto simp: despawns_def pools_bounded_def dest!: spec [of _ always] spec [of _ "\<lparr>spawns = s, rng = (), visiting = []\<rparr>"])
  then show ?thesis
    unfolding despawn_pool_plan_like_cpp_def
    using bounded_shrinks [OF s] by (auto dest!: outcome_plan)
qed

lemma init_loop_request:
  assumes ok: "pools_ok m"
  shows "pools_bounded m s \<Longrightarrow> list_all (parentless m) ps \<Longrightarrow> init_errors plan = [] \<Longrightarrow>
    \<exists>plan' s' r'. init_pools_loop m roll_for choice ps plan s r = Some (plan', s', r') \<and>
      init_errors plan' = [] \<and> pools_bounded m s'"
proof (induction ps arbitrary: plan s r)
  case (Cons p ps)
  have "entered m p s" using Cons.prems(2) by (simp add: entered_def)
  then obtain x s1 r1 where x: "spawn_pool_plan_like_cpp m roll_for choice p s r = Some (Inr x, s1, r1)"
    "pools_bounded m s1" using spawn_request [OF ok Cons.prems(1), of p roll_for choice r] by blast
  then show ?case using Cons.IH [OF x(2), of "plan\<lparr>init_pools := init_pools plan @ [x]\<rparr>" r1] Cons.prems by simp
qed simp

lemma request_result:
  assumes ok: "pools_ok m" and s: "pools_bounded m s" and req: "request_ok m s req"
  shows "\<exists>s' r'. pool_request m roll_for choice req s r = Some (True, s', r') \<and> pools_bounded m s'"
proof (cases req)
  case (SpawnPoolRequest p)
  then show ?thesis using spawn_request [OF ok s, of p roll_for choice r] req by auto
next
  case (UpdatePoolRequest p t i)
  then have t: "t \<noteq> SpawnAreaTrigger" using req by simp
  show ?thesis
  proof (cases "hm_get (child_pool_to_parent m) p")
    case None
    then show ?thesis
      using typed_request [OF ok s, of i "if t = SpawnCreature then PoolCreature else PoolGameObject" p roll_for choice r] req t
      by (auto simp: UpdatePoolRequest update_pool_plan_like_cpp_def update_target_def)
  next
    case (Some mother)
    then show ?thesis using typed_request [OF ok s, of "ucast p" PoolPool mother roll_for choice r] req t
      by (auto simp: UpdatePoolRequest update_pool_plan_like_cpp_def update_target_def spawn_typed_pool_plan_like_cpp_def)
  qed
next
  case (DespawnPoolRequest p always)
  then show ?thesis using despawn_request [OF ok s, of p always] by auto
next
  case (InitPoolsRequest map_id)
  then have "uint map_id < 2 ^ 31" "list_all (parentless m) (auto_spawn_pools_for_map_like_cpp m map_id)"
    using req by simp_all
  then show ?thesis
    using init_loop_request [OF ok s, of "auto_spawn_pools_for_map_like_cpp m map_id"
        "\<lparr>init_map_id = map_id, init_pools = [], init_errors = []\<rparr>" roll_for choice r]
    by (auto simp: InitPoolsRequest init_pools_for_map_plan_like_cpp_def Let_def)
qed

end
