(* ===== verification/PoolLoader.thy ===== *)
theory PoolLoader
  imports PoolRuns
begin

text \<open>
  Loading the pool manager at startup (\<open>crates/world-server/src/spawn_store_loader/pool_loader.rs\<close>)
  from the rows of \<open>pool_template\<close> and \<open>pool_members\<close>
  (\<open>crates/wow-database/src/catalogs/canonical_spawn_adapter.rs\<close>): rows that name no template, no
  spawn or another map are skipped, relations that close a cycle or join two maps are removed, and
  the pools that are not children are registered for their map.

  The counters of the reports are \<open>usize\<close>, kept as natural numbers.  Of the spawn store the
  loader reads the map of a spawn.  Iteration over the templates is in an order given by
  \<open>key_order\<close>.  A value \<open>None\<close> stands for a panic or for a run that never returns.
\<close>

section \<open>Rows and reports\<close>

record PoolTemplateRowLikeCpp =
  row_entry :: u32
  row_max_limit :: u32

record PoolMemberRowLikeCpp =
  row_spawn_id :: u64
  row_pool_spawn_id :: u32
  row_chance :: f32

record PoolAutospawnCandidateRowLikeCpp =
  candidate_pool_entry :: u32
  candidate_child_pool_id :: u64
  candidate_mother_pool_id :: u32

record PoolMemberLoadReportLikeCpp =
  rows_seen :: nat
  rows_loaded :: nat
  skipped_missing_spawn :: nat
  skipped_missing_template :: nat
  skipped_invalid_chance :: nat
  skipped_map_mismatch :: nat
  skipped_child_id_overflow :: nat

record PoolMgrLoadReportLikeCpp =
  template_rows :: nat
  templates_loaded :: nat
  creature_members :: PoolMemberLoadReportLikeCpp
  gameobject_members :: PoolMemberLoadReportLikeCpp
  pool_pool_members :: PoolMemberLoadReportLikeCpp
  relation_removals :: nat
  map_mismatches :: nat
  circular_relations :: nat
  empty_pools :: nat
  missing_map_after_non_empty :: nat
  autospawn_rows :: nat
  autospawn_loaded :: nat
  autospawn_skipped_empty :: nat
  autospawn_skipped_broken :: nat
  autospawn_skipped_child :: nat

type_synonym loading = "PoolMgrLikeCpp \<times> PoolMgrLoadReportLikeCpp"

definition count_member ::
  "PoolMemberKindLikeCpp \<Rightarrow> (PoolMemberLoadReportLikeCpp \<Rightarrow> PoolMemberLoadReportLikeCpp)
     \<Rightarrow> PoolMgrLoadReportLikeCpp \<Rightarrow> PoolMgrLoadReportLikeCpp" where
  "count_member kind f report =
     (case kind of
        PoolCreature \<Rightarrow> report\<lparr>creature_members := f (creature_members report)\<rparr>
      | PoolGameObject \<Rightarrow> report\<lparr>gameobject_members := f (gameobject_members report)\<rparr>
      | PoolPool \<Rightarrow> report\<lparr>pool_pool_members := f (pool_pool_members report)\<rparr>)"

text \<open>The map of each spawn in the store, by type and identifier.\<close>

type_synonym spawn_maps = "SpawnObjectType \<Rightarrow> SpawnId \<Rightarrow> u32 option"

definition valid_chance :: "f32 \<Rightarrow> bool" where
  "valid_chance x = (f32_le 0 x \<and> f32_le x f32_hundred)"

section \<open>Applying rows\<close>

definition apply_pool_template_row_like_cpp :: "PoolTemplateRowLikeCpp \<Rightarrow> loading \<Rightarrow> loading" where
  "apply_pool_template_row_like_cpp row = (\<lambda>(m, report).
     (insert_template_like_cpp (row_entry row) \<lparr>max_limit = row_max_limit row, template_map_id = - 1\<rparr> m,
      report\<lparr>template_rows := template_rows report + 1, templates_loaded := templates_loaded report + 1\<rparr>))"

definition put_group :: "PoolMemberKindLikeCpp \<Rightarrow> u32 \<Rightarrow> PoolGroupLikeCpp \<Rightarrow> PoolMgrLikeCpp \<Rightarrow> PoolMgrLikeCpp" where
  "put_group kind p g m =
     (case kind of PoolCreature \<Rightarrow> m\<lparr>creature_groups := hm_insert p g (creature_groups m)\<rparr>
      | PoolGameObject \<Rightarrow> m\<lparr>gameobject_groups := hm_insert p g (gameobject_groups m)\<rparr>
      | PoolPool \<Rightarrow> m\<lparr>pool_groups := hm_insert p g (pool_groups m)\<rparr>)"

text \<open>The entry of the group, created when missing, its identifier set and the object added.\<close>

definition add_to_group ::
  "PoolMemberKindLikeCpp \<Rightarrow> u32 \<Rightarrow> PoolObjectLikeCpp \<Rightarrow> u32 \<Rightarrow> PoolMgrLikeCpp \<Rightarrow> PoolMgrLikeCpp" where
  "add_to_group kind p x limit m =
     put_group kind p (add_entry_like_cpp x limit (set_pool_id_like_cpp p
       (case group_like_cpp m kind p of None \<Rightarrow> with_pool_id kind p | Some g \<Rightarrow> g))) m"

definition spawn_member_type :: "PoolMemberKindLikeCpp \<Rightarrow> SpawnObjectType option" where
  "spawn_member_type kind =
     (case kind of PoolCreature \<Rightarrow> Some SpawnCreature | PoolGameObject \<Rightarrow> Some SpawnGameObject | PoolPool \<Rightarrow> None)"

text \<open>Rows of child pools never come here: the code panics as \<open>unreachable!\<close>.\<close>

definition apply_pool_spawn_member_row_like_cpp ::
  "PoolMemberRowLikeCpp \<Rightarrow> spawn_maps \<Rightarrow> PoolMemberKindLikeCpp \<Rightarrow> loading \<Rightarrow> loading option" where
  "apply_pool_spawn_member_row_like_cpp row store kind = (\<lambda>(m, report0).
     map_option (\<lambda>spawn_type.
       (let report = count_member kind (rows_seen_update Suc) report0; p = row_pool_spawn_id row in
        case store spawn_type (row_spawn_id row) of
          None \<Rightarrow> (m, count_member kind (skipped_missing_spawn_update Suc) report)
        | Some spawn_map \<Rightarrow>
          (case hm_get (templates m) p of
             None \<Rightarrow> (m, count_member kind (skipped_missing_template_update Suc) report)
           | Some t \<Rightarrow>
             (if \<not> valid_chance (row_chance row)
              then (m, count_member kind (skipped_invalid_chance_update Suc) report)
              else if uint spawn_map \<ge> 2 ^ 31
              then (m, count_member kind (skipped_map_mismatch_update Suc) report)
              else (let t1 = (if template_map_id t = - 1 then t\<lparr>template_map_id := spawn_map\<rparr> else t);
                        m1 = m\<lparr>templates := hm_insert p t1 (templates m)\<rparr>
                    in if template_map_id t1 \<noteq> spawn_map
                       then (m1, count_member kind (skipped_map_mismatch_update Suc) report)
                       else (let m2 = add_to_group kind p \<lparr>pool_guid = row_spawn_id row, pool_chance = row_chance row\<rparr>
                                        (max_limit t1) m1
                             in (snd (register_spawn_pool_relation_like_cpp kind (row_spawn_id row) p m2),
                                 count_member kind (rows_loaded_update Suc) report)))))))
       (spawn_member_type kind))"

definition apply_pool_pool_member_row_like_cpp :: "PoolMemberRowLikeCpp \<Rightarrow> loading \<Rightarrow> loading" where
  "apply_pool_pool_member_row_like_cpp row = (\<lambda>(m, report0).
     (let report = count_member PoolPool (rows_seen_update Suc) report0; p = row_pool_spawn_id row in
      case try_u32 (row_spawn_id row) of
        None \<Rightarrow> (m, count_member PoolPool (skipped_child_id_overflow_update Suc) report)
      | Some child \<Rightarrow>
        (if \<not> hm_contains_key (templates m) p
         then (m, count_member PoolPool (skipped_missing_template_update Suc) report)
         else if \<not> hm_contains_key (templates m) child
         then (m, count_member PoolPool (skipped_missing_spawn_update Suc) report)
         else if p = child
         then (m, count_member PoolPool (skipped_missing_spawn_update Suc)
                    (report\<lparr>circular_relations := circular_relations report + 1\<rparr>))
         else if \<not> valid_chance (row_chance row)
         then (m, count_member PoolPool (skipped_invalid_chance_update Suc) report)
         else (let limit = (case hm_get (templates m) p of None \<Rightarrow> 0 | Some t \<Rightarrow> max_limit t);
                   m1 = add_to_group PoolPool p \<lparr>pool_guid = ucast child, pool_chance = row_chance row\<rparr> limit m
               in (snd (register_child_pool_relation_like_cpp (ucast child) p m1),
                   count_member PoolPool (rows_loaded_update Suc) report)))))"

fun load_pool_member_rows_like_cpp ::
  "PoolMemberRowLikeCpp list \<Rightarrow> spawn_maps \<Rightarrow> PoolMemberKindLikeCpp \<Rightarrow> loading \<Rightarrow> loading option" where
  "load_pool_member_rows_like_cpp [] store kind l = Some l"
| "load_pool_member_rows_like_cpp (row # rows) store kind l =
     Option.bind (if kind = PoolPool then Some (apply_pool_pool_member_row_like_cpp row l)
                  else apply_pool_spawn_member_row_like_cpp row store kind l)
       (load_pool_member_rows_like_cpp rows store kind)"

section \<open>Maps of parents and cycles\<close>

text \<open>The child's map becomes the parent's, if that has none yet; the answer is whether they differ.\<close>

definition adopt_child_map :: "i32 \<Rightarrow> u32 \<Rightarrow> PoolMgrLikeCpp \<Rightarrow> bool \<times> PoolMgrLikeCpp" where
  "adopt_child_map child_map parent m =
     (if child_map = - 1 then (False, m)
      else case hm_get (templates m) parent of
        None \<Rightarrow> (False, m)
      | Some t \<Rightarrow>
          (let t1 = (if template_map_id t = - 1 then t\<lparr>template_map_id := child_map\<rparr> else t)
           in (template_map_id t1 \<noteq> child_map, m\<lparr>templates := hm_insert parent t1 (templates m)\<rparr>)))"

definition count_removal :: "PoolMgrLoadReportLikeCpp \<Rightarrow> PoolMgrLoadReportLikeCpp" where
  "count_removal report = report\<lparr>relation_removals := relation_removals report + 1,
     pool_pool_members := (pool_pool_members report)\<lparr>rows_loaded := rows_loaded (pool_pool_members report) - 1\<rparr>\<rparr>"

partial_function (option) propagate_map :: "u32 \<Rightarrow> u32 list \<Rightarrow> loading \<Rightarrow> loading option" where
  "propagate_map current checked l =
     (let m = fst l; report = snd l in
      case hm_get (child_pool_to_parent m) current of
        None \<Rightarrow> Some (m, report)
      | Some parent \<Rightarrow>
        (let child_map = (case hm_get (templates m) current of None \<Rightarrow> - 1 | Some t \<Rightarrow> template_map_id t);
             adopted = adopt_child_map child_map parent m; m1 = snd adopted
         in if fst adopted
            then Some (snd (remove_child_pool_relation_like_cpp current parent m1),
                       count_removal (report\<lparr>map_mismatches := map_mismatches report + 1\<rparr>))
            else if parent \<in> set (List.insert current checked)
            then Some (snd (remove_child_pool_relation_like_cpp current parent m1),
                       count_removal (report\<lparr>circular_relations := circular_relations report + 1\<rparr>))
            else propagate_map parent (List.insert current checked) (m1, report)))"

declare propagate_map.simps [code]

fun propagate_maps :: "u32 list \<Rightarrow> loading \<Rightarrow> loading option" where
  "propagate_maps [] l = Some l"
| "propagate_maps (p # ps) l = Option.bind (propagate_map p [] l) (propagate_maps ps)"

definition apply_pool_map_propagation_like_cpp :: "(u32 list \<Rightarrow> u32 list) \<Rightarrow> loading \<Rightarrow> loading option" where
  "apply_pool_map_propagation_like_cpp key_order l = propagate_maps (key_order (map fst (templates (fst l)))) l"

section \<open>Validation and automatic spawning\<close>

fun validate_pools ::
  "PoolMgrLikeCpp \<Rightarrow> (u32 \<times> PoolTemplateDataLikeCpp) list \<Rightarrow> PoolMgrLoadReportLikeCpp \<Rightarrow> PoolMgrLoadReportLikeCpp option" where
  "validate_pools m [] report = Some report"
| "validate_pools m ((p, t) # ts) report =
     Option.bind (is_empty_like_cpp m p) (\<lambda>vacant. validate_pools m ts
       (if vacant then report\<lparr>empty_pools := empty_pools report + 1\<rparr>
        else if template_map_id t = - 1
        then report\<lparr>missing_map_after_non_empty := missing_map_after_non_empty report + 1\<rparr>
        else report))"

definition apply_pool_final_validation_like_cpp :: "loading \<Rightarrow> loading option" where
  "apply_pool_final_validation_like_cpp = (\<lambda>(m, report). map_option (Pair m) (validate_pools m (templates m) report))"

definition apply_pool_autospawn_candidate_row_like_cpp ::
  "PoolAutospawnCandidateRowLikeCpp \<Rightarrow> loading \<Rightarrow> loading option" where
  "apply_pool_autospawn_candidate_row_like_cpp row = (\<lambda>(m, report0).
     (let report = report0\<lparr>autospawn_rows := autospawn_rows report0 + 1\<rparr>; p = candidate_pool_entry row in
      map_option (\<lambda>vacant.
        if vacant then (m, report\<lparr>autospawn_skipped_empty := autospawn_skipped_empty report + 1\<rparr>)
        else if \<not> check_pool_like_cpp m p
        then (m, report\<lparr>autospawn_skipped_broken := autospawn_skipped_broken report + 1\<rparr>)
        else if candidate_child_pool_id row \<noteq> 0
        then (m, report\<lparr>autospawn_skipped_child := autospawn_skipped_child report + 1\<rparr>)
        else case hm_get (templates m) p of
            None \<Rightarrow> (m, report)
          | Some t \<Rightarrow> (add_auto_spawn_pool_like_cpp (template_map_id t) p m,
                       report\<lparr>autospawn_loaded := autospawn_loaded report + 1\<rparr>))
        (is_empty_like_cpp m p)))"

fun apply_autospawn_rows :: "PoolAutospawnCandidateRowLikeCpp list \<Rightarrow> loading \<Rightarrow> loading option" where
  "apply_autospawn_rows [] l = Some l"
| "apply_autospawn_rows (row # rows) l =
     Option.bind (apply_pool_autospawn_candidate_row_like_cpp row l) (apply_autospawn_rows rows)"

section \<open>Loading\<close>

datatype 'a CanonicalSpawnCatalogLoadOutcomeLikeCpp = CatalogLoaded 'a | CatalogFailed string

text \<open>The answers of the persistence port.\<close>

record PoolCatalog =
  pool_template_catalog :: "PoolTemplateRowLikeCpp list CanonicalSpawnCatalogLoadOutcomeLikeCpp"
  pool_member_catalog :: "PoolMemberKindLikeCpp \<Rightarrow> PoolMemberRowLikeCpp list CanonicalSpawnCatalogLoadOutcomeLikeCpp"
  pool_autospawn_catalog :: "PoolAutospawnCandidateRowLikeCpp list CanonicalSpawnCatalogLoadOutcomeLikeCpp"

type_synonym load_result = "((string + PoolMgrLikeCpp) \<times> PoolMgrLoadReportLikeCpp) option"

fun load_member_kinds ::
  "PoolCatalog \<Rightarrow> spawn_maps \<Rightarrow> PoolMemberKindLikeCpp list \<Rightarrow> loading \<Rightarrow> load_result" where
  "load_member_kinds port store [] l = Some (Inr (fst l), snd l)"
| "load_member_kinds port store (kind # kinds) l =
     (case pool_member_catalog port kind of
        CatalogFailed reason \<Rightarrow> Some (Inl (''canonical pool member catalog failed: '' @ reason), snd l)
      | CatalogLoaded rows \<Rightarrow>
          Option.bind (load_pool_member_rows_like_cpp rows store kind l) (load_member_kinds port store kinds))"

definition load_pool_autospawn_candidates_like_cpp :: "PoolCatalog \<Rightarrow> loading \<Rightarrow> load_result" where
  "load_pool_autospawn_candidates_like_cpp port l =
     (case pool_autospawn_catalog port of
        CatalogFailed reason \<Rightarrow> Some (Inl (''canonical pool autospawn catalog failed: '' @ reason), snd l)
      | CatalogLoaded rows \<Rightarrow> map_option (\<lambda>(m, report). (Inr m, report)) (apply_autospawn_rows rows l))"

definition load_pool_mgr_like_cpp ::
  "(u32 list \<Rightarrow> u32 list) \<Rightarrow> PoolCatalog \<Rightarrow> spawn_maps \<Rightarrow> PoolMgrLoadReportLikeCpp \<Rightarrow> load_result" where
  "load_pool_mgr_like_cpp key_order port store report =
     (case pool_template_catalog port of
        CatalogFailed reason \<Rightarrow> Some (Inl (''canonical pool template catalog failed: '' @ reason), report)
      | CatalogLoaded rows \<Rightarrow>
          (if rows = [] then Some (Inr pool_mgr_new, report)
           else Option.bind (load_member_kinds port store [PoolCreature, PoolGameObject, PoolPool]
                  (foldl (\<lambda>l row. apply_pool_template_row_like_cpp row l) (pool_mgr_new, report) rows))
             (\<lambda>(loaded, report1). case loaded of
                Inl e \<Rightarrow> Some (Inl e, report1)
              | Inr m \<Rightarrow>
                  Option.bind (apply_pool_map_propagation_like_cpp key_order (m, report1)) (\<lambda>l1.
                    Option.bind (apply_pool_final_validation_like_cpp l1)
                      (load_pool_autospawn_candidates_like_cpp port)))))"

section \<open>The tables\<close>

text \<open>
  The tables of the world database and the answers of their queries: the members of a kind, and
  the templates outside game events, each with the row that makes it a child.
\<close>

record PoolTables =
  template_table :: "PoolTemplateRowLikeCpp list"
  member_table :: "(PoolMemberKindLikeCpp \<times> PoolMemberRowLikeCpp) list"
  event_pool_table :: "u32 list"

definition select_pool_members :: "PoolTables \<Rightarrow> PoolMemberKindLikeCpp \<Rightarrow> PoolMemberRowLikeCpp list" where
  "select_pool_members db kind = map snd (filter (\<lambda>(k, row). k = kind) (member_table db))"

text \<open>The row that makes the template a child: \<open>NULL\<close> columns read as zero.\<close>

definition autospawn_candidate :: "PoolTables \<Rightarrow> PoolTemplateRowLikeCpp \<Rightarrow> PoolAutospawnCandidateRowLikeCpp" where
  "autospawn_candidate db t =
     (case find (\<lambda>row. row_spawn_id row = ucast (row_entry t)) (select_pool_members db PoolPool) of
        None \<Rightarrow> \<lparr>candidate_pool_entry = row_entry t, candidate_child_pool_id = 0, candidate_mother_pool_id = 0\<rparr>
      | Some row \<Rightarrow> \<lparr>candidate_pool_entry = row_entry t, candidate_child_pool_id = row_spawn_id row,
                      candidate_mother_pool_id = row_pool_spawn_id row\<rparr>)"

definition select_pool_autospawn_candidates :: "PoolTables \<Rightarrow> PoolAutospawnCandidateRowLikeCpp list" where
  "select_pool_autospawn_candidates db =
     map (autospawn_candidate db) (filter (\<lambda>t. row_entry t \<notin> set (event_pool_table db)) (template_table db))"

definition pool_catalog_of :: "PoolTables \<Rightarrow> PoolCatalog" where
  "pool_catalog_of db =
     \<lparr>pool_template_catalog = CatalogLoaded (template_table db),
      pool_member_catalog = (\<lambda>kind. CatalogLoaded (select_pool_members db kind)),
      pool_autospawn_catalog = CatalogLoaded (select_pool_autospawn_candidates db)\<rparr>"

end
