(* ===== verification/PoolLoading.thy ===== *)
theory PoolLoading
  imports PoolLoader "HOL-Library.Multiset"
begin

text \<open>
  What loading builds: from tables whose primary keys hold, a manager that is well formed, whose
  relation of child pools has no cycle, and which spawns only pools without a parent by itself.
\<close>

section \<open>What holds while rows are applied\<close>

definition groups_ok :: "PoolMgrLikeCpp \<Rightarrow> bool" where
  "groups_ok m \<longleftrightarrow>
     (\<forall>kind p g. group_like_cpp m kind p = Some g \<longrightarrow> group_pool_id g = p \<and> member_kind g = kind) \<and>
     (\<forall>kind p. distinct (pool_members m kind p)) \<and>
     (\<forall>kind p q i. i \<in> set (pool_members m kind p) \<longrightarrow> i \<in> set (pool_members m kind q) \<longrightarrow> p = q) \<and>
     (\<forall>p. \<forall>i \<in> set (pool_members m PoolPool p). try_u32 i \<noteq> None) \<and>
     (\<forall>kind p. pool_members m kind p \<noteq> [] \<longrightarrow> hm_get (templates m) p \<noteq> None)"

text \<open>The parents are those of the groups, and children have templates too.\<close>

definition parents_ok :: "PoolMgrLikeCpp \<Rightarrow> bool" where
  "parents_ok m \<longleftrightarrow>
     (\<forall>c p. hm_get (child_pool_to_parent m) c = Some p \<longleftrightarrow> (c, p) \<in> child_rel m) \<and>
     (\<forall>c p. (c, p) \<in> child_rel m \<longrightarrow> hm_get (templates m) c \<noteq> None)"

definition seen_within :: "PoolMgrLikeCpp \<Rightarrow> (PoolMemberKindLikeCpp \<Rightarrow> u64 set) \<Rightarrow> nat \<Rightarrow> bool" where
  "seen_within m seen n \<longleftrightarrow>
     (\<forall>kind p. set (pool_members m kind p) \<subseteq> seen kind) \<and> (\<forall>p. member_count m p \<le> n)"

definition loading_ok :: "PoolMgrLikeCpp \<Rightarrow> (PoolMemberKindLikeCpp \<Rightarrow> u64 set) \<Rightarrow> nat \<Rightarrow> bool" where
  "loading_ok m seen n \<longleftrightarrow> groups_ok m \<and> parents_ok m \<and> seen_within m seen n \<and>
     auto_spawn_pools_per_map m = []"

lemma groups_okD:
  assumes "groups_ok m"
  shows "group_like_cpp m kind p = Some g \<Longrightarrow> group_pool_id g = p \<and> member_kind g = kind"
    "distinct (pool_members m kind p)"
    "i \<in> set (pool_members m kind p) \<Longrightarrow> i \<in> set (pool_members m kind q) \<Longrightarrow> p = q"
    "i \<in> set (pool_members m PoolPool p) \<Longrightarrow> try_u32 i \<noteq> None"
    "pool_members m kind p \<noteq> [] \<Longrightarrow> hm_get (templates m) p \<noteq> None"
  using assms unfolding groups_ok_def by blast+

lemma groups_okI:
  assumes "\<And>kind p g. group_like_cpp m kind p = Some g \<Longrightarrow> group_pool_id g = p \<and> member_kind g = kind"
    and "\<And>kind p. distinct (pool_members m kind p)"
    and "\<And>kind p q i. i \<in> set (pool_members m kind p) \<Longrightarrow> i \<in> set (pool_members m kind q) \<Longrightarrow> p = q"
    and "\<And>p i. i \<in> set (pool_members m PoolPool p) \<Longrightarrow> try_u32 i \<noteq> None"
    and "\<And>kind p. pool_members m kind p \<noteq> [] \<Longrightarrow> hm_get (templates m) p \<noteq> None"
  shows "groups_ok m"
  using assms unfolding groups_ok_def by blast

subsection \<open>Templates\<close>

lemma group_templates [simp]: "group_like_cpp (m\<lparr>templates := ts\<rparr>) kind p = group_like_cpp m kind p"
  by (simp add: group_like_cpp_def split: PoolMemberKindLikeCpp.split)

lemma members_templates [simp]: "pool_members (m\<lparr>templates := ts\<rparr>) = pool_members m"
  by (intro ext) (simp add: pool_members_def)

lemma child_rel_templates [simp]: "child_rel (m\<lparr>templates := ts\<rparr>) = child_rel m"
  by (simp add: child_rel_def)

lemma member_count_templates [simp]: "member_count (m\<lparr>templates := ts\<rparr>) = member_count m"
  by (intro ext) (simp add: member_count_def)

lemma loading_ok_template:
  "loading_ok m seen n \<Longrightarrow> loading_ok (m\<lparr>templates := hm_insert p t (templates m)\<rparr>) seen n"
  by (simp add: loading_ok_def groups_ok_def parents_ok_def seen_within_def update_conv')

subsection \<open>One member more\<close>

lemma group_put [simp]: "group_like_cpp (put_group kind p g m) k q = (if k = kind \<and> q = p then Some g else group_like_cpp m k q)"
  by (cases k; cases kind) (simp_all add: group_like_cpp_def put_group_def update_conv')

lemma put_fields [simp]: "templates (put_group kind p g m) = templates m"
    "child_pool_to_parent (put_group kind p g m) = child_pool_to_parent m"
    "auto_spawn_pools_per_map (put_group kind p g m) = auto_spawn_pools_per_map m"
  by (simp_all add: put_group_def split: PoolMemberKindLikeCpp.split)

lemma members_add:
  "mset (pool_members (add_to_group kind p x limit m) k q) =
     mset (pool_members m k q) + (if k = kind \<and> q = p then {#pool_guid x#} else {#})"
  by (auto simp: pool_members_def add_to_group_def add_entry_like_cpp_def set_pool_id_like_cpp_def with_pool_id_def
      split: option.split)

lemma members_add_set:
  "set (pool_members (add_to_group kind p x limit m) k q) =
     set (pool_members m k q) \<union> (if k = kind \<and> q = p then {pool_guid x} else {})"
  using arg_cong [OF members_add [of kind p x limit m k q], of set_mset] by (simp split: if_splits)

lemma member_add_iff:
  "i \<in> set (pool_members (add_to_group kind p x limit m) k q) \<longleftrightarrow>
     i \<in> set (pool_members m k q) \<or> k = kind \<and> q = p \<and> i = pool_guid x"
  by (auto simp: members_add_set)

lemma members_add_length:
  "length (pool_members (add_to_group kind p x limit m) k q) =
     length (pool_members m k q) + (if k = kind \<and> q = p then 1 else 0)"
  using arg_cong [OF members_add [of kind p x limit m k q], of size] by (simp split: if_splits)

lemma members_add_distinct:
  "distinct (pool_members m k q) \<Longrightarrow> k = kind \<and> q = p \<longrightarrow> pool_guid x \<notin> set (pool_members m k q) \<Longrightarrow>
   distinct (pool_members (add_to_group kind p x limit m) k q)"
  using members_add [of kind p x limit m k q]
  by (cases "k = kind \<and> q = p") (simp_all add: distinct_count_atmost_1 flip: count_mset set_mset_mset)

lemma groups_ok_add:
  assumes ok: "groups_ok m" and new: "\<And>q. pool_guid x \<notin> set (pool_members m kind q)"
    and fits: "kind = PoolPool \<Longrightarrow> try_u32 (pool_guid x) \<noteq> None" and t: "hm_get (templates m) p \<noteq> None"
  shows "groups_ok (add_to_group kind p x limit m)"
proof (rule groups_okI)
  show "group_pool_id g = q \<and> member_kind g = k" if "group_like_cpp (add_to_group kind p x limit m) k q = Some g" for k q g
    using that groups_okD(1) [OF ok]
    by (auto simp: add_to_group_def add_entry_like_cpp_def set_pool_id_like_cpp_def with_pool_id_def
        split: if_splits option.splits)
  show "distinct (pool_members (add_to_group kind p x limit m) k q)" for k q
    by (rule members_add_distinct) (use groups_okD(2) [OF ok] new in simp_all)
  show "q = r" if "i \<in> set (pool_members (add_to_group kind p x limit m) k q)"
      "i \<in> set (pool_members (add_to_group kind p x limit m) k r)" for k q r i
  proof (cases "k = kind \<and> i = pool_guid x")
    case True
    then have "q = p" "r = p" using that new by (simp_all add: member_add_iff)
    then show ?thesis by simp
  next
    case False
    then have "i \<in> set (pool_members m k q)" "i \<in> set (pool_members m k r)" using that by (auto simp: member_add_iff)
    then show ?thesis by (rule groups_okD(3) [OF ok])
  qed
  show "try_u32 i \<noteq> None" if "i \<in> set (pool_members (add_to_group kind p x limit m) PoolPool q)" for q i
  proof (cases "kind = PoolPool \<and> i = pool_guid x")
    case False
    then show ?thesis using groups_okD(4) [OF ok, of i q] that by (auto simp: member_add_iff)
  qed (use fits in simp)
  show "hm_get (templates (add_to_group kind p x limit m)) q \<noteq> None"
    if "pool_members (add_to_group kind p x limit m) k q \<noteq> []" for k q
  proof (cases "k = kind \<and> q = p")
    case False
    then have "length (pool_members (add_to_group kind p x limit m) k q) = length (pool_members m k q)"
      unfolding members_add_length by auto
    then have "pool_members m k q \<noteq> []" using that by auto
    then show ?thesis using groups_okD(5) [OF ok] by (simp add: add_to_group_def)
  qed (use t in \<open>simp add: add_to_group_def\<close>)
qed

subsection \<open>Registering\<close>

lemma register_fields [simp]:
  "group_like_cpp (snd (register_spawn_pool_relation_like_cpp kind i p m)) = group_like_cpp m"
  "templates (snd (register_spawn_pool_relation_like_cpp kind i p m)) = templates m"
  "group_like_cpp (snd (register_child_pool_relation_like_cpp i p m)) = group_like_cpp m"
  "templates (snd (register_child_pool_relation_like_cpp i p m)) = templates m"
  "auto_spawn_pools_per_map (snd (register_spawn_pool_relation_like_cpp kind i p m)) = auto_spawn_pools_per_map m"
  "auto_spawn_pools_per_map (snd (register_child_pool_relation_like_cpp i p m)) = auto_spawn_pools_per_map m"
  by (auto simp: register_spawn_pool_relation_like_cpp_def register_child_pool_relation_like_cpp_def
      group_like_cpp_def fun_eq_iff split: PoolMemberKindLikeCpp.split option.split)

lemma register_members [simp]:
  "pool_members (snd (register_spawn_pool_relation_like_cpp kind i p m)) = pool_members m"
  "pool_members (snd (register_child_pool_relation_like_cpp i p m)) = pool_members m"
  by (simp_all add: fun_eq_iff pool_members_def)

lemma groups_ok_same:
  assumes "group_like_cpp m' = group_like_cpp m" "templates m' = templates m"
  shows "groups_ok m' = groups_ok m"
proof -
  have "pool_members m' = pool_members m" using assms(1) by (simp add: fun_eq_iff pool_members_def)
  then show ?thesis using assms by (simp add: groups_ok_def)
qed

lemma seen_within_add:
  assumes "seen_within m seen n"
  shows "seen_within (add_to_group kind p x limit m) (seen(kind := insert (pool_guid x) (seen kind))) (Suc n)"
proof -
  have "member_count (add_to_group kind p x limit m) q \<le> Suc (member_count m q)" for q
    by (cases kind) (simp_all add: member_count_def members_add_length)
  then have "member_count (add_to_group kind p x limit m) q \<le> Suc n" for q
    using assms le_trans unfolding seen_within_def by (meson Suc_le_mono)
  then show ?thesis using assms by (fastforce simp: seen_within_def member_add_iff)
qed

lemma seen_within_mono:
  "seen_within m seen n \<Longrightarrow> (\<And>k. seen k \<subseteq> seen' k) \<Longrightarrow> n \<le> n' \<Longrightarrow> seen_within m seen' n'"
  unfolding seen_within_def using order_trans by blast

lemma loading_ok_mono:
  "loading_ok m seen n \<Longrightarrow> (\<And>k. seen k \<subseteq> seen' k) \<Longrightarrow> n \<le> n' \<Longrightarrow> loading_ok m seen' n'"
  unfolding loading_ok_def using seen_within_mono by blast

lemma child_rel_cong: "pool_members m' PoolPool = pool_members m PoolPool \<Longrightarrow> child_rel m' = child_rel m"
  by (simp add: child_rel_def)

subsection \<open>Rows\<close>

lemma try_u32_ucast: "try_u32 i = Some c \<Longrightarrow> ucast c = i"
  by (auto simp: try_u32_unat unsigned_ucast_eq take_bit_nat_eq_self word_unat_eq_iff split: if_splits)

lemma try_u32_of_ucast: "try_u32 (ucast (c :: u32)) = Some c"
proof -
  have c: "unat c < 2 ^ LENGTH(32)" by (rule unsigned_less)
  then have "unat c < 2 ^ 64" by simp
  then have "unat (ucast c :: u64) = unat c" by (simp add: unsigned_ucast_eq take_bit_nat_eq_self)
  moreover have "(ucast (ucast c :: u64) :: u32) = c" by (rule bit_word_eqI) (simp add: bit_simps)
  ultimately show ?thesis using c by (simp add: try_u32_unat)
qed

lemma put_parent [simp]: "child_pool_to_parent (add_to_group kind p x limit m) = child_pool_to_parent m"
    "templates (add_to_group kind p x limit m) = templates m"
    "auto_spawn_pools_per_map (add_to_group kind p x limit m) = auto_spawn_pools_per_map m"
  by (simp_all add: add_to_group_def)

lemma new_member: "loading_ok m seen n \<Longrightarrow> i \<notin> seen kind \<Longrightarrow> i \<notin> set (pool_members m kind q)"
  by (auto simp: loading_ok_def seen_within_def)

lemma spawn_member_ok:
  assumes ok: "loading_ok m seen n" and new: "pool_guid x \<notin> seen kind" and kind: "kind \<noteq> PoolPool"
    and t: "hm_get (templates m) p \<noteq> None"
  shows "loading_ok (snd (register_spawn_pool_relation_like_cpp kind i p (add_to_group kind p x limit m)))
    (seen(kind := insert (pool_guid x) (seen kind))) (Suc n)"
proof -
  let ?m = "add_to_group kind p x limit m"
  let ?m' = "snd (register_spawn_pool_relation_like_cpp kind i p ?m)"
  have "child_pool_to_parent ?m' = child_pool_to_parent m"
    using kind by (cases kind) (simp_all add: register_spawn_pool_relation_like_cpp_def)
  moreover have "child_rel ?m' = child_rel m"
    using kind by (auto simp: child_rel_def member_add_iff)
  ultimately have "parents_ok ?m'" using ok by (simp add: loading_ok_def parents_ok_def)
  moreover have "groups_ok ?m'"
    unfolding groups_ok_same [OF register_fields(1,2)]
    by (rule groups_ok_add) (use ok new_member [OF ok new] kind t in \<open>simp_all add: loading_ok_def\<close>)
  moreover have "seen_within ?m' (seen(kind := insert (pool_guid x) (seen kind))) (Suc n)"
    using seen_within_add [of m seen n kind p x limit] ok by (simp add: loading_ok_def seen_within_def member_count_def)
  ultimately show ?thesis using ok by (simp add: loading_ok_def)
qed

lemma child_member_ok:
  assumes ok: "loading_ok m seen n" and new: "ucast c \<notin> seen PoolPool"
    and t: "hm_get (templates m) p \<noteq> None" "hm_get (templates m) c \<noteq> None"
  shows "loading_ok (snd (register_child_pool_relation_like_cpp (ucast c) p
      (add_to_group PoolPool p \<lparr>pool_guid = ucast c, pool_chance = chance\<rparr> limit m)))
    (seen(PoolPool := insert (ucast c) (seen PoolPool))) (Suc n)"
proof -
  let ?x = "\<lparr>pool_guid = ucast c, pool_chance = chance\<rparr>"
  let ?m = "add_to_group PoolPool p ?x limit m"
  let ?m' = "snd (register_child_pool_relation_like_cpp (ucast c) p ?m)"
  have rel: "(d, q) \<in> child_rel ?m' \<longleftrightarrow> (d, q) \<in> child_rel m \<or> d = c \<and> q = p" for d q
  proof
    assume "(d, q) \<in> child_rel ?m'"
    then show "(d, q) \<in> child_rel m \<or> d = c \<and> q = p"
      by (auto simp: child_rel_def member_add_iff try_u32_of_ucast)
  next
    have "ucast c \<in> set (pool_members ?m' PoolPool p)" by (simp add: member_add_iff)
    then have "(c, p) \<in> child_rel ?m'" unfolding child_rel_def using try_u32_of_ucast by blast
    moreover assume "(d, q) \<in> child_rel m \<or> d = c \<and> q = p"
    ultimately show "(d, q) \<in> child_rel ?m'" by (auto simp: child_rel_def member_add_iff)
  qed
  have fresh: "(c, q) \<notin> child_rel m" for q
    using new_member [OF ok new, of q] by (auto simp: child_rel_def dest: try_u32_ucast)
  have par: "hm_get (child_pool_to_parent ?m') d = (if d = c then Some p else hm_get (child_pool_to_parent m) d)" for d
    by (simp add: register_child_pool_relation_like_cpp_def try_u32_of_ucast update_conv')
  have "parents_ok ?m'"
    using ok fresh t by (auto simp: parents_ok_def rel par loading_ok_def)
  moreover have "groups_ok ?m'"
    unfolding groups_ok_same [OF register_fields(3,4)]
    by (rule groups_ok_add) (use ok new_member [OF ok new] t in \<open>simp_all add: loading_ok_def try_u32_of_ucast\<close>)
  moreover have "seen_within ?m' (seen(PoolPool := insert (ucast c) (seen PoolPool))) (Suc n)"
    using seen_within_add [of m seen n PoolPool p ?x limit] ok by (simp add: loading_ok_def seen_within_def member_count_def)
  ultimately show ?thesis using ok by (simp add: loading_ok_def)
qed

lemma skipped_ok: "loading_ok m seen n \<Longrightarrow> loading_ok m (seen(kind := insert i (seen kind))) (Suc n)"
  by (erule loading_ok_mono) auto

lemma spawn_row_ok:
  assumes ok: "loading_ok (fst l) seen n" and new: "row_spawn_id row \<notin> seen kind" and kind: "kind \<noteq> PoolPool"
  shows "\<exists>l'. apply_pool_spawn_member_row_like_cpp row store kind l = Some l' \<and>
    loading_ok (fst l') (seen(kind := insert (row_spawn_id row) (seen kind))) (Suc n)"
proof -
  obtain m report where l: "l = (m, report)" by (cases l)
  obtain ty where ty: "spawn_member_type kind = Some ty" using kind by (cases kind) (simp_all add: spawn_member_type_def)
  note skip = skipped_ok [OF ok, of kind "row_spawn_id row"]
  let ?p = "row_pool_spawn_id row"
  have add: "loading_ok (snd (register_spawn_pool_relation_like_cpp kind (row_spawn_id row) ?p
      (add_to_group kind ?p \<lparr>pool_guid = row_spawn_id row, pool_chance = row_chance row\<rparr> limit
        (m\<lparr>templates := hm_insert ?p t (templates m)\<rparr>)))) (seen(kind := insert (row_spawn_id row) (seen kind))) (Suc n)"
    for limit t
    by (rule spawn_member_ok [where x = "\<lparr>pool_guid = row_spawn_id row, pool_chance = row_chance row\<rparr>", simplified])
      (use loading_ok_template [OF ok [unfolded l fst_conv]] new kind in \<open>simp_all add: update_conv'\<close>)
  have "loading_ok (m\<lparr>templates := hm_insert ?p t (templates m)\<rparr>) (seen(kind := insert (row_spawn_id row) (seen kind))) (Suc n)" for t
    using loading_ok_template [OF skip [unfolded l fst_conv]] .
  then show ?thesis using skip add
    by (auto simp: apply_pool_spawn_member_row_like_cpp_def l ty Let_def split: option.split)
qed

lemma pool_row_ok:
  assumes ok: "loading_ok (fst l) seen n" and new: "row_spawn_id row \<notin> seen PoolPool"
  shows "loading_ok (fst (apply_pool_pool_member_row_like_cpp row l))
    (seen(PoolPool := insert (row_spawn_id row) (seen PoolPool))) (Suc n)"
proof -
  obtain m report where l: "l = (m, report)" by (cases l)
  note skip = skipped_ok [OF ok, of PoolPool "row_spawn_id row"]
  show ?thesis
  proof (cases "try_u32 (row_spawn_id row)")
    case (Some c)
    have i: "ucast c = row_spawn_id row" by (rule try_u32_ucast [OF Some])
    note add = child_member_ok [OF ok [unfolded l fst_conv], of c "row_pool_spawn_id row" "row_chance row", unfolded i]
    show ?thesis using skip add new Some
      by (auto simp: apply_pool_pool_member_row_like_cpp_def l Let_def i)
  qed (use skip in \<open>simp add: apply_pool_pool_member_row_like_cpp_def l Let_def\<close>)
qed

lemma rows_ok:
  assumes "loading_ok (fst l) seen n" and "distinct (map row_spawn_id rows)"
    and "row_spawn_id ` set rows \<inter> seen kind = {}"
  shows "\<exists>l'. load_pool_member_rows_like_cpp rows store kind l = Some l' \<and>
    loading_ok (fst l') (seen(kind := row_spawn_id ` set rows \<union> seen kind)) (n + length rows)"
  using assms
proof (induction rows arbitrary: l seen n)
  case (Cons row rows)
  let ?seen = "seen(kind := insert (row_spawn_id row) (seen kind))"
  have "\<exists>l1. (if kind = PoolPool then Some (apply_pool_pool_member_row_like_cpp row l)
      else apply_pool_spawn_member_row_like_cpp row store kind l) = Some l1 \<and> loading_ok (fst l1) ?seen (Suc n)"
    using pool_row_ok [OF Cons.prems(1), of row] spawn_row_ok [OF Cons.prems(1), of row kind store] Cons.prems(3)
    by (cases "kind = PoolPool") auto
  then obtain l1 where l1: "(if kind = PoolPool then Some (apply_pool_pool_member_row_like_cpp row l)
      else apply_pool_spawn_member_row_like_cpp row store kind l) = Some l1" "loading_ok (fst l1) ?seen (Suc n)" by blast
  have same: "?seen(kind := row_spawn_id ` set rows \<union> ?seen kind) =
      seen(kind := row_spawn_id ` set (row # rows) \<union> seen kind)" by simp
  have "\<exists>l'. load_pool_member_rows_like_cpp rows store kind l1 = Some l' \<and>
      loading_ok (fst l') (?seen(kind := row_spawn_id ` set rows \<union> ?seen kind)) (Suc n + length rows)"
    by (rule Cons.IH [OF l1(2)]) (use Cons.prems(2,3) in auto)
  then show ?case unfolding same by (simp only: load_pool_member_rows_like_cpp.simps l1(1) bind.bind_lunit) (simp add: fun_upd_def)
qed (simp add: fun_upd_idem)

section \<open>Removing a relation\<close>

lemma remove_first_map: "map pool_guid (remove_first_relation i xs) = remove1 i (map pool_guid xs)"
  by (induction xs) auto

lemma removal_fields [simp]: "templates (snd (remove_child_pool_relation_like_cpp c p m)) = templates m"
    "child_pool_to_parent (snd (remove_child_pool_relation_like_cpp c p m)) = hm_remove c (child_pool_to_parent m)"
    "auto_spawn_pools_per_map (snd (remove_child_pool_relation_like_cpp c p m)) = auto_spawn_pools_per_map m"
  by (simp_all add: remove_child_pool_relation_like_cpp_def split: option.split prod.split)

lemma removal_group:
  assumes "hm_get (pool_groups m) p = Some g" "member_kind g = PoolPool"
  shows "group_like_cpp (snd (remove_child_pool_relation_like_cpp c p m)) k q =
    (if k = PoolPool \<and> q = p then Some (g\<lparr>explicitly_chanced := remove_first_relation (ucast c) (explicitly_chanced g),
        equal_chanced := remove_first_relation (ucast c) (equal_chanced g)\<rparr>) else group_like_cpp m k q)"
  using assms
  by (cases k) (simp_all add: remove_child_pool_relation_like_cpp_def remove_one_relation_like_cpp_def Let_def
      group_like_cpp_def update_conv')

lemma removal_members:
  fixes c :: u32
  assumes ok: "groups_ok m" and g: "hm_get (pool_groups m) p = Some g"
  defines "m' \<equiv> snd (remove_child_pool_relation_like_cpp c p m)"
  shows "set (pool_members m' k q) = set (pool_members m k q) - (if k = PoolPool \<and> q = p then {ucast c} else {})"
    "distinct (pool_members m' k q)" "length (pool_members m' k q) \<le> length (pool_members m k q)"
proof -
  have gl: "group_like_cpp m PoolPool p = Some g" using g by (simp add: group_like_cpp_def)
  have kind: "member_kind g = PoolPool" using groups_okD(1) [OF ok gl] by simp
  have old: "pool_members m PoolPool p = map pool_guid (equal_chanced g) @ map pool_guid (explicitly_chanced g)"
    by (simp add: pool_members_def gl)
  have new: "pool_members m' k q = (if k = PoolPool \<and> q = p
      then remove1 (ucast c) (map pool_guid (equal_chanced g)) @ remove1 (ucast c) (map pool_guid (explicitly_chanced g))
      else pool_members m k q)"
    by (simp add: pool_members_def m'_def removal_group [OF g kind] remove_first_map)
  have "distinct (pool_members m PoolPool p)" by (rule groups_okD(2) [OF ok])
  then have d: "distinct (map pool_guid (equal_chanced g))" "distinct (map pool_guid (explicitly_chanced g))"
    "set (map pool_guid (equal_chanced g)) \<inter> set (map pool_guid (explicitly_chanced g)) = {}"
    unfolding old by simp_all
  show "set (pool_members m' k q) = set (pool_members m k q) - (if k = PoolPool \<and> q = p then {ucast c} else {})"
    using d(1,2) by (auto simp: new old)
  show "distinct (pool_members m' k q)"
    using d groups_okD(2) [OF ok, of k q] by (auto simp: new distinct_remove1)
  show "length (pool_members m' k q) \<le> length (pool_members m k q)"
    by (auto simp: new old length_remove1)
qed

lemma removal_ok:
  assumes ok: "loading_ok m seen n" and rel: "(c, p) \<in> child_rel m"
  defines "m' \<equiv> snd (remove_child_pool_relation_like_cpp c p m)"
  shows "loading_ok m' seen n \<and> child_rel m' = child_rel m - {(c, p)}"
proof -
  have gs: "groups_ok m" and ps: "parents_ok m" and sn: "seen_within m seen n" using ok by (simp_all add: loading_ok_def)
  have parent: "hm_get (child_pool_to_parent m) d = Some q \<longleftrightarrow> (d, q) \<in> child_rel m" for d q
    using ps by (simp add: parents_ok_def)
  obtain g where g: "hm_get (pool_groups m) p = Some g"
    using rel by (cases "hm_get (pool_groups m) p") (auto simp: child_rel_def pool_members_def group_like_cpp_def)
  note mem = removal_members [OF gs g, where c = c, folded m'_def]
  have sub: "set (pool_members m' k q) \<subseteq> set (pool_members m k q)" for k q unfolding mem(1) by blast
  have gl: "group_like_cpp m PoolPool p = Some g" using g by (simp add: group_like_cpp_def)
  have kind: "group_pool_id g = p" "member_kind g = PoolPool" using groups_okD(1) [OF gs gl] by simp_all
  have iff: "(d, q) \<in> child_rel m' \<longleftrightarrow> (d, q) \<in> child_rel m - {(c, p)}" for d q
  proof
    assume "(d, q) \<in> child_rel m'"
    then obtain i where i: "i \<in> set (pool_members m' PoolPool q)" "try_u32 i = Some d" by (auto simp: child_rel_def)
    then have "(d, q) \<in> child_rel m" using sub by (auto simp: child_rel_def)
    moreover have "(d, q) \<noteq> (c, p)" using i mem(1) [of PoolPool q] try_u32_ucast [OF i(2)] by auto
    ultimately show "(d, q) \<in> child_rel m - {(c, p)}" by blast
  next
    assume "(d, q) \<in> child_rel m - {(c, p)}"
    then have dq: "(d, q) \<in> child_rel m" "(d, q) \<noteq> (c, p)" by auto
    then obtain i where i: "i \<in> set (pool_members m PoolPool q)" "try_u32 i = Some d" by (auto simp: child_rel_def)
    have "i \<noteq> ucast c \<or> q \<noteq> p"
    proof (cases "d = c")
      case False
      then show ?thesis using i(2) try_u32_of_ucast [of c] by auto
    qed (use dq in simp)
    then have "i \<in> set (pool_members m' PoolPool q)" using i(1) by (auto simp: mem(1))
    then show "(d, q) \<in> child_rel m'" using i(2) by (auto simp: child_rel_def)
  qed
  then have cr: "child_rel m' = child_rel m - {(c, p)}" by auto
  have "groups_ok m'"
  proof (rule groups_okI)
    show "group_pool_id g' = q \<and> member_kind g' = k" if "group_like_cpp m' k q = Some g'" for k q g'
      using that groups_okD(1) [OF gs, of k q g'] kind
      by (auto simp: m'_def removal_group [OF g kind(2)] split: if_splits)
    show "hm_get (templates m') q \<noteq> None" if "pool_members m' k q \<noteq> []" for k q
    proof -
      have "pool_members m k q \<noteq> []" using that mem(3) [of k q] by auto
      then show ?thesis using groups_okD(5) [OF gs] by (simp add: m'_def)
    qed
  qed (use mem(2) sub groups_okD(3,4) [OF gs] in blast)+
  moreover have "parents_ok m'"
    unfolding parents_ok_def
  proof (intro conjI allI impI)
    have "q = p" if "(c, q) \<in> child_rel m" for q using that rel parent by (metis option.inject)
    then show "hm_get (child_pool_to_parent m') d = Some q \<longleftrightarrow> (d, q) \<in> child_rel m'" for d q
      unfolding cr by (cases "d = c") (auto simp: m'_def parent delete_conv')
    show "hm_get (templates m') d \<noteq> None" if "(d, q) \<in> child_rel m'" for d q
    proof -
      have "(d, q) \<in> child_rel m" using that by (simp add: cr)
      then show ?thesis using ps by (auto simp: parents_ok_def m'_def)
    qed
  qed
  moreover have "seen_within m' seen n"
  proof -
    have "member_count m' q \<le> member_count m q" for q by (simp add: member_count_def add_mono mem(3))
    then show ?thesis using sn sub by (meson order_trans seen_within_def)
  qed
  ultimately show ?thesis using cr ok by (simp add: loading_ok_def m'_def)
qed

section \<open>Cycles\<close>

text \<open>Following the parents of \<open>s\<close> leads to a pool without one.\<close>

definition settled :: "PoolMgrLikeCpp \<Rightarrow> u32 \<Rightarrow> bool" where
  "settled m s \<longleftrightarrow> (\<exists>y. (s, y) \<in> (child_rel m)\<^sup>* \<and> (\<forall>z. (y, z) \<notin> child_rel m))"

lemma functional_cycle:
  assumes func: "\<And>x y z. (x, y) \<in> R \<Longrightarrow> (x, z) \<in> R \<Longrightarrow> y = z" and s: "(s, s) \<in> R\<^sup>+" and y: "(s, y) \<in> R\<^sup>*"
  shows "\<exists>z. (y, z) \<in> R"
proof -
  have "(y, s) \<in> R\<^sup>+"
    using y
  proof (induction rule: rtrancl_induct)
    case (step y z)
    obtain y' where y': "(y, y') \<in> R" "(y', s) \<in> R\<^sup>*" using step.IH by (blast dest: tranclD)
    then have "(z, s) \<in> R\<^sup>*" using func [OF step.hyps(2) y'(1)] by simp
    then show ?case using s by (rule rtrancl_trancl_trancl)
  qed (rule s)
  then show ?thesis by (blast dest: tranclD)
qed

lemma loading_parent: "loading_ok m seen n \<Longrightarrow> hm_get (child_pool_to_parent m) c = Some p \<longleftrightarrow> (c, p) \<in> child_rel m"
  by (simp add: loading_ok_def parents_ok_def)

lemma loading_functional: "loading_ok m seen n \<Longrightarrow> (x, a) \<in> child_rel m \<Longrightarrow> (x, b) \<in> child_rel m \<Longrightarrow> a = b"
  by (simp flip: loading_parent)

lemma settled_acyclic:
  assumes ok: "loading_ok m seen n" and s: "settled m s"
  shows "(s, s) \<notin> (child_rel m)\<^sup>+"
proof
  assume cycle: "(s, s) \<in> (child_rel m)\<^sup>+"
  obtain y where y: "(s, y) \<in> (child_rel m)\<^sup>*" "\<forall>z. (y, z) \<notin> child_rel m" using s by (auto simp: settled_def)
  have "\<exists>z. (y, z) \<in> child_rel m"
    by (rule functional_cycle [OF _ cycle y(1)]) (rule loading_functional [OF ok])
  then show False using y(2) by blast
qed

lemma adopt_templates: "\<exists>ts. snd (adopt_child_map child_map p m) = m\<lparr>templates := ts\<rparr> \<and>
    (ts = templates m \<or> (\<exists>t. ts = hm_insert p t (templates m)))"
proof (cases "child_map = - 1 \<or> hm_get (templates m) p = None")
  case True
  then show ?thesis by (intro exI [of _ "templates m"]) (auto simp: adopt_child_map_def)
next
  case False
  then obtain t where "hm_get (templates m) p = Some t" by blast
  then show ?thesis using False by (auto simp: adopt_child_map_def Let_def)
qed

lemma adopt_ok:
  assumes "loading_ok m seen n"
  shows "loading_ok (snd (adopt_child_map child_map p m)) seen n \<and>
    child_rel (snd (adopt_child_map child_map p m)) = child_rel m"
  using adopt_templates [of child_map p m] loading_ok_template [OF assms, of p] assms by auto

text \<open>The path already walked: its sources are the pools checked.\<close>

definition walked :: "PoolMgrLikeCpp \<Rightarrow> u32 list \<Rightarrow> u32 \<Rightarrow> u32 \<Rightarrow> bool" where
  "walked m checked s cur \<longleftrightarrow> (s, cur) \<in> {(a, b) \<in> child_rel m. a \<in> set checked}\<^sup>* \<and> cur \<notin> set checked"

lemma walked_settled:
  assumes "walked m checked s cur" "child_rel m' = child_rel m - {(cur, p)}" "\<And>z. (cur, z) \<in> child_rel m \<Longrightarrow> z = p"
  shows "settled m' s"
proof -
  have "{(a, b) \<in> child_rel m. a \<in> set checked} \<subseteq> child_rel m'" using assms by (auto simp: walked_def)
  then have "(s, cur) \<in> (child_rel m')\<^sup>*" using assms(1) rtrancl_mono by (auto simp: walked_def)
  then show ?thesis using assms(2,3) by (auto simp: settled_def)
qed

lemma walked_step:
  assumes "walked m checked s cur" "(cur, p) \<in> child_rel m" "p \<notin> set (List.insert cur checked)" "child_rel m' = child_rel m"
  shows "walked m' (List.insert cur checked) s p"
proof -
  let ?R = "\<lambda>xs. {(a, b) \<in> child_rel m. a \<in> set xs}"
  have "(?R checked)\<^sup>* \<subseteq> (?R (List.insert cur checked))\<^sup>*" by (rule rtrancl_mono) auto
  then have "(s, cur) \<in> (?R (List.insert cur checked))\<^sup>*" using assms(1) by (auto simp: walked_def)
  moreover have "(cur, p) \<in> ?R (List.insert cur checked)" using assms(2) by simp
  ultimately show ?thesis using assms(3,4) by (simp add: walked_def rtrancl.rtrancl_into_rtrancl)
qed

lemma child_rel_finite: "loading_ok m seen n \<Longrightarrow> finite (child_rel m)"
  by (rule finite_subset [of _ "set (child_pool_to_parent m)"])
    (auto simp: loading_parent [symmetric] dest: map_of_SomeD)

lemma propagate_map_ok:
  "loading_ok m seen n \<Longrightarrow> walked m checked s cur \<Longrightarrow>
   \<exists>l'. propagate_map cur checked (m, report) = Some l' \<and> loading_ok (fst l') seen n \<and>
     child_rel (fst l') \<subseteq> child_rel m \<and> settled (fst l') s"
proof (induction "card (Domain (child_rel m) - set checked)" arbitrary: m report checked cur rule: less_induct)
  case less
  note parent = loading_parent [OF less.prems(1)]
  show ?case
  proof (cases "hm_get (child_pool_to_parent m) cur")
    case None
    then have "(cur, z) \<notin> child_rel m" for z using parent [of cur z] by simp
    moreover have "(s, cur) \<in> (child_rel m)\<^sup>*"
      using less.prems(2) rtrancl_mono [of "{(a, b) \<in> child_rel m. a \<in> set checked}" "child_rel m"]
      by (auto simp: walked_def)
    ultimately have "settled m s" by (auto simp: settled_def)
    then show ?thesis using None less.prems(1) by (subst propagate_map.simps) (simp add: Let_def)
  next
    case (Some p)
    then have rel: "(cur, p) \<in> child_rel m" by (simp add: parent)
    define child_map where "child_map = (case hm_get (templates m) cur of None \<Rightarrow> - 1 | Some t \<Rightarrow> template_map_id t)"
    define m1 where "m1 = snd (adopt_child_map child_map p m)"
    have m1: "loading_ok m1 seen n" "child_rel m1 = child_rel m"
      using adopt_ok [OF less.prems(1)] by (simp_all add: m1_def)
    let ?m2 = "snd (remove_child_pool_relation_like_cpp cur p m1)"
    have m2: "loading_ok ?m2 seen n" "child_rel ?m2 = child_rel m - {(cur, p)}"
      using removal_ok [OF m1(1), of cur p] rel m1(2) by simp_all
    have "settled ?m2 s"
      by (rule walked_settled [OF less.prems(2) m2(2)]) (rule loading_functional [OF less.prems(1) _ rel])
    then have removed: "loading_ok ?m2 seen n \<and> child_rel ?m2 \<subseteq> child_rel m \<and> settled ?m2 s"
      using m2 by blast
    show ?thesis
    proof (cases "fst (adopt_child_map child_map p m) \<or> p \<in> set (List.insert cur checked)")
      case True
      then show ?thesis using removed Some
        by (subst propagate_map.simps) (auto simp: Let_def child_map_def m1_def)
    next
      case False
      have cur: "cur \<in> Domain (child_rel m)" "cur \<notin> set checked" using rel less.prems(2) by (auto simp: walked_def)
      have "card (Domain (child_rel m1) - set (List.insert cur checked)) < card (Domain (child_rel m) - set checked)"
        by (rule psubset_card_mono) (use child_rel_finite [OF less.prems(1)] cur m1(2) in \<open>auto simp: finite_Domain\<close>)
      then obtain l' where "propagate_map p (List.insert cur checked) (m1, report) = Some l'" "loading_ok (fst l') seen n"
        "child_rel (fst l') \<subseteq> child_rel m1" "settled (fst l') s"
        using less.hyps [of m1 "List.insert cur checked" p report] m1(1) walked_step [OF less.prems(2) rel _ m1(2)] False
        by blast
      then show ?thesis using Some False m1(2)
        by (subst propagate_map.simps) (simp add: Let_def flip: child_map_def m1_def)
    qed
  qed
qed

lemma propagate_maps_ok:
  "loading_ok (fst l) seen n \<Longrightarrow> \<exists>l'. propagate_maps ps l = Some l' \<and> loading_ok (fst l') seen n \<and>
     child_rel (fst l') \<subseteq> child_rel (fst l) \<and> (\<forall>s \<in> set ps. (s, s) \<notin> (child_rel (fst l'))\<^sup>+)"
proof (induction ps arbitrary: l)
  case (Cons p ps)
  obtain m report where l: "l = (m, report)" by (cases l)
  have "walked m [] p p" by (simp add: walked_def)
  then obtain l1 where l1: "propagate_map p [] l = Some l1" "loading_ok (fst l1) seen n"
    "child_rel (fst l1) \<subseteq> child_rel m" "settled (fst l1) p"
    using propagate_map_ok [of m seen n "[]" p p report] Cons.prems l by auto
  obtain l' where l': "propagate_maps ps l1 = Some l'" "loading_ok (fst l') seen n"
    "child_rel (fst l') \<subseteq> child_rel (fst l1)" "\<forall>s \<in> set ps. (s, s) \<notin> (child_rel (fst l'))\<^sup>+"
    using Cons.IH [OF l1(2)] by blast
  have "(p, p) \<notin> (child_rel (fst l'))\<^sup>+"
    using settled_acyclic [OF l1(2,4)] trancl_mono [OF _ l'(3)] by blast
  then show ?case using l1 l' l by auto
qed auto

section \<open>The loaded manager\<close>

lemma templates_ok:
  "loading_ok (fst l) seen n \<Longrightarrow> loading_ok (fst (foldl (\<lambda>l row. apply_pool_template_row_like_cpp row l) l rows)) seen n"
proof (induction rows arbitrary: l)
  case (Cons row rows)
  obtain m report where l: "l = (m, report)" by (cases l)
  have "loading_ok (fst (apply_pool_template_row_like_cpp row l)) seen n"
    using Cons.prems by (simp add: l apply_pool_template_row_like_cpp_def insert_template_like_cpp_def loading_ok_template)
  then show ?case using Cons.IH by simp
qed simp

lemma loading_start_ok: "loading_ok pool_mgr_new (\<lambda>_. {}) 0"
  by (auto simp: loading_ok_def groups_ok_def parents_ok_def seen_within_def pool_mgr_new_def group_like_cpp_def
      pool_members_def child_rel_def member_count_def split: PoolMemberKindLikeCpp.split)

text \<open>
  Tables with their primary keys, \<open>(type, spawnId)\<close> for the members; no pool \<open>0\<close> is a child,
  since \<open>0\<close> reads as no child; fewer than \<open>2 ^ 32\<close> rows.
\<close>

definition tables_ok :: "PoolTables \<Rightarrow> bool" where
  "tables_ok db \<longleftrightarrow>
     distinct (map (\<lambda>(kind, row). (kind, row_spawn_id row)) (member_table db)) \<and>
     (PoolPool, 0) \<notin> (\<lambda>(kind, row). (kind, row_spawn_id row)) ` set (member_table db) \<and>
     length (member_table db) < 2 ^ 32"

lemma distinct_of_kind:
  "distinct (map (\<lambda>(k, row). (k, row_spawn_id row)) xs) \<Longrightarrow>
   distinct (map row_spawn_id (map snd (filter (\<lambda>(k, row). k = kind) xs)))"
  by (induction xs) force+

lemma select_distinct: "tables_ok db \<Longrightarrow> distinct (map row_spawn_id (select_pool_members db kind))"
  unfolding select_pool_members_def by (rule distinct_of_kind) (simp add: tables_ok_def)

lemma select_length:
  "length (select_pool_members db PoolCreature) + length (select_pool_members db PoolGameObject) +
   length (select_pool_members db PoolPool) = length (member_table db)"
proof -
  have "length (filter (\<lambda>(k, row). k = PoolCreature) xs) + length (filter (\<lambda>(k, row). k = PoolGameObject) xs) +
      length (filter (\<lambda>(k, row). k = PoolPool) xs) = length xs" for xs :: "(PoolMemberKindLikeCpp \<times> PoolMemberRowLikeCpp) list"
  proof (induction xs)
    case (Cons x xs)
    then show ?case by (cases x; cases "fst x") auto
  qed simp
  then show ?thesis by (simp add: select_pool_members_def)
qed

definition row_ids :: "PoolTables \<Rightarrow> PoolMemberKindLikeCpp \<Rightarrow> u64 set" where
  "row_ids db kind = row_spawn_id ` set (select_pool_members db kind)"

lemma members_loaded_ok:
  assumes db: "tables_ok db" and l: "loading_ok (fst l) (\<lambda>_. {}) 0"
  shows "\<exists>m report. load_member_kinds (pool_catalog_of db) store [PoolCreature, PoolGameObject, PoolPool] l =
    Some (Inr m, report) \<and> loading_ok m (row_ids db) (length (member_table db))"
proof -
  let ?rows = "select_pool_members db"
  have step: "\<exists>l'. load_pool_member_rows_like_cpp (?rows kind) store kind l = Some l' \<and>
      loading_ok (fst l') (seen(kind := row_ids db kind)) (n + length (?rows kind))"
    if "loading_ok (fst l) seen n" "seen kind = {}" for l seen n kind
    using rows_ok [OF that(1) select_distinct [OF db], of kind kind store] that(2) by (simp add: row_ids_def)
  obtain l1 where l1: "load_pool_member_rows_like_cpp (?rows PoolCreature) store PoolCreature l = Some l1"
    "loading_ok (fst l1) ((\<lambda>_. {})(PoolCreature := row_ids db PoolCreature)) (0 + length (?rows PoolCreature))"
    using step [OF l] by blast
  obtain l2 where l2: "load_pool_member_rows_like_cpp (?rows PoolGameObject) store PoolGameObject l1 = Some l2"
    "loading_ok (fst l2) ((\<lambda>_. {})(PoolCreature := row_ids db PoolCreature, PoolGameObject := row_ids db PoolGameObject))
       (0 + length (?rows PoolCreature) + length (?rows PoolGameObject))"
    using step [OF l1(2), of PoolGameObject] by auto
  obtain l3 where l3: "load_pool_member_rows_like_cpp (?rows PoolPool) store PoolPool l2 = Some l3"
    "loading_ok (fst l3) ((\<lambda>_. {})(PoolCreature := row_ids db PoolCreature, PoolGameObject := row_ids db PoolGameObject,
         PoolPool := row_ids db PoolPool))
       (0 + length (?rows PoolCreature) + length (?rows PoolGameObject) + length (?rows PoolPool))"
    using step [OF l2(2), of PoolPool] by auto
  have "(\<lambda>_. {})(PoolCreature := row_ids db PoolCreature, PoolGameObject := row_ids db PoolGameObject,
      PoolPool := row_ids db PoolPool) = row_ids db"
    by (rule ext, rename_tac k, case_tac k) simp_all
  then have "loading_ok (fst l3) (row_ids db) (length (member_table db))"
    using l3(2) select_length [of db] by simp
  then show ?thesis using l1(1) l2(1) l3(1) by (simp add: pool_catalog_of_def)
qed

lemma propagated_ok:
  assumes ok: "loading_ok (fst l) seen n" and n: "n < 2 ^ 32" and order: "\<And>xs. set (key_order xs) = set xs"
  shows "\<exists>l'. apply_pool_map_propagation_like_cpp key_order l = Some l' \<and> loading_ok (fst l') seen n \<and> pools_ok (fst l')"
proof -
  let ?ps = "key_order (map fst (templates (fst l)))"
  obtain l' where l': "propagate_maps ?ps l = Some l'" "loading_ok (fst l') seen n"
    "child_rel (fst l') \<subseteq> child_rel (fst l)" "\<forall>s \<in> set ?ps. (s, s) \<notin> (child_rel (fst l'))\<^sup>+"
    using propagate_maps_ok [OF ok] by blast
  have "(x, x) \<notin> (child_rel (fst l'))\<^sup>+" for x
  proof
    assume x: "(x, x) \<in> (child_rel (fst l'))\<^sup>+"
    then obtain y where "(x, y) \<in> child_rel (fst l)" using l'(3) by (blast dest: tranclD)
    then have "hm_get (templates (fst l)) x \<noteq> None" using ok by (auto simp: loading_ok_def parents_ok_def)
    then have "x \<in> set ?ps" by (auto simp: order dest: map_of_SomeD intro: rev_image_eqI)
    then show False using l'(4) x by blast
  qed
  then have wf: "wf (child_rel (fst l'))"
    by (intro finite_acyclic_wf child_rel_finite [OF l'(2)] acyclicI) blast
  have count: "\<And>p. member_count (fst l') p < 2 ^ 32"
    using l'(2) n by (auto simp: loading_ok_def seen_within_def intro: le_less_trans)
  have "groups_ok (fst l')" using l'(2) by (simp add: loading_ok_def)
  then have "pools_ok (fst l')" using wf count unfolding pools_ok_def groups_ok_def by simp
  then show ?thesis using l'(1,2) by (simp add: apply_pool_map_propagation_like_cpp_def)
qed

lemma validated: "\<exists>report'. apply_pool_final_validation_like_cpp (m, report) = Some (m, report')"
proof -
  have "\<exists>report'. validate_pools m ts report = Some report'" for ts
  proof (induction ts arbitrary: report)
    case (Cons x ts)
    obtain e where "is_empty_like_cpp m (fst x) = Some e"
      using empty_returns [of "[]" m "fst x"] by (auto simp: is_empty_like_cpp_def checks_def)
    then show ?case using Cons by (cases x) simp
  qed simp
  then obtain report' where "validate_pools m (templates m) report = Some report'" by blast
  then show ?thesis by (simp add: apply_pool_final_validation_like_cpp_def)
qed

subsection \<open>Automatic spawning\<close>

lemma auto_fields [simp]:
  "pool_members (m\<lparr>auto_spawn_pools_per_map := a\<rparr>) = pool_members m"
  "group_like_cpp (m\<lparr>auto_spawn_pools_per_map := a\<rparr>) = group_like_cpp m"
  by (auto simp: fun_eq_iff pool_members_def group_like_cpp_def split: PoolMemberKindLikeCpp.split)

lemma auto_ok [simp]: "pools_ok (m\<lparr>auto_spawn_pools_per_map := a\<rparr>) = pools_ok m"
    "parentless (m\<lparr>auto_spawn_pools_per_map := a\<rparr>) = parentless m"
  by (simp_all add: fun_eq_iff pools_ok_def parentless_def child_rel_def member_count_def)

definition top_level_auto :: "PoolMgrLikeCpp \<Rightarrow> bool" where
  "top_level_auto m \<longleftrightarrow> (\<forall>i. list_all (parentless m) (auto_spawn_pools_for_map_like_cpp m i))"

lemma top_level_add:
  assumes "top_level_auto m" "parentless m p"
  shows "top_level_auto (add_auto_spawn_pool_like_cpp i p m)"
  using assms
  by (auto simp: top_level_auto_def add_auto_spawn_pool_like_cpp_def auto_spawn_pools_for_map_like_cpp_def
      update_conv' split: option.split)

lemma autospawn_ok:
  assumes "pools_ok m" "top_level_auto m" "\<And>row. row \<in> set rows \<Longrightarrow> candidate_child_pool_id row = 0 \<Longrightarrow>
      parentless m (candidate_pool_entry row)"
  shows "\<exists>m' report'. apply_autospawn_rows rows (m, report) = Some (m', report') \<and> pools_ok m' \<and> top_level_auto m'"
  using assms
proof (induction rows arbitrary: m report)
  case (Cons row rows)
  obtain e where e: "is_empty_like_cpp m (candidate_pool_entry row) = Some e"
    using empty_returns [of "[]" m "candidate_pool_entry row"] by (auto simp: is_empty_like_cpp_def checks_def)
  have "\<exists>m1 report1. apply_pool_autospawn_candidate_row_like_cpp row (m, report) = Some (m1, report1) \<and>
      (m1 = m \<or> candidate_child_pool_id row = 0 \<and> (\<exists>i. m1 = add_auto_spawn_pool_like_cpp i (candidate_pool_entry row) m))"
    by (auto simp: apply_pool_autospawn_candidate_row_like_cpp_def Let_def e split: option.split)
  then obtain m1 report1 where m1: "apply_pool_autospawn_candidate_row_like_cpp row (m, report) = Some (m1, report1)"
    "m1 = m \<or> candidate_child_pool_id row = 0 \<and> (\<exists>i. m1 = add_auto_spawn_pool_like_cpp i (candidate_pool_entry row) m)" by blast
  have same: "pools_ok m1 = pools_ok m" "parentless m1 = parentless m"
    using m1(2) by (auto simp: add_auto_spawn_pool_like_cpp_def)
  have "top_level_auto m1" using m1(2) top_level_add [OF Cons.prems(2)] Cons.prems(2,3) by auto
  then have "\<exists>m' report'. apply_autospawn_rows rows (m1, report1) = Some (m', report') \<and> pools_ok m' \<and> top_level_auto m'"
    by (intro Cons.IH) (use Cons.prems same in auto)
  then show ?case using m1(1) by simp
qed simp

lemma candidate_parentless:
  assumes db: "tables_ok db" and ok: "loading_ok m (row_ids db) n"
    and row: "row \<in> set (select_pool_autospawn_candidates db)" "candidate_child_pool_id row = 0"
  shows "parentless m (candidate_pool_entry row)"
proof -
  obtain t where t: "row = autospawn_candidate db t"
    using row(1) by (auto simp: select_pool_autospawn_candidates_def)
  have entry: "candidate_pool_entry row = row_entry t" by (simp add: t autospawn_candidate_def split: option.split)
  have zero: "row_spawn_id r \<noteq> 0" if "r \<in> set (select_pool_members db PoolPool)" for r
    using db that by (force simp: tables_ok_def select_pool_members_def)
  have "ucast (row_entry t) \<notin> row_ids db PoolPool"
  proof (cases "find (\<lambda>row. row_spawn_id row = ucast (row_entry t)) (select_pool_members db PoolPool)")
    case None
    then show ?thesis by (auto simp: find_None_iff_all row_ids_def)
  next
    case (Some r)
    then show ?thesis using row(2) t zero [of r] find_Some_mem [OF Some] by (simp add: autospawn_candidate_def)
  qed
  then show ?thesis
    using ok by (fastforce simp: parentless_def entry child_rel_def loading_ok_def seen_within_def dest: try_u32_ucast)
qed

section \<open>Loading and running\<close>

lemma mgr_new_ok: "pools_ok pool_mgr_new" "top_level_auto pool_mgr_new"
proof -
  have "child_rel pool_mgr_new = {}"
    by (auto simp: child_rel_def pool_members_def pool_mgr_new_def group_like_cpp_def)
  then show "pools_ok pool_mgr_new"
    using loading_start_ok unfolding pools_ok_def loading_ok_def groups_ok_def seen_within_def by simp
  show "top_level_auto pool_mgr_new"
    by (simp add: top_level_auto_def pool_mgr_new_def auto_spawn_pools_for_map_like_cpp_def)
qed

lemma loaded_manager:
  assumes db: "tables_ok db" and order: "\<And>xs. set (key_order xs) = set xs"
  shows "\<exists>m report'. load_pool_mgr_like_cpp key_order (pool_catalog_of db) store report = Some (Inr m, report') \<and>
    pools_ok m \<and> top_level_auto m"
proof (cases "template_table db = []")
  case True
  then show ?thesis using mgr_new_ok by (simp add: load_pool_mgr_like_cpp_def pool_catalog_of_def)
next
  case False
  let ?port = "pool_catalog_of db"
  define l0 where "l0 = foldl (\<lambda>l row. apply_pool_template_row_like_cpp row l) (pool_mgr_new, report) (template_table db)"
  have "loading_ok (fst l0) (\<lambda>_. {}) 0" unfolding l0_def by (rule templates_ok) (simp add: loading_start_ok)
  then obtain m report1 where l1: "load_member_kinds ?port store [PoolCreature, PoolGameObject, PoolPool] l0 = Some (Inr m, report1)"
    "loading_ok m (row_ids db) (length (member_table db))" using members_loaded_ok [OF db] by blast
  obtain m2 report2 where l2: "apply_pool_map_propagation_like_cpp key_order (m, report1) = Some (m2, report2)"
    "loading_ok m2 (row_ids db) (length (member_table db))" "pools_ok m2"
    using propagated_ok [of "(m, report1)" "row_ids db" "length (member_table db)" key_order] l1(2) db order
    by (auto simp: tables_ok_def)
  obtain report3 where l3: "apply_pool_final_validation_like_cpp (m2, report2) = Some (m2, report3)" using validated by blast
  have top: "top_level_auto m2"
    using l2(2) by (simp add: loading_ok_def top_level_auto_def auto_spawn_pools_for_map_like_cpp_def)
  then obtain m4 report4 where "apply_autospawn_rows (select_pool_autospawn_candidates db) (m2, report3) = Some (m4, report4)"
    "pools_ok m4" "top_level_auto m4"
    using autospawn_ok [OF l2(3) top] candidate_parentless [OF db l2(2)] by blast
  then show ?thesis using False l1(1) l2(1) l3 
    by (simp add: load_pool_mgr_like_cpp_def load_pool_autospawn_candidates_like_cpp_def l0_def pool_catalog_of_def)
qed

end
