(* ===== verification/PoolProperties.thy ===== *)
theory PoolProperties
  imports PoolLoading
begin

text \<open>
  The pools as loaded and run: spawning fills a pool to its limit, despawning empties it, every
  request is planned without an error, and in every run each counter is the number of spawned
  members and stays within the limit of its template.
\<close>

section \<open>Spawning fills a pool\<close>

text \<open>A source of choices that answers different indices, as many as requested.\<close>

definition fair_choice :: "'r choose_equal \<Rightarrow> bool" where
  "fair_choice choice \<longleftrightarrow> (\<forall>cs n r. n \<le> length cs \<longrightarrow>
     distinct (fst (choice cs n r)) \<and> length (fst (choice cs n r)) = n \<and> set (fst (choice cs n r)) \<subseteq> {..<length cs})"

lemma take_chosen_all:
  assumes "distinct is" "set is \<subseteq> {..<length cs}" "length used = length cs" "\<And>i. i \<in> set is \<Longrightarrow> \<not> used ! i"
    and "length rolled + length is \<le> requested"
  shows "length (take_chosen cs requested is used rolled) = length rolled + length is"
  using assms
proof (induction "is" arbitrary: used rolled)
  case (Cons i "is")
  have "\<not> used[i := True] ! j" if "j \<in> set is" for j
    using Cons.prems(1,4) that by (metis distinct.simps(2) list.set_intros(2) nth_list_update_neq)
  then have "length (take_chosen cs requested is (used[i := True]) (rolled @ [cs ! i])) = length (rolled @ [cs ! i]) + length is"
    by (intro Cons.IH) (use Cons.prems in auto)
  then show ?case using Cons.prems by simp
qed simp

lemma roll_objects_length:
  assumes "explicitly_chanced g = []" and fair: "fair_choice choice" and places: "n > (0::int)"
  shows "length (fst (roll_objects g trigger n roll choice s r)) =
    min (nat n) (length (filter (spawnable g s trigger) (equal_chanced g)))"
proof (cases "equal_chanced g = []")
  case False
  let ?cs = "filter (spawnable g s trigger) (equal_chanced g)"
  let ?n = "min (nat n) (length ?cs)"
  let ?c = "choice ?cs ?n r"
  have "distinct (fst ?c)" "length (fst ?c) = ?n" "set (fst ?c) \<subseteq> {..<length ?cs}"
    using fair unfolding fair_choice_def by (meson min.cobounded2)+
  then have "length (take_chosen ?cs ?n (fst ?c) (replicate (length ?cs) False) []) = ?n"
    by (subst take_chosen_all) auto
  then show ?thesis using assms(1) False by (simp add: roll_objects_def Let_def split_def)
qed (simp add: roll_objects_def assms(1))

text \<open>Creatures or game objects of equal chance: as many are spawned as the limit and the members allow.\<close>

lemma fill_group:
  fixes w :: "'r PlanWorld"
  assumes ok: "pools_ok m" and g: "group_like_cpp m kind p = Some g" and kind: "kind \<noteq> PoolPool"
    and limit: "unat limit = pool_limit m p" and w: "spawnable_world m p w"
    and equal: "explicitly_chanced g = []" and fair: "fair_choice choice"
    and nonzero: "0 \<notin> set (pool_members m kind p)"
    and only: "\<And>k. k \<noteq> kind \<Longrightarrow> pool_members m k p = []"
  shows "outcome never (\<lambda>_ w'. counter (spawns w') p = min (pool_limit m p) (member_count m p))
    (spawn_object_plan_with_child_pools_like_cpp g limit 0 roll choice sc dc w)"
proof -
  have gp: "group_pool_id g = p" "member_kind g = kind" using ok_group [OF ok g] by simp_all
  have members: "pool_members m kind p = map pool_guid (equal_chanced g)" by (simp add: pool_members_def g equal)
  have counts: "counts_ok m (spawns w)" and lim: "counter (spawns w) p \<le> pool_limit m p"
    using w limitedD [of m "below m p" "spawns w" p] by (simp_all add: spawnable_world_def)
  have others: "live_members m s p k = 0" "pool_members m k p = []" if "k \<noteq> kind" for s k
    using only [OF that] by (simp_all add: live_members_def)
  have live: "counter (spawns w) p = live_members m (spawns w) p kind"
    using counts others kind by (cases kind) (simp_all add: counts_ok_def live_count_def)
  have total: "member_count m p = length (equal_chanced g)"
    using others(2) kind members by (cases kind) (simp_all add: member_count_def)
  let ?free = "length (filter (spawnable g (spawns w) 0) (equal_chanced g))"
  have "filter (spawnable g (spawns w) 0) (equal_chanced g) =
      filter (\<lambda>x. \<not> member_live (spawns w) kind (pool_guid x)) (equal_chanced g)"
    using nonzero members by (intro filter_cong) (auto simp: spawnable_def is_spawned_member gp)
  moreover have "live_members m (spawns w) p kind = length (filter (\<lambda>x. member_live (spawns w) kind (pool_guid x)) (equal_chanced g))"
    by (simp add: live_members_def members filter_map comp_def)
  ultimately have free: "live_members m (spawns w) p kind + ?free = length (equal_chanced g)"
    using sum_length_filter_compl [of "\<lambda>x. member_live (spawns w) kind (pool_guid x)" "equal_chanced g"] by simp
  let ?count = "places limit p 0 w"
  have count: "?count = int (pool_limit m p) - int (counter (spawns w) p)"
    by (simp add: places_def counter_def flip: limit)
  obtain rolled r1 where rolled: "(if ?count > 0
      then roll_objects g 0 ?count roll choice (spawns w) (rng w) else ([], rng w)) = (rolled, r1)" by fastforce
  have len: "length rolled = min (nat ?count) ?free"
  proof (cases "?count > 0")
    case True
    then show ?thesis using roll_objects_length [OF equal fair True, of 0 roll "spawns w" "rng w"] rolled by simp
  qed (use rolled in simp)
  have "pool_guid ` set rolled \<subseteq> set (pool_members m kind p)"
  proof (cases "?count > 0")
    case True
    then show ?thesis using roll_objects_sound [OF ok g True, of 0 roll choice "spawns w" "rng w"] rolled
      by (auto simp: rolled_ok_def)
  qed (use rolled in simp)
  then have zero: "0 \<notin> pool_guid ` set rolled" using nonzero by blast
  then have all: "filter (\<lambda>x. pool_guid x \<noteq> 0) rolled = rolled" by (auto simp: filter_id_conv image_iff)
  have full: "counter (spawns w) p + length rolled = min (pool_limit m p) (member_count m p)"
    using len free lim unfolding count total live by linarith
  have "outcome never (\<lambda>_ w'. counter (spawns w') p = min (pool_limit m p) (member_count m p))
      (and_then (spawn_rolled g sc rolled empty_spawn_plan 0)
        (\<lambda>(plan, trigger1). despawn_trigger g dc plan trigger1) (w\<lparr>rng := r1\<rparr>))"
  proof (rule outcome_and_then, rule rolled_within [OF ok g limit _ w _ rolled])
    show "live_trigger m kind p 0 (spawns w)" by (simp add: live_trigger_def)
    fix a :: "PoolSpawnObjectPlanLikeCpp \<times> u64" and w' :: "'r PlanWorld"
    assume "after_rolled m kind p 0 w rolled a w'"
    then have "snd a = 0" "counter (spawns w') p = counter (spawns w) p + length rolled"
      using zero all by (simp_all add: after_rolled_def)
    then show "outcome never (\<lambda>_ w'. counter (spawns w') p = min (pool_limit m p) (member_count m p))
        ((case a of (plan, trigger1) \<Rightarrow> despawn_trigger g dc plan trigger1) w')"
      using full by (cases a) (simp add: despawn_trigger_def)
  qed (use kind in simp)
  then show ?thesis using rolled
    unfolding spawn_object_plan_with_child_pools_like_cpp_def Let_def places_def gp by simp
qed

lemma empty_typed:
  "pool_members m kind p = [] \<Longrightarrow> outcome never (\<lambda>_ w'. w' = w) (spawn_typed_step sc m roll_for choice kind p trigger w)"
  by (cases "group_like_cpp m kind p") (auto simp: spawn_typed_step_def pool_members_def group_is_empty_like_cpp_def)

lemma fill_typed:
  fixes w :: "'r PlanWorld"
  assumes ok: "pools_ok m" and g: "group_like_cpp m kind p = Some g" and kind: "kind \<noteq> PoolPool"
    and w: "spawnable_world m p w"
    and equal: "explicitly_chanced g = []" and fair: "fair_choice choice"
    and nonzero: "0 \<notin> set (pool_members m kind p)"
    and only: "\<And>k. k \<noteq> kind \<Longrightarrow> pool_members m k p = []"
  shows "outcome never (\<lambda>_ w'. counter (spawns w') p = min (pool_limit m p) (member_count m p))
    (spawn_typed_step sc m roll_for choice kind p 0 w)"
proof (cases "pool_members m kind p = []")
  case True
  then have "pool_members m k p = []" for k using only by (cases "k = kind") simp_all
  then have "member_count m p = 0" by (simp add: member_count_def)
  moreover have "counter (spawns w) p = 0"
    using w live_count_le [of m "spawns w" p] \<open>member_count m p = 0\<close> by (simp add: spawnable_world_def counts_ok_def)
  ultimately show ?thesis by (intro outcome_weaken [OF empty_typed [OF True]]) simp
next
  case False
  then have nonempty: "\<not> group_is_empty_like_cpp g" by (auto simp: pool_members_def g group_is_empty_like_cpp_def)
  obtain t where t: "hm_get (templates m) p = Some t" using ok False by (fastforce simp: pools_ok_def)
  have overflow: "ensure_no_child_pool_overflow_like_cpp g = None"
    using ok_group [OF ok g] kind by (simp add: ensure_no_child_pool_overflow_like_cpp_def)
  have limit: "unat (max_limit t) = pool_limit m p" by (simp add: pool_limit_def t)
  let ?Q = "\<lambda>_ w'. counter (spawns w') p = min (pool_limit m p) (member_count m p)"
  have "outcome never ?Q (spawn_object_plan_with_child_pools_like_cpp g (max_limit t) 0 (roll_for kind p) choice
      (\<lambda>child w. Some (Inr (PoolSpawnPoolPlan 0 []), w)) (\<lambda>child always w. Some (Inr (PoolDespawnPoolPlan 0 False []), w)) w)"
    by (rule fill_group [OF ok g kind limit w equal fair nonzero only])
  then have "outcome never ?Q (map_option (\<lambda>(plan, w2). (Inr plan, w2))
      (spawn_object_plan_like_cpp g (max_limit t) 0 (roll_for kind p) choice w))"
    by (rule outcome_leaf [OF outcome_never])
  then have "outcome never ?Q (and_then (\<lambda>w1. map_option (\<lambda>(plan, w2). (Inr plan, w2))
      (spawn_object_plan_like_cpp g (max_limit t) 0 (roll_for kind p) choice w1))
      (\<lambda>plan w1. Some (Inr (PoolTypedSpawnPlan kind p 0 (Some (max_limit t)) (Some plan) None), w1)) w)"
    by (rule outcome_and_then) simp
  then show ?thesis using nonempty kind overflow t g by (simp add: spawn_typed_step_def)
qed

lemma fill_pool:
  fixes s :: SpawnedPoolDataLikeCpp
  assumes ok: "pools_ok m" and s: "pools_bounded m s" and p: "entered m p s"
    and g: "group_like_cpp m kind p = Some g" and kind: "kind \<noteq> PoolPool"
    and equal: "explicitly_chanced g = []" and fair: "fair_choice choice"
    and nonzero: "0 \<notin> set (pool_members m kind p)"
    and only: "\<And>k. k \<noteq> kind \<Longrightarrow> pool_members m k p = []"
  shows "outcome never (\<lambda>_ w'. counter (spawns w') p = min (pool_limit m p) (member_count m p))
    (spawn_pool_plan_with_visited_like_cpp m roll_for choice p (unvisited s r))"
proof -
  let ?w = "visit p (unvisited s r)" and ?sc = "spawn_pool_plan_with_visited_like_cpp m roll_for choice"
  let ?step = "\<lambda>kind w1. spawn_typed_step ?sc m roll_for choice kind p 0 w1"
  let ?Q = "\<lambda>w'. counter (spawns w') p = min (pool_limit m p) (member_count m p)"
  have "below m p \<inter> set (visiting (unvisited s r)) = {}" by (simp add: unvisited_def)
  then have "spawnable_world m p ?w"
    using visited_children [OF ok, of p "unvisited s r"] s p bounded_below [OF s, of p]
    by (simp add: spawnable_world_def visit_def unvisited_def pools_bounded_def)
  then have fill: "outcome never (\<lambda>_. ?Q) (?step kind ?w)"
    by (intro fill_typed [OF ok g kind _ equal fair nonzero only])
  have skip: "outcome never (\<lambda>_. ?Q) (?step k w)" if "k \<noteq> kind" "?Q w" for k w
    using that(2) by (intro outcome_weaken [OF empty_typed [OF only [OF that(1)]]]) simp
  have same: "outcome never (\<lambda>_ w'. w' = ?w) (?step k ?w)" if "k \<noteq> kind" for k
    by (rule empty_typed [OF only [OF that]])
  have "outcome never (\<lambda>_. ?Q) (for_kinds ?step [PoolPool, PoolGameObject, PoolCreature] [] ?w)"
  proof (cases kind)
    case PoolCreature
    have last: "outcome never (\<lambda>_. ?Q) (for_kinds ?step [PoolCreature] xs ?w)" for xs
      unfolding for_kinds.simps by (rule outcome_and_then [where Q = "\<lambda>_. ?Q"]) (use fill PoolCreature in simp_all)
    have mid: "outcome never (\<lambda>_. ?Q) (for_kinds ?step [PoolGameObject, PoolCreature] xs ?w)" for xs
      by (subst for_kinds.simps, rule outcome_and_then [where Q = "\<lambda>_ w'. w' = ?w"]) (use same last PoolCreature in \<open>simp_all del: for_kinds.simps\<close>)
    show ?thesis
      by (subst for_kinds.simps, rule outcome_and_then [where Q = "\<lambda>_ w'. w' = ?w"]) (use same mid PoolCreature in \<open>simp_all del: for_kinds.simps\<close>)
  next
    case PoolGameObject
    have last: "outcome never (\<lambda>_. ?Q) (for_kinds ?step [PoolCreature] xs w)" if "?Q w" for xs w
      unfolding for_kinds.simps by (rule outcome_and_then [where Q = "\<lambda>_. ?Q"]) (use skip that PoolGameObject in simp_all)
    have mid: "outcome never (\<lambda>_. ?Q) (for_kinds ?step [PoolGameObject, PoolCreature] xs ?w)" for xs
      by (subst for_kinds.simps, rule outcome_and_then [where Q = "\<lambda>_. ?Q"]) (use last fill PoolGameObject in \<open>simp_all del: for_kinds.simps\<close>)
    show ?thesis
      by (subst for_kinds.simps, rule outcome_and_then [where Q = "\<lambda>_ w'. w' = ?w"]) (use same mid PoolGameObject in \<open>simp_all del: for_kinds.simps\<close>)
  qed (use kind in simp)
  then have "outcome never (\<lambda>_. ?Q) (and_then (for_kinds ?step [PoolPool, PoolGameObject, PoolCreature] [])
      (\<lambda>subplans w1. Some (Inr (PoolSpawnPoolPlan p subplans), leave p w1)) ?w)"
    by (rule outcome_and_then) (simp add: leave_def)
  then show ?thesis by (subst spawn_pool_plan_with_visited_like_cpp.simps) (simp add: unvisited_def)
qed

section \<open>Runs of a loaded manager\<close>

lemma loaded_ok:
  assumes "tables_ok db" "\<And>xs. set (key_order xs) = set xs"
    and "load_pool_mgr_like_cpp key_order (pool_catalog_of db) store report = Some (Inr m, report')"
  shows "pools_ok m" "top_level_auto m"
  using loaded_manager [OF assms(1,2), where store = store and report = report] assms(3) by auto

lemma run_bounded: "pools_ok m \<Longrightarrow> pools_run m roll_for choice s r \<Longrightarrow> pools_bounded m s"
proof -
  assume ok: "pools_ok m" and run: "pools_run m roll_for choice s r"
  show ?thesis
    using run
  proof (induction rule: pools_run.induct)
    case (start r)
    have empty: "counter spawned_pool_data_new p = 0" for p
      by (simp add: counter_def get_spawned_objects_like_cpp_def spawned_pool_data_new_def)
    have "\<not> member_live spawned_pool_data_new kind i" for kind i
      by (cases kind) (simp_all add: member_live_def spawned_pool_data_new_def is_spawned_creature_like_cpp_def
          is_spawned_gameobject_like_cpp_def is_spawned_pool_like_cpp_def split: option.split)
    then have "live_count m spawned_pool_data_new p = 0" for p
      by (simp add: live_count_def live_members_def)
    then show ?case using empty by (simp add: pools_bounded_def counts_ok_def limited_def)
  next
    case (request s r req fine s' r')
    then show ?case using request_result [OF ok request.IH request.hyps(2), of roll_for choice r] by auto
  qed
qed

section \<open>The sources of the server\<close>

text \<open>The closures of the server: a roll of zero and the first indices.\<close>

definition server_roll :: "unit explicit_roll_for" where
  "server_roll kind p r = (0, r)"

definition server_choice :: "unit choose_equal" where
  "server_choice candidates n r = ([0..<n], r)"

lemma server_choice_fair: "fair_choice server_choice"
  by (auto simp: fair_choice_def server_choice_def)

section \<open>An example\<close>

text \<open>
  Pool 1 keeps two of three creatures and pool 2 one of two game objects; the rows make pools 2
  and 3 children of each other.
\<close>

definition sample_pool_tables :: PoolTables where
  "sample_pool_tables =
     \<lparr>template_table = map (\<lambda>(p, limit). \<lparr>row_entry = p, row_max_limit = limit\<rparr>) [(1, 2), (2, 1), (3, 1)],
      member_table =
        map (\<lambda>(kind, i, p). (kind, \<lparr>row_spawn_id = i, row_pool_spawn_id = p, row_chance = 0\<rparr>))
          [(PoolCreature, 11, 1), (PoolCreature, 12, 1), (PoolCreature, 13, 1),
           (PoolGameObject, 21, 2), (PoolGameObject, 22, 2), (PoolPool, 2, 3), (PoolPool, 3, 2)],
      event_pool_table = []\<rparr>"

definition no_rows :: PoolMemberLoadReportLikeCpp where
  "no_rows = PoolMemberLoadReportLikeCpp.make 0 0 0 0 0 0 0"

definition empty_report :: PoolMgrLoadReportLikeCpp where
  "empty_report = PoolMgrLoadReportLikeCpp.make 0 0 no_rows no_rows no_rows 0 0 0 0 0 0 0 0 0 0"

definition sample_load :: load_result where
  "sample_load = load_pool_mgr_like_cpp (\<lambda>ps. ps) (pool_catalog_of sample_pool_tables) (\<lambda>t i. Some 0) empty_report"

text \<open>The loaded manager: the relation of pool 3 to pool 2 is removed, and pool 1 is spawned with map 0.\<close>

definition sample_pool_mgr :: PoolMgrLikeCpp where
  "sample_pool_mgr =
     \<lparr>templates = [(1, \<lparr>max_limit = 2, template_map_id = 0\<rparr>), (2, \<lparr>max_limit = 1, template_map_id = 0\<rparr>),
        (3, \<lparr>max_limit = 1, template_map_id = 0\<rparr>)],
      creature_groups = [(1, \<lparr>group_pool_id = 1, member_kind = PoolCreature, explicitly_chanced = [],
        equal_chanced = map (\<lambda>i. \<lparr>pool_guid = i, pool_chance = 0\<rparr>) [11, 12, 13]\<rparr>)],
      gameobject_groups = [(2, \<lparr>group_pool_id = 2, member_kind = PoolGameObject, explicitly_chanced = [],
        equal_chanced = map (\<lambda>i. \<lparr>pool_guid = i, pool_chance = 0\<rparr>) [21, 22]\<rparr>)],
      pool_groups = [(3, \<lparr>group_pool_id = 3, member_kind = PoolPool, explicitly_chanced = [],
          equal_chanced = [\<lparr>pool_guid = 2, pool_chance = 0\<rparr>]\<rparr>),
        (2, \<lparr>group_pool_id = 2, member_kind = PoolPool, explicitly_chanced = [], equal_chanced = []\<rparr>)],
      creature_spawn_to_pool = [(11, 1), (12, 1), (13, 1)], gameobject_spawn_to_pool = [(21, 2), (22, 2)],
      child_pool_to_parent = [(2, 3)], auto_spawn_pools_per_map = [(0, [1])]\<rparr>"

lemma sample_load_value: "map_option fst sample_load = Some (Inr sample_pool_mgr)"
  by code_simp

lemma sample_loaded:
  "load_pool_mgr_like_cpp (\<lambda>ps. ps) (pool_catalog_of sample_pool_tables) (\<lambda>t i. Some 0) empty_report =
     Some (Inr sample_pool_mgr, snd (the sample_load))"
  using sample_load_value by (cases sample_load) (auto simp: sample_load_def)

lemma sample_tables_ok: "tables_ok sample_pool_tables"
  by (simp add: tables_ok_def sample_pool_tables_def)

lemma sample_groups:
  "pool_members sample_pool_mgr PoolCreature p = (if p = 1 then [11, 12, 13] else [])"
  "pool_members sample_pool_mgr PoolGameObject p = (if p = 2 then [21, 22] else [])"
  "pool_members sample_pool_mgr PoolPool p = (if p = 3 then [2] else [])"
  by (simp_all add: pool_members_def group_like_cpp_def sample_pool_mgr_def)

lemma sample_parentless: "parentless sample_pool_mgr 1"
  by (auto simp: parentless_def child_rel_def sample_groups try_u32_def)

definition sample_spawned :: SpawnedPoolDataLikeCpp where
  "sample_spawned = \<lparr>spawned_creatures = [12, 11], spawned_gameobjects = [], spawned_pools = [(1, 2)]\<rparr>"

lemma sample_init:
  "pool_request sample_pool_mgr server_roll server_choice (InitPoolsRequest 0) spawned_pool_data_new () =
     Some (True, sample_spawned, ())"
  by code_simp

lemma sample_run: "pools_run sample_pool_mgr server_roll server_choice sample_spawned ()"
proof (rule pools_run.request [OF pools_run.start _ sample_init])
  show "request_ok sample_pool_mgr spawned_pool_data_new (InitPoolsRequest 0)"
    using sample_parentless by (simp add: auto_spawn_pools_for_map_like_cpp_def sample_pool_mgr_def)
qed

section \<open>Properties\<close>

text \<open>
  C16: Loading never fails on its own and never hangs: from tables with their primary keys, in any
  order of the templates and whatever maps the store names, it ends with a manager that is well
  formed: groups filed under their pool and kind, every member in one pool, child identifiers
  that fit, a relation of child pools without cycles, templates for all pools with members, and
  only pools without a parent registered for automatic spawning.
\<close>

theorem loaded_pools_are_well_formed:
  assumes "tables_ok db" and "\<And>xs. set (key_order xs) = set xs"
  shows "\<exists>m report'. load_pool_mgr_like_cpp key_order (pool_catalog_of db) store report = Some (Inr m, report') \<and>
    pools_ok m \<and> (\<forall>map_id. list_all (parentless m) (auto_spawn_pools_for_map_like_cpp m map_id))"
  using loaded_manager [OF assms, where store = store and report = report] by (auto simp: top_level_auto_def)

theorem loaded_pools_are_well_formed_witness:
  "\<exists>m report'. load_pool_mgr_like_cpp (\<lambda>ps. ps) (pool_catalog_of sample_pool_tables) (\<lambda>t i. Some 0) empty_report =
      Some (Inr m, report') \<and> pools_ok m \<and>
    (\<forall>map_id. list_all (parentless m) (auto_spawn_pools_for_map_like_cpp m map_id))"
  by (rule loaded_pools_are_well_formed [OF sample_tables_ok refl])



text \<open>
  C17: Requests on a running map are planned without an error: initialising a map, spawning a pool
  that has no parent or is spawned, updating a spawned member and despawning any pool all return a
  plan, so no cycle, missing template or overflowing identifier is ever met at run time.
\<close>

theorem pool_requests_succeed:
  assumes "tables_ok db" and "\<And>xs. set (key_order xs) = set xs"
    and "load_pool_mgr_like_cpp key_order (pool_catalog_of db) store report = Some (Inr m, report')"
    and "pools_run m roll_for choice s r" and "request_ok m s req"
  shows "\<exists>s' r'. pool_request m roll_for choice req s r = Some (True, s', r')"
  using request_result [OF loaded_ok(1) [OF assms(1-3)] run_bounded [OF loaded_ok(1) [OF assms(1-3)] assms(4)] assms(5),
      of roll_for choice r]
  by blast

theorem pool_requests_succeed_witness:
  "\<exists>s' r'. pool_request sample_pool_mgr server_roll server_choice (UpdatePoolRequest 1 SpawnCreature 11) sample_spawned () =
     Some (True, s', r')"
proof (rule pool_requests_succeed [OF sample_tables_ok refl sample_loaded sample_run])
  show "request_ok sample_pool_mgr sample_spawned (UpdatePoolRequest 1 SpawnCreature 11)"
  proof -
    have "update_target sample_pool_mgr 1 SpawnCreature 11 = (PoolCreature, 1, 11)"
      by (simp add: update_target_def sample_pool_mgr_def)
    then show ?thesis
      by (simp add: sample_groups member_live_def is_spawned_creature_like_cpp_def sample_spawned_def)
  qed
qed

text \<open>
  C18: Despawning empties a pool: its counter is zero and none of its members of any kind is
  spawned any more, while every counter outside the pool and the pools below it is unchanged.
\<close>

theorem despawned_pool_is_empty:
  assumes "tables_ok db" and "\<And>xs. set (key_order xs) = set xs"
    and "load_pool_mgr_like_cpp key_order (pool_catalog_of db) store report = Some (Inr m, report')"
    and "pools_run m roll_for choice s r"
  shows "\<exists>plan s'. despawn_pool_plan_like_cpp m p always s = Some (Inr plan, s') \<and> live_count m s' p = 0 \<and>
    get_spawned_objects_like_cpp s' p = 0 \<and>
    (\<forall>q. q \<notin> below m p \<longrightarrow> get_spawned_objects_like_cpp s' q = get_spawned_objects_like_cpp s q)"
proof -
  have ok: "pools_ok m" by (rule loaded_ok(1) [OF assms(1-3)])
  obtain plan s' where d: "despawn_pool_plan_like_cpp m p always s = Some (Inr plan, s')" "shrinks m p s s'" "counter s' p = 0"
    using despawn_request [OF ok run_bounded [OF ok assms(4)]] by blast
  have "live_count m s' p = 0" using shrinksD(1) [OF d(2)] d(3) by (simp add: counts_ok_def)
  moreover have "get_spawned_objects_like_cpp s' p = 0" using d(3) by (simp add: counter_def unsigned_eq_0_iff)
  moreover have "get_spawned_objects_like_cpp s' q = get_spawned_objects_like_cpp s q" if "q \<notin> below m p" for q
    using shrinksD(3) [OF d(2) that] by (simp add: get_spawned_objects_like_cpp_def)
  ultimately show ?thesis using d(1) by blast
qed

theorem despawned_pool_is_empty_witness:
  "\<exists>plan s'. despawn_pool_plan_like_cpp sample_pool_mgr 1 True sample_spawned = Some (Inr plan, s') \<and>
    live_count sample_pool_mgr s' 1 = 0 \<and> get_spawned_objects_like_cpp s' 1 = 0 \<and>
    (\<forall>q. q \<notin> below sample_pool_mgr 1 \<longrightarrow> get_spawned_objects_like_cpp s' q = get_spawned_objects_like_cpp sample_spawned q)"
  by (rule despawned_pool_is_empty [OF sample_tables_ok refl sample_loaded sample_run])

text \<open>
  C19: Spawning fills a pool: for a pool of creatures or of game objects with equal chances, and
  choices that answer as many different candidates as requested, as the server's do, the pool has
  after a spawn as many spawned members as its limit allows, or all of them if they are fewer.
\<close>

theorem spawning_fills_the_pool:
  assumes "tables_ok db" and "\<And>xs. set (key_order xs) = set xs"
    and "load_pool_mgr_like_cpp key_order (pool_catalog_of db) store report = Some (Inr m, report')"
    and "pools_run m roll_for choice s r" and "request_ok m s (SpawnPoolRequest p)"
    and "group_like_cpp m kind p = Some g" and "kind \<noteq> PoolPool" and "explicitly_chanced g = []"
    and "fair_choice choice" and "0 \<notin> set (pool_members m kind p)"
    and "\<And>k. k \<noteq> kind \<Longrightarrow> pool_members m k p = []"
  shows "\<exists>plan s' r'. spawn_pool_plan_like_cpp m roll_for choice p s r = Some (Inr plan, s', r') \<and>
    live_count m s' p = min (pool_limit m p) (member_count m p)"
proof -
  have ok: "pools_ok m" by (rule loaded_ok(1) [OF assms(1-3)])
  have s: "pools_bounded m s" by (rule run_bounded [OF ok assms(4)])
  have p: "entered m p s" using assms(5) by simp
  obtain plan s' r' where x: "spawn_pool_plan_like_cpp m roll_for choice p s r = Some (Inr plan, s', r')" "pools_bounded m s'"
    using spawn_request [OF ok s p, of roll_for choice r] by blast
  have "outcome never (\<lambda>_ w'. counter (spawns w') p = min (pool_limit m p) (member_count m p))
      (spawn_pool_plan_with_visited_like_cpp m roll_for choice p (unvisited s r))"
    by (rule fill_pool [OF ok s p assms(6-11)])
  then have "counter s' p = min (pool_limit m p) (member_count m p)"
    using x(1) by (auto simp: spawn_pool_plan_like_cpp_def planned_def dest!: outcome_plan)
  then show ?thesis using x by (auto simp: pools_bounded_def counts_ok_def)
qed

theorem spawning_fills_the_pool_witness:
  "\<exists>plan s' r'. spawn_pool_plan_like_cpp sample_pool_mgr server_roll server_choice 1 spawned_pool_data_new () =
      Some (Inr plan, s', r') \<and> live_count sample_pool_mgr s' 1 = min 2 3"
proof -
  have limit: "pool_limit sample_pool_mgr 1 = 2" "member_count sample_pool_mgr 1 = 3"
    by (simp_all add: pool_limit_def member_count_def sample_groups) (simp add: sample_pool_mgr_def)
  have "\<exists>plan s' r'. spawn_pool_plan_like_cpp sample_pool_mgr server_roll server_choice 1 spawned_pool_data_new () =
      Some (Inr plan, s', r') \<and> live_count sample_pool_mgr s' 1 = min (pool_limit sample_pool_mgr 1) (member_count sample_pool_mgr 1)"
  proof (rule spawning_fills_the_pool [OF sample_tables_ok refl sample_loaded pools_run.start])
    show "request_ok sample_pool_mgr spawned_pool_data_new (SpawnPoolRequest 1)"
      by (simp add: entered_def sample_parentless)
    show "group_like_cpp sample_pool_mgr PoolCreature 1 = Some (the (hm_get (creature_groups sample_pool_mgr) 1))"
      "explicitly_chanced (the (hm_get (creature_groups sample_pool_mgr) 1)) = []"
      by (simp_all add: group_like_cpp_def sample_pool_mgr_def)
    show "pool_members sample_pool_mgr k 1 = []" if "k \<noteq> PoolCreature" for k
      using that by (cases k) (simp_all add: sample_groups)
  qed (simp_all add: server_choice_fair sample_groups)
  then show ?thesis by (simp only: limit)
qed

end
