(* ===== verification/Spec2Isabelle.thy ===== *)
theory Spec2Isabelle
  imports PacketLaws LootLifecycle GroupRestart EventMap InstanceLockSync InstanceScriptLaws PoolProperties
begin

text \<open>
  RustyCore: a verification library for the state-owning parts of the game server.

  \<^bold>\<open>The program.\<close>  RustyCore is a server for an online game, written in Rust and split into crates
  under \<open>src/crates\<close>.  Sessions (\<open>wow-world\<close>) decode packets (\<open>wow-packet\<close>) and act on shared
  owners of state: the loot authority of each loot source (\<open>wow-loot\<close>), the registry of groups with
  its directory of invites (\<open>wow-social\<close>), the manager of instance locks (\<open>wow-instances\<close>), the
  event schedules of scripts (\<open>wow-core\<close>) and the manager of spawn pools, which plans what the
  maps spawn (\<open>wow-map\<close>).  Owners answer with values that say what to send and
  what to write; the session hands the latter to adapters of the characters database
  (\<open>wow-persistence\<close>, \<open>wow-database\<close>), and \<open>world-server\<close> rebuilds groups and instance
  locks from the tables at start-up and loads the pools of the world database.  Everything is named by 128-bit identifiers (\<open>wow-core\<close>).

  \<^bold>\<open>Theories.\<close>
  \<^item> \<open>Prelude\<close>: the machine integers as type synonyms; saturating and wrapping arithmetic,
    little-endian bytes, \<open>HashMap\<close> and \<open>BTreeMap\<close> as association lists with the interface
    \<open>keyed_store\<close>, vectors updated at the first match.
  \<^item> \<open>Guid\<close> (\<open>wow-core/src/guid.rs\<close>): discriminants, bit layout, factories, accessors, order, raw
    bytes, the generators of object, equipment-set and void-storage identifiers.
  \<^item> \<open>PacketBuffer\<close>, \<open>PacketLaws\<close> (\<open>wow-packet/src/world_packet.rs\<close>): the write and read cursors
    with their bit positions, packed identifiers, strings; round trips of bit fields, packed
    identifiers and C strings, and bounds of the read cursor.
  \<^item> \<open>LootModel\<close>, \<open>LootAuthority\<close> (\<open>wow-loot/src/authority/state.rs\<close>, \<open>ops_1.rs\<close>, \<open>ops_2.rs\<close>): pools,
    claims, reservations, leases, persistence guards and every method of the authority.
    \<open>LootSystem\<close> runs sequences of operations of many sessions; \<open>LootInvariant\<close>, \<open>LootSteps\<close>,
    \<open>LootResolve\<close>, \<open>LootClaims\<close> keep its invariant; \<open>LootProperties\<close>, \<open>LootLifecycle\<close> conclude:
    nothing is handed out twice, a durable claim commits, no wake-up is lost, the life cycle of
    an authority only moves along its edges.
  \<^item> \<open>GroupModel\<close>, \<open>GroupMembership\<close>, \<open>GroupTransitions\<close>, \<open>GroupSettings\<close>, \<open>GroupReadyCheck\<close>,
    \<open>GroupInvites\<close> (the files of \<open>wow-social/src/group\<close> of the same names): one definition per
    method.  \<open>GroupInvariant\<close>, \<open>GroupSystem\<close>, \<open>GroupRuns\<close>: rosters, subgroup counters, storage
    identifiers and invites are well formed in every run.  \<open>GroupProperties\<close>, \<open>GroupBehaviour\<close>:
    what each transition does on each branch.
  \<^item> \<open>GroupDatabase\<close> (\<open>wow-persistence/src/group.rs\<close>, \<open>wow-database\<close>: the represented group adapter,
    \<open>params.rs\<close> and the statements, \<open>wow-world/src/handlers/group\<close>, \<open>world-server/src/runtime/map.rs\<close>):
    from persistence intents to prepared statements, the meaning of the SQL, and the start-up load.
    \<open>GroupPersistence\<close>, \<open>GroupSync\<close>, \<open>GroupSyncRuns\<close>: the tables refine the registry in every run.
    \<open>GroupRestart\<close>: the start-up load rebuilds the registry from them.
  \<^item> \<open>EventMap\<close> (\<open>wow-core/src/event_map.rs\<close>): the schedule, its refinement of a stable list ordered
    by deadline, and what draining it yields.
  \<^item> \<open>InstanceLocks\<close>, \<open>InstanceLockOps\<close> (\<open>wow-instances/src/instances/state_1.rs\<close>, \<open>ops_1.rs\<close>): locks,
    their shared data as a heap behind weak references, reset times, every operation of the
    manager.  \<open>InstanceLockLaws\<close>: reset times, updates, loaded locks.  \<open>MapDifficulty\<close>
    (\<open>wow-data/src/map.rs\<close>, \<open>difficulty.rs\<close>): the stores the entries of a lock come from and the
    resolution of difficulties.  \<open>InstanceLockDatabase\<close> (\<open>wow-database\<close>: the instance lock adapter;
    \<open>wow-world\<close>: the handlers that change locks), \<open>InstanceLockSync\<close>: the table of character
    locks refines the manager.
  \<^item> \<open>InstanceScript\<close> (\<open>wow-instances/src/instances/state_1.rs\<close>, \<open>state_2.rs\<close>): encounter states,
    combat resurrections, entrances and the save data of instance scripts; \<open>serde_json\<close> is a
    parameter.  \<open>InstanceScriptLaws\<close>: a boss dies once, and saved progress is read again.
  \<^item> \<open>Float32\<close>: comparison, addition and subtraction of \<open>f32\<close>, rounded to nearest even, on bit
    patterns.
  \<^item> \<open>PoolModel\<close>, \<open>PoolPlans\<close> (\<open>wow-map/src/pool/state_1.rs\<close>, \<open>state_2.rs\<close>, the spawned-pool data of
    \<open>wow-map/src/map/mod.rs\<close>): groups with their chances, the pool manager, and the plans for
    spawning, despawning, updating and initialising, recursive through pools of pools.
    \<open>PoolTermination\<close>: planning returns, also on cyclic pools.  \<open>PoolCounts\<close>, \<open>PoolLaws\<close>,
    \<open>PoolSpawning\<close>, \<open>PoolRuns\<close>: counters, limits and errors of one plan and of runs of requests.
    \<open>PoolLoader\<close> (\<open>world-server/src/spawn_store_loader/pool_loader.rs\<close>, the queries of
    \<open>wow-database\<close>), \<open>PoolLoading\<close>: loading, and what every loaded manager satisfies.
    \<open>PoolProperties\<close> puts both together.

  \<^bold>\<open>Conventions.\<close>  Integers have their width and wrap, as in the release profile; a shift takes its
  distance modulo the width, and floats are their bit patterns.  Errors and early returns are
  values of \<open>option\<close> or a sum; an assertion or a panic is \<open>None\<close> where one can be reached.  Hash
  maps are association lists whose order is any order the code may see; ordered maps are sorted
  lists.  A transition the code runs under a lock is one step, and a run is a list of such steps,
  so every interleaving of sessions is covered.  A wait is one poll of its future.  A poisoned
  mutex is recovered by the code and needs no case.  Times, connected players, difficulty
  validators, random delays and rolls, clones held by callers, the driver, the width at which the driver
  reads a column, and the order of unordered rows are parameters.

  \<^bold>\<open>Interfaces.\<close>  \<open>keyed_store\<close> is the interface of both maps, \<open>id_generator\<close> that of the three
  generators, \<open>wire_codec\<close> that of the packet fields with a fixed encoding, \<open>invariant_system\<close> that
  of runs, \<open>authority_contract\<close> what every method of a loot authority keeps, \<open>group_operation\<close> and
  its extension \<open>persistent_operation\<close> what every transition of one group keeps in memory and in
  the tables.  Each is interpreted on the definitions of the model, and the properties rest on
  those interpretations.

  \<^bold>\<open>Bounds.\<close>  Runs of the loot system have fewer than \<open>2 ^ 64 - 1\<close> operations and runs of the group
  system fewer than \<open>2 ^ 32 - 1\<close>, so that tokens, epochs and storage identifiers do not wrap, which
  the theorems that need it state.  Reset times are for clocks below \<open>2 ^ 56\<close> seconds.  No
  definition runs on fuel.  The loops and recursions the code does not bound are partial functions:
  for the fallback chain of difficulties termination is characterised exactly; planning over pools
  is proved to return on any manager, and the propagation of maps through parent pools from any
  tables.  The table of pool members has its primary key, fewer
  than \<open>2 ^ 32\<close> rows and no row for a child pool 0 (\<open>tables_ok\<close>), so counters do not wrap and no
  child passes for a pool without parent.

  \<^bold>\<open>What the theorems found.\<close>  The allocator of group storage identifiers can return one in use after
  a load with gaps; accepting a pending invite does not check that the leader is still without a
  group; \<open>server_id\<close> masks 13 of the 24 bits the factory stores; loaded instance locks are filed
  under realm 0, where no session looks; a difficulty that falls back to itself is resolved for
  ever; the server's rolls for pools are constant, so pools never rotate at random, and pools are
  checked for a sum of chances of exactly one hundred where the documents ask for at most that.

  \<^bold>\<open>Not modelled.\<close>  Sockets, channels, encryption and process start-up (input and output over
  external packages); the packet opcodes and other generated tables; geometry, combat formulas,
  movement generators and native navigation (floating point and bindings); loading of client
  files; the effects a pool plan has on a live map (records of entities, grids, respawn timers) and
  the loading of spawns and spawn groups; the rolling of loot templates; the bodies of the session
  handlers beyond the group and instance-lock parts named above; entities, spells, scripts and
  content.
\<close>

end
